(* ===== verification/Js_Number.thy ===== *)
theory Js_Number
  imports Prelude Complex_Main
begin

text \<open>
  JavaScript numbers as the code uses them.  A \<open>number\<close> is an integer-valued double, a
  fractional one, an infinity or NaN; \<open>js_round\<close> is the rounding of an exact integer result
  to binary64 (53 significant bits, ties to even), \<open>js_of_int\<close> the result of an integer
  operation (an infinity from $2^{1024}$ on).  Negative zero is identified with zero: no
  operation of the code tells them apart.  The lemmas show that a result that is a safe
  integer is exact, which is what makes the guards of \<open>Money.of\<close> sufficient.
\<close>

datatype js_number = Js_Int int | Js_Fraction rat | Js_Infinity bool | Js_NaN

definition max_safe :: int where
  "max_safe = 2 ^ 53 - 1"

definition is_safe :: "int \<Rightarrow> bool" where
  "is_safe n \<longleftrightarrow> \<bar>n\<bar> \<le> max_safe"

text \<open>How many low bits a natural number has beyond 53.\<close>

fun excess_bits :: "nat \<Rightarrow> nat" where
  "excess_bits n = (if n < 2 ^ 53 then 0 else Suc (excess_bits (n div 2)))"

declare excess_bits.simps [simp del]

definition round_nat :: "nat \<Rightarrow> nat" where
  "round_nat n = (let e = excess_bits n; q = n div 2 ^ e; r = n mod 2 ^ e in
     if 2 * r < 2 ^ e \<or> (2 * r = 2 ^ e \<and> even q) then q * 2 ^ e else (q + 1) * 2 ^ e)"

definition js_round :: "int \<Rightarrow> int" where
  "js_round n = (if n < 0 then - int (round_nat (nat (- n))) else int (round_nat (nat n)))"

definition js_of_int :: "int \<Rightarrow> js_number" where
  "js_of_int n = (let r = js_round n in
     if \<bar>r\<bar> < 2 ^ 1024 then Js_Int r else Js_Infinity (0 < r))"

lemma excess_bits_small: "n < 2 ^ 53 \<Longrightarrow> excess_bits n = 0"
  by (simp add: excess_bits.simps)

lemma round_nat_small: "n < 2 ^ 53 \<Longrightarrow> round_nat n = n"
  by (simp add: round_nat_def excess_bits_small)

lemma excess_bits_head: "2 ^ 53 \<le> n \<Longrightarrow> 0 < excess_bits n \<and> 2 ^ 52 \<le> n div 2 ^ excess_bits n"
proof (induction n rule: excess_bits.induct)
  case (1 n)
  have e: "excess_bits n = Suc (excess_bits (n div 2))"
    using "1.prems" by (subst excess_bits.simps) simp
  show ?case
  proof (cases "n div 2 < 2 ^ 53")
    case True
    then show ?thesis using e "1.prems" by (simp add: excess_bits_small)
  next
    case False
    then have "2 ^ 52 \<le> n div 2 div 2 ^ excess_bits (n div 2)"
      using "1.IH" "1.prems" by simp
    then show ?thesis using e by (simp add: div_mult2_eq)
  qed
qed

lemma round_nat_large:
  assumes "2 ^ 53 \<le> n"
  shows "2 ^ 53 \<le> round_nat n"
proof -
  let ?e = "excess_bits n"
  have q: "(2::nat) ^ 52 \<le> n div 2 ^ ?e" and "0 < ?e"
    using excess_bits_head [OF assms] by auto
  then have p: "(2::nat) ^ 1 \<le> 2 ^ ?e"
    by (intro power_increasing) auto
  have "(2::nat) ^ 52 * 2 ^ 1 \<le> n div 2 ^ ?e * 2 ^ ?e"
    using q p by (rule mult_le_mono)
  then have "2 ^ 53 \<le> n div 2 ^ ?e * 2 ^ ?e" by simp
  then show ?thesis by (auto simp: round_nat_def Let_def)
qed

lemma js_round_safe [simp]: "is_safe n \<Longrightarrow> js_round n = n"
  by (auto simp: js_round_def is_safe_def max_safe_def round_nat_small)

lemma js_round_safe_iff [simp]: "is_safe (js_round n) \<longleftrightarrow> is_safe n"
proof
  assume s: "is_safe (js_round n)"
  show "is_safe n"
  proof (rule ccontr)
    assume "\<not> is_safe n"
    then have "2 ^ 53 \<le> nat \<bar>n\<bar>" by (auto simp: is_safe_def max_safe_def)
    then have "2 ^ 53 \<le> round_nat (nat \<bar>n\<bar>)" by (rule round_nat_large)
    then have "2 ^ 53 \<le> \<bar>js_round n\<bar>" by (auto simp: js_round_def split: if_splits)
    then show False using s by (simp add: is_safe_def max_safe_def)
  qed
qed simp

lemma js_round_exact: "is_safe (js_round n) \<Longrightarrow> js_round n = n"
  by simp

lemma js_of_int_safe: "is_safe n \<Longrightarrow> js_of_int n = Js_Int n"
  by (simp add: js_of_int_def) (simp add: is_safe_def max_safe_def)

lemma js_of_int_code [code]:
  "js_of_int n = (if is_safe n then Js_Int n else let r = js_round n in
     if \<bar>r\<bar> < 2 ^ 1024 then Js_Int r else Js_Infinity (0 < r))"
  by (cases "is_safe n") (simp_all add: js_of_int_safe, simp add: js_of_int_def)

lemma js_round_code [code]:
  "js_round n = (if is_safe n then n else if n < 0 then - int (round_nat (nat (- n))) else int (round_nat (nat n)))"
  by (cases "is_safe n") (simp, simp add: js_round_def)

lemma js_of_int_cases:
  "js_of_int n = Js_Int m \<Longrightarrow> m = js_round n"
  by (auto simp: js_of_int_def Let_def split: if_splits)

lemma is_safe_0 [simp]: "is_safe 0" by (simp add: is_safe_def max_safe_def)

lemma is_safe_uminus [simp]: "is_safe (- n) \<longleftrightarrow> is_safe n" by (simp add: is_safe_def)

lemma js_round_nonneg: "0 \<le> n \<Longrightarrow> 0 \<le> js_round n"
  by (simp add: js_round_def)

text \<open>Two safe integers that add up beyond the safe range: the sum is rounded.\<close>

lemma js_round_inexact: "js_round (2 ^ 53 + 1) = 2 ^ 53"
  by (simp add: js_round_def round_nat_def excess_bits.simps)

end
