(* ===== verification/Js_Text.thy ===== *)
theory Js_Text
  imports Prelude
begin

text \<open>
  Texts of the code as lists of ASCII characters: the character classes of its regular
  expressions, case conversion and trimming, \<open>String\<close> of a natural number
  (\<open>decimal\<close>, its plain digits) and
  \<open>padStart\<close>.
\<close>

section \<open>Characters\<close>

definition code_of :: "char \<Rightarrow> nat" where
  "code_of c = of_char c"

definition is_digit :: "char \<Rightarrow> bool" where
  "is_digit c \<longleftrightarrow> 48 \<le> code_of c \<and> code_of c \<le> 57"

definition is_upper :: "char \<Rightarrow> bool" where
  "is_upper c \<longleftrightarrow> 65 \<le> code_of c \<and> code_of c \<le> 90"

definition is_lower :: "char \<Rightarrow> bool" where
  "is_lower c \<longleftrightarrow> 97 \<le> code_of c \<and> code_of c \<le> 122"

definition is_letter :: "char \<Rightarrow> bool" where
  "is_letter c \<longleftrightarrow> is_upper c \<or> is_lower c"

definition is_space :: "char \<Rightarrow> bool" where
  "is_space c \<longleftrightarrow> code_of c = 32 \<or> (9 \<le> code_of c \<and> code_of c \<le> 13)"

definition to_upper :: "char \<Rightarrow> char" where
  "to_upper c = (if is_lower c then char_of (code_of c - 32) else c)"

definition to_lower :: "char \<Rightarrow> char" where
  "to_lower c = (if is_upper c then char_of (code_of c + 32) else c)"

definition upper_case :: "string \<Rightarrow> string" where
  "upper_case s = map to_upper s"

definition lower_case :: "string \<Rightarrow> string" where
  "lower_case s = map to_lower s"

definition trim :: "string \<Rightarrow> string" where
  "trim s = rev (dropWhile is_space (rev (dropWhile is_space s)))"

definition digit_value :: "char \<Rightarrow> nat" where
  "digit_value c = code_of c - 48"

definition digit_char :: "nat \<Rightarrow> char" where
  "digit_char d = char_of (48 + d)"

lemma code_of_char_of [simp]: "n < 256 \<Longrightarrow> code_of (char_of n) = n"
  by (simp add: code_of_def)

lemma char_of_code_of [simp]: "char_of (code_of c) = c"
  by (simp add: code_of_def)

lemma code_of_eq_iff: "c = d \<longleftrightarrow> code_of c = code_of d"
  by (simp add: code_of_def)

lemma code_of_to_lower: "code_of (to_lower c) = (if is_upper c then code_of c + 32 else code_of c)"
  by (simp add: to_lower_def is_upper_def)

lemma code_of_to_upper: "code_of (to_upper c) = (if is_lower c then code_of c - 32 else code_of c)"
  by (auto simp: to_upper_def is_lower_def)

lemma code_of_less: "code_of c < 256"
  using nat_of_char_less_256 by (simp add: code_of_def)

lemma digit_value_char [simp]: "d < 10 \<Longrightarrow> digit_value (digit_char d) = d"
  by (simp add: digit_value_def digit_char_def)

lemma is_digit_char [simp]: "d < 10 \<Longrightarrow> is_digit (digit_char d)"
  by (simp add: is_digit_def digit_char_def)

lemma digit_char_value [simp]: "is_digit c \<Longrightarrow> digit_char (digit_value c) = c"
  by (simp add: is_digit_def digit_char_def digit_value_def)

lemma digit_value_less: "is_digit c \<Longrightarrow> digit_value c < 10"
  by (auto simp: is_digit_def digit_value_def)

lemma to_upper_upper: "is_upper c \<Longrightarrow> to_upper c = c"
  by (auto simp: to_upper_def is_upper_def is_lower_def)

lemma upper_case_upper: "list_all is_upper s \<Longrightarrow> upper_case s = s"
  by (induction s) (auto simp: upper_case_def to_upper_upper)

lemma to_upper_idem [simp]: "to_upper (to_upper c) = to_upper c"
  by (auto simp: to_upper_def is_lower_def)

lemma upper_case_idem [simp]: "upper_case (upper_case s) = upper_case s"
  by (simp add: upper_case_def comp_def)

lemma to_lower_idem [simp]: "to_lower (to_lower c) = to_lower c"
  by (auto simp: to_lower_def is_upper_def)

lemma lower_case_idem [simp]: "lower_case (lower_case s) = lower_case s"
  by (simp add: lower_case_def comp_def)

section \<open>Decimal text\<close>

fun decimal :: "nat \<Rightarrow> string" where
  "decimal n = (if n < 10 then [digit_char n] else decimal (n div 10) @ [digit_char (n mod 10)])"

declare decimal.simps [simp del]

definition read_decimal :: "string \<Rightarrow> nat" where
  "read_decimal s = foldl (\<lambda>a c. 10 * a + digit_value c) 0 s"

definition pad_start :: "nat \<Rightarrow> char \<Rightarrow> string \<Rightarrow> string" where
  "pad_start w c s = replicate (w - length s) c @ s"

lemma read_decimal_snoc [simp]: "read_decimal (s @ [c]) = 10 * read_decimal s + digit_value c"
  by (simp add: read_decimal_def)

lemma read_decimal_decimal [simp]: "read_decimal (decimal n) = n"
proof (induction n rule: decimal.induct)
  case (1 n)
  then show ?case
    by (cases "n < 10") (subst decimal.simps, simp add: read_decimal_def, subst decimal.simps, simp)
qed

lemma decimal_digits: "list_all is_digit (decimal n)"
proof (induction n rule: decimal.induct)
  case (1 n)
  then show ?case by (cases "n < 10") (subst decimal.simps, simp)+
qed

lemma decimal_nonempty [simp]: "decimal n \<noteq> []"
  by (subst decimal.simps) simp

lemma decimal_inject: "decimal m = decimal n \<longleftrightarrow> m = n"
  by (metis read_decimal_decimal)

lemma read_decimal_zeros [simp]: "read_decimal (replicate k CHR ''0'' @ s) = read_decimal s"
proof -
  have z: "digit_value CHR ''0'' = 0" by (simp add: digit_value_def code_of_def)
  have "foldl (\<lambda>a c. 10 * a + digit_value c) 0 (replicate k CHR ''0'') = 0"
    by (induction k) (simp_all add: z)
  then show ?thesis by (simp add: read_decimal_def)
qed

lemma read_decimal_pad [simp]: "read_decimal (pad_start w CHR ''0'' s) = read_decimal s"
  by (simp add: pad_start_def)

lemma pad_start_digits: "list_all is_digit s \<Longrightarrow> list_all is_digit (pad_start w CHR ''0'' s)"
  by (induction w) (auto simp: pad_start_def list_all_iff is_digit_def code_of_def)

lemma pad_start_length: "length (pad_start w c s) = max w (length s)"
  by (simp add: pad_start_def max_def)

end
