(* ===== verification/Kernel_Values.thy ===== *)
theory Kernel_Values
  imports Js_Number Js_Text
begin

text \<open>
  The value objects of packages/shared-kernel: identifiers (unique-id.ts), business
  references (business-reference.ts), GLN (gln.ts), Money (money.ts), Quantity
  (quantity.ts), the currency exponents and the rendering of amounts (currency-exponent.ts,
  money-text.ts).  A static constructor that validates is a function into
  \<open>kernel_error + 'a\<close>, and the regular expressions of the code are Boolean functions on texts.
\<close>

datatype gln_reason = Bad_Gln_Shape | Check_Digit_Mismatch nat nat | Bad_Gln_Body

datatype kernel_error =
    Invalid_Money_Amount js_number
  | Invalid_Currency_Code string
  | Currency_Mismatch string string
  | Invalid_Quantity js_number
  | Invalid_Unique_Id string
  | Invalid_Business_Reference string string
  | Invalid_Sequence string js_number
  | Invalid_Gln string gln_reason

section \<open>UniqueId\<close>

definition is_hex :: "char \<Rightarrow> bool" where
  "is_hex c \<longleftrightarrow> is_digit c \<or> (65 \<le> code_of c \<and> code_of c \<le> 70) \<or> (97 \<le> code_of c \<and> code_of c \<le> 102)"

definition hex_run :: "nat \<Rightarrow> string \<Rightarrow> bool" where
  "hex_run n s \<longleftrightarrow> length s = n \<and> list_all is_hex s"

definition uuid_v4_shape :: "string \<Rightarrow> bool" where
  "uuid_v4_shape s \<longleftrightarrow> length s = 36 \<and>
     hex_run 8 (take 8 s) \<and> s ! 8 = CHR ''-'' \<and>
     hex_run 4 (take 4 (drop 9 s)) \<and> s ! 13 = CHR ''-'' \<and>
     s ! 14 = CHR ''4'' \<and> hex_run 3 (take 3 (drop 15 s)) \<and> s ! 18 = CHR ''-'' \<and>
     s ! 19 \<in> set ''89abAB'' \<and> hex_run 3 (take 3 (drop 20 s)) \<and> s ! 23 = CHR ''-'' \<and>
     hex_run 12 (drop 24 s)"

definition unique_id_from :: "string \<Rightarrow> kernel_error + uid" where
  "unique_id_from s = (if uuid_v4_shape s then Inr (lower_case s) else Inl (Invalid_Unique_Id s))"

lemma is_hex_to_lower [simp]: "is_hex (to_lower c) \<longleftrightarrow> is_hex c"
  by (auto simp: is_hex_def to_lower_def is_upper_def is_digit_def)

lemma hex_run_lower [simp]: "hex_run n (map to_lower s) \<longleftrightarrow> hex_run n s"
  by (simp add: hex_run_def list_all_length)

lemma to_lower_fixed:
  "to_lower c = CHR ''-'' \<longleftrightarrow> c = CHR ''-''"
  "to_lower c = CHR ''4'' \<longleftrightarrow> c = CHR ''4''"
  "to_lower c = CHR ''8'' \<longleftrightarrow> c = CHR ''8''"
  "to_lower c = CHR ''9'' \<longleftrightarrow> c = CHR ''9''"
  "to_lower c = CHR ''a'' \<longleftrightarrow> c = CHR ''a'' \<or> c = CHR ''A''"
  "to_lower c = CHR ''b'' \<longleftrightarrow> c = CHR ''b'' \<or> c = CHR ''B''"
  "to_lower c \<noteq> CHR ''A''" "to_lower c \<noteq> CHR ''B''"
  by (auto simp: code_of_eq_iff code_of_to_lower is_upper_def) (auto simp: code_of_def)

lemma uuid_v4_shape_lower: "uuid_v4_shape (lower_case s) \<longleftrightarrow> uuid_v4_shape s"
proof (cases "length s = 36")
  case True
  have "hex_run n (take k (drop m (lower_case s))) = hex_run n (take k (drop m s))"
    "hex_run n (take k (lower_case s)) = hex_run n (take k s)"
    "hex_run n (drop m (lower_case s)) = hex_run n (drop m s)" for n k m
    by (simp_all add: lower_case_def drop_map take_map)
  moreover have "lower_case s ! n = to_lower (s ! n)" if "n < 36" for n
    using that True by (simp add: lower_case_def)
  moreover have "length (lower_case s) = 36" using True by (simp add: lower_case_def)
  ultimately show ?thesis using True
    by (simp add: uuid_v4_shape_def to_lower_fixed) (simp only: disj_ac)
next
  case False
  then show ?thesis by (simp add: uuid_v4_shape_def lower_case_def)
qed

lemma unique_id_from_idem: "unique_id_from s = Inr u \<Longrightarrow> unique_id_from u = Inr u"
  by (auto simp: unique_id_from_def uuid_v4_shape_lower split: if_splits)

section \<open>Business references\<close>

definition sequence_width :: nat where
  "sequence_width = 6"

definition reference_shape :: "string \<Rightarrow> string \<Rightarrow> bool" where
  "reference_shape pre s \<longleftrightarrow> take (length pre + 1) s = pre @ ''-'' \<and>
     length (drop (length pre + 1) s) = sequence_width \<and> list_all is_digit (drop (length pre + 1) s)"

definition parse_reference :: "string \<Rightarrow> string \<Rightarrow> kernel_error + string" where
  "parse_reference pre s = (if reference_shape pre s then Inr s else Inl (Invalid_Business_Reference pre s))"

text \<open>How an integral number prints: the shortest digits that round to it, plain below
  \<open>10 ^ 21\<close> and in exponent notation from there on.  The search tries one digit after the
  other; 17 digits always determine a number.\<close>

function shortest_from :: "nat \<Rightarrow> nat \<Rightarrow> nat" where
  "shortest_from n k = (let p = 10 ^ (length (decimal k) - n); lo = k div p * p; hi = lo + p in
     if 17 \<le> n then k
     else if round_nat lo = k then (if round_nat hi = k \<and> hi - k < k - lo then hi else lo)
     else if round_nat hi = k then hi
     else shortest_from (Suc n) k)"
  by pat_completeness auto
termination
  by (relation "measure (\<lambda>(n, k). 17 - n)") auto

declare shortest_from.simps [simp del]

definition exponent_text :: "nat \<Rightarrow> string" where
  "exponent_text v = (let ds = decimal v; sig = rev (dropWhile (\<lambda>c. c = CHR ''0'') (rev ds)) in
     (if length sig = 1 then sig else hd sig # CHR ''.'' # tl sig) @ ''e+'' @ decimal (length ds - 1))"

definition number_text :: "nat \<Rightarrow> string" where
  "number_text k = (if int k < 2 ^ 53 then decimal k
     else let v = shortest_from 1 k in if int v < 10 ^ 21 then decimal v else exponent_text v)"

definition format_reference :: "string \<Rightarrow> js_number \<Rightarrow> kernel_error + string" where
  "format_reference pre n = (case n of
     Js_Int k \<Rightarrow>
       if k \<le> 0 then Inl (Invalid_Sequence pre n)
       else let padded = pad_start sequence_width CHR ''0'' (number_text (nat k)) in
         if length padded \<noteq> sequence_width then Inl (Invalid_Sequence pre n)
         else Inr (pre @ ''-'' @ padded)
   | _ \<Rightarrow> Inl (Invalid_Sequence pre n))"

datatype order_number = Order_Number string
datatype despatch_reference = Despatch_Reference string
datatype invoice_reference = Invoice_Reference string
datatype credit_line_reference = Credit_Line_Reference string

definition order_number_of :: "string \<Rightarrow> kernel_error + order_number" where
  "order_number_of s = bindR (parse_reference ''ORD'' s) (\<lambda>r. Inr (Order_Number r))"

definition order_number_from_sequence :: "js_number \<Rightarrow> kernel_error + order_number" where
  "order_number_from_sequence n = bindR (format_reference ''ORD'' n) (\<lambda>r. Inr (Order_Number r))"

definition despatch_reference_of :: "string \<Rightarrow> kernel_error + despatch_reference" where
  "despatch_reference_of s = bindR (parse_reference ''DES'' s) (\<lambda>r. Inr (Despatch_Reference r))"

definition despatch_reference_from_sequence :: "js_number \<Rightarrow> kernel_error + despatch_reference" where
  "despatch_reference_from_sequence n = bindR (format_reference ''DES'' n) (\<lambda>r. Inr (Despatch_Reference r))"

definition invoice_reference_of :: "string \<Rightarrow> kernel_error + invoice_reference" where
  "invoice_reference_of s = bindR (parse_reference ''INV'' s) (\<lambda>r. Inr (Invoice_Reference r))"

definition invoice_reference_from_sequence :: "js_number \<Rightarrow> kernel_error + invoice_reference" where
  "invoice_reference_from_sequence n = bindR (format_reference ''INV'' n) (\<lambda>r. Inr (Invoice_Reference r))"

definition credit_line_reference_of :: "string \<Rightarrow> kernel_error + credit_line_reference" where
  "credit_line_reference_of s = bindR (parse_reference ''CR'' s) (\<lambda>r. Inr (Credit_Line_Reference r))"

definition credit_line_reference_from_sequence :: "js_number \<Rightarrow> kernel_error + credit_line_reference" where
  "credit_line_reference_from_sequence n =
     bindR (format_reference ''CR'' n) (\<lambda>r. Inr (Credit_Line_Reference r))"

fun order_number_value :: "order_number \<Rightarrow> string" where
  "order_number_value (Order_Number s) = s"

fun despatch_reference_value :: "despatch_reference \<Rightarrow> string" where
  "despatch_reference_value (Despatch_Reference s) = s"

fun invoice_reference_value :: "invoice_reference \<Rightarrow> string" where
  "invoice_reference_value (Invoice_Reference s) = s"

fun credit_line_reference_value :: "credit_line_reference \<Rightarrow> string" where
  "credit_line_reference_value (Credit_Line_Reference s) = s"

lemma decimal_length_le: "n < 10 ^ w \<Longrightarrow> 0 < w \<Longrightarrow> length (decimal n) \<le> w"
proof (induction w arbitrary: n)
  case (Suc w)
  then show ?case
  proof (cases "n < 10")
    case True
    then show ?thesis by (subst decimal.simps) simp
  next
    case False
    then have "0 < w" using Suc.prems(1) by (cases w) auto
    moreover have "n div 10 < 10 ^ w" using Suc.prems(1) by auto
    ultimately have "length (decimal (n div 10)) \<le> w" using Suc.IH by blast
    then show ?thesis using False by (subst decimal.simps) simp
  qed
qed simp

lemma decimal_length_gt: "10 ^ w \<le> n \<Longrightarrow> w < length (decimal n)"
proof (induction w arbitrary: n)
  case (Suc w)
  then have "10 ^ w \<le> n div 10" by simp
  then have "w < length (decimal (n div 10))" by (rule Suc.IH)
  moreover have "10 \<le> n" using Suc.prems by (metis le_trans mult.right_neutral one_le_numeral one_le_power power_Suc mult_le_mono2)
  ultimately show ?case by (subst decimal.simps) simp
qed simp

lemma shortest_from_ge: "0 < k \<Longrightarrow> 0 < n \<Longrightarrow> 10 ^ (length (decimal k) - 1) \<le> shortest_from n k"
proof (induction n k rule: shortest_from.induct)
  case (1 n k)
  let ?L = "length (decimal k)"
  let ?p = "10 ^ (?L - n) :: nat"
  have L: "10 ^ (?L - 1) \<le> k"
  proof (rule ccontr)
    assume "\<not> 10 ^ (?L - 1) \<le> k"
    then have less: "k < 10 ^ (?L - 1)" by simp
    then have "0 < ?L - 1" using "1.prems"(1) by (cases "?L - 1") auto
    then have "?L \<le> ?L - 1" using less by (intro decimal_length_le)
    then show False using \<open>0 < ?L - 1\<close> by simp
  qed
  have "10 ^ (?L - 1) \<le> k div ?p * ?p"
  proof -
    have "?p dvd 10 ^ (?L - 1)" using "1.prems"(2) by (intro le_imp_power_dvd) simp
    then obtain q where q: "10 ^ (?L - 1) = q * ?p" by (auto simp: dvd_def mult.commute)
    then have "q \<le> k div ?p" using L by (metis div_le_mono nonzero_mult_div_cancel_right power_not_zero zero_neq_numeral)
    then show ?thesis unfolding q by (rule mult_le_mono1)
  qed
  moreover have "10 ^ (?L - 1) \<le> shortest_from (Suc n) k"
    if "\<not> 17 \<le> n" "round_nat (k div ?p * ?p) \<noteq> k" "round_nat (k div ?p * ?p + ?p) \<noteq> k"
    using "1.IH" [OF refl refl refl that] "1.prems"(1) by simp
  ultimately show ?case using L
    by (subst shortest_from.simps) (simp add: Let_def trans_le_add1)
qed

lemma number_text_long:
  assumes "10 ^ 6 \<le> k" "int k < 2 ^ 53 \<or> int (shortest_from 1 k) < 10 ^ 21"
  shows "6 < length (number_text k)"
proof (cases "int k < 2 ^ 53")
  case True
  then show ?thesis using decimal_length_gt [OF assms(1)] by (simp add: number_text_def)
next
  case False
  have "6 \<le> length (decimal k) - 1" using decimal_length_gt [OF assms(1)] by simp
  then have "(10::nat) ^ 6 \<le> 10 ^ (length (decimal k) - 1)" by (intro power_increasing) auto
  also have "\<dots> \<le> shortest_from 1 k" using assms(1) by (intro shortest_from_ge) auto
  finally show ?thesis using decimal_length_gt [of 6 "shortest_from 1 k"] False assms(2) by (simp add: number_text_def Let_def)
qed

text \<open>Below the point where numbers print in exponent notation, formatting is total on the six-digit
  sequences, and what it prints parses and reads back.\<close>

definition plain_number :: "int \<Rightarrow> bool" where
  "plain_number k \<longleftrightarrow> int (nat k) < 2 ^ 53 \<or> int (shortest_from 1 (nat k)) < 10 ^ 21"

lemma format_reference_plain:
  assumes "plain_number k"
  shows "format_reference pre (Js_Int k) = (if 0 < k \<and> k < 10 ^ 6
    then Inr (pre @ ''-'' @ pad_start 6 CHR ''0'' (decimal (nat k))) else Inl (Invalid_Sequence pre (Js_Int k)))"
proof (cases "0 < k \<and> k < 10 ^ 6")
  case True
  then have "nat k < 10 ^ 6" by (simp add: nat_less_iff)
  then have "length (decimal (nat k)) \<le> 6" by (intro decimal_length_le) auto
  moreover have "int (nat k) < 2 ^ 53" using True by simp
  ultimately show ?thesis using True
    by (simp add: format_reference_def sequence_width_def pad_start_length max_def Let_def number_text_def)
next
  case False
  show ?thesis
  proof (cases "0 < k")
    case True
    then have "10 ^ 6 \<le> nat k" using False by (simp add: le_nat_iff)
    then have "6 < length (number_text (nat k))"
      using assms unfolding plain_number_def by (rule number_text_long)
    then show ?thesis using True False
      by (simp add: format_reference_def sequence_width_def pad_start_length max_def Let_def)
  qed (simp add: format_reference_def)
qed

lemma format_reference_parses:
  "plain_number k \<Longrightarrow> format_reference pre (Js_Int k) = Inr r \<Longrightarrow> parse_reference pre r = Inr r"
proof -
  assume a: "plain_number k" "format_reference pre (Js_Int k) = Inr r"
  then have "r = pre @ ''-'' @ pad_start 6 CHR ''0'' (decimal (nat k))" "nat k < 10 ^ 6"
    by (auto simp: format_reference_plain split: if_splits)
  moreover have "length (decimal (nat k)) \<le> 6" using \<open>nat k < 10 ^ 6\<close> by (intro decimal_length_le) auto
  ultimately show ?thesis
    by (simp add: parse_reference_def reference_shape_def sequence_width_def pad_start_digits decimal_digits pad_start_length)
qed

lemma format_reference_reads_back:
  "plain_number k \<Longrightarrow> format_reference pre (Js_Int k) = Inr r \<Longrightarrow> int (read_decimal (drop (length pre + 1) r)) = k"
  by (auto simp: format_reference_plain split: if_splits)

section \<open>GLN\<close>

definition digits_shape :: "nat \<Rightarrow> string \<Rightarrow> bool" where
  "digits_shape n s \<longleftrightarrow> length s = n \<and> list_all is_digit s"

fun gln_sum :: "nat \<Rightarrow> string \<Rightarrow> nat" where
  "gln_sum k [] = 0"
| "gln_sum k (c # cs) = digit_value c * (if even k then 3 else 1) + gln_sum (Suc k) cs"

definition compute_check_digit :: "string \<Rightarrow> kernel_error + nat" where
  "compute_check_digit body = (if \<not> digits_shape 12 body then Inl (Invalid_Gln body Bad_Gln_Body)
     else Inr ((10 - gln_sum 0 (rev body) mod 10) mod 10))"

definition gln_of :: "string \<Rightarrow> kernel_error + string" where
  "gln_of s = (if \<not> digits_shape 13 s then Inl (Invalid_Gln s Bad_Gln_Shape)
     else bindR (compute_check_digit (take 12 s)) (\<lambda>expected.
       let supplied = digit_value (s ! 12) in
       if supplied \<noteq> expected then Inl (Invalid_Gln s (Check_Digit_Mismatch supplied expected))
       else Inr s))"

lemma compute_check_digit_less: "compute_check_digit b = Inr d \<Longrightarrow> d < 10"
  by (auto simp: compute_check_digit_def split: if_splits)

lemma mod10_complement:
  fixes r d :: nat
  assumes "r < 10" "d < 10"
  shows "d = (10 - r) mod 10 \<longleftrightarrow> (r + d) mod 10 = 0"
proof (cases "r + d < 10")
  case True
  then show ?thesis using assms by (cases "r = 0") auto
next
  case False
  then have "(r + d) mod 10 = r + d - 10" using assms by (simp add: le_mod_geq)
  moreover have "0 < r" using False assms(2) by simp
  ultimately show ?thesis using False assms(1) by auto
qed

lemma gln_of_Inr:
  "gln_of s = Inr g \<longleftrightarrow> g = s \<and> digits_shape 13 s \<and>
     (gln_sum 0 (rev (take 12 s)) + digit_value (s ! 12)) mod 10 = 0"
proof (cases "digits_shape 13 s")
  case True
  then have b: "digits_shape 12 (take 12 s)"
    by (auto simp: digits_shape_def list_all_iff dest: in_set_takeD)
  have d: "digit_value (s ! 12) < 10"
    using True by (intro digit_value_less) (simp add: digits_shape_def list_all_length)
  let ?n = "gln_sum 0 (rev (take 12 s))"
  have "digit_value (s ! 12) = (10 - ?n mod 10) mod 10 \<longleftrightarrow> (?n + digit_value (s ! 12)) mod 10 = 0"
    using mod10_complement [of "?n mod 10", OF _ d] by (simp add: mod_add_left_eq)
  then show ?thesis using True b
    by (auto simp: gln_of_def compute_check_digit_def Let_def)
qed (simp add: gln_of_def)

lemma gln_sum_update:
  assumes "list_all is_digit cs" "i < length cs" "is_digit d"
  shows "gln_sum k (cs[i := d]) + digit_value (cs ! i) * (if even (k + i) then 3 else 1) =
    gln_sum k cs + digit_value d * (if even (k + i) then 3 else 1)"
  using assms
proof (induction cs arbitrary: k i)
  case (Cons c cs)
  then show ?case
  proof (cases i)
    case (Suc j)
    then show ?thesis using Cons.IH [of j "Suc k"] Cons.prems by simp
  qed simp
qed simp

text \<open>Changing one digit of the body changes the sum modulo 10: the weights 3 and 1 are units.\<close>

lemma gln_weight_unit:
  fixes a b w x :: nat
  assumes "a < 10" "b < 10" "w = 1 \<or> w = 3" "(x + a * w) mod 10 = (x + b * w) mod 10"
  shows "a = b"
proof -
  have "int (x + a * w) mod 10 = int (x + b * w) mod 10"
    using assms(4) by (metis of_nat_mod of_nat_numeral)
  then have "10 dvd int (x + a * w) - int (x + b * w)"
    by (simp add: mod_eq_dvd_iff)
  then have "10 dvd int a * int w - int b * int w" by simp
  then show ?thesis using assms(1-3) by (elim disjE) (simp_all, presburger+)
qed

end
