(* ===== verification/Kernel_Money.thy ===== *)
theory Kernel_Money
  imports Kernel_Values
begin

text \<open>
  Money and Quantity (packages/shared-kernel money.ts, quantity.ts), the ISO 4217
  exponent of a currency and the one rendering of an amount
  (currency-exponent.ts, money-text.ts).
  A Money record carries the invariant \<open>money_ok\<close> its private constructor establishes:
  the amount is a safe integer and the currency three capital letters.  The lemmas of
  collection \<open>money_simps\<close> say that arithmetic is exact or refused.
\<close>

named_theorems money_simps "arithmetic of Money on well-formed amounts"

section \<open>Quantity\<close>

datatype quantity = Quantity (q_value: int)

definition quantity_of :: "js_number \<Rightarrow> kernel_error + quantity" where
  "quantity_of v = (case v of
     Js_Int n \<Rightarrow> if n \<le> 0 then Inl (Invalid_Quantity v) else Inr (Quantity n)
   | _ \<Rightarrow> Inl (Invalid_Quantity v))"

definition quantity_add :: "quantity \<Rightarrow> quantity \<Rightarrow> kernel_error + quantity" where
  "quantity_add a b = quantity_of (js_of_int (q_value a + q_value b))"

definition quantity_ok :: "quantity \<Rightarrow> bool" where
  "quantity_ok q \<longleftrightarrow> 0 < q_value q"

lemma quantity_of_Inr:
  "quantity_of v = Inr q \<longleftrightarrow> 0 < q_value q \<and> v = Js_Int (q_value q)"
  by (cases q) (auto simp: quantity_of_def split: js_number.splits if_splits)

section \<open>Money\<close>

record money =
  amount :: int
  currency :: string

definition currency_shape :: "string \<Rightarrow> bool" where
  "currency_shape s \<longleftrightarrow> length s = 3 \<and> list_all is_upper s"

definition validate_currency :: "string \<Rightarrow> kernel_error + string" where
  "validate_currency c = (let n = upper_case c in
     if currency_shape n then Inr n else Inl (Invalid_Currency_Code c))"

definition money_of :: "js_number \<Rightarrow> string \<Rightarrow> kernel_error + money" where
  "money_of v c = (case v of
     Js_Int n \<Rightarrow>
       if \<not> is_safe n then Inl (Invalid_Money_Amount v)
       else bindR (validate_currency c) (\<lambda>cur. Inr \<lparr> amount = n, currency = cur \<rparr>)
   | _ \<Rightarrow> Inl (Invalid_Money_Amount v))"

definition money_zero :: "string \<Rightarrow> kernel_error + money" where
  "money_zero c = money_of (Js_Int 0) c"

definition assert_same_currency :: "money \<Rightarrow> money \<Rightarrow> kernel_error + unit" where
  "assert_same_currency a b =
     ensure (currency a = currency b) (Currency_Mismatch (currency a) (currency b))"

definition money_add :: "money \<Rightarrow> money \<Rightarrow> kernel_error + money" where
  "money_add a b = bindR (assert_same_currency a b) (\<lambda>_.
     money_of (js_of_int (amount a + amount b)) (currency a))"

definition money_subtract :: "money \<Rightarrow> money \<Rightarrow> kernel_error + money" where
  "money_subtract a b = bindR (assert_same_currency a b) (\<lambda>_.
     money_of (js_of_int (amount a - amount b)) (currency a))"

definition money_multiply :: "money \<Rightarrow> quantity \<Rightarrow> kernel_error + money" where
  "money_multiply a q = money_of (js_of_int (amount a * q_value q)) (currency a)"

definition money_negate :: "money \<Rightarrow> kernel_error + money" where
  "money_negate a = money_of (js_of_int (- amount a)) (currency a)"

definition money_compare :: "money \<Rightarrow> money \<Rightarrow> kernel_error + int" where
  "money_compare a b = bindR (assert_same_currency a b) (\<lambda>_. Inr (js_round (amount a - amount b)))"

definition money_is_greater :: "money \<Rightarrow> money \<Rightarrow> kernel_error + bool" where
  "money_is_greater a b = bindR (money_compare a b) (\<lambda>d. Inr (0 < d))"

definition money_is_less_or_equal :: "money \<Rightarrow> money \<Rightarrow> kernel_error + bool" where
  "money_is_less_or_equal a b = bindR (money_compare a b) (\<lambda>d. Inr (d \<le> 0))"

text \<open>JavaScript's remainder has the sign of the dividend.\<close>

definition js_rem :: "int \<Rightarrow> int \<Rightarrow> int" where
  "js_rem a b = (if a < 0 then - ((- a) mod b) else a mod b)"

definition money_mod100 :: "money \<Rightarrow> int" where
  "money_mod100 a = js_rem (js_rem (amount a) 100 + 100) 100"

definition money_ok :: "money \<Rightarrow> bool" where
  "money_ok m \<longleftrightarrow> is_safe (amount m) \<and> currency_shape (currency m)"

lemma validate_currency_shape [simp]: "currency_shape c \<Longrightarrow> validate_currency c = Inr c"
  by (simp add: validate_currency_def currency_shape_def upper_case_upper)

lemma validate_currency_ok: "validate_currency c = Inr d \<Longrightarrow> currency_shape d"
  by (auto simp: validate_currency_def Let_def split: if_splits)

lemma money_of_ok: "money_of v c = Inr m \<Longrightarrow> money_ok m"
  by (auto simp: money_of_def money_ok_def result_simps validate_currency_ok
      split: js_number.splits if_splits)

lemma money_of_int: "currency_shape c \<Longrightarrow>
  money_of (js_of_int n) c = (if is_safe n then Inr \<lparr> amount = n, currency = c \<rparr>
    else Inl (Invalid_Money_Amount (js_of_int n)))"
  by (auto simp: money_of_def js_of_int_safe dest: js_of_int_cases split: js_number.split)

lemma money_add_eval [money_simps]:
  assumes "money_ok a" "money_ok b"
  shows "money_add a b = (if currency a \<noteq> currency b then Inl (Currency_Mismatch (currency a) (currency b))
    else if is_safe (amount a + amount b) then Inr \<lparr> amount = amount a + amount b, currency = currency a \<rparr>
    else Inl (Invalid_Money_Amount (js_of_int (amount a + amount b))))"
  using assms by (simp add: money_add_def assert_same_currency_def ensure_def money_of_int money_ok_def)

lemma money_subtract_eval [money_simps]:
  assumes "money_ok a" "money_ok b"
  shows "money_subtract a b = (if currency a \<noteq> currency b then Inl (Currency_Mismatch (currency a) (currency b))
    else if is_safe (amount a - amount b) then Inr \<lparr> amount = amount a - amount b, currency = currency a \<rparr>
    else Inl (Invalid_Money_Amount (js_of_int (amount a - amount b))))"
  using assms by (simp add: money_subtract_def assert_same_currency_def ensure_def money_of_int money_ok_def)

lemma money_multiply_eval [money_simps]:
  assumes "money_ok a"
  shows "money_multiply a q = (if is_safe (amount a * q_value q)
    then Inr \<lparr> amount = amount a * q_value q, currency = currency a \<rparr>
    else Inl (Invalid_Money_Amount (js_of_int (amount a * q_value q))))"
  using assms by (simp add: money_multiply_def money_of_int money_ok_def)

lemma money_negate_eval [money_simps]:
  "money_ok a \<Longrightarrow> money_negate a = Inr \<lparr> amount = - amount a, currency = currency a \<rparr>"
  by (simp add: money_negate_def money_of_int money_ok_def)

lemma js_round_pos_iff: "0 < js_round n \<longleftrightarrow> 0 < n"
proof (cases "is_safe n")
  case False
  then have "2 ^ 53 \<le> nat \<bar>n\<bar>" by (auto simp: is_safe_def max_safe_def)
  then have "2 ^ 53 \<le> round_nat (nat \<bar>n\<bar>)" by (rule round_nat_large)
  moreover have "n \<noteq> 0" using False by auto
  ultimately show ?thesis by (auto simp: js_round_def)
qed simp

lemma js_round_neg_iff: "js_round n \<le> 0 \<longleftrightarrow> n \<le> 0"
  using js_round_pos_iff [of n] by linarith

lemma money_compare_eval [money_simps]:
  "money_is_greater a b = (if currency a = currency b then Inr (amount b < amount a)
     else Inl (Currency_Mismatch (currency a) (currency b)))"
  "money_is_less_or_equal a b = (if currency a = currency b then Inr (amount a \<le> amount b)
     else Inl (Currency_Mismatch (currency a) (currency b)))"
  by (simp_all add: money_is_greater_def money_is_less_or_equal_def money_compare_def
      assert_same_currency_def ensure_def js_round_pos_iff js_round_neg_iff)

lemma money_add_currency: "money_add a b = Inr m \<Longrightarrow> currency b = currency a"
  by (simp add: money_add_def assert_same_currency_def result_simps)

lemma money_results_ok:
  "money_add a b = Inr m \<Longrightarrow> money_ok m"
  "money_subtract a b = Inr m \<Longrightarrow> money_ok m"
  "money_multiply a q = Inr m \<Longrightarrow> money_ok m"
  "money_negate a = Inr m \<Longrightarrow> money_ok m"
  "money_zero c = Inr m \<Longrightarrow> money_ok m"
  by (auto simp: money_add_def money_subtract_def money_multiply_def money_negate_def money_zero_def
      result_simps intro: money_of_ok)

lemma money_add_exact:
  assumes "money_ok a" "money_ok b" "money_add a b = Inr m"
  shows "amount m = amount a + amount b \<and> currency m = currency a"
  using assms by (auto simp: money_add_eval split: if_splits)

lemma money_mod100_mod: "money_mod100 a = amount a mod 100"
proof (cases "amount a < 0")
  case True
  have "js_rem (amount a) 100 + 100 = 100 - (- amount a) mod 100"
    using True by (simp add: js_rem_def)
  moreover have "0 \<le> 100 - (- amount a) mod 100"
    using pos_mod_bound [of 100 "- amount a"] by simp
  ultimately have "money_mod100 a = (100 - (- amount a) mod 100) mod 100"
    by (simp add: money_mod100_def js_rem_def)
  also have "\<dots> = (100 + amount a) mod 100"
    using mod_diff_right_eq [of 100 "- amount a" 100] by simp
  finally show ?thesis by simp
qed (simp add: money_mod100_def js_rem_def)

section \<open>The exponent of a currency and the text of an amount\<close>

definition non_default_exponents :: "(string \<times> nat) list" where
  "non_default_exponents =
     map (\<lambda>c. (c, 0)) [''BIF'', ''CLP'', ''DJF'', ''GNF'', ''ISK'', ''JPY'', ''KMF'', ''KRW'',
       ''PYG'', ''RWF'', ''UGX'', ''VND'', ''VUV'', ''XAF'', ''XOF'', ''XPF''] @
     map (\<lambda>c. (c, 3)) [''BHD'', ''IQD'', ''JOD'', ''KWD'', ''LYD'', ''OMR'', ''TND''] @
     map (\<lambda>c. (c, 4)) [''CLF'', ''UYW''] @
     [(''UYI'', 0)]"

definition currency_exponent :: "string \<Rightarrow> nat" where
  "currency_exponent c = or_else (map_of non_default_exponents (upper_case (trim c))) 2"

fun group_digits :: "string \<Rightarrow> string" where
  "group_digits [] = []"
| "group_digits (c # cs) =
     (if cs \<noteq> [] \<and> length cs mod 3 = 0 then c # CHR '' '' # group_digits cs else c # group_digits cs)"

definition format_money :: "int \<Rightarrow> string \<Rightarrow> string" where
  "format_money n c = (let
     expo = currency_exponent c;
     sign = (if n < 0 then ''-'' else []);
     raw = decimal (nat \<bar>n\<bar>);
     digits = (if length raw \<le> expo then pad_start (expo + 1) CHR ''0'' raw else raw);
     split_at = length digits - expo;
     fraction = (if 0 < expo then ''.'' @ drop split_at digits else [])
   in sign @ group_digits (take split_at digits) @ fraction @ '' '' @ c)"

lemma is_digit_literals [simp]:
  "\<not> is_digit CHR '' ''" "\<not> is_digit CHR ''.''" "\<not> is_digit CHR ''-''" "is_digit CHR ''0''"
  by (simp_all add: is_digit_def code_of_def)

lemma filter_group_digits: "filter is_digit (group_digits s) = filter is_digit s"
  by (induction s) auto

lemma filter_digits_id: "list_all is_digit s \<Longrightarrow> filter is_digit s = s"
  by (induction s) auto

lemma filter_digits_upper: "list_all is_upper s \<Longrightarrow> filter is_digit s = []"
  by (induction s) (auto simp: is_upper_def is_digit_def)

lemma format_money_digits:
  assumes "currency_shape c"
  shows "read_decimal (filter is_digit (format_money n c)) = nat \<bar>n\<bar>"
proof -
  let ?raw = "decimal (nat \<bar>n\<bar>)"
  define expo digits where "expo = currency_exponent c"
    and "digits = (if length ?raw \<le> expo then pad_start (expo + 1) CHR ''0'' ?raw else ?raw)"
  have d: "list_all is_digit digits" "read_decimal digits = nat \<bar>n\<bar>"
    by (simp_all add: digits_def pad_start_digits decimal_digits)
  have "filter is_digit (format_money n c) =
      filter is_digit (take (length digits - expo) digits) @
      filter is_digit (if 0 < expo then drop (length digits - expo) digits else [])"
    using assms by (simp add: format_money_def Let_def expo_def [symmetric] digits_def [symmetric]
        filter_group_digits filter_digits_upper currency_shape_def)
  also have "\<dots> = filter is_digit (take (length digits - expo) digits @ drop (length digits - expo) digits)"
    by (cases "expo = 0") (simp_all flip: filter_append)
  finally show ?thesis using d by (simp add: filter_digits_id)
qed

lemma format_money_sign:
  "take 1 (format_money n c) = ''-'' \<longleftrightarrow> n < 0"
proof -
  let ?raw = "decimal (nat \<bar>n\<bar>)"
  define expo digits where "expo = currency_exponent c"
    and "digits = (if length ?raw \<le> expo then pad_start (expo + 1) CHR ''0'' ?raw else ?raw)"
  have "list_all is_digit digits" "length digits - expo \<noteq> 0"
    by (simp_all add: digits_def pad_start_digits decimal_digits pad_start_length)
  then obtain d ds where t: "take (length digits - expo) digits = d # ds" "is_digit d"
    by (cases digits) (auto simp: take_Cons')
  then have "d \<noteq> CHR ''-''" by auto
  then have h: "take 1 (group_digits (take (length digits - expo) digits) @ rest) \<noteq> ''-''" for rest
    by (simp add: t(1))
  show ?thesis
    using h [of "(if 0 < expo then ''.'' @ drop (length digits - expo) digits else []) @ '' '' @ c"]
    unfolding format_money_def Let_def expo_def [symmetric] digits_def [symmetric]
    by (cases "n < 0") simp_all
qed

end
