(* ===== verification/Contracts.thy ===== *)
theory Contracts
  imports Kernel_Money "HOL-Library.Option_ord"
begin

text \<open>
  The wire contract (packages/contracts, asyncapi.types.ts): the fourteen fact types, the
  envelope every fact carries and the payload of each fact.  An \<open>event_type\<close> is one of the
  fourteen names, the synthetic name the operator-cancel path stamps on its own rows
  (apps/orders/src/application/operator-cancel-envelope.ts), or any other string.
  Instants are milliseconds since the epoch, on the wire as well as in the aggregates.
  The shape check of the shared kernel's event-envelope.ts is \<open>event_type_shape\<close>.
\<close>

datatype event_type =
    Order_Placed | Order_Confirmed | Order_Completed | Order_Cancelled | Order_Saga_Failed
  | Stock_Reserved_Fact | Stock_Rejected_Fact | Stock_Released_Fact | Order_Despatched
  | Credit_Approved_Fact | Credit_Rejected_Fact | Credit_Released_Fact
  | Invoice_Issued | Payment_Received
  | Operator_Cancel_Requested
  | Other_Event string

fun event_type_name :: "event_type \<Rightarrow> string" where
  "event_type_name Order_Placed = ''order.placed.v1''"
| "event_type_name Order_Confirmed = ''order.confirmed.v1''"
| "event_type_name Order_Completed = ''order.completed.v1''"
| "event_type_name Order_Cancelled = ''order.cancelled.v1''"
| "event_type_name Order_Saga_Failed = ''order.saga_failed.v1''"
| "event_type_name Stock_Reserved_Fact = ''stock.reserved.v1''"
| "event_type_name Stock_Rejected_Fact = ''stock.rejected.v1''"
| "event_type_name Stock_Released_Fact = ''stock.released.v1''"
| "event_type_name Order_Despatched = ''order.despatched.v1''"
| "event_type_name Credit_Approved_Fact = ''credit.approved.v1''"
| "event_type_name Credit_Rejected_Fact = ''credit.rejected.v1''"
| "event_type_name Credit_Released_Fact = ''credit.released.v1''"
| "event_type_name Invoice_Issued = ''invoice.issued.v1''"
| "event_type_name Payment_Received = ''payment.received.v1''"
| "event_type_name Operator_Cancel_Requested = ''orders.cancel.requested''"
| "event_type_name (Other_Event s) = s"

definition fact_types :: "event_type list" where
  "fact_types = [Order_Placed, Order_Confirmed, Order_Completed, Order_Cancelled, Order_Saga_Failed,
     Stock_Reserved_Fact, Stock_Rejected_Fact, Stock_Released_Fact, Order_Despatched,
     Credit_Approved_Fact, Credit_Rejected_Fact, Credit_Released_Fact, Invoice_Issued, Payment_Received]"

definition event_type_of_name :: "string \<Rightarrow> event_type" where
  "event_type_of_name s =
     or_else (find (\<lambda>e. event_type_name e = s) (Operator_Cancel_Requested # fact_types)) (Other_Event s)"

section \<open>The shape of an event type\<close>

fun split_dots :: "string \<Rightarrow> string list" where
  "split_dots [] = [[]]"
| "split_dots (c # cs) = (if c = CHR ''.'' then [] # split_dots cs
     else (case split_dots cs of [] \<Rightarrow> [[c]] | p # ps \<Rightarrow> (c # p) # ps))"

definition word_segment :: "(char \<Rightarrow> bool) \<Rightarrow> string \<Rightarrow> bool" where
  "word_segment rest s = (case s of [] \<Rightarrow> False | c # cs \<Rightarrow> is_letter c \<and> list_all rest cs)"

definition version_segment :: "string \<Rightarrow> bool" where
  "version_segment s = (case s of
     v # d # ds \<Rightarrow> v = CHR ''v'' \<and> is_digit d \<and> d \<noteq> CHR ''0'' \<and> list_all is_digit ds
   | _ \<Rightarrow> False)"

definition event_type_shape :: "string \<Rightarrow> bool" where
  "event_type_shape s = (case split_dots s of
     [a, f, v] \<Rightarrow>
       word_segment (\<lambda>c. is_letter c \<or> is_digit c) a \<and>
       word_segment (\<lambda>c. is_letter c \<or> is_digit c \<or> c = CHR ''_'') f \<and>
       version_segment v
   | _ \<Rightarrow> False)"

section \<open>Payloads\<close>

datatype cancellation_reason = Stock_Rejected | Credit_Rejected | Operator_Cancelled

datatype release_reason = Release_Credit_Rejected | Release_Order_Cancelled

datatype credit_release_reason = Release_Invoice_Paid | Release_Cancelled

datatype rejection_reason = Insufficient_Stock | Unknown_Product

datatype credit_rejection_reason = Over_Limit | Simulated_Cents_Rule | Simulated_Failure_Rate

datatype payment_source = By_Operator | By_Robot | By_Test

datatype compensation_kind = Step_Stock_Released | Step_Credit_Released

record compensation_step =
  cs_step :: compensation_kind
  cs_event_id :: "uid option"
  cs_event_type :: event_type
  cs_occurred_at :: instant
  cs_summary :: "string option"

record line_payload =
  lp_product :: string
  lp_description :: string
  lp_quantity :: int
  lp_unit_price :: int
  lp_discount :: int

record placed_payload =
  pp_reference :: string
  pp_retailer :: string
  pp_company :: string
  pp_buyer_gln :: string
  pp_supplier_gln :: string
  pp_currency :: string
  pp_order_date :: instant
  pp_lines :: "line_payload list"
  pp_initial_amount :: int
  pp_initial_discount :: int
  pp_total :: int
  pp_notes :: "string option"

record closing_payload =
  cl_reference :: string
  cl_retailer :: string
  cl_company :: string
  cl_currency :: string
  cl_total :: int
  cl_at :: instant

record cancelled_payload =
  cp_reference :: string
  cp_retailer :: string
  cp_company :: string
  cp_reason :: cancellation_reason
  cp_at :: instant
  cp_steps :: "compensation_step list"

record saga_failed_payload =
  fp_reference :: string
  fp_command :: string
  fp_attempts :: nat
  fp_last_error :: string
  fp_at :: instant

record units_line =
  ul_product :: string
  ul_units :: int

record reservation_ref =
  rr_id :: uid
  rr_product :: string
  rr_units :: int

record shortage =
  sh_product :: string
  sh_requested :: int
  sh_available :: int

record stock_reserved_payload =
  srv_reference :: string
  srv_company :: string
  srv_retailer :: "string option"
  srv_reservations :: "reservation_ref list"

record stock_rejected_payload =
  srj_reference :: string
  srj_company :: string
  srj_retailer :: "string option"
  srj_shortages :: "shortage list"
  srj_reason :: rejection_reason

record stock_released_payload =
  srl_reference :: string
  srl_company :: string
  srl_retailer :: "string option"
  srl_released :: "reservation_ref list"
  srl_reason :: release_reason

record despatched_payload =
  dp_reference :: string
  dp_despatch_reference :: string
  dp_date :: instant
  dp_company :: string
  dp_retailer :: string
  dp_lines :: "units_line list"

record credit_approved_payload =
  ca_reference :: string
  ca_retailer :: string
  ca_company :: string
  ca_credit_code :: string
  ca_currency :: string
  ca_held :: int
  ca_available_after :: int

record credit_rejected_payload =
  cj_reference :: string
  cj_retailer :: string
  cj_company :: string
  cj_credit_code :: "string option"
  cj_currency :: string
  cj_requested :: int
  cj_available :: int
  cj_reason :: credit_rejection_reason

record credit_released_payload =
  cr_reference :: string
  cr_retailer :: string
  cr_company :: string
  cr_credit_code :: "string option"
  cr_currency :: string
  cr_released :: int
  cr_available_after :: int
  cr_reason :: credit_release_reason

record invoice_line_payload =
  il_product :: string
  il_units :: int
  il_unit_price :: int

record invoice_issued_payload =
  ip_reference :: string
  ip_invoice_reference :: string
  ip_date :: instant
  ip_retailer :: string
  ip_company :: string
  ip_currency :: string
  ip_lines :: "invoice_line_payload list"
  ip_amount :: int
  ip_discount :: int
  ip_total :: int

record payment_payload =
  py_reference :: string
  py_invoice_reference :: string
  py_payment_reference :: string
  py_currency :: string
  py_amount :: int
  py_value_date :: instant
  py_source :: payment_source

datatype payload =
    Placed_P placed_payload
  | Confirmed_P closing_payload
  | Completed_P closing_payload
  | Cancelled_P cancelled_payload
  | Saga_Failed_P saga_failed_payload
  | Stock_Reserved_P stock_reserved_payload
  | Stock_Rejected_P stock_rejected_payload
  | Stock_Released_P stock_released_payload
  | Despatched_P despatched_payload
  | Credit_Approved_P credit_approved_payload
  | Credit_Rejected_P credit_rejected_payload
  | Credit_Released_P credit_released_payload
  | Invoice_P invoice_issued_payload
  | Payment_P payment_payload
  | Cancel_Request_P uid cancellation_reason "string option"
  | Raw_P string

record envelope =
  ev_id :: uid
  ev_type :: event_type
  ev_aggregate :: uid
  ev_correlation :: uid
  ev_causation :: uid
  ev_at :: instant
  ev_payload :: payload

definition operator_cancel_event_type :: event_type where
  "operator_cancel_event_type = Operator_Cancel_Requested"

definition is_operator_cancel_envelope :: "envelope option \<Rightarrow> bool" where
  "is_operator_cancel_envelope e = (case e of None \<Rightarrow> False | Some v \<Rightarrow> ev_type v = operator_cancel_event_type)"

lemma fact_type_names_distinct: "distinct (map event_type_name fact_types)"
  by (simp add: fact_types_def)

lemma event_type_of_name_all:
  "list_all (\<lambda>e. event_type_of_name (event_type_name e) = e) (Operator_Cancel_Requested # fact_types)"
  by code_simp

lemma event_type_of_name_name:
  "e \<in> set (Operator_Cancel_Requested # fact_types) \<Longrightarrow> event_type_of_name (event_type_name e) = e"
  using event_type_of_name_all by (simp only: list_all_iff)

lemma fact_type_shapes:
  "list_all (event_type_shape \<circ> event_type_name) fact_types"
  "\<not> event_type_shape (event_type_name operator_cancel_event_type)"
  by (simp_all add: fact_types_def event_type_shape_def word_segment_def version_segment_def
      is_letter_def is_upper_def is_lower_def is_digit_def code_of_def operator_cancel_event_type_def)

end
