(* ===== verification/Order_Domain.thy ===== *)
theory Order_Domain
  imports Contracts
begin

text \<open>
  The Order aggregate of apps/orders/src/domain: its status set and Table T-1
  (order-status.ts, order-transitions.ts), its lines and derived totals (order-line.ts,
  order-totals.ts), the facts it emits (order-events.ts) and its operations (order.ts).
  An operation takes the aggregate and returns it updated or the domain error it raises;
  the aggregate's uncommitted events are its field \<open>o_events\<close>.  An operation that draws an
  identifier from \<open>UniqueId.generate\<close> takes the identifier drawn as an argument.
  The trigger text of a row of Table T-1 is documentation and is left out.
\<close>

named_theorems order_ops "the operations of the aggregate, unfolded"

section \<open>Statuses and Table T-1\<close>

datatype order_status =
    Placed | Stock_Reserved | Credit_Approved | Confirmed | Despatched | Invoiced | Paid
  | Completed | Cancelled

fun status_index :: "order_status \<Rightarrow> nat" where
  "status_index Placed = 0"
| "status_index Stock_Reserved = 1"
| "status_index Credit_Approved = 2"
| "status_index Confirmed = 3"
| "status_index Despatched = 4"
| "status_index Invoiced = 5"
| "status_index Paid = 6"
| "status_index Completed = 7"
| "status_index Cancelled = 8"

lemma status_index_inject: "status_index s = status_index t \<longleftrightarrow> s = t"
  by (cases s; cases t) simp_all

text \<open>Statuses are ordered as the closed list of the code declares them.\<close>

instantiation order_status :: linorder
begin

definition less_eq_order_status :: "order_status \<Rightarrow> order_status \<Rightarrow> bool" where
  "less_eq_order_status s t \<longleftrightarrow> status_index s \<le> status_index t"

definition less_order_status :: "order_status \<Rightarrow> order_status \<Rightarrow> bool" where
  "less_order_status s t \<longleftrightarrow> status_index s < status_index t"

instance
  by standard (auto simp: less_eq_order_status_def less_order_status_def status_index_inject)

end

instantiation order_status :: enum
begin

definition enum_order_status :: "order_status list" where
  "enum_order_status = [Placed, Stock_Reserved, Credit_Approved, Confirmed, Despatched, Invoiced,
     Paid, Completed, Cancelled]"

definition enum_all_order_status :: "(order_status \<Rightarrow> bool) \<Rightarrow> bool" where
  "enum_all_order_status P \<longleftrightarrow> list_all P enum_class.enum"

definition enum_ex_order_status :: "(order_status \<Rightarrow> bool) \<Rightarrow> bool" where
  "enum_ex_order_status P \<longleftrightarrow> list_ex P enum_class.enum"

lemma order_status_enumerated: "s \<in> set (enum_class.enum :: order_status list)"
  by (cases s) (simp_all add: enum_order_status_def)

instance
proof
  show "(UNIV :: order_status set) = set enum_class.enum"
    using order_status_enumerated by blast
  show "distinct (enum_class.enum :: order_status list)"
    by (simp add: enum_order_status_def)
  show "enum_class.enum_all P = Ball UNIV P" for P :: "order_status \<Rightarrow> bool"
    using order_status_enumerated by (auto simp: enum_all_order_status_def list_all_iff)
  show "enum_class.enum_ex P = Bex UNIV P" for P :: "order_status \<Rightarrow> bool"
    using order_status_enumerated by (auto simp: enum_ex_order_status_def list_ex_iff)
qed

end

fun status_name :: "order_status \<Rightarrow> string" where
  "status_name Placed = ''placed''"
| "status_name Stock_Reserved = ''stock_reserved''"
| "status_name Credit_Approved = ''credit_approved''"
| "status_name Confirmed = ''confirmed''"
| "status_name Despatched = ''despatched''"
| "status_name Invoiced = ''invoiced''"
| "status_name Paid = ''paid''"
| "status_name Completed = ''completed''"
| "status_name Cancelled = ''cancelled''"

definition status_of_name :: "string \<Rightarrow> order_status option" where
  "status_of_name s = find (\<lambda>st. status_name st = s) enum_class.enum"

fun reason_name :: "cancellation_reason \<Rightarrow> string" where
  "reason_name Stock_Rejected = ''stock_rejected''"
| "reason_name Credit_Rejected = ''credit_rejected''"
| "reason_name Operator_Cancelled = ''operator_cancelled''"

definition reason_of_name :: "string \<Rightarrow> cancellation_reason option" where
  "reason_of_name s =
     find (\<lambda>r. reason_name r = s) [Stock_Rejected, Credit_Rejected, Operator_Cancelled]"

record order_transition =
  tr_from :: "order_status option"
  tr_to :: order_status
  tr_emits :: "event_type option"

definition edge :: "order_status option \<Rightarrow> order_status \<Rightarrow> event_type option \<Rightarrow> order_transition" where
  "edge f t e = \<lparr> tr_from = f, tr_to = t, tr_emits = e \<rparr>"

definition order_transitions :: "order_transition list" where
  "order_transitions = [
     edge None Placed (Some Order_Placed),
     edge (Some Placed) Stock_Reserved None,
     edge (Some Stock_Reserved) Credit_Approved None,
     edge (Some Credit_Approved) Confirmed (Some Order_Confirmed),
     edge (Some Confirmed) Despatched None,
     edge (Some Despatched) Invoiced None,
     edge (Some Invoiced) Paid None,
     edge (Some Paid) Completed (Some Order_Completed),
     edge (Some Placed) Cancelled (Some Order_Cancelled),
     edge (Some Stock_Reserved) Cancelled (Some Order_Cancelled),
     edge (Some Credit_Approved) Cancelled (Some Order_Cancelled),
     edge (Some Confirmed) Cancelled (Some Order_Cancelled)]"

text \<open>The map of maps the module builds once when it is loaded.\<close>

definition transitions_by_from ::
    "(order_status option \<times> (order_status \<times> order_transition) list) list" where
  "transitions_by_from = foldl (\<lambda>by_from tr.
     let by_to = or_else (map_of by_from (tr_from tr)) [] in
     AList.update (tr_from tr) (AList.update (tr_to tr) tr by_to) by_from) [] order_transitions"

definition find_transition :: "order_status \<Rightarrow> order_status \<Rightarrow> order_transition option" where
  "find_transition f t = Option.bind (map_of transitions_by_from (Some f)) (\<lambda>by_to. map_of by_to t)"

definition creation_transition :: "order_transition option" where
  "creation_transition = Option.bind (map_of transitions_by_from None) (\<lambda>by_to. map_of by_to Placed)"

lemma status_of_name_name [simp]: "status_of_name (status_name s) = Some s"
  by (cases s) (simp_all add: status_of_name_def enum_order_status_def)

lemma reason_of_name_name [simp]: "reason_of_name (reason_name r) = Some r"
  by (cases r) (simp_all add: reason_of_name_def)

text \<open>The lookup in the built map is the search of the table.\<close>

lemma find_transition_table:
  "find_transition f t = find (\<lambda>r. tr_from r = Some f \<and> tr_to r = t) order_transitions"
proof -
  have "\<forall>f t. find_transition f t = find (\<lambda>r. tr_from r = Some f \<and> tr_to r = t) order_transitions"
    by code_simp
  then show ?thesis by blast
qed

lemma find_transition_simps:
  "find_transition f Placed = None"
  "find_transition f Stock_Reserved =
    (if f = Placed then Some (edge (Some Placed) Stock_Reserved None) else None)"
  "find_transition f Credit_Approved =
    (if f = Stock_Reserved then Some (edge (Some Stock_Reserved) Credit_Approved None) else None)"
  "find_transition f Confirmed =
    (if f = Credit_Approved then Some (edge (Some Credit_Approved) Confirmed (Some Order_Confirmed)) else None)"
  "find_transition f Despatched =
    (if f = Confirmed then Some (edge (Some Confirmed) Despatched None) else None)"
  "find_transition f Invoiced =
    (if f = Despatched then Some (edge (Some Despatched) Invoiced None) else None)"
  "find_transition f Paid =
    (if f = Invoiced then Some (edge (Some Invoiced) Paid None) else None)"
  "find_transition f Completed =
    (if f = Paid then Some (edge (Some Paid) Completed (Some Order_Completed)) else None)"
  by (cases f; simp add: find_transition_table order_transitions_def edge_def)+

definition cancellable :: "order_status \<Rightarrow> bool" where
  "cancellable s \<longleftrightarrow> s \<in> {Placed, Stock_Reserved, Credit_Approved, Confirmed}"

lemma find_transition_cancelled:
  "find_transition s Cancelled = (if cancellable s then Some (edge (Some s) Cancelled (Some Order_Cancelled)) else None)"
  by (cases s) (simp_all add: find_transition_table order_transitions_def edge_def cancellable_def)

definition legal_edge :: "order_status \<Rightarrow> order_status \<Rightarrow> bool" where
  "legal_edge f t \<longleftrightarrow> find_transition f t \<noteq> None"

lemma legal_edge_increases: "legal_edge f t \<Longrightarrow> f < t"
proof -
  have "\<forall>f t. legal_edge f t \<longrightarrow> f < t" by code_simp
  then show "legal_edge f t \<Longrightarrow> f < t" by blast
qed

lemma edge_simps [simp]: "tr_from (edge f t e) = f" "tr_to (edge f t e) = t" "tr_emits (edge f t e) = e"
  by (simp_all add: edge_def)

section \<open>The aggregate\<close>

record order_line =
  ol_id :: uid
  ol_product :: string
  ol_description :: string
  ol_quantity :: quantity
  ol_unit_price :: money
  ol_discount :: money

record order =
  o_id :: uid
  o_reference :: order_number
  o_date :: instant
  o_buyer_gln :: string
  o_retailer :: string
  o_supplier_gln :: string
  o_company :: string
  o_currency :: string
  o_lines :: "order_line list"
  o_initial_amount :: money
  o_initial_discount :: money
  o_total :: money
  o_status :: order_status
  o_reason :: "cancellation_reason option"
  o_notes :: "string option"
  o_events :: "envelope list"

record transition_context =
  tc_at :: instant
  tc_causation :: uid

record line_input =
  li_product :: string
  li_description :: string
  li_quantity :: quantity
  li_unit_price :: money
  li_discount :: money

record place_input =
  pi_id :: uid
  pi_reference :: order_number
  pi_date :: instant
  pi_buyer_gln :: string
  pi_buyer_code :: string
  pi_supplier_gln :: string
  pi_supplier_code :: string
  pi_currency :: string
  pi_lines :: "line_input list"
  pi_notes :: "string option"

record order_snapshot =
  sn_id :: uid
  sn_reference :: order_number
  sn_date :: instant
  sn_buyer_gln :: string
  sn_retailer :: string
  sn_supplier_gln :: string
  sn_company :: string
  sn_currency :: string
  sn_lines :: "order_line list"
  sn_status :: string
  sn_reason :: "string option"
  sn_notes :: "string option"

datatype snapshot_fault = Bad_Status string | Reason_Missing | Reason_Unexpected string

datatype order_error =
    Transition_Not_Allowed uid order_status order_status
  | Empty_Order "uid option"
  | Lines_Frozen uid order_status
  | Negative_Order_Total money "uid option"
  | Line_Currency_Mismatch string string uid
  | Unknown_Order_Line uid uid
  | Reason_Required uid
  | Reason_Invalid uid string
  | Reason_Not_Applicable uid order_status cancellation_reason
  | Invalid_Order_Snapshot snapshot_fault uid
  | Kernel_Error kernel_error
  | No_Lines_For_Event

section \<open>Totals\<close>

record order_totals =
  ot_initial :: money
  ot_discount :: money
  ot_total :: money

definition sum_amounts :: "string \<Rightarrow> order_line list \<Rightarrow> kernel_error + money" where
  "sum_amounts cur ls = bindR (money_zero cur) (\<lambda>z.
     foldR (\<lambda>s l. bindR (money_multiply (ol_unit_price l) (ol_quantity l)) (money_add s)) z ls)"

definition sum_discounts :: "string \<Rightarrow> order_line list \<Rightarrow> kernel_error + money" where
  "sum_discounts cur ls = bindR (money_zero cur) (\<lambda>z. foldR (\<lambda>s l. money_add s (ol_discount l)) z ls)"

definition compute_order_totals :: "string \<Rightarrow> order_line list \<Rightarrow> order_error + order_totals" where
  "compute_order_totals cur ls =
     bindR (mapErr Kernel_Error (money_zero cur)) (\<lambda>order_discount.
     bindR (mapErr Kernel_Error (sum_amounts cur ls)) (\<lambda>initial.
     bindR (mapErr Kernel_Error (bindR (sum_discounts cur ls) (\<lambda>d. money_add d order_discount))) (\<lambda>discount.
     bindR (mapErr Kernel_Error (money_subtract initial discount)) (\<lambda>total.
     if amount total < 0 then Inl (Negative_Order_Total total None)
     else Inr \<lparr> ot_initial = initial, ot_discount = discount, ot_total = total \<rparr>))))"

definition compute_order_totals_for :: "uid \<Rightarrow> string \<Rightarrow> order_line list \<Rightarrow> order_error + order_totals" where
  "compute_order_totals_for oid cur ls = mapErr (\<lambda>e. case e of
       Negative_Order_Total m _ \<Rightarrow> Negative_Order_Total m (Some oid)
     | _ \<Rightarrow> e) (compute_order_totals cur ls)"

section \<open>The facts Orders emits\<close>

definition order_reference_value :: "order \<Rightarrow> string" where
  "order_reference_value ord = (case o_reference ord of Order_Number s \<Rightarrow> s)"

definition order_event :: "uid \<Rightarrow> event_type \<Rightarrow> payload \<Rightarrow> order \<Rightarrow> transition_context \<Rightarrow> envelope" where
  "order_event eid ty p ord ctx = \<lparr> ev_id = eid, ev_type = ty, ev_aggregate = o_id ord,
     ev_correlation = o_id ord, ev_causation = tc_causation ctx, ev_at = tc_at ctx, ev_payload = p \<rparr>"

definition line_payload_of :: "order_line \<Rightarrow> line_payload" where
  "line_payload_of l = \<lparr> lp_product = ol_product l, lp_description = ol_description l,
     lp_quantity = q_value (ol_quantity l), lp_unit_price = amount (ol_unit_price l),
     lp_discount = amount (ol_discount l) \<rparr>"

definition to_non_empty_lines_payload :: "order \<Rightarrow> order_error + line_payload list" where
  "to_non_empty_lines_payload ord = (let ls = map line_payload_of (o_lines ord) in
     if ls = [] then Inl No_Lines_For_Event else Inr ls)"

definition order_placed_event :: "uid \<Rightarrow> order \<Rightarrow> transition_context \<Rightarrow> order_error + envelope" where
  "order_placed_event eid ord ctx = bindR (to_non_empty_lines_payload ord) (\<lambda>ls.
     Inr (order_event eid Order_Placed (Placed_P
       \<lparr> pp_reference = order_reference_value ord, pp_retailer = o_retailer ord,
         pp_company = o_company ord, pp_buyer_gln = o_buyer_gln ord,
         pp_supplier_gln = o_supplier_gln ord, pp_currency = o_currency ord,
         pp_order_date = o_date ord, pp_lines = ls,
         pp_initial_amount = amount (o_initial_amount ord),
         pp_initial_discount = amount (o_initial_discount ord),
         pp_total = amount (o_total ord), pp_notes = o_notes ord \<rparr>) ord ctx))"

definition closing_payload_of :: "order \<Rightarrow> transition_context \<Rightarrow> closing_payload" where
  "closing_payload_of ord ctx = \<lparr> cl_reference = order_reference_value ord,
     cl_retailer = o_retailer ord, cl_company = o_company ord, cl_currency = o_currency ord,
     cl_total = amount (o_total ord), cl_at = tc_at ctx \<rparr>"

definition order_confirmed_event :: "uid \<Rightarrow> order \<Rightarrow> transition_context \<Rightarrow> envelope" where
  "order_confirmed_event eid ord ctx =
     order_event eid Order_Confirmed (Confirmed_P (closing_payload_of ord ctx)) ord ctx"

definition order_completed_event :: "uid \<Rightarrow> order \<Rightarrow> transition_context \<Rightarrow> envelope" where
  "order_completed_event eid ord ctx =
     order_event eid Order_Completed (Completed_P (closing_payload_of ord ctx)) ord ctx"

definition order_cancelled_event ::
    "uid \<Rightarrow> cancellation_reason \<Rightarrow> compensation_step list \<Rightarrow> order \<Rightarrow> transition_context \<Rightarrow> envelope" where
  "order_cancelled_event eid r steps ord ctx = order_event eid Order_Cancelled (Cancelled_P
     \<lparr> cp_reference = order_reference_value ord, cp_retailer = o_retailer ord,
       cp_company = o_company ord, cp_reason = r, cp_at = tc_at ctx, cp_steps = steps \<rparr>) ord ctx"

record saga_failure_input =
  sf_command :: string
  sf_attempts :: nat
  sf_last_error :: string

definition order_saga_failed_event ::
    "uid \<Rightarrow> saga_failure_input \<Rightarrow> order \<Rightarrow> transition_context \<Rightarrow> envelope" where
  "order_saga_failed_event eid inp ord ctx = order_event eid Order_Saga_Failed (Saga_Failed_P
     \<lparr> fp_reference = order_reference_value ord, fp_command = sf_command inp,
       fp_attempts = sf_attempts inp, fp_last_error = sf_last_error inp, fp_at = tc_at ctx \<rparr>) ord ctx"

end
