(* ===== verification/Order_Aggregate.thy ===== *)
theory Order_Aggregate
  imports Order_Domain
begin

text \<open>
  The operations of the Order aggregate (apps/orders/src/domain/order.ts) and their
  correctness: exact totals, the invariant \<open>order_ok\<close> and the runs of Table T-1.
  \<open>order_op\<close> lists the operations, \<open>apply_op\<close> applies one and \<open>run_ops\<close> a sequence of them.
\<close>

section \<open>Operations\<close>

definition lines_mutable_in :: "order_status set" where
  "lines_mutable_in = {Placed, Stock_Reserved, Credit_Approved}"

definition add_domain_event :: "envelope \<Rightarrow> order \<Rightarrow> order" where
  "add_domain_event e ord = ord \<lparr> o_events := o_events ord @ [e] \<rparr>"

definition pull_domain_events :: "order \<Rightarrow> envelope list \<times> order" where
  "pull_domain_events ord = (o_events ord, ord \<lparr> o_events := [] \<rparr>)"

definition assert_line_currency :: "string \<Rightarrow> money \<Rightarrow> money \<Rightarrow> uid \<Rightarrow> order_error + unit" where
  "assert_line_currency cur price discount oid =
     bindR (ensure (currency price = cur) (Line_Currency_Mismatch cur (currency price) oid)) (\<lambda>_.
     ensure (currency discount = cur) (Line_Currency_Mismatch cur (currency discount) oid))"

definition make_line :: "uid \<Rightarrow> line_input \<Rightarrow> order_line" where
  "make_line lid l = \<lparr> ol_id = lid, ol_product = li_product l, ol_description = li_description l,
     ol_quantity = li_quantity l, ol_unit_price = li_unit_price l, ol_discount = li_discount l \<rparr>"

text \<open>The k-th identifier drawn by a call is \<open>fresh k\<close>.\<close>

definition make_lines :: "(nat \<Rightarrow> uid) \<Rightarrow> line_input list \<Rightarrow> order_line list" where
  "make_lines fresh ls = map (\<lambda>(k, l). make_line (fresh k) l) (enumerate 0 ls)"

definition place_order :: "(nat \<Rightarrow> uid) \<Rightarrow> place_input \<Rightarrow> transition_context \<Rightarrow> order_error + order" where
  "place_order fresh inp ctx =
     (if pi_lines inp = [] then Inl (Empty_Order (Some (pi_id inp))) else
      bindR (mapR (\<lambda>l. assert_line_currency (pi_currency inp) (li_unit_price l) (li_discount l) (pi_id inp))
        (pi_lines inp)) (\<lambda>_.
      let ls = make_lines fresh (pi_lines inp) in
      bindR (compute_order_totals_for (pi_id inp) (pi_currency inp) ls) (\<lambda>t.
      let ord = \<lparr> o_id = pi_id inp, o_reference = pi_reference inp, o_date = pi_date inp,
        o_buyer_gln = pi_buyer_gln inp, o_retailer = pi_buyer_code inp,
        o_supplier_gln = pi_supplier_gln inp, o_company = pi_supplier_code inp,
        o_currency = pi_currency inp, o_lines = ls, o_initial_amount = ot_initial t,
        o_initial_discount = ot_discount t, o_total = ot_total t, o_status = Placed,
        o_reason = None, o_notes = pi_notes inp, o_events = [] \<rparr> in
      bindR (order_placed_event (fresh (length ls)) ord ctx) (\<lambda>e. Inr (add_domain_event e ord)))))"

definition reconstitute_order :: "order_snapshot \<Rightarrow> order_error + order" where
  "reconstitute_order sn = (case status_of_name (sn_status sn) of
     None \<Rightarrow> Inl (Invalid_Order_Snapshot (Bad_Status (sn_status sn)) (sn_id sn))
   | Some st \<Rightarrow>
     if sn_lines sn = [] then Inl (Empty_Order (Some (sn_id sn)))
     else if st = Cancelled \<and> Option.bind (sn_reason sn) reason_of_name = None
       then Inl (Invalid_Order_Snapshot Reason_Missing (sn_id sn))
     else if st \<noteq> Cancelled \<and> sn_reason sn \<noteq> None
       then Inl (Invalid_Order_Snapshot (Reason_Unexpected (the (sn_reason sn))) (sn_id sn))
     else bindR (compute_order_totals_for (sn_id sn) (sn_currency sn) (sn_lines sn)) (\<lambda>t.
       Inr \<lparr> o_id = sn_id sn, o_reference = sn_reference sn, o_date = sn_date sn,
        o_buyer_gln = sn_buyer_gln sn, o_retailer = sn_retailer sn,
        o_supplier_gln = sn_supplier_gln sn, o_company = sn_company sn,
        o_currency = sn_currency sn, o_lines = sn_lines sn, o_initial_amount = ot_initial t,
        o_initial_discount = ot_discount t, o_total = ot_total t, o_status = st,
        o_reason = Option.bind (sn_reason sn) reason_of_name, o_notes = sn_notes sn, o_events = [] \<rparr>))"

definition assert_lines_mutable :: "order \<Rightarrow> order_error + unit" where
  "assert_lines_mutable ord = ensure (o_status ord \<in> lines_mutable_in) (Lines_Frozen (o_id ord) (o_status ord))"

definition with_lines :: "order_line list \<Rightarrow> order \<Rightarrow> order_error + order" where
  "with_lines ls ord = bindR (compute_order_totals_for (o_id ord) (o_currency ord) ls) (\<lambda>t.
     Inr (ord \<lparr> o_lines := ls, o_initial_amount := ot_initial t,
       o_initial_discount := ot_discount t, o_total := ot_total t \<rparr>))"

definition add_line :: "uid \<Rightarrow> line_input \<Rightarrow> order \<Rightarrow> order_error + order" where
  "add_line lid l ord =
     bindR (assert_lines_mutable ord) (\<lambda>_.
     bindR (assert_line_currency (o_currency ord) (li_unit_price l) (li_discount l) (o_id ord)) (\<lambda>_.
     with_lines (o_lines ord @ [make_line lid l]) ord))"

definition remove_line :: "uid \<Rightarrow> order \<Rightarrow> order_error + order" where
  "remove_line lid ord =
     bindR (assert_lines_mutable ord) (\<lambda>_.
     if \<not> list_ex (\<lambda>l. ol_id l = lid) (o_lines ord) then Inl (Unknown_Order_Line (o_id ord) lid)
     else let ls = filter (\<lambda>l. ol_id l \<noteq> lid) (o_lines ord) in
       if ls = [] then Inl (Empty_Order (Some (o_id ord))) else with_lines ls ord)"

definition change_line_quantity :: "uid \<Rightarrow> quantity \<Rightarrow> order \<Rightarrow> order_error + order" where
  "change_line_quantity lid q ord =
     bindR (assert_lines_mutable ord) (\<lambda>_.
     case find (\<lambda>l. ol_id l = lid) (o_lines ord) of
       None \<Rightarrow> Inl (Unknown_Order_Line (o_id ord) lid)
     | Some _ \<Rightarrow>
       with_lines (map (\<lambda>l. if ol_id l = lid then l \<lparr> ol_quantity := q \<rparr> else l) (o_lines ord)) ord)"

definition transition_to ::
    "order_status \<Rightarrow> (order \<Rightarrow> order) \<Rightarrow> (order \<Rightarrow> envelope) option \<Rightarrow> order \<Rightarrow> order_error + order" where
  "transition_to t patch build ord = (case find_transition (o_status ord) t of
     None \<Rightarrow> Inl (Transition_Not_Allowed (o_id ord) (o_status ord) t)
   | Some tr \<Rightarrow>
     let ord' = patch (ord \<lparr> o_status := t \<rparr>) in
     Inr (case (tr_emits tr, build) of
       (Some _, Some b) \<Rightarrow> add_domain_event (b ord') ord'
     | _ \<Rightarrow> ord'))"

definition mark_stock_reserved :: "order \<Rightarrow> order_error + order" where
  "mark_stock_reserved = transition_to Stock_Reserved id None"

definition approve_credit :: "order \<Rightarrow> order_error + order" where
  "approve_credit = transition_to Credit_Approved id None"

definition confirm_order :: "uid \<Rightarrow> transition_context \<Rightarrow> order \<Rightarrow> order_error + order" where
  "confirm_order eid ctx = transition_to Confirmed id (Some (\<lambda>ord. order_confirmed_event eid ord ctx))"

definition mark_despatched :: "order \<Rightarrow> order_error + order" where
  "mark_despatched = transition_to Despatched id None"

definition mark_invoiced :: "order \<Rightarrow> order_error + order" where
  "mark_invoiced = transition_to Invoiced id None"

definition mark_paid :: "order \<Rightarrow> order_error + order" where
  "mark_paid = transition_to Paid id None"

definition complete_order :: "uid \<Rightarrow> transition_context \<Rightarrow> order \<Rightarrow> order_error + order" where
  "complete_order eid ctx = transition_to Completed id (Some (\<lambda>ord. order_completed_event eid ord ctx))"

text \<open>The reason is the runtime value: absent, or a string the closed set is checked for.\<close>

definition cancel_order_raw ::
    "uid \<Rightarrow> string option \<Rightarrow> transition_context \<Rightarrow> compensation_step list \<Rightarrow> order \<Rightarrow> order_error + order" where
  "cancel_order_raw eid reason ctx steps ord = (case reason of
     None \<Rightarrow> Inl (Reason_Required (o_id ord))
   | Some s \<Rightarrow> (case reason_of_name s of
       None \<Rightarrow> Inl (Reason_Invalid (o_id ord) s)
     | Some r \<Rightarrow>
       if find_transition (o_status ord) Cancelled = None
         then Inl (Transition_Not_Allowed (o_id ord) (o_status ord) Cancelled)
       else if r = Stock_Rejected \<and> o_status ord \<noteq> Placed
         then Inl (Reason_Not_Applicable (o_id ord) (o_status ord) r)
       else if r = Credit_Rejected \<and> o_status ord \<noteq> Stock_Reserved
         then Inl (Reason_Not_Applicable (o_id ord) (o_status ord) r)
       else transition_to Cancelled (\<lambda>x. x \<lparr> o_reason := Some r \<rparr>)
         (Some (\<lambda>x. order_cancelled_event eid r steps x ctx)) ord))"

definition cancel_order ::
    "uid \<Rightarrow> cancellation_reason \<Rightarrow> transition_context \<Rightarrow> compensation_step list \<Rightarrow> order \<Rightarrow> order_error + order" where
  "cancel_order eid r ctx steps ord = cancel_order_raw eid (Some (reason_name r)) ctx steps ord"

definition record_saga_failure ::
    "uid \<Rightarrow> saga_failure_input \<Rightarrow> transition_context \<Rightarrow> order \<Rightarrow> order" where
  "record_saga_failure eid inp ctx ord = add_domain_event (order_saga_failed_event eid inp ord ctx) ord"

section \<open>The operations in one datatype\<close>

datatype order_op =
    Op_Add_Line uid line_input
  | Op_Remove_Line uid
  | Op_Change_Quantity uid quantity
  | Op_Mark_Stock_Reserved
  | Op_Approve_Credit
  | Op_Confirm uid transition_context
  | Op_Mark_Despatched
  | Op_Mark_Invoiced
  | Op_Mark_Paid
  | Op_Complete uid transition_context
  | Op_Cancel uid "string option" transition_context "compensation_step list"
  | Op_Saga_Failure uid saga_failure_input transition_context

fun apply_op :: "order_op \<Rightarrow> order \<Rightarrow> order_error + order" where
  "apply_op (Op_Add_Line lid l) ord = add_line lid l ord"
| "apply_op (Op_Remove_Line lid) ord = remove_line lid ord"
| "apply_op (Op_Change_Quantity lid q) ord = change_line_quantity lid q ord"
| "apply_op Op_Mark_Stock_Reserved ord = mark_stock_reserved ord"
| "apply_op Op_Approve_Credit ord = approve_credit ord"
| "apply_op (Op_Confirm eid ctx) ord = confirm_order eid ctx ord"
| "apply_op Op_Mark_Despatched ord = mark_despatched ord"
| "apply_op Op_Mark_Invoiced ord = mark_invoiced ord"
| "apply_op Op_Mark_Paid ord = mark_paid ord"
| "apply_op (Op_Complete eid ctx) ord = complete_order eid ctx ord"
| "apply_op (Op_Cancel eid r ctx steps) ord = cancel_order_raw eid r ctx steps ord"
| "apply_op (Op_Saga_Failure eid inp ctx) ord = Inr (record_saga_failure eid inp ctx ord)"

text \<open>A caller that keeps going after a refused operation: the aggregate is unchanged.\<close>

fun run_ops :: "order_op list \<Rightarrow> order \<Rightarrow> order" where
  "run_ops [] ord = ord"
| "run_ops (p # ps) ord = run_ops ps (case apply_op p ord of Inl _ \<Rightarrow> ord | Inr ord' \<Rightarrow> ord')"

section \<open>Totals are exact\<close>

definition line_ok :: "string \<Rightarrow> order_line \<Rightarrow> bool" where
  "line_ok cur l \<longleftrightarrow> money_ok (ol_unit_price l) \<and> money_ok (ol_discount l) \<and> quantity_ok (ol_quantity l) \<and>
     currency (ol_unit_price l) = cur \<and> currency (ol_discount l) = cur"

definition line_amount :: "order_line \<Rightarrow> int" where
  "line_amount l = amount (ol_unit_price l) * q_value (ol_quantity l)"

definition exact_initial :: "order_line list \<Rightarrow> int" where
  "exact_initial ls = sum_list (map line_amount ls)"

definition exact_discount :: "order_line list \<Rightarrow> int" where
  "exact_discount ls = sum_list (map (\<lambda>l. amount (ol_discount l)) ls)"

definition euros :: "int \<Rightarrow> string \<Rightarrow> money" where
  "euros n cur = \<lparr> amount = n, currency = cur \<rparr>"

lemma euros_simps [simp]: "amount (euros n c) = n" "currency (euros n c) = c"
  "euros n c = euros m d \<longleftrightarrow> n = m \<and> c = d"
  by (simp_all add: euros_def)

lemma money_ok_euros [simp]: "money_ok (euros n c) \<longleftrightarrow> is_safe n \<and> currency_shape c"
  by (simp add: money_ok_def)

lemma money_eq_euros: "m = euros (amount m) (currency m)"
  by (cases m) (simp add: euros_def)

lemma money_zero_shape: "currency_shape c \<Longrightarrow> money_zero c = Inr (euros 0 c)"
  by (simp add: money_zero_def money_of_def euros_def)

lemma money_add_euros:
  "\<lbrakk> is_safe m; currency_shape c; money_ok b; currency b = c \<rbrakk> \<Longrightarrow>
    money_add (euros m c) b = (if is_safe (m + amount b) then Inr (euros (m + amount b) c)
      else Inl (Invalid_Money_Amount (js_of_int (m + amount b))))"
  by (simp add: money_add_eval)

lemma money_subtract_euros:
  "\<lbrakk> is_safe m; is_safe n; currency_shape c \<rbrakk> \<Longrightarrow>
    money_subtract (euros m c) (euros n c) = (if is_safe (m - n) then Inr (euros (m - n) c)
      else Inl (Invalid_Money_Amount (js_of_int (m - n))))"
  by (simp add: money_subtract_eval)

lemma sum_discounts_fold:
  assumes "currency_shape c" "list_all (line_ok c) ls" "is_safe s"
  shows "foldR (\<lambda>s l. money_add s (ol_discount l)) (euros s c) ls = Inr m \<Longrightarrow>
    m = euros (s + exact_discount ls) c \<and> is_safe (s + exact_discount ls)"
  using assms
proof (induction ls arbitrary: s)
  case (Cons l ls)
  from Cons.prems(1) obtain q where q: "money_add (euros s c) (ol_discount l) = Inr q"
    and r: "foldR (\<lambda>s l. money_add s (ol_discount l)) q ls = Inr m"
    by (auto simp: bindR_Inr)
  have "q = euros (s + amount (ol_discount l)) c \<and> is_safe (s + amount (ol_discount l))"
    using q Cons.prems(2-4) by (auto simp: line_ok_def [of c l] money_add_euros split: if_splits)
  then show ?case
    using Cons.IH [of "s + amount (ol_discount l)"] r Cons.prems(2,3)
    by (simp add: exact_discount_def add.assoc)
qed (auto simp: exact_discount_def)

lemma sum_amounts_fold:
  assumes "currency_shape c" "list_all (line_ok c) ls" "is_safe s"
  shows "foldR (\<lambda>s l. bindR (money_multiply (ol_unit_price l) (ol_quantity l)) (money_add s)) (euros s c) ls = Inr m \<Longrightarrow>
    m = euros (s + exact_initial ls) c \<and> is_safe (s + exact_initial ls)"
  using assms
proof (induction ls arbitrary: s)
  case (Cons l ls)
  have l: "money_ok (ol_unit_price l)" "currency (ol_unit_price l) = c" "list_all (line_ok c) ls"
    using Cons.prems(3) by (simp_all add: line_ok_def [of c l])
  from Cons.prems(1) obtain p q where p: "money_multiply (ol_unit_price l) (ol_quantity l) = Inr p"
    and q: "money_add (euros s c) p = Inr q"
    and r: "foldR (\<lambda>s l. bindR (money_multiply (ol_unit_price l) (ol_quantity l)) (money_add s)) q ls = Inr m"
    by (auto simp: bindR_Inr)
  have "p = euros (line_amount l) c" "money_ok p"
    using p l by (auto simp: money_multiply_eval line_amount_def euros_def money_ok_def split: if_splits)
  then have "q = euros (s + line_amount l) c \<and> is_safe (s + line_amount l)"
    using q Cons.prems(2,4) by (auto simp: money_add_euros split: if_splits)
  then show ?case
    using Cons.IH [of "s + line_amount l"] r l(3) Cons.prems(2) by (simp add: exact_initial_def add.assoc)
qed (auto simp: exact_initial_def)

lemma compute_order_totals_Inr:
  assumes c: "currency_shape c" and ls: "list_all (line_ok c) ls"
    and t: "compute_order_totals c ls = Inr t"
  shows "t = \<lparr> ot_initial = euros (exact_initial ls) c, ot_discount = euros (exact_discount ls) c,
      ot_total = euros (exact_initial ls - exact_discount ls) c \<rparr> \<and>
    exact_discount ls \<le> exact_initial ls \<and>
    is_safe (exact_initial ls) \<and> is_safe (exact_discount ls) \<and> is_safe (exact_initial ls - exact_discount ls)"
proof -
  from t obtain i d d' s where
    i: "sum_amounts c ls = Inr i" and d: "sum_discounts c ls = Inr d"
    and d': "money_add d (euros 0 c) = Inr d'" and s: "money_subtract i d' = Inr s"
    and t': "\<not> amount s < 0" "t = \<lparr> ot_initial = i, ot_discount = d', ot_total = s \<rparr>"
    using c by (auto simp: compute_order_totals_def bindR_Inr money_zero_shape split: if_splits)
  have "i = euros (exact_initial ls) c \<and> is_safe (exact_initial ls)"
    using i sum_amounts_fold [OF c ls is_safe_0] c by (simp add: sum_amounts_def money_zero_shape)
  moreover have "d = euros (exact_discount ls) c \<and> is_safe (exact_discount ls)"
    using d sum_discounts_fold [OF c ls is_safe_0] c by (simp add: sum_discounts_def money_zero_shape)
  ultimately show ?thesis
    using d' s t' c
    by (auto simp: money_add_euros money_subtract_euros split: if_splits)
qed

lemma compute_order_totals_for_Inr [simp]:
  "compute_order_totals_for oid c ls = Inr t \<longleftrightarrow> compute_order_totals c ls = Inr t"
  by (simp add: compute_order_totals_for_def)

text \<open>Bounded inputs are never refused for their size.\<close>

definition gross :: "order_line list \<Rightarrow> int" where
  "gross ls = sum_list (map (\<lambda>l. \<bar>line_amount l\<bar> + \<bar>amount (ol_discount l)\<bar>) ls)"

lemma gross_nonneg: "0 \<le> gross ls"
  by (induction ls) (simp_all add: gross_def)

lemma sum_discounts_bounded:
  assumes "currency_shape c" "list_all (line_ok c) ls" "\<bar>s\<bar> + gross ls \<le> max_safe"
  shows "foldR (\<lambda>s l. money_add s (ol_discount l)) (euros s c) ls = Inr (euros (s + exact_discount ls) c)"
  using assms
proof (induction ls arbitrary: s)
  case (Cons l ls)
  have g: "\<bar>s\<bar> + \<bar>amount (ol_discount l)\<bar> + gross ls \<le> max_safe"
    using Cons.prems(3) by (simp add: gross_def)
  then have "is_safe s" "is_safe (s + amount (ol_discount l))" "\<bar>s + amount (ol_discount l)\<bar> + gross ls \<le> max_safe"
    using gross_nonneg [of ls] by (auto simp: is_safe_def)
  then show ?case
    using Cons.IH [of "s + amount (ol_discount l)"] Cons.prems(1,2)
    by (simp add: line_ok_def [of c l] money_add_euros exact_discount_def add.assoc)
qed (simp add: exact_discount_def)

lemma sum_amounts_bounded:
  assumes "currency_shape c" "list_all (line_ok c) ls" "\<bar>s\<bar> + gross ls \<le> max_safe"
  shows "foldR (\<lambda>s l. bindR (money_multiply (ol_unit_price l) (ol_quantity l)) (money_add s)) (euros s c) ls =
    Inr (euros (s + exact_initial ls) c)"
  using assms
proof (induction ls arbitrary: s)
  case (Cons l ls)
  have g: "\<bar>s\<bar> + \<bar>line_amount l\<bar> + gross ls \<le> max_safe"
    using Cons.prems(3) by (simp add: gross_def)
  then have a: "is_safe s" "is_safe (line_amount l)" "is_safe (s + line_amount l)"
    "\<bar>s + line_amount l\<bar> + gross ls \<le> max_safe"
    using gross_nonneg [of ls] by (auto simp: is_safe_def)
  have "money_multiply (ol_unit_price l) (ol_quantity l) = Inr (euros (line_amount l) c)"
    using Cons.prems(2) a(2) by (simp add: line_ok_def money_multiply_eval line_amount_def euros_def)
  then show ?case
    using Cons.IH [of "s + line_amount l"] Cons.prems(1,2) a
    by (simp add: money_add_euros exact_initial_def add.assoc)
qed (simp add: exact_initial_def)

lemma gross_bounds:
  "\<bar>exact_initial ls\<bar> + \<bar>exact_discount ls\<bar> \<le> gross ls"
  by (induction ls) (auto simp: exact_initial_def exact_discount_def gross_def)

lemma compute_order_totals_bounded:
  assumes c: "currency_shape c" and ls: "list_all (line_ok c) ls" and g: "gross ls \<le> max_safe"
  shows "compute_order_totals c ls = (if exact_discount ls \<le> exact_initial ls
    then Inr \<lparr> ot_initial = euros (exact_initial ls) c, ot_discount = euros (exact_discount ls) c,
      ot_total = euros (exact_initial ls - exact_discount ls) c \<rparr>
    else Inl (Negative_Order_Total (euros (exact_initial ls - exact_discount ls) c) None))"
proof -
  have s: "is_safe (exact_initial ls)" "is_safe (exact_discount ls)"
    "is_safe (exact_initial ls - exact_discount ls)"
    using gross_bounds [of ls] g by (auto simp: is_safe_def)
  have "sum_amounts c ls = Inr (euros (exact_initial ls) c)"
    using sum_amounts_bounded [OF c ls, of 0] g c by (simp add: sum_amounts_def money_zero_shape)
  moreover have "sum_discounts c ls = Inr (euros (exact_discount ls) c)"
    using sum_discounts_bounded [OF c ls, of 0] g c by (simp add: sum_discounts_def money_zero_shape)
  ultimately show ?thesis
    using s c by (simp add: compute_order_totals_def money_zero_shape money_add_euros money_subtract_euros)
qed

text \<open>C39: The totals of an order are the exact integer sums over its lines: whenever
  \<open>computeOrderTotals\<close> returns, no rounding has happened anywhere, the discount does not
  exceed the gross amount, and the total is their exact difference; and it does return
  for every list of lines of one currency whose gross volume is a safe integer and whose
  discount does not exceed its amount.\<close>

theorem order_totals_exact:
  assumes "currency_shape c" and "list_all (line_ok c) ls"
  shows "(\<forall>t. compute_order_totals c ls = Inr t \<longrightarrow>
      t = \<lparr> ot_initial = euros (exact_initial ls) c, ot_discount = euros (exact_discount ls) c,
        ot_total = euros (exact_initial ls - exact_discount ls) c \<rparr> \<and>
      exact_discount ls \<le> exact_initial ls) \<and>
    (gross ls \<le> max_safe \<longrightarrow> compute_order_totals c ls = (if exact_discount ls \<le> exact_initial ls
      then Inr \<lparr> ot_initial = euros (exact_initial ls) c, ot_discount = euros (exact_discount ls) c,
        ot_total = euros (exact_initial ls - exact_discount ls) c \<rparr>
      else Inl (Negative_Order_Total (euros (exact_initial ls - exact_discount ls) c) None)))"
  using compute_order_totals_Inr [OF assms] compute_order_totals_bounded [OF assms] by blast

section \<open>The invariant of the aggregate\<close>

definition totals_derived :: "order \<Rightarrow> bool" where
  "totals_derived ord \<longleftrightarrow>
     o_initial_amount ord = euros (exact_initial (o_lines ord)) (o_currency ord) \<and>
     o_initial_discount ord = euros (exact_discount (o_lines ord)) (o_currency ord) \<and>
     o_total ord = euros (exact_initial (o_lines ord) - exact_discount (o_lines ord)) (o_currency ord) \<and>
     0 \<le> amount (o_total ord) \<and> is_safe (amount (o_total ord))"

definition order_ok :: "order \<Rightarrow> bool" where
  "order_ok ord \<longleftrightarrow> o_lines ord \<noteq> [] \<and> currency_shape (o_currency ord) \<and>
     list_all (line_ok (o_currency ord)) (o_lines ord) \<and> totals_derived ord \<and>
     (o_reason ord \<noteq> None \<longleftrightarrow> o_status ord = Cancelled)"

definition line_input_ok :: "line_input \<Rightarrow> bool" where
  "line_input_ok l \<longleftrightarrow> money_ok (li_unit_price l) \<and> money_ok (li_discount l) \<and> quantity_ok (li_quantity l)"

fun op_ok :: "order_op \<Rightarrow> bool" where
  "op_ok (Op_Add_Line lid l) = line_input_ok l"
| "op_ok (Op_Change_Quantity lid q) = quantity_ok q"
| "op_ok _ = True"

lemma assert_line_currency_Inr [simp]:
  "assert_line_currency c p d oid = Inr u \<longleftrightarrow> currency p = c \<and> currency d = c"
  by (auto simp: assert_line_currency_def bindR_Inr)

lemma make_line_ok:
  "\<lbrakk> line_input_ok l; currency (li_unit_price l) = c; currency (li_discount l) = c \<rbrakk> \<Longrightarrow> line_ok c (make_line lid l)"
  by (simp add: line_input_ok_def line_ok_def make_line_def)

lemma with_lines_ok:
  assumes "with_lines ls ord = Inr ord'" "order_ok ord" "list_all (line_ok (o_currency ord)) ls" "ls \<noteq> []"
  shows "order_ok ord'"
proof -
  obtain t where t: "compute_order_totals (o_currency ord) ls = Inr t"
    and o: "ord' = ord \<lparr> o_lines := ls, o_initial_amount := ot_initial t,
       o_initial_discount := ot_discount t, o_total := ot_total t \<rparr>"
    using assms(1) by (auto simp: with_lines_def bindR_Inr)
  show ?thesis
    using compute_order_totals_Inr [OF _ assms(3) t] assms(2-4)
    by (simp add: o order_ok_def totals_derived_def)
qed

lemma order_ok_lines: "order_ok ord \<Longrightarrow> list_all (line_ok (o_currency ord)) (o_lines ord)"
  by (simp add: order_ok_def)

lemma with_lines_ok_all:
  assumes "with_lines ls ord = Inr ord'" "order_ok ord" "\<And>l. l \<in> set ls \<Longrightarrow> line_ok (o_currency ord) l" "ls \<noteq> []"
  shows "order_ok ord'"
  using assms by (intro with_lines_ok [of ls ord ord']) (auto simp: list_all_iff)

lemma with_lines_frame:
  "with_lines ls ord = Inr ord' \<Longrightarrow> o_status ord' = o_status ord \<and> o_events ord' = o_events ord \<and>
    o_id ord' = o_id ord \<and> o_lines ord' = ls \<and> o_reason ord' = o_reason ord"
  by (auto simp: with_lines_def bindR_Inr)

lemmas transition_ops = mark_stock_reserved_def approve_credit_def confirm_order_def
  mark_despatched_def mark_invoiced_def mark_paid_def complete_order_def

text \<open>When each operation succeeds, and its result.\<close>

lemma transition_op_Inr [order_ops]:
  "mark_stock_reserved ord = Inr x \<longleftrightarrow> o_status ord = Placed \<and> x = ord \<lparr> o_status := Stock_Reserved \<rparr>"
  "approve_credit ord = Inr x \<longleftrightarrow> o_status ord = Stock_Reserved \<and> x = ord \<lparr> o_status := Credit_Approved \<rparr>"
  "confirm_order eid ctx ord = Inr x \<longleftrightarrow> o_status ord = Credit_Approved \<and>
     x = add_domain_event (order_confirmed_event eid (ord \<lparr> o_status := Confirmed \<rparr>) ctx) (ord \<lparr> o_status := Confirmed \<rparr>)"
  "mark_despatched ord = Inr x \<longleftrightarrow> o_status ord = Confirmed \<and> x = ord \<lparr> o_status := Despatched \<rparr>"
  "mark_invoiced ord = Inr x \<longleftrightarrow> o_status ord = Despatched \<and> x = ord \<lparr> o_status := Invoiced \<rparr>"
  "mark_paid ord = Inr x \<longleftrightarrow> o_status ord = Invoiced \<and> x = ord \<lparr> o_status := Paid \<rparr>"
  "complete_order eid ctx ord = Inr x \<longleftrightarrow> o_status ord = Paid \<and>
     x = add_domain_event (order_completed_event eid (ord \<lparr> o_status := Completed \<rparr>) ctx) (ord \<lparr> o_status := Completed \<rparr>)"
  by (auto simp: transition_ops transition_to_def find_transition_simps Let_def)

lemma transition_op_Inl [order_ops]:
  "mark_stock_reserved ord = Inl e \<longleftrightarrow> o_status ord \<noteq> Placed \<and>
     e = Transition_Not_Allowed (o_id ord) (o_status ord) Stock_Reserved"
  "approve_credit ord = Inl e \<longleftrightarrow> o_status ord \<noteq> Stock_Reserved \<and>
     e = Transition_Not_Allowed (o_id ord) (o_status ord) Credit_Approved"
  "confirm_order eid ctx ord = Inl e \<longleftrightarrow> o_status ord \<noteq> Credit_Approved \<and>
     e = Transition_Not_Allowed (o_id ord) (o_status ord) Confirmed"
  "mark_despatched ord = Inl e \<longleftrightarrow> o_status ord \<noteq> Confirmed \<and>
     e = Transition_Not_Allowed (o_id ord) (o_status ord) Despatched"
  "mark_invoiced ord = Inl e \<longleftrightarrow> o_status ord \<noteq> Despatched \<and>
     e = Transition_Not_Allowed (o_id ord) (o_status ord) Invoiced"
  "mark_paid ord = Inl e \<longleftrightarrow> o_status ord \<noteq> Invoiced \<and>
     e = Transition_Not_Allowed (o_id ord) (o_status ord) Paid"
  "complete_order eid ctx ord = Inl e \<longleftrightarrow> o_status ord \<noteq> Paid \<and>
     e = Transition_Not_Allowed (o_id ord) (o_status ord) Completed"
  by (auto simp: transition_ops transition_to_def find_transition_simps Let_def)

lemma order_ok_status:
  "\<lbrakk> order_ok ord; o_status ord \<noteq> Cancelled; t \<noteq> Cancelled \<rbrakk> \<Longrightarrow> order_ok (ord \<lparr> o_status := t \<rparr>)"
  by (auto simp: order_ok_def totals_derived_def)

lemma order_ok_cancelled:
  "order_ok ord \<Longrightarrow> order_ok (ord \<lparr> o_status := Cancelled, o_reason := Some r \<rparr>)"
  by (auto simp: order_ok_def totals_derived_def)

lemma order_ok_events [simp]: "order_ok (add_domain_event e ord) \<longleftrightarrow> order_ok ord"
  by (simp add: order_ok_def totals_derived_def add_domain_event_def)

lemma cancel_order_raw_Inr:
  "cancel_order_raw eid reason ctx steps ord = Inr ord' \<longleftrightarrow>
    (\<exists>r. Option.bind reason reason_of_name = Some r \<and> cancellable (o_status ord) \<and>
      (r = Stock_Rejected \<longrightarrow> o_status ord = Placed) \<and>
      (r = Credit_Rejected \<longrightarrow> o_status ord = Stock_Reserved) \<and>
      (let x = ord \<lparr> o_status := Cancelled, o_reason := Some r \<rparr> in
       ord' = add_domain_event (order_cancelled_event eid r steps x ctx) x))"
  by (auto simp: cancel_order_raw_def transition_to_def find_transition_cancelled Let_def
      split: option.splits if_splits)

lemma cancel_order_Inr [order_ops]:
  "cancel_order eid r ctx steps ord = Inr ord' \<longleftrightarrow> cancellable (o_status ord) \<and>
      (r = Stock_Rejected \<longrightarrow> o_status ord = Placed) \<and>
      (r = Credit_Rejected \<longrightarrow> o_status ord = Stock_Reserved) \<and>
      (let x = ord \<lparr> o_status := Cancelled, o_reason := Some r \<rparr> in
       ord' = add_domain_event (order_cancelled_event eid r steps x ctx) x)"
  by (auto simp: cancel_order_def cancel_order_raw_Inr Let_def)

lemma apply_op_ok:
  assumes "order_ok ord" "op_ok p" "apply_op p ord = Inr ord'"
  shows "order_ok ord'"
proof (cases p)
  case (Op_Add_Line lid l)
  then have "with_lines (o_lines ord @ [make_line lid l]) ord = Inr ord'"
    and "line_ok (o_currency ord) (make_line lid l)"
    using assms(2,3) by (auto simp: add_line_def bindR_Inr make_line_ok)
  then show ?thesis using assms(1) order_ok_lines [OF assms(1)]
    by (elim with_lines_ok) auto
next
  case (Op_Remove_Line lid)
  then have "with_lines (filter (\<lambda>l. ol_id l \<noteq> lid) (o_lines ord)) ord = Inr ord'"
    and "filter (\<lambda>l. ol_id l \<noteq> lid) (o_lines ord) \<noteq> []"
    using assms(3) by (auto simp: remove_line_def bindR_Inr Let_def split: if_splits)
  then show ?thesis using assms(1) order_ok_lines [OF assms(1)]
    by (elim with_lines_ok_all) (auto simp: list_all_iff)
next
  case (Op_Change_Quantity lid q)
  let ?ls = "map (\<lambda>l. if ol_id l = lid then l \<lparr> ol_quantity := q \<rparr> else l) (o_lines ord)"
  have w: "with_lines ?ls ord = Inr ord'"
    using Op_Change_Quantity assms(3) by (auto simp: change_line_quantity_def bindR_Inr split: option.splits)
  have l: "line_ok (o_currency ord) l" if "l \<in> set ?ls" for l
    using that order_ok_lines [OF assms(1)] assms(2) Op_Change_Quantity
    by (auto simp: list_all_iff line_ok_def split: if_splits)
  have "?ls \<noteq> []" using assms(1) by (simp add: order_ok_def)
  with w assms(1) l show ?thesis by (rule with_lines_ok_all)
next
  case (Op_Cancel eid r ctx steps)
  then show ?thesis using assms by (auto simp: cancel_order_raw_Inr Let_def order_ok_cancelled)
next
  case (Op_Saga_Failure eid inp ctx)
  then show ?thesis using assms by (auto simp: record_saga_failure_def)
qed (use assms in \<open>auto simp: order_ops order_ok_status\<close>)

section \<open>Placing, and the runs from a placed order\<close>

lemma make_lines_ok:
  assumes "list_all line_input_ok ls"
    and "\<forall>l\<in>set ls. currency (li_unit_price l) = c \<and> currency (li_discount l) = c"
  shows "list_all (line_ok c) (make_lines fresh ls)"
  using assms by (auto simp: make_lines_def list_all_iff in_set_enumerate_eq intro!: make_line_ok)

lemma make_lines_length [simp]: "length (make_lines fresh ls) = length ls"
  by (simp add: make_lines_def)

lemma place_order_Inr:
  assumes p: "place_order fresh inp ctx = Inr ord" and ok: "list_all line_input_ok (pi_lines inp)"
  shows "order_ok ord \<and> o_status ord = Placed \<and> o_id ord = pi_id inp \<and>
    o_lines ord = make_lines fresh (pi_lines inp) \<and>
    (\<exists>e. o_events ord = [e] \<and> ev_type e = Order_Placed \<and> ev_aggregate e = pi_id inp \<and>
      ev_correlation e = pi_id inp \<and> ev_causation e = tc_causation ctx \<and> ev_at e = tc_at ctx)"
proof -
  let ?ls = "make_lines fresh (pi_lines inp)" and ?c = "pi_currency inp"
  from p obtain us t e where ne: "pi_lines inp \<noteq> []"
    and us: "mapR (\<lambda>l. assert_line_currency ?c (li_unit_price l) (li_discount l) (pi_id inp)) (pi_lines inp) = Inr us"
    and t: "compute_order_totals ?c ?ls = Inr t"
    and o: "ord = add_domain_event e \<lparr> o_id = pi_id inp, o_reference = pi_reference inp, o_date = pi_date inp,
        o_buyer_gln = pi_buyer_gln inp, o_retailer = pi_buyer_code inp,
        o_supplier_gln = pi_supplier_gln inp, o_company = pi_supplier_code inp,
        o_currency = ?c, o_lines = ?ls, o_initial_amount = ot_initial t,
        o_initial_discount = ot_discount t, o_total = ot_total t, o_status = Placed,
        o_reason = None, o_notes = pi_notes inp, o_events = [] \<rparr>"
    and e: "ev_type e = Order_Placed \<and> ev_aggregate e = pi_id inp \<and> ev_correlation e = pi_id inp \<and>
      ev_causation e = tc_causation ctx \<and> ev_at e = tc_at ctx"
    by (auto simp: place_order_def bindR_Inr Let_def order_placed_event_def order_event_def split: if_splits)
  have c: "\<forall>l\<in>set (pi_lines inp). currency (li_unit_price l) = ?c \<and> currency (li_discount l) = ?c"
    using us by (auto simp: mapR_list_all2 list_all2_conv_all_nth in_set_conv_nth)
  with ok have ls: "list_all (line_ok ?c) ?ls" by (rule make_lines_ok)
  have sh: "currency_shape ?c"
    using ok c ne by (cases "pi_lines inp") (auto simp: line_input_ok_def money_ok_def)
  have "?ls \<noteq> []" using ne make_lines_length by (metis length_0_conv)
  then show ?thesis
    using compute_order_totals_Inr [OF sh ls t] sh ls e
    by (simp add: o) (simp add: add_domain_event_def order_ok_def totals_derived_def)
qed

definition status_facts :: "order \<Rightarrow> event_type list" where
  "status_facts ord = filter (\<lambda>t. t \<noteq> Order_Saga_Failed) (map ev_type (o_events ord))"

text \<open>The facts Table T-1 lets an order of each status have emitted.\<close>

fun history_ok :: "order_status \<Rightarrow> event_type list \<Rightarrow> bool" where
  "history_ok Completed h \<longleftrightarrow> h = [Order_Placed, Order_Confirmed, Order_Completed]"
| "history_ok Cancelled h \<longleftrightarrow> h = [Order_Placed, Order_Cancelled] \<or> h = [Order_Placed, Order_Confirmed, Order_Cancelled]"
| "history_ok s h \<longleftrightarrow> h = (if s < Confirmed then [Order_Placed] else [Order_Placed, Order_Confirmed])"

definition events_about :: "uid \<Rightarrow> order \<Rightarrow> bool" where
  "events_about oid ord \<longleftrightarrow> o_id ord = oid \<and>
     list_all (\<lambda>e. ev_aggregate e = oid \<and> ev_correlation e = oid) (o_events ord)"

lemma event_types [simp]:
  "ev_type (order_confirmed_event eid x ctx) = Order_Confirmed"
  "ev_type (order_completed_event eid x ctx) = Order_Completed"
  "ev_type (order_cancelled_event eid r steps x ctx) = Order_Cancelled"
  "ev_type (order_saga_failed_event eid inp x ctx) = Order_Saga_Failed"
  by (simp_all add: order_confirmed_event_def order_completed_event_def order_cancelled_event_def
      order_saga_failed_event_def order_event_def)

lemma event_orders [simp]:
  "ev_aggregate (order_confirmed_event eid x ctx) = o_id x" "ev_correlation (order_confirmed_event eid x ctx) = o_id x"
  "ev_aggregate (order_completed_event eid x ctx) = o_id x" "ev_correlation (order_completed_event eid x ctx) = o_id x"
  "ev_aggregate (order_cancelled_event eid r steps x ctx) = o_id x"
  "ev_correlation (order_cancelled_event eid r steps x ctx) = o_id x"
  "ev_aggregate (order_saga_failed_event eid inp x ctx) = o_id x"
  "ev_correlation (order_saga_failed_event eid inp x ctx) = o_id x"
  by (simp_all add: order_confirmed_event_def order_completed_event_def order_cancelled_event_def
      order_saga_failed_event_def order_event_def)

lemma add_domain_event_fields [simp]:
  "o_events (add_domain_event e ord) = o_events ord @ [e]" "o_status (add_domain_event e ord) = o_status ord"
  "o_id (add_domain_event e ord) = o_id ord" "o_lines (add_domain_event e ord) = o_lines ord"
  "o_reason (add_domain_event e ord) = o_reason ord" "o_total (add_domain_event e ord) = o_total ord"
  "o_currency (add_domain_event e ord) = o_currency ord" "o_reference (add_domain_event e ord) = o_reference ord"
  "o_retailer (add_domain_event e ord) = o_retailer ord" "o_company (add_domain_event e ord) = o_company ord"
  "o_initial_discount (add_domain_event e ord) = o_initial_discount ord"
  "o_date (add_domain_event e ord) = o_date ord" "o_notes (add_domain_event e ord) = o_notes ord"
  by (simp_all add: add_domain_event_def)

lemma line_op_frame:
  "add_line lid l ord = Inr x \<Longrightarrow> o_status x = o_status ord \<and> o_events x = o_events ord \<and> o_id x = o_id ord \<and> o_status ord \<in> lines_mutable_in"
  "remove_line lid ord = Inr x \<Longrightarrow> o_status x = o_status ord \<and> o_events x = o_events ord \<and> o_id x = o_id ord \<and> o_status ord \<in> lines_mutable_in"
  "change_line_quantity lid q ord = Inr x \<Longrightarrow> o_status x = o_status ord \<and> o_events x = o_events ord \<and> o_id x = o_id ord \<and> o_status ord \<in> lines_mutable_in"
  by (auto simp: add_line_def remove_line_def change_line_quantity_def assert_lines_mutable_def bindR_Inr Let_def
      dest: with_lines_frame split: if_splits option.splits)

lemma cancellable_cases:
  "cancellable s \<Longrightarrow> s = Placed \<or> s = Stock_Reserved \<or> s = Credit_Approved \<or> s = Confirmed"
  by (simp add: cancellable_def)

lemma apply_op_history:
  assumes "history_ok (o_status ord) (status_facts ord)" "events_about oid ord" "apply_op p ord = Inr x"
  shows "history_ok (o_status x) (status_facts x) \<and> events_about oid x"
proof (cases p)
  case (Op_Add_Line lid l)
  then show ?thesis using assms line_op_frame(1) [of lid l ord x] by (simp add: status_facts_def events_about_def)
next
  case (Op_Remove_Line lid)
  then show ?thesis using assms line_op_frame(2) [of lid ord x] by (simp add: status_facts_def events_about_def)
next
  case (Op_Change_Quantity lid q)
  then show ?thesis using assms line_op_frame(3) [of lid q ord x] by (simp add: status_facts_def events_about_def)
next
  case (Op_Cancel eid r ctx steps)
  then show ?thesis using assms
    by (auto simp: cancel_order_raw_Inr Let_def status_facts_def events_about_def less_order_status_def
        dest!: cancellable_cases)
next
  case (Op_Saga_Failure eid inp ctx)
  then show ?thesis using assms
    by (auto simp: record_saga_failure_def status_facts_def events_about_def)
qed (use assms in \<open>auto simp: order_ops status_facts_def events_about_def less_order_status_def\<close>)

lemma run_ops_invariant:
  assumes "\<And>p x y. \<lbrakk> p \<in> set ps; P x; apply_op p x = Inr y \<rbrakk> \<Longrightarrow> P y" "P ord"
  shows "P (run_ops ps ord)"
  using assms
proof (induction ps arbitrary: ord)
  case (Cons p ps)
  have "P (case apply_op p ord of Inl _ \<Rightarrow> ord | Inr x \<Rightarrow> x)"
    using Cons.prems(1) [OF list.set_intros(1)] Cons.prems(2) by (auto split: sum.split)
  then show ?case using Cons.IH Cons.prems(1) by (auto intro: list.set_intros(2))
qed simp

lemma apply_op_edge:
  assumes "apply_op p ord = Inr x"
  shows "o_status x = o_status ord \<or> legal_edge (o_status ord) (o_status x)"
proof (cases p)
  case (Op_Add_Line lid l)
  then show ?thesis using assms line_op_frame(1) [of lid l ord x] by simp
next
  case (Op_Remove_Line lid)
  then show ?thesis using assms line_op_frame(2) [of lid ord x] by simp
next
  case (Op_Change_Quantity lid q)
  then show ?thesis using assms line_op_frame(3) [of lid q ord x] by simp
next
  case (Op_Cancel eid r ctx steps)
  then show ?thesis using assms
    by (auto simp: cancel_order_raw_Inr Let_def legal_edge_def find_transition_cancelled)
next
  case (Op_Saga_Failure eid inp ctx)
  then show ?thesis using assms by (auto simp: record_saga_failure_def)
qed (use assms in \<open>auto simp: order_ops legal_edge_def find_transition_simps\<close>)

lemma apply_op_closed:
  assumes "apply_op p ord = Inr x" "o_status ord = Completed \<or> o_status ord = Cancelled"
  shows "o_status x = o_status ord \<and> o_lines x = o_lines ord \<and> o_reason x = o_reason ord"
proof (cases p)
  case (Op_Add_Line lid l)
  then show ?thesis using assms line_op_frame(1) [of lid l ord x] by (auto simp: lines_mutable_in_def)
next
  case (Op_Remove_Line lid)
  then show ?thesis using assms line_op_frame(2) [of lid ord x] by (auto simp: lines_mutable_in_def)
next
  case (Op_Change_Quantity lid q)
  then show ?thesis using assms line_op_frame(3) [of lid q ord x] by (auto simp: lines_mutable_in_def)
next
  case (Op_Cancel eid r ctx steps)
  then show ?thesis using assms by (auto simp: cancel_order_raw_Inr Let_def cancellable_def)
next
  case (Op_Saga_Failure eid inp ctx)
  then show ?thesis using assms by (auto simp: record_saga_failure_def)
qed (use assms in \<open>auto simp: order_ops\<close>)

text \<open>C2: From any successful \<open>Order.place\<close>, whatever sequence of operations is attempted, in whatever
  order and with refused ones in between, the aggregate keeps its invariant (at least one
  line, lines of the order's currency, totals derived exactly from the lines and not
  negative, a cancellation reason exactly when cancelled); and the facts it has emitted are
  exactly those Table T-1 attaches to its status: one order.placed.v1 first, one
  order.confirmed.v1 iff it was confirmed, and one closing fact iff it is closed.\<close>

theorem order_runs_keep_invariant:
  assumes "place_order fresh inp ctx = Inr ord"
    and "list_all line_input_ok (pi_lines inp)" and "list_all op_ok ps"
  shows "order_ok (run_ops ps ord) \<and>
    history_ok (o_status (run_ops ps ord)) (status_facts (run_ops ps ord)) \<and>
    events_about (pi_id inp) (run_ops ps ord)"
proof -
  note start = place_order_Inr [OF assms(1,2)]
  have "order_ok (run_ops ps ord)"
    using start assms(3) by (intro run_ops_invariant [of ps order_ok]) (auto simp: list_all_iff intro: apply_op_ok)
  moreover have "history_ok (o_status (run_ops ps ord)) (status_facts (run_ops ps ord)) \<and>
      events_about (pi_id inp) (run_ops ps ord)"
  proof (rule run_ops_invariant)
    show "history_ok (o_status ord) (status_facts ord) \<and> events_about (pi_id inp) ord"
      using start by (auto simp: status_facts_def events_about_def less_order_status_def)
  qed (use apply_op_history in blast)
  ultimately show ?thesis by blast
qed

definition example_order_input :: place_input where
  "example_order_input = \<lparr> pi_id = ''order'', pi_reference = Order_Number ''ORD-000001'', pi_date = 0,
     pi_buyer_gln = ''buyer'', pi_buyer_code = ''RET'', pi_supplier_gln = ''supplier'', pi_supplier_code = ''CO'',
     pi_currency = ''EUR'',
     pi_lines = [\<lparr> li_product = ''P1'', li_description = ''one'', li_quantity = Quantity 3,
       li_unit_price = euros 250 ''EUR'', li_discount = euros 50 ''EUR'' \<rparr>,
       \<lparr> li_product = ''P2'', li_description = ''two'', li_quantity = Quantity 1,
       li_unit_price = euros 1000 ''EUR'', li_discount = euros 0 ''EUR'' \<rparr>],
     pi_notes = None \<rparr>"

definition example_context :: transition_context where
  "example_context = \<lparr> tc_at = 7, tc_causation = ''cause'' \<rparr>"

definition example_order :: order where
  "example_order = (case place_order (\<lambda>k. CHR ''i'' # decimal k) example_order_input example_context of
     Inr x \<Rightarrow> x | Inl _ \<Rightarrow> undefined)"

lemma example_order_placed:
  "place_order (\<lambda>k. CHR ''i'' # decimal k) example_order_input example_context = Inr example_order"
proof -
  have "is_ok (place_order (\<lambda>k. CHR ''i'' # decimal k) example_order_input example_context)"
    by code_simp
  then show ?thesis by (auto simp: is_ok_iff example_order_def)
qed

definition example_ops :: "order_op list" where
  "example_ops = [Op_Mark_Stock_Reserved, Op_Mark_Paid, Op_Approve_Credit, Op_Confirm ''e'' example_context,
     Op_Cancel ''c'' (Some ''operator_cancelled'') example_context []]"

lemma example_inputs_ok: "list_all line_input_ok (pi_lines example_order_input)"
  by (simp add: example_order_input_def line_input_ok_def quantity_ok_def is_safe_def max_safe_def
      currency_shape_def is_upper_def code_of_def)

lemma example_ops_ok: "list_all op_ok example_ops"
  by (simp add: example_ops_def)

definition example_closed_order :: order where
  "example_closed_order = example_order \<lparr> o_status := Cancelled \<rparr>"

lemma order_runs_keep_invariant_witness:
  "order_ok (run_ops example_ops example_order) \<and> o_status (run_ops example_ops example_order) = Cancelled"
proof -
  have "o_status (run_ops example_ops example_order) = Cancelled" by code_simp
  then show ?thesis
    using order_runs_keep_invariant [OF example_order_placed example_inputs_ok example_ops_ok] by blast
qed

text \<open>C14: Every operation either leaves the status or follows an edge of Table T-1, so an order only
  ever advances in the order of its statuses; once completed or cancelled, no operation
  changes its status, its lines or its cancellation reason again.\<close>

theorem order_status_only_advances:
  "o_status ord \<le> o_status (run_ops ps ord) \<and>
   (\<forall>p x. apply_op p ord = Inr x \<longrightarrow> o_status x = o_status ord \<or> legal_edge (o_status ord) (o_status x)) \<and>
   (o_status ord = Completed \<or> o_status ord = Cancelled \<longrightarrow>
     o_status (run_ops ps ord) = o_status ord \<and> o_lines (run_ops ps ord) = o_lines ord \<and>
     o_reason (run_ops ps ord) = o_reason ord)"
  (is "?up \<and> ?edges \<and> ?closed")
proof (intro conjI impI)
  show ?edges using apply_op_edge by blast
  have "o_status ord \<le> o_status y" if "o_status ord \<le> o_status x" "apply_op p x = Inr y" for p x y
    using that apply_op_edge [OF that(2)] legal_edge_increases [of "o_status x" "o_status y"] by auto
  then show ?up by (rule run_ops_invariant) auto
  assume c: "o_status ord = Completed \<or> o_status ord = Cancelled"
  let ?P = "\<lambda>x. o_status x = o_status ord \<and> o_lines x = o_lines ord \<and> o_reason x = o_reason ord"
  have "?P y" if "?P x" "apply_op p x = Inr y" for p x y
    using that c apply_op_closed [OF that(2)] by auto
  then have "?P (run_ops ps ord)" by (rule run_ops_invariant) auto
  then show "o_status (run_ops ps ord) = o_status ord" "o_lines (run_ops ps ord) = o_lines ord"
    "o_reason (run_ops ps ord) = o_reason ord" by auto
qed

lemma order_status_only_advances_witness:
  "o_status (run_ops example_ops example_closed_order) = Cancelled"
  using order_status_only_advances [of example_closed_order example_ops]
  by (simp add: example_closed_order_def)

lemma order_totals_exact_witness:
  "compute_order_totals ''EUR'' (o_lines example_order) = Inr \<lparr> ot_initial = euros 1750 ''EUR'',
     ot_discount = euros 50 ''EUR'', ot_total = euros 1700 ''EUR'' \<rparr>"
proof -
  have a: "currency_shape ''EUR''" by code_simp
  have b: "list_all (line_ok ''EUR'') (o_lines example_order)" by code_simp
  have c: "gross (o_lines example_order) \<le> max_safe" by code_simp
  have d: "exact_initial (o_lines example_order) = 1750" by code_simp
  have e: "exact_discount (o_lines example_order) = 50" by code_simp
  show ?thesis using conjunct2 [OF order_totals_exact [OF a b]] c by (simp only: d e) simp
qed

end
