(* ===== verification/Saga_Steps.thy ===== *)
theory Saga_Steps
  imports Order_Aggregate
begin

text \<open>
  The saga's step table (apps/orders/src/application/saga-steps.ts) and the request payload
  each owed command is snapshotted with (saga-command-payloads.ts).  A fact type has a list
  of variants, each with the one status it applies to; \<open>step_for_status\<close> selects the variant
  of the order's status.  A payload that is not the one the fact type declares makes the
  cast field undefined, which the reason mappings refuse.  The em dash of the recorded
  texts is its UTF-8 encoding.
\<close>

named_theorems saga_table "the step table, evaluated"

datatype saga_command_kind =
    Stock_Reserve | Stock_Release | Despatch_Create | Credit_Hold | Invoice_Issue | Credit_Release

datatype saga_error =
    Order_Err order_error
  | Kernel_Err kernel_error
  | Unmapped_Release_Reason
  | Unexpected_Credit_Release_Reason
  | Unexpected_Release_Fact event_type
  | Missing_Release_Fact
  | Command_Without_Lines
  | Ambiguous_Step event_type nat

datatype saga_step =
    Skip
  | Advance order_status "uid \<Rightarrow> transition_context \<Rightarrow> order \<Rightarrow> order_error + order" "saga_command_kind option"
  | Cancel_Step order_status "envelope \<Rightarrow> saga_error + cancellation_reason" "envelope \<Rightarrow> compensation_step list"

definition saga_command_kinds :: "saga_command_kind list" where
  "saga_command_kinds = [Stock_Reserve, Stock_Release, Despatch_Create, Credit_Hold, Invoice_Issue, Credit_Release]"

definition transition_context_from :: "envelope \<Rightarrow> kernel_error + transition_context" where
  "transition_context_from ft = bindR (unique_id_from (ev_id ft)) (\<lambda>i.
     Inr \<lparr> tc_at = ev_at ft, tc_causation = i \<rparr>)"

definition stock_release_reason :: "envelope \<Rightarrow> release_reason option" where
  "stock_release_reason ft = (case ev_payload ft of Stock_Released_P p \<Rightarrow> Some (srl_reason p) | _ \<Rightarrow> None)"

definition credit_release_reason_of :: "envelope \<Rightarrow> credit_release_reason option" where
  "credit_release_reason_of ft = (case ev_payload ft of Credit_Released_P p \<Rightarrow> Some (cr_reason p) | _ \<Rightarrow> None)"

definition map_reason :: "release_reason option \<Rightarrow> saga_error + cancellation_reason" where
  "map_reason r = (case r of
     Some Release_Credit_Rejected \<Rightarrow> Inr Credit_Rejected
   | Some Release_Order_Cancelled \<Rightarrow> Inr Operator_Cancelled
   | None \<Rightarrow> Inl Unmapped_Release_Reason)"

definition map_credit_release_reason :: "credit_release_reason option \<Rightarrow> saga_error + cancellation_reason" where
  "map_credit_release_reason r = (case r of
     Some Release_Cancelled \<Rightarrow> Inr Operator_Cancelled
   | _ \<Rightarrow> Inl Unexpected_Credit_Release_Reason)"

definition em_dash :: string where
  "em_dash = map char_of [226, 128, 148::nat]"

definition release_reason_text :: "release_reason option \<Rightarrow> string" where
  "release_reason_text r = (case r of
     Some Release_Credit_Rejected \<Rightarrow> ''credit_rejected''
   | Some Release_Order_Cancelled \<Rightarrow> ''order_cancelled''
   | None \<Rightarrow> ''undefined'')"

definition steps_from_stock_then_credit_release :: "envelope \<Rightarrow> compensation_step list" where
  "steps_from_stock_then_credit_release ft = [
     \<lparr> cs_step = Step_Stock_Released, cs_event_id = None, cs_event_type = Stock_Released_Fact,
       cs_occurred_at = ev_at ft,
       cs_summary = Some (''stock released '' @ em_dash @ '' reason: order_cancelled (the contested resource, released FIRST so Fulfillment'' @ [CHR 39] @ ''s own lock can arbitrate it against a despatch already requested '' @ em_dash @ '' saga.md '' @ map char_of [194, 167::nat] @ ''4.3)'') \<rparr>,
     \<lparr> cs_step = Step_Credit_Released, cs_event_id = Some (ev_id ft), cs_event_type = ev_type ft,
       cs_occurred_at = ev_at ft,
       cs_summary = Some (''credit released '' @ em_dash @ '' reason: order_cancelled'') \<rparr>]"

definition steps_from :: "envelope \<Rightarrow> compensation_step list" where
  "steps_from ft = [
     \<lparr> cs_step = Step_Stock_Released, cs_event_id = Some (ev_id ft), cs_event_type = ev_type ft,
       cs_occurred_at = ev_at ft,
       cs_summary = Some (''stock released '' @ em_dash @ '' reason: '' @ release_reason_text (stock_release_reason ft)) \<rparr>]"

definition no_change :: "uid \<Rightarrow> transition_context \<Rightarrow> order \<Rightarrow> order_error + order" where
  "no_change eid ctx ord = Inr ord"

definition approve_and_confirm :: "uid \<Rightarrow> transition_context \<Rightarrow> order \<Rightarrow> order_error + order" where
  "approve_and_confirm eid ctx ord = bindR (approve_credit ord) (confirm_order eid ctx)"

definition saga_steps :: "(event_type \<times> saga_step list) list" where
  "saga_steps = [
     (Order_Placed, [Advance Placed no_change (Some Stock_Reserve)]),
     (Stock_Reserved_Fact, [Advance Placed (\<lambda>_ _. mark_stock_reserved) (Some Credit_Hold)]),
     (Stock_Rejected_Fact, [Cancel_Step Placed (\<lambda>_. Inr Stock_Rejected) (\<lambda>_. [])]),
     (Credit_Approved_Fact, [Advance Stock_Reserved approve_and_confirm (Some Despatch_Create)]),
     (Credit_Rejected_Fact, [Advance Stock_Reserved no_change (Some Stock_Release)]),
     (Stock_Released_Fact, [
        Cancel_Step Stock_Reserved (\<lambda>f. map_reason (stock_release_reason f)) steps_from,
        Advance Credit_Approved no_change (Some Credit_Release),
        Advance Confirmed no_change (Some Credit_Release)]),
     (Order_Despatched, [Advance Confirmed (\<lambda>_ _. mark_despatched) (Some Invoice_Issue)]),
     (Invoice_Issued, [Advance Despatched (\<lambda>_ _. mark_invoiced) None]),
     (Payment_Received, [Advance Invoiced (\<lambda>_ _. mark_paid) None]),
     (Credit_Released_Fact, [
        Advance Paid complete_order None,
        Cancel_Step Credit_Approved (\<lambda>f. map_credit_release_reason (credit_release_reason_of f))
          steps_from_stock_then_credit_release,
        Cancel_Step Confirmed (\<lambda>f. map_credit_release_reason (credit_release_reason_of f))
          steps_from_stock_then_credit_release]),
     (Order_Confirmed, [Skip]),
     (Order_Completed, [Skip]),
     (Order_Cancelled, [Skip])]"

definition step_variants_for :: "event_type \<Rightarrow> saga_step list" where
  "step_variants_for e = or_else (map_of saga_steps e) []"

fun step_precondition :: "saga_step \<Rightarrow> order_status option" where
  "step_precondition Skip = None"
| "step_precondition (Advance s _ _) = Some s"
| "step_precondition (Cancel_Step s _ _) = Some s"

definition is_skip :: "saga_step \<Rightarrow> bool" where
  "is_skip st = (case st of Skip \<Rightarrow> True | _ \<Rightarrow> False)"

definition step_for_status :: "event_type \<Rightarrow> order_status \<Rightarrow> saga_step option" where
  "step_for_status e s = find (\<lambda>st. \<not> is_skip st \<and> step_precondition st = Some s) (step_variants_for e)"

definition step_for :: "event_type \<Rightarrow> saga_error + saga_step option" where
  "step_for e = (let vs = step_variants_for e in
     if vs = [] then Inr None
     else if 1 < length vs then Inl (Ambiguous_Step e (length vs))
     else Inr (Some (hd vs)))"

lemma is_skip_simps [simp]: "is_skip Skip" "\<not> is_skip (Advance s f c)" "\<not> is_skip (Cancel_Step s r cs)"
  by (simp_all add: is_skip_def)

lemma step_variants [saga_table]:
  "step_variants_for Order_Placed = [Advance Placed no_change (Some Stock_Reserve)]"
  "step_variants_for Stock_Reserved_Fact = [Advance Placed (\<lambda>_ _. mark_stock_reserved) (Some Credit_Hold)]"
  "step_variants_for Stock_Rejected_Fact = [Cancel_Step Placed (\<lambda>_. Inr Stock_Rejected) (\<lambda>_. [])]"
  "step_variants_for Credit_Approved_Fact = [Advance Stock_Reserved approve_and_confirm (Some Despatch_Create)]"
  "step_variants_for Credit_Rejected_Fact = [Advance Stock_Reserved no_change (Some Stock_Release)]"
  "step_variants_for Stock_Released_Fact = [
        Cancel_Step Stock_Reserved (\<lambda>f. map_reason (stock_release_reason f)) steps_from,
        Advance Credit_Approved no_change (Some Credit_Release),
        Advance Confirmed no_change (Some Credit_Release)]"
  "step_variants_for Order_Despatched = [Advance Confirmed (\<lambda>_ _. mark_despatched) (Some Invoice_Issue)]"
  "step_variants_for Invoice_Issued = [Advance Despatched (\<lambda>_ _. mark_invoiced) None]"
  "step_variants_for Payment_Received = [Advance Invoiced (\<lambda>_ _. mark_paid) None]"
  "step_variants_for Credit_Released_Fact = [
        Advance Paid complete_order None,
        Cancel_Step Credit_Approved (\<lambda>f. map_credit_release_reason (credit_release_reason_of f))
          steps_from_stock_then_credit_release,
        Cancel_Step Confirmed (\<lambda>f. map_credit_release_reason (credit_release_reason_of f))
          steps_from_stock_then_credit_release]"
  "step_variants_for Order_Confirmed = [Skip]"
  "step_variants_for Order_Completed = [Skip]"
  "step_variants_for Order_Cancelled = [Skip]"
  "step_variants_for Order_Saga_Failed = []"
  "step_variants_for Operator_Cancel_Requested = []"
  "step_variants_for (Other_Event s) = []"
  by (simp_all add: step_variants_for_def saga_steps_def)

lemma step_for_status_simps [saga_table]:
  "step_for_status Order_Placed s = (if s = Placed then Some (Advance Placed no_change (Some Stock_Reserve)) else None)"
  "step_for_status Stock_Reserved_Fact s =
     (if s = Placed then Some (Advance Placed (\<lambda>_ _. mark_stock_reserved) (Some Credit_Hold)) else None)"
  "step_for_status Stock_Rejected_Fact s =
     (if s = Placed then Some (Cancel_Step Placed (\<lambda>_. Inr Stock_Rejected) (\<lambda>_. [])) else None)"
  "step_for_status Credit_Approved_Fact s =
     (if s = Stock_Reserved then Some (Advance Stock_Reserved approve_and_confirm (Some Despatch_Create)) else None)"
  "step_for_status Credit_Rejected_Fact s =
     (if s = Stock_Reserved then Some (Advance Stock_Reserved no_change (Some Stock_Release)) else None)"
  "step_for_status Stock_Released_Fact s =
     (if s = Stock_Reserved then Some (Cancel_Step Stock_Reserved (\<lambda>f. map_reason (stock_release_reason f)) steps_from)
      else if s = Credit_Approved then Some (Advance Credit_Approved no_change (Some Credit_Release))
      else if s = Confirmed then Some (Advance Confirmed no_change (Some Credit_Release)) else None)"
  "step_for_status Order_Despatched s =
     (if s = Confirmed then Some (Advance Confirmed (\<lambda>_ _. mark_despatched) (Some Invoice_Issue)) else None)"
  "step_for_status Invoice_Issued s =
     (if s = Despatched then Some (Advance Despatched (\<lambda>_ _. mark_invoiced) None) else None)"
  "step_for_status Payment_Received s =
     (if s = Invoiced then Some (Advance Invoiced (\<lambda>_ _. mark_paid) None) else None)"
  "step_for_status Credit_Released_Fact s =
     (if s = Paid then Some (Advance Paid complete_order None)
      else if s = Credit_Approved then Some (Cancel_Step Credit_Approved
          (\<lambda>f. map_credit_release_reason (credit_release_reason_of f)) steps_from_stock_then_credit_release)
      else if s = Confirmed then Some (Cancel_Step Confirmed
          (\<lambda>f. map_credit_release_reason (credit_release_reason_of f)) steps_from_stock_then_credit_release)
      else None)"
  "step_for_status Order_Confirmed s = None" "step_for_status Order_Completed s = None"
  "step_for_status Order_Cancelled s = None" "step_for_status Order_Saga_Failed s = None"
  "step_for_status Operator_Cancel_Requested s = None" "step_for_status (Other_Event n) s = None"
  by (auto simp: step_for_status_def step_variants)

section \<open>The payload of an owed command\<close>

record reserve_request =
  rq_reference :: string
  rq_retailer :: string
  rq_company :: string
  rq_lines :: "units_line list"

record hold_request =
  hq_reference :: string
  hq_retailer :: string
  hq_company :: string
  hq_amount :: int
  hq_currency :: string

record issue_request =
  iq_reference :: string
  iq_retailer :: string
  iq_company :: string
  iq_currency :: string
  iq_lines :: "invoice_line_payload list"
  iq_discount :: "int option"

record credit_release_request =
  lq_reference :: string
  lq_retailer :: string
  lq_company :: string

datatype command_payload =
    Reserve_Request reserve_request
  | Release_Request string release_reason
  | Despatch_Request string
  | Hold_Request hold_request
  | Issue_Request issue_request
  | Credit_Release_Request credit_release_request

definition non_empty_reserve_lines :: "order \<Rightarrow> saga_error + units_line list" where
  "non_empty_reserve_lines ord =
     (let ls = map (\<lambda>l. \<lparr> ul_product = ol_product l, ul_units = q_value (ol_quantity l) \<rparr>) (o_lines ord) in
      if ls = [] then Inl Command_Without_Lines else Inr ls)"

definition non_empty_invoice_lines :: "order \<Rightarrow> saga_error + invoice_line_payload list" where
  "non_empty_invoice_lines ord =
     (let ls = map (\<lambda>l. \<lparr> il_product = ol_product l, il_units = q_value (ol_quantity l),
        il_unit_price = amount (ol_unit_price l) \<rparr>) (o_lines ord) in
      if ls = [] then Inl Command_Without_Lines else Inr ls)"

definition stock_release_reason_for :: "envelope \<Rightarrow> saga_error + release_reason" where
  "stock_release_reason_for ft = (if ev_type ft \<noteq> Credit_Rejected_Fact
     then Inl (Unexpected_Release_Fact (ev_type ft)) else Inr Release_Credit_Rejected)"

definition build_saga_command_payload ::
    "saga_command_kind \<Rightarrow> order \<Rightarrow> envelope option \<Rightarrow> saga_error + command_payload" where
  "build_saga_command_payload k ord ft = (case k of
     Stock_Reserve \<Rightarrow> bindR (non_empty_reserve_lines ord) (\<lambda>ls. Inr (Reserve_Request
       \<lparr> rq_reference = order_reference_value ord, rq_retailer = o_retailer ord,
         rq_company = o_company ord, rq_lines = ls \<rparr>))
   | Stock_Release \<Rightarrow> (case ft of
       None \<Rightarrow> Inl Missing_Release_Fact
     | Some f \<Rightarrow> bindR (stock_release_reason_for f) (\<lambda>r. Inr (Release_Request (order_reference_value ord) r)))
   | Despatch_Create \<Rightarrow> Inr (Despatch_Request (order_reference_value ord))
   | Credit_Hold \<Rightarrow> Inr (Hold_Request
       \<lparr> hq_reference = order_reference_value ord, hq_retailer = o_retailer ord, hq_company = o_company ord,
         hq_amount = amount (o_total ord), hq_currency = currency (o_total ord) \<rparr>)
   | Invoice_Issue \<Rightarrow> bindR (non_empty_invoice_lines ord) (\<lambda>ls. Inr (Issue_Request
       \<lparr> iq_reference = order_reference_value ord, iq_retailer = o_retailer ord,
         iq_company = o_company ord, iq_currency = o_currency ord, iq_lines = ls,
         iq_discount = Some (amount (o_initial_discount ord)) \<rparr>))
   | Credit_Release \<Rightarrow> Inr (Credit_Release_Request
       \<lparr> lq_reference = order_reference_value ord, lq_retailer = o_retailer ord, lq_company = o_company ord \<rparr>))"

text \<open>The command a step owes can always be built from an order with a line.\<close>

lemma owed_payload_builds:
  assumes "o_lines ord \<noteq> []" "step_for_status (ev_type f) s = Some (Advance p g (Some k))"
  shows "\<exists>q. build_saga_command_payload k ord (Some f) = Inr q"
  using assms
  by (cases "ev_type f") (auto simp: step_for_status_simps build_saga_command_payload_def
      non_empty_reserve_lines_def non_empty_invoice_lines_def stock_release_reason_for_def Let_def
      split: if_splits)

section \<open>Steps and Table T-1\<close>

definition step_target :: "event_type \<Rightarrow> order_status \<Rightarrow> order_status option" where
  "step_target e s = (case e of
     Order_Placed \<Rightarrow> if s = Placed then Some Placed else None
   | Stock_Reserved_Fact \<Rightarrow> if s = Placed then Some Stock_Reserved else None
   | Stock_Rejected_Fact \<Rightarrow> if s = Placed then Some Cancelled else None
   | Credit_Approved_Fact \<Rightarrow> if s = Stock_Reserved then Some Confirmed else None
   | Credit_Rejected_Fact \<Rightarrow> if s = Stock_Reserved then Some Stock_Reserved else None
   | Stock_Released_Fact \<Rightarrow> if s = Stock_Reserved then Some Cancelled
       else if s = Credit_Approved \<or> s = Confirmed then Some s else None
   | Order_Despatched \<Rightarrow> if s = Confirmed then Some Despatched else None
   | Invoice_Issued \<Rightarrow> if s = Despatched then Some Invoiced else None
   | Payment_Received \<Rightarrow> if s = Invoiced then Some Paid else None
   | Credit_Released_Fact \<Rightarrow> if s = Paid then Some Completed
       else if s = Credit_Approved \<or> s = Confirmed then Some Cancelled else None
   | _ \<Rightarrow> None)"

lemma step_target_iff: "step_target e s = None \<longleftrightarrow> step_for_status e s = None"
  by (cases e) (simp_all add: step_target_def step_for_status_simps)

lemma advance_target:
  assumes "step_for_status e (o_status ord) = Some (Advance p f c)" "f eid ctx ord = Inr x"
  shows "step_target e (o_status ord) = Some (o_status x)"
  using assms
  by (cases e) (auto simp: step_for_status_simps step_target_def no_change_def approve_and_confirm_def
      order_ops bindR_Inr split: if_splits)

lemma advance_never_refused:
  assumes "step_for_status e (o_status ord) = Some (Advance p f c)"
  shows "\<exists>x. f eid ctx ord = Inr x"
  using assms
  by (cases e) (auto simp: step_for_status_simps no_change_def approve_and_confirm_def
      order_ops bindR_Inr split: if_splits)

end
