(* ===== verification/Orders_Store.thy ===== *)
theory Orders_Store
  imports Saga_Steps
begin

text \<open>
  The write model of the Orders service (apps/orders/src/infrastructure/persistence,
  outbox, messaging, saga): its tables as the record \<open>orders_db\<close>, the order repository
  (order.repository.ts, order.mapper.ts), the outbox recorder, the processed-events ledger,
  the ignored-facts log and the command store.  A row of a reference table is identified by
  its unique code, a table is the list of its rows in insertion order, a unique-key
  violation is the error naming the key, and \<open>unit_of_work\<close> is a transaction: an error
  leaves the database as it was.  A \<open>datetime\<close> column without fraction digits rounds to the
  second, and an \<open>int\<close> column holds 32 bits.  Surrogate row ids of the outbox, ledger and log
  are left out.
\<close>

named_theorems store_simps "the tables after an operation"

section \<open>Columns\<close>

definition stored_datetime :: "instant \<Rightarrow> instant" where
  "stored_datetime t = (t + 500) div 1000 * 1000"

definition fits_int :: "int \<Rightarrow> bool" where
  "fits_int n \<longleftrightarrow> - (2 ^ 31) \<le> n \<and> n < 2 ^ 31"

lemma stored_datetime_idem [simp]: "stored_datetime (stored_datetime t) = stored_datetime t"
proof -
  have "(a * 1000 + 500) div 1000 = a" for a :: int by simp
  then show ?thesis by (simp add: stored_datetime_def)
qed

section \<open>Tables\<close>

record reference_product =
  rp_description :: string
  rp_price :: int
  rp_currency :: string

record reference_data =
  rd_retailers :: "(string \<times> string) list"
  rd_companies :: "(string \<times> string) list"
  rd_currencies :: "string list"
  rd_products :: "(string \<times> reference_product) list"

record order_row =
  or_id :: uid
  or_reference :: string
  or_request_id :: "string option"
  or_date :: instant
  or_company :: string
  or_retailer :: string
  or_currency :: string
  or_initial_amount :: int
  or_initial_discount :: int
  or_total :: int
  or_status :: string
  or_reason :: "string option"
  or_notes :: "string option"

record item_row =
  it_id :: uid
  it_order :: uid
  it_product :: string
  it_description :: string
  it_price :: int
  it_quantity :: int
  it_discount :: int

record outbox_row =
  ob_envelope :: envelope
  ob_seq :: nat
  ob_published_at :: "instant option"
  ob_created_at :: instant

datatype command_status = Pending | Sent | Parked | Rejected

record command_row =
  cm_id :: uid
  cm_order :: uid
  cm_reference :: order_number
  cm_command :: saga_command_kind
  cm_payload :: command_payload
  cm_trigger_id :: uid
  cm_trigger :: "envelope option"
  cm_topic :: string
  cm_status :: command_status
  cm_attempts :: nat
  cm_last_error :: "string option"
  cm_next_attempt :: "instant option"
  cm_dead_lettered :: "instant option"
  cm_created :: instant
  cm_updated :: instant
  cm_sent_at :: "instant option"

datatype ignored_marker = Unknown_Order | Precondition_Unmet

record ignored_row =
  ig_event :: uid
  ig_type :: event_type
  ig_order :: "uid option"
  ig_correlation :: uid
  ig_observed :: "order_status option"
  ig_expected :: "order_status option"
  ig_marker :: ignored_marker
  ig_at :: instant

record orders_db =
  db_reference :: reference_data
  db_orders :: "order_row list"
  db_items :: "item_row list"
  db_outbox :: "outbox_row list"
  db_next_seq :: nat
  db_processed :: "(uid \<times> string) list"
  db_commands :: "command_row list"
  db_ignored :: "ignored_row list"
  db_sequence :: "nat option"

datatype unique_key = Key_Order_Id | Key_Order_Reference | Key_Request_Id | Key_Event_Id | Key_Command_Id

datatype reference_kind = Ref_Currency | Ref_Retailer | Ref_Company | Ref_Product

datatype store_error =
    Duplicate_Key unique_key
  | Unknown_Reference reference_kind string
  | Out_Of_Range
  | Row_Kernel_Error kernel_error
  | Row_Order_Error order_error
  | Bad_Sequence string

section \<open>The unit of work\<close>

definition unit_of_work :: "('db \<Rightarrow> 'e + 'a \<times> 'db) \<Rightarrow> 'db \<Rightarrow> ('e + 'a) \<times> 'db" where
  "unit_of_work work db = (case work db of Inl e \<Rightarrow> (Inl e, db) | Inr (x, db') \<Rightarrow> (Inr x, db'))"

lemma unit_of_work_Inr: "unit_of_work w db = (Inr x, db') \<longleftrightarrow> w db = Inr (x, db')"
  by (auto simp: unit_of_work_def split: sum.split)

lemma unit_of_work_Inl: "unit_of_work w db = (Inl e, db') \<longleftrightarrow> w db = Inl e \<and> db' = db"
  by (auto simp: unit_of_work_def split: sum.split)

section \<open>Rows and aggregates\<close>

definition item_to_line :: "string \<Rightarrow> item_row \<Rightarrow> kernel_error + order_line" where
  "item_to_line cur it =
     bindR (unique_id_from (it_id it)) (\<lambda>i.
     bindR (quantity_of (Js_Int (it_quantity it))) (\<lambda>q.
     bindR (money_of (Js_Int (it_price it)) cur) (\<lambda>p.
     bindR (money_of (Js_Int (it_discount it)) cur) (\<lambda>d.
     Inr \<lparr> ol_id = i, ol_product = it_product it, ol_description = it_description it,
       ol_quantity = q, ol_unit_price = p, ol_discount = d \<rparr>))))"

definition to_order_snapshot ::
    "order_row \<Rightarrow> string \<Rightarrow> string \<Rightarrow> item_row list \<Rightarrow> kernel_error + order_snapshot" where
  "to_order_snapshot row buyer_gln supplier_gln items =
     bindR (mapR (item_to_line (or_currency row)) items) (\<lambda>ls.
     bindR (unique_id_from (or_id row)) (\<lambda>i.
     bindR (order_number_of (or_reference row)) (\<lambda>ref.
     bindR (gln_of buyer_gln) (\<lambda>bg.
     bindR (gln_of supplier_gln) (\<lambda>sg.
     Inr \<lparr> sn_id = i, sn_reference = ref, sn_date = or_date row, sn_buyer_gln = bg,
       sn_retailer = or_retailer row, sn_supplier_gln = sg, sn_company = or_company row,
       sn_currency = or_currency row, sn_lines = ls, sn_status = or_status row,
       sn_reason = or_reason row, sn_notes = or_notes row \<rparr>)))))"

definition to_orders_table_row :: "order \<Rightarrow> string option \<Rightarrow> order_row" where
  "to_orders_table_row ord req = \<lparr> or_id = o_id ord, or_reference = order_reference_value ord,
     or_request_id = req, or_date = stored_datetime (o_date ord), or_company = o_company ord,
     or_retailer = o_retailer ord, or_currency = o_currency ord,
     or_initial_amount = amount (o_initial_amount ord),
     or_initial_discount = amount (o_initial_discount ord), or_total = amount (o_total ord),
     or_status = status_name (o_status ord), or_reason = map_option reason_name (o_reason ord),
     or_notes = o_notes ord \<rparr>"

definition to_order_item_rows :: "orders_db \<Rightarrow> order \<Rightarrow> store_error + item_row list" where
  "to_order_item_rows db ord = mapR (\<lambda>l.
     if map_of (rd_products (db_reference db)) (ol_product l) = None
     then Inl (Unknown_Reference Ref_Product (ol_product l))
     else Inr \<lparr> it_id = ol_id l, it_order = o_id ord, it_product = ol_product l,
       it_description = ol_description l, it_price = amount (ol_unit_price l),
       it_quantity = q_value (ol_quantity l), it_discount = amount (ol_discount l) \<rparr>) (o_lines ord)"

text \<open>Reading an order: the joins drop an order whose reference rows are missing.\<close>

definition load_order :: "orders_db \<Rightarrow> order_row \<Rightarrow> store_error + order option" where
  "load_order db row = (case (map_of (rd_retailers (db_reference db)) (or_retailer row),
       map_of (rd_companies (db_reference db)) (or_company row)) of
     (Some bg, Some sg) \<Rightarrow>
       if or_currency row \<notin> set (rd_currencies (db_reference db)) then Inr None
       else bindR (mapErr Row_Kernel_Error (to_order_snapshot row bg sg
           (filter (\<lambda>it. it_order it = or_id row \<and> map_of (rd_products (db_reference db)) (it_product it) \<noteq> None)
             (db_items db)))) (\<lambda>sn.
         bindR (mapErr Row_Order_Error (reconstitute_order sn)) (\<lambda>ord. Inr (Some ord)))
   | _ \<Rightarrow> Inr None)"

definition find_order :: "(order_row \<Rightarrow> bool) \<Rightarrow> orders_db \<Rightarrow> store_error + order option" where
  "find_order cond db = (case find cond (db_orders db) of None \<Rightarrow> Inr None | Some row \<Rightarrow> load_order db row)"

definition find_by_id :: "uid \<Rightarrow> orders_db \<Rightarrow> store_error + order option" where
  "find_by_id i = find_order (\<lambda>r. or_id r = i)"

definition find_by_reference :: "string \<Rightarrow> orders_db \<Rightarrow> store_error + order option" where
  "find_by_reference ref = find_order (\<lambda>r. or_reference r = ref)"

definition find_by_request_id :: "string \<Rightarrow> orders_db \<Rightarrow> store_error + order option" where
  "find_by_request_id req = find_order (\<lambda>r. or_request_id r = Some req)"

section \<open>Writing\<close>

definition record_outbox :: "instant \<Rightarrow> envelope list \<Rightarrow> orders_db \<Rightarrow> store_error + orders_db" where
  "record_outbox now evs db =
     (if evs = [] then Inr db
      else if \<not> distinct (map ev_id evs) \<or> (\<exists>e\<in>set evs. \<exists>r\<in>set (db_outbox db). ev_id (ob_envelope r) = ev_id e)
        then Inl (Duplicate_Key Key_Event_Id)
      else Inr (db \<lparr> db_outbox := db_outbox db @ map (\<lambda>(k, e).
          \<lparr> ob_envelope = e, ob_seq = k, ob_published_at = None, ob_created_at = stored_datetime now \<rparr>) (enumerate (db_next_seq db) evs),
        db_next_seq := db_next_seq db + length evs \<rparr>))"

definition insert_order_row :: "order_row \<Rightarrow> orders_db \<Rightarrow> store_error + orders_db" where
  "insert_order_row row db =
     (if \<not> (fits_int (or_initial_amount row) \<and> fits_int (or_initial_discount row) \<and> fits_int (or_total row))
        then Inl Out_Of_Range
      else if list_ex (\<lambda>r. or_id r = or_id row) (db_orders db) then Inl (Duplicate_Key Key_Order_Id)
      else if list_ex (\<lambda>r. or_reference r = or_reference row) (db_orders db)
        then Inl (Duplicate_Key Key_Order_Reference)
      else if or_request_id row \<noteq> None \<and> list_ex (\<lambda>r. or_request_id r = or_request_id row) (db_orders db)
        then Inl (Duplicate_Key Key_Request_Id)
      else Inr (db \<lparr> db_orders := db_orders db @ [row] \<rparr>))"

definition update_order_row :: "order_row \<Rightarrow> orders_db \<Rightarrow> orders_db" where
  "update_order_row row db = db \<lparr> db_orders := map (\<lambda>r. if or_id r = or_id row
     then r \<lparr> or_status := or_status row, or_reason := or_reason row, or_notes := or_notes row \<rparr>
     else r) (db_orders db) \<rparr>"

definition upsert_item :: "item_row \<Rightarrow> item_row list \<Rightarrow> item_row list" where
  "upsert_item row its = (if list_ex (\<lambda>r. it_id r = it_id row) its
     then map (\<lambda>r. if it_id r = it_id row then r \<lparr> it_description := it_description row,
       it_price := it_price row, it_quantity := it_quantity row, it_discount := it_discount row \<rparr> else r) its
     else its @ [row])"

definition upsert_items :: "item_row list \<Rightarrow> orders_db \<Rightarrow> store_error + orders_db" where
  "upsert_items rows db =
     (if \<not> list_all (\<lambda>r. fits_int (it_price r) \<and> fits_int (it_quantity r) \<and> fits_int (it_discount r)) rows
      then Inl Out_Of_Range
      else Inr (db \<lparr> db_items := fold upsert_item rows (db_items db) \<rparr>))"

definition save_order :: "instant \<Rightarrow> order \<Rightarrow> string option \<Rightarrow> orders_db \<Rightarrow> store_error + orders_db" where
  "save_order now ord req db = (let
      (evs, ord') = pull_domain_events ord;
      is_new = list_ex (\<lambda>e. ev_type e = Order_Placed) evs;
      ref = db_reference db in
    bindR (ensure (o_currency ord' \<in> set (rd_currencies ref)) (Unknown_Reference Ref_Currency (o_currency ord'))) (\<lambda>_.
    bindR (ensure (map_of (rd_retailers ref) (o_retailer ord') \<noteq> None) (Unknown_Reference Ref_Retailer (o_retailer ord'))) (\<lambda>_.
    bindR (ensure (map_of (rd_companies ref) (o_company ord') \<noteq> None) (Unknown_Reference Ref_Company (o_company ord'))) (\<lambda>_.
    let row = to_orders_table_row ord' req in
    bindR (if is_new then insert_order_row row db else Inr (update_order_row row db)) (\<lambda>db1.
    bindR (to_order_item_rows db ord') (\<lambda>items.
    bindR (if items \<noteq> [] then upsert_items items db1 else Inr db1) (\<lambda>db2.
    record_outbox now evs db2)))))))"

definition record_processed_event :: "uid \<Rightarrow> string \<Rightarrow> orders_db \<Rightarrow> orders_db option" where
  "record_processed_event eid consumer db = (if (eid, consumer) \<in> set (db_processed db) then None
     else Some (db \<lparr> db_processed := db_processed db @ [(eid, consumer)] \<rparr>))"

definition record_ignored :: "ignored_row \<Rightarrow> orders_db \<Rightarrow> orders_db" where
  "record_ignored row db = db \<lparr> db_ignored := db_ignored db @ [row] \<rparr>"

section \<open>The invariant of the tables\<close>

definition item_row_ok :: "item_row \<Rightarrow> bool" where
  "item_row_ok it \<longleftrightarrow> unique_id_from (it_id it) = Inr (it_id it) \<and>
     fits_int (it_price it) \<and> fits_int (it_quantity it) \<and> fits_int (it_discount it)"

definition orders_db_ok :: "orders_db \<Rightarrow> bool" where
  "orders_db_ok db \<longleftrightarrow> distinct (map or_id (db_orders db)) \<and> distinct (map it_id (db_items db)) \<and>
     list_all (\<lambda>r. unique_id_from (or_id r) = Inr (or_id r)) (db_orders db) \<and>
     list_all item_row_ok (db_items db)"

definition visible_items :: "orders_db \<Rightarrow> uid \<Rightarrow> item_row list" where
  "visible_items db i = filter (\<lambda>it. it_order it = i \<and> map_of (rd_products (db_reference db)) (it_product it) \<noteq> None) (db_items db)"

lemma money_of_Js_Int_Inr:
  "money_of (Js_Int n) c = Inr m \<longleftrightarrow> is_safe n \<and> (\<exists>d. validate_currency c = Inr d \<and> m = euros n d)"
  by (auto simp: money_of_def bindR_Inr euros_def)

lemma item_to_line_Inr:
  "item_to_line c it = Inr l \<Longrightarrow> unique_id_from (it_id it) = Inr (ol_id l) \<and> ol_product l = it_product it \<and>
     ol_description l = it_description it \<and> q_value (ol_quantity l) = it_quantity it \<and>
     amount (ol_unit_price l) = it_price it \<and> amount (ol_discount l) = it_discount it"
  by (auto simp: item_to_line_def bindR_Inr quantity_of_Inr money_of_Js_Int_Inr)

lemma reconstitute_order_Inr:
  "reconstitute_order sn = Inr ord \<longleftrightarrow>
    (\<exists>st t. status_of_name (sn_status sn) = Some st \<and> sn_lines sn \<noteq> [] \<and>
      (st = Cancelled \<longrightarrow> Option.bind (sn_reason sn) reason_of_name \<noteq> None) \<and>
      (st \<noteq> Cancelled \<longrightarrow> sn_reason sn = None) \<and>
      compute_order_totals (sn_currency sn) (sn_lines sn) = Inr t \<and>
      ord = \<lparr> o_id = sn_id sn, o_reference = sn_reference sn, o_date = sn_date sn,
        o_buyer_gln = sn_buyer_gln sn, o_retailer = sn_retailer sn,
        o_supplier_gln = sn_supplier_gln sn, o_company = sn_company sn,
        o_currency = sn_currency sn, o_lines = sn_lines sn, o_initial_amount = ot_initial t,
        o_initial_discount = ot_discount t, o_total = ot_total t, o_status = st,
        o_reason = Option.bind (sn_reason sn) reason_of_name, o_notes = sn_notes sn, o_events = [] \<rparr>)"
  by (auto simp: reconstitute_order_def bindR_Inr split: option.splits if_splits)

definition restatus_row :: "order_status \<Rightarrow> cancellation_reason option \<Rightarrow> order_row \<Rightarrow> order_row" where
  "restatus_row s r row = row \<lparr> or_status := status_name s, or_reason := map_option reason_name r \<rparr>"

lemma load_order_Inr_Some:
  assumes "load_order db row = Inr (Some ord)"
  shows "\<exists>bg sg sn. map_of (rd_retailers (db_reference db)) (or_retailer row) = Some bg \<and>
    map_of (rd_companies (db_reference db)) (or_company row) = Some sg \<and>
    or_currency row \<in> set (rd_currencies (db_reference db)) \<and>
    to_order_snapshot row bg sg (visible_items db (or_id row)) = Inr sn \<and> reconstitute_order sn = Inr ord"
  using assms by (auto simp: load_order_def bindR_Inr visible_items_def split: option.splits if_splits)

lemma load_order_restatus:
  assumes "load_order db row = Inr (Some ord)" "r \<noteq> None \<longleftrightarrow> s = Cancelled"
  shows "load_order db (restatus_row s r row) = Inr (Some (ord \<lparr> o_status := s, o_reason := r \<rparr>))"
proof -
  obtain bg sg sn where l: "map_of (rd_retailers (db_reference db)) (or_retailer row) = Some bg"
    "map_of (rd_companies (db_reference db)) (or_company row) = Some sg"
    "or_currency row \<in> set (rd_currencies (db_reference db))"
    and sn: "to_order_snapshot row bg sg (visible_items db (or_id row)) = Inr sn"
    and re: "reconstitute_order sn = Inr ord"
    using load_order_Inr_Some [OF assms(1)] by blast
  let ?sn = "sn \<lparr> sn_status := status_name s, sn_reason := map_option reason_name r \<rparr>"
  have "to_order_snapshot (restatus_row s r row) bg sg (visible_items db (or_id row)) = Inr ?sn"
    using sn by (auto simp: to_order_snapshot_def bindR_Inr restatus_row_def)
  moreover have "reconstitute_order ?sn = Inr (ord \<lparr> o_status := s, o_reason := r \<rparr>)"
    using re assms(2) status_of_name_name [of Cancelled]
    by (cases r) (auto simp: reconstitute_order_Inr)
  ultimately show ?thesis using l
    by (simp add: load_order_def restatus_row_def visible_items_def)
qed

lemma status_of_nameD: "status_of_name n = Some st \<Longrightarrow> n = status_name st"
  unfolding status_of_name_def by (auto simp: find_Some_iff)

lemma load_order_fields:
  assumes "load_order db row = Inr (Some ord)"
  shows "unique_id_from (or_id row) = Inr (o_id ord) \<and> or_status row = status_name (o_status ord) \<and>
    o_currency ord = or_currency row \<and> o_retailer ord = or_retailer row \<and> o_company ord = or_company row \<and>
    o_notes ord = or_notes row \<and> o_events ord = [] \<and> o_lines ord \<noteq> [] \<and>
    (o_reason ord \<noteq> None \<longleftrightarrow> o_status ord = Cancelled) \<and>
    list_all2 (\<lambda>it l. item_to_line (or_currency row) it = Inr l) (visible_items db (or_id row)) (o_lines ord)"
proof -
  obtain bg sg sn where sn: "to_order_snapshot row bg sg (visible_items db (or_id row)) = Inr sn"
    and re: "reconstitute_order sn = Inr ord"
    using load_order_Inr_Some [OF assms] by blast
  show ?thesis using sn re
    by (auto simp: to_order_snapshot_def bindR_Inr reconstitute_order_Inr mapR_list_all2 dest: status_of_nameD)
qed

section \<open>Saving a transition of a loaded order\<close>

text \<open>Writing a stored line back leaves the items table as it is.\<close>

lemma upsert_item_same:
  assumes "it \<in> set its" "distinct (map it_id its)"
  shows "upsert_item it its = its"
proof -
  have "x = it" if "x \<in> set its" "it_id x = it_id it" for x
    using assms that by (auto simp: distinct_map dest: inj_onD)
  then have "map (\<lambda>r. if it_id r = it_id it then r \<lparr> it_description := it_description it,
       it_price := it_price it, it_quantity := it_quantity it, it_discount := it_discount it \<rparr> else r) its = its"
    by (intro map_idI) (cases it, auto)
  moreover have "list_ex (\<lambda>r. it_id r = it_id it) its" using assms(1) by (auto simp: list_ex_iff)
  ultimately show ?thesis by (simp add: upsert_item_def)
qed

lemma fold_upsert_same:
  assumes "set rows \<subseteq> set its" "distinct (map it_id its)"
  shows "fold upsert_item rows its = its"
  using assms by (induction rows) (auto simp: upsert_item_same)

lemma line_of_item_row:
  assumes "item_to_line c it = Inr l" "item_row_ok it" "it_order it = i"
  shows "\<lparr> it_id = ol_id l, it_order = i, it_product = ol_product l, it_description = ol_description l,
    it_price = amount (ol_unit_price l), it_quantity = q_value (ol_quantity l), it_discount = amount (ol_discount l) \<rparr> = it"
  using item_to_line_Inr [OF assms(1)] assms(2,3) by (cases it) (auto simp: item_row_ok_def)

lemma mapR_to_item_rows:
  assumes "list_all2 (\<lambda>it l. item_to_line c it = Inr l) its ls"
    and "\<forall>it\<in>set its. item_row_ok it \<and> it_order it = i \<and> map_of ps (it_product it) \<noteq> None"
  shows "mapR (\<lambda>l. if map_of ps (ol_product l) = None then Inl (Unknown_Reference Ref_Product (ol_product l))
     else Inr \<lparr> it_id = ol_id l, it_order = i, it_product = ol_product l,
       it_description = ol_description l, it_price = amount (ol_unit_price l),
       it_quantity = q_value (ol_quantity l), it_discount = amount (ol_discount l) \<rparr>) ls = Inr its"
  using assms
proof (induction rule: list_all2_induct)
  case (Cons it its l ls)
  then have "\<lparr> it_id = ol_id l, it_order = i, it_product = ol_product l, it_description = ol_description l,
    it_price = amount (ol_unit_price l), it_quantity = q_value (ol_quantity l), it_discount = amount (ol_discount l) \<rparr> = it"
    by (intro line_of_item_row) auto
  moreover have "ol_product l = it_product it" using item_to_line_Inr [OF Cons.hyps(1)] by blast
  ultimately show ?case using Cons.IH Cons.prems by auto
qed simp

lemma find_order_row:
  assumes "find_by_id i db = Inr (Some ord)"
  shows "\<exists>row\<in>set (db_orders db). or_id row = i \<and> load_order db row = Inr (Some ord)"
proof -
  obtain row where f: "find (\<lambda>r. or_id r = i) (db_orders db) = Some row" and l: "load_order db row = Inr (Some ord)"
    using assms by (auto simp: find_by_id_def find_order_def split: option.splits)
  have "row \<in> set (db_orders db)" "or_id row = i"
    using f by (auto simp: find_Some_iff)
  with l show ?thesis by blast
qed

lemma find_distinct:
  assumes "distinct (map f xs)" "x \<in> set xs"
  shows "find (\<lambda>y. f y = f x) xs = Some x"
  using assms by (induction xs) (auto simp: rev_image_eqI)

lemma find_by_id_row:
  assumes "orders_db_ok db" "row \<in> set (db_orders db)"
  shows "find_by_id (or_id row) db = load_order db row"
  using assms by (simp add: find_by_id_def find_order_def orders_db_ok_def find_distinct)

definition restatus_db :: "uid \<Rightarrow> order_status \<Rightarrow> cancellation_reason option \<Rightarrow> orders_db \<Rightarrow> orders_db" where
  "restatus_db i s r db = db \<lparr> db_orders :=
     map (\<lambda>row. if or_id row = i then restatus_row s r row else row) (db_orders db) \<rparr>"

lemma restatus_db_simps [simp]:
  "db_reference (restatus_db i s r db) = db_reference db" "db_items (restatus_db i s r db) = db_items db"
  "db_outbox (restatus_db i s r db) = db_outbox db" "db_processed (restatus_db i s r db) = db_processed db"
  "db_commands (restatus_db i s r db) = db_commands db" "db_ignored (restatus_db i s r db) = db_ignored db"
  "db_next_seq (restatus_db i s r db) = db_next_seq db" "db_sequence (restatus_db i s r db) = db_sequence db"
  by (simp_all add: restatus_db_def)

lemma restatus_row_simps [simp]: "or_id (restatus_row s r row) = or_id row"
  by (simp add: restatus_row_def)

lemma restatus_db_ok: "orders_db_ok db \<Longrightarrow> orders_db_ok (restatus_db i s r db)"
proof -
  have ids: "map (or_id \<circ> (\<lambda>row. if or_id row = i then restatus_row s r row else row)) rs = map or_id rs" for rs
    by (induction rs) auto
  show "orders_db_ok db \<Longrightarrow> orders_db_ok (restatus_db i s r db)"
    by (auto simp: orders_db_ok_def restatus_db_def ids list_all_iff)
qed

lemma load_order_frame:
  assumes "db_reference db' = db_reference db" "db_items db' = db_items db"
  shows "load_order db' row = load_order db row"
  unfolding load_order_def assms ..

lemma find_by_id_frame:
  assumes "db_reference db' = db_reference db" "db_items db' = db_items db" "db_orders db' = db_orders db"
  shows "find_by_id i db' = find_by_id i db"
  unfolding find_by_id_def find_order_def assms(3) load_order_frame [OF assms(1,2)] ..

lemma find_restatus:
  assumes "orders_db_ok db" "find_by_id i db = Inr (Some ord)" "r \<noteq> None \<longleftrightarrow> s = Cancelled"
  shows "find_by_id i (restatus_db i s r db) = Inr (Some (ord \<lparr> o_status := s, o_reason := r \<rparr>))"
proof -
  obtain row where row: "row \<in> set (db_orders db)" "or_id row = i" "load_order db row = Inr (Some ord)"
    using find_order_row [OF assms(2)] by blast
  have "restatus_row s r row \<in> set (db_orders (restatus_db i s r db))"
    using row(1,2) by (force simp: restatus_db_def)
  then have "find_by_id i (restatus_db i s r db) = load_order (restatus_db i s r db) (restatus_row s r row)"
    using find_by_id_row [OF restatus_db_ok [OF assms(1)]] row(2) by fastforce
  also have "\<dots> = load_order db (restatus_row s r row)" by (rule load_order_frame) simp_all
  finally show ?thesis using load_order_restatus [OF row(3) assms(3)] by simp
qed

lemma find_restatus_other:
  "j \<noteq> i \<Longrightarrow> find_by_id j (restatus_db i s r db) = find_by_id j db"
proof -
  assume "j \<noteq> i"
  then have "find (\<lambda>x. or_id x = j) (map (\<lambda>row. if or_id row = i then restatus_row s r row else row) rs) =
      find (\<lambda>x. or_id x = j) rs" for rs
    by (induction rs) auto
  moreover have "load_order (restatus_db i s r db) = load_order db"
    by (intro ext load_order_frame) simp_all
  ultimately show ?thesis by (simp add: find_by_id_def find_order_def restatus_db_def split: option.split)
qed

text \<open>What saving a loaded and transitioned order does: its row gets the new status and reason,
  its lines stay, its events go to the outbox, and only a repeated event id can refuse it.\<close>

lemma save_restatus:
  assumes ok: "orders_db_ok db" and f: "find_by_id i db = Inr (Some ord)"
    and evs: "\<not> list_ex (\<lambda>e. ev_type e = Order_Placed) evs"
  shows "save_order now (ord \<lparr> o_status := s, o_reason := r, o_events := evs \<rparr>) None db =
    record_outbox now evs (restatus_db i s r db)"
proof -
  obtain row where row: "row \<in> set (db_orders db)" "or_id row = i" "load_order db row = Inr (Some ord)"
    using find_order_row [OF f] by blast
  note fields = load_order_fields [OF row(3)]
  have i: "o_id ord = i"
    using fields row ok by (auto simp: orders_db_ok_def list_all_iff)
  obtain bg sg where refs: "map_of (rd_retailers (db_reference db)) (o_retailer ord) = Some bg"
    "map_of (rd_companies (db_reference db)) (o_company ord) = Some sg"
    "o_currency ord \<in> set (rd_currencies (db_reference db))"
    using load_order_Inr_Some [OF row(3)] fields by auto
  let ?o = "ord \<lparr> o_status := s, o_reason := r, o_events := [] \<rparr>"
  let ?its = "visible_items db i"
  have its: "\<forall>it\<in>set ?its. item_row_ok it \<and> it_order it = i \<and> map_of (rd_products (db_reference db)) (it_product it) \<noteq> None"
    using ok by (auto simp: visible_items_def orders_db_ok_def list_all_iff)
  have l2: "list_all2 (\<lambda>it l. item_to_line (or_currency row) it = Inr l) ?its (o_lines ord)"
    using fields row(2) by simp
  have items: "to_order_item_rows db ?o = Inr ?its"
    using mapR_to_item_rows [OF l2 its] by (simp add: to_order_item_rows_def i cong: if_cong)
  have "list_all (\<lambda>r. fits_int (it_price r) \<and> fits_int (it_quantity r) \<and> fits_int (it_discount r)) ?its"
    using its by (auto simp: list_all_iff item_row_ok_def)
  moreover have "fold upsert_item ?its (db_items db) = db_items db"
    using ok by (intro fold_upsert_same) (auto simp: visible_items_def orders_db_ok_def)
  ultimately have up: "upsert_items ?its (restatus_db i s r db) = Inr (restatus_db i s r db)"
    by (simp add: upsert_items_def)
  have same: "or_status x = or_status x \<and> or_notes x = o_notes ord" if "x \<in> set (db_orders db)" "or_id x = i" for x
    using that row ok fields by (auto simp: orders_db_ok_def distinct_map dest: inj_onD)
  have upd: "update_order_row (to_orders_table_row ?o None) db = restatus_db i s r db"
    using same by (auto simp: update_order_row_def to_orders_table_row_def restatus_db_def restatus_row_def i
        intro!: orders_db.equality)
  show ?thesis
    using evs refs items up upd
    by (simp add: save_order_def pull_domain_events_def Let_def bindR_def ensure_def)
qed

section \<open>The outbox and the ledger\<close>

definition outbox_ids :: "orders_db \<Rightarrow> uid set" where
  "outbox_ids db = set (map (ev_id \<circ> ob_envelope) (db_outbox db))"

definition outbox_envelopes :: "orders_db \<Rightarrow> envelope list" where
  "outbox_envelopes db = map ob_envelope (db_outbox db)"

lemma record_outbox_Inr:
  assumes "record_outbox now evs db = Inr db'"
  shows "outbox_envelopes db' = outbox_envelopes db @ evs \<and> db_orders db' = db_orders db \<and>
    db_items db' = db_items db \<and> db_reference db' = db_reference db \<and> db_processed db' = db_processed db \<and>
    db_commands db' = db_commands db \<and> db_ignored db' = db_ignored db \<and> db_sequence db' = db_sequence db"
proof (cases "evs = []")
  case False
  have "map (ob_envelope \<circ> (\<lambda>(k, e). \<lparr> ob_envelope = e, ob_seq = k, ob_published_at = None,
      ob_created_at = stored_datetime now \<rparr>)) (enumerate n evs) = evs" for n
    by (induction evs arbitrary: n) auto
  then show ?thesis using assms False
    by (auto simp: record_outbox_def outbox_envelopes_def split: if_splits)
qed (use assms in \<open>simp add: record_outbox_def\<close>)

lemma record_outbox_ok:
  "distinct (map ev_id evs) \<Longrightarrow> (\<forall>e\<in>set evs. ev_id e \<notin> outbox_ids db) \<Longrightarrow> \<exists>db'. record_outbox now evs db = Inr db'"
  by (force simp: record_outbox_def outbox_ids_def image_iff)

lemma orders_db_ok_frame:
  "\<lbrakk> db_orders db' = db_orders db; db_items db' = db_items db \<rbrakk> \<Longrightarrow> orders_db_ok db' = orders_db_ok db"
  by (simp add: orders_db_ok_def)

lemma record_processed_event_Some:
  "record_processed_event e c db = Some db' \<longleftrightarrow>
    (e, c) \<notin> set (db_processed db) \<and> db' = db \<lparr> db_processed := db_processed db @ [(e, c)] \<rparr>"
  by (auto simp: record_processed_event_def)

lemma save_transition:
  assumes ok: "orders_db_ok db" and f: "find_by_id i db = Inr (Some ord)"
    and evs: "\<not> list_ex (\<lambda>e. ev_type e = Order_Placed) evs" "distinct (map ev_id evs)"
      "\<forall>e\<in>set evs. ev_id e \<notin> outbox_ids db"
    and r: "r \<noteq> None \<longleftrightarrow> s = Cancelled"
  shows "\<exists>db'. save_order now (ord \<lparr> o_status := s, o_reason := r, o_events := evs \<rparr>) None db = Inr db' \<and>
    find_by_id i db' = Inr (Some (ord \<lparr> o_status := s, o_reason := r \<rparr>)) \<and>
    outbox_envelopes db' = outbox_envelopes db @ evs \<and> orders_db_ok db' \<and>
    (\<forall>j. j \<noteq> i \<longrightarrow> find_by_id j db' = find_by_id j db) \<and>
    db_commands db' = db_commands db \<and> db_processed db' = db_processed db \<and> db_ignored db' = db_ignored db"
proof -
  let ?d = "restatus_db i s r db"
  have "outbox_ids ?d = outbox_ids db" by (simp add: outbox_ids_def)
  then obtain db' where rec: "record_outbox now evs ?d = Inr db'"
    using record_outbox_ok [OF evs(2), of ?d now] evs(3) by auto
  note frame = record_outbox_Inr [OF rec]
  have find: "find_by_id j db' = find_by_id j ?d" for j
    using frame by (intro find_by_id_frame) auto
  have "save_order now (ord \<lparr> o_status := s, o_reason := r, o_events := evs \<rparr>) None db = Inr db'"
    using save_restatus [OF ok f evs(1)] rec by simp
  moreover have "find_by_id i db' = Inr (Some (ord \<lparr> o_status := s, o_reason := r \<rparr>))"
    using find find_restatus [OF ok f r] by simp
  moreover have "\<forall>j. j \<noteq> i \<longrightarrow> find_by_id j db' = find_by_id j db"
    using find find_restatus_other by simp
  moreover have "orders_db_ok db'"
    using frame restatus_db_ok [OF ok] orders_db_ok_frame [of db' ?d] by simp
  ultimately show ?thesis using frame by (auto simp: outbox_envelopes_def)
qed

end
