(* ===== verification/Command_Store.thy ===== *)
theory Command_Store
  imports Orders_Store
begin

text \<open>
  The durable store of owed saga commands (apps/orders/src/application/ports/
  saga-command-store.port.ts and infrastructure/saga/drizzle-saga-command-store.ts).
  The outcome of \<open>enqueue\<close>, which no caller reads, is left out.  \<open>saga_command_store\<close> is the
  contract the handlers rely on, interpreted below on the tables of Orders.
\<close>

section \<open>Operations\<close>

record enqueue_input =
  en_id :: uid
  en_order :: uid
  en_reference :: order_number
  en_command :: saga_command_kind
  en_payload :: command_payload
  en_trigger_id :: uid
  en_trigger :: envelope
  en_topic :: string

definition new_command_row :: "instant \<Rightarrow> enqueue_input \<Rightarrow> command_row" where
  "new_command_row now inp = \<lparr> cm_id = en_id inp, cm_order = en_order inp, cm_reference = en_reference inp,
     cm_command = en_command inp, cm_payload = en_payload inp, cm_trigger_id = en_trigger_id inp,
     cm_trigger = Some (en_trigger inp), cm_topic = en_topic inp, cm_status = Pending, cm_attempts = 0,
     cm_last_error = None, cm_next_attempt = None, cm_dead_lettered = None,
     cm_created = stored_datetime now, cm_updated = stored_datetime now, cm_sent_at = None \<rparr>"

definition enqueue_command :: "instant \<Rightarrow> enqueue_input \<Rightarrow> orders_db \<Rightarrow> orders_db" where
  "enqueue_command now inp db =
     (if list_ex (\<lambda>r. cm_id r = en_id inp \<or> (cm_order r = en_order inp \<and> cm_command r = en_command inp)) (db_commands db)
      then db else db \<lparr> db_commands := db_commands db @ [new_command_row now inp] \<rparr>)"

definition find_by_order_and_command :: "uid \<Rightarrow> saga_command_kind \<Rightarrow> orders_db \<Rightarrow> command_row option" where
  "find_by_order_and_command oid k db = find (\<lambda>r. cm_order r = oid \<and> cm_command r = k) (db_commands db)"

definition has_accepted_operator_cancel :: "uid \<Rightarrow> orders_db \<Rightarrow> bool" where
  "has_accepted_operator_cancel oid db = list_ex (\<lambda>r. is_operator_cancel_envelope (cm_trigger r))
     (filter (\<lambda>r. cm_order r = oid \<and> (cm_command r = Credit_Release \<or> cm_command r = Stock_Release)) (db_commands db))"

text \<open>The rows another session has locked are skipped.\<close>

definition claim_due :: "(uid \<Rightarrow> bool) \<Rightarrow> instant \<Rightarrow> nat \<Rightarrow> int \<Rightarrow> orders_db \<Rightarrow> command_row list" where
  "claim_due locked now limit grace db = take limit (filter (\<lambda>r.
     ((cm_status r = Pending \<and> cm_created r < now - grace) \<or>
      (cm_status r = Parked \<and> (case cm_next_attempt r of Some t \<Rightarrow> t \<le> now | None \<Rightarrow> False))) \<and>
     \<not> locked (cm_id r)) (db_commands db))"

definition update_commands :: "(command_row \<Rightarrow> bool) \<Rightarrow> (command_row \<Rightarrow> command_row) \<Rightarrow> orders_db \<Rightarrow> bool \<times> orders_db" where
  "update_commands c f db = (list_ex c (db_commands db),
     db \<lparr> db_commands := map (\<lambda>r. if c r then f r else r) (db_commands db) \<rparr>)"

definition mark_sent :: "instant \<Rightarrow> uid \<Rightarrow> orders_db \<Rightarrow> bool \<times> orders_db" where
  "mark_sent now i = update_commands (\<lambda>r. cm_id r = i \<and> cm_status r \<noteq> Sent)
     (\<lambda>r. r \<lparr> cm_status := Sent, cm_updated := stored_datetime now, cm_sent_at := Some (stored_datetime now) \<rparr>)"

definition park_command :: "instant \<Rightarrow> uid \<Rightarrow> nat \<Rightarrow> string \<Rightarrow> instant \<Rightarrow> orders_db \<Rightarrow> bool \<times> orders_db" where
  "park_command now i att err next_at = update_commands (\<lambda>r. cm_id r = i \<and> cm_status r \<noteq> Sent)
     (\<lambda>r. r \<lparr> cm_status := Parked, cm_attempts := att, cm_last_error := Some err,
        cm_next_attempt := Some (stored_datetime next_at), cm_updated := stored_datetime now \<rparr>)"

definition mark_rejected :: "instant \<Rightarrow> uid \<Rightarrow> nat \<Rightarrow> string \<Rightarrow> orders_db \<Rightarrow> bool \<times> orders_db" where
  "mark_rejected now i att err = update_commands (\<lambda>r. cm_id r = i \<and> cm_status r \<noteq> Sent)
     (\<lambda>r. r \<lparr> cm_status := Rejected, cm_attempts := att, cm_last_error := Some err,
        cm_next_attempt := None, cm_updated := stored_datetime now \<rparr>)"

definition claim_dead_letter :: "instant \<Rightarrow> uid \<Rightarrow> orders_db \<Rightarrow> bool \<times> orders_db" where
  "claim_dead_letter now i = update_commands (\<lambda>r. cm_id r = i \<and> cm_dead_lettered r = None)
     (\<lambda>r. r \<lparr> cm_dead_lettered := Some (stored_datetime now) \<rparr>)"

section \<open>The contract of the store\<close>

locale saga_command_store =
  fixes lookup :: "uid \<Rightarrow> saga_command_kind \<Rightarrow> 'db \<Rightarrow> 'row option"
    and enqueue :: "'inp \<Rightarrow> 'db \<Rightarrow> 'db"
    and row_of :: "'inp \<Rightarrow> 'row"
    and key_of :: "'inp \<Rightarrow> uid \<times> saga_command_kind"
    and unused :: "'inp \<Rightarrow> 'db \<Rightarrow> bool"
  assumes lookup_enqueue_same: "unused inp db \<Longrightarrow> key_of inp = (oid, k) \<Longrightarrow>
      lookup oid k (enqueue inp db) = (case lookup oid k db of None \<Rightarrow> Some (row_of inp) | Some r \<Rightarrow> Some r)"
    and lookup_enqueue_other: "key_of inp \<noteq> (oid, k) \<Longrightarrow> lookup oid k (enqueue inp db) = lookup oid k db"
begin

lemma enqueued_is_owed:
  "unused inp db \<Longrightarrow> key_of inp = (oid, k) \<Longrightarrow> lookup oid k (enqueue inp db) \<noteq> None"
  by (simp add: lookup_enqueue_same split: option.split)

lemma owed_is_kept:
  assumes "lookup oid k db = Some r" "unused inp db"
  shows "lookup oid k (enqueue inp db) = Some r"
  using assms lookup_enqueue_same [of inp db oid k] lookup_enqueue_other [of inp oid k db]
  by (cases "key_of inp = (oid, k)") auto

text \<open>A second enqueue of the same command, of whatever payload, changes no lookup.\<close>

lemma enqueue_twice:
  assumes "unused inp db" "unused inp' (enqueue inp db)" "key_of inp' = key_of inp"
  shows "lookup oid k (enqueue inp' (enqueue inp db)) = lookup oid k (enqueue inp db)"
proof (cases "key_of inp = (oid, k)")
  case True
  then obtain r where "lookup oid k (enqueue inp db) = Some r"
    using enqueued_is_owed [OF assms(1) True] by blast
  then show ?thesis using owed_is_kept assms(2) by simp
next
  case False
  then show ?thesis using assms(3) by (simp add: lookup_enqueue_other)
qed

end

definition command_unused :: "enqueue_input \<Rightarrow> orders_db \<Rightarrow> bool" where
  "command_unused inp db \<longleftrightarrow> \<not> list_ex (\<lambda>r. cm_id r = en_id inp) (db_commands db)"

lemma find_append: "find P (xs @ ys) = (case find P xs of None \<Rightarrow> find P ys | Some x \<Rightarrow> Some x)"
  by (induction xs) auto

lemma find_None_list_ex: "find P xs = None \<longleftrightarrow> \<not> list_ex P xs"
  by (induction xs) auto

interpretation orders_commands: saga_command_store find_by_order_and_command "enqueue_command now"
  "new_command_row now" "\<lambda>inp :: enqueue_input. (en_order inp, en_command inp)" command_unused
proof
  fix inp :: enqueue_input and db oid k
  assume u: "command_unused inp db" and key: "(en_order inp, en_command inp) = (oid, k)"
  show "find_by_order_and_command oid k (enqueue_command now inp db) =
    (case find_by_order_and_command oid k db of None \<Rightarrow> Some (new_command_row now inp) | Some r \<Rightarrow> Some r)"
  proof (cases "find_by_order_and_command oid k db")
    case None
    then have "\<not> list_ex (\<lambda>r. cm_id r = en_id inp \<or> (cm_order r = en_order inp \<and> cm_command r = en_command inp)) (db_commands db)"
      using u key by (auto simp: find_by_order_and_command_def find_None_list_ex command_unused_def list_ex_iff)
    then show ?thesis using None key
      by (auto simp: enqueue_command_def find_by_order_and_command_def find_append new_command_row_def)
  next
    case (Some r)
    then have "list_ex (\<lambda>r. cm_order r = oid \<and> cm_command r = k) (db_commands db)"
      by (metis find_None_list_ex find_by_order_and_command_def option.distinct(1))
    then have "enqueue_command now inp db = db"
      using key by (auto simp: enqueue_command_def list_ex_iff)
    then show ?thesis using Some by simp
  qed
next
  fix inp :: enqueue_input and oid k db
  assume "(en_order inp, en_command inp) \<noteq> (oid, k)"
  then show "find_by_order_and_command oid k (enqueue_command now inp db) = find_by_order_and_command oid k db"
    by (auto simp: enqueue_command_def find_by_order_and_command_def find_append new_command_row_def split: option.split)
qed

lemma enqueue_command_frame [simp]:
  "db_orders (enqueue_command now inp db) = db_orders db" "db_items (enqueue_command now inp db) = db_items db"
  "db_reference (enqueue_command now inp db) = db_reference db" "db_outbox (enqueue_command now inp db) = db_outbox db"
  "db_processed (enqueue_command now inp db) = db_processed db" "db_ignored (enqueue_command now inp db) = db_ignored db"
  "db_next_seq (enqueue_command now inp db) = db_next_seq db" "db_sequence (enqueue_command now inp db) = db_sequence db"
  by (simp_all add: enqueue_command_def)

end
