(* ===== verification/Idempotent_Consumer.thy ===== *)
theory Idempotent_Consumer
  imports Command_Store
begin

text \<open>
  The idempotent consumer (apps/orders/src/infrastructure/messaging/idempotent-consumer.ts,
  copied verbatim by the other services): one transaction that first inserts the pair
  (event, consumer) into the ledger and then runs the work.  A duplicate key rolls back and
  reports a duplicate without running the work; an error of the work rolls back and is
  rethrown.  \<open>processed_ledger\<close> is the contract of the ledger; the at-most-once lemmas are
  proved from it and interpreted on the tables of Orders.
\<close>

datatype 'e consumer_signal = Duplicate_Event_Signal | Work_Error 'e

datatype 'a consumption = Processed 'a | Duplicate

definition run_once ::
    "('db \<Rightarrow> 'db option) \<Rightarrow> ('db \<Rightarrow> 'e + 'a \<times> 'db) \<Rightarrow> 'db \<Rightarrow> ('e + 'a consumption) \<times> 'db" where
  "run_once record_event work db =
     (case unit_of_work (\<lambda>d. case record_event d of
          None \<Rightarrow> Inl Duplicate_Event_Signal
        | Some d1 \<Rightarrow> mapErr Work_Error (work d1)) db of
        (Inr x, db') \<Rightarrow> (Inr (Processed x), db')
      | (Inl Duplicate_Event_Signal, db') \<Rightarrow> (Inr Duplicate, db')
      | (Inl (Work_Error e), db') \<Rightarrow> (Inl e, db'))"

lemma run_once_unfold:
  "run_once record_event work db = (case record_event db of
      None \<Rightarrow> (Inr Duplicate, db)
    | Some d1 \<Rightarrow> (case work d1 of Inl e \<Rightarrow> (Inl e, db) | Inr (x, db') \<Rightarrow> (Inr (Processed x), db')))"
  by (auto simp: run_once_def unit_of_work_def mapErr_def split: option.split sum.split)

locale processed_ledger =
  fixes record_event :: "'key \<Rightarrow> 'db \<Rightarrow> 'db option"
    and processed :: "'key \<Rightarrow> 'db \<Rightarrow> bool"
  assumes record_refused: "record_event k db = None \<longleftrightarrow> processed k db"
    and record_marks: "record_event k db = Some db' \<Longrightarrow> processed j db' \<longleftrightarrow> processed j db \<or> j = k"
begin

text \<open>Work that never takes a pair out of the ledger.\<close>

definition keeps_ledger :: "('db \<Rightarrow> 'e + 'a \<times> 'db) \<Rightarrow> bool" where
  "keeps_ledger work \<longleftrightarrow> (\<forall>db x db' k. work db = Inr (x, db') \<and> processed k db \<longrightarrow> processed k db')"

lemma duplicate_iff: "fst (run_once (record_event k) work db) = Inr Duplicate \<longleftrightarrow> processed k db"
  by (auto simp: run_once_unfold record_refused [symmetric] split: option.split sum.split)

lemma duplicate_is_noop: "processed k db \<Longrightarrow> run_once (record_event k) work db = (Inr Duplicate, db)"
  by (simp add: run_once_unfold record_refused [symmetric])

lemma error_is_noop: "run_once (record_event k) work db = (Inl e, db') \<Longrightarrow> db' = db"
  by (auto simp: run_once_unfold split: option.splits sum.splits)

lemma processed_after:
  assumes "run_once (record_event k) work db = (Inr r, db')" "keeps_ledger work"
  shows "processed k db'"
proof (cases "record_event k db")
  case None
  then show ?thesis using assms(1) by (auto simp: run_once_unfold record_refused [symmetric])
next
  case (Some d1)
  then have "processed k d1" by (simp add: record_marks)
  moreover obtain x where "work d1 = Inr (x, db')"
    using assms(1) Some by (auto simp: run_once_unfold split: sum.splits)
  ultimately show ?thesis using assms(2) by (auto simp: keeps_ledger_def)
qed

text \<open>Once a delivery has returned, every later delivery of the same key changes nothing.\<close>

lemma at_most_once:
  assumes "run_once (record_event k) work db = (Inr r, db')" "keeps_ledger work"
  shows "run_once (record_event k) work' db' = (Inr Duplicate, db')"
  using processed_after [OF assms] by (rule duplicate_is_noop)

lemma processed_monotone:
  assumes "processed j db" "keeps_ledger work"
  shows "processed j (snd (run_once (record_event k) work db))"
proof (cases "record_event k db")
  case (Some d1)
  then have "processed j d1" using assms(1) by (simp add: record_marks)
  then show ?thesis using Some assms
    by (auto simp: run_once_unfold keeps_ledger_def split: sum.splits)
qed (use assms in \<open>simp add: run_once_unfold\<close>)

end

interpretation orders_ledger: processed_ledger
  "\<lambda>k. record_processed_event (fst k) (snd k)" "\<lambda>k db. k \<in> set (db_processed db)"
  by unfold_locales (auto simp: record_processed_event_def split: if_splits)

end
