(* ===== verification/Saga_Facts.thy ===== *)
theory Saga_Facts
  imports Idempotent_Consumer
begin

text \<open>
  The saga's fact handler (apps/orders/src/application/saga-fact-handler.ts): the one
  transactional unit every consumed fact runs in.  \<open>saga_fact_work\<close> is the callback handed
  to the idempotent consumer, \<open>handle_fact\<close> the whole handler.  The identifiers the call
  may draw are its arguments: \<open>new_event\<close> for the fact the aggregate emits and \<open>new_row\<close> for
  the command row.  What it reports outside the database (the owed command and the
  completion metric) is part of its result.
\<close>

datatype handler_error =
    Handler_Store store_error
  | Handler_Saga saga_error

record fact_effect =
  fe_ignored :: bool
  fe_enqueued :: "saga_command_kind option"
  fe_completion :: "(int \<times> order_status) option"

datatype fact_outcome = Fact_Processed "saga_command_kind option" | Fact_Duplicate | Fact_Ignored

definition orders_saga_consumer :: string where
  "orders_saga_consumer = ''orders.saga''"

definition nothing_done :: fact_effect where
  "nothing_done = \<lparr> fe_ignored = False, fe_enqueued = None, fe_completion = None \<rparr>"

definition sole_expected_status :: "event_type \<Rightarrow> order_status option" where
  "sole_expected_status e = (let vs = step_variants_for e in
     if length vs = 1 then step_precondition (hd vs) else None)"

definition record_saga_completion_if_closed :: "order \<Rightarrow> transition_context \<Rightarrow> (int \<times> order_status) option" where
  "record_saga_completion_if_closed ord ctx =
     (if o_status ord \<noteq> Completed \<and> o_status ord \<noteq> Cancelled then None
      else Some (tc_at ctx - o_date ord, o_status ord))"

definition ignore_fact ::
    "instant \<Rightarrow> envelope \<Rightarrow> uid option \<Rightarrow> uid \<Rightarrow> order_status option \<Rightarrow> ignored_marker \<Rightarrow> orders_db \<Rightarrow>
      handler_error + fact_effect \<times> orders_db" where
  "ignore_fact now env oid corr observed marker db =
     bindR (mapErr (\<lambda>e. Handler_Saga (Kernel_Err e)) (unique_id_from (ev_id env))) (\<lambda>i.
     Inr (nothing_done \<lparr> fe_ignored := True \<rparr>, record_ignored
       \<lparr> ig_event = i, ig_type = ev_type env, ig_order = oid, ig_correlation = corr, ig_observed = observed,
         ig_expected = sole_expected_status (ev_type env), ig_marker = marker, ig_at = stored_datetime now \<rparr> db))"

definition owe_command ::
    "instant \<Rightarrow> uid \<Rightarrow> string \<Rightarrow> saga_command_kind \<Rightarrow> order \<Rightarrow> envelope \<Rightarrow> orders_db \<Rightarrow> handler_error + orders_db" where
  "owe_command now new_row topic k ord env db =
     bindR (mapErr Handler_Saga (build_saga_command_payload k ord (Some env))) (\<lambda>p.
     bindR (mapErr (\<lambda>e. Handler_Saga (Kernel_Err e)) (unique_id_from (ev_id env))) (\<lambda>i.
     Inr (enqueue_command now \<lparr> en_id = new_row, en_order = o_id ord, en_reference = o_reference ord,
       en_command = k, en_payload = p, en_trigger_id = i, en_trigger = env, en_topic = topic \<rparr> db)))"

text \<open>A credit approval that arrives after an accepted operator cancellation.\<close>

definition late_for_accepted_cancel :: "order \<Rightarrow> orders_db \<Rightarrow> bool" where
  "late_for_accepted_cancel ord db =
     (if o_status ord = Cancelled then o_reason ord = Some Operator_Cancelled
      else o_status ord = Stock_Reserved \<and> has_accepted_operator_cancel (o_id ord) db)"

definition apply_step ::
    "instant \<Rightarrow> uid \<Rightarrow> uid \<Rightarrow> string \<Rightarrow> envelope \<Rightarrow> saga_step \<Rightarrow> order \<Rightarrow> orders_db \<Rightarrow>
      handler_error + fact_effect \<times> orders_db" where
  "apply_step now new_event new_row topic env st ord db =
     bindR (mapErr (\<lambda>e. Handler_Saga (Kernel_Err e)) (transition_context_from env)) (\<lambda>ctx.
     case st of
       Advance _ f cmd \<Rightarrow>
         bindR (mapErr (\<lambda>e. Handler_Saga (Order_Err e)) (f new_event ctx ord)) (\<lambda>ord'.
         bindR (mapErr Handler_Store (save_order now ord' None db)) (\<lambda>db1.
         let done = nothing_done \<lparr> fe_completion := record_saga_completion_if_closed ord' ctx \<rparr> in
         (case cmd of
            None \<Rightarrow> Inr (done, db1)
          | Some k \<Rightarrow> bindR (owe_command now new_row topic k (ord' \<lparr> o_events := [] \<rparr>) env db1) (\<lambda>db2.
              Inr (done \<lparr> fe_enqueued := Some k \<rparr>, db2)))))
     | Cancel_Step _ reason steps \<Rightarrow>
         bindR (mapErr Handler_Saga (reason env)) (\<lambda>r.
         bindR (mapErr (\<lambda>e. Handler_Saga (Order_Err e)) (cancel_order new_event r ctx (steps env) ord)) (\<lambda>ord'.
         bindR (mapErr Handler_Store (save_order now ord' None db)) (\<lambda>db1.
         Inr (nothing_done \<lparr> fe_completion := record_saga_completion_if_closed ord' ctx \<rparr>, db1))))
     | Skip \<Rightarrow> Inr (nothing_done, db))"

definition saga_fact_work ::
    "instant \<Rightarrow> uid \<Rightarrow> uid \<Rightarrow> string \<Rightarrow> envelope \<Rightarrow> orders_db \<Rightarrow> handler_error + fact_effect \<times> orders_db" where
  "saga_fact_work now new_event new_row topic env db =
     bindR (mapErr (\<lambda>e. Handler_Saga (Kernel_Err e)) (unique_id_from (ev_correlation env))) (\<lambda>corr.
     bindR (mapErr Handler_Store (find_by_id corr db)) (\<lambda>found.
     case found of
       None \<Rightarrow> ignore_fact now env None corr None Unknown_Order db
     | Some ord \<Rightarrow>
       if ev_type env = Credit_Approved_Fact \<and> late_for_accepted_cancel ord db then
         bindR (owe_command now new_row topic Credit_Release ord env db) (\<lambda>db1.
         Inr (nothing_done \<lparr> fe_enqueued := Some Credit_Release \<rparr>, db1))
       else (case step_for_status (ev_type env) (o_status ord) of
         None \<Rightarrow> ignore_fact now env (Some (o_id ord)) corr (Some (o_status ord)) Precondition_Unmet db
       | Some st \<Rightarrow> apply_step now new_event new_row topic env st ord db)))"

definition handle_fact ::
    "instant \<Rightarrow> uid \<Rightarrow> uid \<Rightarrow> string \<Rightarrow> envelope \<Rightarrow> orders_db \<Rightarrow> (handler_error + fact_outcome) \<times> orders_db" where
  "handle_fact now new_event new_row topic env db =
     (if list_all is_skip (step_variants_for (ev_type env)) then (Inr (Fact_Processed None), db)
      else (case run_once (record_processed_event (ev_id env) orders_saga_consumer)
                (saga_fact_work now new_event new_row topic env) db of
         (Inl e, db') \<Rightarrow> (Inl e, db')
       | (Inr Duplicate, db') \<Rightarrow> (Inr Fact_Duplicate, db')
       | (Inr (Processed eff), db') \<Rightarrow>
           (Inr (if fe_ignored eff then Fact_Ignored else Fact_Processed (fe_enqueued eff)), db')))"

section \<open>The specification of a step\<close>

text \<open>What a fact does to an order of a given status: the facts emitted, the command owed and the
  recorded cancellation reason; the status reached is \<open>step_target\<close>.\<close>

definition step_emits :: "event_type \<Rightarrow> order_status \<Rightarrow> event_type list" where
  "step_emits e s = (case step_target e s of
     Some t \<Rightarrow> if t = s then [] else if t = Confirmed then [Order_Confirmed]
       else if t = Completed then [Order_Completed] else if t = Cancelled then [Order_Cancelled] else []
   | None \<Rightarrow> [])"

definition step_owes :: "event_type \<Rightarrow> order_status \<Rightarrow> saga_command_kind option" where
  "step_owes e s = (case e of
     Order_Placed \<Rightarrow> Some Stock_Reserve
   | Stock_Reserved_Fact \<Rightarrow> Some Credit_Hold
   | Credit_Approved_Fact \<Rightarrow> Some Despatch_Create
   | Credit_Rejected_Fact \<Rightarrow> Some Stock_Release
   | Stock_Released_Fact \<Rightarrow> if s = Stock_Reserved then None else Some Credit_Release
   | Order_Despatched \<Rightarrow> Some Invoice_Issue
   | _ \<Rightarrow> None)"

definition step_reason :: "envelope \<Rightarrow> order_status \<Rightarrow> cancellation_reason option" where
  "step_reason env s = (if step_target (ev_type env) s \<noteq> Some Cancelled then None else (case ev_type env of
     Stock_Rejected_Fact \<Rightarrow> Some Stock_Rejected
   | Stock_Released_Fact \<Rightarrow> (case stock_release_reason env of
       Some Release_Credit_Rejected \<Rightarrow> Some Credit_Rejected | _ \<Rightarrow> Some Operator_Cancelled)
   | _ \<Rightarrow> Some Operator_Cancelled))"

text \<open>The release facts carry the reason their step expects.\<close>

definition release_payload_ok :: "envelope \<Rightarrow> order_status \<Rightarrow> bool" where
  "release_payload_ok env s \<longleftrightarrow>
     (ev_type env = Stock_Released_Fact \<and> s = Stock_Reserved \<longrightarrow> stock_release_reason env \<noteq> None) \<and>
     (ev_type env = Credit_Released_Fact \<and> (s = Credit_Approved \<or> s = Confirmed) \<longrightarrow>
        credit_release_reason_of env = Some Release_Cancelled)"

definition event_of_step :: "uid \<Rightarrow> order \<Rightarrow> transition_context \<Rightarrow> envelope \<Rightarrow> bool" where
  "event_of_step eid ord ctx e \<longleftrightarrow> ev_id e = eid \<and> ev_aggregate e = o_id ord \<and> ev_correlation e = o_id ord \<and>
     ev_causation e = tc_causation ctx \<and> ev_at e = tc_at ctx"

lemma event_of_step_simps [simp]:
  "event_of_step eid ord ctx (order_confirmed_event eid x ctx) \<longleftrightarrow> o_id x = o_id ord"
  "event_of_step eid ord ctx (order_completed_event eid x ctx) \<longleftrightarrow> o_id x = o_id ord"
  "event_of_step eid ord ctx (order_cancelled_event eid r steps x ctx) \<longleftrightarrow> o_id x = o_id ord"
  by (auto simp: event_of_step_def order_confirmed_event_def order_completed_event_def
      order_cancelled_event_def order_event_def)

lemma order_same_update:
  "o_events ord = [] \<Longrightarrow> o_status ord = s \<Longrightarrow> ord \<lparr> o_status := s, o_events := [] \<rparr> = ord"
  by (cases ord) simp

lemma add_event_form:
  "o_events ord = [] \<Longrightarrow> add_domain_event e (ord \<lparr> o_status := s \<rparr>) = ord \<lparr> o_status := s, o_events := [e] \<rparr>"
  by (cases ord) (simp add: add_domain_event_def)

lemma status_update_form:
  "o_events ord = [] \<Longrightarrow> ord \<lparr> o_status := s \<rparr> = ord \<lparr> o_status := s, o_events := [] \<rparr>"
  by (cases ord) simp

lemma step_ops_eval:
  assumes "o_events ord = []"
  shows "no_change eid ctx ord = Inr (ord \<lparr> o_status := o_status ord, o_events := [] \<rparr>)"
    and "o_status ord = Placed \<Longrightarrow> mark_stock_reserved ord = Inr (ord \<lparr> o_status := Stock_Reserved, o_events := [] \<rparr>)"
    and "o_status ord = Confirmed \<Longrightarrow> mark_despatched ord = Inr (ord \<lparr> o_status := Despatched, o_events := [] \<rparr>)"
    and "o_status ord = Despatched \<Longrightarrow> mark_invoiced ord = Inr (ord \<lparr> o_status := Invoiced, o_events := [] \<rparr>)"
    and "o_status ord = Invoiced \<Longrightarrow> mark_paid ord = Inr (ord \<lparr> o_status := Paid, o_events := [] \<rparr>)"
    and "o_status ord = Paid \<Longrightarrow> complete_order eid ctx ord = Inr (ord \<lparr> o_status := Completed,
      o_events := [order_completed_event eid (ord \<lparr> o_status := Completed \<rparr>) ctx] \<rparr>)"
    and "o_status ord = Stock_Reserved \<Longrightarrow> approve_and_confirm eid ctx ord = Inr (ord \<lparr> o_status := Confirmed,
      o_events := [order_confirmed_event eid (ord \<lparr> o_status := Confirmed \<rparr>) ctx] \<rparr>)"
  using assms
  by (simp_all add: no_change_def approve_and_confirm_def order_ops bindR_Inr status_update_form [symmetric]
      add_event_form order_same_update)

definition step_events :: "event_type \<Rightarrow> order_status \<Rightarrow> uid \<Rightarrow> transition_context \<Rightarrow> order \<Rightarrow> envelope list" where
  "step_events e s eid ctx x =
     (if step_emits e s = [Order_Confirmed] then [order_confirmed_event eid x ctx]
      else if step_emits e s = [Order_Completed] then [order_completed_event eid x ctx] else [])"

lemma advance_form:
  assumes "step_for_status e (o_status ord) = Some (Advance p f c)" and ev: "o_events ord = []"
  shows "\<exists>t. step_target e (o_status ord) = Some t \<and> t \<noteq> Cancelled \<and> c = step_owes e (o_status ord) \<and>
    f eid ctx ord = Inr (ord \<lparr> o_status := t,
      o_events := step_events e (o_status ord) eid ctx (ord \<lparr> o_status := t \<rparr>) \<rparr>)"
proof -
  note evals = step_ops_eval [OF ev]
  note simps = step_target_def step_emits_def step_owes_def step_events_def step_for_status_simps
  show ?thesis
  proof (cases "o_status ord")
    case Placed
    with assms(1) show ?thesis by (cases e) (auto simp: simps evals)
  next
    case Stock_Reserved
    with assms(1) show ?thesis by (cases e) (auto simp: simps evals)
  next
    case Credit_Approved
    with assms(1) show ?thesis by (cases e) (auto simp: simps evals)
  next
    case Confirmed
    with assms(1) show ?thesis by (cases e) (auto simp: simps evals)
  next
    case Despatched
    with assms(1) show ?thesis by (cases e) (auto simp: simps evals)
  next
    case Invoiced
    with assms(1) show ?thesis by (cases e) (auto simp: simps evals)
  next
    case Paid
    with assms(1) show ?thesis by (cases e) (auto simp: simps evals)
  qed (use assms(1) in \<open>cases e; simp add: step_for_status_simps\<close>)+
qed

lemma step_events_props:
  "o_id x = o_id ord \<Longrightarrow> list_all (event_of_step eid ord ctx) (step_events e s eid ctx x)"
  "\<not> list_ex (\<lambda>v. ev_type v = Order_Placed) (step_events e s eid ctx x)"
  "step_target e s \<noteq> Some Cancelled \<Longrightarrow> map ev_type (step_events e s eid ctx x) = step_emits e s"
  "length (step_events e s eid ctx x) \<le> Suc 0"
  by (auto simp: step_events_def step_emits_def split: option.splits if_splits)

lemma cancel_form:
  assumes st: "step_for_status e (o_status ord) = Some (Cancel_Step p reason steps)" and "o_events ord = []"
    and "ev_type env = e" "release_payload_ok env (o_status ord)"
  shows "\<exists>r. reason env = Inr r \<and> step_reason env (o_status ord) = Some r \<and>
    step_target e (o_status ord) = Some Cancelled \<and> step_owes e (o_status ord) = None \<and>
    step_emits e (o_status ord) = [Order_Cancelled] \<and>
    cancel_order eid r ctx (steps env) ord = Inr (ord \<lparr> o_status := Cancelled, o_reason := Some r,
       o_events := [order_cancelled_event eid r (steps env) (ord \<lparr> o_status := Cancelled, o_reason := Some r \<rparr>) ctx] \<rparr>)"
proof -
  have ev: "add_domain_event x (ord \<lparr> o_status := Cancelled, o_reason := Some r \<rparr>) =
      ord \<lparr> o_status := Cancelled, o_reason := Some r, o_events := [x] \<rparr>" for x r
    using assms(2) by (cases ord) (simp add: add_domain_event_def)
  note simps = step_target_def step_emits_def step_owes_def step_reason_def step_for_status_simps
    release_payload_ok_def cancel_order_Inr cancellable_def Let_def ev map_reason_def map_credit_release_reason_def
  show ?thesis using st assms(3,4)
    by (cases e; cases "o_status ord") (auto simp: simps split: option.splits release_reason.splits)
qed

section \<open>The handler refines the specification\<close>

abbreviation canonical_id :: "uid \<Rightarrow> bool" where
  "canonical_id i \<equiv> unique_id_from i = Inr i"

definition event_caused_by :: "envelope \<Rightarrow> uid \<Rightarrow> order \<Rightarrow> envelope \<Rightarrow> bool" where
  "event_caused_by env eid ord e \<longleftrightarrow> ev_id e = eid \<and> ev_causation e = ev_id env \<and> ev_at e = ev_at env \<and>
     ev_correlation e = o_id ord"

text \<open>What a processed step leaves behind.\<close>

definition step_post ::
    "uid \<Rightarrow> envelope \<Rightarrow> order \<Rightarrow> order_status \<Rightarrow> orders_db \<Rightarrow> orders_db \<Rightarrow> bool" where
  "step_post new_event env ord t db db' \<longleftrightarrow>
     find_by_id (o_id ord) db' = Inr (Some (ord \<lparr> o_status := t, o_reason := step_reason env (o_status ord) \<rparr>)) \<and>
     (\<exists>evs. outbox_envelopes db' = outbox_envelopes db @ evs \<and>
        map ev_type evs = step_emits (ev_type env) (o_status ord) \<and>
        list_all (event_caused_by env new_event ord) evs) \<and>
     (\<forall>k. step_owes (ev_type env) (o_status ord) = Some k \<longrightarrow> find_by_order_and_command (o_id ord) k db' \<noteq> None) \<and>
     (\<forall>j. j \<noteq> o_id ord \<longrightarrow> find_by_id j db' = find_by_id j db) \<and> orders_db_ok db'"

lemma loaded_order:
  assumes "orders_db_ok db" "find_by_id i db = Inr (Some ord)"
  shows "o_id ord = i \<and> o_events ord = [] \<and> o_lines ord \<noteq> [] \<and> (o_reason ord \<noteq> None \<longleftrightarrow> o_status ord = Cancelled)"
proof -
  obtain row where "row \<in> set (db_orders db)" "or_id row = i" "load_order db row = Inr (Some ord)"
    using find_order_row [OF assms(2)] by blast
  then show ?thesis using load_order_fields [of db row ord] assms(1)
    by (auto simp: orders_db_ok_def list_all_iff)
qed

lemma owe_command_ok:
  assumes "canonical_id (ev_id env)" "build_saga_command_payload k ord (Some env) = Inr p"
    and "\<not> list_ex (\<lambda>r. cm_id r = new_row) (db_commands db)"
  shows "\<exists>db'. owe_command now new_row topic k ord env db = Inr db' \<and>
    find_by_order_and_command (o_id ord) k db' \<noteq> None \<and>
    db_orders db' = db_orders db \<and> db_items db' = db_items db \<and> db_reference db' = db_reference db \<and>
    db_outbox db' = db_outbox db \<and> db_processed db' = db_processed db \<and> db_ignored db' = db_ignored db"
proof -
  let ?inp = "\<lparr> en_id = new_row, en_order = o_id ord, en_reference = o_reference ord,
       en_command = k, en_payload = p, en_trigger_id = ev_id env, en_trigger = env, en_topic = topic \<rparr>"
  have "find_by_order_and_command (o_id ord) k (enqueue_command now ?inp db) \<noteq> None"
    using assms(3) by (intro orders_commands.enqueued_is_owed) (simp_all add: command_unused_def)
  then show ?thesis using assms(1,2) by (simp add: owe_command_def)
qed

lemma apply_advance_post:
  assumes st: "step_for_status (ev_type env) (o_status ord) = Some (Advance p f c)"
    and ok: "orders_db_ok db" and f: "find_by_id (o_id ord) db = Inr (Some ord)"
    and id: "canonical_id (ev_id env)" and ev: "new_event \<notin> outbox_ids db"
    and row: "\<not> list_ex (\<lambda>r. cm_id r = new_row) (db_commands db)"
    and t: "step_target (ev_type env) (o_status ord) = Some t"
  shows "\<exists>eff db'. apply_step now new_event new_row topic env (Advance p f c) ord db = Inr (eff, db') \<and>
    \<not> fe_ignored eff \<and> fe_enqueued eff = step_owes (ev_type env) (o_status ord) \<and>
    step_post new_event env ord t db db' \<and> db_processed db' = db_processed db"
proof -
  note lo = loaded_order [OF ok f]
  let ?ctx = "\<lparr> tc_at = ev_at env, tc_causation = ev_id env \<rparr>"
  from advance_form [OF st] lo t have form: "t \<noteq> Cancelled" "c = step_owes (ev_type env) (o_status ord)"
    "f new_event ?ctx ord = Inr (ord \<lparr> o_status := t,
       o_events := step_events (ev_type env) (o_status ord) new_event ?ctx (ord \<lparr> o_status := t \<rparr>) \<rparr>)"
    by fastforce+
  have "\<exists>evs. f new_event ?ctx ord = Inr (ord \<lparr> o_status := t, o_events := evs \<rparr>) \<and>
      list_all (event_of_step new_event ord ?ctx) evs \<and> \<not> list_ex (\<lambda>v. ev_type v = Order_Placed) evs \<and>
      map ev_type evs = step_emits (ev_type env) (o_status ord) \<and> length evs \<le> Suc 0"
    by (intro exI conjI, rule form(3)) (simp_all add: step_events_props t form(1))
  then obtain evs where fe: "f new_event ?ctx ord = Inr (ord \<lparr> o_status := t, o_events := evs \<rparr>)"
    and own: "list_all (event_of_step new_event ord ?ctx) evs"
    and np: "\<not> list_ex (\<lambda>v. ev_type v = Order_Placed) evs"
    and ty: "map ev_type evs = step_emits (ev_type env) (o_status ord)" and len: "length evs \<le> Suc 0"
    by blast
  have nc: "o_status ord \<noteq> Cancelled" using t by (auto simp: step_target_def split: event_type.splits if_splits)
  then have r: "o_reason ord = None" "step_reason env (o_status ord) = None"
    using lo form(1) t by (auto simp: step_reason_def)
  have caused: "list_all (event_caused_by env new_event ord) evs"
    using own by (rule list.pred_mono_strong) (simp add: event_of_step_def event_caused_by_def)
  have ids: "distinct (map ev_id evs)" using len by (cases evs) auto
  have fresh: "\<forall>e\<in>set evs. ev_id e \<notin> outbox_ids db"
    using caused ev unfolding list_all_iff event_caused_by_def by metis
  have same: "ord \<lparr> o_status := t, o_events := evs \<rparr> = ord \<lparr> o_status := t, o_reason := None, o_events := evs \<rparr>"
    "ord \<lparr> o_status := t, o_reason := None \<rparr> = ord \<lparr> o_status := t \<rparr>"
    using r(1) by (cases ord; simp)+
  obtain db1 where s: "save_order now (ord \<lparr> o_status := t, o_events := evs \<rparr>) None db = Inr db1"
    and post: "find_by_id (o_id ord) db1 = Inr (Some (ord \<lparr> o_status := t \<rparr>))"
      "outbox_envelopes db1 = outbox_envelopes db @ evs" "orders_db_ok db1"
      "\<forall>j. j \<noteq> o_id ord \<longrightarrow> find_by_id j db1 = find_by_id j db"
      "db_commands db1 = db_commands db" "db_processed db1 = db_processed db"
    using save_transition [OF ok f np ids fresh, where r = None and s = t and now = now] form(1)
    by (auto simp: same(2) same(1) [symmetric])
  show ?thesis
  proof (cases c)
    case None
    then have "apply_step now new_event new_row topic env (Advance p f c) ord db =
        Inr (nothing_done \<lparr> fe_completion := record_saga_completion_if_closed (ord \<lparr> o_status := t, o_events := evs \<rparr>) ?ctx \<rparr>, db1)"
      using id fe s by (simp add: apply_step_def transition_context_from_def)
    then show ?thesis using None form(2) post caused ty r(2)
      by (auto simp: nothing_done_def step_post_def same(2))
  next
    case (Some k)
    let ?o = "ord \<lparr> o_status := t, o_events := [] \<rparr>"
    have "\<exists>p. build_saga_command_payload k ?o (Some env) = Inr p"
      using owed_payload_builds [where ord = ?o and f = env and s = "o_status ord" and p = p and g = f and k = k] st Some lo by simp
    then obtain p' where "build_saga_command_payload k ?o (Some env) = Inr p'" by blast
    then obtain db2 where o: "owe_command now new_row topic k ?o env db1 = Inr db2"
      and o2: "find_by_order_and_command (o_id ord) k db2 \<noteq> None"
        "db_orders db2 = db_orders db1" "db_items db2 = db_items db1" "db_reference db2 = db_reference db1"
        "db_outbox db2 = db_outbox db1" "db_processed db2 = db_processed db1"
      using owe_command_ok [OF id, of k ?o p' new_row db1 now topic] row post(5) by auto
    have "find_by_id j db2 = find_by_id j db1" for j
      using o2 by (intro find_by_id_frame)
    moreover have "orders_db_ok db2" using o2 post(3) orders_db_ok_frame [of db2 db1] by simp
    moreover have "outbox_envelopes db2 = outbox_envelopes db1" using o2 by (simp add: outbox_envelopes_def)
    moreover have "apply_step now new_event new_row topic env (Advance p f c) ord db =
        Inr (nothing_done \<lparr> fe_enqueued := Some k,
          fe_completion := record_saga_completion_if_closed (ord \<lparr> o_status := t, o_events := evs \<rparr>) ?ctx \<rparr>, db2)"
      using id fe s o Some by (simp add: apply_step_def transition_context_from_def nothing_done_def)
    ultimately show ?thesis using Some form(2) post caused ty r(2) o2
      by (auto simp: nothing_done_def step_post_def same(2))
  qed
qed

lemma apply_cancel_post:
  assumes st: "step_for_status (ev_type env) (o_status ord) = Some (Cancel_Step p reason steps)"
    and ok: "orders_db_ok db" and f: "find_by_id (o_id ord) db = Inr (Some ord)"
    and id: "canonical_id (ev_id env)" and ev: "new_event \<notin> outbox_ids db"
    and pl: "release_payload_ok env (o_status ord)"
  shows "\<exists>eff db'. apply_step now new_event new_row topic env (Cancel_Step p reason steps) ord db = Inr (eff, db') \<and>
    \<not> fe_ignored eff \<and> fe_enqueued eff = None \<and> step_owes (ev_type env) (o_status ord) = None \<and>
    step_post new_event env ord Cancelled db db' \<and> db_processed db' = db_processed db"
proof -
  note lo = loaded_order [OF ok f]
  let ?ctx = "\<lparr> tc_at = ev_at env, tc_causation = ev_id env \<rparr>"
  obtain r where r: "reason env = Inr r" "step_reason env (o_status ord) = Some r"
    "step_owes (ev_type env) (o_status ord) = None" "step_emits (ev_type env) (o_status ord) = [Order_Cancelled]"
    and c: "cancel_order new_event r ?ctx (steps env) ord = Inr (ord \<lparr> o_status := Cancelled, o_reason := Some r,
       o_events := [order_cancelled_event new_event r (steps env) (ord \<lparr> o_status := Cancelled, o_reason := Some r \<rparr>) ?ctx] \<rparr>)"
    using cancel_form [OF st _ refl pl, of new_event ?ctx] lo by blast
  let ?e = "order_cancelled_event new_event r (steps env) (ord \<lparr> o_status := Cancelled, o_reason := Some r \<rparr>) ?ctx"
  have e: "event_caused_by env new_event ord ?e" "ev_type ?e = Order_Cancelled"
    by (simp_all add: event_caused_by_def order_cancelled_event_def order_event_def)
  then have ids: "\<not> list_ex (\<lambda>v. ev_type v = Order_Placed) [?e]" "distinct (map ev_id [?e])"
    "\<forall>v\<in>set [?e]. ev_id v \<notin> outbox_ids db"
    using ev by (simp_all add: event_caused_by_def)
  obtain db1 where s: "save_order now (ord \<lparr> o_status := Cancelled, o_reason := Some r, o_events := [?e] \<rparr>) None db = Inr db1"
    and post: "find_by_id (o_id ord) db1 = Inr (Some (ord \<lparr> o_status := Cancelled, o_reason := Some r \<rparr>))"
      "outbox_envelopes db1 = outbox_envelopes db @ [?e]" "orders_db_ok db1"
      "\<forall>j. j \<noteq> o_id ord \<longrightarrow> find_by_id j db1 = find_by_id j db" "db_processed db1 = db_processed db"
    using save_transition [OF ok f ids, where r = "Some r" and s = Cancelled and now = now] by auto
  have "apply_step now new_event new_row topic env (Cancel_Step p reason steps) ord db =
      Inr (nothing_done \<lparr> fe_completion := record_saga_completion_if_closed
        (ord \<lparr> o_status := Cancelled, o_reason := Some r, o_events := [?e] \<rparr>) ?ctx \<rparr>, db1)"
    using id r(1) c s by (simp add: apply_step_def transition_context_from_def)
  then show ?thesis using post e r
    by (auto simp: nothing_done_def step_post_def)
qed

lemma handle_fact_work:
  assumes "(ev_id env, orders_saga_consumer) \<notin> set (db_processed db)"
    and "\<not> list_all is_skip (step_variants_for (ev_type env))"
    and "db1 = db \<lparr> db_processed := db_processed db @ [(ev_id env, orders_saga_consumer)] \<rparr>"
  shows "handle_fact now new_event new_row topic env db = (case saga_fact_work now new_event new_row topic env db1 of
      Inl e \<Rightarrow> (Inl e, db)
    | Inr (eff, db') \<Rightarrow> (Inr (if fe_ignored eff then Fact_Ignored else Fact_Processed (fe_enqueued eff)), db'))"
  using assms by (simp add: handle_fact_def run_once_unfold record_processed_event_def split: sum.split prod.split)

lemma step_target_not_skip: "step_target e s = Some t \<Longrightarrow> \<not> list_all is_skip (step_variants_for e)"
  by (cases e) (auto simp: step_target_def step_variants)

text \<open>C1: A fact delivered for the first time to an order whose status one variant of the step table
  applies to is processed, with two kinds of facts left out: a stock.released or credit.released that
  would cancel the order must carry a reason this step maps to a cancellation reason (any other is an error of
  the handler), and a credit.approved must not come after an accepted cancellation of the operator
  (then the order is not moved; that case is a property of its own).  In a consistent database, and
  with an event id and a command row id that are new there, the order moves to exactly the status of Table T-1 with the
  mapped cancellation reason, exactly the facts of that edge are appended to the outbox,
  caused by this fact and stamped with its instant, the owed command is durably there, the
  fact is in the ledger, and no other order is touched.\<close>

theorem saga_fact_refines_step_table:
  assumes "orders_db_ok db" and "canonical_id (ev_id env)" and "canonical_id (ev_correlation env)"
    and "find_by_id (ev_correlation env) db = Inr (Some ord)"
    and "(ev_id env, orders_saga_consumer) \<notin> set (db_processed db)"
    and "new_event \<notin> outbox_ids db" and "\<not> list_ex (\<lambda>r. cm_id r = new_row) (db_commands db)"
    and "release_payload_ok env (o_status ord)"
    and "\<not> (ev_type env = Credit_Approved_Fact \<and> late_for_accepted_cancel ord db)"
    and "step_target (ev_type env) (o_status ord) = Some t"
  shows "\<exists>db'. handle_fact now new_event new_row topic env db =
      (Inr (Fact_Processed (step_owes (ev_type env) (o_status ord))), db') \<and>
    step_post new_event env ord t db db' \<and> (ev_id env, orders_saga_consumer) \<in> set (db_processed db')"
proof -
  define db1 where "db1 = db \<lparr> db_processed := db_processed db @ [(ev_id env, orders_saga_consumer)] \<rparr>"
  have frame: "orders_db_ok db1" "outbox_ids db1 = outbox_ids db" "outbox_envelopes db1 = outbox_envelopes db"
    "db_commands db1 = db_commands db"
    using assms(1) by (simp_all add: db1_def orders_db_ok_def outbox_ids_def outbox_envelopes_def)
  have find: "find_by_id j db1 = find_by_id j db" for j
    by (intro find_by_id_frame) (simp_all add: db1_def)
  have oid: "o_id ord = ev_correlation env" using loaded_order [OF assms(1,4)] by simp
  have f: "find_by_id (o_id ord) db1 = Inr (Some ord)" using find assms(4) oid by simp
  have late: "late_for_accepted_cancel ord db1 = late_for_accepted_cancel ord db"
    by (simp add: late_for_accepted_cancel_def has_accepted_operator_cancel_def frame(4))
  obtain st where st: "step_for_status (ev_type env) (o_status ord) = Some st"
    using assms(10) step_target_iff [of "ev_type env" "o_status ord"] by auto
  have "\<exists>eff db'. apply_step now new_event new_row topic env st ord db1 = Inr (eff, db') \<and>
      \<not> fe_ignored eff \<and> fe_enqueued eff = step_owes (ev_type env) (o_status ord) \<and>
      step_post new_event env ord t db1 db' \<and> db_processed db' = db_processed db1"
  proof (cases st)
    case Skip
    then show ?thesis using st by (auto simp: step_for_status_def find_Some_iff)
  next
    case (Advance p g c)
    then show ?thesis
      using apply_advance_post [of env ord p g c db1 new_event new_row t now topic] st frame f assms(2,6,7,10)
      by simp
  next
    case (Cancel_Step p reason steps)
    have "t = Cancelled"
      using cancel_form [of "ev_type env" ord p reason steps env] st Cancel_Step assms(8,10)
        loaded_order [OF assms(1,4)] by fastforce
    then show ?thesis
      using apply_cancel_post [of env ord p reason steps db1 new_event now new_row topic] st Cancel_Step frame f assms(2,6,8)
      by fastforce
  qed
  then obtain eff db' where a: "apply_step now new_event new_row topic env st ord db1 = Inr (eff, db')"
    "\<not> fe_ignored eff" "fe_enqueued eff = step_owes (ev_type env) (o_status ord)"
    "step_post new_event env ord t db1 db'" "db_processed db' = db_processed db1" by blast
  have "saga_fact_work now new_event new_row topic env db1 = Inr (eff, db')"
    using a(1) st assms(3,9) f oid late by (auto simp: saga_fact_work_def)
  then have "handle_fact now new_event new_row topic env db =
      (Inr (Fact_Processed (step_owes (ev_type env) (o_status ord))), db')"
    using handle_fact_work [OF assms(5) step_target_not_skip [OF assms(10)] db1_def] a by simp
  moreover have "step_post new_event env ord t db db'"
    using a(4) find frame(3) by (simp add: step_post_def)
  ultimately show ?thesis using a(5) by (auto simp: db1_def)
qed

section \<open>Duplicates, stale facts, late approvals, errors\<close>

lemma save_order_frame:
  assumes "save_order now ord req db = Inr db'"
  shows "db_processed db' = db_processed db \<and> db_commands db' = db_commands db \<and>
    db_ignored db' = db_ignored db \<and> db_reference db' = db_reference db \<and> db_sequence db' = db_sequence db"
proof -
  obtain row items db1 db2 is_new evs where
    "(if is_new then insert_order_row row db else Inr (update_order_row row db)) = Inr db1"
    "(if items \<noteq> [] then upsert_items items db1 else Inr db1) = Inr db2" "record_outbox now evs db2 = Inr db'"
    using assms unfolding save_order_def pull_domain_events_def Let_def bindR_Inr prod.case by blast
  then show ?thesis
    by (auto simp: insert_order_row_def update_order_row_def upsert_items_def dest!: record_outbox_Inr split: if_splits)
qed

lemma saga_fact_work_ledger:
  assumes "saga_fact_work now new_event new_row topic env db = Inr (eff, db')"
  shows "db_processed db' = db_processed db"
proof -
  have own: "db_processed d' = db_processed d" if "owe_command now new_row topic k ord env d = Inr d'" for k ord d d'
    using that by (auto simp: owe_command_def bindR_Inr)
  have ign: "db_processed d' = db_processed d" if "ignore_fact now env oid corr obs m d = Inr (x, d')" for oid corr obs m d x d'
    using that by (auto simp: ignore_fact_def bindR_Inr record_ignored_def)
  have app: "db_processed d' = db_processed d" if "apply_step now new_event new_row topic env st ord d = Inr (x, d')" for st ord d x d'
    using that by (cases st) (auto simp: apply_step_def bindR_Inr Let_def dest!: save_order_frame own
        split: option.splits)
  obtain corr found where w: "find_by_id corr db = Inr found"
    "(case found of
       None \<Rightarrow> ignore_fact now env None corr None Unknown_Order db
     | Some ord \<Rightarrow>
       if ev_type env = Credit_Approved_Fact \<and> late_for_accepted_cancel ord db then
         bindR (owe_command now new_row topic Credit_Release ord env db) (\<lambda>db1.
         Inr (nothing_done \<lparr> fe_enqueued := Some Credit_Release \<rparr>, db1))
       else (case step_for_status (ev_type env) (o_status ord) of
         None \<Rightarrow> ignore_fact now env (Some (o_id ord)) corr (Some (o_status ord)) Precondition_Unmet db
       | Some st \<Rightarrow> apply_step now new_event new_row topic env st ord db)) = Inr (eff, db')"
    using assms unfolding saga_fact_work_def bindR_Inr mapErr_Inr by blast
  show ?thesis
  proof (cases found)
    case None
    then show ?thesis using w(2) ign by simp
  next
    case (Some ord)
    then show ?thesis using w(2)
      by (cases "step_for_status (ev_type env) (o_status ord)")
        (auto simp: bindR_Inr dest: own ign app split: if_splits)
  qed
qed

lemma saga_work_keeps_ledger: "orders_ledger.keeps_ledger (saga_fact_work now new_event new_row topic env)"
  using saga_fact_work_ledger by (fastforce simp: orders_ledger.keeps_ledger_def)

lemma handle_fact_snd:
  "snd (handle_fact now new_event new_row topic env db) =
    (if list_all is_skip (step_variants_for (ev_type env)) then db
     else snd (run_once (record_processed_event (ev_id env) orders_saga_consumer)
       (saga_fact_work now new_event new_row topic env) db))"
  by (simp add: handle_fact_def split: prod.split sum.split consumption.split)

lemma handle_fact_processed_mono:
  assumes "x \<in> set (db_processed db)"
  shows "x \<in> set (db_processed (snd (handle_fact now new_event new_row topic env db)))"
  using orders_ledger.processed_monotone [OF assms saga_work_keeps_ledger,
      of "(ev_id env, orders_saga_consumer)" now new_event new_row topic env] assms
  by (simp add: handle_fact_snd)

text \<open>A delivery: its clock reading, the identifiers it draws, its topic and its fact.\<close>

record delivery =
  dl_now :: instant
  dl_event :: uid
  dl_row :: uid
  dl_topic :: string
  dl_fact :: envelope

definition deliver :: "delivery \<Rightarrow> orders_db \<Rightarrow> (handler_error + fact_outcome) \<times> orders_db" where
  "deliver d = handle_fact (dl_now d) (dl_event d) (dl_row d) (dl_topic d) (dl_fact d)"

definition deliver_all :: "delivery list \<Rightarrow> orders_db \<Rightarrow> orders_db" where
  "deliver_all ds db = fold (\<lambda>d x. snd (deliver d x)) ds db"

lemma deliver_all_processed_mono:
  "x \<in> set (db_processed db) \<Longrightarrow> x \<in> set (db_processed (deliver_all ds db))"
  by (induction ds arbitrary: db) (auto simp: deliver_all_def deliver_def handle_fact_processed_mono)

lemma duplicate_delivery:
  "(i, c) \<in> set (db_processed db) \<Longrightarrow> run_once (record_processed_event i c) work db = (Inr Duplicate, db)"
  using orders_ledger.duplicate_is_noop [of "(i, c)"] by simp

text \<open>C3: A fact takes effect at most once: once a delivery of it has returned (processed or
  ignored), every later delivery of the same event id, whatever other facts were delivered
  in between and whatever the later envelope carries, reports a duplicate and changes
  nothing; and a delivery that fails leaves the database exactly as it was.\<close>

theorem saga_fact_at_most_once:
  assumes "deliver d db = (Inr r, db1)" and "ev_id (dl_fact d') = ev_id (dl_fact d)"
    and "\<not> list_all is_skip (step_variants_for (ev_type (dl_fact d)))"
    and "\<not> list_all is_skip (step_variants_for (ev_type (dl_fact d')))"
  shows "deliver d' (deliver_all ds db1) = (Inr Fact_Duplicate, deliver_all ds db1) \<and>
    (\<forall>d e db2 db3. deliver d db2 = (Inl e, db3) \<longrightarrow> db3 = db2)"
proof
  let ?key = "(ev_id (dl_fact d), orders_saga_consumer)"
  obtain c where "run_once (record_processed_event (fst ?key) (snd ?key))
      (saga_fact_work (dl_now d) (dl_event d) (dl_row d) (dl_topic d) (dl_fact d)) db = (Inr c, db1)"
    using assms(1,3) by (auto simp: deliver_def handle_fact_def split: prod.splits sum.splits consumption.splits)
  then have "?key \<in> set (db_processed db1)"
    by (rule orders_ledger.processed_after) (rule saga_work_keeps_ledger)
  then have "?key \<in> set (db_processed (deliver_all ds db1))" by (rule deliver_all_processed_mono)
  then show "deliver d' (deliver_all ds db1) = (Inr Fact_Duplicate, deliver_all ds db1)"
    using assms(2,4) by (simp add: deliver_def handle_fact_def duplicate_delivery)
  show "\<forall>d e db2 db3. deliver d db2 = (Inl e, db3) \<longrightarrow> db3 = db2"
  proof (intro allI impI)
    fix d e db2 db3
    assume "deliver d db2 = (Inl e, db3)"
    then have "run_once (record_processed_event (ev_id (dl_fact d)) orders_saga_consumer)
        (saga_fact_work (dl_now d) (dl_event d) (dl_row d) (dl_topic d) (dl_fact d)) db2 = (Inl e, db3)"
      by (auto simp: deliver_def handle_fact_def split: prod.splits sum.splits consumption.splits if_splits)
    then show "db3 = db2" using orders_ledger.error_is_noop [of "(ev_id (dl_fact d), orders_saga_consumer)"] by simp
  qed
qed

text \<open>A fact no variant of the step table accepts in the order's status, or for an order that
  does not exist, is ignored: apart from its ledger entry and one diagnostic row the
  database is as before, so no status, no line, no fact and no command changes.\<close>

theorem saga_fact_unmet_is_ignored:
  assumes "canonical_id (ev_id env)" and "canonical_id (ev_correlation env)"
    and "find_by_id (ev_correlation env) db = Inr found"
    and "(ev_id env, orders_saga_consumer) \<notin> set (db_processed db)"
    and "\<not> list_all is_skip (step_variants_for (ev_type env))"
    and "\<forall>ord. found = Some ord \<longrightarrow> step_target (ev_type env) (o_status ord) = None \<and>
      \<not> (ev_type env = Credit_Approved_Fact \<and> late_for_accepted_cancel ord db)"
  shows "\<exists>row. handle_fact now new_event new_row topic env db = (Inr Fact_Ignored,
      db \<lparr> db_processed := db_processed db @ [(ev_id env, orders_saga_consumer)], db_ignored := db_ignored db @ [row] \<rparr>) \<and>
    ig_event row = ev_id env \<and> ig_observed row = map_option o_status found \<and>
    ig_marker row = (if found = None then Unknown_Order else Precondition_Unmet)"
proof -
  define db1 where "db1 = db \<lparr> db_processed := db_processed db @ [(ev_id env, orders_saga_consumer)] \<rparr>"
  have find: "find_by_id (ev_correlation env) db1 = Inr found"
    using assms(3) find_by_id_frame [of db1 db] by (simp add: db1_def)
  have late: "late_for_accepted_cancel ord db1 = late_for_accepted_cancel ord db" for ord
    by (simp add: db1_def late_for_accepted_cancel_def has_accepted_operator_cancel_def)
  note h = handle_fact_work [OF assms(4,5) db1_def, of now new_event new_row topic]
  let ?row = "\<lparr> ig_event = ev_id env, ig_type = ev_type env, ig_order = map_option o_id found,
    ig_correlation = ev_correlation env, ig_observed = map_option o_status found,
    ig_expected = sole_expected_status (ev_type env),
    ig_marker = (if found = None then Unknown_Order else Precondition_Unmet), ig_at = stored_datetime now \<rparr>"
  have "saga_fact_work now new_event new_row topic env db1 =
      Inr (nothing_done \<lparr> fe_ignored := True \<rparr>, record_ignored ?row db1)"
  proof (cases found)
    case None
    then show ?thesis using find assms(1,2) by (simp add: saga_fact_work_def ignore_fact_def)
  next
    case (Some ord)
    then have "step_for_status (ev_type env) (o_status ord) = None"
      using assms(6) step_target_iff by blast
    then show ?thesis using find assms(1,2,6) Some late
      by (auto simp: saga_fact_work_def ignore_fact_def)
  qed
  then show ?thesis using h
    by (intro exI [of _ ?row]) (simp add: nothing_done_def record_ignored_def db1_def)
qed

text \<open>C35: A credit approval that arrives after the operator's cancellation was accepted never
  revives the order: the order is not touched and no fact is emitted, and the release of
  the credit just held is durably owed.\<close>

theorem late_credit_approval_is_unwound:
  assumes "orders_db_ok db" and "canonical_id (ev_id env)" and "canonical_id (ev_correlation env)"
    and "find_by_id (ev_correlation env) db = Inr (Some ord)"
    and "(ev_id env, orders_saga_consumer) \<notin> set (db_processed db)"
    and "\<not> list_ex (\<lambda>r. cm_id r = new_row) (db_commands db)"
    and "ev_type env = Credit_Approved_Fact" and "late_for_accepted_cancel ord db"
  shows "\<exists>db'. handle_fact now new_event new_row topic env db = (Inr (Fact_Processed (Some Credit_Release)), db') \<and>
    (\<forall>j. find_by_id j db' = find_by_id j db) \<and> db_outbox db' = db_outbox db \<and>
    find_by_order_and_command (o_id ord) Credit_Release db' \<noteq> None"
proof -
  define db1 where "db1 = db \<lparr> db_processed := db_processed db @ [(ev_id env, orders_saga_consumer)] \<rparr>"
  have find: "find_by_id j db1 = find_by_id j db" for j
    by (intro find_by_id_frame) (simp_all add: db1_def)
  have late: "late_for_accepted_cancel ord db1"
    using assms(8) unfolding late_for_accepted_cancel_def has_accepted_operator_cancel_def by (simp add: db1_def)
  have "\<exists>p. build_saga_command_payload Credit_Release ord (Some env) = Inr p"
    by (simp add: build_saga_command_payload_def)
  then obtain p where "build_saga_command_payload Credit_Release ord (Some env) = Inr p" by blast
  then obtain db2 where o: "owe_command now new_row topic Credit_Release ord env db1 = Inr db2"
    and o2: "find_by_order_and_command (o_id ord) Credit_Release db2 \<noteq> None"
      "db_orders db2 = db_orders db1" "db_items db2 = db_items db1" "db_reference db2 = db_reference db1"
      "db_outbox db2 = db_outbox db1"
    using owe_command_ok [OF assms(2), of Credit_Release ord p new_row db1 now topic] assms(6) by (auto simp: db1_def)
  have "find_by_id j db2 = find_by_id j db" for j
    using find_by_id_frame [OF o2(4,3,2)] find by simp
  moreover have "\<not> list_all is_skip (step_variants_for (ev_type env))" using assms(7) by (simp add: step_variants)
  ultimately show ?thesis
    using handle_fact_work [OF assms(5) _ db1_def, of now new_event new_row topic] find assms(3,4,7) late o o2
    by (simp add: saga_fact_work_def nothing_done_def) (simp add: db1_def)
qed

end
