(* ===== verification/Saga_Examples.thy ===== *)
theory Saga_Examples
  imports Saga_Facts
begin

text \<open>
  A small Orders database with one order, evaluated in the kernel: the inputs on which the
  properties of the saga are exercised.
\<close>

definition example_id :: "nat \<Rightarrow> uid" where
  "example_id k = ''00000000-0000-4000-8000-00000000000'' @ [digit_char k]"

definition example_reference :: reference_data where
  "example_reference = \<lparr> rd_retailers = [(''RET'', ''4006381333931'')], rd_companies = [(''CO'', ''5901234123457'')],
     rd_currencies = [''EUR''], rd_products = [(''P1'', \<lparr> rp_description = ''one'', rp_price = 250, rp_currency = ''EUR'' \<rparr>)] \<rparr>"

definition example_row :: "string \<Rightarrow> order_row" where
  "example_row st = \<lparr> or_id = example_id 1, or_reference = ''ORD-000001'', or_request_id = None, or_date = 0,
     or_company = ''CO'', or_retailer = ''RET'', or_currency = ''EUR'', or_initial_amount = 750,
     or_initial_discount = 50, or_total = 700, or_status = st, or_reason = None, or_notes = None \<rparr>"

definition example_item :: item_row where
  "example_item = \<lparr> it_id = example_id 2, it_order = example_id 1, it_product = ''P1'', it_description = ''one'',
     it_price = 250, it_quantity = 3, it_discount = 50 \<rparr>"

definition example_db :: "string \<Rightarrow> orders_db" where
  "example_db st = \<lparr> db_reference = example_reference, db_orders = [example_row st], db_items = [example_item],
     db_outbox = [], db_next_seq = 1, db_processed = [], db_commands = [], db_ignored = [], db_sequence = None \<rparr>"

definition example_fact :: "event_type \<Rightarrow> payload \<Rightarrow> nat \<Rightarrow> envelope" where
  "example_fact ty p k = \<lparr> ev_id = example_id k, ev_type = ty, ev_aggregate = example_id 1,
     ev_correlation = example_id 1, ev_causation = example_id 1, ev_at = 5000, ev_payload = p \<rparr>"

definition loaded :: "orders_db \<Rightarrow> order" where
  "loaded db = (case find_by_id (example_id 1) db of Inr (Some x) \<Rightarrow> x | _ \<Rightarrow> undefined)"

lemma example_ids: "\<forall>k\<in>set [0..<10]. canonical_id (example_id k)"
  by code_simp

lemma example_id_canonical: "k < 10 \<Longrightarrow> canonical_id (example_id k)"
  using example_ids by simp

lemma example_db_ok: "\<forall>st\<in>{''placed'', ''stock_reserved'', ''confirmed''}. orders_db_ok (example_db st)"
  by code_simp

lemma example_loads: "\<forall>s\<in>{Placed, Stock_Reserved, Confirmed}. 
    (case find_by_id (example_id 1) (example_db (status_name s)) of Inr (Some x) \<Rightarrow> o_status x = s | _ \<Rightarrow> False)"
  by code_simp

lemma example_find:
  assumes "s \<in> {Placed, Stock_Reserved, Confirmed}"
  shows "find_by_id (example_id 1) (example_db (status_name s)) = Inr (Some (loaded (example_db (status_name s))))"
    and "o_status (loaded (example_db (status_name s))) = s"
    and "o_id (loaded (example_db (status_name s))) = example_id 1"
proof -
  have "case find_by_id (example_id 1) (example_db (status_name s)) of Inr (Some x) \<Rightarrow> o_status x = s | _ \<Rightarrow> False"
    using example_loads assms by blast
  then obtain x where x: "find_by_id (example_id 1) (example_db (status_name s)) = Inr (Some x)" "o_status x = s"
    by (auto split: sum.splits option.splits)
  then show "find_by_id (example_id 1) (example_db (status_name s)) = Inr (Some (loaded (example_db (status_name s))))"
    and "o_status (loaded (example_db (status_name s))) = s"
    by (simp_all add: loaded_def)
  have "orders_db_ok (example_db (status_name s))" using example_db_ok assms by auto
  then show "o_id (loaded (example_db (status_name s))) = example_id 1"
    using loaded_order x(1) by (simp add: loaded_def)
qed

lemma example_fact_simps [simp]:
  "ev_id (example_fact ty p k) = example_id k" "ev_type (example_fact ty p k) = ty"
  "ev_correlation (example_fact ty p k) = example_id 1" "ev_payload (example_fact ty p k) = p"
  by (simp_all add: example_fact_def)

lemma example_db_simps [simp]:
  "db_processed (example_db st) = []" "db_commands (example_db st) = []" "db_outbox (example_db st) = []" "outbox_ids (example_db st) = {}"
  by (simp_all add: example_db_def outbox_ids_def)

lemma saga_fact_refines_step_table_witness:
  "\<exists>db'. handle_fact 0 (example_id 4) (example_id 5) ''t'' (example_fact Stock_Reserved_Fact (Raw_P ''x'') 3) (example_db ''placed'') =
      (Inr (Fact_Processed (Some Credit_Hold)), db') \<and>
    step_post (example_id 4) (example_fact Stock_Reserved_Fact (Raw_P ''x'') 3) (loaded (example_db ''placed''))
      Stock_Reserved (example_db ''placed'') db'"
proof -
  have f: "find_by_id (example_id 1) (example_db ''placed'') = Inr (Some (loaded (example_db ''placed'')))"
    "o_status (loaded (example_db ''placed'')) = Placed"
    using example_find [of Placed] by simp_all
  show ?thesis
    using saga_fact_refines_step_table [of "example_db ''placed''" "example_fact Stock_Reserved_Fact (Raw_P ''x'') 3"
        "loaded (example_db ''placed'')" "example_id 4" "example_id 5" Stock_Reserved 0 "''t''"]
      f example_db_ok example_id_canonical
    by (auto simp: release_payload_ok_def step_target_def step_owes_def)
qed

definition example_delivery :: "nat \<Rightarrow> delivery" where
  "example_delivery k = \<lparr> dl_now = 0, dl_event = example_id 4, dl_row = example_id 5, dl_topic = ''t'',
     dl_fact = example_fact Stock_Reserved_Fact (Raw_P ''x'') k \<rparr>"

lemma saga_fact_at_most_once_witness:
  "fst (deliver (example_delivery 3) (deliver_all [example_delivery 6]
     (snd (deliver (example_delivery 3) (example_db ''placed''))))) = Inr Fact_Duplicate"
proof -
  have "is_ok (fst (deliver (example_delivery 3) (example_db ''placed'')))" by code_simp
  then obtain r where "deliver (example_delivery 3) (example_db ''placed'') =
      (Inr r, snd (deliver (example_delivery 3) (example_db ''placed'')))"
    by (metis is_ok_iff prod.collapse)
  then show ?thesis
    using saga_fact_at_most_once [of "example_delivery 3" "example_db ''placed''" r _ "example_delivery 3" "[example_delivery 6]"]
    by (simp add: example_delivery_def step_variants)
qed

lemma saga_fact_unmet_is_ignored_witness:
  "fst (handle_fact 0 (example_id 4) (example_id 5) ''t'' (example_fact Payment_Received (Raw_P ''x'') 3) (example_db ''placed'')) =
    Inr Fact_Ignored"
proof -
  have f: "find_by_id (example_id 1) (example_db ''placed'') = Inr (Some (loaded (example_db ''placed'')))"
    "o_status (loaded (example_db ''placed'')) = Placed"
    using example_find [of Placed] by simp_all
  show ?thesis
    using saga_fact_unmet_is_ignored [of "example_fact Payment_Received (Raw_P ''x'') 3" "example_db ''placed''"
        "Some (loaded (example_db ''placed''))" 0 "example_id 4" "example_id 5" "''t''"]
      f example_id_canonical
    by (auto simp: step_variants step_target_def)
qed

text \<open>An order whose operator cancellation was accepted while it was stock_reserved.\<close>

definition example_cancelling_db :: orders_db where
  "example_cancelling_db = enqueue_command 0 \<lparr> en_id = example_id 6, en_order = example_id 1,
     en_reference = Order_Number ''ORD-000001'', en_command = Stock_Release,
     en_payload = Release_Request ''ORD-000001'' Release_Order_Cancelled, en_trigger_id = example_id 7,
     en_trigger = example_fact Operator_Cancel_Requested (Raw_P ''x'') 7, en_topic = ''t'' \<rparr> (example_db ''stock_reserved'')"

lemma late_credit_approval_is_unwound_witness:
  "\<exists>db'. handle_fact 0 (example_id 4) (example_id 5) ''t'' (example_fact Credit_Approved_Fact (Raw_P ''x'') 3) example_cancelling_db =
      (Inr (Fact_Processed (Some Credit_Release)), db') \<and> db_outbox db' = []"
proof -
  let ?o = "loaded (example_db ''stock_reserved'')"
  have f: "find_by_id (example_id 1) example_cancelling_db = Inr (Some ?o)" "o_status ?o = Stock_Reserved" "o_id ?o = example_id 1"
    using example_find [of Stock_Reserved] find_by_id_frame [of example_cancelling_db "example_db ''stock_reserved''"]
    by (simp_all add: example_cancelling_db_def)
  have ok: "orders_db_ok example_cancelling_db"
    using example_db_ok orders_db_ok_frame [of example_cancelling_db "example_db ''stock_reserved''"]
    by (simp add: example_cancelling_db_def)
  have c: "has_accepted_operator_cancel (example_id 1) example_cancelling_db"
    "\<not> list_ex (\<lambda>r. cm_id r = example_id 5) (db_commands example_cancelling_db)"
    "db_outbox example_cancelling_db = []" "db_processed example_cancelling_db = []"
    by code_simp+
  show ?thesis
    using late_credit_approval_is_unwound [of example_cancelling_db "example_fact Credit_Approved_Fact (Raw_P ''x'') 3"
        ?o "example_id 5" 0 "example_id 4" "''t''"] f ok c example_id_canonical
    by (auto simp: late_for_accepted_cancel_def)
qed

end
