(* ===== verification/Cancel_Order.thy ===== *)
theory Cancel_Order
  imports Saga_Facts
begin

text \<open>
  The operator's cancellation (apps/orders/src/application/cancel-order.handler.ts).  The
  handler first reads the order outside any transaction and only then opens one; the two
  database arguments of \<open>execute_cancel\<close> are the database at the read and at the
  transaction, equal when nothing commits in between.  The in-process dispatch of the
  command just enqueued is the handler's last step and is modelled in Saga_Dispatch; the
  result says whether it is requested.
\<close>

datatype planned_release = Plan_Stock_Release | Plan_Credit_Release

datatype cancel_result =
    Cancel_Not_Found
  | Not_Cancellable uid string order_status
  | Compensation_Pending uid string order_status "planned_release list"
  | Cancel_Done uid string "cancellation_reason option"

definition credit_held_statuses :: "order_status set" where
  "credit_held_statuses = {Credit_Approved, Confirmed}"

definition build_triggering_envelope :: "instant \<Rightarrow> uid \<Rightarrow> uid \<Rightarrow> string option \<Rightarrow> envelope" where
  "build_triggering_envelope now oid request note = \<lparr> ev_id = request, ev_type = operator_cancel_event_type,
     ev_aggregate = oid, ev_correlation = oid, ev_causation = request, ev_at = now,
     ev_payload = Cancel_Request_P oid Operator_Cancelled note \<rparr>"

definition enqueue_operator_cancel_command :: "instant \<Rightarrow> enqueue_input \<Rightarrow> orders_db \<Rightarrow> orders_db" where
  "enqueue_operator_cancel_command now inp db = enqueue_command now inp db"

definition begin_stock_release_compensation ::
    "instant \<Rightarrow> uid \<Rightarrow> uid \<Rightarrow> string \<Rightarrow> uid \<Rightarrow> order_number \<Rightarrow> order_status \<Rightarrow> planned_release list \<Rightarrow>
      string option \<Rightarrow> orders_db \<Rightarrow> cancel_result \<times> orders_db" where
  "begin_stock_release_compensation now new_row request topic oid ref st planned note db =
     (let ref_text = (case ref of Order_Number s \<Rightarrow> s);
        db' = enqueue_operator_cancel_command now \<lparr> en_id = new_row, en_order = oid, en_reference = ref,
          en_command = Stock_Release, en_payload = Release_Request ref_text Release_Order_Cancelled,
          en_trigger_id = request, en_trigger = build_triggering_envelope now oid request note,
          en_topic = topic \<rparr> db in
      (Compensation_Pending oid ref_text st planned, db'))"

definition cancel_in_transaction ::
    "instant \<Rightarrow> uid \<Rightarrow> uid \<Rightarrow> uid \<Rightarrow> orders_db \<Rightarrow> handler_error + cancel_result \<times> orders_db" where
  "cancel_in_transaction now causation new_event oid db =
     bindR (mapErr Handler_Store (find_by_id oid db)) (\<lambda>found.
     case found of
       None \<Rightarrow> Inr (Cancel_Not_Found, db)
     | Some ord \<Rightarrow>
       (case cancel_order new_event Operator_Cancelled \<lparr> tc_at = now, tc_causation = causation \<rparr> [] ord of
          Inl (Transition_Not_Allowed i f t) \<Rightarrow>
            Inr (Not_Cancellable (o_id ord) (order_reference_value ord) (o_status ord), db)
        | Inl e \<Rightarrow> Inl (Handler_Saga (Order_Err e))
        | Inr ord' \<Rightarrow> bindR (mapErr Handler_Store (save_order now ord' None db)) (\<lambda>db'.
            Inr (Cancel_Done (o_id ord') (order_reference_value ord') (o_reason ord'), db'))))"

definition execute_cancel ::
    "instant \<Rightarrow> uid \<Rightarrow> uid \<Rightarrow> uid \<Rightarrow> string \<Rightarrow> string \<Rightarrow> string option \<Rightarrow> orders_db \<Rightarrow> orders_db \<Rightarrow>
      (handler_error + cancel_result) \<times> orders_db" where
  "execute_cancel now request new_event new_row topic raw_id note db_read db_tx =
     (case unique_id_from raw_id of
        Inl e \<Rightarrow> (Inl (Handler_Saga (Kernel_Err e)), db_tx)
      | Inr oid \<Rightarrow> (case find_by_id oid db_read of
          Inl e \<Rightarrow> (Inl (Handler_Store e), db_tx)
        | Inr None \<Rightarrow> (Inr Cancel_Not_Found, db_tx)
        | Inr (Some ord) \<Rightarrow>
            if o_status ord \<in> credit_held_statuses then
              (let (r, db') = begin_stock_release_compensation now new_row request topic (o_id ord) (o_reference ord)
                 (o_status ord) [Plan_Stock_Release, Plan_Credit_Release] note db_tx in (Inr r, db'))
            else if o_status ord = Stock_Reserved then
              (let (r, db') = begin_stock_release_compensation now new_row request topic (o_id ord) (o_reference ord)
                 Stock_Reserved [Plan_Stock_Release] note db_tx in (Inr r, db'))
            else unit_of_work (cancel_in_transaction now request new_event oid) db_tx))"

definition requests_dispatch :: "cancel_result \<Rightarrow> bool" where
  "requests_dispatch r = (case r of Compensation_Pending _ _ _ _ \<Rightarrow> True | _ \<Rightarrow> False)"

section \<open>Correctness\<close>

lemma cancel_order_operator:
  assumes "o_events ord = []"
  shows "cancel_order eid Operator_Cancelled ctx [] ord =
    (if cancellable (o_status ord) then Inr (ord \<lparr> o_status := Cancelled, o_reason := Some Operator_Cancelled,
       o_events := [order_cancelled_event eid Operator_Cancelled [] (ord \<lparr> o_status := Cancelled, o_reason := Some Operator_Cancelled \<rparr>) ctx] \<rparr>)
     else Inl (Transition_Not_Allowed (o_id ord) (o_status ord) Cancelled))"
proof -
  have "add_domain_event x (ord \<lparr> o_status := Cancelled, o_reason := Some r \<rparr>) =
      ord \<lparr> o_status := Cancelled, o_reason := Some r, o_events := [x] \<rparr>" for x r
    using assms by (cases ord) (simp add: add_domain_event_def)
  then show ?thesis
    by (simp add: cancel_order_def cancel_order_raw_def transition_to_def find_transition_cancelled Let_def
        reason_of_name_name [of Operator_Cancelled, simplified])
qed

text \<open>What the transaction of the handler does, whatever the status it finds.\<close>

lemma cancel_in_transaction_found:
  assumes ok: "orders_db_ok db" and f: "find_by_id i db = Inr (Some ord)" and ev: "new_event \<notin> outbox_ids db"
  shows "if cancellable (o_status ord)
    then \<exists>db' e. cancel_in_transaction now causation new_event i db =
        Inr (Cancel_Done i (order_reference_value ord) (Some Operator_Cancelled), db') \<and>
      find_by_id i db' = Inr (Some (ord \<lparr> o_status := Cancelled, o_reason := Some Operator_Cancelled \<rparr>)) \<and>
      outbox_envelopes db' = outbox_envelopes db @ [e] \<and> ev_type e = Order_Cancelled \<and>
      (\<exists>p. ev_payload e = Cancelled_P p \<and> cp_steps p = []) \<and>
      db_commands db' = db_commands db \<and> orders_db_ok db'
    else cancel_in_transaction now causation new_event i db =
        Inr (Not_Cancellable i (order_reference_value ord) (o_status ord), db)"
proof -
  note lo = loaded_order [OF ok f]
  let ?ctx = "\<lparr> tc_at = now, tc_causation = causation \<rparr>"
  let ?x = "ord \<lparr> o_status := Cancelled, o_reason := Some Operator_Cancelled \<rparr>"
  let ?e = "order_cancelled_event new_event Operator_Cancelled [] ?x ?ctx"
  have c: "cancel_order new_event Operator_Cancelled ?ctx [] ord = (if cancellable (o_status ord)
      then Inr (ord \<lparr> o_status := Cancelled, o_reason := Some Operator_Cancelled, o_events := [?e] \<rparr>)
      else Inl (Transition_Not_Allowed (o_id ord) (o_status ord) Cancelled))"
    using cancel_order_operator lo by blast
  have e: "ev_type ?e = Order_Cancelled" "ev_id ?e = new_event" "\<exists>p. ev_payload ?e = Cancelled_P p \<and> cp_steps p = []"
    by (simp_all add: order_cancelled_event_def order_event_def)
  show ?thesis
  proof (cases "cancellable (o_status ord)")
    case True
    have "\<exists>db'. save_order now (ord \<lparr> o_status := Cancelled, o_reason := Some Operator_Cancelled, o_events := [?e] \<rparr>) None db = Inr db' \<and>
      find_by_id i db' = Inr (Some ?x) \<and> outbox_envelopes db' = outbox_envelopes db @ [?e] \<and> orders_db_ok db' \<and>
      db_commands db' = db_commands db"
      using save_transition [OF ok f, of "[?e]" "Some Operator_Cancelled" Cancelled now] e ev by auto
    then show ?thesis using True c e lo f
      by (auto simp: cancel_in_transaction_def order_reference_value_def)
  next
    case False
    then show ?thesis using c f lo by (simp add: cancel_in_transaction_def)
  qed
qed

text \<open>C37: An operator's cancellation with no concurrent commit does exactly what saga.md 4.3 tabulates:
  from placed it cancels at once, with one order.cancelled.v1 and no compensation; from
  stock_reserved, credit_approved and confirmed it leaves the order and the outbox alone
  and makes stock.release durably owed, announcing stock before credit; from despatched
  on, or when closed, it is refused and changes nothing.\<close>

theorem operator_cancel_by_status:
  assumes "orders_db_ok db" and "unique_id_from raw_id = Inr i" and "find_by_id i db = Inr (Some ord)"
    and "new_event \<notin> outbox_ids db" and "\<not> list_ex (\<lambda>r. cm_id r = new_row) (db_commands db)"
  shows "\<exists>db'. (case o_status ord of
      Placed \<Rightarrow> execute_cancel now request new_event new_row topic raw_id note db db =
          (Inr (Cancel_Done i (order_reference_value ord) (Some Operator_Cancelled)), db') \<and>
        find_by_id i db' = Inr (Some (ord \<lparr> o_status := Cancelled, o_reason := Some Operator_Cancelled \<rparr>)) \<and>
        (\<exists>e. outbox_envelopes db' = outbox_envelopes db @ [e] \<and> ev_type e = Order_Cancelled) \<and>
        db_commands db' = db_commands db
    | st \<Rightarrow> if st \<in> {Stock_Reserved, Credit_Approved, Confirmed}
        then execute_cancel now request new_event new_row topic raw_id note db db =
            (Inr (Compensation_Pending i (order_reference_value ord) st
               (Plan_Stock_Release # (if st = Stock_Reserved then [] else [Plan_Credit_Release]))), db') \<and>
          db_orders db' = db_orders db \<and> db_outbox db' = db_outbox db \<and>
          find_by_order_and_command i Stock_Release db' \<noteq> None \<and>
          (find_by_order_and_command i Stock_Release db = None \<longrightarrow> has_accepted_operator_cancel i db')
        else execute_cancel now request new_event new_row topic raw_id note db db =
            (Inr (Not_Cancellable i (order_reference_value ord) st), db') \<and> db' = db)"
proof -
  note lo = loaded_order [OF assms(1,3)]
  note tx = cancel_in_transaction_found [OF assms(1,3,4), of now request]
  let ?inp = "\<lparr> en_id = new_row, en_order = i, en_reference = o_reference ord, en_command = Stock_Release,
      en_payload = Release_Request (order_reference_value ord) Release_Order_Cancelled, en_trigger_id = request,
      en_trigger = build_triggering_envelope now i request note, en_topic = topic \<rparr>"
  have unused: "command_unused ?inp db" using assms(5) by (simp add: command_unused_def)
  have owed: "find_by_order_and_command i Stock_Release (enqueue_command now ?inp db) \<noteq> None"
    using unused by (intro orders_commands.enqueued_is_owed) simp_all
  have accepted: "find_by_order_and_command i Stock_Release db = None \<longrightarrow>
      has_accepted_operator_cancel i (enqueue_command now ?inp db)"
  proof
    assume n: "find_by_order_and_command i Stock_Release db = None"
    then have "enqueue_command now ?inp db = db \<lparr> db_commands := db_commands db @ [new_command_row now ?inp] \<rparr>"
      using unused by (auto simp: enqueue_command_def command_unused_def find_by_order_and_command_def find_None_list_ex list_ex_iff)
    then show "has_accepted_operator_cancel i (enqueue_command now ?inp db)"
      by (simp add: has_accepted_operator_cancel_def new_command_row_def is_operator_cancel_envelope_def
          build_triggering_envelope_def)
  qed
  have pending: "execute_cancel now request new_event new_row topic raw_id note db db =
      (Inr (Compensation_Pending i (order_reference_value ord) (o_status ord)
        (Plan_Stock_Release # (if o_status ord = Stock_Reserved then [] else [Plan_Credit_Release]))),
       enqueue_command now ?inp db)"
    if "o_status ord \<in> {Stock_Reserved, Credit_Approved, Confirmed}"
    using that assms(2,3) lo
    by (auto simp: execute_cancel_def credit_held_statuses_def begin_stock_release_compensation_def
        enqueue_operator_cancel_command_def order_reference_value_def Let_def)
  have direct: "execute_cancel now request new_event new_row topic raw_id note db db =
      unit_of_work (cancel_in_transaction now request new_event i) db"
    if "o_status ord \<notin> {Stock_Reserved, Credit_Approved, Confirmed}"
    using that assms(2,3) by (simp add: execute_cancel_def credit_held_statuses_def)
  show ?thesis
  proof (cases "o_status ord \<in> {Stock_Reserved, Credit_Approved, Confirmed}")
    case True
    note p = pending [OF True]
    show ?thesis
      by (rule exI [of _ "enqueue_command now ?inp db"])
        (use True p owed accepted in \<open>elim insertE emptyE; simp\<close>)
  next
    case False
    note d = direct [OF False]
    show ?thesis
    proof (cases "o_status ord")
      case Placed
      with tx d show ?thesis by (auto simp: unit_of_work_def cancellable_def)
    qed (use False tx d in \<open>simp_all add: unit_of_work_def cancellable_def\<close>)
  qed
qed

text \<open>C38: The read the handler decides on is not repeated under the transaction: when the order was
  placed at the read and its stock was reserved (or its credit held) before the
  transaction, the order is cancelled on the spot with an empty list of compensation steps, and the call adds
  nothing to the owed commands: no stock.release comes from it, and the reservation stays behind.\<close>

theorem operator_cancel_race_leaks_reservation:
  assumes "orders_db_ok db_tx" and "unique_id_from raw_id = Inr i"
    and "find_by_id i db_read = Inr (Some seen)" and "o_status seen = Placed"
    and "find_by_id i db_tx = Inr (Some ord)" and "o_status ord \<in> {Stock_Reserved, Credit_Approved, Confirmed}"
    and "new_event \<notin> outbox_ids db_tx"
  shows "\<exists>db' e. execute_cancel now request new_event new_row topic raw_id note db_read db_tx =
      (Inr (Cancel_Done i (order_reference_value ord) (Some Operator_Cancelled)), db') \<and>
    find_by_id i db' = Inr (Some (ord \<lparr> o_status := Cancelled, o_reason := Some Operator_Cancelled \<rparr>)) \<and>
    outbox_envelopes db' = outbox_envelopes db_tx @ [e] \<and> (\<exists>p. ev_payload e = Cancelled_P p \<and> cp_steps p = []) \<and>
    db_commands db' = db_commands db_tx"
proof -
  have "execute_cancel now request new_event new_row topic raw_id note db_read db_tx =
      unit_of_work (cancel_in_transaction now request new_event i) db_tx"
    using assms(2,3,4) by (simp add: execute_cancel_def credit_held_statuses_def)
  moreover have "cancellable (o_status ord)" using assms(6) by (auto simp: cancellable_def)
  ultimately show ?thesis
    using cancel_in_transaction_found [OF assms(1,5,7), of now request] by (auto simp: unit_of_work_def)
qed

end
