(* ===== verification/Cancel_Examples.thy ===== *)
theory Cancel_Examples
  imports Cancel_Order Saga_Examples
begin

text \<open>Concrete operator cancellations, on the database of Saga_Examples.\<close>

lemma example_id_accepted: "unique_id_from (example_id 1) = Inr (example_id 1)"
  by code_simp

lemma operator_cancel_by_status_witness:
  "\<exists>db'. execute_cancel 0 (example_id 4) (example_id 5) (example_id 6) ''t'' (example_id 1) None
      (example_db ''stock_reserved'') (example_db ''stock_reserved'') =
      (Inr (Compensation_Pending (example_id 1) (order_reference_value (loaded (example_db ''stock_reserved'')))
        Stock_Reserved [Plan_Stock_Release]), db') \<and> db_outbox db' = [] \<and>
    find_by_order_and_command (example_id 1) Stock_Release db' \<noteq> None"
proof -
  have f: "find_by_id (example_id 1) (example_db ''stock_reserved'') = Inr (Some (loaded (example_db ''stock_reserved'')))"
    "o_status (loaded (example_db ''stock_reserved'')) = Stock_Reserved"
    using example_find [of Stock_Reserved] by simp_all
  show ?thesis
    using operator_cancel_by_status [of "example_db ''stock_reserved''" "example_id 1" "example_id 1"
        "loaded (example_db ''stock_reserved'')" "example_id 5" "example_id 6" 0 "example_id 4" "''t''" None]
      f example_db_ok example_id_accepted
    by auto
qed

lemma operator_cancel_race_leaks_reservation_witness:
  "\<exists>db'. execute_cancel 0 (example_id 4) (example_id 5) (example_id 6) ''t'' (example_id 1) None
      (example_db ''placed'') (example_db ''stock_reserved'') =
      (Inr (Cancel_Done (example_id 1) (order_reference_value (loaded (example_db ''stock_reserved'')))
        (Some Operator_Cancelled)), db') \<and> db_commands db' = []"
proof -
  have f: "find_by_id (example_id 1) (example_db ''stock_reserved'') = Inr (Some (loaded (example_db ''stock_reserved'')))"
    "o_status (loaded (example_db ''stock_reserved'')) = Stock_Reserved"
    "find_by_id (example_id 1) (example_db ''placed'') = Inr (Some (loaded (example_db ''placed'')))"
    "o_status (loaded (example_db ''placed'')) = Placed"
    using example_find [of Stock_Reserved] example_find [of Placed] by simp_all
  show ?thesis
    using operator_cancel_race_leaks_reservation [of "example_db ''stock_reserved''" "example_id 1" "example_id 1"
        "example_db ''placed''" "loaded (example_db ''placed'')" "loaded (example_db ''stock_reserved'')"
        "example_id 5" 0 "example_id 4" "example_id 6" "''t''" None]
      f example_db_ok example_id_accepted
    by auto
qed

end
