(* ===== verification/Saga_Dispatch.thy ===== *)
theory Saga_Dispatch
  imports Saga_Facts
begin

text \<open>
  The dispatcher of owed saga commands (apps/orders/src/infrastructure/saga/
  saga-command-dispatcher.ts, saga-command-sweeper.service.ts and
  saga-first-park-dead-letter-handler.ts).  The replies of the remote services, the broker
  and what other sessions do to the command store while an attempt is under way are the
  dispatcher's world: \<open>dw_call\<close> gives the reply to each attempt and \<open>dw_others\<close> the store
  operations other sessions commit before the reply is handled.  The store is reached through
  \<open>store_op\<close>, one constructor per method of the port that writes.  At least one attempt is
  configured; the database itself never fails.
\<close>

section \<open>The writes of the command store\<close>

datatype store_op =
    Enqueue_Op instant enqueue_input
  | Mark_Sent_Op instant uid
  | Park_Op instant uid nat string instant
  | Reject_Op instant uid nat string
  | Claim_Dead_Letter_Op instant uid

primrec apply_store_op :: "store_op \<Rightarrow> orders_db \<Rightarrow> bool \<times> orders_db" where
  "apply_store_op (Enqueue_Op now inp) db = (True, enqueue_command now inp db)"
| "apply_store_op (Mark_Sent_Op now i) db = mark_sent now i db"
| "apply_store_op (Park_Op now i att err next_at) db = park_command now i att err next_at db"
| "apply_store_op (Reject_Op now i att err) db = mark_rejected now i att err db"
| "apply_store_op (Claim_Dead_Letter_Op now i) db = claim_dead_letter now i db"

definition run_store :: "store_op list \<Rightarrow> orders_db \<Rightarrow> orders_db" where
  "run_store ops db = fold (\<lambda>p d. snd (apply_store_op p d)) ops db"

section \<open>The dispatcher\<close>

primrec command_name :: "saga_command_kind \<Rightarrow> string" where
  "command_name Stock_Reserve = ''stock.reserve''"
| "command_name Stock_Release = ''stock.release''"
| "command_name Despatch_Create = ''despatch.create''"
| "command_name Credit_Hold = ''credit.hold''"
| "command_name Invoice_Issue = ''invoice.issue''"
| "command_name Credit_Release = ''credit.release''"

record dispatcher_config =
  dc_max_attempts :: nat
  dc_backoff_base :: nat
  dc_park_cap :: nat

definition default_dispatcher_config :: dispatcher_config where
  "default_dispatcher_config = \<lparr> dc_max_attempts = 3, dc_backoff_base = 500, dc_park_cap = 900000 \<rparr>"

datatype call_outcome = Call_Ok | Call_Rejected string | Call_Failed string

record dispatch_world =
  dw_call :: "nat \<Rightarrow> call_outcome"
  dw_others :: "nat \<Rightarrow> store_op list"
  dw_now :: instant
  dw_event :: uid
  dw_broker_up :: bool

record issued_call =
  ic_command :: saga_command_kind
  ic_payload :: command_payload
  ic_correlation :: uid
  ic_request :: uid

record dead_letter =
  dl_topic :: string
  dl_envelope :: "envelope option"
  dl_attempts :: nat
  dl_error :: string
  dl_row :: uid

datatype dispatch_outcome = Outcome_Sent | Outcome_Parked | Outcome_Rejected | Outcome_Noop

datatype dispatch_error = Broker_Unavailable | First_Park_Store store_error

record dispatch_report =
  dr_result :: "dispatch_error + dispatch_outcome"
  dr_calls :: "issued_call list"
  dr_delays :: "nat list"
  dr_letters :: "dead_letter list"

datatype loop_end = Loop_Sent | Loop_Rejected | Loop_Exhausted string

primrec attempt_loop ::
    "dispatcher_config \<Rightarrow> dispatch_world \<Rightarrow> command_row \<Rightarrow> issued_call \<Rightarrow> nat \<Rightarrow> nat \<Rightarrow> string \<Rightarrow> orders_db \<Rightarrow>
      loop_end \<times> issued_call list \<times> nat list \<times> orders_db" where
  "attempt_loop cfg w row c 0 k err db = (Loop_Exhausted err, [], [], db)"
| "attempt_loop cfg w row c (Suc n) k err db =
     (let db1 = run_store (dw_others w k) db in
      case dw_call w k of
        Call_Ok \<Rightarrow> (Loop_Sent, [c], [], snd (mark_sent (dw_now w) (cm_id row) db1))
      | Call_Rejected m \<Rightarrow>
          (Loop_Rejected, [c], [], snd (mark_rejected (dw_now w) (cm_id row) (cm_attempts row + k) m db1))
      | Call_Failed m \<Rightarrow>
          (let (r, cs, ds, db2) = attempt_loop cfg w row c n (Suc k) m db1 in
           (r, c # cs, (if n = 0 then ds else dc_backoff_base cfg * 2 ^ (k - 1) # ds), db2)))"

definition park_backoff :: "dispatcher_config \<Rightarrow> nat \<Rightarrow> nat" where
  "park_backoff cfg n_att = min (30000 * 2 ^ (n_att div dc_max_attempts cfg - 1)) (dc_park_cap cfg)"

definition record_failure_work ::
    "dispatch_world \<Rightarrow> command_row \<Rightarrow> nat \<Rightarrow> string \<Rightarrow> orders_db \<Rightarrow> store_error + unit \<times> orders_db" where
  "record_failure_work w row att err db =
     bindR (find_by_id (cm_order row) db) (\<lambda>found.
     case found of
       None \<Rightarrow> Inr ((), db)
     | Some ord \<Rightarrow>
         bindR (save_order (dw_now w) (record_saga_failure (dw_event w)
             \<lparr> sf_command = command_name (cm_command row), sf_attempts = att, sf_last_error = err \<rparr>
             \<lparr> tc_at = dw_now w, tc_causation = cm_trigger_id row \<rparr> ord) None db) (\<lambda>db'.
         Inr ((), db')))"

definition on_first_park ::
    "dispatch_world \<Rightarrow> command_row \<Rightarrow> nat \<Rightarrow> string \<Rightarrow> orders_db \<Rightarrow>
      (dispatch_error + unit) \<times> dead_letter list \<times> orders_db" where
  "on_first_park w row att err db =
     (if \<not> dw_broker_up w then (Inl Broker_Unavailable, [], db)
      else (case unit_of_work (record_failure_work w row att err) db of
          (Inl e, db') \<Rightarrow> (Inl (First_Park_Store e),
             [\<lparr> dl_topic = cm_topic row, dl_envelope = cm_trigger row, dl_attempts = att, dl_error = err, dl_row = cm_id row \<rparr>], db')
        | (Inr u, db') \<Rightarrow> (Inr u,
             [\<lparr> dl_topic = cm_topic row, dl_envelope = cm_trigger row, dl_attempts = att, dl_error = err, dl_row = cm_id row \<rparr>], db')))"

definition dispatch_command ::
    "dispatcher_config \<Rightarrow> dispatch_world \<Rightarrow> uid \<Rightarrow> saga_command_kind \<Rightarrow> orders_db \<Rightarrow> dispatch_report \<times> orders_db" where
  "dispatch_command cfg w oid k db =
     (case find_by_order_and_command oid k db of
        None \<Rightarrow> (\<lparr> dr_result = Inr Outcome_Noop, dr_calls = [], dr_delays = [], dr_letters = [] \<rparr>, db)
      | Some row \<Rightarrow>
        if cm_status row = Sent
        then (\<lparr> dr_result = Inr Outcome_Noop, dr_calls = [], dr_delays = [], dr_letters = [] \<rparr>, db)
        else
          (let c = \<lparr> ic_command = k, ic_payload = cm_payload row, ic_correlation = oid, ic_request = cm_id row \<rparr>;
               (r, cs, ds, db1) = attempt_loop cfg w row c (dc_max_attempts cfg) 1 [] db in
           case r of
             Loop_Sent \<Rightarrow> (\<lparr> dr_result = Inr Outcome_Sent, dr_calls = cs, dr_delays = ds, dr_letters = [] \<rparr>, db1)
           | Loop_Rejected \<Rightarrow> (\<lparr> dr_result = Inr Outcome_Rejected, dr_calls = cs, dr_delays = ds, dr_letters = [] \<rparr>, db1)
           | Loop_Exhausted err \<Rightarrow>
               (let n_att = cm_attempts row + dc_max_attempts cfg;
                    (parked, db2) = park_command (dw_now w) (cm_id row) n_att err
                      (dw_now w + int (park_backoff cfg n_att)) db1 in
                if \<not> parked then (\<lparr> dr_result = Inr Outcome_Parked, dr_calls = cs, dr_delays = ds, dr_letters = [] \<rparr>, db2)
                else (let (claimed, db3) = claim_dead_letter (dw_now w) (cm_id row) db2 in
                  if \<not> claimed then (\<lparr> dr_result = Inr Outcome_Parked, dr_calls = cs, dr_delays = ds, dr_letters = [] \<rparr>, db3)
                  else (let (res, letters, db4) = on_first_park w row n_att err db3 in
                    (\<lparr> dr_result = (case res of Inl e \<Rightarrow> Inl e | Inr _ \<Rightarrow> Inr Outcome_Parked),
                       dr_calls = cs, dr_delays = ds, dr_letters = letters \<rparr>, db4))))))"

section \<open>The sweeper\<close>

record sweeper_config =
  sw_pending_grace :: int
  sw_batch_limit :: nat

primrec sweep_rows ::
    "dispatcher_config \<Rightarrow> (command_row \<Rightarrow> dispatch_world) \<Rightarrow> command_row list \<Rightarrow> orders_db \<Rightarrow>
      dispatch_report list \<times> orders_db" where
  "sweep_rows cfg ws [] db = ([], db)"
| "sweep_rows cfg ws (row # rows) db =
     (let (rep, db1) = dispatch_command cfg (ws row) (cm_order row) (cm_command row) db;
          (reps, db2) = sweep_rows cfg ws rows db1 in
      (rep # reps, db2))"

definition sweep_cycle ::
    "dispatcher_config \<Rightarrow> sweeper_config \<Rightarrow> (uid \<Rightarrow> bool) \<Rightarrow> instant \<Rightarrow> (command_row \<Rightarrow> dispatch_world) \<Rightarrow> orders_db \<Rightarrow>
      dispatch_report list \<times> orders_db" where
  "sweep_cycle cfg sw locked now ws db =
     sweep_rows cfg ws (claim_due locked now (sw_batch_limit sw) (sw_pending_grace sw) db) db"

section \<open>Any interleaving of the store's writes\<close>

definition commands_ok :: "orders_db \<Rightarrow> bool" where
  "commands_ok db \<longleftrightarrow> distinct (map cm_id (db_commands db)) \<and>
     distinct (map (\<lambda>r. (cm_order r, cm_command r)) (db_commands db))"

definition row_is :: "(command_row \<Rightarrow> bool) \<Rightarrow> uid \<Rightarrow> orders_db \<Rightarrow> bool" where
  "row_is P i db \<longleftrightarrow> list_ex (\<lambda>r. cm_id r = i \<and> P r) (db_commands db)"

abbreviation sent_row :: "uid \<Rightarrow> orders_db \<Rightarrow> bool" where
  "sent_row \<equiv> row_is (\<lambda>r. cm_status r = Sent)"

abbreviation dead_lettered_row :: "uid \<Rightarrow> orders_db \<Rightarrow> bool" where
  "dead_lettered_row \<equiv> row_is (\<lambda>r. cm_dead_lettered r \<noteq> None)"

lemma update_commands_frame [simp]:
  "db_orders (snd (update_commands c f db)) = db_orders db" "db_items (snd (update_commands c f db)) = db_items db"
  "db_reference (snd (update_commands c f db)) = db_reference db" "db_outbox (snd (update_commands c f db)) = db_outbox db"
  "db_processed (snd (update_commands c f db)) = db_processed db" "db_ignored (snd (update_commands c f db)) = db_ignored db"
  by (simp_all add: update_commands_def)

lemma update_commands_ok:
  assumes "commands_ok db" "\<And>r. cm_id (f r) = cm_id r \<and> cm_order (f r) = cm_order r \<and> cm_command (f r) = cm_command r"
  shows "commands_ok (snd (update_commands c f db))"
proof -
  have "map cm_id (map (\<lambda>r. if c r then f r else r) rs) = map cm_id rs"
    "map (\<lambda>r. (cm_order r, cm_command r)) (map (\<lambda>r. if c r then f r else r) rs) = map (\<lambda>r. (cm_order r, cm_command r)) rs" for rs
    using assms(2) by (induction rs) auto
  then show ?thesis using assms(1) by (simp add: commands_ok_def update_commands_def del: map_map)
qed

lemma update_commands_row_is:
  assumes "row_is P i db" "\<And>r. c r \<Longrightarrow> P r \<Longrightarrow> P (f r) \<and> cm_id (f r) = cm_id r"
  shows "row_is P i (snd (update_commands c f db))"
  using assms by (auto simp: row_is_def update_commands_def list_ex_iff image_iff)

lemmas store_updates = mark_sent_def park_command_def mark_rejected_def claim_dead_letter_def

lemma enqueue_ok: "commands_ok db \<Longrightarrow> commands_ok (enqueue_command now inp db)"
  by (auto simp: commands_ok_def enqueue_command_def new_command_row_def list_ex_iff)

lemma enqueue_row_is: "row_is P i db \<Longrightarrow> row_is P i (enqueue_command now inp db)"
  by (auto simp: row_is_def enqueue_command_def)

lemma apply_store_op_ok: "commands_ok db \<Longrightarrow> commands_ok (snd (apply_store_op p db))"
  by (cases p) (auto simp: store_updates enqueue_ok intro!: update_commands_ok)

lemma apply_store_op_keeps:
  "sent_row i db \<Longrightarrow> sent_row i (snd (apply_store_op p db))"
  "dead_lettered_row i db \<Longrightarrow> dead_lettered_row i (snd (apply_store_op p db))"
  by (cases p; auto simp: store_updates enqueue_row_is intro!: update_commands_row_is)+

lemma run_store_simps [simp]:
  "run_store [] db = db" "run_store (p # ps) db = run_store ps (snd (apply_store_op p db))"
  "run_store (ps @ qs) db = run_store qs (run_store ps db)"
  by (simp_all add: run_store_def)

lemma run_store_invariant:
  assumes "P db" "\<And>p d. P d \<Longrightarrow> P (snd (apply_store_op p d))"
  shows "P (run_store ops db)"
  using assms by (induction ops arbitrary: db) auto

lemma run_store_ok: "commands_ok db \<Longrightarrow> commands_ok (run_store ops db)"
  by (erule run_store_invariant) (rule apply_store_op_ok)

lemma run_store_keeps:
  "sent_row i db \<Longrightarrow> sent_row i (run_store ops db)"
  "dead_lettered_row i db \<Longrightarrow> dead_lettered_row i (run_store ops db)"
  by (erule run_store_invariant, erule apply_store_op_keeps)+

lemma apply_store_op_frame:
  "db_orders (snd (apply_store_op p db)) = db_orders db \<and> db_items (snd (apply_store_op p db)) = db_items db \<and>
   db_reference (snd (apply_store_op p db)) = db_reference db \<and> db_outbox (snd (apply_store_op p db)) = db_outbox db"
  by (cases p) (simp_all add: store_updates)

lemma run_store_frame:
  "db_orders (run_store ops db) = db_orders db \<and> db_items (run_store ops db) = db_items db \<and>
   db_reference (run_store ops db) = db_reference db \<and> db_outbox (run_store ops db) = db_outbox db"
  by (induction ops arbitrary: db) (simp_all add: apply_store_op_frame)

section \<open>One dispatch\<close>

text \<open>An attempt loop writes the store only through its operations, and repeats one call.\<close>

lemma attempt_loop_shape:
  assumes "attempt_loop cfg w row c m k err db = (r, cs, ds, db')" "0 < m" "0 < k"
  shows "\<exists>n ops. 0 < n \<and> n \<le> m \<and> cs = replicate n c \<and>
    ds = map (\<lambda>j. dc_backoff_base cfg * 2 ^ (j - 1)) [k..<k + n - 1] \<and> db' = run_store ops db"
  using assms
proof (induction m arbitrary: k err db r cs ds db')
  case (Suc m)
  let ?d = "run_store (dw_others w k) db"
  have one: ?case if "cs = [c]" "ds = []" "db' = run_store ops db" for ops
    using that by (intro exI [of _ "Suc 0"] exI [of _ ops]) auto
  show ?case
  proof (cases "dw_call w k")
    case Call_Ok
    then have "db' = run_store (dw_others w k @ [Mark_Sent_Op (dw_now w) (cm_id row)]) db" "cs = [c]" "ds = []"
      using Suc.prems by (auto simp: Let_def)
    then show ?thesis by (intro one)
  next
    case (Call_Rejected e)
    then have "db' = run_store (dw_others w k @ [Reject_Op (dw_now w) (cm_id row) (cm_attempts row + k) e]) db" "cs = [c]" "ds = []"
      using Suc.prems by (auto simp: Let_def)
    then show ?thesis by (intro one)
  next
    case (Call_Failed e)
    obtain r' cs' ds' db2 where rest: "attempt_loop cfg w row c m (Suc k) e ?d = (r', cs', ds', db2)"
      by (metis prod_cases4)
    have eqs: "cs = c # cs'" "ds = (if m = 0 then ds' else dc_backoff_base cfg * 2 ^ (k - 1) # ds')" "db' = db2"
      using Suc.prems Call_Failed rest by (auto simp: Let_def)
    show ?thesis
    proof (cases "m = 0")
      case True
      then have "db' = run_store (dw_others w k) db" "cs = [c]" "ds = []" using eqs rest by auto
      then show ?thesis by (intro one)
    next
      case False
      then obtain n ops where ih: "0 < n" "n \<le> m" "cs' = replicate n c"
        "ds' = map (\<lambda>j. dc_backoff_base cfg * 2 ^ (j - 1)) [Suc k..<Suc k + n - 1]" "db2 = run_store ops ?d"
        using Suc.IH [OF rest] by blast
      have "[k..<k + Suc n - 1] = k # [Suc k..<Suc k + n - 1]" using ih(1) by (simp add: upt_rec)
      then have "0 < Suc n \<and> Suc n \<le> Suc m \<and> cs = replicate (Suc n) c \<and>
          ds = map (\<lambda>j. dc_backoff_base cfg * 2 ^ (j - 1)) [k..<k + Suc n - 1] \<and>
          db' = run_store (dw_others w k @ ops) db"
        using eqs ih False by (simp only: list.map run_store_simps) auto
      then show ?thesis by blast
    qed
  qed
qed simp

lemma save_order_commands: "save_order now ord req db = Inr db' \<Longrightarrow> db_commands db' = db_commands db"
  by (auto simp: save_order_def Let_def bindR_Inr insert_order_row_def update_order_row_def upsert_items_def
      dest!: record_outbox_Inr split: prod.splits if_splits)

lemma record_failure_commands:
  "record_failure_work w row att err db = Inr (u, db') \<Longrightarrow> db_commands db' = db_commands db"
  by (auto simp: record_failure_work_def bindR_Inr save_order_commands split: option.splits)

lemma on_first_park_shape:
  assumes "on_first_park w row att err db = (res, letters, db')"
  shows "db_commands db' = db_commands db \<and> length letters \<le> Suc 0 \<and> (\<forall>l\<in>set letters. dl_row l = cm_id row)"
  using assms record_failure_commands
  by (fastforce simp: on_first_park_def unit_of_work_def split: if_splits sum.splits prod.splits)

lemma row_is_frame: "db_commands db' = db_commands db \<Longrightarrow> row_is P i db' = row_is P i db"
  by (simp add: row_is_def)

lemma commands_ok_frame: "db_commands db' = db_commands db \<Longrightarrow> commands_ok db' = commands_ok db"
  by (simp add: commands_ok_def)

lemma commands_ok_unique:
  "\<lbrakk> commands_ok db; x \<in> set (db_commands db); y \<in> set (db_commands db); cm_id x = cm_id y \<rbrakk> \<Longrightarrow> x = y"
  by (auto simp: commands_ok_def distinct_map dest: inj_onD)

lemma claim_dead_letter_effect:
  assumes "commands_ok db" "claim_dead_letter now i db = (True, db')"
  shows "\<not> dead_lettered_row i db \<and> dead_lettered_row i db'"
proof -
  obtain r where r: "r \<in> set (db_commands db)" "cm_id r = i" "cm_dead_lettered r = None"
    using assms(2) by (auto simp: claim_dead_letter_def update_commands_def list_ex_iff)
  have "x = r" if "x \<in> set (db_commands db)" "cm_id x = i" for x
    using commands_ok_unique [OF assms(1) that(1) r(1)] that(2) r(2) by simp
  then have "\<not> dead_lettered_row i db" using r(3) by (auto simp: row_is_def list_ex_iff)
  moreover have "r \<lparr> cm_dead_lettered := Some (stored_datetime now) \<rparr> \<in> set (db_commands db')"
    using assms(2) r by (auto simp: claim_dead_letter_def update_commands_def image_iff intro!: bexI [of _ r])
  then have "dead_lettered_row i db'"
    using r(2) unfolding row_is_def list_ex_iff by (intro bexI) auto
  ultimately show ?thesis ..
qed

text \<open>What every dispatch guarantees of the store, whatever the replies and whatever other
  sessions write meanwhile.\<close>

definition letters_for :: "uid \<Rightarrow> dispatch_report \<Rightarrow> nat" where
  "letters_for i rep = length (filter (\<lambda>l. dl_row l = i) (dr_letters rep))"

lemma dispatch_store:
  assumes "dispatch_command cfg w oid k db = (rep, db')" "0 < dc_max_attempts cfg" "commands_ok db"
  shows "commands_ok db'" and "sent_row i db \<Longrightarrow> sent_row i db'"
    and "dead_lettered_row i db \<Longrightarrow> dead_lettered_row i db' \<and> letters_for i rep = 0"
    and "letters_for i rep \<noteq> 0 \<Longrightarrow> letters_for i rep = 1 \<and> dead_lettered_row i db'"
proof -
  have "commands_ok db' \<and> (sent_row i db \<longrightarrow> sent_row i db') \<and>
    (dead_lettered_row i db \<longrightarrow> dead_lettered_row i db' \<and> letters_for i rep = 0) \<and>
    (letters_for i rep \<noteq> 0 \<longrightarrow> letters_for i rep = 1 \<and> dead_lettered_row i db')" (is "?ok db' rep")
  proof (cases "find_by_order_and_command oid k db")
    case None
    then show ?thesis using assms by (auto simp: dispatch_command_def letters_for_def)
  next
    case (Some row)
    let ?c = "\<lparr> ic_command = k, ic_payload = cm_payload row, ic_correlation = oid, ic_request = cm_id row \<rparr>"
    show ?thesis
    proof (cases "cm_status row = Sent")
      case True
      then show ?thesis using assms Some by (auto simp: dispatch_command_def letters_for_def)
    next
      case False
      obtain r cs ds db1 where l: "attempt_loop cfg w row ?c (dc_max_attempts cfg) 1 [] db = (r, cs, ds, db1)"
        by (metis prod_cases4)
      obtain ops where ops: "db1 = run_store ops db"
        using attempt_loop_shape [OF l assms(2)] by auto
      have ok1: "commands_ok db1" and sent1: "sent_row i db \<longrightarrow> sent_row i db1"
        and dead1: "dead_lettered_row i db \<longrightarrow> dead_lettered_row i db1"
        using ops assms(3) run_store_ok run_store_keeps by auto
      have quiet: "?ok d rep" if "d = run_store ps db1" "dr_letters rep = []" for d ps
        using that ok1 sent1 dead1 run_store_ok run_store_keeps by (auto simp: letters_for_def)
      show ?thesis
      proof (cases r)
        case (Loop_Exhausted err)
        let ?n = "cm_attempts row + dc_max_attempts cfg"
        let ?next = "dw_now w + int (park_backoff cfg ?n)"
        obtain p db2 where p: "park_command (dw_now w) (cm_id row) ?n err ?next db1 = (p, db2)" by (metis prod.collapse)
        obtain q db3 where q: "claim_dead_letter (dw_now w) (cm_id row) db2 = (q, db3)" by (metis prod.collapse)
        obtain res ls db4 where f: "on_first_park w row ?n err db3 = (res, ls, db4)" by (metis prod_cases3)
        have db2: "db2 = run_store [Park_Op (dw_now w) (cm_id row) ?n err ?next] db1" using p by simp
        have db3: "db3 = run_store [Park_Op (dw_now w) (cm_id row) ?n err ?next, Claim_Dead_Letter_Op (dw_now w) (cm_id row)] db1"
          using p q by simp
        have d: "(rep, db') = (if \<not> p then (\<lparr> dr_result = Inr Outcome_Parked, dr_calls = cs, dr_delays = ds, dr_letters = [] \<rparr>, db2)
            else if \<not> q then (\<lparr> dr_result = Inr Outcome_Parked, dr_calls = cs, dr_delays = ds, dr_letters = [] \<rparr>, db3)
            else (\<lparr> dr_result = (case res of Inl e \<Rightarrow> Inl e | Inr _ \<Rightarrow> Inr Outcome_Parked),
                dr_calls = cs, dr_delays = ds, dr_letters = ls \<rparr>, db4))"
          using assms(1) Some False l Loop_Exhausted p q f
          by (cases p; cases q) (auto simp: dispatch_command_def Let_def)
        show ?thesis
        proof (cases "p \<and> q")
          case True
          note ok2 = run_store_ok [OF ok1, of "[Park_Op (dw_now w) (cm_id row) ?n err ?next]", folded db2]
          note ok3 = run_store_ok [OF ok1, of "[Park_Op (dw_now w) (cm_id row) ?n err ?next, Claim_Dead_Letter_Op (dw_now w) (cm_id row)]", folded db3]
          note keeps2 = run_store_keeps [of i db1 "[Park_Op (dw_now w) (cm_id row) ?n err ?next]", folded db2]
          note keeps3 = run_store_keeps [of i db1 "[Park_Op (dw_now w) (cm_id row) ?n err ?next, Claim_Dead_Letter_Op (dw_now w) (cm_id row)]", folded db3]
          have claim: "\<not> dead_lettered_row (cm_id row) db2 \<and> dead_lettered_row (cm_id row) db3"
            using claim_dead_letter_effect [OF ok2, of "dw_now w" "cm_id row" db3] q True by auto
          have fp: "db_commands db4 = db_commands db3" "ls \<noteq> [] \<Longrightarrow> length ls = 1" "\<forall>l\<in>set ls. dl_row l = cm_id row"
            using on_first_park_shape [OF f] by (auto simp: le_Suc_eq)
          have rep: "dr_letters rep = ls" "db' = db4" using d True by auto
          have cnt: "letters_for i rep = (if i = cm_id row then length ls else 0)"
            using fp(3) unfolding letters_for_def rep by (auto simp: filter_empty_conv)
          have "dead_lettered_row i db \<longrightarrow> dead_lettered_row i db2 \<and> dead_lettered_row i db3"
            using dead1 keeps2(2) keeps3(2) by blast
          then show ?thesis
            using cnt claim fp(2) sent1 ok3 keeps3(1) rep
            by (auto simp: row_is_frame [OF fp(1)] commands_ok_frame [OF fp(1)])
        next
          case False
          then have "dr_letters rep = []" "db' = db2 \<or> db' = db3" using d by (auto split: if_splits)
          then show ?thesis using quiet db2 db3 by blast
        qed
      qed (use assms(1) Some False l quiet [of db1 "[]"] in \<open>auto simp: dispatch_command_def\<close>)
    qed
  qed
  then show "commands_ok db'" and "sent_row i db \<Longrightarrow> sent_row i db'"
    and "dead_lettered_row i db \<Longrightarrow> dead_lettered_row i db' \<and> letters_for i rep = 0"
    and "letters_for i rep \<noteq> 0 \<Longrightarrow> letters_for i rep = 1 \<and> dead_lettered_row i db'"
    by blast+
qed

section \<open>Dispatching again and again\<close>

record dispatch_request =
  rq_world :: dispatch_world
  rq_order :: uid
  rq_command :: saga_command_kind

primrec dispatch_series :: "dispatcher_config \<Rightarrow> dispatch_request list \<Rightarrow> orders_db \<Rightarrow> dispatch_report list \<times> orders_db" where
  "dispatch_series cfg [] db = ([], db)"
| "dispatch_series cfg (q # qs) db =
     (let (rep, db1) = dispatch_command cfg (rq_world q) (rq_order q) (rq_command q) db;
          (reps, db2) = dispatch_series cfg qs db1 in
      (rep # reps, db2))"

lemma dispatch_series_store:
  assumes "dispatch_series cfg qs db = (reps, db')" "0 < dc_max_attempts cfg" "commands_ok db"
  shows "commands_ok db' \<and> (sent_row i db \<longrightarrow> sent_row i db') \<and>
    (dead_lettered_row i db \<longrightarrow> sum_list (map (letters_for i) reps) = 0) \<and>
    sum_list (map (letters_for i) reps) \<le> 1"
  using assms
proof (induction qs arbitrary: db reps)
  case (Cons q qs)
  obtain rep db1 where d: "dispatch_command cfg (rq_world q) (rq_order q) (rq_command q) db = (rep, db1)"
    by (metis prod.collapse)
  obtain reps' db2 where s: "dispatch_series cfg qs db1 = (reps', db2)" by (metis prod.collapse)
  have eqs: "reps = rep # reps'" "db' = db2" using Cons.prems(1) d s by auto
  note ok = dispatch_store(1) [OF d Cons.prems(2,3)]
  note one = dispatch_store(2-4) [OF d Cons.prems(2,3), of i]
  have rest: "commands_ok db2" "sent_row i db1 \<longrightarrow> sent_row i db2"
    "dead_lettered_row i db1 \<longrightarrow> sum_list (map (letters_for i) reps') = 0"
    "sum_list (map (letters_for i) reps') \<le> 1"
    using Cons.IH [of db1 reps'] s ok Cons.prems(2) eqs(2) by auto
  show ?case using one rest eqs by (cases "letters_for i rep = 0") auto
qed simp

text \<open>C17: However often a command is dispatched, by the fast path or by any number of sweepers, with
  whatever replies and whatever the others write in between, at most one dead letter is
  ever published for its row, and a row once sent stays sent.\<close>

theorem dead_letter_at_most_once:
  assumes "commands_ok db" and "0 < dc_max_attempts cfg"
    and "dispatch_series cfg qs db = (reps, db')"
  shows "sum_list (map (letters_for i) reps) \<le> 1 \<and> (sent_row i db \<longrightarrow> sent_row i db') \<and> commands_ok db'"
  using dispatch_series_store [OF assms(3,2,1)] by blast

text \<open>A dispatch that is not a no-op makes between one and maxAttempts calls, every one the same
  command under the same request id (so that the responder recognises the retry), waits a
  doubling delay between consecutive calls, and waits in all backoffBase * (2^(n-1) - 1) ms
  for n calls.\<close>

theorem dispatch_retry_budget:
  assumes "dispatch_command cfg w oid k db = (rep, db')" and "dr_result rep \<noteq> Inr Outcome_Noop"
    and "0 < dc_max_attempts cfg"
  shows "\<exists>row n. find_by_order_and_command oid k db = Some row \<and> cm_status row \<noteq> Sent \<and>
    0 < n \<and> n \<le> dc_max_attempts cfg \<and>
    dr_calls rep = replicate n \<lparr> ic_command = k, ic_payload = cm_payload row, ic_correlation = oid, ic_request = cm_id row \<rparr> \<and>
    dr_delays rep = map (\<lambda>j. dc_backoff_base cfg * 2 ^ j) [0..<n - 1] \<and>
    sum_list (dr_delays rep) = dc_backoff_base cfg * (2 ^ (n - 1) - 1)"
proof -
  obtain row where row: "find_by_order_and_command oid k db = Some row" "cm_status row \<noteq> Sent"
    using assms(1,2) by (auto simp: dispatch_command_def split: option.splits if_splits)
  let ?c = "\<lparr> ic_command = k, ic_payload = cm_payload row, ic_correlation = oid, ic_request = cm_id row \<rparr>"
  obtain r cs ds db1 where l: "attempt_loop cfg w row ?c (dc_max_attempts cfg) 1 [] db = (r, cs, ds, db1)"
    by (metis prod_cases4)
  obtain n where n: "0 < n" "n \<le> dc_max_attempts cfg" "cs = replicate n ?c"
    "ds = map (\<lambda>j. dc_backoff_base cfg * 2 ^ (j - 1)) [1..<1 + n - 1]"
    using attempt_loop_shape [OF l assms(3)] by auto
  have rep: "dr_calls rep = cs" "dr_delays rep = ds"
    using assms(1) row l by (auto simp: dispatch_command_def Let_def split: loop_end.splits prod.splits if_splits)
  have "map (\<lambda>j. dc_backoff_base cfg * 2 ^ (j - 1)) [1..<1 + m] = map (\<lambda>j. dc_backoff_base cfg * 2 ^ j) [0..<m]" for m
    by (induction m) auto
  then have ds: "ds = map (\<lambda>j. dc_backoff_base cfg * 2 ^ j) [0..<n - 1]" using n(1,4) by (cases n) auto
  have "sum_list (map (\<lambda>j. b * 2 ^ j) [0..<m]) = b * (2 ^ m - 1)" for b m :: nat
    by (induction m) (auto simp: algebra_simps)
  then show ?thesis using row n(1,2,3) rep ds
    by (intro exI [of _ row] exI [of _ n]) simp
qed

section \<open>What the replies decide\<close>

definition is_failure :: "call_outcome \<Rightarrow> bool" where
  "is_failure o' = (case o' of Call_Failed _ \<Rightarrow> True | _ \<Rightarrow> False)"

definition decisive_attempt :: "dispatcher_config \<Rightarrow> dispatch_world \<Rightarrow> nat option" where
  "decisive_attempt cfg w = find (\<lambda>j. \<not> is_failure (dw_call w j)) [1..<Suc (dc_max_attempts cfg)]"

definition undisturbed :: "dispatch_world \<Rightarrow> bool" where
  "undisturbed w \<longleftrightarrow> (\<forall>j. dw_others w j = [])"

lemma find_update_commands:
  assumes "\<And>r. cm_order (f r) = cm_order r \<and> cm_command (f r) = cm_command r"
  shows "find_by_order_and_command oid k (snd (update_commands c f db)) =
    map_option (\<lambda>r. if c r then f r else r) (find_by_order_and_command oid k db)"
proof -
  have "find (\<lambda>r. cm_order r = oid \<and> cm_command r = k) (map (\<lambda>r. if c r then f r else r) rs) =
      map_option (\<lambda>r. if c r then f r else r) (find (\<lambda>r. cm_order r = oid \<and> cm_command r = k) rs)" for rs
    using assms by (induction rs) auto
  then show ?thesis by (simp add: find_by_order_and_command_def update_commands_def)
qed

lemma find_store_updates:
  "find_by_order_and_command oid k (snd (mark_sent now i db)) = map_option (\<lambda>r. if cm_id r = i \<and> cm_status r \<noteq> Sent
     then r \<lparr> cm_status := Sent, cm_updated := stored_datetime now, cm_sent_at := Some (stored_datetime now) \<rparr> else r)
     (find_by_order_and_command oid k db)"
  "find_by_order_and_command oid k (snd (mark_rejected now i att err db)) = map_option (\<lambda>r. if cm_id r = i \<and> cm_status r \<noteq> Sent
     then r \<lparr> cm_status := Rejected, cm_attempts := att, cm_last_error := Some err, cm_next_attempt := None,
       cm_updated := stored_datetime now \<rparr> else r) (find_by_order_and_command oid k db)"
  "find_by_order_and_command oid k (snd (park_command now i att err t db)) = map_option (\<lambda>r. if cm_id r = i \<and> cm_status r \<noteq> Sent
     then r \<lparr> cm_status := Parked, cm_attempts := att, cm_last_error := Some err, cm_next_attempt := Some (stored_datetime t),
       cm_updated := stored_datetime now \<rparr> else r) (find_by_order_and_command oid k db)"
  "find_by_order_and_command oid k (snd (claim_dead_letter now i db)) = map_option (\<lambda>r. if cm_id r = i \<and> cm_dead_lettered r = None
     then r \<lparr> cm_dead_lettered := Some (stored_datetime now) \<rparr> else r) (find_by_order_and_command oid k db)"
  by (simp_all add: store_updates find_update_commands)

lemma attempt_loop_undisturbed:
  assumes "undisturbed w"
  shows "attempt_loop cfg w row c m k err db = (r, cs, ds, db') \<Longrightarrow>
    (case find (\<lambda>j. \<not> is_failure (dw_call w j)) [k..<k + m] of
      None \<Rightarrow> db' = db \<and> (\<exists>e. r = Loop_Exhausted e \<and> (0 < m \<longrightarrow> dw_call w (k + m - 1) = Call_Failed e))
    | Some j \<Rightarrow> (case dw_call w j of
        Call_Ok \<Rightarrow> r = Loop_Sent \<and> db' = snd (mark_sent (dw_now w) (cm_id row) db)
      | Call_Rejected e \<Rightarrow> r = Loop_Rejected \<and>
          db' = snd (mark_rejected (dw_now w) (cm_id row) (cm_attempts row + j) e db)
      | Call_Failed e \<Rightarrow> False))"
proof (induction m arbitrary: k err r cs ds db')
  case (Suc m)
  have q: "run_store (dw_others w k) db = db" using assms by (simp add: undisturbed_def)
  have upt: "[k..<k + Suc m] = k # [Suc k..<Suc k + m]" by (simp add: upt_rec)
  show ?case
  proof (cases "dw_call w k")
    case (Call_Failed e)
    obtain r' cs' ds' db2 where rest: "attempt_loop cfg w row c m (Suc k) e db = (r', cs', ds', db2)"
      by (metis prod_cases4)
    have eqs: "r = r'" "db' = db2" using Suc.prems Call_Failed rest q by (auto simp: Let_def)
    have m0: "m = 0 \<Longrightarrow> r' = Loop_Exhausted e" using rest by simp
    show ?thesis
      using Suc.IH [OF rest] eqs m0 Call_Failed unfolding upt
      by (cases m) (auto simp: is_failure_def simp del: upt_Suc split: option.splits)
  next
    case Call_Ok
    then show ?thesis using Suc.prems q unfolding upt by (auto simp: is_failure_def Let_def)
  next
    case (Call_Rejected e)
    then show ?thesis using Suc.prems q unfolding upt by (auto simp: is_failure_def Let_def)
  qed
qed simp

text \<open>The end of a dispatch none of whose calls was answered.\<close>

definition letter_of :: "command_row \<Rightarrow> nat \<Rightarrow> string \<Rightarrow> dead_letter" where
  "letter_of row att err = \<lparr> dl_topic = cm_topic row, dl_envelope = cm_trigger row, dl_attempts = att,
     dl_error = err, dl_row = cm_id row \<rparr>"

lemma dispatch_exhausted:
  assumes f: "find_by_order_and_command oid k db = Some row" and s: "cm_status row \<noteq> Sent"
    and w: "undisturbed w" "0 < dc_max_attempts cfg" "decisive_attempt cfg w = None"
    and d: "dispatch_command cfg w oid k db = (rep, db')"
    and n: "n_att = cm_attempts row + dc_max_attempts cfg"
    and nx: "next_at = dw_now w + int (park_backoff cfg n_att)"
  shows "\<exists>e db3. dw_call w (dc_max_attempts cfg) = Call_Failed e \<and>
    db3 = run_store [Park_Op (dw_now w) (cm_id row) n_att e next_at, Claim_Dead_Letter_Op (dw_now w) (cm_id row)] db \<and>
    find_by_order_and_command oid k db3 = Some (row \<lparr> cm_status := Parked, cm_attempts := n_att,
      cm_last_error := Some e, cm_next_attempt := Some (stored_datetime next_at), cm_updated := stored_datetime (dw_now w),
      cm_dead_lettered := (if cm_dead_lettered row = None then Some (stored_datetime (dw_now w)) else cm_dead_lettered row) \<rparr>) \<and>
    (if cm_dead_lettered row = None
     then \<exists>res. on_first_park w row n_att e db3 = (res, dr_letters rep, db') \<and>
       dr_result rep = (case res of Inl x \<Rightarrow> Inl x | Inr _ \<Rightarrow> Inr Outcome_Parked)
     else commands_ok db \<longrightarrow> dr_letters rep = [] \<and> db' = db3 \<and> dr_result rep = Inr Outcome_Parked)"
proof -
  let ?c = "\<lparr> ic_command = k, ic_payload = cm_payload row, ic_correlation = oid, ic_request = cm_id row \<rparr>"
  obtain r cs ds db1 where l: "attempt_loop cfg w row ?c (dc_max_attempts cfg) 1 [] db = (r, cs, ds, db1)"
    by (metis prod_cases4)
  obtain e where e: "db1 = db" "r = Loop_Exhausted e" "dw_call w (dc_max_attempts cfg) = Call_Failed e"
    using attempt_loop_undisturbed [OF w(1) l] w(2,3) by (auto simp: decisive_attempt_def)
  have row: "row \<in> set (db_commands db)" "cm_order row = oid" "cm_command row = k"
    using f by (auto simp: find_by_order_and_command_def find_Some_iff)
  define db2 where "db2 = snd (park_command (dw_now w) (cm_id row) n_att e next_at db)"
  define db3 where "db3 = snd (claim_dead_letter (dw_now w) (cm_id row) db2)"
  let ?parked = "row \<lparr> cm_status := Parked, cm_attempts := n_att, cm_last_error := Some e,
      cm_next_attempt := Some (stored_datetime next_at), cm_updated := stored_datetime (dw_now w) \<rparr>"
  have p: "park_command (dw_now w) (cm_id row) n_att e next_at db = (True, db2)"
    using row(1) s by (auto simp: db2_def park_command_def update_commands_def list_ex_iff)
  have f2: "find_by_order_and_command oid k db2 = Some ?parked"
    using find_store_updates(3) [of oid k "dw_now w" "cm_id row" n_att e next_at db] f s by (simp add: db2_def)
  then have in2: "?parked \<in> set (db_commands db2)"
    by (auto simp: find_by_order_and_command_def find_Some_iff)
  obtain q where q: "claim_dead_letter (dw_now w) (cm_id row) db2 = (q, db3)"
    by (simp add: db3_def prod_eq_iff)
  have q1: "q" if "cm_dead_lettered row = None"
    using q in2 that by (force simp: claim_dead_letter_def update_commands_def list_ex_iff)
  have q2: "\<not> q" if "cm_dead_lettered row \<noteq> None" "commands_ok db"
  proof -
    have "commands_ok db2" using that(2) apply_store_op_ok [of db "Park_Op (dw_now w) (cm_id row) n_att e next_at"]
      by (simp add: db2_def)
    then have "cm_dead_lettered x \<noteq> None" if "x \<in> set (db_commands db2)" "cm_id x = cm_id row" for x
      using \<open>cm_dead_lettered row \<noteq> None\<close> commands_ok_unique [OF _ that(1) in2] that(2) by simp
    then have "\<not> list_ex (\<lambda>r. cm_id r = cm_id row \<and> cm_dead_lettered r = None) (db_commands db2)"
      by (auto simp: list_ex_iff)
    then show ?thesis using q by (auto simp: claim_dead_letter_def update_commands_def list_ex_iff)
  qed
  have f3: "find_by_order_and_command oid k db3 = Some (if cm_dead_lettered row = None
      then ?parked \<lparr> cm_dead_lettered := Some (stored_datetime (dw_now w)) \<rparr> else ?parked)"
    using find_store_updates(4) [of oid k "dw_now w" "cm_id row" db2] f2 by (simp add: db3_def)
  obtain res ls db4 where fp: "on_first_park w row n_att e db3 = (res, ls, db4)" by (metis prod_cases3)
  have dd: "(rep, db') = (if \<not> q then (\<lparr> dr_result = Inr Outcome_Parked, dr_calls = cs, dr_delays = ds, dr_letters = [] \<rparr>, db3)
      else (\<lparr> dr_result = (case res of Inl e \<Rightarrow> Inl e | Inr _ \<Rightarrow> Inr Outcome_Parked),
        dr_calls = cs, dr_delays = ds, dr_letters = ls \<rparr>, db4))"
    using d f s l e p q fp n nx by (cases q) (auto simp: dispatch_command_def Let_def)
  have db3: "db3 = run_store [Park_Op (dw_now w) (cm_id row) n_att e next_at, Claim_Dead_Letter_Op (dw_now w) (cm_id row)] db"
    by (simp add: db3_def db2_def)
  show ?thesis
  proof (cases "cm_dead_lettered row = None")
    case True
    then have "rep = \<lparr> dr_result = (case res of Inl e \<Rightarrow> Inl e | Inr _ \<Rightarrow> Inr Outcome_Parked),
        dr_calls = cs, dr_delays = ds, dr_letters = ls \<rparr>" "db' = db4" using dd q1 by auto
    then show ?thesis using True e(3) db3 f3 fp by (intro exI [of _ e] exI [of _ db3]) auto
  next
    case False
    then show ?thesis using e(3) db3 f3 dd q2 by (intro exI [of _ e] exI [of _ db3]) auto
  qed
qed

text \<open>C15: With no other session writing, the first reply that is not a transport failure decides: a
  success makes the command sent, a business rejection makes it rejected at that attempt with
  no next attempt, and only when every one of the maxAttempts calls failed is it parked, with
  the last failure and a next attempt after min(30 s * 2^(cycles-1), cap).\<close>

theorem dispatch_decided_by_first_reply:
  assumes "find_by_order_and_command oid k db = Some row" and "cm_status row \<noteq> Sent"
    and "undisturbed w" and "0 < dc_max_attempts cfg"
    and "dispatch_command cfg w oid k db = (rep, db')" and "commands_ok db"
  shows "\<exists>row'. find_by_order_and_command oid k db' = Some row' \<and>
    (case decisive_attempt cfg w of
      None \<Rightarrow> cm_status row' = Parked \<and> cm_attempts row' = cm_attempts row + dc_max_attempts cfg \<and>
        cm_last_error row' \<noteq> None \<and>
        dw_call w (dc_max_attempts cfg) = Call_Failed (the (cm_last_error row')) \<and>
        cm_next_attempt row' = Some (stored_datetime (dw_now w + int (park_backoff cfg (cm_attempts row'))))
    | Some j \<Rightarrow> (case dw_call w j of
        Call_Ok \<Rightarrow> dr_result rep = Inr Outcome_Sent \<and> cm_status row' = Sent \<and> cm_attempts row' = cm_attempts row
      | Call_Rejected e \<Rightarrow> dr_result rep = Inr Outcome_Rejected \<and> cm_status row' = Rejected \<and>
          cm_attempts row' = cm_attempts row + j \<and> cm_last_error row' = Some e \<and> cm_next_attempt row' = None
      | Call_Failed e \<Rightarrow> False))"
proof -
  show ?thesis
  proof (cases "decisive_attempt cfg w")
    case None
    obtain e db3 where e: "dw_call w (dc_max_attempts cfg) = Call_Failed e"
      "find_by_order_and_command oid k db3 = Some (row \<lparr> cm_status := Parked, cm_attempts := cm_attempts row + dc_max_attempts cfg,
        cm_last_error := Some e,
        cm_next_attempt := Some (stored_datetime (dw_now w + int (park_backoff cfg (cm_attempts row + dc_max_attempts cfg)))),
        cm_updated := stored_datetime (dw_now w),
        cm_dead_lettered := (if cm_dead_lettered row = None then Some (stored_datetime (dw_now w)) else cm_dead_lettered row) \<rparr>)"
      "db_commands db' = db_commands db3"
      using dispatch_exhausted [OF assms(1-4) None assms(5) refl refl] assms(6) on_first_park_shape
      by (auto split: if_splits)
    have "find_by_order_and_command oid k db' = find_by_order_and_command oid k db3"
      using e(3) by (simp add: find_by_order_and_command_def)
    then show ?thesis using e None by simp
  next
    case (Some j)
    let ?c = "\<lparr> ic_command = k, ic_payload = cm_payload row, ic_correlation = oid, ic_request = cm_id row \<rparr>"
    obtain r cs ds db1 where l: "attempt_loop cfg w row ?c (dc_max_attempts cfg) 1 [] db = (r, cs, ds, db1)"
      by (metis prod_cases4)
    note loop = attempt_loop_undisturbed [OF assms(3) l]
    show ?thesis
    proof (cases "dw_call w j")
      case Call_Ok
      then have "db' = snd (mark_sent (dw_now w) (cm_id row) db)" "dr_result rep = Inr Outcome_Sent"
        using loop Some assms(1,2,5) l by (auto simp: decisive_attempt_def dispatch_command_def)
      then show ?thesis using Some Call_Ok assms(1,2) by (simp add: find_store_updates)
    next
      case (Call_Rejected e)
      then have "db' = snd (mark_rejected (dw_now w) (cm_id row) (cm_attempts row + j) e db)"
        "dr_result rep = Inr Outcome_Rejected"
        using loop Some assms(1,2,5) l by (auto simp: decisive_attempt_def dispatch_command_def)
      then show ?thesis using Some Call_Rejected assms(1,2) by (simp add: find_store_updates)
    next
      case (Call_Failed e)
      then show ?thesis using loop Some by (simp add: decisive_attempt_def)
    qed
  qed
qed

text \<open>A rejected command is not final: when it is dispatched again and every call of that
  dispatch fails in transport, the row becomes parked with a next attempt, and the sweeper's
  claim takes it up from then on, although nothing had claimed it while it was rejected.\<close>

theorem rejected_command_is_revived:
  assumes "find_by_order_and_command oid k db = Some row" and "cm_status row = Rejected" and "commands_ok db"
    and "undisturbed w" and "0 < dc_max_attempts cfg" and "decisive_attempt cfg w = None"
    and "dispatch_command cfg w oid k db = (rep, db')"
  shows "(\<forall>now limit grace. row \<notin> set (claim_due (\<lambda>_. False) now limit grace db)) \<and>
    (\<exists>row' t. find_by_order_and_command oid k db' = Some row' \<and> cm_id row' = cm_id row \<and> cm_status row' = Parked \<and>
      (\<forall>now grace. t \<le> now \<longrightarrow> row' \<in> set (claim_due (\<lambda>_. False) now (length (db_commands db')) grace db')))"
proof -
  have never: "row \<notin> set (claim_due (\<lambda>_. False) now limit grace db)" for now limit grace
    using assms(2) by (auto simp: claim_due_def dest: in_set_takeD)
  obtain row' t where r: "find_by_order_and_command oid k db' = Some row'" "cm_id row' = cm_id row"
      "cm_status row' = Parked" "cm_next_attempt row' = Some t"
    using dispatch_exhausted [OF assms(1) _ assms(4,5,6,7) refl refl] assms(2,3) on_first_park_shape
    by (fastforce simp: find_by_order_and_command_def split: if_splits)
  have mem: "row' \<in> set (db_commands db')"
    using r(1) by (auto simp: find_by_order_and_command_def find_Some_iff)
  have "length (filter P (db_commands db')) \<le> length (db_commands db')" for P by simp
  then have "row' \<in> set (claim_due (\<lambda>_. False) now (length (db_commands db')) grace db')" if "t \<le> now" for now grace
    using mem r(3,4) that by (simp add: claim_due_def)
  then show ?thesis using never r by blast
qed

lemma save_saga_failure:
  assumes ok: "orders_db_ok db" and f: "find_by_id i db = Inr (Some ord)" and ev: "eid \<notin> outbox_ids db"
  shows "\<exists>db' e. save_order now (record_saga_failure eid inp ctx ord) None db = Inr db' \<and>
    find_by_id i db' = Inr (Some ord) \<and> outbox_envelopes db' = outbox_envelopes db @ [e] \<and>
    e = order_saga_failed_event eid inp ord ctx \<and> db_commands db' = db_commands db \<and>
    (\<forall>j. j \<noteq> i \<longrightarrow> find_by_id j db' = find_by_id j db)"
proof -
  note lo = loaded_order [OF ok f]
  let ?e = "order_saga_failed_event eid inp ord ctx"
  have e: "ev_type ?e = Order_Saga_Failed" "ev_id ?e = eid"
    by (simp_all add: order_saga_failed_event_def order_event_def)
  have same: "record_saga_failure eid inp ctx ord = ord \<lparr> o_status := o_status ord, o_reason := o_reason ord, o_events := [?e] \<rparr>"
    "ord \<lparr> o_status := o_status ord, o_reason := o_reason ord \<rparr> = ord"
    using lo by (cases ord; simp add: record_saga_failure_def add_domain_event_def)+
  obtain db' where s: "save_order now (ord \<lparr> o_status := o_status ord, o_reason := o_reason ord, o_events := [?e] \<rparr>) None db = Inr db'"
    and post: "find_by_id i db' = Inr (Some (ord \<lparr> o_status := o_status ord, o_reason := o_reason ord \<rparr>))"
      "outbox_envelopes db' = outbox_envelopes db @ [?e]"
      "\<forall>j. j \<noteq> i \<longrightarrow> find_by_id j db' = find_by_id j db" "db_commands db' = db_commands db"
    using save_transition [OF ok f, of "[?e]" "o_reason ord" "o_status ord" now] e ev lo by auto
  show ?thesis
    by (rule exI [of _ db'], rule exI [of _ ?e]) (use s post in \<open>simp add: same\<close>)
qed

text \<open>The first time a command is parked, with the broker up, exactly one dead letter is published,
  to the topic of the fact that owed the command and with that fact unmodified, and exactly
  one order.saga_failed.v1 naming the command and the attempts is appended to the outbox,
  caused by that fact; the order itself is left exactly as it was.\<close>

theorem first_park_dead_letters:
  assumes "find_by_order_and_command oid k db = Some row" and "cm_status row \<noteq> Sent" and "cm_dead_lettered row = None"
    and "undisturbed w" and "0 < dc_max_attempts cfg" and "decisive_attempt cfg w = None" and "dw_broker_up w"
    and "orders_db_ok db" and "find_by_id oid db = Inr (Some ord)" and "dw_event w \<notin> outbox_ids db"
    and "dispatch_command cfg w oid k db = (rep, db')"
  shows "\<exists>err e. dw_call w (dc_max_attempts cfg) = Call_Failed err \<and> dr_result rep = Inr Outcome_Parked \<and>
    dr_letters rep = [letter_of row (cm_attempts row + dc_max_attempts cfg) err] \<and>
    outbox_envelopes db' = outbox_envelopes db @ [e] \<and> ev_type e = Order_Saga_Failed \<and>
    ev_causation e = cm_trigger_id row \<and>
    (\<exists>p. ev_payload e = Saga_Failed_P p \<and> fp_command p = command_name k \<and>
      fp_attempts p = cm_attempts row + dc_max_attempts cfg \<and> fp_last_error p = err) \<and>
    find_by_id oid db' = Inr (Some ord)"
proof -
  let ?n = "cm_attempts row + dc_max_attempts cfg"
  let ?next = "dw_now w + int (park_backoff cfg ?n)"
  obtain err db3 res where x: "dw_call w (dc_max_attempts cfg) = Call_Failed err"
    "db3 = run_store [Park_Op (dw_now w) (cm_id row) ?n err ?next, Claim_Dead_Letter_Op (dw_now w) (cm_id row)] db"
    "on_first_park w row ?n err db3 = (res, dr_letters rep, db')"
    "dr_result rep = (case res of Inl x \<Rightarrow> Inl x | Inr _ \<Rightarrow> Inr Outcome_Parked)"
    using dispatch_exhausted [OF assms(1,2,4,5,6,11) refl refl] assms(3) by auto
  have key: "cm_order row = oid" "cm_command row = k"
    using assms(1) by (auto simp: find_by_order_and_command_def find_Some_iff)
  have frame: "db_orders db3 = db_orders db" "db_items db3 = db_items db" "db_reference db3 = db_reference db"
    "db_outbox db3 = db_outbox db"
    unfolding x(2) by (simp_all only: run_store_frame)
  have ok3: "orders_db_ok db3" "find_by_id oid db3 = Inr (Some ord)" "dw_event w \<notin> outbox_ids db3"
    using assms(8,9,10) frame orders_db_ok_frame [OF frame(1,2)] find_by_id_frame [OF frame(3,2,1), of oid]
    by (simp_all add: outbox_ids_def)
  let ?inp = "\<lparr> sf_command = command_name k, sf_attempts = ?n, sf_last_error = err \<rparr>"
  let ?ctx = "\<lparr> tc_at = dw_now w, tc_causation = cm_trigger_id row \<rparr>"
  let ?e = "order_saga_failed_event (dw_event w) ?inp ord ?ctx"
  obtain db4 where s: "save_order (dw_now w) (record_saga_failure (dw_event w) ?inp ?ctx ord) None db3 = Inr db4"
    and post: "find_by_id oid db4 = Inr (Some ord)" "outbox_envelopes db4 = outbox_envelopes db3 @ [?e]"
    using save_saga_failure [OF ok3, of "dw_now w" ?inp ?ctx] by blast
  have "record_failure_work w row ?n err db3 = Inr ((), db4)"
    using s ok3(2) key by (simp add: record_failure_work_def)
  then have fin: "res = Inr ()" "dr_letters rep = [letter_of row ?n err]" "db' = db4"
    using x(3) assms(7) by (auto simp: on_first_park_def unit_of_work_def letter_of_def)
  have "outbox_envelopes db3 = outbox_envelopes db" using frame by (simp add: outbox_envelopes_def)
  then show ?thesis using x(1,4) fin post
    by (intro exI [of _ err] exI [of _ ?e]) (simp add: order_saga_failed_event_def order_event_def)
qed

section \<open>A sweep\<close>

definition command_due :: "int \<Rightarrow> instant \<Rightarrow> command_row \<Rightarrow> bool" where
  "command_due grace now r \<longleftrightarrow> (cm_status r = Pending \<and> cm_created r < now - grace) \<or>
     (cm_status r = Parked \<and> (\<exists>t. cm_next_attempt r = Some t \<and> t \<le> now))"

lemma claim_due_all:
  assumes "r \<in> set (db_commands db)" "command_due grace now r" "\<not> locked (cm_id r)"
    and "length (filter (command_due grace now) (db_commands db)) \<le> limit"
  shows "r \<in> set (claim_due locked now limit grace db)"
proof -
  let ?P = "\<lambda>r. command_due grace now r \<and> \<not> locked (cm_id r)"
  have "claim_due locked now limit grace db = take limit (filter ?P (db_commands db))"
    unfolding claim_due_def
    by (intro arg_cong [of _ _ "take limit"] filter_cong refl) (auto simp: command_due_def split: option.splits)
  moreover have "length (filter (\<lambda>r. \<not> locked (cm_id r)) (filter (command_due grace now) (db_commands db))) \<le> limit"
    by (rule order_trans [OF length_filter_le assms(4)])
  then have "length (filter ?P (db_commands db)) \<le> limit" by simp
  ultimately show ?thesis using assms(1-3) by simp
qed

text \<open>Rows keep their key, whatever the dispatches of other rows do.\<close>

abbreviation keyed_row :: "uid \<Rightarrow> saga_command_kind \<Rightarrow> uid \<Rightarrow> orders_db \<Rightarrow> bool" where
  "keyed_row oid k \<equiv> row_is (\<lambda>r. cm_order r = oid \<and> cm_command r = k)"

lemma apply_store_op_keyed: "keyed_row oid k i db \<Longrightarrow> keyed_row oid k i (snd (apply_store_op p db))"
  by (cases p) (auto simp: store_updates enqueue_row_is intro!: update_commands_row_is)

lemma run_store_keyed: "keyed_row oid k i db \<Longrightarrow> keyed_row oid k i (run_store ops db)"
  by (erule run_store_invariant) (erule apply_store_op_keyed)

lemma dispatch_is_store_ops:
  assumes "dispatch_command cfg w oid k db = (rep, db')" "0 < dc_max_attempts cfg"
  shows "\<exists>ops. db_commands db' = db_commands (run_store ops db)"
proof (cases "\<exists>row. find_by_order_and_command oid k db = Some row \<and> cm_status row \<noteq> Sent")
  case False
  then have "db' = run_store [] db" using assms(1) by (auto simp: dispatch_command_def split: option.splits if_splits)
  then show ?thesis by blast
next
  case True
  then obtain row where row: "find_by_order_and_command oid k db = Some row" "cm_status row \<noteq> Sent" by blast
  let ?c = "\<lparr> ic_command = k, ic_payload = cm_payload row, ic_correlation = oid, ic_request = cm_id row \<rparr>"
  obtain r cs ds db1 where l: "attempt_loop cfg w row ?c (dc_max_attempts cfg) 1 [] db = (r, cs, ds, db1)"
    by (metis prod_cases4)
  obtain ops where ops: "db1 = run_store ops db" using attempt_loop_shape [OF l assms(2)] by auto
  show ?thesis
  proof (cases r)
    case (Loop_Exhausted e)
    let ?n = "cm_attempts row + dc_max_attempts cfg"
    let ?p = "Park_Op (dw_now w) (cm_id row) ?n e (dw_now w + int (park_backoff cfg ?n))"
    let ?q = "Claim_Dead_Letter_Op (dw_now w) (cm_id row)"
    obtain p db2 where p: "park_command (dw_now w) (cm_id row) ?n e (dw_now w + int (park_backoff cfg ?n)) db1 = (p, db2)"
      by (metis prod.collapse)
    obtain q db3 where q: "claim_dead_letter (dw_now w) (cm_id row) db2 = (q, db3)" by (metis prod.collapse)
    obtain res ls db4 where f: "on_first_park w row ?n e db3 = (res, ls, db4)" by (metis prod_cases3)
    have "db' = (if \<not> p then db2 else if \<not> q then db3 else db4)"
      using assms(1) row l Loop_Exhausted p q f
      by (cases p; cases q) (auto simp: dispatch_command_def Let_def)
    moreover have "db2 = run_store [?p] db1" "db3 = run_store [?p, ?q] db1" using p q by simp_all
    ultimately have "db_commands db' = db_commands (run_store [?p] db1) \<or> db_commands db' = db_commands (run_store [?p, ?q] db1)"
      using on_first_park_shape [OF f] by (auto simp del: run_store_simps(2))
    then show ?thesis unfolding ops by (metis run_store_simps(3))
  qed (use assms(1) row l ops in \<open>auto simp: dispatch_command_def\<close>)
qed

lemma dispatch_keyed:
  assumes "dispatch_command cfg w oid k db = (rep, db')" "0 < dc_max_attempts cfg" "keyed_row oid' k' i db"
  shows "keyed_row oid' k' i db'"
  using dispatch_is_store_ops [OF assms(1,2)] run_store_keyed [OF assms(3)] by (metis row_is_frame)

lemma mark_sent_sent:
  assumes "row_is P i db"
  shows "sent_row i (snd (mark_sent now i db))"
proof (cases "sent_row i db")
  case True
  then show ?thesis using apply_store_op_keeps(1) [of i db "Mark_Sent_Op now i"] by simp
next
  case False
  obtain y where y: "y \<in> set (db_commands db)" "cm_id y = i" using assms by (auto simp: row_is_def list_ex_iff)
  then have "cm_status y \<noteq> Sent" using False by (auto simp: row_is_def list_ex_iff)
  then have "y \<lparr> cm_status := Sent, cm_updated := stored_datetime now, cm_sent_at := Some (stored_datetime now) \<rparr>
      \<in> set (db_commands (snd (mark_sent now i db)))"
    using y by (auto simp: mark_sent_def update_commands_def image_iff intro!: bexI [of _ y])
  then show ?thesis unfolding row_is_def list_ex_iff by (rule bexI [rotated]) (simp add: y(2))
qed

lemma dispatch_answered_at_once:
  assumes ok: "commands_ok db" and row: "keyed_row oid k i db" and w: "dw_call w 1 = Call_Ok" "0 < dc_max_attempts cfg"
    and d: "dispatch_command cfg w oid k db = (rep, db')"
  shows "sent_row i db'"
proof -
  obtain r where r: "r \<in> set (db_commands db)" "cm_id r = i" "cm_order r = oid" "cm_command r = k"
    using row by (auto simp: row_is_def list_ex_iff)
  have uniq: "x = r" if "x \<in> set (db_commands db)" "cm_order x = oid" "cm_command x = k" for x
    using ok that r by (auto simp: commands_ok_def distinct_map dest: inj_onD)
  have "find_by_order_and_command oid k db \<noteq> None"
    using r by (auto simp: find_by_order_and_command_def find_None_iff)
  then obtain x where "find_by_order_and_command oid k db = Some x" by blast
  moreover from this have "x = r"
    by (intro uniq) (auto simp: find_by_order_and_command_def find_Some_iff)
  ultimately have f: "find_by_order_and_command oid k db = Some r" by simp
  show ?thesis
  proof (cases "cm_status r = Sent")
    case True
    then show ?thesis using d f r by (auto simp: dispatch_command_def row_is_def list_ex_iff)
  next
    case False
    obtain m where m: "dc_max_attempts cfg = Suc m" using w(2) by (cases "dc_max_attempts cfg") auto
    let ?d = "run_store (dw_others w 1) db"
    have "db' = snd (mark_sent (dw_now w) i ?d)"
      using d f False w(1) m r(2) by (auto simp: dispatch_command_def Let_def)
    then show ?thesis using mark_sent_sent [OF run_store_keyed [OF row, of "dw_others w 1"]] by simp
  qed
qed

lemma sweep_rows_sent:
  assumes "commands_ok db" "0 < dc_max_attempts cfg" "\<forall>r\<in>set rows. dw_call (ws r) 1 = Call_Ok"
    and "\<forall>r\<in>set rows. keyed_row (cm_order r) (cm_command r) (cm_id r) db"
  shows "\<forall>i. (sent_row i db \<or> (\<exists>r\<in>set rows. cm_id r = i)) \<longrightarrow> sent_row i (snd (sweep_rows cfg ws rows db))"
  using assms
proof (induction rows arbitrary: db)
  case (Cons row rows)
  obtain rep db1 where d: "dispatch_command cfg (ws row) (cm_order row) (cm_command row) db = (rep, db1)"
    by (metis prod.collapse)
  have ok1: "commands_ok db1" using dispatch_store(1) [OF d Cons.prems(2,1)] .
  have sent1: "sent_row i db1" if "sent_row i db \<or> cm_id row = i" for i
    using that dispatch_store(2) [OF d Cons.prems(2,1), of i]
      dispatch_answered_at_once [OF Cons.prems(1) _ _ Cons.prems(2) d] Cons.prems(3,4) by auto
  have "\<forall>r\<in>set rows. keyed_row (cm_order r) (cm_command r) (cm_id r) db1"
    using Cons.prems(4) dispatch_keyed [OF d Cons.prems(2)] by simp
  then have "\<forall>i. (sent_row i db1 \<or> (\<exists>r\<in>set rows. cm_id r = i)) \<longrightarrow> sent_row i (snd (sweep_rows cfg ws rows db1))"
    using Cons.IH [OF ok1 Cons.prems(2)] Cons.prems(3) by simp
  then show ?case using sent1 d by (auto simp: Let_def split: prod.splits)
qed simp

text \<open>C18: The sweeper is the guarantee: when the responders answer and at most a batch of commands is
  due, one cycle leaves every due command that no other session holds sent - pending ones
  the fast path lost and parked ones alike.\<close>

theorem sweep_sends_every_due_command:
  assumes "commands_ok db" and "0 < dc_max_attempts cfg"
    and "\<forall>row. dw_call (ws row) 1 = Call_Ok"
    and "r \<in> set (db_commands db)" and "command_due (sw_pending_grace sw) now r" and "\<not> locked (cm_id r)"
    and "length (filter (command_due (sw_pending_grace sw) now) (db_commands db)) \<le> sw_batch_limit sw"
  shows "sent_row (cm_id r) (snd (sweep_cycle cfg sw locked now ws db))"
proof -
  let ?rows = "claim_due locked now (sw_batch_limit sw) (sw_pending_grace sw) db"
  have "\<forall>x\<in>set ?rows. keyed_row (cm_order x) (cm_command x) (cm_id x) db"
    by (auto simp: claim_due_def row_is_def list_ex_iff dest!: in_set_takeD)
  moreover have "r \<in> set ?rows" by (rule claim_due_all) (use assms(4-7) in simp_all)
  ultimately show ?thesis
    using sweep_rows_sent [OF assms(1,2), of ?rows ws] assms(3) by (auto simp: sweep_cycle_def)
qed

end
