(* ===== verification/Dispatch_Examples.thy ===== *)
theory Dispatch_Examples
  imports Saga_Dispatch Saga_Examples
begin

text \<open>One owed command on the database of Saga_Examples, dispatched to a responder that is down,
  that refuses or that answers.\<close>

definition example_owed :: enqueue_input where
  "example_owed = \<lparr> en_id = example_id 6, en_order = example_id 1, en_reference = Order_Number ''ORD-000001'',
     en_command = Stock_Release, en_payload = Release_Request ''ORD-000001'' Release_Order_Cancelled,
     en_trigger_id = example_id 7, en_trigger = example_fact Credit_Rejected_Fact (Raw_P ''x'') 7, en_topic = ''billing'' \<rparr>"

definition example_owed_db :: orders_db where
  "example_owed_db = enqueue_command 0 example_owed (example_db ''stock_reserved'')"

definition example_rejected_db :: orders_db where
  "example_rejected_db = snd (mark_rejected 0 (example_id 6) 1 ''no'' example_owed_db)"

definition world_answering :: "call_outcome \<Rightarrow> dispatch_world" where
  "world_answering r = \<lparr> dw_call = (\<lambda>_. r), dw_others = (\<lambda>_. []), dw_now = 20000, dw_event = example_id 8, dw_broker_up = True \<rparr>"

lemma example_owed_ok: "commands_ok example_owed_db" "commands_ok example_rejected_db"
  by code_simp+

lemma world_answering_simps [simp]:
  "dw_call (world_answering r) j = r" "undisturbed (world_answering r)" "dw_broker_up (world_answering r)"
  "dw_event (world_answering r) = example_id 8"
  by (simp_all add: world_answering_def undisturbed_def)

lemma example_config_attempts [simp]: "dc_max_attempts default_dispatcher_config = 3"
  by (simp add: default_dispatcher_config_def)

lemma no_decisive_attempt [simp]: "decisive_attempt default_dispatcher_config (world_answering (Call_Failed e)) = None"
  by (simp add: decisive_attempt_def is_failure_def find_None_iff)

lemma example_owed_row:
  "find_by_order_and_command (example_id 1) Stock_Release example_owed_db = Some (new_command_row 0 example_owed)"
  by (simp add: example_owed_db_def enqueue_command_def find_by_order_and_command_def new_command_row_def example_owed_def)

lemma example_rejected_row:
  "\<exists>row. find_by_order_and_command (example_id 1) Stock_Release example_rejected_db = Some row \<and> cm_status row = Rejected"
  unfolding example_rejected_db_def find_store_updates(2) example_owed_row
  by (simp add: new_command_row_def example_owed_def)

lemma dead_letter_at_most_once_witness:
  "sum_list (map (letters_for (example_id 6)) (fst (dispatch_series default_dispatcher_config
     [\<lparr> rq_world = world_answering (Call_Failed ''down''), rq_order = example_id 1, rq_command = Stock_Release \<rparr>,
      \<lparr> rq_world = world_answering (Call_Failed ''down''), rq_order = example_id 1, rq_command = Stock_Release \<rparr>]
     example_owed_db))) \<le> 1"
  by (rule dead_letter_at_most_once [OF example_owed_ok(1) _ surjective_pairing, THEN conjunct1]) simp

lemma dispatch_retry_budget_witness:
  "\<exists>n. 0 < n \<and> n \<le> 3 \<and> dr_delays (fst (dispatch_command default_dispatcher_config (world_answering Call_Ok)
     (example_id 1) Stock_Release example_owed_db)) = map (\<lambda>j. 500 * 2 ^ j) [0..<n - 1]"
proof -
  let ?d = "dispatch_command default_dispatcher_config (world_answering Call_Ok) (example_id 1) Stock_Release example_owed_db"
  have "dr_result (fst ?d) \<noteq> Inr Outcome_Noop"
    unfolding dispatch_command_def example_owed_row by (simp add: new_command_row_def numeral_3_eq_3 Let_def)
  then show ?thesis
    using dispatch_retry_budget [of default_dispatcher_config "world_answering Call_Ok" "example_id 1" Stock_Release
        example_owed_db "fst ?d" "snd ?d"]
    by (auto simp: default_dispatcher_config_def)
qed

lemma dispatch_decided_by_first_reply_witness:
  "\<exists>row. find_by_order_and_command (example_id 1) Stock_Release (snd (dispatch_command default_dispatcher_config
      (world_answering (Call_Failed ''down'')) (example_id 1) Stock_Release example_owed_db)) = Some row \<and>
    cm_status row = Parked \<and> cm_attempts row = 3"
proof -
  let ?d = "dispatch_command default_dispatcher_config (world_answering (Call_Failed ''down'')) (example_id 1) Stock_Release example_owed_db"
  show ?thesis
    using dispatch_decided_by_first_reply [OF example_owed_row, of "world_answering (Call_Failed ''down'')"
        default_dispatcher_config "fst ?d" "snd ?d"] example_owed_ok
    by (auto simp: new_command_row_def)
qed

lemma rejected_command_is_revived_witness:
  "\<exists>row. find_by_order_and_command (example_id 1) Stock_Release (snd (dispatch_command default_dispatcher_config
      (world_answering (Call_Failed ''down'')) (example_id 1) Stock_Release example_rejected_db)) = Some row \<and>
    cm_status row = Parked"
proof -
  let ?d = "dispatch_command default_dispatcher_config (world_answering (Call_Failed ''down'')) (example_id 1) Stock_Release example_rejected_db"
  obtain row where "find_by_order_and_command (example_id 1) Stock_Release example_rejected_db = Some row" "cm_status row = Rejected"
    using example_rejected_row by blast
  then show ?thesis
    using rejected_command_is_revived [of "example_id 1" Stock_Release example_rejected_db row
        "world_answering (Call_Failed ''down'')" default_dispatcher_config "fst ?d" "snd ?d"] example_owed_ok
    by auto
qed

lemma first_park_dead_letters_witness:
  "dr_letters (fst (dispatch_command default_dispatcher_config (world_answering (Call_Failed ''down''))
      (example_id 1) Stock_Release example_owed_db)) =
    [letter_of (new_command_row 0 example_owed) 3 ''down'']"
proof -
  let ?d = "dispatch_command default_dispatcher_config (world_answering (Call_Failed ''down'')) (example_id 1) Stock_Release example_owed_db"
  let ?o = "loaded (example_db ''stock_reserved'')"
  have f: "find_by_id (example_id 1) example_owed_db = Inr (Some ?o)"
    using example_find(1) [of Stock_Reserved] find_by_id_frame [of example_owed_db "example_db ''stock_reserved''"]
    by (simp add: example_owed_db_def)
  have ok: "orders_db_ok example_owed_db"
    using example_db_ok orders_db_ok_frame [of example_owed_db "example_db ''stock_reserved''"]
    by (simp add: example_owed_db_def)
  have ids: "outbox_ids example_owed_db = {}" by (simp add: example_owed_db_def outbox_ids_def)
  show ?thesis
    using first_park_dead_letters [OF example_owed_row, of "world_answering (Call_Failed ''down'')"
        default_dispatcher_config ?o "fst ?d" "snd ?d"] f ok ids
    by (auto simp: new_command_row_def letter_of_def)
qed

lemma sweep_sends_every_due_command_witness:
  "sent_row (example_id 6) (snd (sweep_cycle default_dispatcher_config \<lparr> sw_pending_grace = 10000, sw_batch_limit = 100 \<rparr>
     (\<lambda>_. False) 20000 (\<lambda>_. world_answering Call_Ok) example_owed_db))"
proof -
  have c: "db_commands example_owed_db = [new_command_row 0 example_owed]"
    by (simp add: example_owed_db_def enqueue_command_def)
  have "command_due 10000 20000 (new_command_row 0 example_owed)"
    by (simp add: command_due_def new_command_row_def stored_datetime_def)
  then show ?thesis
    using sweep_sends_every_due_command [OF example_owed_ok(1), of default_dispatcher_config "\<lambda>_. world_answering Call_Ok"
        "new_command_row 0 example_owed" "\<lparr> sw_pending_grace = 10000, sw_batch_limit = 100 \<rparr>" 20000 "\<lambda>_. False"] c
    by (simp add: new_command_row_def example_owed_def)
qed

end
