(* ===== verification/Fact_Retry.thy ===== *)
theory Fact_Retry
  imports Contracts
begin

text \<open>
  The retry-then-dead-letter wrapper around every fact consumer
  (apps/orders/src/infrastructure/messaging/fact-retry-dispatcher.ts, copied by the projector
  and the notifications).  The processing of the fact is a parameter that may depend on the
  attempt and acts on a state of any type; \<open>clock\<close> gives the instant at which an attempt's
  failure is observed, and \<open>dlq\<close> the failure with which the broker meets the publication of a
  dead letter, if it does.  A finite double is its exact rational value.
\<close>

record retry_policy =
  rp_max_attempts :: rat
  rp_backoff_base :: rat

definition default_retry_policy :: retry_policy where
  "default_retry_policy = \<lparr> rp_max_attempts = 3, rp_backoff_base = 500 \<rparr>"

definition finite_value :: "js_number \<Rightarrow> rat option" where
  "finite_value n = (case n of Js_Int i \<Rightarrow> Some (of_int i) | Js_Fraction q \<Rightarrow> Some q | _ \<Rightarrow> None)"

definition load_fact_retry_policy :: "js_number option \<Rightarrow> js_number option \<Rightarrow> retry_policy" where
  "load_fact_retry_policy env_attempts env_backoff =
     (let d = default_retry_policy;
          att = (case env_attempts of None \<Rightarrow> Some (rp_max_attempts d) | Some n \<Rightarrow> finite_value n);
          base = (case env_backoff of None \<Rightarrow> Some (rp_backoff_base d) | Some n \<Rightarrow> finite_value n) in
      \<lparr> rp_max_attempts = (case att of Some q \<Rightarrow> if 0 < q then q else rp_max_attempts d | None \<Rightarrow> rp_max_attempts d),
        rp_backoff_base = (case base of Some q \<Rightarrow> if 0 \<le> q then q else rp_backoff_base d | None \<Rightarrow> rp_backoff_base d) \<rparr>)"

record 'e fact_letter =
  fl_topic :: string
  fl_envelope :: envelope
  fl_consumer :: string
  fl_attempts :: rat
  fl_error :: "'e option"
  fl_first_failed :: instant
  fl_failed :: instant

datatype ('e, 'r) retry_end = Delivered 'r | Exhausted "instant option" "'e option" nat

text \<open>
  The end of a dispatch.  The publication of the dead letter is awaited and nothing catches its
  failure: the dispatch rejects with it, the offset is not committed and the broker delivers the
  fact again.
\<close>

datatype 'e dispatch_end =
    Fact_Handled
  | Fact_Dead_Lettered "'e fact_letter"
  | Dispatch_Rejected "'e fact_letter" string

primrec offset_committed :: "'e dispatch_end \<Rightarrow> bool" where
  "offset_committed Fact_Handled = True"
| "offset_committed (Fact_Dead_Lettered l) = True"
| "offset_committed (Dispatch_Rejected l m) = False"

primrec dispatch_letter :: "'e dispatch_end \<Rightarrow> 'e fact_letter option" where
  "dispatch_letter Fact_Handled = None"
| "dispatch_letter (Fact_Dead_Lettered l) = Some l"
| "dispatch_letter (Dispatch_Rejected l m) = Some l"

text \<open>The loop, from attempt \<open>k\<close> on: the end, the delays and the state.\<close>

function retry_loop ::
    "retry_policy \<Rightarrow> (nat \<Rightarrow> 'db \<Rightarrow> ('e + 'r) \<times> 'db) \<Rightarrow> (nat \<Rightarrow> instant) \<Rightarrow> nat \<Rightarrow> instant option \<Rightarrow> 'e option \<Rightarrow> 'db \<Rightarrow>
      ('e, 'r) retry_end \<times> rat list \<times> 'db" where
  "retry_loop pol process clock k first_at last_error db =
     (if of_nat k \<le> rp_max_attempts pol then
        (case process k db of
           (Inr r, db') \<Rightarrow> (Delivered r, [], db')
         | (Inl e, db') \<Rightarrow>
             (let first' = (case first_at of None \<Rightarrow> Some (clock k) | Some t \<Rightarrow> Some t);
                  (res, delays, db2) = retry_loop pol process clock (Suc k) first' (Some e) db' in
              (res, (if of_nat k < rp_max_attempts pol then rp_backoff_base pol * 2 ^ (k - 1) # delays else delays), db2)))
      else (Exhausted first_at last_error k, [], db))"
  by pat_completeness auto

termination
proof (relation "measure (\<lambda>(pol, process, clock, k, first_at, last_error, db). Suc (nat (floor (rp_max_attempts pol))) - k)")
  fix pol :: retry_policy and k :: nat
  assume "rat_of_nat k \<le> rp_max_attempts pol"
  then have "k < Suc (nat (floor (rp_max_attempts pol)))" by (simp add: le_nat_iff le_floor_iff less_Suc_eq_le)
  then show "((pol, process, clock, Suc k, f, l, d), pol, process, clock, k, f', l', d')
      \<in> measure (\<lambda>(pol, process, clock, k, first_at, last_error, db). Suc (nat (floor (rp_max_attempts pol))) - k)"
    for process clock f l d f' l' d' by simp
qed auto

declare retry_loop.simps [simp del]

definition fact_dispatch ::
    "retry_policy \<Rightarrow> (nat \<Rightarrow> 'db \<Rightarrow> ('e + 'r) \<times> 'db) \<Rightarrow> (nat \<Rightarrow> instant) \<Rightarrow> string option \<Rightarrow> string \<Rightarrow> envelope \<Rightarrow> string \<Rightarrow>
      'db \<Rightarrow> ('e dispatch_end \<times> rat list) \<times> 'db" where
  "fact_dispatch pol process clock dlq topic env consumer db =
     (case retry_loop pol process clock 1 None None db of
        (Delivered _, delays, db') \<Rightarrow> ((Fact_Handled, delays), db')
      | (Exhausted first_at last_error k, delays, db') \<Rightarrow>
          (let letter = \<lparr> fl_topic = topic, fl_envelope = env, fl_consumer = consumer, fl_attempts = rp_max_attempts pol,
             fl_error = last_error, fl_first_failed = (case first_at of Some t \<Rightarrow> t | None \<Rightarrow> clock k),
             fl_failed = clock k \<rparr>
           in ((case dlq of None \<Rightarrow> Fact_Dead_Lettered letter | Some m \<Rightarrow> Dispatch_Rejected letter m, delays), db')))"

section \<open>Correctness\<close>

text \<open>The states an endless run of attempts would go through, and the attempts allowed.\<close>

primrec state_before :: "(nat \<Rightarrow> 'db \<Rightarrow> ('e + 'r) \<times> 'db) \<Rightarrow> nat \<Rightarrow> 'db \<Rightarrow> 'db" where
  "state_before process 0 db = db"
| "state_before process (Suc k) db = (if k = 0 then db else snd (process k (state_before process k db)))"

definition attempt_fails :: "(nat \<Rightarrow> 'db \<Rightarrow> ('e + 'r) \<times> 'db) \<Rightarrow> 'db \<Rightarrow> nat \<Rightarrow> bool" where
  "attempt_fails process db k = (\<not> is_ok (fst (process k (state_before process k db))))"

definition allowed_attempts :: "retry_policy \<Rightarrow> nat" where
  "allowed_attempts pol = nat (floor (rp_max_attempts pol))"

lemma attempt_allowed: "0 < k \<Longrightarrow> of_nat k \<le> rp_max_attempts pol \<longleftrightarrow> k \<le> allowed_attempts pol"
proof -
  assume "0 < k"
  then have "(k \<le> nat z) = (int k \<le> z)" for z by linarith
  then show ?thesis by (simp add: allowed_attempts_def le_floor_iff)
qed

lemma attempt_failsD:
  assumes "attempt_fails process db k" "0 < k"
  shows "\<exists>e. process k (state_before process k db) = (Inl e, state_before process (Suc k) db)"
proof -
  obtain a d where p: "process k (state_before process k db) = (a, d)" by (metis prod.collapse)
  then obtain e where "a = Inl e" using assms(1) by (cases a) (auto simp: attempt_fails_def)
  then show ?thesis using p assms(2) by simp
qed

lemma retry_loop_delivers:
  assumes "\<not> attempt_fails process db n" "\<forall>j. k \<le> j \<and> j < n \<longrightarrow> attempt_fails process db j"
    and "0 < k" "k \<le> n" "n \<le> allowed_attempts pol"
  shows "\<exists>r delays. retry_loop pol process clock k f l (state_before process k db) =
    (Delivered r, delays, snd (process n (state_before process n db))) \<and> fst (process n (state_before process n db)) = Inr r"
  using assms
proof (induction "n - k" arbitrary: k f l)
  case 0
  then have "k = n" by simp
  moreover obtain r db' where "process n (state_before process n db) = (Inr r, db')"
    using 0 by (metis attempt_fails_def is_ok_iff prod.collapse)
  ultimately show ?case using 0 attempt_allowed [of n pol] by (simp add: retry_loop.simps)
next
  case (Suc d)
  then have fail: "attempt_fails process db k" by simp
  have d: "d = n - Suc k" "Suc k \<le> n" using Suc.hyps(2) by linarith+
  then obtain e where e: "process k (state_before process k db) = (Inl e, state_before process (Suc k) db)"
    using attempt_failsD [OF fail Suc.prems(3)] by blast
  obtain r delays where "retry_loop pol process clock (Suc k) (case f of None \<Rightarrow> Some (clock k) | Some t \<Rightarrow> Some t) (Some e)
      (state_before process (Suc k) db) = (Delivered r, delays, snd (process n (state_before process n db)))"
      "fst (process n (state_before process n db)) = Inr r"
    using Suc.hyps(1) [of "Suc k" "case f of None \<Rightarrow> Some (clock k) | Some t \<Rightarrow> Some t" "Some e"] d Suc.prems
    by (auto simp del: state_before.simps)
  then show ?case using e attempt_allowed [of k pol] Suc.prems
    by (subst retry_loop.simps) (simp add: Let_def del: state_before.simps)
qed

lemma retry_loop_exhausts:
  assumes "\<forall>j. k \<le> j \<and> j \<le> allowed_attempts pol \<longrightarrow> attempt_fails process db j"
    and "0 < k" "k \<le> Suc (allowed_attempts pol)"
  shows "\<exists>delays l'. retry_loop pol process clock k f l (state_before process k db) =
    (Exhausted (if k \<le> allowed_attempts pol \<and> f = None then Some (clock k) else f) l' (Suc (allowed_attempts pol)), delays,
     state_before process (Suc (allowed_attempts pol)) db) \<and>
    (if k \<le> allowed_attempts pol
     then \<exists>e. l' = Some e \<and> fst (process (allowed_attempts pol) (state_before process (allowed_attempts pol) db)) = Inl e
     else l' = l)"
  using assms
proof (induction "Suc (allowed_attempts pol) - k" arbitrary: k f l)
  case 0
  then have "k = Suc (allowed_attempts pol)" by simp
  then show ?case using attempt_allowed [of k pol] 0 by (subst retry_loop.simps) (simp del: state_before.simps)
next
  case (Suc d)
  then have k: "k \<le> allowed_attempts pol" by simp
  have d: "d = Suc (allowed_attempts pol) - Suc k" using Suc.hyps(2) by linarith
  then obtain e where e: "process k (state_before process k db) = (Inl e, state_before process (Suc k) db)"
    using attempt_failsD [of process db k] Suc.prems k by auto
  let ?f = "case f of None \<Rightarrow> Some (clock k) | Some t \<Rightarrow> Some t"
  obtain delays l' where rest: "retry_loop pol process clock (Suc k) ?f (Some e) (state_before process (Suc k) db) =
      (Exhausted ?f l' (Suc (allowed_attempts pol)), delays, state_before process (Suc (allowed_attempts pol)) db)"
    and l': "if Suc k \<le> allowed_attempts pol
      then \<exists>x. l' = Some x \<and> fst (process (allowed_attempts pol) (state_before process (allowed_attempts pol) db)) = Inl x
      else l' = Some e"
    using Suc.hyps(1) [of "Suc k" ?f "Some e"] d Suc.prems k by (auto simp del: state_before.simps split: option.splits)
  have "\<exists>x. l' = Some x \<and> fst (process (allowed_attempts pol) (state_before process (allowed_attempts pol) db)) = Inl x"
  proof (cases "k = allowed_attempts pol")
    case True
    then show ?thesis using l' e by (simp del: state_before.simps)
  next
    case False
    then show ?thesis using l' k by simp
  qed
  then show ?case using e rest attempt_allowed [of k pol] Suc.prems k
    by (subst retry_loop.simps) (auto simp: Let_def simp del: state_before.simps split: option.splits)
qed

text \<open>A fact is processed in line until its first success: with n the first attempt that succeeds
  among the allowed ones, the wrapper leaves exactly the state of that attempt and publishes
  nothing; when every allowed attempt fails it tries to publish one dead letter with the unmodified
  envelope, the last error and the instant of the first failure.  It then returns - so the offset
  commits and the partition is not blocked - unless the publication fails.\<close>

theorem fact_processed_or_dead_lettered:
  assumes "1 \<le> rp_max_attempts pol"
  shows "case find (\<lambda>j. \<not> attempt_fails process db j) [1..<Suc (allowed_attempts pol)] of
      Some n \<Rightarrow> (\<exists>delays. fact_dispatch pol process clock dlq topic env consumer db =
        ((Fact_Handled, delays), snd (process n (state_before process n db))))
    | None \<Rightarrow> (\<exists>letter delays e. fact_dispatch pol process clock dlq topic env consumer db =
        ((case dlq of None \<Rightarrow> Fact_Dead_Lettered letter | Some m \<Rightarrow> Dispatch_Rejected letter m, delays),
         state_before process (Suc (allowed_attempts pol)) db) \<and>
        fl_topic letter = topic \<and> fl_envelope letter = env \<and> fl_consumer letter = consumer \<and>
        fl_error letter = Some e \<and>
        fst (process (allowed_attempts pol) (state_before process (allowed_attempts pol) db)) = Inl e \<and>
        fl_first_failed letter = clock 1)"
proof -
  have pos: "1 \<le> allowed_attempts pol" using assms attempt_allowed [of 1 pol] by simp
  have start: "state_before process 1 db = db" by simp
  show ?thesis
  proof (cases "find (\<lambda>j. \<not> attempt_fails process db j) [1..<Suc (allowed_attempts pol)]")
    case None
    then have "\<forall>j. 1 \<le> j \<and> j \<le> allowed_attempts pol \<longrightarrow> attempt_fails process db j"
      by (auto simp: find_None_iff)
    then obtain delays e where loop: "retry_loop pol process clock 1 None None db =
        (Exhausted (Some (clock 1)) (Some e) (Suc (allowed_attempts pol)), delays, state_before process (Suc (allowed_attempts pol)) db)"
        and last: "fst (process (allowed_attempts pol) (state_before process (allowed_attempts pol) db)) = Inl e"
      using retry_loop_exhausts [of 1 pol process db clock None None] pos start by auto
    let ?l = "\<lparr> fl_topic = topic, fl_envelope = env, fl_consumer = consumer, fl_attempts = rp_max_attempts pol,
      fl_error = Some e, fl_first_failed = clock 1, fl_failed = clock (Suc (allowed_attempts pol)) \<rparr>"
    have run: "fact_dispatch pol process clock dlq topic env consumer db =
        ((case dlq of None \<Rightarrow> Fact_Dead_Lettered ?l | Some m \<Rightarrow> Dispatch_Rejected ?l m, delays),
         state_before process (Suc (allowed_attempts pol)) db)"
      using loop by (simp add: fact_dispatch_def Let_def del: state_before.simps split: option.split)
    show ?thesis unfolding None option.case
      by (intro exI [of _ ?l] exI [of _ delays] exI [of _ e] conjI run) (simp_all add: last)
  next
    case (Some n)
    then have n: "\<not> attempt_fails process db n" "1 \<le> n" "n \<le> allowed_attempts pol"
        "\<forall>j. 1 \<le> j \<and> j < n \<longrightarrow> attempt_fails process db j"
      by (auto simp: find_Some_iff simp del: upt_Suc) (metis Suc_le_eq Suc_pred add_diff_inverse_nat diff_Suc_1 le_less_trans less_diff_conv less_or_eq_imp_le not_less)
    then show ?thesis
      using retry_loop_delivers [OF n(1,4), of pol clock None None] Some start
      by (auto simp: fact_dispatch_def)
  qed
qed


definition example_retried :: envelope where
  "example_retried = \<lparr> ev_id = ''e'', ev_type = Order_Placed, ev_aggregate = ''a'', ev_correlation = ''a'',
     ev_causation = ''a'', ev_at = 0, ev_payload = Raw_P ''x'' \<rparr>"

text \<open>A process that fails twice and then succeeds.\<close>

definition example_flaky :: "nat \<Rightarrow> nat \<Rightarrow> (string + unit) \<times> nat" where
  "example_flaky k n = (if k < 3 then (Inl ''down'', n) else (Inr (), n + 1))"

lemma fact_processed_or_dead_lettered_witness:
  "\<exists>delays. fact_dispatch default_retry_policy example_flaky int None ''topic'' example_retried ''orders.saga'' 0 = ((Fact_Handled, delays), 1)"
proof -
  have a: "allowed_attempts default_retry_policy = 3"
    by (simp add: allowed_attempts_def default_retry_policy_def)
  have s: "state_before example_flaky 1 0 = 0" "state_before example_flaky 2 0 = 0" "state_before example_flaky 3 0 = 0"
    by (simp_all add: example_flaky_def numeral_2_eq_2 numeral_3_eq_3)
  have f: "find (\<lambda>j. \<not> attempt_fails example_flaky 0 j) [1..<Suc 3] = Some 3"
    using s by (simp add: attempt_fails_def example_flaky_def upt_rec [of 1] upt_rec [of 2] upt_rec [of 3] eval_nat_numeral del: state_before.simps)
  show ?thesis
    using fact_processed_or_dead_lettered [where pol = default_retry_policy and process = example_flaky and db = 0 and clock = int and dlq = None]
    unfolding a f using s(3) by (simp add: default_retry_policy_def example_flaky_def del: state_before.simps)
qed

text \<open>The loader does not keep the number of attempts at one or more: with
  FACT_RETRY_MAX_ATTEMPTS set to a fraction below one the loaded policy allows no attempt at
  all, and a fact is dead-lettered without ever having been processed, with no error and a
  first-failure instant that is not a failure's.\<close>

theorem fractional_policy_never_processes:
  assumes "0 < q" and "q < 1"
  shows "fact_dispatch (load_fact_retry_policy (Some (Js_Fraction q)) base) process clock None topic env consumer db =
    ((Fact_Dead_Lettered \<lparr> fl_topic = topic, fl_envelope = env, fl_consumer = consumer, fl_attempts = q, fl_error = None,
       fl_first_failed = clock 1, fl_failed = clock 1 \<rparr>, []), db)"
proof -
  have "rp_max_attempts (load_fact_retry_policy (Some (Js_Fraction q)) base) = q"
    using assms by (simp add: load_fact_retry_policy_def Let_def finite_value_def)
  then show ?thesis using assms by (simp add: fact_dispatch_def retry_loop.simps)
qed

lemma fractional_policy_never_processes_witness:
  "snd (fact_dispatch (load_fact_retry_policy (Some (Js_Fraction (1 / 2))) None) example_flaky int None ''topic'' example_retried ''orders.saga'' 0) = 0"
  using fractional_policy_never_processes [where q = "1 / 2" and base = None and process = example_flaky and clock = int and db = 0]
  by simp

end
