(* ===== verification/Place_Order.thy ===== *)
theory Place_Order
  imports Idempotent_Consumer
begin

text \<open>
  Order acceptance (apps/orders/src/application/place-order.handler.ts,
  place-order-request-id.ts, infrastructure/persistence/order-number-allocator.ts and
  order-reference-data.repository.ts).  The reply of the stock check is a parameter.
  The database the handler reads before its transaction and the one its transaction runs on
  are two arguments of \<open>execute_place\<close>, equal when nothing commits in between; the k-th
  identifier drawn by a call is \<open>fresh k\<close>.  Codes are compared exactly, as a binary
  collation does.
\<close>

section \<open>Commands, replies and errors\<close>

record place_line_command =
  plc_product :: string
  plc_quantity :: js_number
  plc_unit_price :: "js_number option"
  plc_discount :: "js_number option"

record place_command =
  pc_request_id :: "string option"
  pc_retailer :: string
  pc_company :: string
  pc_currency :: string
  pc_lines :: "place_line_command list"
  pc_order_discount :: "js_number option"
  pc_notes :: "string option"

record place_result =
  pr_order_id :: uid
  pr_reference :: string
  pr_currency :: string
  pr_initial :: int
  pr_discount :: int
  pr_total :: int
  pr_order_date :: instant

record stock_line_result =
  slr_product :: string
  slr_requested :: js_number
  slr_available :: int
  slr_sufficient :: bool

record stock_answer =
  sa_available :: bool
  sa_lines :: "stock_line_result list"

datatype stock_check_failure = Stock_Check_Timeout | Stock_Check_Transport string

datatype place_error =
    Order_Discount_Not_Supported js_number string
  | Reference_Data_Not_Found reference_kind string
  | Stock_Unavailable "stock_line_result list"
  | Stock_Check_Failed stock_check_failure
  | Place_Kernel kernel_error
  | Place_Order_Error order_error
  | Place_Store store_error

section \<open>Reference data\<close>

record resolved_product =
  rs_description :: string
  rs_price :: money

record resolved_reference =
  rs_retailer :: "string option"
  rs_company :: "string option"
  rs_currency :: bool
  rs_products :: "(string \<times> resolved_product) list"

definition resolve_product :: "reference_data \<Rightarrow> string \<Rightarrow> (kernel_error + string \<times> resolved_product) list" where
  "resolve_product rd code = (case map_of (rd_products rd) code of
     None \<Rightarrow> []
   | Some p \<Rightarrow> if rp_currency p \<notin> set (rd_currencies rd) then []
       else [bindR (money_of (Js_Int (rp_price p)) (rp_currency p)) (\<lambda>m.
         Inr (code, \<lparr> rs_description = rp_description p, rs_price = m \<rparr>))])"

definition resolve_party :: "string option \<Rightarrow> kernel_error + string option" where
  "resolve_party row = (case row of None \<Rightarrow> Inr None | Some g \<Rightarrow> bindR (gln_of g) (\<lambda>x. Inr (Some x)))"

definition resolve_reference :: "reference_data \<Rightarrow> place_command \<Rightarrow> kernel_error + resolved_reference" where
  "resolve_reference rd cmd =
     bindR (mapR id (concat (map (resolve_product rd) (remdups (map plc_product (pc_lines cmd)))))) (\<lambda>ps.
     bindR (resolve_party (map_of (rd_retailers rd) (pc_retailer cmd))) (\<lambda>r.
     bindR (resolve_party (map_of (rd_companies rd) (pc_company cmd))) (\<lambda>c.
     Inr \<lparr> rs_retailer = r, rs_company = c, rs_currency = (pc_currency cmd \<in> set (rd_currencies rd)), rs_products = ps \<rparr>)))"

definition assert_reference_data_complete :: "place_command \<Rightarrow> resolved_reference \<Rightarrow> place_error + unit" where
  "assert_reference_data_complete cmd rs =
     (if rs_retailer rs = None then Inl (Reference_Data_Not_Found Ref_Retailer (pc_retailer cmd))
      else if rs_company rs = None then Inl (Reference_Data_Not_Found Ref_Company (pc_company cmd))
      else if \<not> rs_currency rs then Inl (Reference_Data_Not_Found Ref_Currency (pc_currency cmd))
      else (case find (\<lambda>l. map_of (rs_products rs) (plc_product l) = None) (pc_lines cmd) of
          Some l \<Rightarrow> Inl (Reference_Data_Not_Found Ref_Product (plc_product l))
        | None \<Rightarrow> Inr ()))"

section \<open>Order numbers\<close>

text \<open>CAST(SUBSTRING(order_reference, 5) AS UNSIGNED): the leading digits of the suffix.\<close>

definition sequence_of_reference :: "string \<Rightarrow> nat" where
  "sequence_of_reference ref = read_decimal (takeWhile is_digit (drop 4 ref))"

definition max_sequence :: "orders_db \<Rightarrow> nat" where
  "max_sequence db = fold max (map (\<lambda>r. sequence_of_reference (or_reference r)) (db_orders db)) 0"

definition next_order_number :: "orders_db \<Rightarrow> store_error + order_number \<times> orders_db" where
  "next_order_number db =
     (let start_at = max_sequence db + 1;
          cur = (case db_sequence db of None \<Rightarrow> start_at | Some v \<Rightarrow> v) in
      if \<not> fits_int (int cur + 1) then Inl Out_Of_Range
      else bindR (mapErr Row_Kernel_Error (order_number_from_sequence (Js_Int (int cur)))) (\<lambda>ref.
        Inr (ref, db \<lparr> db_sequence := Some (cur + 1) \<rparr>)))"

section \<open>The handler\<close>

definition to_line_input :: "string \<Rightarrow> resolved_reference \<Rightarrow> place_line_command \<Rightarrow> kernel_error + line_input" where
  "to_line_input cur rs l = (let p = the (map_of (rs_products rs) (plc_product l)) in
     bindR (quantity_of (plc_quantity l)) (\<lambda>q.
     bindR (case plc_unit_price l of Some v \<Rightarrow> money_of v cur | None \<Rightarrow> Inr (rs_price p)) (\<lambda>price.
     bindR (money_of (case plc_discount l of Some v \<Rightarrow> v | None \<Rightarrow> Js_Int 0) cur) (\<lambda>d.
     Inr \<lparr> li_product = plc_product l, li_description = rs_description p, li_quantity = q,
       li_unit_price = price, li_discount = d \<rparr>))))"

definition resolve_causation_id :: "uid \<Rightarrow> string option \<Rightarrow> uid" where
  "resolve_causation_id generated req = (case req of
     None \<Rightarrow> generated
   | Some r \<Rightarrow> (case unique_id_from r of Inr u \<Rightarrow> u | Inl _ \<Rightarrow> generated))"

definition to_place_result :: "order \<Rightarrow> place_result" where
  "to_place_result ord = \<lparr> pr_order_id = o_id ord, pr_reference = order_reference_value ord,
     pr_currency = o_currency ord, pr_initial = amount (o_initial_amount ord),
     pr_discount = amount (o_initial_discount ord), pr_total = amount (o_total ord), pr_order_date = o_date ord \<rparr>"

text \<open>The request id is used as a key only when it is not the empty string.\<close>

definition truthy :: "string option \<Rightarrow> bool" where
  "truthy req = (case req of Some r \<Rightarrow> r \<noteq> [] | None \<Rightarrow> False)"

definition is_duplicate_request_id_error :: "store_error \<Rightarrow> bool" where
  "is_duplicate_request_id_error e = (e = Duplicate_Key Key_Request_Id)"

definition place_in_transaction ::
    "instant \<Rightarrow> (nat \<Rightarrow> uid) \<Rightarrow> place_command \<Rightarrow> resolved_reference \<Rightarrow> orders_db \<Rightarrow> place_error + place_result \<times> orders_db" where
  "place_in_transaction now fresh cmd rs db =
     bindR (mapErr Place_Store (next_order_number db)) (\<lambda>(ref, db1).
     bindR (mapErr Place_Kernel (mapR (to_line_input (pc_currency cmd) rs) (pc_lines cmd))) (\<lambda>lines.
     bindR (mapErr Place_Order_Error (place_order (\<lambda>k. fresh (k + 2))
       \<lparr> pi_id = fresh 0, pi_reference = ref, pi_date = now,
         pi_buyer_gln = the (rs_retailer rs), pi_buyer_code = pc_retailer cmd,
         pi_supplier_gln = the (rs_company rs), pi_supplier_code = pc_company cmd,
         pi_currency = pc_currency cmd, pi_lines = lines, pi_notes = pc_notes cmd \<rparr>
       \<lparr> tc_at = now, tc_causation = resolve_causation_id (fresh 1) (pc_request_id cmd) \<rparr>)) (\<lambda>ord.
     case save_order now ord (pc_request_id cmd) db1 of
       Inr db2 \<Rightarrow> Inr (to_place_result ord, db2)
     | Inl e \<Rightarrow>
       if truthy (pc_request_id cmd) \<and> is_duplicate_request_id_error e
       then bindR (mapErr Place_Store (find_by_request_id (the (pc_request_id cmd)) db1)) (\<lambda>winner.
         case winner of Some w \<Rightarrow> Inr (to_place_result w, db1) | None \<Rightarrow> Inl (Place_Store e))
       else Inl (Place_Store e))))"

definition execute_place ::
    "(string \<Rightarrow> (string \<times> js_number) list \<Rightarrow> stock_check_failure + stock_answer) \<Rightarrow> instant \<Rightarrow> (nat \<Rightarrow> uid) \<Rightarrow>
      place_command \<Rightarrow> orders_db \<Rightarrow> orders_db \<Rightarrow> (place_error + place_result) \<times> orders_db" where
  "execute_place stock_check now fresh cmd db_read db_tx =
     (if pc_order_discount cmd \<noteq> None \<and> pc_order_discount cmd \<noteq> Some (Js_Int 0)
      then (Inl (Order_Discount_Not_Supported (the (pc_order_discount cmd)) (pc_currency cmd)), db_tx)
      else case (if truthy (pc_request_id cmd) then find_by_request_id (the (pc_request_id cmd)) db_read else Inr None) of
        Inl e \<Rightarrow> (Inl (Place_Store e), db_tx)
      | Inr (Some existing) \<Rightarrow> (Inr (to_place_result existing), db_tx)
      | Inr None \<Rightarrow>
        (case resolve_reference (db_reference db_read) cmd of
           Inl e \<Rightarrow> (Inl (Place_Kernel e), db_tx)
         | Inr rs \<Rightarrow>
           (case assert_reference_data_complete cmd rs of
              Inl e \<Rightarrow> (Inl e, db_tx)
            | Inr _ \<Rightarrow>
              (case stock_check (pc_company cmd) (map (\<lambda>l. (plc_product l, plc_quantity l)) (pc_lines cmd)) of
                 Inl f \<Rightarrow> (Inl (Stock_Check_Failed f), db_tx)
               | Inr ans \<Rightarrow>
                 if \<not> sa_available ans
                 then (Inl (Stock_Unavailable (filter (\<lambda>l. \<not> slr_sufficient l) (sa_lines ans))), db_tx)
                 else unit_of_work (place_in_transaction now fresh cmd rs) db_tx))))"

section \<open>Order numbers never collide\<close>

definition next_value :: "orders_db \<Rightarrow> nat" where
  "next_value db = (case db_sequence db of None \<Rightarrow> max_sequence db + 1 | Some v \<Rightarrow> v)"

definition sequence_ok :: "orders_db \<Rightarrow> bool" where
  "sequence_ok db \<longleftrightarrow> list_all (\<lambda>r. sequence_of_reference (or_reference r) < next_value db) (db_orders db)"

lemma fold_max_le: "x \<in> set xs \<or> x \<le> a \<Longrightarrow> (x :: nat) \<le> fold max xs a"
proof (induction xs arbitrary: a)
  case (Cons y ys)
  then show ?case by (cases "x = y") (auto intro!: Cons.IH)
qed simp

lemma sequence_ok_virgin: "db_sequence db = None \<Longrightarrow> sequence_ok db"
proof -
  assume n: "db_sequence db = None"
  have "sequence_of_reference (or_reference r) \<le> max_sequence db" if "r \<in> set (db_orders db)" for r
    unfolding max_sequence_def using that by (intro fold_max_le) simp
  then show ?thesis using n by (simp add: sequence_ok_def next_value_def list_all_iff less_Suc_eq_le)
qed

lemma sequence_of_formatted:
  assumes "format_reference ''ORD'' (Js_Int (int n)) = Inr r" "plain_number (int n)"
  shows "sequence_of_reference r = n"
proof -
  have "reference_shape ''ORD'' r"
    using format_reference_parses [OF assms(2,1)] by (simp add: parse_reference_def split: if_splits)
  then have "list_all is_digit (drop 4 r)" by (simp add: reference_shape_def eval_nat_numeral)
  then have "takeWhile is_digit (drop 4 r) = drop 4 r" by (simp add: takeWhile_eq_all_conv list_all_iff)
  moreover have "read_decimal (drop 4 r) = n"
    using format_reference_reads_back [OF assms(2,1)] by (simp add: eval_nat_numeral)
  ultimately show ?thesis by (simp only: sequence_of_reference_def)
qed

lemma plain_number_int: "fits_int (int n + 1) \<Longrightarrow> plain_number (int n)"
  by (simp add: fits_int_def plain_number_def)

lemma next_order_number_Inr:
  assumes "next_order_number db = Inr (ref, db1)"
  shows "\<exists>r. ref = Order_Number r \<and> sequence_of_reference r = next_value db \<and> order_number_of r = Inr ref \<and>
    db1 = db \<lparr> db_sequence := Some (next_value db + 1) \<rparr>"
proof -
  let ?k = "next_value db"
  have fits: "fits_int (int ?k + 1)"
    and ref: "order_number_from_sequence (Js_Int (int ?k)) = Inr ref"
    and db1: "db1 = db \<lparr> db_sequence := Some (?k + 1) \<rparr>"
    using assms unfolding next_order_number_def Let_def next_value_def by (auto simp: bindR_Inr split: if_splits)
  obtain r where r: "format_reference ''ORD'' (Js_Int (int ?k)) = Inr r" "ref = Order_Number r"
    using ref by (auto simp: order_number_from_sequence_def bindR_Inr)
  note plain = plain_number_int [OF fits]
  show ?thesis
    using sequence_of_formatted [OF r(1) plain] format_reference_parses [OF plain r(1)] r(2) db1
    by (simp add: order_number_of_def)
qed

section \<open>What a successful placing leaves behind\<close>

definition fresh_ids :: "(nat \<Rightarrow> uid) \<Rightarrow> nat \<Rightarrow> orders_db \<Rightarrow> bool" where
  "fresh_ids fresh n db \<longleftrightarrow> (\<forall>k<n. unique_id_from (fresh k) = Inr (fresh k)) \<and> distinct (map fresh [0..<n]) \<and>
     (\<forall>k<n. \<forall>it\<in>set (db_items db). it_id it \<noteq> fresh k \<and> it_order it \<noteq> fresh k)"

lemma to_line_input_ok:
  assumes "to_line_input cur rs l = Inr li" "\<forall>x\<in>set (rs_products rs). money_ok (rs_price (snd x))"
    and "map_of (rs_products rs) (plc_product l) \<noteq> None"
  shows "line_input_ok li \<and> li_product li = plc_product l"
proof -
  have "money_ok (rs_price (the (map_of (rs_products rs) (plc_product l))))"
    using assms(2,3) by (force dest: map_of_SomeD)
  then show ?thesis using assms(1)
    by (auto simp: to_line_input_def Let_def bindR_Inr line_input_ok_def quantity_ok_def quantity_of_Inr
        dest: money_of_ok split: option.splits)
qed

lemma resolve_reference_Inr:
  assumes "resolve_reference rd cmd = Inr rs"
  shows "(\<forall>x\<in>set (rs_products rs). money_ok (rs_price (snd x)) \<and> map_of (rd_products rd) (fst x) \<noteq> None) \<and>
    (rs_retailer rs \<noteq> None \<longrightarrow> map_of (rd_retailers rd) (pc_retailer cmd) = rs_retailer rs \<and>
       gln_of (the (rs_retailer rs)) = Inr (the (rs_retailer rs))) \<and>
    (rs_company rs \<noteq> None \<longrightarrow> map_of (rd_companies rd) (pc_company cmd) = rs_company rs \<and>
       gln_of (the (rs_company rs)) = Inr (the (rs_company rs))) \<and>
    (rs_currency rs \<longleftrightarrow> pc_currency cmd \<in> set (rd_currencies rd))"
proof -
  have party: "resolve_party row = Inr (Some g) \<Longrightarrow> row = Some g \<and> gln_of g = Inr g" for row g
    by (auto simp: resolve_party_def bindR_Inr gln_of_Inr split: option.splits)
  have prods: "\<forall>x\<in>set ps. money_ok (rs_price (snd x)) \<and> map_of (rd_products rd) (fst x) \<noteq> None"
    if "mapR id (concat (map (resolve_product rd) cs)) = Inr ps" for ps cs
  proof
    fix x assume "x \<in> set ps"
    moreover have "list_all2 (\<lambda>a b. a = Inr b) (concat (map (resolve_product rd) cs)) ps"
      using that by (simp add: mapR_list_all2)
    ultimately have "Inr x \<in> set (concat (map (resolve_product rd) cs))"
      by (auto simp: list_all2_conv_all_nth in_set_conv_nth simp del: set_concat)
    then show "money_ok (rs_price (snd x)) \<and> map_of (rd_products rd) (fst x) \<noteq> None"
      by (auto simp: resolve_product_def bindR_Inr_swap dest: money_of_ok sym [where s = "Some _"]
          split: option.splits if_splits)
  qed
  obtain ps r c where ps: "mapR id (concat (map (resolve_product rd) (remdups (map plc_product (pc_lines cmd))))) = Inr ps"
    and r: "resolve_party (map_of (rd_retailers rd) (pc_retailer cmd)) = Inr r"
    and c: "resolve_party (map_of (rd_companies rd) (pc_company cmd)) = Inr c"
    and rs: "rs = \<lparr> rs_retailer = r, rs_company = c, rs_currency = (pc_currency cmd \<in> set (rd_currencies rd)), rs_products = ps \<rparr>"
    using assms by (auto simp: resolve_reference_def bindR_Inr)
  have "r \<noteq> None \<longrightarrow> map_of (rd_retailers rd) (pc_retailer cmd) = r \<and> gln_of (the r) = Inr (the r)"
    using party r by (cases r) auto
  moreover have "c \<noteq> None \<longrightarrow> map_of (rd_companies rd) (pc_company cmd) = c \<and> gln_of (the c) = Inr (the c)"
    using party c by (cases c) auto
  ultimately show ?thesis using prods [OF ps] unfolding rs by (simp only: resolved_reference.select_convs simp_thms)
qed

end
