(* ===== verification/Place_Properties.thy ===== *)
theory Place_Properties
  imports Place_Order Saga_Examples
begin

text \<open>
  What order acceptance guarantees: a placed order is found again as it was placed, a
  repeated request id answers the order of the first request, the loser of a race answers
  the winner's order, and the allocated numbers never collide.
\<close>

section \<open>Saving a new order\<close>

definition item_row_of :: "uid \<Rightarrow> order_line \<Rightarrow> item_row" where
  "item_row_of i l = \<lparr> it_id = ol_id l, it_order = i, it_product = ol_product l,
     it_description = ol_description l, it_price = amount (ol_unit_price l),
     it_quantity = q_value (ol_quantity l), it_discount = amount (ol_discount l) \<rparr>"

lemma item_row_of_simps [simp]:
  "it_id (item_row_of i l) = ol_id l" "it_order (item_row_of i l) = i" "it_product (item_row_of i l) = ol_product l"
  by (simp_all add: item_row_of_def)

lemma to_order_item_rows_Inr:
  "to_order_item_rows db ord = Inr rows \<longleftrightarrow>
     rows = map (item_row_of (o_id ord)) (o_lines ord) \<and>
     (\<forall>l\<in>set (o_lines ord). map_of (rd_products (db_reference db)) (ol_product l) \<noteq> None)"
proof -
  have "mapR (\<lambda>l. if map_of ps (ol_product l) = None then Inl (Unknown_Reference Ref_Product (ol_product l))
      else Inr (item_row_of i l)) ls = Inr rows \<longleftrightarrow>
    rows = map (item_row_of i) ls \<and> (\<forall>l\<in>set ls. map_of ps (ol_product l) \<noteq> None)" for ps i and ls :: "order_line list"
  proof (induction ls arbitrary: rows)
    case (Cons l ls)
    then show ?case by (cases "map_of ps (ol_product l)") (auto simp: bindR_Inr)
  qed auto
  then show ?thesis unfolding to_order_item_rows_def item_row_of_def .
qed

lemma fold_upsert_item_new:
  assumes "distinct (map it_id rows)" "\<forall>r\<in>set rows. \<forall>it\<in>set its. it_id it \<noteq> it_id r"
  shows "fold upsert_item rows its = its @ rows"
  using assms
proof (induction rows arbitrary: its)
  case (Cons r rows)
  have "upsert_item r its = its @ [r]"
    using Cons.prems(2) by (auto simp: upsert_item_def list_ex_iff)
  moreover have "\<forall>x\<in>set rows. \<forall>it\<in>set (its @ [r]). it_id it \<noteq> it_id x"
    using Cons.prems by (auto simp: image_iff)
  ultimately show ?case using Cons.IH [of "its @ [r]"] Cons.prems(1) by simp
qed simp

lemma insert_order_row_Inr:
  "insert_order_row row db = Inr db' \<longleftrightarrow>
     fits_int (or_initial_amount row) \<and> fits_int (or_initial_discount row) \<and> fits_int (or_total row) \<and>
     (\<forall>r\<in>set (db_orders db). or_id r \<noteq> or_id row \<and> or_reference r \<noteq> or_reference row \<and>
       (or_request_id row \<noteq> None \<longrightarrow> or_request_id r \<noteq> or_request_id row)) \<and>
     db' = db \<lparr> db_orders := db_orders db @ [row] \<rparr>"
  by (auto simp: insert_order_row_def list_ex_iff)

text \<open>The tables after the order was written: its row, its items, its facts.\<close>

definition placed_db :: "order \<Rightarrow> string option \<Rightarrow> orders_db \<Rightarrow> orders_db" where
  "placed_db ord req db = db \<lparr> db_orders := db_orders db @ [to_orders_table_row ord req],
     db_items := db_items db @ map (item_row_of (o_id ord)) (o_lines ord) \<rparr>"

lemma save_new_order:
  assumes save: "save_order now ord req db = Inr db'" and new: "list_ex (\<lambda>e. ev_type e = Order_Placed) (o_events ord)"
    and ids: "distinct (map ol_id (o_lines ord))" "\<forall>l\<in>set (o_lines ord). \<forall>it\<in>set (db_items db). it_id it \<noteq> ol_id l"
  shows "record_outbox now (o_events ord) (placed_db ord req db) = Inr db' \<and>
    (\<forall>r\<in>set (db_orders db). or_id r \<noteq> o_id ord \<and> or_reference r \<noteq> order_reference_value ord \<and>
      (req \<noteq> None \<longrightarrow> or_request_id r \<noteq> req)) \<and>
    o_currency ord \<in> set (rd_currencies (db_reference db)) \<and>
    map_of (rd_retailers (db_reference db)) (o_retailer ord) \<noteq> None \<and>
    map_of (rd_companies (db_reference db)) (o_company ord) \<noteq> None \<and>
    (\<forall>l\<in>set (o_lines ord). map_of (rd_products (db_reference db)) (ol_product l) \<noteq> None) \<and>
    (\<forall>r\<in>set (map (item_row_of (o_id ord)) (o_lines ord)). fits_int (it_price r) \<and> fits_int (it_quantity r) \<and> fits_int (it_discount r))"
proof -
  let ?o = "ord \<lparr> o_events := [] \<rparr>"
  have row: "to_orders_table_row ?o req = to_orders_table_row ord req"
    by (simp add: to_orders_table_row_def order_reference_value_def)
  obtain db1 items db2 where refs: "o_currency ord \<in> set (rd_currencies (db_reference db))"
      "map_of (rd_retailers (db_reference db)) (o_retailer ord) \<noteq> None"
      "map_of (rd_companies (db_reference db)) (o_company ord) \<noteq> None"
    and ins: "insert_order_row (to_orders_table_row ord req) db = Inr db1"
    and items: "to_order_item_rows db ?o = Inr items"
    and up: "(if items \<noteq> [] then upsert_items items db1 else Inr db1) = Inr db2"
    and rec: "record_outbox now (o_events ord) db2 = Inr db'"
    using save new by (auto simp: save_order_def pull_domain_events_def Let_def bindR_Inr row)
  note r = ins [unfolded insert_order_row_Inr]
  note i = items [unfolded to_order_item_rows_Inr]
  have "fold upsert_item items (db_items db) = db_items db @ items"
    using ids i by (intro fold_upsert_item_new) (auto simp: comp_def)
  then have "db2 = placed_db ord req db"
    using up r i by (auto simp: upsert_items_def placed_db_def split: if_splits)
  moreover have "\<forall>r\<in>set (map (item_row_of (o_id ord)) (o_lines ord)). fits_int (it_price r) \<and> fits_int (it_quantity r) \<and> fits_int (it_discount r)"
    using up i by (auto simp: upsert_items_def list_all_iff split: if_splits)
  ultimately show ?thesis
    using rec refs r i by (auto simp: to_orders_table_row_def)
qed

section \<open>Reading a placed order back\<close>

lemma item_to_line_of:
  assumes "line_ok cur l" "unique_id_from (ol_id l) = Inr (ol_id l)"
  shows "item_to_line cur (item_row_of i l) = Inr l"
proof -
  have "money_of (Js_Int (amount m)) cur = Inr m" if "money_ok m" "currency m = cur" for m
    using that money_eq_euros [of m] by (auto simp: money_of_Js_Int_Inr money_ok_def)
  moreover have "quantity_of (Js_Int (q_value (ol_quantity l))) = Inr (ol_quantity l)"
    using assms(1) by (cases "ol_quantity l") (auto simp: line_ok_def quantity_ok_def quantity_of_def)
  ultimately show ?thesis
    using assms by (simp add: item_to_line_def item_row_of_def line_ok_def)
qed


lemma load_placed_order:
  assumes ord: "order_ok ord" "o_status ord = Placed" and gln: "gln_of (o_buyer_gln ord) = Inr (o_buyer_gln ord)"
      "gln_of (o_supplier_gln ord) = Inr (o_supplier_gln ord)"
      "map_of (rd_retailers (db_reference db)) (o_retailer ord) = Some (o_buyer_gln ord)"
      "map_of (rd_companies (db_reference db)) (o_company ord) = Some (o_supplier_gln ord)"
      "o_currency ord \<in> set (rd_currencies (db_reference db))"
    and t: "compute_order_totals (o_currency ord) (o_lines ord) =
      Inr \<lparr> ot_initial = o_initial_amount ord, ot_discount = o_initial_discount ord, ot_total = o_total ord \<rparr>"
    and ref: "order_number_of (order_reference_value ord) = Inr (o_reference ord)"
    and ids: "unique_id_from (o_id ord) = Inr (o_id ord)" "\<forall>l\<in>set (o_lines ord). unique_id_from (ol_id l) = Inr (ol_id l)"
    and items: "visible_items db (o_id ord) = map (item_row_of (o_id ord)) (o_lines ord)"
  shows "load_order db (to_orders_table_row ord req) =
    Inr (Some (ord \<lparr> o_date := stored_datetime (o_date ord), o_events := [] \<rparr>))"
proof -
  let ?row = "to_orders_table_row ord req"
  let ?sn = "\<lparr> sn_id = o_id ord, sn_reference = o_reference ord, sn_date = stored_datetime (o_date ord), sn_buyer_gln = o_buyer_gln ord,
       sn_retailer = o_retailer ord, sn_supplier_gln = o_supplier_gln ord, sn_company = o_company ord,
       sn_currency = o_currency ord, sn_lines = o_lines ord, sn_status = ''placed'', sn_reason = None, sn_notes = o_notes ord \<rparr>"
  have lines: "list_all (line_ok (o_currency ord)) (o_lines ord)" "o_lines ord \<noteq> []" "o_reason ord = None"
    using ord by (auto simp: order_ok_def)
  have "mapR (item_to_line (o_currency ord)) (map (item_row_of (o_id ord)) (o_lines ord)) = Inr (o_lines ord)"
    using lines(1) ids(2) by (auto simp: mapR_list_all2 list_all2_map1 list.rel_refl_strong list_all_iff
        intro!: list.rel_refl_strong item_to_line_of)
  then have sn: "to_order_snapshot ?row (o_buyer_gln ord) (o_supplier_gln ord) (visible_items db (o_id ord)) = Inr ?sn"
    using gln ref ids ord(2) lines(3) by (simp add: to_order_snapshot_def to_orders_table_row_def items)
  have st: "status_of_name ''placed'' = Some Placed" using status_of_name_name [of Placed] by simp
  have "reconstitute_order ?sn = Inr (ord \<lparr> o_date := stored_datetime (o_date ord), o_events := [] \<rparr>)"
    using t st lines ord(2) by (simp add: reconstitute_order_Inr)
  then show ?thesis
    using gln sn by (simp add: load_order_def to_orders_table_row_def visible_items_def)
qed


text \<open>The order the aggregate places carries its input.\<close>

lemma place_order_form:
  assumes "place_order fresh inp ctx = Inr ord"
  shows "pi_lines inp \<noteq> [] \<and> o_id ord = pi_id inp \<and> o_reference ord = pi_reference inp \<and> o_date ord = pi_date inp \<and>
    o_buyer_gln ord = pi_buyer_gln inp \<and> o_retailer ord = pi_buyer_code inp \<and>
    o_supplier_gln ord = pi_supplier_gln inp \<and> o_company ord = pi_supplier_code inp \<and>
    o_currency ord = pi_currency inp \<and> o_lines ord = make_lines fresh (pi_lines inp) \<and>
    o_reason ord = None \<and> o_notes ord = pi_notes inp \<and>
    compute_order_totals (o_currency ord) (o_lines ord) =
      Inr \<lparr> ot_initial = o_initial_amount ord, ot_discount = o_initial_discount ord, ot_total = o_total ord \<rparr>"
  using assms by (auto simp: place_order_def bindR_Inr Let_def add_domain_event_def split: if_splits)

lemma make_lines_ids:
  assumes "distinct (map fresh [0..<length ls])"
  shows "distinct (map ol_id (make_lines fresh ls))"
    and "l \<in> set (make_lines fresh ls) \<Longrightarrow> \<exists>k<length ls. ol_id l = fresh k"
proof -
  have "map ol_id (make_lines fresh ls) = map fresh [0..<length ls]"
    by (rule nth_equalityI) (simp_all add: make_lines_def make_line_def nth_enumerate_eq)
  then show "distinct (map ol_id (make_lines fresh ls))" using assms by simp
  show "l \<in> set (make_lines fresh ls) \<Longrightarrow> \<exists>k<length ls. ol_id l = fresh k"
    by (auto simp: make_lines_def make_line_def in_set_enumerate_eq)
qed

section \<open>The transaction of a placing\<close>

lemma find_order_frame:
  assumes "db_reference db' = db_reference db" "db_items db' = db_items db" "db_orders db' = db_orders db"
  shows "find_order p db' = find_order p db"
  unfolding find_order_def assms(3) load_order_frame [OF assms(1,2)] ..

lemma place_in_transaction_cases:
  assumes "place_in_transaction now fresh cmd rs db = Inr (res, db')"
  obtains (won) ref lines ord where
      "next_order_number db = Inr (ref, db \<lparr> db_sequence := Some (next_value db + 1) \<rparr>)"
      "mapR (to_line_input (pc_currency cmd) rs) (pc_lines cmd) = Inr lines"
      "place_order (\<lambda>k. fresh (k + 2))
       \<lparr> pi_id = fresh 0, pi_reference = ref, pi_date = now,
         pi_buyer_gln = the (rs_retailer rs), pi_buyer_code = pc_retailer cmd,
         pi_supplier_gln = the (rs_company rs), pi_supplier_code = pc_company cmd,
         pi_currency = pc_currency cmd, pi_lines = lines, pi_notes = pc_notes cmd \<rparr>
       \<lparr> tc_at = now, tc_causation = resolve_causation_id (fresh 1) (pc_request_id cmd) \<rparr> = Inr ord"
      "save_order now ord (pc_request_id cmd) (db \<lparr> db_sequence := Some (next_value db + 1) \<rparr>) = Inr db'"
      "res = to_place_result ord"
  | (lost) w where "truthy (pc_request_id cmd)"
      "find_by_request_id (the (pc_request_id cmd)) db = Inr (Some w)"
      "res = to_place_result w" "db' = db \<lparr> db_sequence := Some (next_value db + 1) \<rparr>"
proof -
  obtain ref db1 lines ord where n: "next_order_number db = Inr (ref, db1)"
    and l: "mapR (to_line_input (pc_currency cmd) rs) (pc_lines cmd) = Inr lines"
    and p: "place_order (\<lambda>k. fresh (k + 2))
       \<lparr> pi_id = fresh 0, pi_reference = ref, pi_date = now,
         pi_buyer_gln = the (rs_retailer rs), pi_buyer_code = pc_retailer cmd,
         pi_supplier_gln = the (rs_company rs), pi_supplier_code = pc_company cmd,
         pi_currency = pc_currency cmd, pi_lines = lines, pi_notes = pc_notes cmd \<rparr>
       \<lparr> tc_at = now, tc_causation = resolve_causation_id (fresh 1) (pc_request_id cmd) \<rparr> = Inr ord"
    and s: "(case save_order now ord (pc_request_id cmd) db1 of
       Inr db2 \<Rightarrow> Inr (to_place_result ord, db2)
     | Inl e \<Rightarrow>
       if truthy (pc_request_id cmd) \<and> is_duplicate_request_id_error e
       then bindR (mapErr Place_Store (find_by_request_id (the (pc_request_id cmd)) db1)) (\<lambda>winner.
         case winner of Some w \<Rightarrow> Inr (to_place_result w, db1) | None \<Rightarrow> Inl (Place_Store e))
       else Inl (Place_Store e)) = Inr (res, db')"
    using assms unfolding place_in_transaction_def bindR_Inr mapErr_Inr by (auto simp: bindR_Inr)
  have db1: "db1 = db \<lparr> db_sequence := Some (next_value db + 1) \<rparr>"
    using next_order_number_Inr [OF n] by blast
  show ?thesis
  proof (cases "save_order now ord (pc_request_id cmd) db1")
    case (Inr db2)
    then show ?thesis using won [OF n [unfolded db1] l p] s db1 by simp
  next
    case (Inl e)
    then obtain w where t: "truthy (pc_request_id cmd)" and w: "find_by_request_id (the (pc_request_id cmd)) db1 = Inr (Some w)"
      and res: "res = to_place_result w" "db' = db1"
      using s by (auto simp: bindR_Inr split: if_splits option.splits)
    have "find_by_request_id (the (pc_request_id cmd)) db = Inr (Some w)"
      using w find_order_frame [of db1 db] by (simp add: find_by_request_id_def db1)
    then show ?thesis using lost t res db1 by simp
  qed
qed


text \<open>What a placing that was not answered by an earlier order leaves in the tables.\<close>

definition placed_post :: "instant \<Rightarrow> place_command \<Rightarrow> place_result \<Rightarrow> order \<Rightarrow> orders_db \<Rightarrow> orders_db \<Rightarrow> bool" where
  "placed_post now cmd res ord db db' \<longleftrightarrow>
     res = to_place_result ord \<lparr> pr_order_date := now \<rparr> \<and> o_date ord = stored_datetime now \<and>
     order_ok ord \<and> o_status ord = Placed \<and> o_events ord = [] \<and>
     o_currency ord = pc_currency cmd \<and> o_retailer ord = pc_retailer cmd \<and> o_company ord = pc_company cmd \<and>
     map ol_product (o_lines ord) = map plc_product (pc_lines cmd) \<and>
     map (\<lambda>l. Js_Int (q_value (ol_quantity l))) (o_lines ord) = map plc_quantity (pc_lines cmd) \<and>
     db_sequence db' = Some (next_value db + 1) \<and> orders_db_ok db' \<and>
     db_orders db' = db_orders db @ [to_orders_table_row (ord \<lparr> o_date := now \<rparr>) (pc_request_id cmd)] \<and>
     (\<forall>r\<in>set (db_orders db). or_id r \<noteq> o_id ord \<and> or_reference r \<noteq> order_reference_value ord \<and>
       (pc_request_id cmd \<noteq> None \<longrightarrow> or_request_id r \<noteq> pc_request_id cmd)) \<and>
     (\<forall>row\<in>set (db_orders db). load_order db' row = load_order db row) \<and>
     load_order db' (to_orders_table_row (ord \<lparr> o_date := now \<rparr>) (pc_request_id cmd)) = Inr (Some ord) \<and>
     (\<exists>e. outbox_envelopes db' = outbox_envelopes db @ [e] \<and> ev_type e = Order_Placed \<and>
       ev_aggregate e = o_id ord \<and> ev_correlation e = o_id ord \<and> ev_at e = now)"

lemma to_line_inputs:
  assumes "mapR (to_line_input cur rs) cs = Inr ls" "\<forall>x\<in>set (rs_products rs). money_ok (rs_price (snd x))"
    and "\<forall>c\<in>set cs. map_of (rs_products rs) (plc_product c) \<noteq> None"
  shows "list_all line_input_ok ls \<and> map li_product ls = map plc_product cs \<and>
    map (\<lambda>l. Js_Int (q_value (li_quantity l))) ls = map plc_quantity cs"
proof -
  have "list_all2 (\<lambda>c l. to_line_input cur rs c = Inr l) cs ls" using assms(1) by (simp add: mapR_list_all2)
  then show ?thesis using assms(3)
  proof (induction rule: list_all2_induct)
    case (Cons c cs l ls)
    then have "line_input_ok l \<and> li_product l = plc_product c"
      by (intro to_line_input_ok [OF Cons.hyps(1) assms(2)]) simp
    moreover have "Js_Int (q_value (li_quantity l)) = plc_quantity c"
      using Cons.hyps(1) by (auto simp: to_line_input_def Let_def bindR_Inr quantity_of_Inr split: option.splits)
    ultimately show ?case using Cons by simp
  qed simp
qed


lemma placed_items_visible:
  assumes "i \<notin> it_order ` set (db_items db)" "db_items db' = db_items db @ map (item_row_of i) ls"
    and "\<forall>l\<in>set ls. map_of (rd_products (db_reference db')) (ol_product l) \<noteq> None"
  shows "visible_items db' i = map (item_row_of i) ls"
    and "j \<noteq> i \<Longrightarrow> db_reference db' = db_reference db \<Longrightarrow> visible_items db' j = visible_items db j"
proof -
  have "filter (\<lambda>it. it_order it = i \<and> map_of (rd_products (db_reference db')) (it_product it) \<noteq> None) (db_items db) = []"
    using assms(1) by (auto simp: filter_empty_conv)
  moreover have "filter (\<lambda>it. it_order it = i \<and> map_of (rd_products (db_reference db')) (it_product it) \<noteq> None)
      (map (item_row_of i) ls) = map (item_row_of i) ls"
    using assms(3) by (simp add: filter_id_conv)
  ultimately show "visible_items db' i = map (item_row_of i) ls"
    by (simp add: visible_items_def assms(2))
  show "visible_items db' j = visible_items db j" if "j \<noteq> i" "db_reference db' = db_reference db"
    using that by (simp add: visible_items_def assms(2) filter_empty_conv)
qed

lemma load_order_visible:
  assumes "db_reference db' = db_reference db" "visible_items db' (or_id row) = visible_items db (or_id row)"
  shows "load_order db' row = load_order db row"
  unfolding load_order_def assms(1) assms(2) [unfolded visible_items_def assms(1)] ..

lemma placed_saved:
  assumes ok: "orders_db_ok db" and fresh: "fresh_ids fresh (length (pc_lines cmd) + 2) db"
    and res: "resolve_reference (db_reference db) cmd = Inr rs" "assert_reference_data_complete cmd rs = Inr ()"
    and ref: "next_order_number db = Inr (ref, db1)" and db1: "db1 = db \<lparr> db_sequence := Some (next_value db + 1) \<rparr>"
    and lines: "mapR (to_line_input (pc_currency cmd) rs) (pc_lines cmd) = Inr lines"
    and place: "place_order (\<lambda>k. fresh (k + 2))
       \<lparr> pi_id = fresh 0, pi_reference = ref, pi_date = now,
         pi_buyer_gln = the (rs_retailer rs), pi_buyer_code = pc_retailer cmd,
         pi_supplier_gln = the (rs_company rs), pi_supplier_code = pc_company cmd,
         pi_currency = pc_currency cmd, pi_lines = lines, pi_notes = pc_notes cmd \<rparr> ctx = Inr ord"
    and at: "tc_at ctx = now" and save: "save_order now ord (pc_request_id cmd) db1 = Inr db'"
  shows "placed_post now cmd (to_place_result ord) (ord \<lparr> o_date := stored_datetime now, o_events := [] \<rparr>) db db'"
proof -
  let ?row = "to_orders_table_row ord (pc_request_id cmd)"
  let ?o = "ord \<lparr> o_date := stored_datetime now, o_events := [] \<rparr>"
  note form = place_order_form [OF place, simplified]
  have complete: "rs_retailer rs \<noteq> None" "rs_company rs \<noteq> None"
    "\<forall>c\<in>set (pc_lines cmd). map_of (rs_products rs) (plc_product c) \<noteq> None"
    using res(2) by (auto simp: assert_reference_data_complete_def find_None_iff split: if_splits option.splits)
  note rsd = resolve_reference_Inr [OF res(1)]
  have l: "list_all line_input_ok lines" "map li_product lines = map plc_product (pc_lines cmd)"
      "map (\<lambda>l. Js_Int (q_value (li_quantity l))) lines = map plc_quantity (pc_lines cmd)"
    using to_line_inputs [OF lines _ complete(3)] rsd by auto
  have len: "length lines = length (pc_lines cmd)" using lines by (rule mapR_length)
  note placed = place_order_Inr [OF place, simplified, OF l(1)]
  obtain e where e: "o_events ord = [e]" "ev_type e = Order_Placed" "ev_aggregate e = fresh 0"
      "ev_correlation e = fresh 0" "ev_at e = now"
    using placed at by auto
  have olines: "o_lines ord = make_lines (\<lambda>k. fresh (k + 2)) lines" using form by simp
  have inj: "fresh j = fresh k \<longleftrightarrow> j = k" if "j < length (pc_lines cmd) + 2" "k < length (pc_lines cmd) + 2" for j k
    using fresh that unfolding fresh_ids_def distinct_map set_upt
    by (metis atLeastLessThan_iff inj_on_eq_iff zero_le)
  have dist: "distinct (map (\<lambda>k. fresh (k + 2)) [0..<length lines])"
    using inj len by (auto simp: distinct_map inj_on_def)
  have oids: "\<exists>k<length lines. ol_id x = fresh (k + 2)" if "x \<in> set (o_lines ord)" for x
    using make_lines_ids(2) [OF dist] that unfolding olines by blast
  have idok: "unique_id_from (ol_id x) = Inr (ol_id x) \<and> (\<forall>it\<in>set (db_items db). it_id it \<noteq> ol_id x)"
    if "x \<in> set (o_lines ord)" for x
    using oids [OF that] fresh len by (auto simp: fresh_ids_def)
  have id0: "unique_id_from (fresh 0) = Inr (fresh 0)" "fresh 0 \<notin> it_order ` set (db_items db)"
    using fresh unfolding fresh_ids_def by fastforce+
  have lids: "distinct (map ol_id (o_lines ord))" using make_lines_ids(1) [OF dist] olines by simp
  have items1: "\<forall>l\<in>set (o_lines ord). \<forall>it\<in>set (db_items db1). it_id it \<noteq> ol_id l" using idok db1 by simp
  have isnew: "list_ex (\<lambda>e. ev_type e = Order_Placed) (o_events ord)" using e(1,2) by simp
  note saved = save_new_order [OF save isnew lids items1, unfolded e(1)]
  have "record_outbox now [e] (placed_db ord (pc_request_id cmd) db1) = Inr db'" using saved by simp
  note frame = record_outbox_Inr [OF this]
  have tables: "db_orders db' = db_orders db @ [?row]" "db_items db' = db_items db @ map (item_row_of (fresh 0)) (o_lines ord)"
      "db_reference db' = db_reference db" "outbox_envelopes db' = outbox_envelopes db @ [e]"
      "db_sequence db' = Some (next_value db + 1)"
    using frame form by (simp_all add: placed_db_def db1 outbox_envelopes_def)
  have prods: "\<forall>l\<in>set (o_lines ord). map_of (rd_products (db_reference db')) (ol_product l) \<noteq> None"
    using saved tables(3) db1 by simp
  note vis = placed_items_visible [OF id0(2) tables(2) prods]
  have number: "order_number_of (order_reference_value ord) = Inr (o_reference ord)"
    using next_order_number_Inr [OF ref] form by (auto simp: order_reference_value_def)
  have "load_order db' ?row = Inr (Some (ord \<lparr> o_date := stored_datetime (o_date ord), o_events := [] \<rparr>))"
    using placed form complete(1,2) rsd number idok vis(1) saved id0(1) tables(3) db1
    by (intro load_placed_order) auto
  moreover have "load_order db' row = load_order db row" if "row \<in> set (db_orders db)" for row
  proof -
    have "or_id row \<noteq> fresh 0" using saved that form db1 by auto
    then show ?thesis using vis(2) tables(3) by (intro load_order_visible) simp_all
  qed
  moreover have "orders_db_ok db'"
  proof -
    have rows: "item_row_ok r" if "r \<in> set (map (item_row_of (fresh 0)) (o_lines ord))" for r
      using that saved idok form by (auto simp: item_row_ok_def)
    have "distinct (map it_id (db_items db'))"
      using ok lids idok by (auto simp: orders_db_ok_def tables(2) comp_def)
    moreover have "distinct (map or_id (db_orders db'))"
      using ok saved form db1 by (auto simp: orders_db_ok_def tables(1) to_orders_table_row_def)
    ultimately show ?thesis
      using ok rows id0(1) form by (auto simp: orders_db_ok_def tables(1,2) list_all_iff to_orders_table_row_def)
  qed
  moreover have "map ol_product (o_lines ord) = map plc_product (pc_lines cmd)"
      "map (\<lambda>l. Js_Int (q_value (ol_quantity l))) (o_lines ord) = map plc_quantity (pc_lines cmd)"
    unfolding olines l(2,3) [symmetric]
    by (rule nth_equalityI; simp add: make_lines_def make_line_def nth_enumerate_eq)+
  moreover have "to_orders_table_row (?o \<lparr> o_date := now \<rparr>) (pc_request_id cmd) = ?row"
      "to_place_result ord = to_place_result ?o \<lparr> pr_order_date := now \<rparr>" "order_ok ?o = order_ok ord"
      "order_reference_value ?o = order_reference_value ord"
    using form by (simp_all add: to_orders_table_row_def to_place_result_def order_reference_value_def
        order_ok_def totals_derived_def)
  moreover have "\<forall>r\<in>set (db_orders db). or_id r \<noteq> o_id ord \<and> or_reference r \<noteq> order_reference_value ord \<and>
      (pc_request_id cmd \<noteq> None \<longrightarrow> or_request_id r \<noteq> pc_request_id cmd)"
    using saved by (simp add: db1)
  moreover have "order_ok ord" "o_status ord = Placed" using placed by simp_all
  moreover have "o_currency ord = pc_currency cmd" "o_retailer ord = pc_retailer cmd" "o_company ord = pc_company cmd"
      "o_id ord = fresh 0" "o_date ord = now"
    using form by simp_all
  ultimately show ?thesis
    using e(2-5) tables by (simp add: placed_post_def)
qed


section \<open>The handler\<close>

text \<open>A reply is either that of an order already there or that of the transaction.\<close>

lemma execute_place_cases:
  assumes "execute_place stock now fresh cmd db_read db = (Inr res, db')"
  obtains (replay) w where "truthy (pc_request_id cmd)" "find_by_request_id (the (pc_request_id cmd)) db_read = Inr (Some w)"
      "res = to_place_result w" "db' = db"
  | (tx) rs where "truthy (pc_request_id cmd) \<longrightarrow> find_by_request_id (the (pc_request_id cmd)) db_read = Inr None"
      "resolve_reference (db_reference db_read) cmd = Inr rs" "assert_reference_data_complete cmd rs = Inr ()"
      "place_in_transaction now fresh cmd rs db = Inr (res, db')"
proof (cases "pc_order_discount cmd \<noteq> None \<and> pc_order_discount cmd \<noteq> Some (Js_Int 0)")
  case True
  then show ?thesis using assms by (simp add: execute_place_def)
next
  case False
  show ?thesis
  proof (cases "truthy (pc_request_id cmd)")
    case True
    then show ?thesis using assms False replay tx
      by (auto simp: execute_place_def unit_of_work_Inr split: sum.splits option.splits if_splits)
  next
    case False
    then show ?thesis using assms \<open>\<not> (pc_order_discount cmd \<noteq> None \<and> pc_order_discount cmd \<noteq> Some (Js_Int 0))\<close> tx
      by (auto simp: execute_place_def unit_of_work_Inr split: sum.splits if_splits)
  qed
qed

definition unused_request :: "string option \<Rightarrow> orders_db \<Rightarrow> bool" where
  "unused_request req db \<longleftrightarrow> (truthy req \<longrightarrow> list_all (\<lambda>r. or_request_id r \<noteq> req) (db_orders db))"

lemma unused_request_find:
  assumes "truthy req" "unused_request req db" shows "find_by_request_id (the req) db = Inr None"
proof -
  obtain r where "req = Some r" using assms(1) by (cases req) (auto simp: truthy_def)
  then have "find (\<lambda>x. or_request_id x = Some (the req)) (db_orders db) = None"
    using assms by (auto simp: unused_request_def find_None_iff list_all_iff)
  then show ?thesis by (simp add: find_by_request_id_def find_order_def)
qed

lemma execute_place_saved:
  assumes ok: "orders_db_ok db" and fresh: "fresh_ids fresh (length (pc_lines cmd) + 2) db"
    and unused: "unused_request (pc_request_id cmd) db"
    and run: "execute_place stock now fresh cmd db db = (Inr res, db')"
  obtains ord where "placed_post now cmd res ord db db'"
  using run
proof (cases rule: execute_place_cases)
  case (replay w)
  then show ?thesis using unused_request_find [OF _ unused] by simp
next
  case (tx rs)
  show ?thesis using tx(4)
  proof (cases rule: place_in_transaction_cases)
    case (won ref lines ord)
    show ?thesis
      using placed_saved [OF ok fresh tx(2,3) won(1) refl won(2,3) _ won(4)] won(5) by (auto intro: that)
  next
    case (lost w)
    then show ?thesis using unused_request_find [OF _ unused] by simp
  qed
qed

lemma find_last: "\<forall>x\<in>set xs. \<not> P x \<Longrightarrow> P y \<Longrightarrow> find P (xs @ [y]) = Some y"
  by (induction xs) auto

lemma find_append_other: "\<not> P y \<Longrightarrow> find P (xs @ [y]) = find P xs"
  by (induction xs) auto

lemma find_order_placed:
  assumes "placed_post now cmd res ord db db'" "P (to_orders_table_row (ord \<lparr> o_date := now \<rparr>) (pc_request_id cmd))"
    and "\<forall>r\<in>set (db_orders db). \<not> P r"
  shows "find_order P db' = Inr (Some ord)"
  using assms by (simp add: placed_post_def find_order_def find_last)

lemma find_order_old:
  assumes "placed_post now cmd res ord db db'" "\<not> P (to_orders_table_row (ord \<lparr> o_date := now \<rparr>) (pc_request_id cmd))"
  shows "find_order P db' = find_order P db"
proof -
  have "find P (db_orders db') = find P (db_orders db)"
    using assms by (simp add: placed_post_def find_append_other)
  moreover have "load_order db' r = load_order db r" if "find P (db_orders db) = Some r" for r
  proof -
    have "r \<in> set (db_orders db)" using that by (auto simp: find_Some_iff)
    then show ?thesis using assms(1) unfolding placed_post_def by blast
  qed
  ultimately show ?thesis by (simp add: find_order_def split: option.split)
qed

lemma placed_row_keys [simp]:
  "or_id (to_orders_table_row (ord \<lparr> o_date := t \<rparr>) req) = o_id ord"
  "or_reference (to_orders_table_row (ord \<lparr> o_date := t \<rparr>) req) = order_reference_value ord"
  "or_request_id (to_orders_table_row (ord \<lparr> o_date := t \<rparr>) req) = req"
  by (simp_all add: to_orders_table_row_def order_reference_value_def)

lemma placed_order_is_found_aux:
  assumes "orders_db_ok db" "fresh_ids fresh (length (pc_lines cmd) + 2) db" "unused_request (pc_request_id cmd) db"
    and "execute_place stock now fresh cmd db db = (Inr res, db')"
  shows "\<exists>ord e. find_by_id (pr_order_id res) db' = Inr (Some ord) \<and>
    find_by_reference (pr_reference res) db' = Inr (Some ord) \<and>
    res = to_place_result ord \<lparr> pr_order_date := now \<rparr> \<and> o_date ord = stored_datetime now \<and>
    order_ok ord \<and> o_status ord = Placed \<and>
    o_currency ord = pc_currency cmd \<and> o_retailer ord = pc_retailer cmd \<and> o_company ord = pc_company cmd \<and>
    map ol_product (o_lines ord) = map plc_product (pc_lines cmd) \<and>
    map (\<lambda>l. Js_Int (q_value (ol_quantity l))) (o_lines ord) = map plc_quantity (pc_lines cmd) \<and>
    outbox_envelopes db' = outbox_envelopes db @ [e] \<and> ev_type e = Order_Placed \<and>
    ev_correlation e = pr_order_id res \<and> orders_db_ok db' \<and>
    (\<forall>i. i \<noteq> pr_order_id res \<longrightarrow> find_by_id i db' = find_by_id i db)"
proof -
  obtain ord where post: "placed_post now cmd res ord db db'"
    using execute_place_saved [OF assms] .
  have keys: "pr_order_id res = o_id ord" "pr_reference res = order_reference_value ord"
    using post by (simp_all add: placed_post_def to_place_result_def)
  have other: "\<forall>r\<in>set (db_orders db). or_id r \<noteq> o_id ord" "\<forall>r\<in>set (db_orders db). or_reference r \<noteq> order_reference_value ord"
    using post by (auto simp: placed_post_def)
  obtain e where e: "outbox_envelopes db' = outbox_envelopes db @ [e]" "ev_type e = Order_Placed" "ev_correlation e = o_id ord"
    using post by (auto simp: placed_post_def)
  have "find_by_id (pr_order_id res) db' = Inr (Some ord)" "find_by_reference (pr_reference res) db' = Inr (Some ord)"
    unfolding find_by_id_def find_by_reference_def keys
    by (rule find_order_placed [OF post]; simp add: other)+
  moreover have "find_by_id i db' = find_by_id i db" if "i \<noteq> pr_order_id res" for i
    unfolding find_by_id_def by (rule find_order_old [OF post]) (use that keys in simp)
  ultimately show ?thesis
    using e post keys by (auto simp: placed_post_def)
qed

text \<open>C11: A placed order is found again as it was placed: after a successful placing of an unused
  request, \<open>findById\<close> and \<open>findByReference\<close> on the ids of the reply return an order in status
  placed, with the parties, currency, products and quantities of the command, totals derived
  from its lines, and the amounts of the reply; its date is the reply's rounded to the second.
  Exactly one fact, order.placed.v1 correlated with it, entered the outbox, and every other
  order reads as before.\<close>

theorem placed_order_is_found:
  assumes "orders_db_ok db" "fresh_ids fresh (length (pc_lines cmd) + 2) db" "unused_request (pc_request_id cmd) db"
    and "execute_place stock now fresh cmd db db = (Inr res, db')"
  shows "\<exists>ord e. find_by_id (pr_order_id res) db' = Inr (Some ord) \<and>
    find_by_reference (pr_reference res) db' = Inr (Some ord) \<and>
    res = to_place_result ord \<lparr> pr_order_date := now \<rparr> \<and> o_date ord = stored_datetime now \<and>
    order_ok ord \<and> o_status ord = Placed \<and>
    o_currency ord = pc_currency cmd \<and> o_retailer ord = pc_retailer cmd \<and> o_company ord = pc_company cmd \<and>
    map ol_product (o_lines ord) = map plc_product (pc_lines cmd) \<and>
    map (\<lambda>l. Js_Int (q_value (ol_quantity l))) (o_lines ord) = map plc_quantity (pc_lines cmd) \<and>
    outbox_envelopes db' = outbox_envelopes db @ [e] \<and> ev_type e = Order_Placed \<and>
    ev_correlation e = pr_order_id res \<and> orders_db_ok db' \<and>
    (\<forall>i. i \<noteq> pr_order_id res \<longrightarrow> find_by_id i db' = find_by_id i db)"
  using assms by (rule placed_order_is_found_aux)

text \<open>A placing as the database sees it: the reply of the stock check, the clock, the fresh
  identifiers, the command and the state it read before its transaction.\<close>

record placing =
  pg_stock :: "string \<Rightarrow> (string \<times> js_number) list \<Rightarrow> stock_check_failure + stock_answer"
  pg_now :: instant
  pg_fresh :: "nat \<Rightarrow> uid"
  pg_command :: place_command
  pg_read :: orders_db

definition run_placing :: "placing \<Rightarrow> orders_db \<Rightarrow> (place_error + place_result) \<times> orders_db" where
  "run_placing p db = execute_place (pg_stock p) (pg_now p) (pg_fresh p) (pg_command p) (pg_read p) db"

definition run_placings :: "placing list \<Rightarrow> orders_db \<Rightarrow> orders_db" where
  "run_placings ps db = fold (\<lambda>p db. snd (run_placing p db)) ps db"

text \<open>What the placings of a run draw is new when they come to the database, and the reference data stays.\<close>

primrec placings_ok :: "placing list \<Rightarrow> orders_db \<Rightarrow> bool" where
  "placings_ok [] db = True"
| "placings_ok (p # ps) db = (fresh_ids (pg_fresh p) (length (pc_lines (pg_command p)) + 2) db \<and>
     db_reference (pg_read p) = db_reference db \<and> placings_ok ps (snd (run_placing p db)))"

lemma placed_keeps_request:
  assumes post: "placed_post now cmd res new db db'" and found: "find_by_request_id r db = Inr (Some ord)"
  shows "find_by_request_id r db' = Inr (Some ord)"
proof -
  have "\<exists>row\<in>set (db_orders db). or_request_id row = Some r"
    using found by (auto simp: find_by_request_id_def find_order_def find_Some_iff split: option.splits)
  then have "pc_request_id cmd \<noteq> Some r" using post by (auto simp: placed_post_def)
  then show ?thesis using found find_order_old [OF post, of "\<lambda>x. or_request_id x = Some r"]
    by (simp add: find_by_request_id_def)
qed

lemma placing_keeps_request:
  assumes ok: "orders_db_ok db" "placings_ok [p] db" and found: "find_by_request_id r db = Inr (Some ord)"
  shows "orders_db_ok (snd (run_placing p db)) \<and> find_by_request_id r (snd (run_placing p db)) = Inr (Some ord)"
proof (cases "run_placing p db")
  case (Pair reply db')
  show ?thesis
  proof (cases reply)
    case (Inl e)
    then have "db' = db"
      using Pair by (auto simp: run_placing_def execute_place_def unit_of_work_def split: if_splits sum.splits option.splits)
    then show ?thesis using Pair ok(1) found by simp
  next
    case (Inr res)
    have run: "execute_place (pg_stock p) (pg_now p) (pg_fresh p) (pg_command p) (pg_read p) db = (Inr res, db')"
      using Pair Inr by (simp add: run_placing_def)
    then show ?thesis
    proof (cases rule: execute_place_cases)
      case (tx rs)
      note read = tx(2) [unfolded conjunct1 [OF conjunct2 [OF ok(2) [unfolded placings_ok.simps]]]]
      have fresh: "fresh_ids (pg_fresh p) (length (pc_lines (pg_command p)) + 2) db" using ok(2) by simp
      show ?thesis using tx(4)
      proof (cases rule: place_in_transaction_cases)
        case (won ref lines new)
        have post: "placed_post (pg_now p) (pg_command p) (to_place_result new) (new \<lparr> o_date := stored_datetime (pg_now p), o_events := [] \<rparr>) db db'"
          by (rule placed_saved [OF ok(1) fresh read tx(3) won(1) refl won(2,3) _ won(4)]) simp
        then show ?thesis using placed_keeps_request [OF post found] Pair by (simp add: placed_post_def)
      next
        case (lost w)
        then show ?thesis using Pair ok(1) found find_order_frame [of db' db] by (simp add: orders_db_ok_def find_by_request_id_def)
      qed
    qed (use Pair ok(1) found in simp)
  qed
qed

lemma placings_keep_request:
  "\<lbrakk> orders_db_ok db; placings_ok ps db; find_by_request_id r db = Inr (Some ord) \<rbrakk> \<Longrightarrow>
    find_by_request_id r (run_placings ps db) = Inr (Some ord)"
proof (induction ps arbitrary: db)
  case (Cons p ps)
  then show ?case using placing_keeps_request [of db p r ord] by (simp add: run_placings_def)
qed (simp add: run_placings_def)

text \<open>C10: Placing is idempotent by request id.  Let a placing with a request id that was unused have
  answered, and let any placings of anybody follow, with stale reads or not, refused or not.  A later
  command with the same request id that reads the tables then, whatever else it asks for, whatever
  the stock check would say and whatever has become of the tables since it read them, places no second order
  and leaves the database unchanged.  It is answered with the same order, the date being the first
  one rounded to the second, since it is read back from the column; with one exception: a repeat
  that carries an order-level discount other than zero is refused as such a command always is, since
  the discount is looked at before the request id.\<close>

theorem place_is_idempotent:
  assumes "orders_db_ok db" "fresh_ids fresh (length (pc_lines cmd) + 2) db" "unused_request (pc_request_id cmd) db"
    and "execute_place stock now fresh cmd db db = (Inr res, db1)" "truthy (pc_request_id cmd)"
    and "placings_ok ps db1" "pc_request_id again = pc_request_id cmd"
  shows "execute_place stock2 later fresh2 again (run_placings ps db1) db2 =
    (if pc_order_discount again = None \<or> pc_order_discount again = Some (Js_Int 0)
     then Inr (res \<lparr> pr_order_date := stored_datetime now \<rparr>)
     else Inl (Order_Discount_Not_Supported (the (pc_order_discount again)) (pc_currency again)), db2)"
proof -
  obtain ord where post: "placed_post now cmd res ord db db1"
    using execute_place_saved [OF assms(1-4)] .
  obtain r where r: "pc_request_id cmd = Some r" using assms(5) by (auto simp: truthy_def split: option.splits)
  have "find_by_request_id r db1 = Inr (Some ord)"
    unfolding find_by_request_id_def
    by (rule find_order_placed [OF post]) (use post r in \<open>auto simp: placed_post_def\<close>)
  moreover have "orders_db_ok db1" using post by (simp add: placed_post_def)
  ultimately have "find_by_request_id r (run_placings ps db1) = Inr (Some ord)"
    using placings_keep_request assms(6) by blast
  moreover have "to_place_result ord = res \<lparr> pr_order_date := stored_datetime now \<rparr>"
    using post by (simp add: placed_post_def to_place_result_def order_reference_value_def)
  ultimately show ?thesis using assms(5,7) r by (auto simp: execute_place_def)
qed

text \<open>The race of two placings with one request id has one winner: when the request id was unused
  at the read and another session's order carries it at the transaction, the call answers that
  order and writes no order, item or fact. It still uses up an order number, so the sequence of
  numbers has a gap.\<close>

theorem place_race_answers_winner:
  assumes "truthy (pc_request_id cmd)" "unused_request (pc_request_id cmd) db_read"
    and "find_by_request_id (the (pc_request_id cmd)) db = Inr (Some w)"
    and "execute_place stock now fresh cmd db_read db = (Inr res, db')"
  shows "res = to_place_result w \<and> db' = db \<lparr> db_sequence := Some (next_value db + 1) \<rparr>"
  using assms(4)
proof (cases rule: execute_place_cases)
  case (replay x)
  then show ?thesis using unused_request_find [OF assms(1,2)] by simp
next
  case (tx rs)
  show ?thesis using tx(4)
  proof (cases rule: place_in_transaction_cases)
    case (won ref lines ord)
    obtain r where r: "pc_request_id cmd = Some r" using assms(1) by (auto simp: truthy_def split: option.splits)
    have "list_ex (\<lambda>e. ev_type e = Order_Placed) (o_events ord)"
      using won(3) by (auto simp: place_order_def bindR_Inr Let_def order_placed_event_def order_event_def split: if_splits)
    then obtain db1 where "insert_order_row (to_orders_table_row (ord \<lparr> o_events := [] \<rparr>) (pc_request_id cmd))
        (db \<lparr> db_sequence := Some (next_value db + 1) \<rparr>) = Inr db1"
      using won(4) by (auto simp: save_order_def pull_domain_events_def Let_def bindR_Inr)
    then have "\<forall>x\<in>set (db_orders db). or_request_id x \<noteq> Some r"
      using r by (auto simp: insert_order_row_Inr to_orders_table_row_def)
    moreover have "\<exists>x\<in>set (db_orders db). or_request_id x = Some r"
      using assms(3) r by (auto simp: find_by_request_id_def find_order_def find_Some_iff split: option.splits)
    ultimately show ?thesis by blast
  next
    case (lost x)
    then show ?thesis using assms(3) by simp
  qed
qed


section \<open>Numbers\<close>

lemma find_order_error: "find_order P db = Inl e \<Longrightarrow> \<exists>k. e = Row_Kernel_Error k \<or> (\<exists>oe. e = Row_Order_Error oe)"
  by (auto simp: find_order_def load_order_def bindR_Inl mapErr_Inl split: option.splits if_splits)

lemma save_order_tables:
  assumes "save_order now ord req db = Inr db'"
  shows "db_sequence db' = db_sequence db \<and>
    set (map or_reference (db_orders db')) \<subseteq> insert (order_reference_value ord) (set (map or_reference (db_orders db)))"
proof -
  have upd: "map or_reference (db_orders (update_order_row row db)) = map or_reference (db_orders db)" for row
    by (simp add: update_order_row_def)
  obtain db1 items db2 where
    row: "(if list_ex (\<lambda>e. ev_type e = Order_Placed) (o_events ord)
      then insert_order_row (to_orders_table_row (ord \<lparr> o_events := [] \<rparr>) req) db
      else Inr (update_order_row (to_orders_table_row (ord \<lparr> o_events := [] \<rparr>) req) db)) = Inr db1"
    and up: "(if items \<noteq> [] then upsert_items items db1 else Inr db1) = Inr db2"
    and rec: "record_outbox now (o_events ord) db2 = Inr db'"
    using assms by (auto simp: save_order_def pull_domain_events_def Let_def bindR_Inr)
  have "db_sequence db1 = db_sequence db \<and>
    set (map or_reference (db_orders db1)) \<subseteq> insert (order_reference_value ord) (set (map or_reference (db_orders db)))"
  proof (cases "list_ex (\<lambda>e. ev_type e = Order_Placed) (o_events ord)")
    case True
    then show ?thesis using row
      by (auto simp: insert_order_row_Inr to_orders_table_row_def order_reference_value_def)
  next
    case False
    then have "db1 = update_order_row (to_orders_table_row (ord \<lparr> o_events := [] \<rparr>) req) db" using row by simp
    then show ?thesis using upd by (simp only: set_map [symmetric]) (auto simp: update_order_row_def)
  qed
  moreover have "db_sequence db2 = db_sequence db1 \<and> db_orders db2 = db_orders db1"
    using up by (auto simp: upsert_items_def split: if_splits)
  ultimately show ?thesis using record_outbox_Inr [OF rec] by simp
qed

lemma save_order_no_collision:
  assumes "\<forall>r\<in>set (db_orders db). or_reference r \<noteq> order_reference_value ord"
  shows "save_order now ord req db \<noteq> Inl (Duplicate_Key Key_Order_Reference)"
proof
  assume "save_order now ord req db = Inl (Duplicate_Key Key_Order_Reference)"
  moreover have "insert_order_row (to_orders_table_row (ord \<lparr> o_events := [] \<rparr>) req) db \<noteq> Inl (Duplicate_Key Key_Order_Reference)"
    using assms by (auto simp: insert_order_row_def list_ex_iff to_orders_table_row_def order_reference_value_def)
  moreover have "to_order_item_rows db x \<noteq> Inl (Duplicate_Key Key_Order_Reference)" for x
  proof -
    have "mapR (\<lambda>l. if map_of ps (ol_product l) = None then Inl (Unknown_Reference Ref_Product (ol_product l)) else Inr (f l)) ls
        \<noteq> Inl (Duplicate_Key Key_Order_Reference)" for ps ls and f :: "order_line \<Rightarrow> item_row"
      by (induction ls) (auto simp: bindR_Inl split: if_splits)
    then show ?thesis unfolding to_order_item_rows_def .
  qed
  ultimately show False
    by (auto simp: save_order_def pull_domain_events_def Let_def bindR_Inl upsert_items_def record_outbox_def split: if_splits)
qed

lemma place_in_transaction_numbers:
  assumes "sequence_ok db"
  shows "place_in_transaction now fresh cmd rs db \<noteq> Inl (Place_Store (Duplicate_Key Key_Order_Reference))"
    and "place_in_transaction now fresh cmd rs db = Inr (res, db') \<Longrightarrow> sequence_ok db' \<and> next_value db < next_value db'"
proof -
  have new: "\<forall>r\<in>set (db_orders db). or_reference r \<noteq> order_reference_value ord"
    if "next_order_number db = Inr (ref, db1)" "o_reference ord = ref" for ref db1 and ord :: order
    using next_order_number_Inr [OF that(1)] that(2) assms
    by (auto simp: sequence_ok_def list_all_iff order_reference_value_def)
  have number: "next_order_number db \<noteq> Inl (Duplicate_Key Key_Order_Reference)"
    by (auto simp: next_order_number_def Let_def bindR_Inl mapErr_Inl)
  show "place_in_transaction now fresh cmd rs db \<noteq> Inl (Place_Store (Duplicate_Key Key_Order_Reference))"
  proof
    assume a: "place_in_transaction now fresh cmd rs db = Inl (Place_Store (Duplicate_Key Key_Order_Reference))"
    then obtain ref db1 lines ord where n: "next_order_number db = Inr (ref, db1)"
      and p: "place_order (\<lambda>k. fresh (k + 2))
       \<lparr> pi_id = fresh 0, pi_reference = ref, pi_date = now,
         pi_buyer_gln = the (rs_retailer rs), pi_buyer_code = pc_retailer cmd,
         pi_supplier_gln = the (rs_company rs), pi_supplier_code = pc_company cmd,
         pi_currency = pc_currency cmd, pi_lines = lines, pi_notes = pc_notes cmd \<rparr>
       \<lparr> tc_at = now, tc_causation = resolve_causation_id (fresh 1) (pc_request_id cmd) \<rparr> = Inr ord"
      and s: "(case save_order now ord (pc_request_id cmd) db1 of
       Inr db2 \<Rightarrow> Inr (to_place_result ord, db2)
     | Inl e \<Rightarrow>
       if truthy (pc_request_id cmd) \<and> is_duplicate_request_id_error e
       then bindR (mapErr Place_Store (find_by_request_id (the (pc_request_id cmd)) db1)) (\<lambda>winner.
         case winner of Some w \<Rightarrow> Inr (to_place_result w, db1) | None \<Rightarrow> Inl (Place_Store e))
       else Inl (Place_Store e)) = Inl (Place_Store (Duplicate_Key Key_Order_Reference))"
      using number unfolding place_in_transaction_def bindR_Inl mapErr_Inl by (auto simp: bindR_Inl mapErr_Inl)
    have "db_orders db1 = db_orders db" using next_order_number_Inr [OF n] by auto
    then have "save_order now ord (pc_request_id cmd) db1 \<noteq> Inl (Duplicate_Key Key_Order_Reference)"
      using new [OF n] place_order_form [OF p] by (intro save_order_no_collision) simp
    then show False using s
      by (auto simp: bindR_Inl mapErr_Inl find_by_request_id_def is_duplicate_request_id_error_def
          split: sum.splits if_splits option.splits dest: find_order_error)
  qed
  show "sequence_ok db' \<and> next_value db < next_value db'"
    if "place_in_transaction now fresh cmd rs db = Inr (res, db')"
    using that
  proof (cases rule: place_in_transaction_cases)
    case (won ref lines ord)
    note r = next_order_number_Inr [OF won(1)]
    have seq: "db_sequence db' = Some (next_value db + 1)" using save_order_tables [OF won(4)] by simp
    have "sequence_of_reference (or_reference x) < next_value db + 1" if "x \<in> set (db_orders db')" for x
    proof -
      have "or_reference x \<in> set (map or_reference (db_orders db'))" using \<open>x \<in> set (db_orders db')\<close> by simp
      then consider y where "y \<in> set (db_orders db)" "or_reference x = or_reference y" | "or_reference x = order_reference_value ord"
        using subsetD [OF conjunct2 [OF save_order_tables [OF won(4)]]] by auto
      then show ?thesis
        using assms r place_order_form [OF won(3)]
        by cases (auto simp: sequence_ok_def list_all_iff order_reference_value_def less_Suc_eq)
    qed
    then show ?thesis using seq by (simp add: sequence_ok_def next_value_def list_all_iff)
  next
    case (lost w)
    then show ?thesis using assms by (auto simp: sequence_ok_def next_value_def list_all_iff less_Suc_eq)
  qed
qed

lemma run_placing_numbers:
  assumes "sequence_ok db"
  shows "sequence_ok (snd (run_placing p db))"
    and "fst (run_placing p db) \<noteq> Inl (Place_Store (Duplicate_Key Key_Order_Reference))"
proof -
  have find: "find_by_request_id req db' \<noteq> Inl (Duplicate_Key Key_Order_Reference)" for req db'
    by (auto simp: find_by_request_id_def dest: find_order_error)
  have uow: "sequence_ok (snd (unit_of_work (place_in_transaction now fresh cmd rs) db)) \<and>
      fst (unit_of_work (place_in_transaction now fresh cmd rs) db) \<noteq> Inl (Place_Store (Duplicate_Key Key_Order_Reference))"
    for now fresh cmd rs
    using place_in_transaction_numbers [OF assms, of now fresh cmd rs] assms
    by (cases "place_in_transaction now fresh cmd rs db") (auto simp: unit_of_work_def)
  have complete: "assert_reference_data_complete cmd rs \<noteq> Inl (Place_Store e)" for cmd rs e
    by (auto simp: assert_reference_data_complete_def split: if_splits option.splits)
  show "sequence_ok (snd (run_placing p db))"
    using assms uow by (auto simp: run_placing_def execute_place_def split: sum.split option.split)
  show "fst (run_placing p db) \<noteq> Inl (Place_Store (Duplicate_Key Key_Order_Reference))"
    using uow find complete
    by (auto simp: run_placing_def execute_place_def split: sum.splits option.splits if_splits)
qed

text \<open>C40: Order numbers never collide: from a database whose allocator is ahead of every stored
  reference (as it is before its first use), after any sequence of placings, successful or not
  and racing or not, the allocator is still ahead, and no placing ever fails on the unique key
  of the order reference.\<close>

theorem order_numbers_never_collide:
  assumes "sequence_ok db"
  shows "sequence_ok (run_placings ps db) \<and>
    fst (run_placing p (run_placings ps db)) \<noteq> Inl (Place_Store (Duplicate_Key Key_Order_Reference))"
proof -
  have "sequence_ok (run_placings ps db)"
    using assms by (induction ps arbitrary: db) (simp_all add: run_placings_def run_placing_numbers(1))
  then show ?thesis using run_placing_numbers(2) by blast
qed

end
