(* ===== verification/Place_Examples.thy ===== *)
theory Place_Examples
  imports Place_Properties
begin

text \<open>
  Placings on a small database, evaluated in the kernel: the inputs on which the properties of
  order acceptance are exercised.
\<close>

definition example_shop :: "nat option \<Rightarrow> orders_db" where
  "example_shop sq = \<lparr> db_reference = example_reference, db_orders = [], db_items = [],
     db_outbox = [], db_next_seq = 1, db_processed = [], db_commands = [], db_ignored = [], db_sequence = sq \<rparr>"

definition example_place :: place_command where
  "example_place = \<lparr> pc_request_id = Some ''request'', pc_retailer = ''RET'', pc_company = ''CO'', pc_currency = ''EUR'',
     pc_lines = [\<lparr> plc_product = ''P1'', plc_quantity = Js_Int 3, plc_unit_price = None, plc_discount = Some (Js_Int 50) \<rparr>],
     pc_order_discount = None, pc_notes = None \<rparr>"

definition in_stock :: "string \<Rightarrow> (string \<times> js_number) list \<Rightarrow> stock_check_failure + stock_answer" where
  "in_stock c ls = Inr \<lparr> sa_available = True, sa_lines = [] \<rparr>"

definition placed_shop :: orders_db where
  "placed_shop = snd (execute_place in_stock 1234 example_id example_place (example_shop None) (example_shop None))"

definition placed_result :: place_result where
  "placed_result = (case fst (execute_place in_stock 1234 example_id example_place (example_shop None) (example_shop None)) of
     Inr r \<Rightarrow> r | Inl _ \<Rightarrow> undefined)"

lemma example_shop_ok: "orders_db_ok (example_shop sq)" "unused_request (pc_request_id example_place) (example_shop sq)"
  by (simp_all add: orders_db_ok_def example_shop_def unused_request_def)

lemma example_shop_fresh: "fresh_ids example_id (length (pc_lines example_place) + 2) (example_shop sq)"
proof -
  have "distinct (map example_id [0..<3])" by code_simp
  then show ?thesis using example_id_canonical
    by (simp add: fresh_ids_def example_place_def example_shop_def numeral_3_eq_3 del: upt_Suc)
qed

lemma example_place_runs:
  "execute_place in_stock 1234 example_id example_place (example_shop None) (example_shop None) = (Inr placed_result, placed_shop)"
proof -
  have "is_ok (fst (execute_place in_stock 1234 example_id example_place (example_shop None) (example_shop None)))"
    by code_simp
  then show ?thesis
    by (auto simp: is_ok_iff placed_shop_def placed_result_def prod_eq_iff)
qed

theorem placed_order_is_found_witness:
  "\<exists>ord. find_by_reference (pr_reference placed_result) placed_shop = Inr (Some ord) \<and> o_status ord = Placed \<and>
    map ol_product (o_lines ord) = [''P1''] \<and> o_date ord = 1000"
  using placed_order_is_found [OF example_shop_ok(1) example_shop_fresh example_shop_ok(2) example_place_runs]
  by (auto simp: example_place_def stored_datetime_def)

definition second_id :: "nat \<Rightarrow> uid" where
  "second_id k = example_id (k + 5)"

text \<open>Another client places an order of its own in between.\<close>

definition other_placing :: placing where
  "other_placing = \<lparr> pg_stock = in_stock, pg_now = 4000, pg_fresh = second_id,
     pg_command = example_place \<lparr> pc_request_id := None \<rparr>, pg_read = example_shop None \<rparr>"

lemma other_placing_ok: "placings_ok [other_placing] placed_shop"
proof -
  have "distinct (map second_id [0..<3])" by code_simp
  moreover have "list_all (\<lambda>it. it_id it \<notin> set (map second_id [0..<3]) \<and> it_order it \<notin> set (map second_id [0..<3])) (db_items placed_shop)"
    by code_simp
  moreover have "unique_id_from (second_id k) = Inr (second_id k)" if "k < 3" for k
    using that example_id_canonical by (simp add: second_id_def)
  moreover have "db_reference placed_shop = example_reference" by code_simp
  ultimately show ?thesis
    by (auto simp: fresh_ids_def other_placing_def example_place_def example_shop_def list_all_iff numeral_3_eq_3 simp del: upt_Suc)
qed

theorem place_is_idempotent_witness:
  "execute_place (\<lambda>_ _. Inl Stock_Check_Timeout) 9999 example_id (example_place \<lparr> pc_lines := [] \<rparr>)
     (run_placings [other_placing] placed_shop) placed_shop =
    (Inr (placed_result \<lparr> pr_order_date := 1000 \<rparr>), placed_shop)"
  using place_is_idempotent [OF example_shop_ok(1) example_shop_fresh example_shop_ok(2) example_place_runs _ other_placing_ok,
      of "example_place \<lparr> pc_lines := [] \<rparr>" "\<lambda>_ _. Inl Stock_Check_Timeout" 9999 example_id placed_shop]
  by (simp add: example_place_def truthy_def stored_datetime_def)

theorem place_race_answers_winner_witness:
  "\<exists>res db'. execute_place in_stock 5000 second_id example_place (example_shop None) placed_shop = (Inr res, db') \<and>
    pr_order_id res = example_id 0 \<and> db_orders db' = db_orders placed_shop \<and> db_sequence db' = Some 3"
proof -
  let ?run = "execute_place in_stock 5000 second_id example_place (example_shop None) placed_shop"
  have "is_ok (fst ?run)" by code_simp
  then obtain res where res: "?run = (Inr res, snd ?run)" by (auto simp: is_ok_iff prod_eq_iff)
  have "case find_by_request_id ''request'' placed_shop of Inr (Some w) \<Rightarrow> o_id w = example_id 0 | _ \<Rightarrow> False" by code_simp
  then obtain w where w: "find_by_request_id ''request'' placed_shop = Inr (Some w)" "o_id w = example_id 0"
    by (auto split: sum.splits option.splits)
  have "next_value placed_shop = 2" by code_simp
  then show ?thesis
    using place_race_answers_winner [of example_place "example_shop None" placed_shop w in_stock 5000 second_id res "snd ?run"]
      res w example_shop_ok(2)
    by (auto simp: example_place_def truthy_def to_place_result_def)
qed

definition example_placing :: placing where
  "example_placing = \<lparr> pg_stock = in_stock, pg_now = 1234, pg_fresh = example_id, pg_command = example_place,
     pg_read = example_shop None \<rparr>"

theorem order_numbers_never_collide_witness:
  "fst (run_placing example_placing (run_placings [example_placing] (example_shop None))) \<noteq>
    Inl (Place_Store (Duplicate_Key Key_Order_Reference))"
  using order_numbers_never_collide [of "example_shop None"] by (simp add: sequence_ok_virgin example_shop_def)

end
