(* ===== verification/Kernel_Properties.thy ===== *)
theory Kernel_Properties
  imports Kernel_Money
begin

text \<open>
  What the value objects of the shared kernel guarantee: the check digit of a GLN, the fixed
  shape of the business references, exact arithmetic on money and a lossless money text.
\<close>

section \<open>The check digit\<close>

lemma digit_value_inject: "is_digit a \<Longrightarrow> is_digit b \<Longrightarrow> digit_value a = digit_value b \<longleftrightarrow> a = b"
  by (auto simp: is_digit_def digit_value_def code_of_eq_iff)

lemma rev_update_nth: "i < length xs \<Longrightarrow> rev (xs[i := c]) = (rev xs)[length xs - Suc i := c]"
  by (rule nth_equalityI) (auto simp: rev_nth nth_list_update)

text \<open>The sum over the body with the check digit, and what changing one digit does to it.\<close>

definition gln_total :: "string \<Rightarrow> nat" where
  "gln_total s = gln_sum 0 (rev (take 12 s)) + digit_value (s ! 12)"

lemma gln_total_update:
  assumes "digits_shape 13 s" "i < 13" "is_digit c"
  shows "\<exists>w x. (w = 1 \<or> w = 3) \<and> gln_total s = x + digit_value (s ! i) * w \<and>
    gln_total (s[i := c]) = x + digit_value c * w"
proof (cases "i = 12")
  case True
  then show ?thesis using assms by (intro exI [of _ 1] exI [of _ "gln_sum 0 (rev (take 12 s))"])
      (simp add: gln_total_def digits_shape_def)
next
  case False
  let ?b = "take 12 s"
  have i: "i < 12" "length ?b = 12" "length s = 13" using assms False by (auto simp: digits_shape_def)
  let ?j = "11 - i" and ?w = "if even (11 - i) then 3 else 1 :: nat"
  have "take 12 (s[i := c]) = ?b[i := c]" by (simp add: take_update_swap)
  then have r: "rev (take 12 (s[i := c])) = (rev ?b)[?j := c]" using i by (simp add: rev_update_nth)
  have at: "rev ?b ! ?j = s ! i" using i by (simp add: rev_nth)
  have "list_all is_digit (rev ?b)" using assms(1) by (auto simp: digits_shape_def list_all_iff dest: in_set_takeD)
  from gln_sum_update [OF this _ assms(3), of ?j 0]
  have g: "gln_sum 0 (rev (take 12 (s[i := c]))) + digit_value (s ! i) * ?w =
      gln_sum 0 (rev ?b) + digit_value c * ?w"
    using i by (simp add: r at)
  have "digit_value (s ! i) * ?w \<le> gln_sum 0 (rev ?b)"
  proof -
    have "digit_value (cs ! j) * (if even (k + j) then 3 else 1) \<le> gln_sum k cs" if "j < length cs" for j k cs
      using that
    proof (induction cs arbitrary: j k)
      case (Cons a cs)
      show ?case
      proof (cases j)
        case (Suc i)
        then have "digit_value (cs ! i) * (if even (Suc k + i) then 3 else 1) \<le> gln_sum (Suc k) cs"
          using Cons.prems by (intro Cons.IH) simp
        then show ?thesis using Suc by (simp add: trans_le_add2)
      qed simp
    qed simp
    from this [of ?j "rev ?b" 0] show ?thesis using i by (simp add: at)
  qed
  then show ?thesis using g i
    by (intro exI [of _ ?w] exI [of _ "gln_total s - digit_value (s ! i) * ?w"]) (auto simp: gln_total_def)
qed

lemma gln_of_total: "gln_of s = Inr g \<longleftrightarrow> g = s \<and> digits_shape 13 s \<and> gln_total s mod 10 = 0"
  by (simp add: gln_of_Inr gln_total_def)

lemma gln_of_mismatch:
  assumes "digits_shape 13 s" "gln_total s mod 10 \<noteq> 0"
  shows "\<exists>supplied expected. gln_of s = Inl (Invalid_Gln s (Check_Digit_Mismatch supplied expected))"
proof -
  have "digits_shape 12 (take 12 s)"
    using assms(1) by (auto simp: digits_shape_def list_all_iff dest: in_set_takeD)
  then obtain d where "compute_check_digit (take 12 s) = Inr d" by (simp add: compute_check_digit_def)
  moreover have "gln_of s \<noteq> Inr s" using assms(2) by (simp add: gln_of_total)
  ultimately show ?thesis using assms(1) by (auto simp: gln_of_def Let_def split: if_splits)
qed

lemma gln_completed:
  assumes "compute_check_digit body = Inr d"
  shows "gln_of (body @ [digit_char d]) = Inr (body @ [digit_char d])"
proof -
  have b: "digits_shape 12 body" "d < 10"
    using assms compute_check_digit_less [OF assms] by (auto simp: compute_check_digit_def split: if_splits)
  then show ?thesis using assms
    by (simp add: gln_of_def digits_shape_def nth_append)
qed

lemma gln_mistyped:
  assumes "gln_of s = Inr g" "i < 13" "is_digit c" "c \<noteq> s ! i"
  shows "\<exists>supplied expected. gln_of (s[i := c]) = Inl (Invalid_Gln (s[i := c]) (Check_Digit_Mismatch supplied expected))"
proof (rule gln_of_mismatch)
  have s: "digits_shape 13 s" "gln_total s mod 10 = 0" using assms(1) by (simp_all add: gln_of_total)
  then show "digits_shape 13 (s[i := c])"
    using assms(3) by (auto simp: digits_shape_def list_all_iff dest: subsetD [OF set_update_subset_insert])
  have d: "is_digit (s ! i)" using s(1) assms(2) by (simp add: digits_shape_def list_all_length)
  obtain w x where w: "w = 1 \<or> w = 3" "gln_total s = x + digit_value (s ! i) * w"
    "gln_total (s[i := c]) = x + digit_value c * w"
    using gln_total_update [OF s(1) assms(2,3)] by blast
  have "digit_value c \<noteq> digit_value (s ! i)"
    using assms(3,4) d by (simp add: digit_value_inject)
  then have "gln_total (s[i := c]) mod 10 \<noteq> gln_total s mod 10"
    using gln_weight_unit [OF digit_value_less [OF assms(3)] digit_value_less [OF d] w(1), of x] w(2,3) by auto
  then show "gln_total (s[i := c]) mod 10 \<noteq> 0" using s(2) by simp
qed

text \<open>A GLN's check digit does its work: completing any twelve digits with the computed check digit
  gives a valid GLN, and no valid GLN can be turned into another by mistyping one digit: the
  changed text is refused, with the check digit mismatch as the reason.\<close>

theorem gln_check_digit_detects:
  "(\<forall>body d. compute_check_digit body = Inr d \<longrightarrow> gln_of (body @ [digit_char d]) = Inr (body @ [digit_char d])) \<and>
   (\<forall>s g i c. gln_of s = Inr g \<and> i < 13 \<and> is_digit c \<and> c \<noteq> s ! i \<longrightarrow>
     (\<exists>supplied expected. gln_of (s[i := c]) = Inl (Invalid_Gln (s[i := c]) (Check_Digit_Mismatch supplied expected))))"
  using gln_completed gln_mistyped by blast

theorem gln_check_digit_detects_witness:
  "\<exists>supplied expected. gln_of (''4006381333931''[4 := CHR ''9'']) =
    Inl (Invalid_Gln (''4006381333931''[4 := CHR ''9'']) (Check_Digit_Mismatch supplied expected))"
proof -
  have "gln_of ''4006381333931'' = Inr ''4006381333931''" by code_simp
  moreover have "is_digit CHR ''9''" "CHR ''9'' \<noteq> ''4006381333931'' ! 4" by code_simp+
  moreover have "(4::nat) < 13" by simp
  ultimately show ?thesis using conjunct2 [OF gln_check_digit_detects] by blast
qed

section \<open>Business references\<close>

lemma digit_chars: "digit_char 0 = CHR ''0''" "digit_char (Suc 0) = CHR ''1''" "digit_char 2 = CHR ''2''"
  "digit_char 3 = CHR ''3''" "digit_char 4 = CHR ''4''" "digit_char 5 = CHR ''5''" "digit_char 6 = CHR ''6''"
  "digit_char 7 = CHR ''7''" "digit_char 8 = CHR ''8''" "digit_char 9 = CHR ''9''"
  by code_simp+

lemma decimal_21: "decimal 1000000000000000000000 = ''1000000000000000000000''"
  by (simp add: decimal.simps digit_chars)

lemma round_21: "round_nat 1000000000000000000000 = 1000000000000000000000"
proof -
  have "excess_bits 1000000000000000000000 = 17" by (simp add: excess_bits.simps)
  then show ?thesis by (simp add: round_nat_def)
qed

lemma shortest_21: "shortest_from 1 1000000000000000000000 = 1000000000000000000000"
proof -
  have "round_nat 2000000000000000000000 \<noteq> 1000000000000000000000"
  proof -
    have "excess_bits 2000000000000000000000 = 18" by (simp add: excess_bits.simps)
    then show ?thesis by (simp add: round_nat_def)
  qed
  then show ?thesis by (subst shortest_from.simps) (simp add: decimal_21 round_21 Let_def)
qed

lemma oversized_sequence: "order_number_from_sequence (Js_Int (10 ^ 21)) = Inr (Order_Number ''ORD-01e+21'')"
proof -
  have e: "exponent_text 1000000000000000000000 = ''1e+21''"
    unfolding exponent_text_def decimal_21 by (simp add: Let_def decimal.simps digit_chars)
  have "number_text 1000000000000000000000 = ''1e+21''"
    unfolding number_text_def shortest_21 Let_def e by simp
  then show ?thesis
    by (simp add: order_number_from_sequence_def format_reference_def sequence_width_def pad_start_def)
qed

text \<open>A business reference is six digits and nothing else: as long as the sequence is a number that
  prints in plain digits, formatting succeeds exactly on 1 to 999999, and what it gives is
  accepted by the parser, reads back as the sequence, and is given by no other sequence. The
  bound on the length alone does not keep the larger numbers out: ten to the 21 prints in
  exponent notation, passes it, and gives a reference that its own parser refuses.\<close>

theorem reference_format_roundtrip:
  "(\<forall>k. plain_number k \<longrightarrow> (is_ok (format_reference pre (Js_Int k)) \<longleftrightarrow> 0 < k \<and> k < 10 ^ 6) \<and>
     (\<forall>r. format_reference pre (Js_Int k) = Inr r \<longrightarrow> parse_reference pre r = Inr r \<and>
       int (read_decimal (drop (length pre + 1) r)) = k)) \<and>
   order_number_from_sequence (Js_Int (10 ^ 21)) = Inr (Order_Number ''ORD-01e+21'') \<and>
   order_number_of ''ORD-01e+21'' = Inl (Invalid_Business_Reference ''ORD'' ''ORD-01e+21'')"
proof (intro conjI allI impI)
  fix k assume p: "plain_number k"
  show "is_ok (format_reference pre (Js_Int k)) \<longleftrightarrow> 0 < k \<and> k < 10 ^ 6"
    using p by (simp add: format_reference_plain)
  fix r assume r: "format_reference pre (Js_Int k) = Inr r"
  show "parse_reference pre r = Inr r" using p r by (rule format_reference_parses)
  show "int (read_decimal (drop (length pre + 1) r)) = k" using p r by (rule format_reference_reads_back)
next
  show "order_number_from_sequence (Js_Int (10 ^ 21)) = Inr (Order_Number ''ORD-01e+21'')"
    "order_number_of ''ORD-01e+21'' = Inl (Invalid_Business_Reference ''ORD'' ''ORD-01e+21'')"
    by (rule oversized_sequence, code_simp)
qed

theorem reference_format_roundtrip_witness:
  "parse_reference ''INV'' ''INV-000042'' = Inr ''INV-000042''"
proof -
  have "plain_number 42" by (simp add: plain_number_def)
  moreover have "format_reference ''INV'' (Js_Int 42) = Inr ''INV-000042''"
    by code_simp
  ultimately show ?thesis using conjunct1 [OF reference_format_roundtrip] by blast
qed

section \<open>Money\<close>

text \<open>Money arithmetic is exact or refused: on well-formed amounts, adding, subtracting and
  multiplying give the mathematically exact integer in the same currency whenever that is a
  safe integer, and otherwise an error (a currency mismatch for two currencies, an invalid
  amount for a result out of range); no operation ever returns a rounded amount, and comparing
  agrees with the integers.\<close>

theorem money_arithmetic_exact:
  assumes "money_ok a" "money_ok b"
  shows "money_add a b = (if currency a \<noteq> currency b then Inl (Currency_Mismatch (currency a) (currency b))
      else if is_safe (amount a + amount b) then Inr \<lparr> amount = amount a + amount b, currency = currency a \<rparr>
      else Inl (Invalid_Money_Amount (js_of_int (amount a + amount b)))) \<and>
    money_subtract a b = (if currency a \<noteq> currency b then Inl (Currency_Mismatch (currency a) (currency b))
      else if is_safe (amount a - amount b) then Inr \<lparr> amount = amount a - amount b, currency = currency a \<rparr>
      else Inl (Invalid_Money_Amount (js_of_int (amount a - amount b)))) \<and>
    money_multiply a q = (if is_safe (amount a * q_value q)
      then Inr \<lparr> amount = amount a * q_value q, currency = currency a \<rparr>
      else Inl (Invalid_Money_Amount (js_of_int (amount a * q_value q)))) \<and>
    money_negate a = Inr \<lparr> amount = - amount a, currency = currency a \<rparr> \<and>
    money_is_greater a b = (if currency a = currency b then Inr (amount b < amount a)
      else Inl (Currency_Mismatch (currency a) (currency b))) \<and>
    money_mod100 a = amount a mod 100"
  using assms by (simp add: money_add_eval money_subtract_eval money_multiply_eval money_negate_eval
      money_compare_eval money_mod100_mod)

theorem money_arithmetic_exact_witness:
  "money_add \<lparr> amount = 9007199254740991, currency = ''EUR'' \<rparr> \<lparr> amount = 2, currency = ''EUR'' \<rparr> =
    Inl (Invalid_Money_Amount (Js_Int 9007199254740992))"
proof -
  have "money_ok \<lparr> amount = 9007199254740991, currency = ''EUR'' \<rparr>" "money_ok \<lparr> amount = 2, currency = ''EUR'' \<rparr>"
    by code_simp+
  note m = conjunct1 [OF money_arithmetic_exact [OF this]]
  moreover have "\<not> is_safe (9007199254740991 + 2)" "js_of_int (9007199254740991 + 2) = Js_Int 9007199254740992"
    using js_round_inexact by (simp_all add: is_safe_def max_safe_def js_of_int_def)
  ultimately show ?thesis by simp
qed

text \<open>The text of an amount ends in its currency.\<close>

lemma format_money_suffix:
  assumes "length c = 3" shows "drop (length (format_money n c) - 3) (format_money n c) = c"
proof -
  have "drop (length (xs @ c) - 3) (xs @ c) = c" for xs using assms by simp
  from this [of "_ @ _ @ _ @ '' ''"] show ?thesis by (simp add: format_money_def Let_def)
qed

text \<open>The text of an amount loses nothing: its digits, read as one number, are the amount in the
  currency's smallest unit whatever the exponent and the grouping, it starts with a minus sign
  exactly for a negative amount, and two amounts print alike only when both the amount and the
  currency agree.\<close>

theorem money_text_lossless:
  assumes "currency_shape c" "currency_shape d"
  shows "read_decimal (filter is_digit (format_money n c)) = nat \<bar>n\<bar> \<and>
    (take 1 (format_money n c) = ''-'' \<longleftrightarrow> n < 0) \<and>
    (format_money n c = format_money m d \<longleftrightarrow> n = m \<and> c = d)"
proof (intro conjI iffI)
  show "read_decimal (filter is_digit (format_money n c)) = nat \<bar>n\<bar>" using assms(1) by (rule format_money_digits)
  show "n < 0" if "take 1 (format_money n c) = ''-''" using that by (simp only: format_money_sign)
  show "take 1 (format_money n c) = ''-''" if "n < 0" using that by (simp only: format_money_sign)
  assume e: "format_money n c = format_money m d"
  have "nat \<bar>n\<bar> = nat \<bar>m\<bar>"
    using format_money_digits [OF assms(1), of n] format_money_digits [OF assms(2), of m] e by simp
  moreover have "n < 0 \<longleftrightarrow> m < 0" using format_money_sign [of n c] format_money_sign [of m d] e by simp
  ultimately show "n = m" by linarith
  show "c = d"
    using format_money_suffix [of c n] format_money_suffix [of d m] assms e by (simp add: currency_shape_def)
qed simp

theorem money_text_lossless_witness:
  "read_decimal (filter is_digit (format_money (- 1234567) ''EUR'')) = 1234567 \<and>
   format_money (- 1234567) ''EUR'' = ''-12 345.67 EUR''"
proof -
  have "currency_shape ''EUR''" by code_simp
  from money_text_lossless [OF this this, of "- 1234567"]
  have "read_decimal (filter is_digit (format_money (- 1234567) ''EUR'')) = nat \<bar>- 1234567\<bar>" by blast
  moreover have "currency_exponent ''EUR'' = 2" by code_simp
  then have "format_money (- 1234567) ''EUR'' = ''-12 345.67 EUR''"
    by (simp add: format_money_def Let_def decimal.simps digit_chars)
  ultimately show ?thesis by simp
qed

end
