(* ===== verification/Stock_Domain.thy ===== *)
theory Stock_Domain
  imports Contracts
begin

text \<open>
  The StockItem aggregate and its Reservation entities, and the two order-scoped services over
  them (apps/fulfillment/src/domain: stock-item.ts, reservation.ts, order-stock-reservation.ts,
  stock-events.ts, stock-errors.ts).  An operation returns the item it leaves, its events
  included; the items a service works on are a list in which a product occurs once, since the
  repository hands out the values of a map keyed by product.  Unit counts are JavaScript
  numbers: every sum is rounded, and the invariant \<open>stock_item_ok\<close> makes it exact.
\<close>

section \<open>Reservations\<close>

datatype reservation_status = Reserved | Released | Consumed

datatype reservation_action = To_Release | To_Consume

record reservation =
  rv_id :: uid
  rv_order :: order_number
  rv_company :: string
  rv_retailer :: string
  rv_product :: string
  rv_units :: quantity
  rv_status :: reservation_status

datatype snapshot_reason = Negative_Counter int int | Reserved_Exceeds_Units int int

datatype stock_error =
    Insufficient_Stock_Error string int int
  | Reservation_Terminal uid reservation_status reservation_action
  | Invalid_Stock_Item_Snapshot snapshot_reason uid
  | Fact_Aggregate_Mismatch uid uid
  | Undefined_Carrier

definition create_reservation ::
    "uid \<Rightarrow> order_number \<Rightarrow> string \<Rightarrow> string \<Rightarrow> string \<Rightarrow> quantity \<Rightarrow> reservation" where
  "create_reservation i ref company retailer product q = \<lparr> rv_id = i, rv_order = ref, rv_company = company,
     rv_retailer = retailer, rv_product = product, rv_units = q, rv_status = Reserved \<rparr>"

definition release_reservation :: "reservation \<Rightarrow> stock_error + reservation" where
  "release_reservation r = (if rv_status r \<noteq> Reserved
     then Inl (Reservation_Terminal (rv_id r) (rv_status r) To_Release)
     else Inr (r \<lparr> rv_status := Released \<rparr>))"

definition consume_reservation :: "reservation \<Rightarrow> stock_error + reservation" where
  "consume_reservation r = (if rv_status r \<noteq> Reserved
     then Inl (Reservation_Terminal (rv_id r) (rv_status r) To_Consume)
     else Inr (r \<lparr> rv_status := Consumed \<rparr>))"

section \<open>Stock items\<close>

record stock_context =
  sx_at :: instant
  sx_causation :: uid

record stock_item_snapshot =
  ss_id :: uid
  ss_company :: string
  ss_product :: string
  ss_units :: int
  ss_reserved :: int
  ss_threshold :: int
  ss_reservations :: "reservation list"

record stock_item =
  si_id :: uid
  si_company :: string
  si_product :: string
  si_units :: int
  si_reserved :: int
  si_threshold :: int
  si_reservations :: "reservation list"
  si_events :: "envelope list"

definition reconstitute_stock :: "stock_item_snapshot \<Rightarrow> stock_error + stock_item" where
  "reconstitute_stock s =
     (if ss_units s < 0 \<or> ss_reserved s < 0
        then Inl (Invalid_Stock_Item_Snapshot (Negative_Counter (ss_units s) (ss_reserved s)) (ss_id s))
      else if ss_reserved s > ss_units s
        then Inl (Invalid_Stock_Item_Snapshot (Reserved_Exceeds_Units (ss_reserved s) (ss_units s)) (ss_id s))
      else Inr \<lparr> si_id = ss_id s, si_company = ss_company s, si_product = ss_product s,
        si_units = ss_units s, si_reserved = ss_reserved s, si_threshold = ss_threshold s,
        si_reservations = ss_reservations s, si_events = [] \<rparr>)"

definition available_units :: "stock_item \<Rightarrow> int" where
  "available_units it = js_round (si_units it - si_reserved it)"

definition can_reserve :: "quantity \<Rightarrow> stock_item \<Rightarrow> bool" where
  "can_reserve q it \<longleftrightarrow> available_units it \<ge> q_value q"

definition reserve_stock ::
    "uid \<Rightarrow> order_number \<Rightarrow> string \<Rightarrow> quantity \<Rightarrow> stock_item \<Rightarrow> stock_error + reservation \<times> stock_item" where
  "reserve_stock i ref retailer q it =
     (if js_round (si_reserved it + q_value q) > si_units it
      then Inl (Insufficient_Stock_Error (si_product it) (q_value q) (available_units it))
      else let r = create_reservation i ref (si_company it) retailer (si_product it) q in
        Inr (r, it \<lparr> si_reserved := js_round (si_reserved it + q_value q),
          si_reservations := si_reservations it @ [r] \<rparr>))"

text \<open>The reduction of the code: the partial sums are rounded.\<close>

definition sum_units :: "reservation list \<Rightarrow> int" where
  "sum_units rs = foldl (\<lambda>s r. js_round (s + q_value (rv_units r))) 0 rs"

definition release_stock :: "order_number \<Rightarrow> stock_item \<Rightarrow> stock_error + reservation list \<times> stock_item" where
  "release_stock ref it =
     (let matches = filter (\<lambda>r. rv_order r = ref) (si_reservations it) in
      case find (\<lambda>r. rv_status r = Consumed) matches of
        Some r \<Rightarrow> Inl (Reservation_Terminal (rv_id r) Consumed To_Release)
      | None \<Rightarrow>
        let to_release = filter (\<lambda>r. rv_status r = Reserved) matches in
        if to_release = [] then Inr ([], it)
        else bindR (mapR release_reservation to_release) (\<lambda>released.
          bindR (mapR (\<lambda>r. if rv_order r = ref \<and> rv_status r = Reserved then release_reservation r else Inr r)
            (si_reservations it)) (\<lambda>rs.
          Inr (released, it \<lparr> si_reserved := js_round (si_reserved it - sum_units to_release),
            si_reservations := rs \<rparr>))))"

definition consume_stock :: "order_number \<Rightarrow> stock_item \<Rightarrow> stock_error + reservation list \<times> stock_item" where
  "consume_stock ref it =
     (let matches = filter (\<lambda>r. rv_order r = ref) (si_reservations it) in
      case find (\<lambda>r. rv_status r = Released) matches of
        Some r \<Rightarrow> Inl (Reservation_Terminal (rv_id r) Released To_Consume)
      | None \<Rightarrow>
        let to_consume = filter (\<lambda>r. rv_status r = Reserved) matches in
        if to_consume = [] then Inr ([], it)
        else bindR (mapR consume_reservation to_consume) (\<lambda>consumed.
          bindR (mapR (\<lambda>r. if rv_order r = ref \<and> rv_status r = Reserved then consume_reservation r else Inr r)
            (si_reservations it)) (\<lambda>rs.
          Inr (consumed, it \<lparr> si_units := js_round (si_units it - sum_units to_consume),
            si_reserved := js_round (si_reserved it - sum_units to_consume), si_reservations := rs \<rparr>))))"

definition replenish_stock :: "quantity \<Rightarrow> stock_item \<Rightarrow> stock_item" where
  "replenish_stock q it = it \<lparr> si_units := js_round (si_units it + q_value q) \<rparr>"

definition record_order_fact :: "envelope \<Rightarrow> stock_item \<Rightarrow> stock_error + stock_item" where
  "record_order_fact e it = (if ev_aggregate e \<noteq> si_id it
     then Inl (Fact_Aggregate_Mismatch (si_id it) (ev_aggregate e))
     else Inr (it \<lparr> si_events := si_events it @ [e] \<rparr>))"

section \<open>The facts\<close>

definition stock_event :: "uid \<Rightarrow> event_type \<Rightarrow> payload \<Rightarrow> stock_item \<Rightarrow> uid \<Rightarrow> stock_context \<Rightarrow> envelope" where
  "stock_event eid ty p carrier corr ctx = \<lparr> ev_id = eid, ev_type = ty, ev_aggregate = si_id carrier,
     ev_correlation = corr, ev_causation = sx_causation ctx, ev_at = sx_at ctx, ev_payload = p \<rparr>"

definition stock_reserved_event ::
    "uid \<Rightarrow> stock_item \<Rightarrow> order_number \<Rightarrow> string \<Rightarrow> string \<Rightarrow> reservation_ref list \<Rightarrow> uid \<Rightarrow> stock_context \<Rightarrow> envelope" where
  "stock_reserved_event eid carrier ref company retailer refs corr ctx =
     stock_event eid Stock_Reserved_Fact (Stock_Reserved_P \<lparr> srv_reference = order_number_value ref,
       srv_company = company, srv_retailer = Some retailer, srv_reservations = refs \<rparr>) carrier corr ctx"

definition stock_rejected_event ::
    "uid \<Rightarrow> stock_item \<Rightarrow> order_number \<Rightarrow> string \<Rightarrow> string option \<Rightarrow> shortage list \<Rightarrow> rejection_reason \<Rightarrow>
      uid \<Rightarrow> stock_context \<Rightarrow> envelope" where
  "stock_rejected_event eid carrier ref company retailer shs reason corr ctx =
     stock_event eid Stock_Rejected_Fact (Stock_Rejected_P \<lparr> srj_reference = order_number_value ref,
       srj_company = company, srj_retailer = retailer, srj_shortages = shs, srj_reason = reason \<rparr>) carrier corr ctx"

definition stock_released_event ::
    "uid \<Rightarrow> stock_item \<Rightarrow> order_number \<Rightarrow> string \<Rightarrow> string option \<Rightarrow> reservation_ref list \<Rightarrow> release_reason \<Rightarrow>
      uid \<Rightarrow> stock_context \<Rightarrow> envelope" where
  "stock_released_event eid carrier ref company retailer refs reason corr ctx =
     stock_event eid Stock_Released_Fact (Stock_Released_P \<lparr> srl_reference = order_number_value ref,
       srl_company = company, srl_retailer = retailer, srl_released = refs, srl_reason = reason \<rparr>) carrier corr ctx"

section \<open>Reserving an order\<close>

record reserve_line =
  rl_product :: string
  rl_units :: quantity

record reserve_input =
  ri_order :: order_number
  ri_company :: string
  ri_retailer :: string
  ri_lines :: "reserve_line list"
  ri_correlation :: uid

datatype reserve_outcome =
    Stock_Was_Reserved "reservation_ref list" uid
  | Stock_Was_Rejected "shortage list" rejection_reason "uid option"

definition item_for :: "string \<Rightarrow> stock_item list \<Rightarrow> stock_item option" where
  "item_for p items = find (\<lambda>it. si_product it = p) items"

definition put_item :: "stock_item \<Rightarrow> stock_item list \<Rightarrow> stock_item list" where
  "put_item it items = map (\<lambda>x. if si_product x = si_product it then it else x) items"

definition requested_total :: "reserve_line list \<Rightarrow> string \<Rightarrow> int" where
  "requested_total ls p = foldl (\<lambda>s l. if rl_product l = p then js_round (s + q_value (rl_units l)) else s) 0 ls"

definition line_shortage :: "stock_item list \<Rightarrow> reserve_line list \<Rightarrow> reserve_line \<Rightarrow> shortage option" where
  "line_shortage items ls l = (case item_for (rl_product l) items of
     None \<Rightarrow> Some \<lparr> sh_product = rl_product l, sh_requested = q_value (rl_units l), sh_available = 0 \<rparr>
   | Some it \<Rightarrow>
     if requested_total ls (rl_product l) > available_units it
     then Some \<lparr> sh_product = rl_product l, sh_requested = q_value (rl_units l), sh_available = available_units it \<rparr>
     else None)"

definition to_ref :: "reservation \<Rightarrow> reservation_ref" where
  "to_ref r = \<lparr> rr_id = rv_id r, rr_product = rv_product r, rr_units = q_value (rv_units r) \<rparr>"

text \<open>The k-th identifier the call draws is \<open>fresh k\<close>: one per line, then the event's.\<close>

fun reserve_lines ::
    "(nat \<Rightarrow> uid) \<Rightarrow> order_number \<Rightarrow> string \<Rightarrow> nat \<Rightarrow> reserve_line list \<Rightarrow> stock_item list \<Rightarrow>
      stock_error + reservation_ref list \<times> stock_item list" where
  "reserve_lines fresh ref retailer k [] items = Inr ([], items)"
| "reserve_lines fresh ref retailer k (l # ls) items =
     bindR (reserve_stock (fresh k) ref retailer (rl_units l) (the (item_for (rl_product l) items))) (\<lambda>(r, it).
     bindR (reserve_lines fresh ref retailer (Suc k) ls (put_item it items)) (\<lambda>(refs, items').
     Inr (to_ref r # refs, items')))"

definition reserve_order_stock ::
    "(nat \<Rightarrow> uid) \<Rightarrow> reserve_input \<Rightarrow> stock_context \<Rightarrow> stock_item list \<Rightarrow>
      stock_error + reserve_outcome \<times> stock_item list" where
  "reserve_order_stock fresh inp ctx items =
     (let ls = ri_lines inp;
          shortages = List.map_filter (line_shortage items ls) ls;
          any_unknown = list_ex (\<lambda>l. item_for (rl_product l) items = None) ls;
          first_known = (case find (\<lambda>l. item_for (rl_product l) items \<noteq> None) ls of
            None \<Rightarrow> None | Some l \<Rightarrow> item_for (rl_product l) items) in
      if shortages \<noteq> [] then
        (let reason = (if any_unknown then Unknown_Product else Insufficient_Stock) in
         case first_known of
           None \<Rightarrow> Inr (Stock_Was_Rejected shortages reason None, items)
         | Some carrier \<Rightarrow>
           bindR (record_order_fact (stock_rejected_event (fresh 0) carrier (ri_order inp) (ri_company inp)
             (Some (ri_retailer inp)) shortages reason (ri_correlation inp) ctx) carrier) (\<lambda>it.
           Inr (Stock_Was_Rejected shortages reason (Some (si_id carrier)), put_item it items)))
      else case first_known of
        None \<Rightarrow> Inl Undefined_Carrier
      | Some first \<Rightarrow>
        bindR (reserve_lines fresh (ri_order inp) (ri_retailer inp) 0 ls items) (\<lambda>(refs, items').
        let carrier = the (item_for (si_product first) items') in
        bindR (record_order_fact (stock_reserved_event (fresh (length ls)) carrier (ri_order inp) (ri_company inp)
          (ri_retailer inp) refs (ri_correlation inp) ctx) carrier) (\<lambda>it.
        Inr (Stock_Was_Reserved refs (si_id carrier), put_item it items'))))"

section \<open>Releasing an order\<close>

datatype release_outcome = Stock_Was_Released "reservation_ref list" uid | Already_Released

definition release_items ::
    "order_number \<Rightarrow> stock_item list \<Rightarrow> stock_error + (reservation list \<times> stock_item) list" where
  "release_items ref items = mapR (release_stock ref) items"

definition release_order_stock ::
    "uid \<Rightarrow> order_number \<Rightarrow> string \<Rightarrow> release_reason \<Rightarrow> uid \<Rightarrow> stock_context \<Rightarrow> stock_item list \<Rightarrow>
      stock_error + release_outcome \<times> stock_item list" where
  "release_order_stock eid ref company reason corr ctx items =
     bindR (release_items ref items) (\<lambda>xs.
     let items' = map snd xs; refs = concat (map (\<lambda>(rs, _). map to_ref rs) xs) in
     case find (\<lambda>(rs, _). rs \<noteq> []) xs of
       None \<Rightarrow> Inr (Already_Released, items')
     | Some (rs, carrier) \<Rightarrow>
       bindR (record_order_fact (stock_released_event eid carrier ref company (Some (rv_retailer (hd rs)))
         refs reason corr ctx) carrier) (\<lambda>it.
       Inr (Stock_Was_Released refs (si_id carrier), put_item it items')))"

end
