(* ===== verification/Stock_Ledger.thy ===== *)
theory Stock_Ledger
  imports Stock_Domain
begin

text \<open>
  The operations of a stock item in closed form.  \<open>stock_item_ok\<close> is the invariant of an item as
  it is loaded for one order: the counters satisfy 0 <= reserved <= units, units is a safe
  integer, and what the loaded reservations hold is part of the reserved counter.  Under it the
  rounded sums of the code are exact, a release or a consumption is all the order's reserved
  reservations or an error, and reserving an order's lines is all or nothing.
\<close>

definition held_units :: "reservation list \<Rightarrow> int" where
  "held_units rs = sum_list (map (\<lambda>r. if rv_status r = Reserved then q_value (rv_units r) else 0) rs)"

definition mine :: "order_number \<Rightarrow> reservation \<Rightarrow> bool" where
  "mine ref r \<longleftrightarrow> rv_order r = ref \<and> rv_status r = Reserved"

definition settle :: "reservation_status \<Rightarrow> order_number \<Rightarrow> reservation list \<Rightarrow> reservation list" where
  "settle s ref rs = map (\<lambda>r. if mine ref r then r \<lparr> rv_status := s \<rparr> else r) rs"

definition stock_item_ok :: "stock_item \<Rightarrow> bool" where
  "stock_item_ok it \<longleftrightarrow> si_reserved it \<le> si_units it \<and> is_safe (si_units it) \<and>
     list_all (\<lambda>r. quantity_ok (rv_units r)) (si_reservations it) \<and>
     held_units (si_reservations it) \<le> si_reserved it"

lemma held_units_simps [simp]:
  "held_units [] = 0"
  "held_units (r # rs) = (if rv_status r = Reserved then q_value (rv_units r) else 0) + held_units rs"
  "held_units (rs @ rs') = held_units rs + held_units rs'"
  by (simp_all add: held_units_def)

lemma held_units_nonneg: "list_all (\<lambda>r. quantity_ok (rv_units r)) rs \<Longrightarrow> 0 \<le> held_units rs"
  by (induction rs) (auto simp: quantity_ok_def)

lemma held_units_mine:
  "list_all (\<lambda>r. quantity_ok (rv_units r)) rs \<Longrightarrow> held_units (filter (mine ref) rs) \<le> held_units rs"
  by (induction rs) (auto simp: quantity_ok_def mine_def)

lemma held_units_settle:
  "s \<noteq> Reserved \<Longrightarrow> held_units (settle s ref rs) = held_units rs - held_units (filter (mine ref) rs)"
  by (induction rs) (auto simp: settle_def mine_def)

lemma stock_item_ok_bounds:
  assumes "stock_item_ok it"
  shows "0 \<le> si_reserved it" "is_safe (si_reserved it)" "0 \<le> si_units it"
    "available_units it = si_units it - si_reserved it"
  using assms held_units_nonneg [of "si_reservations it"]
  by (auto simp: stock_item_ok_def available_units_def is_safe_def)

lemma sum_units_exact:
  assumes "list_all (\<lambda>r. quantity_ok (rv_units r)) rs" "list_all (\<lambda>r. rv_status r = Reserved) rs" "held_units rs \<le> max_safe"
  shows "sum_units rs = held_units rs"
proof -
  have "foldl (\<lambda>s r. js_round (s + q_value (rv_units r))) a rs = a + held_units rs"
    if "0 \<le> a" "a + held_units rs \<le> max_safe" for a
    using assms(1,2) that
  proof (induction rs arbitrary: a)
    case (Cons r rs)
    then have q: "0 < q_value (rv_units r)" and h: "0 \<le> held_units rs"
      by (auto simp: quantity_ok_def intro!: held_units_nonneg)
    then have "is_safe (a + q_value (rv_units r))" using Cons.prems by (simp add: is_safe_def)
    then show ?case using Cons.IH [of "a + q_value (rv_units r)"] Cons.prems q by simp
  qed simp
  from this [of 0] show ?thesis using assms(3) by (simp add: sum_units_def)
qed

section \<open>One item\<close>

lemma reserve_stock_eval:
  assumes "stock_item_ok it" "quantity_ok q"
  shows "reserve_stock i ref retailer q it =
    (if si_reserved it + q_value q > si_units it
     then Inl (Insufficient_Stock_Error (si_product it) (q_value q) (si_units it - si_reserved it))
     else let r = create_reservation i ref (si_company it) retailer (si_product it) q in
       Inr (r, it \<lparr> si_reserved := si_reserved it + q_value q, si_reservations := si_reservations it @ [r] \<rparr>))"
proof -
  note b = stock_item_ok_bounds [OF assms(1)]
  have u: "is_safe (si_units it)" using assms(1) by (simp add: stock_item_ok_def)
  have le: "js_round (si_reserved it + q_value q) \<le> si_units it \<longleftrightarrow> si_reserved it + q_value q \<le> si_units it"
  proof
    assume l: "js_round (si_reserved it + q_value q) \<le> si_units it"
    have "0 \<le> js_round (si_reserved it + q_value q)"
      using b assms(2) by (intro js_round_nonneg) (simp add: quantity_ok_def)
    with l u have "is_safe (js_round (si_reserved it + q_value q))" by (simp add: is_safe_def)
    then show "si_reserved it + q_value q \<le> si_units it" using l js_round_exact by simp
  next
    assume "si_reserved it + q_value q \<le> si_units it"
    with u b assms(2) have "is_safe (si_reserved it + q_value q)" by (simp add: is_safe_def quantity_ok_def)
    then show "js_round (si_reserved it + q_value q) \<le> si_units it"
      using \<open>si_reserved it + q_value q \<le> si_units it\<close> by simp
  qed
  show ?thesis
  proof (cases "si_reserved it + q_value q \<le> si_units it")
    case True
    with u b assms(2) have "is_safe (si_reserved it + q_value q)" by (simp add: is_safe_def quantity_ok_def)
    then show ?thesis using True by (simp add: reserve_stock_def)
  next
    case False
    then show ?thesis using le b(4) by (simp add: reserve_stock_def)
  qed
qed

lemma mine_release: "mapR release_reservation (filter (mine ref) rs) = Inr (map (\<lambda>r. r \<lparr> rv_status := Released \<rparr>) (filter (mine ref) rs))"
  by (rule mapR_pure) (simp add: release_reservation_def mine_def)

lemma mine_consume: "mapR consume_reservation (filter (mine ref) rs) = Inr (map (\<lambda>r. r \<lparr> rv_status := Consumed \<rparr>) (filter (mine ref) rs))"
  by (rule mapR_pure) (simp add: consume_reservation_def mine_def)

lemma settle_release:
  "mapR (\<lambda>r. if rv_order r = ref \<and> rv_status r = Reserved then release_reservation r else Inr r) rs = Inr (settle Released ref rs)"
  unfolding settle_def by (rule mapR_pure) (simp add: release_reservation_def mine_def)

lemma settle_consume:
  "mapR (\<lambda>r. if rv_order r = ref \<and> rv_status r = Reserved then consume_reservation r else Inr r) rs = Inr (settle Consumed ref rs)"
  unfolding settle_def by (rule mapR_pure) (simp add: consume_reservation_def mine_def)

lemma filter_mine: "filter (\<lambda>r. rv_status r = Reserved) (filter (\<lambda>r. rv_order r = ref) rs) = filter (mine ref) rs"
  by (simp add: mine_def [abs_def])

lemma settle_none: "filter (mine ref) rs = [] \<Longrightarrow> settle s ref rs = rs"
  by (induction rs) (auto simp: settle_def split: if_splits)

lemma mine_sums:
  assumes "stock_item_ok it"
  shows "sum_units (filter (mine ref) (si_reservations it)) = held_units (filter (mine ref) (si_reservations it))"
    and "0 \<le> held_units (filter (mine ref) (si_reservations it))"
    and "held_units (filter (mine ref) (si_reservations it)) \<le> si_reserved it"
proof -
  have q: "list_all (\<lambda>r. quantity_ok (rv_units r)) (filter (mine ref) (si_reservations it))"
    using assms by (simp add: stock_item_ok_def list_all_iff)
  show le: "held_units (filter (mine ref) (si_reservations it)) \<le> si_reserved it"
    using assms held_units_mine [of "si_reservations it" ref] by (simp add: stock_item_ok_def)
  show "0 \<le> held_units (filter (mine ref) (si_reservations it))" using q by (rule held_units_nonneg)
  have "si_reserved it \<le> max_safe" using stock_item_ok_bounds [OF assms] by (simp add: is_safe_def)
  with le q show "sum_units (filter (mine ref) (si_reservations it)) = held_units (filter (mine ref) (si_reservations it))"
    by (intro sum_units_exact) (auto simp: list_all_iff mine_def)
qed

lemma release_stock_eval:
  assumes "stock_item_ok it"
  shows "release_stock ref it =
    (case find (\<lambda>r. rv_status r = Consumed) (filter (\<lambda>r. rv_order r = ref) (si_reservations it)) of
       Some r \<Rightarrow> Inl (Reservation_Terminal (rv_id r) Consumed To_Release)
     | None \<Rightarrow> Inr (map (\<lambda>r. r \<lparr> rv_status := Released \<rparr>) (filter (mine ref) (si_reservations it)),
         it \<lparr> si_reserved := si_reserved it - held_units (filter (mine ref) (si_reservations it)),
           si_reservations := settle Released ref (si_reservations it) \<rparr>))"
proof -
  note m = mine_sums [OF assms, of ref] and b = stock_item_ok_bounds [OF assms]
  have s: "is_safe (si_reserved it - held_units (filter (mine ref) (si_reservations it)))"
    using m(2,3) b by (simp add: is_safe_def)
  show ?thesis unfolding release_stock_def Let_def filter_mine
    by (auto simp: mine_release settle_release m(1) s settle_none split: option.split)
qed

lemma consume_stock_eval:
  assumes "stock_item_ok it"
  shows "consume_stock ref it =
    (case find (\<lambda>r. rv_status r = Released) (filter (\<lambda>r. rv_order r = ref) (si_reservations it)) of
       Some r \<Rightarrow> Inl (Reservation_Terminal (rv_id r) Released To_Consume)
     | None \<Rightarrow> Inr (map (\<lambda>r. r \<lparr> rv_status := Consumed \<rparr>) (filter (mine ref) (si_reservations it)),
         it \<lparr> si_units := si_units it - held_units (filter (mine ref) (si_reservations it)),
           si_reserved := si_reserved it - held_units (filter (mine ref) (si_reservations it)),
           si_reservations := settle Consumed ref (si_reservations it) \<rparr>))"
proof -
  note m = mine_sums [OF assms, of ref] and b = stock_item_ok_bounds [OF assms]
  have s: "is_safe (si_reserved it - held_units (filter (mine ref) (si_reservations it)))"
    "is_safe (si_units it - held_units (filter (mine ref) (si_reservations it)))"
    using m(2,3) b assms by (simp_all add: is_safe_def stock_item_ok_def)
  show ?thesis unfolding consume_stock_def Let_def filter_mine
    by (auto simp: mine_consume settle_consume m(1) s settle_none split: option.split)
qed

lemma list_all_settle: "list_all (\<lambda>r. quantity_ok (rv_units r)) (settle s ref rs) \<longleftrightarrow> list_all (\<lambda>r. quantity_ok (rv_units r)) rs"
  by (induction rs) (auto simp: settle_def)

section \<open>The items of an order\<close>

definition line_total :: "string \<Rightarrow> reserve_line list \<Rightarrow> int" where
  "line_total p ls = sum_list (map (\<lambda>l. if rl_product l = p then q_value (rl_units l) else 0) ls)"

definition lines_ok :: "reserve_line list \<Rightarrow> bool" where
  "lines_ok ls \<longleftrightarrow> list_all (\<lambda>l. quantity_ok (rl_units l)) ls"

definition items_ok :: "stock_item list \<Rightarrow> bool" where
  "items_ok items \<longleftrightarrow> distinct (map si_product items) \<and> list_all stock_item_ok items"

definition is_short :: "stock_item list \<Rightarrow> reserve_line list \<Rightarrow> reserve_line \<Rightarrow> bool" where
  "is_short items ls l \<longleftrightarrow> (case item_for (rl_product l) items of None \<Rightarrow> True
     | Some it \<Rightarrow> line_total (rl_product l) ls > si_units it - si_reserved it)"

definition line_reservation :: "(nat \<Rightarrow> uid) \<Rightarrow> order_number \<Rightarrow> string \<Rightarrow> string \<Rightarrow> nat \<times> reserve_line \<Rightarrow> reservation" where
  "line_reservation fresh ref company retailer x =
     create_reservation (fresh (fst x)) ref company retailer (rl_product (snd x)) (rl_units (snd x))"

definition line_ref :: "(nat \<Rightarrow> uid) \<Rightarrow> nat \<times> reserve_line \<Rightarrow> reservation_ref" where
  "line_ref fresh x = \<lparr> rr_id = fresh (fst x), rr_product = rl_product (snd x), rr_units = q_value (rl_units (snd x)) \<rparr>"

definition book ::
    "(nat \<Rightarrow> uid) \<Rightarrow> order_number \<Rightarrow> string \<Rightarrow> nat \<Rightarrow> reserve_line list \<Rightarrow> stock_item \<Rightarrow> stock_item" where
  "book fresh ref retailer k ls it = it \<lparr> si_reserved := si_reserved it + line_total (si_product it) ls,
     si_reservations := si_reservations it @ map (line_reservation fresh ref (si_company it) retailer)
       (filter (\<lambda>x. rl_product (snd x) = si_product it) (enumerate k ls)) \<rparr>"

lemma line_total_simps [simp]:
  "line_total p [] = 0"
  "line_total p (l # ls) = (if rl_product l = p then q_value (rl_units l) else 0) + line_total p ls"
  by (simp_all add: line_total_def)

lemma line_total_nonneg: "lines_ok ls \<Longrightarrow> 0 \<le> line_total p ls"
  by (induction ls) (auto simp: lines_ok_def quantity_ok_def)

lemma requested_total_more:
  assumes "lines_ok ls" "a \<le> max_safe" "0 \<le> a"
  shows "requested_total ls p > a \<longleftrightarrow> line_total p ls > a"
proof -
  let ?f = "\<lambda>s l. if rl_product l = p then js_round (s + q_value (rl_units l)) else s"
  have stays: "max_safe < foldl ?f s ls" if "max_safe < s" "lines_ok ls" for s ls
    using that
  proof (induction ls arbitrary: s)
    case (Cons l ls)
    have "max_safe < ?f s l"
    proof (cases "rl_product l = p")
      case True
      have q: "0 < q_value (rl_units l)" using Cons.prems by (simp add: lines_ok_def quantity_ok_def)
      moreover have "0 < max_safe" by (simp add: max_safe_def)
      ultimately have "\<not> is_safe (s + q_value (rl_units l))" "0 \<le> s + q_value (rl_units l)"
        using Cons.prems(1) by (simp_all add: is_safe_def)
      then have "\<not> is_safe (js_round (s + q_value (rl_units l)))" "0 \<le> js_round (s + q_value (rl_units l))"
        by (simp_all add: js_round_nonneg)
      then show ?thesis using True by (simp add: is_safe_def)
    qed (use Cons.prems in simp)
    then show ?case using Cons.IH Cons.prems by (simp add: lines_ok_def)
  qed simp
  have "(s + line_total p ls \<le> max_safe \<longrightarrow> foldl ?f s ls = s + line_total p ls) \<and>
      (max_safe < s + line_total p ls \<longrightarrow> max_safe < foldl ?f s ls)" if "0 \<le> s" "s \<le> max_safe" for s
    using assms(1) that
  proof (induction ls arbitrary: s)
    case (Cons l ls)
    then have ls: "lines_ok ls" by (simp add: lines_ok_def)
    show ?case
    proof (cases "rl_product l = p")
      case True
      let ?q = "q_value (rl_units l)"
      have q: "0 < ?q" using Cons.prems by (simp add: lines_ok_def quantity_ok_def)
      show ?thesis
      proof (cases "s + ?q \<le> max_safe")
        case small: True
        then have "is_safe (s + ?q)" using q Cons.prems by (simp add: is_safe_def)
        then show ?thesis using Cons.IH [OF ls, of "s + ?q"] q Cons.prems small True by (simp add: add.assoc)
      next
        case False
        then have "\<not> is_safe (s + ?q)" using q Cons.prems by (simp add: is_safe_def)
        moreover have "0 \<le> js_round (s + ?q)" using q Cons.prems by (intro js_round_nonneg) simp
        ultimately have "max_safe < js_round (s + ?q)"
          using js_round_safe_iff [of "s + ?q"] by (simp add: is_safe_def del: js_round_safe_iff)
        then have "max_safe < foldl ?f (js_round (s + ?q)) ls" using ls by (rule stays)
        then show ?thesis using True False line_total_nonneg [OF ls, of p] by simp
      qed
    qed (use Cons ls in simp)
  qed simp
  from this [of 0] assms(2,3) show ?thesis
    unfolding requested_total_def by (cases "line_total p ls \<le> max_safe") (auto simp: max_safe_def)
qed

lemma item_forD: "item_for p items = Some it \<Longrightarrow> it \<in> set items \<and> si_product it = p"
  by (auto simp: item_for_def find_Some_iff)

lemma item_for_None: "item_for p items = None \<longleftrightarrow> p \<notin> si_product ` set items"
  by (auto simp: item_for_def find_None_iff)

lemma item_for_distinct:
  "\<lbrakk> distinct (map si_product items); it \<in> set items \<rbrakk> \<Longrightarrow> item_for (si_product it) items = Some it"
proof (induction items)
  case (Cons x xs)
  then show ?case by (cases "it = x") (auto simp: item_for_def)
qed simp

lemma put_item_map:
  assumes "\<And>x. si_product (g x) = si_product x" "distinct (map si_product items)" "it \<in> set items"
    and "\<And>x. si_product (h x) = si_product x"
  shows "put_item (h (g it)) (map g items) = map (\<lambda>x. if si_product x = si_product it then h (g x) else g x) items"
  using assms by (auto simp: put_item_def) (metis distinct_map inj_on_eq_iff)

lemma put_item_same:
  assumes "distinct (map si_product items)" "it \<in> set items" "si_product it' = si_product it"
  shows "put_item it' items = map (\<lambda>x. if x = it then it' else x) items"
  using assms by (auto simp: put_item_def distinct_map dest: inj_onD)

lemma book_simps [simp]:
  "si_id (book fresh ref retailer k ls it) = si_id it"
  "si_company (book fresh ref retailer k ls it) = si_company it"
  "si_product (book fresh ref retailer k ls it) = si_product it"
  "si_units (book fresh ref retailer k ls it) = si_units it"
  "si_threshold (book fresh ref retailer k ls it) = si_threshold it"
  "si_events (book fresh ref retailer k ls it) = si_events it"
  by (simp_all add: book_def)

lemma reserve_lines_eval:
  assumes "items_ok items" "lines_ok ls" "\<And>l. l \<in> set ls \<Longrightarrow> item_for (rl_product l) items \<noteq> None"
    and "\<And>it. it \<in> set items \<Longrightarrow> si_reserved it + line_total (si_product it) ls \<le> si_units it"
  shows "reserve_lines fresh ref retailer k ls items =
    Inr (map (line_ref fresh) (enumerate k ls), map (book fresh ref retailer k ls) items)"
  using assms
proof (induction ls arbitrary: k items)
  case Nil
  then show ?case by (simp add: book_def map_idI)
next
  case (Cons l ls)
  obtain it where it: "item_for (rl_product l) items = Some it" using Cons.prems(3) by fastforce
  then have mem: "it \<in> set items" and p: "si_product it = rl_product l" by (auto dest: item_forD)
  have ok: "stock_item_ok it" "quantity_ok (rl_units l)" "lines_ok ls"
    and dist: "distinct (map si_product items)"
    using Cons.prems(1,2) mem by (auto simp: items_ok_def lines_ok_def list_all_iff)
  have fits: "si_reserved it + q_value (rl_units l) + line_total (rl_product l) ls \<le> si_units it"
    using Cons.prems(4) [OF mem] p by simp
  then have fit: "si_reserved it + q_value (rl_units l) \<le> si_units it"
    using line_total_nonneg [OF ok(3), of "rl_product l"] by simp
  let ?r = "create_reservation (fresh k) ref (si_company it) retailer (si_product it) (rl_units l)"
  let ?it = "it \<lparr> si_reserved := si_reserved it + q_value (rl_units l), si_reservations := si_reservations it @ [?r] \<rparr>"
  have step: "reserve_stock (fresh k) ref retailer (rl_units l) it = Inr (?r, ?it)"
    using reserve_stock_eval [OF ok(1,2)] fit by (simp add: Let_def)
  have put: "put_item ?it items = map (\<lambda>x. if x = it then ?it else x) items"
    using dist mem by (rule put_item_same) simp
  have okit: "stock_item_ok ?it"
    using ok fit by (simp add: stock_item_ok_def create_reservation_def)
  have "map si_product (put_item ?it items) = map si_product items"
    unfolding put by simp
  then have "distinct (map si_product (put_item ?it items))" using dist by simp
  moreover have "list_all stock_item_ok (put_item ?it items)"
    using Cons.prems(1) okit unfolding items_ok_def put by (auto simp: list_all_iff)
  ultimately have "items_ok (put_item ?it items)" by (simp only: items_ok_def simp_thms)
  moreover have "item_for (rl_product m) (put_item ?it items) \<noteq> None" if "m \<in> set ls" for m
  proof -
    have "si_product ` set (put_item ?it items) = si_product ` set items"
      using \<open>map si_product (put_item ?it items) = map si_product items\<close> by (metis set_map)
    then show ?thesis using Cons.prems(3) [of m] that by (simp add: item_for_None)
  qed
  moreover have "si_reserved x + line_total (si_product x) ls \<le> si_units x" if "x \<in> set (put_item ?it items)" for x
  proof (cases "x = ?it")
    case True
    then show ?thesis using fits p by simp
  next
    case False
    then have x: "x \<in> set items" "x \<noteq> it" using that mem unfolding put by (auto split: if_splits)
    then have "si_product x \<noteq> rl_product l"
      using dist mem p by (metis distinct_map inj_onD)
    then show ?thesis using Cons.prems(4) [OF x(1)] by simp
  qed
  ultimately have ih: "reserve_lines fresh ref retailer (Suc k) ls (put_item ?it items) =
      Inr (map (line_ref fresh) (enumerate (Suc k) ls), map (book fresh ref retailer (Suc k) ls) (put_item ?it items))"
    using ok(3) by (intro Cons.IH)
  have "map (book fresh ref retailer (Suc k) ls) (put_item ?it items) = map (book fresh ref retailer k (l # ls)) items"
  proof -
    have "book fresh ref retailer (Suc k) ls (if x = it then ?it else x) = book fresh ref retailer k (l # ls) x"
      if "x \<in> set items" for x
    proof (cases "x = it")
      case True
      then show ?thesis using p by (simp add: book_def line_reservation_def)
    next
      case False
      then have "si_product x \<noteq> rl_product l" using dist mem p that by (metis distinct_map inj_onD)
      then show ?thesis using False by (simp add: book_def)
    qed
    then show ?thesis unfolding put by simp
  qed
  then show ?case using it step ih p
    by (simp add: to_ref_def create_reservation_def line_ref_def)
qed

section \<open>All or nothing\<close>

definition with_event :: "envelope \<Rightarrow> uid \<Rightarrow> stock_item \<Rightarrow> stock_item" where
  "with_event e c it = (if si_id it = c then it \<lparr> si_events := si_events it @ [e] \<rparr> else it)"

lemma line_shortage_iff:
  assumes "items_ok items" "lines_ok ls" "l \<in> set ls"
  shows "line_shortage items ls l \<noteq> None \<longleftrightarrow> is_short items ls l"
proof (cases "item_for (rl_product l) items")
  case (Some it)
  then have "stock_item_ok it" using assms(1) by (auto simp: items_ok_def list_all_iff dest: item_forD)
  note b = stock_item_ok_bounds [OF this]
  have le: "si_units it - si_reserved it \<le> max_safe" "0 \<le> si_units it - si_reserved it"
    using b \<open>stock_item_ok it\<close> by (auto simp: stock_item_ok_def is_safe_def)
  show ?thesis using requested_total_more [OF assms(2) le, of "rl_product l"] Some b(4)
    by (simp add: line_shortage_def is_short_def)
qed (simp add: line_shortage_def is_short_def)

lemma map_filter_empty: "List.map_filter f xs = [] \<longleftrightarrow> (\<forall>x\<in>set xs. f x = None)"
  by (induction xs) (auto simp: List.map_filter_simps split: option.splits)

lemma put_event:
  assumes "distinct (map si_id items)" "distinct (map si_product items)" "c \<in> set items"
  shows "put_item (c \<lparr> si_events := si_events c @ [e] \<rparr>) items = map (with_event e (si_id c)) items"
proof -
  have "put_item (c \<lparr> si_events := si_events c @ [e] \<rparr>) items = map (\<lambda>x. if x = c then c \<lparr> si_events := si_events c @ [e] \<rparr> else x) items"
    by (rule put_item_same [OF assms(2,3)]) simp
  also have "\<dots> = map (with_event e (si_id c)) items"
  proof (rule map_cong)
    fix x assume "x \<in> set items"
    then have "si_id x = si_id c \<longleftrightarrow> x = c" using assms(1,3) by (metis distinct_map inj_onD)
    then show "(if x = c then c \<lparr> si_events := si_events c @ [e] \<rparr> else x) = with_event e (si_id c) x"
      by (auto simp: with_event_def)
  qed simp
  finally show ?thesis .
qed

lemma reserve_order_stock_short:
  assumes "items_ok items" "distinct (map si_id items)" "lines_ok (ri_lines inp)"
    and "\<exists>l\<in>set (ri_lines inp). is_short items (ri_lines inp) l"
    and "reserve_order_stock fresh inp ctx items = Inr (out, items')"
  shows "\<exists>reason carrier. out = Stock_Was_Rejected (List.map_filter (line_shortage items (ri_lines inp)) (ri_lines inp)) reason carrier \<and>
    (case carrier of None \<Rightarrow> items' = items
     | Some c \<Rightarrow> \<exists>e. ev_type e = Stock_Rejected_Fact \<and> ev_aggregate e = c \<and> ev_id e = fresh 0 \<and>
         ev_correlation e = ri_correlation inp \<and> c \<in> si_id ` set items \<and> items' = map (with_event e c) items)"
proof -
  let ?ls = "ri_lines inp"
  have "List.map_filter (line_shortage items ?ls) ?ls \<noteq> []"
    using assms(4) line_shortage_iff [OF assms(1,3)] unfolding map_filter_empty by blast
  note short = this
  show ?thesis
  proof (cases "case find (\<lambda>l. item_for (rl_product l) items \<noteq> None) ?ls of
      None \<Rightarrow> None | Some l \<Rightarrow> item_for (rl_product l) items")
    case None
    then show ?thesis using assms(5) short by (auto simp: reserve_order_stock_def Let_def)
  next
    case (Some c)
    then have c: "c \<in> set items" by (auto split: option.splits dest: item_forD)
    have dp: "distinct (map si_product items)" using assms(1) by (simp add: items_ok_def)
    let ?reason = "if list_ex (\<lambda>l. item_for (rl_product l) items = None) ?ls then Unknown_Product else Insufficient_Stock"
    let ?e = "stock_rejected_event (fresh 0) c (ri_order inp) (ri_company inp) (Some (ri_retailer inp))
      (List.map_filter (line_shortage items ?ls) ?ls) ?reason (ri_correlation inp) ctx"
    have e: "ev_type ?e = Stock_Rejected_Fact" "ev_aggregate ?e = si_id c" "ev_id ?e = fresh 0"
      "ev_correlation ?e = ri_correlation inp"
      by (simp_all only: stock_rejected_event_def stock_event_def envelope.select_convs)
    have "record_order_fact ?e c = Inr (c \<lparr> si_events := si_events c @ [?e] \<rparr>)"
      by (simp only: record_order_fact_def e simp_thms if_False not_not)
    then have "out = Stock_Was_Rejected (List.map_filter (line_shortage items ?ls) ?ls) ?reason (Some (si_id c))"
      "items' = map (with_event ?e (si_id c)) items"
      using assms(5) short Some by (simp_all only: reserve_order_stock_def Let_def if_True simp_thms option.case
        bindR_simps put_event [OF assms(2) dp c] sum.inject prod.inject)
    then show ?thesis using e c by (intro exI [of _ ?reason] exI [of _ "Some (si_id c)"]) auto
  qed
qed

lemma line_total_none: "p \<notin> rl_product ` set ls \<Longrightarrow> line_total p ls = 0"
  by (induction ls) auto

lemma not_short_fits:
  assumes "items_ok items" "\<And>l. l \<in> set ls \<Longrightarrow> \<not> is_short items ls l" "it \<in> set items"
  shows "si_reserved it + line_total (si_product it) ls \<le> si_units it"
proof (cases "si_product it \<in> rl_product ` set ls")
  case True
  then obtain l where l: "l \<in> set ls" "rl_product l = si_product it" by auto
  have "item_for (si_product it) items = Some it"
    using assms(1,3) by (intro item_for_distinct) (auto simp: items_ok_def)
  then show ?thesis using assms(2) [OF l(1)] l(2) by (simp add: is_short_def)
next
  case False
  then show ?thesis using assms(1,3) by (auto simp: line_total_none items_ok_def list_all_iff stock_item_ok_def)
qed

lemma reserve_order_stock_fits:
  assumes "items_ok items" "distinct (map si_id items)" "lines_ok (ri_lines inp)" "ri_lines inp \<noteq> []"
    and fits: "\<And>l. l \<in> set (ri_lines inp) \<Longrightarrow> \<not> is_short items (ri_lines inp) l"
  shows "\<exists>c e. reserve_order_stock fresh inp ctx items =
      Inr (Stock_Was_Reserved (map (line_ref fresh) (enumerate 0 (ri_lines inp))) c,
        map (with_event e c) (map (book fresh (ri_order inp) (ri_retailer inp) 0 (ri_lines inp)) items)) \<and>
    c \<in> si_id ` set items \<and> ev_type e = Stock_Reserved_Fact \<and> ev_aggregate e = c \<and>
    ev_id e = fresh (length (ri_lines inp)) \<and> ev_correlation e = ri_correlation inp"
proof -
  let ?ls = "ri_lines inp" and ?b = "book fresh (ri_order inp) (ri_retailer inp) 0 (ri_lines inp)"
  have none: "List.map_filter (line_shortage items ?ls) ?ls = []"
    using fits line_shortage_iff [OF assms(1,3)] unfolding map_filter_empty by blast
  have known: "item_for (rl_product l) items \<noteq> None" if "l \<in> set ?ls" for l
    using fits [OF that] by (auto simp: is_short_def split: option.splits)
  obtain l where l: "find (\<lambda>l. item_for (rl_product l) items \<noteq> None) ?ls = Some l"
    using known assms(4) by (cases ?ls) auto
  then have "l \<in> set ?ls" by (auto simp: find_Some_iff)
  then obtain first where f: "item_for (rl_product l) items = Some first" using known by blast
  then have fm: "first \<in> set items" by (auto dest: item_forD)
  have dp: "distinct (map si_product items)" using assms(1) by (simp add: items_ok_def)
  have lines: "reserve_lines fresh (ri_order inp) (ri_retailer inp) 0 ?ls items =
      Inr (map (line_ref fresh) (enumerate 0 ?ls), map ?b items)"
    by (rule reserve_lines_eval [OF assms(1,3) known not_short_fits [OF assms(1) fits]])
  have dp': "distinct (map si_product (map ?b items))" using dp by (simp add: comp_def)
  have di': "distinct (map si_id (map ?b items))" using assms(2) by (simp add: comp_def)
  have bm: "?b first \<in> set (map ?b items)" using fm by simp
  have carrier: "item_for (si_product first) (map ?b items) = Some (?b first)"
    using item_for_distinct [OF dp' bm] by simp
  show ?thesis
    using none lines l f carrier fm put_event [OF di' dp' bm]
    by (auto simp: reserve_order_stock_def Let_def record_order_fact_def stock_reserved_event_def stock_event_def)
qed

end
