(* ===== verification/Table_Rows.thy ===== *)
theory Table_Rows
  imports Orders_Store
begin

text \<open>
  What the tables of the services share: \<open>upsert_row\<close> is an INSERT ... ON DUPLICATE KEY UPDATE of
  one row, where \<open>same\<close> says which rows have one of its unique keys and \<open>upd\<close> is the update
  clause, and \<open>outbox_rows\<close> are the rows an outbox recorder inserts.  Upserting changed copies of
  some rows of a table changes exactly these rows; upserting new rows appends them.
\<close>

definition upsert_row :: "('r \<Rightarrow> 'r \<Rightarrow> bool) \<Rightarrow> ('r \<Rightarrow> 'r \<Rightarrow> 'r) \<Rightarrow> 'r \<Rightarrow> 'r list \<Rightarrow> 'r list" where
  "upsert_row same upd row rows = (if list_ex (same row) rows
     then map (\<lambda>r. if same row r then upd row r else r) rows else rows @ [row])"

lemma fold_upsert_changed:
  assumes same: "\<And>r r0. \<lbrakk> r \<in> set T; r0 \<in> set T; P r0 \<rbrakk> \<Longrightarrow> same (f r0) r \<longleftrightarrow> r = r0"
    and samef: "\<And>r r0. \<lbrakk> r \<in> set T; P r; r0 \<in> set T; P r0 \<rbrakk> \<Longrightarrow> same (f r0) (f r) \<longleftrightarrow> r = r0"
    and upd: "\<And>r. \<lbrakk> r \<in> set T; P r \<rbrakk> \<Longrightarrow> upd (f r) r = f r \<and> upd (f r) (f r) = f r"
    and rs: "set rs = f ` {r \<in> set T. P r}"
  shows "fold (upsert_row same upd) rs T = map (\<lambda>r. if P r then f r else r) T"
proof -
  have step: "fold (upsert_row same upd) xs (map (\<lambda>r. if r \<in> D then f r else r) T) =
      map (\<lambda>r. if r \<in> D \<union> {r \<in> set T. P r \<and> f r \<in> set xs} then f r else r) T"
    if "set xs \<subseteq> f ` {r \<in> set T. P r}" "D \<subseteq> {r \<in> set T. P r}" for xs D
    using that
  proof (induction xs arbitrary: D)
    case Nil
    have "{r \<in> set T. P r \<and> f r \<in> set []} = {}" by simp
    then show ?case by simp
  next
    case (Cons x xs)
    then obtain r0 where r0: "r0 \<in> set T" "P r0" "x = f r0" by auto
    have inj: "f r = f r0 \<longleftrightarrow> r = r0" if "r \<in> set T" "P r" for r
      using samef [of r0 r0] samef [of r r0] r0 that by metis
    let ?g = "\<lambda>D r. if r \<in> D then f r else r"
    have s: "same x (?g D r) \<longleftrightarrow> r = r0" if "r \<in> set T" for r
      using same [OF that r0(1,2)] samef [OF that _ r0(1,2)] Cons.prems(2) r0(3) by auto
    then have "same x (?g D r0)" using r0(1) by blast
    moreover have "?g D r0 \<in> set (map (?g D) T)" using r0(1) by (simp only: set_map image_eqI)
    ultimately have "list_ex (same x) (map (?g D) T)" unfolding list_ex_iff by blast
    then have "upsert_row same upd x (map (?g D) T) =
        map (\<lambda>r. if same x r then upd x r else r) (map (?g D) T)"
      by (simp add: upsert_row_def)
    also have "\<dots> = map (?g (insert r0 D)) T"
      using s upd [OF r0(1,2)] by (auto simp: r0(3))
    finally have e: "upsert_row same upd x (map (?g D) T) = map (?g (insert r0 D)) T" .
    have "{r \<in> set T. P r \<and> f r \<in> set (x # xs)} = insert r0 {r \<in> set T. P r \<and> f r \<in> set xs}"
      using inj r0 by auto
    then show ?case using Cons.IH [of "insert r0 D"] Cons.prems r0 e by simp
  qed
  have "{r \<in> set T. P r \<and> f r \<in> set rs} = {r \<in> set T. P r}" using rs by auto
  then have "fold (upsert_row same upd) rs T = map (\<lambda>r. if r \<in> {r \<in> set T. P r} then f r else r) T"
    using step [of rs "{}"] rs by simp
  then show ?thesis by simp
qed

lemma fold_upsert_new:
  assumes "\<And>x r. \<lbrakk> x \<in> set xs; r \<in> set T \<rbrakk> \<Longrightarrow> \<not> same x r" "sorted_wrt (\<lambda>a b. \<not> same b a) xs"
  shows "fold (upsert_row same upd) xs T = T @ xs"
  using assms
proof (induction xs arbitrary: T)
  case (Cons x xs)
  have "upsert_row same upd x T = T @ [x]"
    using Cons.prems(1) by (auto simp: upsert_row_def list_ex_iff)
  moreover have "fold (upsert_row same upd) xs (T @ [x]) = (T @ [x]) @ xs"
    using Cons.prems by (intro Cons.IH) auto
  ultimately show ?case by simp
qed simp

definition outbox_rows :: "instant \<Rightarrow> nat \<Rightarrow> envelope list \<Rightarrow> outbox_row list" where
  "outbox_rows now k evs = map (\<lambda>(k, e).
     \<lparr> ob_envelope = e, ob_seq = k, ob_published_at = None, ob_created_at = stored_datetime now \<rparr>) (enumerate k evs)"

definition event_id_taken :: "envelope list \<Rightarrow> outbox_row list \<Rightarrow> bool" where
  "event_id_taken evs rows \<longleftrightarrow> \<not> distinct (map ev_id evs) \<or>
     list_ex (\<lambda>e. list_ex (\<lambda>r. ev_id (ob_envelope r) = ev_id e) rows) evs"

lemma outbox_rows_simps [simp]:
  "outbox_rows now k [] = []"
  "outbox_rows now k (e # evs) =
    \<lparr> ob_envelope = e, ob_seq = k, ob_published_at = None, ob_created_at = stored_datetime now \<rparr> # outbox_rows now (Suc k) evs"
  by (simp_all add: outbox_rows_def)

lemma outbox_rows_envelopes [simp]: "map ob_envelope (outbox_rows now k evs) = evs"
  by (induction evs arbitrary: k) simp_all

end
