(* ===== verification/Stock_Store.thy ===== *)
theory Stock_Store
  imports Stock_Domain Table_Rows "HOL-Library.List_Lexorder" "HOL-Library.Char_ord" "HOL-Library.Product_Lexorder"
begin

text \<open>
  The write model of the Fulfillment service (apps/fulfillment/src/infrastructure/persistence
  and outbox): the tables as the record \<open>fulfillment_db\<close>, the stock repository with its locking
  reads and its upserts, the despatch repository and the allocator of despatch references.
  The columns, the unit of work and the outbox row are those of the orders database.  Codes are
  compared character by character and a read without an order clause returns the rows in the
  order of the table.
\<close>

record stock_row =
  sk_id :: uid
  sk_company :: string
  sk_product :: string
  sk_units :: int
  sk_reserved :: int
  sk_threshold :: int

record reservation_row =
  rw_id :: uid
  rw_stock :: uid
  rw_company :: string
  rw_retailer :: string
  rw_product :: string
  rw_order :: string
  rw_units :: int
  rw_status :: reservation_status

record despatch_row =
  dv_id :: uid
  dv_reference :: string
  dv_date :: instant
  dv_company :: string
  dv_retailer :: string
  dv_order :: string

record despatch_item_row =
  di_id :: uid
  di_despatch :: uid
  di_product :: string
  di_units :: int

record fulfillment_db =
  fd_stock :: "stock_row list"
  fd_reservations :: "reservation_row list"
  fd_despatches :: "despatch_row list"
  fd_despatch_items :: "despatch_item_row list"
  fd_outbox :: "outbox_row list"
  fd_next_seq :: nat
  fd_sequence :: "nat option"

datatype despatch_key = Key_Despatch_Id | Key_Despatch_Reference | Key_Despatch_Order

datatype fulfillment_error =
    Stock_Kernel_Error kernel_error
  | Stock_Domain_Error stock_error
  | Stock_Out_Of_Range
  | Stock_Outbox_Error store_error
  | Duplicate_Despatch despatch_key
  | No_Known_Stock_Item string
  | Unknown_Stock_Item string string
  | Concurrent_Reservation_Change string
  | No_Reserved_Stock_For_Despatch string
  | Empty_Despatch_Lines string
  | Despatch_Row_Missing string

section \<open>Rows and items\<close>

definition to_reservation :: "reservation_row \<Rightarrow> kernel_error + reservation" where
  "to_reservation r =
     bindR (unique_id_from (rw_id r)) (\<lambda>i.
     bindR (order_number_of (rw_order r)) (\<lambda>ref.
     bindR (quantity_of (Js_Int (rw_units r))) (\<lambda>q.
     Inr \<lparr> rv_id = i, rv_order = ref, rv_company = rw_company r, rv_retailer = rw_retailer r,
       rv_product = rw_product r, rv_units = q, rv_status = rw_status r \<rparr>)))"

definition to_stock_snapshot :: "stock_row \<Rightarrow> reservation_row list \<Rightarrow> kernel_error + stock_item_snapshot" where
  "to_stock_snapshot row rs =
     bindR (unique_id_from (sk_id row)) (\<lambda>i.
     bindR (mapR to_reservation rs) (\<lambda>rvs.
     Inr \<lparr> ss_id = i, ss_company = sk_company row, ss_product = sk_product row, ss_units = sk_units row,
       ss_reserved = sk_reserved row, ss_threshold = sk_threshold row, ss_reservations = rvs \<rparr>))"

definition reconstitute_stock_item :: "stock_row \<Rightarrow> reservation_row list \<Rightarrow> fulfillment_error + stock_item" where
  "reconstitute_stock_item row rs =
     bindR (mapErr Stock_Kernel_Error (to_stock_snapshot row rs)) (\<lambda>s.
     mapErr Stock_Domain_Error (reconstitute_stock s))"

definition to_stock_table_row :: "stock_item \<Rightarrow> stock_row" where
  "to_stock_table_row it = \<lparr> sk_id = si_id it, sk_company = si_company it, sk_product = si_product it,
     sk_units = si_units it, sk_reserved = si_reserved it, sk_threshold = si_threshold it \<rparr>"

definition to_reservation_table_rows :: "stock_item \<Rightarrow> reservation_row list" where
  "to_reservation_table_rows it = map (\<lambda>r. \<lparr> rw_id = rv_id r, rw_stock = si_id it, rw_company = rv_company r,
     rw_retailer = rv_retailer r, rw_product = rv_product r, rw_order = order_number_value (rv_order r),
     rw_units = q_value (rv_units r), rw_status = rv_status r \<rparr>) (si_reservations it)"

text \<open>The map keyed by product: a later row of the same product takes the earlier one's place.\<close>

definition to_item_map :: "stock_row list \<Rightarrow> reservation_row list \<Rightarrow> fulfillment_error + (string \<times> stock_item) list" where
  "to_item_map rows rs =
     foldR (\<lambda>m row. bindR (reconstitute_stock_item row (filter (\<lambda>r. rw_stock r = sk_id row) rs)) (\<lambda>it.
       Inr (AList.update (sk_product row) it m))) [] rows"

section \<open>The locking reads\<close>

definition by_code :: "stock_row list \<Rightarrow> stock_row list" where
  "by_code rows = sort_key (\<lambda>r. (sk_company r, sk_product r)) rows"

definition reservations_of :: "uid list \<Rightarrow> order_number \<Rightarrow> fulfillment_db \<Rightarrow> reservation_row list" where
  "reservations_of ids ref db =
     filter (\<lambda>r. rw_stock r \<in> set ids \<and> rw_order r = order_number_value ref) (fd_reservations db)"

definition lock_for_order ::
    "string \<Rightarrow> string list \<Rightarrow> order_number \<Rightarrow> fulfillment_db \<Rightarrow> fulfillment_error + (string \<times> stock_item) list" where
  "lock_for_order company products ref db =
     (let rows = by_code (filter (\<lambda>r. sk_company r = company \<and> sk_product r \<in> set products) (fd_stock db)) in
      to_item_map rows (reservations_of (map sk_id rows) ref db))"

definition stock_ids_of_order :: "order_number \<Rightarrow> fulfillment_db \<Rightarrow> fulfillment_error + uid list" where
  "stock_ids_of_order ref db = mapErr Stock_Kernel_Error (mapR unique_id_from
     (remdups (map rw_stock (filter (\<lambda>r. rw_order r = order_number_value ref) (fd_reservations db)))))"

definition lock_by_ids_for_order ::
    "uid list \<Rightarrow> order_number \<Rightarrow> fulfillment_db \<Rightarrow> fulfillment_error + stock_item list" where
  "lock_by_ids_for_order ids ref db =
     (if ids = [] then Inr []
      else bindR (to_item_map (by_code (filter (\<lambda>r. sk_id r \<in> set ids) (fd_stock db))) (reservations_of ids ref db))
        (\<lambda>m. Inr (map snd m)))"

definition lock_by_product_codes ::
    "string \<Rightarrow> string list \<Rightarrow> fulfillment_db \<Rightarrow> fulfillment_error + (string \<times> stock_item) list" where
  "lock_by_product_codes company products db =
     to_item_map (by_code (filter (\<lambda>r. sk_company r = company \<and> sk_product r \<in> set products) (fd_stock db))) []"

section \<open>Writing\<close>

definition record_stock_outbox ::
    "instant \<Rightarrow> envelope list \<Rightarrow> fulfillment_db \<Rightarrow> fulfillment_error + fulfillment_db" where
  "record_stock_outbox now evs db =
     (if evs = [] then Inr db
      else if event_id_taken evs (fd_outbox db) then Inl (Stock_Outbox_Error (Duplicate_Key Key_Event_Id))
      else Inr (db \<lparr> fd_outbox := fd_outbox db @ outbox_rows now (fd_next_seq db) evs,
        fd_next_seq := fd_next_seq db + length evs \<rparr>))"

definition upsert_stock :: "stock_row \<Rightarrow> stock_row list \<Rightarrow> stock_row list" where
  "upsert_stock = upsert_row
     (\<lambda>row r. sk_id r = sk_id row \<or> (sk_company r = sk_company row \<and> sk_product r = sk_product row))
     (\<lambda>row r. r \<lparr> sk_units := sk_units row, sk_reserved := sk_reserved row, sk_threshold := sk_threshold row \<rparr>)"

definition upsert_reservation :: "reservation_row \<Rightarrow> reservation_row list \<Rightarrow> reservation_row list" where
  "upsert_reservation = upsert_row (\<lambda>row r. rw_id r = rw_id row)
     (\<lambda>row r. r \<lparr> rw_status := rw_status row, rw_units := rw_units row \<rparr>)"

definition save_item :: "stock_item \<Rightarrow> fulfillment_db \<Rightarrow> fulfillment_error + fulfillment_db" where
  "save_item it db =
     (let row = to_stock_table_row it; rs = to_reservation_table_rows it in
      if \<not> (fits_int (sk_units row) \<and> fits_int (sk_reserved row) \<and> fits_int (sk_threshold row))
        then Inl Stock_Out_Of_Range
      else if \<not> list_all (\<lambda>r. fits_int (rw_units r)) rs then Inl Stock_Out_Of_Range
      else Inr (db \<lparr> fd_stock := upsert_stock row (fd_stock db),
        fd_reservations := fold upsert_reservation rs (fd_reservations db) \<rparr>))"

definition save_all :: "instant \<Rightarrow> stock_item list \<Rightarrow> fulfillment_db \<Rightarrow> fulfillment_error + fulfillment_db" where
  "save_all now items db =
     bindR (foldR (\<lambda>d it. save_item it d) db items) (\<lambda>db1.
     record_stock_outbox now (concat (map si_events items)) db1)"

end
