(* ===== verification/Stock_Handlers.thy ===== *)
theory Stock_Handlers
  imports Stock_Store
begin

text \<open>
  The stock commands of the Fulfillment service (apps/fulfillment/src/application:
  stock-reservation.handler.ts and the replenishment handler of
  commands/stock.command-handlers.ts).  A release reads the ids of the order's stock rows before
  its transaction: that state and the state at the transaction are two arguments, so that what
  another session commits in between is visible.
\<close>

datatype reserve_reply =
    Reserve_Accepted string "reservation_ref list"
  | Reserve_Rejected string "shortage list"
  | Reserve_Already string "reservation_ref list"

datatype release_reply =
    Release_Done string "reservation_ref list"
  | Release_Already string

definition parse_order :: "string \<Rightarrow> fulfillment_error + order_number" where
  "parse_order s = mapErr Stock_Kernel_Error (order_number_of s)"

definition reservations_for :: "order_number \<Rightarrow> stock_item list \<Rightarrow> reservation list" where
  "reservations_for ref items = concat (map (\<lambda>it. filter (\<lambda>r. rv_order r = ref) (si_reservations it)) items)"

definition reserve_lines_of :: "units_line list \<Rightarrow> fulfillment_error + reserve_line list" where
  "reserve_lines_of ls = mapErr Stock_Kernel_Error (mapR (\<lambda>l.
     bindR (quantity_of (Js_Int (ul_units l))) (\<lambda>q. Inr \<lparr> rl_product = ul_product l, rl_units = q \<rparr>)) ls)"

definition reserve_in_transaction ::
    "instant \<Rightarrow> (nat \<Rightarrow> uid) \<Rightarrow> reserve_request \<Rightarrow> uid \<Rightarrow> uid \<Rightarrow> order_number \<Rightarrow> fulfillment_db \<Rightarrow>
      fulfillment_error + reserve_reply \<times> fulfillment_db" where
  "reserve_in_transaction now fresh req request_id corr ref db =
     bindR (lock_for_order (rq_company req) (remdups (map ul_product (rq_lines req))) ref db) (\<lambda>m.
     let items = map snd m; existing = reservations_for ref items in
     if existing \<noteq> [] then Inr (Reserve_Already (rq_reference req) (map to_ref existing), db)
     else bindR (reserve_lines_of (rq_lines req)) (\<lambda>ls.
       bindR (mapErr Stock_Domain_Error (reserve_order_stock fresh
         \<lparr> ri_order = ref, ri_company = rq_company req, ri_retailer = rq_retailer req, ri_lines = ls,
           ri_correlation = corr \<rparr> \<lparr> sx_at = now, sx_causation = request_id \<rparr> items)) (\<lambda>(out, items').
       case out of
         Stock_Was_Rejected shs reason None \<Rightarrow> Inl (No_Known_Stock_Item (rq_reference req))
       | Stock_Was_Rejected shs reason (Some c) \<Rightarrow>
           bindR (save_all now items' db) (\<lambda>db1. Inr (Reserve_Rejected (rq_reference req) shs, db1))
       | Stock_Was_Reserved refs c \<Rightarrow>
           bindR (save_all now items' db) (\<lambda>db1. Inr (Reserve_Accepted (rq_reference req) refs, db1)))))"

definition execute_reserve ::
    "instant \<Rightarrow> (nat \<Rightarrow> uid) \<Rightarrow> reserve_request \<Rightarrow> uid \<Rightarrow> uid \<Rightarrow> fulfillment_db \<Rightarrow>
      (fulfillment_error + reserve_reply) \<times> fulfillment_db" where
  "execute_reserve now fresh req request_id corr db = (case parse_order (rq_reference req) of
     Inl e \<Rightarrow> (Inl e, db)
   | Inr ref \<Rightarrow> unit_of_work (reserve_in_transaction now fresh req request_id corr ref) db)"

definition release_in_transaction ::
    "instant \<Rightarrow> uid \<Rightarrow> string \<Rightarrow> release_reason \<Rightarrow> uid \<Rightarrow> uid \<Rightarrow> order_number \<Rightarrow> uid list \<Rightarrow> fulfillment_db \<Rightarrow>
      fulfillment_error + release_reply \<times> fulfillment_db" where
  "release_in_transaction now eid text reason request_id corr ref ids db =
     bindR (lock_by_ids_for_order ids ref db) (\<lambda>items.
     if length items \<noteq> length ids then Inl (Concurrent_Reservation_Change text)
     else bindR (mapErr Stock_Domain_Error (release_order_stock eid ref (si_company (hd items)) reason corr
         \<lparr> sx_at = now, sx_causation = request_id \<rparr> items)) (\<lambda>(out, items').
       case out of
         Already_Released \<Rightarrow> Inr (Release_Already text, db)
       | Stock_Was_Released refs c \<Rightarrow>
           bindR (save_all now items' db) (\<lambda>db1. Inr (Release_Done text refs, db1))))"

definition execute_release ::
    "instant \<Rightarrow> uid \<Rightarrow> string \<Rightarrow> release_reason \<Rightarrow> uid \<Rightarrow> uid \<Rightarrow> fulfillment_db \<Rightarrow> fulfillment_db \<Rightarrow>
      (fulfillment_error + release_reply) \<times> fulfillment_db" where
  "execute_release now eid text reason request_id corr db_read db_tx =
     (case bindR (parse_order text) (\<lambda>ref. bindR (stock_ids_of_order ref db_read) (\<lambda>ids. Inr (ref, ids))) of
        Inl e \<Rightarrow> (Inl e, db_tx)
      | Inr (ref, ids) \<Rightarrow>
        if ids = [] then (Inr (Release_Already text), db_tx)
        else unit_of_work (release_in_transaction now eid text reason request_id corr ref ids) db_tx)"

section \<open>Replenishment\<close>

record stock_view =
  sv_company :: string
  sv_product :: string
  sv_units :: int
  sv_reserved :: int
  sv_available :: int
  sv_threshold :: int

definition to_stock_view :: "stock_item \<Rightarrow> stock_view" where
  "to_stock_view it = \<lparr> sv_company = si_company it, sv_product = si_product it, sv_units = si_units it,
     sv_reserved = si_reserved it, sv_available = available_units it, sv_threshold = si_threshold it \<rparr>"

definition replenish_in_transaction ::
    "instant \<Rightarrow> string \<Rightarrow> units_line list \<Rightarrow> fulfillment_db \<Rightarrow>
      fulfillment_error + stock_view list \<times> fulfillment_db" where
  "replenish_in_transaction now company ls db =
     bindR (lock_by_product_codes company (remdups (map ul_product ls)) db) (\<lambda>m.
     case find (\<lambda>l. map_of m (ul_product l) = None) ls of
       Some l \<Rightarrow> Inl (Unknown_Stock_Item company (ul_product l))
     | None \<Rightarrow>
       bindR (foldR (\<lambda>m l. bindR (mapErr Stock_Kernel_Error (quantity_of (Js_Int (ul_units l)))) (\<lambda>q.
         Inr (AList.update (ul_product l) (replenish_stock q (the (map_of m (ul_product l)))) m))) m ls) (\<lambda>m'.
       bindR (save_all now (map snd m') db) (\<lambda>db1.
       Inr (map (\<lambda>p. to_stock_view (the (map_of m' p))) (rev (remdups (rev (map ul_product ls)))), db1))))"

definition execute_replenish ::
    "instant \<Rightarrow> string \<Rightarrow> units_line list \<Rightarrow> fulfillment_db \<Rightarrow> (fulfillment_error + stock_view list) \<times> fulfillment_db" where
  "execute_replenish now company ls = unit_of_work (replenish_in_transaction now company ls)"

end
