(* ===== verification/Despatch.thy ===== *)
theory Despatch
  imports Stock_Handlers Place_Order
begin

text \<open>
  The despatch of an order (apps/fulfillment/src: domain/despatch-advice.ts, despatch-events.ts,
  order-despatch.ts, application/despatch-creation.handler.ts, the despatch repository and the
  allocator of despatch references).  The handler reads twice before its transaction; both reads
  are of the state given first.  The read it repeats under the locks goes through another
  connection and sees what was committed, which is the state the transaction started from.
\<close>

record despatch_line_entry =
  dl_product :: string
  dl_units :: quantity

record despatch_advice =
  da_id :: uid
  da_reference :: despatch_reference
  da_date :: instant
  da_order :: order_number
  da_company :: string
  da_retailer :: string
  da_lines :: "despatch_line_entry list"
  da_events :: "envelope list"

record despatch_snapshot =
  dn_id :: uid
  dn_reference :: string
  dn_date :: instant
  dn_order :: string
  dn_company :: string
  dn_retailer :: string
  dn_lines :: "units_line list"

record despatch_reply =
  dy_order :: string
  dy_reference :: string
  dy_date :: instant
  dy_created :: bool
  dy_lines :: "units_line list"

definition despatch_line_of :: "despatch_line_entry \<Rightarrow> units_line" where
  "despatch_line_of l = \<lparr> ul_product = dl_product l, ul_units = q_value (dl_units l) \<rparr>"

definition order_despatched_event :: "uid \<Rightarrow> despatch_advice \<Rightarrow> uid \<Rightarrow> stock_context \<Rightarrow> envelope" where
  "order_despatched_event eid d corr ctx = \<lparr> ev_id = eid, ev_type = Order_Despatched, ev_aggregate = da_id d,
     ev_correlation = corr, ev_causation = sx_causation ctx, ev_at = sx_at ctx,
     ev_payload = Despatched_P \<lparr> dp_reference = order_number_value (da_order d),
       dp_despatch_reference = despatch_reference_value (da_reference d), dp_date = da_date d,
       dp_company = da_company d, dp_retailer = da_retailer d, dp_lines = map despatch_line_of (da_lines d) \<rparr> \<rparr>"

definition create_despatch_advice ::
    "uid \<Rightarrow> uid \<Rightarrow> despatch_reference \<Rightarrow> instant \<Rightarrow> order_number \<Rightarrow> string \<Rightarrow> string \<Rightarrow> despatch_line_entry list \<Rightarrow>
      uid \<Rightarrow> stock_context \<Rightarrow> fulfillment_error + despatch_advice" where
  "create_despatch_advice i eid dref date ref company retailer ls corr ctx =
     (if ls = [] then Inl (Empty_Despatch_Lines (order_number_value ref))
      else let d = \<lparr> da_id = i, da_reference = dref, da_date = date, da_order = ref, da_company = company,
          da_retailer = retailer, da_lines = ls, da_events = [] \<rparr> in
        Inr (d \<lparr> da_events := da_events d @ [order_despatched_event eid d corr ctx] \<rparr>))"

definition consume_items ::
    "order_number \<Rightarrow> stock_item list \<Rightarrow> stock_error + (reservation list \<times> stock_item) list" where
  "consume_items ref items = mapR (consume_stock ref) items"

definition create_despatch_for_order ::
    "(nat \<Rightarrow> uid) \<Rightarrow> order_number \<Rightarrow> string \<Rightarrow> string \<Rightarrow> uid \<Rightarrow> despatch_reference \<Rightarrow> stock_context \<Rightarrow> stock_item list \<Rightarrow>
      fulfillment_error + despatch_advice option \<times> stock_item list" where
  "create_despatch_for_order fresh ref company retailer corr dref ctx items =
     bindR (mapErr Stock_Domain_Error (consume_items ref items)) (\<lambda>xs.
     let ls = concat (map (\<lambda>(rs, _). map (\<lambda>r. \<lparr> dl_product = rv_product r, dl_units = rv_units r \<rparr>) rs) xs) in
     if ls = [] then Inr (None, map snd xs)
     else bindR (create_despatch_advice (fresh 0) (fresh 1) dref (sx_at ctx) ref company retailer ls corr ctx) (\<lambda>d.
       Inr (Some d, map snd xs)))"

section \<open>The repository and the allocator\<close>

definition to_despatch_snapshot :: "despatch_row \<Rightarrow> despatch_item_row list \<Rightarrow> kernel_error + despatch_snapshot" where
  "to_despatch_snapshot row items = bindR (unique_id_from (dv_id row)) (\<lambda>i.
     Inr \<lparr> dn_id = i, dn_reference = dv_reference row, dn_date = dv_date row, dn_order = dv_order row,
       dn_company = dv_company row, dn_retailer = dv_retailer row,
       dn_lines = map (\<lambda>r. \<lparr> ul_product = di_product r, ul_units = di_units r \<rparr>) items \<rparr>)"

definition find_despatch :: "order_number \<Rightarrow> fulfillment_db \<Rightarrow> fulfillment_error + despatch_snapshot option" where
  "find_despatch ref db = (case find (\<lambda>r. dv_order r = order_number_value ref) (fd_despatches db) of
     None \<Rightarrow> Inr None
   | Some row \<Rightarrow> bindR (mapErr Stock_Kernel_Error (to_despatch_snapshot row
       (filter (\<lambda>r. di_despatch r = dv_id row) (fd_despatch_items db)))) (\<lambda>s. Inr (Some s)))"

definition to_despatch_table_row :: "despatch_advice \<Rightarrow> despatch_row" where
  "to_despatch_table_row d = \<lparr> dv_id = da_id d, dv_reference = despatch_reference_value (da_reference d),
     dv_date = stored_datetime (da_date d), dv_company = da_company d, dv_retailer = da_retailer d,
     dv_order = order_number_value (da_order d) \<rparr>"

text \<open>The row ids of the lines are drawn here, from the k-th identifier on.\<close>

definition to_despatch_item_rows :: "(nat \<Rightarrow> uid) \<Rightarrow> despatch_advice \<Rightarrow> despatch_item_row list" where
  "to_despatch_item_rows fresh d = map (\<lambda>(k, l). \<lparr> di_id = fresh k, di_despatch = da_id d,
     di_product = dl_product l, di_units = q_value (dl_units l) \<rparr>) (enumerate 2 (da_lines d))"

definition save_despatch ::
    "instant \<Rightarrow> (nat \<Rightarrow> uid) \<Rightarrow> despatch_advice \<Rightarrow> fulfillment_db \<Rightarrow> fulfillment_error + fulfillment_db" where
  "save_despatch now fresh d db =
     (let row = to_despatch_table_row d; items = to_despatch_item_rows fresh d in
      if list_ex (\<lambda>r. dv_id r = dv_id row) (fd_despatches db) then Inl (Duplicate_Despatch Key_Despatch_Id)
      else if list_ex (\<lambda>r. dv_reference r = dv_reference row) (fd_despatches db)
        then Inl (Duplicate_Despatch Key_Despatch_Reference)
      else if list_ex (\<lambda>r. dv_order r = dv_order row) (fd_despatches db)
        then Inl (Duplicate_Despatch Key_Despatch_Order)
      else if \<not> list_all (\<lambda>r. fits_int (di_units r)) items then Inl Stock_Out_Of_Range
      else record_stock_outbox now (da_events d)
        (db \<lparr> fd_despatches := fd_despatches db @ [row], fd_despatch_items := fd_despatch_items db @ items \<rparr>))"

definition max_despatch_sequence :: "fulfillment_db \<Rightarrow> nat" where
  "max_despatch_sequence db = fold max (map (\<lambda>r. sequence_of_reference (dv_reference r)) (fd_despatches db)) 0"

definition next_despatch_reference :: "fulfillment_db \<Rightarrow> fulfillment_error + despatch_reference \<times> fulfillment_db" where
  "next_despatch_reference db =
     (let start_at = max_despatch_sequence db + 1;
          cur = (case fd_sequence db of None \<Rightarrow> start_at | Some v \<Rightarrow> v) in
      if \<not> fits_int (int cur + 1) then Inl Stock_Out_Of_Range
      else bindR (mapErr Stock_Kernel_Error (despatch_reference_from_sequence (Js_Int (int cur)))) (\<lambda>ref.
        Inr (ref, db \<lparr> fd_sequence := Some (cur + 1) \<rparr>)))"

section \<open>The handler\<close>

definition reply_from_snapshot :: "despatch_snapshot \<Rightarrow> bool \<Rightarrow> despatch_reply" where
  "reply_from_snapshot s created = \<lparr> dy_order = dn_order s, dy_reference = dn_reference s,
     dy_date = dn_date s, dy_created = created, dy_lines = dn_lines s \<rparr>"

definition despatch_in_transaction ::
    "instant \<Rightarrow> (nat \<Rightarrow> uid) \<Rightarrow> string \<Rightarrow> uid \<Rightarrow> uid \<Rightarrow> order_number \<Rightarrow> uid list \<Rightarrow> fulfillment_db \<Rightarrow>
      fulfillment_error + despatch_reply \<times> fulfillment_db" where
  "despatch_in_transaction now fresh text request_id corr ref ids db =
     bindR (lock_by_ids_for_order ids ref db) (\<lambda>items.
     if length items \<noteq> length ids then Inl (Concurrent_Reservation_Change text)
     else let mine = reservations_for ref items in
       case find (\<lambda>r. rv_status r = Reserved) mine of
         None \<Rightarrow>
           if list_ex (\<lambda>r. rv_status r = Consumed) mine
           then bindR (find_despatch ref db) (\<lambda>found. case found of
               None \<Rightarrow> Inl (Despatch_Row_Missing text)
             | Some s \<Rightarrow> Inr (reply_from_snapshot s False, db))
           else Inl (No_Reserved_Stock_For_Despatch text)
       | Some first \<Rightarrow>
           bindR (next_despatch_reference db) (\<lambda>(dref, db1).
           bindR (create_despatch_for_order fresh ref (si_company (hd items)) (rv_retailer first) corr dref
             \<lparr> sx_at = now, sx_causation = request_id \<rparr> items) (\<lambda>(out, items').
           case out of
             None \<Rightarrow> Inl (No_Reserved_Stock_For_Despatch text)
           | Some d \<Rightarrow>
             bindR (save_all now items' db1) (\<lambda>db2.
             bindR (save_despatch now fresh d db2) (\<lambda>db3.
             Inr (\<lparr> dy_order = text, dy_reference = despatch_reference_value dref, dy_date = now,
               dy_created = True, dy_lines = map despatch_line_of (da_lines d) \<rparr>, db3))))))"

definition execute_despatch ::
    "instant \<Rightarrow> (nat \<Rightarrow> uid) \<Rightarrow> string \<Rightarrow> uid \<Rightarrow> uid \<Rightarrow> fulfillment_db \<Rightarrow> fulfillment_db \<Rightarrow>
      (fulfillment_error + despatch_reply) \<times> fulfillment_db" where
  "execute_despatch now fresh text request_id corr db_read db_tx = (case parse_order text of
     Inl e \<Rightarrow> (Inl e, db_tx)
   | Inr ref \<Rightarrow> (case find_despatch ref db_read of
       Inl e \<Rightarrow> (Inl e, db_tx)
     | Inr (Some s) \<Rightarrow> (Inr (reply_from_snapshot s False), db_tx)
     | Inr None \<Rightarrow> (case stock_ids_of_order ref db_read of
         Inl e \<Rightarrow> (Inl e, db_tx)
       | Inr [] \<Rightarrow> (Inl (No_Reserved_Stock_For_Despatch text), db_tx)
       | Inr ids \<Rightarrow> unit_of_work (despatch_in_transaction now fresh text request_id corr ref ids) db_tx)))"

end
