(* ===== verification/Stock_Safety.thy ===== *)
theory Stock_Safety
  imports Stock_Ledger Despatch
begin

text \<open>
  The stock tables under the commands of the Fulfillment service.  \<open>stock_db_ok\<close> is their
  invariant: keys are unique, a reservation belongs to a stock row, and the reserved counter of a
  stock row is exactly what its reserved reservations hold and at most its units.  The lemmas
  give the loading and the saving of the items of an order in closed form; the steps of the
  service are the relation \<open>fulfillment_step\<close>.
\<close>

named_theorems stock_tables "the fields of the fulfillment tables after a write"

definition held_rows :: "uid \<Rightarrow> reservation_row list \<Rightarrow> int" where
  "held_rows i rs = sum_list (map (\<lambda>r. if rw_stock r = i \<and> rw_status r = Reserved then rw_units r else 0) rs)"

definition stock_db_ok :: "fulfillment_db \<Rightarrow> bool" where
  "stock_db_ok db \<longleftrightarrow>
     distinct (map sk_id (fd_stock db)) \<and> distinct (map (\<lambda>s. (sk_company s, sk_product s)) (fd_stock db)) \<and>
     distinct (map rw_id (fd_reservations db)) \<and>
     list_all (\<lambda>s. unique_id_from (sk_id s) = Inr (sk_id s)) (fd_stock db) \<and>
     list_all (\<lambda>r. unique_id_from (rw_id r) = Inr (rw_id r) \<and> rw_stock r \<in> sk_id ` set (fd_stock db) \<and>
       order_number_of (rw_order r) = Inr (Order_Number (rw_order r)) \<and> 0 < rw_units r) (fd_reservations db) \<and>
     list_all (\<lambda>s. sk_reserved s = held_rows (sk_id s) (fd_reservations db) \<and>
       sk_reserved s \<le> sk_units s \<and> fits_int (sk_units s)) (fd_stock db)"

definition row_reservation :: "reservation_row \<Rightarrow> reservation" where
  "row_reservation r = \<lparr> rv_id = rw_id r, rv_order = Order_Number (rw_order r), rv_company = rw_company r,
     rv_retailer = rw_retailer r, rv_product = rw_product r, rv_units = Quantity (rw_units r), rv_status = rw_status r \<rparr>"

definition own_rows :: "order_number \<Rightarrow> uid \<Rightarrow> reservation_row list \<Rightarrow> reservation_row list" where
  "own_rows ref i T = filter (\<lambda>r. rw_stock r = i \<and> rw_order r = order_number_value ref) T"

definition loaded_item :: "order_number \<Rightarrow> fulfillment_db \<Rightarrow> stock_row \<Rightarrow> stock_item" where
  "loaded_item ref db s = \<lparr> si_id = sk_id s, si_company = sk_company s, si_product = sk_product s,
     si_units = sk_units s, si_reserved = sk_reserved s, si_threshold = sk_threshold s,
     si_reservations = map row_reservation (own_rows ref (sk_id s) (fd_reservations db)), si_events = [] \<rparr>"

lemma held_rows_simps [simp]:
  "held_rows i [] = 0"
  "held_rows i (r # rs) = (if rw_stock r = i \<and> rw_status r = Reserved then rw_units r else 0) + held_rows i rs"
  "held_rows i (rs @ rs') = held_rows i rs + held_rows i rs'"
  by (simp_all add: held_rows_def)

lemma held_rows_nonneg: "\<forall>r\<in>set T. 0 < rw_units r \<Longrightarrow> 0 \<le> held_rows i T"
  by (induction T) auto

lemma held_loaded:
  assumes "\<forall>r\<in>set T. 0 < rw_units r"
  shows "held_units (map row_reservation (own_rows ref i T)) \<le> held_rows i T"
  using assms by (induction T) (auto simp: own_rows_def row_reservation_def)

lemma loaded_item_ok:
  assumes "stock_db_ok db" "s \<in> set (fd_stock db)"
  shows "stock_item_ok (loaded_item ref db s)"
proof -
  have "\<forall>r\<in>set (fd_reservations db). 0 < rw_units r" using assms(1) by (auto simp: stock_db_ok_def list_all_iff)
  moreover have "sk_reserved s = held_rows (sk_id s) (fd_reservations db)" "sk_reserved s \<le> sk_units s" "fits_int (sk_units s)"
    using assms by (auto simp: stock_db_ok_def list_all_iff)
  moreover from calculation have "0 \<le> sk_units s"
    using held_rows_nonneg [of "fd_reservations db" "sk_id s"] by simp
  ultimately show ?thesis using held_loaded [of "fd_reservations db" ref "sk_id s"]
    by (auto simp: stock_item_ok_def loaded_item_def list_all_iff own_rows_def row_reservation_def quantity_ok_def
        fits_int_def is_safe_def max_safe_def)
qed

lemma to_reservation_eval:
  assumes "unique_id_from (rw_id r) = Inr (rw_id r)" "order_number_of (rw_order r) = Inr (Order_Number (rw_order r))" "0 < rw_units r"
  shows "to_reservation r = Inr (row_reservation r)"
  using assms by (simp add: to_reservation_def row_reservation_def quantity_of_def)

lemma reconstitute_loaded:
  assumes "stock_db_ok db" "s \<in> set (fd_stock db)" "filter (\<lambda>r. rw_stock r = sk_id s) rs = own_rows ref (sk_id s) (fd_reservations db)"
  shows "reconstitute_stock_item s (filter (\<lambda>r. rw_stock r = sk_id s) rs) = Inr (loaded_item ref db s)"
proof -
  have "mapR to_reservation (own_rows ref (sk_id s) (fd_reservations db)) =
      Inr (map row_reservation (own_rows ref (sk_id s) (fd_reservations db)))"
    using assms(1) by (intro mapR_pure to_reservation_eval) (auto simp: stock_db_ok_def own_rows_def list_all_iff)
  moreover have "unique_id_from (sk_id s) = Inr (sk_id s)"
    using assms(1,2) by (simp add: stock_db_ok_def list_all_iff)
  moreover have "0 \<le> sk_units s" "0 \<le> sk_reserved s" "sk_reserved s \<le> sk_units s"
    using stock_item_ok_bounds [OF loaded_item_ok [OF assms(1,2), of ref]] assms(1,2)
    by (auto simp: loaded_item_def stock_db_ok_def list_all_iff)
  ultimately show ?thesis unfolding assms(3)
    by (simp add: reconstitute_stock_item_def to_stock_snapshot_def reconstitute_stock_def loaded_item_def)
qed

lemma update_new_key: "k \<notin> fst ` set m \<Longrightarrow> AList.update k v m = m @ [(k, v)]"
  by (induction m) auto

lemma to_item_map_eval:
  assumes "\<And>s. s \<in> set rows \<Longrightarrow> reconstitute_stock_item s (filter (\<lambda>r. rw_stock r = sk_id s) rs) = Inr (g s)"
    and "distinct (map sk_product rows)"
  shows "to_item_map rows rs = Inr (map (\<lambda>s. (sk_product s, g s)) rows)"
proof -
  let ?f = "\<lambda>m row. bindR (reconstitute_stock_item row (filter (\<lambda>r. rw_stock r = sk_id row) rs))
    (\<lambda>it. Inr (AList.update (sk_product row) it m))"
  have "foldR ?f m rows = Inr (m @ map (\<lambda>s. (sk_product s, g s)) rows)"
    if "\<forall>s\<in>set rows. sk_product s \<notin> fst ` set m" for m
    using assms that
  proof (induction rows arbitrary: m)
    case (Cons s rows)
    then have step: "foldR ?f m (s # rows) = foldR ?f (m @ [(sk_product s, g s)]) rows"
      by (simp add: update_new_key)
    have "foldR ?f (m @ [(sk_product s, g s)]) rows = Inr ((m @ [(sk_product s, g s)]) @ map (\<lambda>s. (sk_product s, g s)) rows)"
    proof (rule Cons.IH)
      have "sk_product x \<noteq> sk_product s" if "x \<in> set rows" for x
        using Cons.prems(2) that by (metis distinct.simps(2) image_eqI list.simps(9) list.set_map)
      then show "\<forall>x\<in>set rows. sk_product x \<notin> fst ` set (m @ [(sk_product s, g s)])"
        using Cons.prems(3) by simp
    qed (use Cons.prems in simp_all)
    then show ?case unfolding step by simp
  qed simp
  from this [of "[]"] show ?thesis by (simp add: to_item_map_def)
qed

lemma to_item_map_length:
  assumes "to_item_map rows rs = Inr m" "length rows \<le> length m"
  shows "distinct (map sk_product rows)"
proof -
  let ?f = "\<lambda>m row. bindR (reconstitute_stock_item row (filter (\<lambda>r. rw_stock r = sk_id row) rs))
    (\<lambda>it. Inr (AList.update (sk_product row) it m))"
  have keys: "fst ` set (AList.update k v m) = insert k (fst ` set m)" for k :: string and v :: stock_item and m
    by (induction m) auto
  have "distinct (map fst m') \<and> fst ` set m' = fst ` set m \<union> sk_product ` set xs"
    if "foldR ?f m xs = Inr m'" "distinct (map fst m)" for m m' xs
    using that
  proof (induction xs arbitrary: m)
    case (Cons s xs)
    then obtain it where "foldR ?f (AList.update (sk_product s) it m) xs = Inr m'"
      by (auto simp: bindR_Inr)
    from Cons.IH [OF this distinct_update [OF Cons.prems(2)]] show ?case by (simp add: keys)
  qed simp
  from this [of "[]" rows m] assms(1) have "distinct (map fst m)" "fst ` set m = sk_product ` set rows"
    by (auto simp: to_item_map_def)
  then have "length rows \<le> card (set (map sk_product rows))"
    using assms(2) distinct_card [of "map fst m"] by simp
  then have "card (set (map sk_product rows)) = length (map sk_product rows)"
    using card_length [of "map sk_product rows"] by simp
  then show ?thesis by (rule card_distinct)
qed

section \<open>Loading and saving the items of an order\<close>

lemma by_code_simps [simp]:
  "set (by_code rows) = set rows"
  "distinct (map f (by_code rows)) \<longleftrightarrow> distinct (map f rows)"
  "length (by_code rows) = length rows"
proof -
  have m: "mset (by_code rows) = mset rows" by (simp add: by_code_def)
  then show "set (by_code rows) = set rows" "length (by_code rows) = length rows"
    by (auto dest: mset_eq_setD mset_eq_length)
  have "mset (map f (by_code rows)) = mset (map f rows)" using m by (simp add: mset_map)
  then show "distinct (map f (by_code rows)) \<longleftrightarrow> distinct (map f rows)" by (rule mset_eq_imp_distinct_iff)
qed

definition company_rows :: "string \<Rightarrow> string list \<Rightarrow> fulfillment_db \<Rightarrow> stock_row list" where
  "company_rows company products db =
     by_code (filter (\<lambda>r. sk_company r = company \<and> sk_product r \<in> set products) (fd_stock db))"

lemma distinct_map_filter2:
  assumes "distinct (map (\<lambda>s. (f s, g s)) xs)"
  shows "distinct (map g (filter (\<lambda>s. f s = c \<and> P s) xs))"
proof -
  have "inj_on (\<lambda>s. (f s, g s)) (set xs)" "distinct xs" using assms by (auto simp: distinct_map)
  then show ?thesis by (auto simp: distinct_map inj_on_def)
qed

lemma company_rows_facts:
  assumes "stock_db_ok db"
  shows "set (company_rows company products db) =
      {s \<in> set (fd_stock db). sk_company s = company \<and> sk_product s \<in> set products}"
    and "distinct (map sk_product (company_rows company products db))"
    and "distinct (map sk_id (company_rows company products db))"
  using assms
  by (auto simp: company_rows_def stock_db_ok_def intro: distinct_map_filter2 distinct_map_filter)

lemma own_rows_reservations:
  "i \<in> set ids \<Longrightarrow> filter (\<lambda>r. rw_stock r = i) (reservations_of ids ref db) = own_rows ref i (fd_reservations db)"
  by (auto simp: reservations_of_def own_rows_def intro: filter_cong)

lemma lock_for_order_eval:
  assumes "stock_db_ok db"
  shows "lock_for_order company products ref db =
    Inr (map (\<lambda>s. (sk_product s, loaded_item ref db s)) (company_rows company products db))"
  unfolding lock_for_order_def Let_def company_rows_def [symmetric]
proof (rule to_item_map_eval)
  show "distinct (map sk_product (company_rows company products db))"
    by (rule company_rows_facts(2) [OF assms])
  fix s assume s: "s \<in> set (company_rows company products db)"
  then have "sk_id s \<in> set (map sk_id (company_rows company products db))" by simp
  from own_rows_reservations [OF this] s
  show "reconstitute_stock_item s (filter (\<lambda>r. rw_stock r = sk_id s)
      (reservations_of (map sk_id (company_rows company products db)) ref db)) = Inr (loaded_item ref db s)"
    by (intro reconstitute_loaded [OF assms]) (auto simp: company_rows_facts(1) [OF assms])
qed

lemma lock_by_ids_eval:
  assumes "stock_db_ok db" "lock_by_ids_for_order ids ref db = Inr items" "length items = length ids"
    and "ids \<noteq> []"
  shows "\<exists>rows. items = map (loaded_item ref db) rows \<and> set rows = {s \<in> set (fd_stock db). sk_id s \<in> set ids} \<and>
    distinct (map sk_product rows) \<and> distinct (map sk_id rows) \<and> length rows = length ids"
proof -
  let ?rows = "by_code (filter (\<lambda>r. sk_id r \<in> set ids) (fd_stock db))"
  obtain m where m: "to_item_map ?rows (reservations_of ids ref db) = Inr m" and items: "items = map snd m"
    using assms(2,4) by (auto simp: lock_by_ids_for_order_def bindR_Inr)
  have di: "distinct (map sk_id ?rows)"
    using assms(1) by (simp add: stock_db_ok_def distinct_map_filter)
  have "length ?rows = card (set (map sk_id ?rows))" using distinct_card [OF di] by simp
  also have "\<dots> \<le> card (set ids)" by (intro card_mono) auto
  also have "\<dots> \<le> length m" using assms(3) items card_length [of ids] by simp
  finally have len: "length ?rows \<le> length m" .
  have dp: "distinct (map sk_product ?rows)" by (rule to_item_map_length [OF m len])
  have "to_item_map ?rows (reservations_of ids ref db) =
      Inr (map (\<lambda>s. (sk_product s, loaded_item ref db s)) ?rows)"
    using dp by (intro to_item_map_eval reconstitute_loaded [OF assms(1)]) (auto simp: own_rows_reservations)
  then have "items = map (loaded_item ref db) ?rows" using m items by (auto simp: comp_def)
  moreover have "length ?rows = length ids" using calculation assms(3) by (metis length_map)
  ultimately show ?thesis using di dp by (intro exI [of _ ?rows]) auto
qed

lemma record_stock_outbox_Inr:
  "record_stock_outbox now evs db = Inr db' \<Longrightarrow> \<not> event_id_taken evs (fd_outbox db) \<and>
    db' = db \<lparr> fd_outbox := fd_outbox db @ outbox_rows now (fd_next_seq db) evs, fd_next_seq := fd_next_seq db + length evs \<rparr>"
  by (auto simp: record_stock_outbox_def event_id_taken_def split: if_splits)

lemma save_items_fold:
  assumes "foldR (\<lambda>d it. save_item it d) db items = Inr db'"
  shows "db' = db \<lparr> fd_stock := fold upsert_stock (map to_stock_table_row items) (fd_stock db),
      fd_reservations := fold upsert_reservation (concat (map to_reservation_table_rows items)) (fd_reservations db) \<rparr> \<and>
    (\<forall>it\<in>set items. fits_int (si_units it))"
  using assms
proof (induction items arbitrary: db)
  case (Cons it items)
  obtain db1 where 1: "save_item it db = Inr db1" and 2: "foldR (\<lambda>d it. save_item it d) db1 items = Inr db'"
    using Cons.prems by (auto simp: bindR_Inr)
  have "db1 = db \<lparr> fd_stock := upsert_stock (to_stock_table_row it) (fd_stock db),
      fd_reservations := fold upsert_reservation (to_reservation_table_rows it) (fd_reservations db) \<rparr>"
    "fits_int (si_units it)"
    using 1 by (auto simp: save_item_def Let_def to_stock_table_row_def split: if_splits)
  then show ?case using Cons.IH [OF 2] by simp
qed simp

lemma save_all_Inr:
  assumes "save_all now items db = Inr db'"
  shows "db' = db \<lparr> fd_stock := fold upsert_stock (map to_stock_table_row items) (fd_stock db),
      fd_reservations := fold upsert_reservation (concat (map to_reservation_table_rows items)) (fd_reservations db),
      fd_outbox := fd_outbox db @ outbox_rows now (fd_next_seq db) (concat (map si_events items)),
      fd_next_seq := fd_next_seq db + length (concat (map si_events items)) \<rparr>"
    and "\<forall>it\<in>set items. fits_int (si_units it)"
    and "\<not> event_id_taken (concat (map si_events items)) (fd_outbox db)"
proof -
  obtain db1 where 1: "foldR (\<lambda>d it. save_item it d) db items = Inr db1"
    and 2: "record_stock_outbox now (concat (map si_events items)) db1 = Inr db'"
    using assms by (auto simp: save_all_def bindR_Inr)
  note a = save_items_fold [OF 1] and b = record_stock_outbox_Inr [OF 2]
  show "\<forall>it\<in>set items. fits_int (si_units it)" using a by (rule conjunct2)
  have "db' = db1 \<lparr> fd_outbox := fd_outbox db1 @ outbox_rows now (fd_next_seq db1) (concat (map si_events items)),
      fd_next_seq := fd_next_seq db1 + length (concat (map si_events items)) \<rparr>" using b by (rule conjunct2)
  moreover have db1: "db1 = db \<lparr> fd_stock := fold upsert_stock (map to_stock_table_row items) (fd_stock db),
      fd_reservations := fold upsert_reservation (concat (map to_reservation_table_rows items)) (fd_reservations db) \<rparr>"
    using a by (rule conjunct1)
  ultimately show "db' = db \<lparr> fd_stock := fold upsert_stock (map to_stock_table_row items) (fd_stock db),
      fd_reservations := fold upsert_reservation (concat (map to_reservation_table_rows items)) (fd_reservations db),
      fd_outbox := fd_outbox db @ outbox_rows now (fd_next_seq db) (concat (map si_events items)),
      fd_next_seq := fd_next_seq db + length (concat (map si_events items)) \<rparr>" by simp
  show "\<not> event_id_taken (concat (map si_events items)) (fd_outbox db)" using b db1 by simp
qed

lemma upsert_stock_rows:
  assumes "stock_db_ok db" "set rows \<subseteq> set (fd_stock db)"
    and h: "\<And>s. si_id (h s) = sk_id s \<and> si_company (h s) = sk_company s \<and> si_product (h s) = sk_product s \<and>
      si_threshold (h s) = sk_threshold s"
  shows "fold upsert_stock (map to_stock_table_row (map h rows)) (fd_stock db) =
    map (\<lambda>s. if s \<in> set rows then s \<lparr> sk_units := si_units (h s), sk_reserved := si_reserved (h s) \<rparr> else s) (fd_stock db)"
proof -
  have inj: "s = t" if "s \<in> set (fd_stock db)" "t \<in> set (fd_stock db)"
    "sk_id s = sk_id t \<or> (sk_company s = sk_company t \<and> sk_product s = sk_product t)" for s t
    using that assms(1) unfolding stock_db_ok_def distinct_map by (auto dest: inj_onD)
  have f: "to_stock_table_row (h s) = s \<lparr> sk_units := si_units (h s), sk_reserved := si_reserved (h s) \<rparr>" for s
    by (simp add: to_stock_table_row_def h)
  show ?thesis unfolding upsert_stock_def
  proof (subst fold_upsert_changed [where P = "\<lambda>s. s \<in> set rows" and f = "\<lambda>s. to_stock_table_row (h s)"])
    show "set (map to_stock_table_row (map h rows)) =
        (\<lambda>s. to_stock_table_row (h s)) ` {r \<in> set (fd_stock db). r \<in> set rows}"
      using assms(2) by auto
  qed (use inj in \<open>auto simp: f\<close>)
qed

lemma row_of_reservation:
  "\<lparr> rw_id = rv_id (row_reservation r), rw_stock = rw_stock r, rw_company = rv_company (row_reservation r),
    rw_retailer = rv_retailer (row_reservation r), rw_product = rv_product (row_reservation r),
    rw_order = order_number_value (rv_order (row_reservation r)),
    rw_units = q_value (rv_units (row_reservation r)), rw_status = rv_status (row_reservation r) \<rparr> = r"
  by (simp add: row_reservation_def)

definition settle_row :: "reservation_status \<Rightarrow> reservation_row \<Rightarrow> reservation_row" where
  "settle_row s r = (if rw_status r = Reserved then r \<lparr> rw_status := s \<rparr> else r)"

definition settled_item :: "reservation_status \<Rightarrow> order_number \<Rightarrow> int \<Rightarrow> stock_item \<Rightarrow> stock_item" where
  "settled_item s ref u it = it \<lparr> si_units := si_units it - u,
     si_reserved := si_reserved it - held_units (filter (mine ref) (si_reservations it)),
     si_reservations := settle s ref (si_reservations it) \<rparr>"

lemma settled_rows:
  "to_reservation_table_rows (with_event e c (settled_item s ref u (loaded_item ref db row))) =
    map (settle_row s) (own_rows ref (sk_id row) (fd_reservations db))"
  "to_reservation_table_rows (settled_item s ref u (loaded_item ref db row)) =
    map (settle_row s) (own_rows ref (sk_id row) (fd_reservations db))"
  by (auto simp: to_reservation_table_rows_def with_event_def settled_item_def loaded_item_def settle_def
      own_rows_def row_reservation_def mine_def settle_row_def) (cases ref; simp)+

lemma upsert_settled_rows:
  assumes "stock_db_ok db" and "\<And>row. row \<in> set rows \<Longrightarrow>
      to_reservation_table_rows (h row) = map (settle_row s) (own_rows ref (sk_id row) (fd_reservations db))"
  shows "fold upsert_reservation (concat (map to_reservation_table_rows (map h rows))) (fd_reservations db) =
    map (\<lambda>r. if rw_stock r \<in> sk_id ` set rows \<and> rw_order r = order_number_value ref then settle_row s r else r)
      (fd_reservations db)"
proof -
  have inj: "r = t" if "r \<in> set (fd_reservations db)" "t \<in> set (fd_reservations db)" "rw_id r = rw_id t" for r t
    using that assms(1) unfolding stock_db_ok_def distinct_map by (auto dest: inj_onD)
  let ?P = "\<lambda>r. rw_stock r \<in> sk_id ` set rows \<and> rw_order r = order_number_value ref"
  have ids: "rw_id (settle_row s r) = rw_id r" for r by (simp add: settle_row_def)
  have upd: "r \<lparr> rw_status := rw_status (settle_row s r), rw_units := rw_units (settle_row s r) \<rparr> = settle_row s r" for r
    by (simp add: settle_row_def)
  have set: "set (concat (map to_reservation_table_rows (map h rows))) =
      settle_row s ` {r \<in> set (fd_reservations db). ?P r}"
    using assms(2) by (auto simp: own_rows_def)
  show ?thesis unfolding upsert_reservation_def
    by (rule fold_upsert_changed [where P = ?P and f = "settle_row s", OF _ _ _ set])
      (auto simp: ids upd intro: inj)
qed

lemma held_settled:
  assumes "s \<noteq> Reserved"
  shows "held_rows i (map (\<lambda>r. if rw_stock r \<in> I \<and> rw_order r = order_number_value ref then settle_row s r else r) T) =
    held_rows i T - (if i \<in> I then held_units (filter (mine ref) (map row_reservation (own_rows ref i T))) else 0)"
  using assms by (cases ref, induction T) (auto simp: settle_row_def own_rows_def row_reservation_def mine_def)

lemma order_number_eta: "order_number_value ref = t \<longleftrightarrow> ref = Order_Number t"
  by (cases ref) auto

section \<open>Settling the reservations of an order\<close>

text \<open>
  What a release or a despatch does to the tables, stated on the rows: on the stock rows \<open>I\<close> the
  order's reserved reservations take the status \<open>s\<close> and their units leave the reserved counter,
  and the stock as well when they are shipped.
\<close>

definition order_held :: "order_number \<Rightarrow> uid \<Rightarrow> fulfillment_db \<Rightarrow> int" where
  "order_held ref i db = held_rows i (own_rows ref i (fd_reservations db))"

definition settle_db :: "reservation_status \<Rightarrow> bool \<Rightarrow> order_number \<Rightarrow> uid set \<Rightarrow> fulfillment_db \<Rightarrow> fulfillment_db" where
  "settle_db s ship ref I db = db
     \<lparr> fd_stock := map (\<lambda>row. if sk_id row \<in> I
         then row \<lparr> sk_units := sk_units row - (if ship then order_held ref (sk_id row) db else 0),
           sk_reserved := sk_reserved row - order_held ref (sk_id row) db \<rparr> else row) (fd_stock db),
       fd_reservations := map (\<lambda>r. if rw_stock r \<in> I \<and> rw_order r = order_number_value ref
         then settle_row s r else r) (fd_reservations db) \<rparr>"

lemma order_held_loaded:
  "held_units (filter (mine ref) (si_reservations (loaded_item ref db row))) = order_held ref (sk_id row) db"
proof -
  have "held_units (filter (mine ref) (map row_reservation (own_rows ref i T))) = held_rows i (own_rows ref i T)" for i T
    by (cases ref, induction T) (auto simp: own_rows_def row_reservation_def mine_def)
  then show ?thesis by (simp add: loaded_item_def order_held_def)
qed

lemma order_held_bounds:
  assumes "stock_db_ok db" "row \<in> set (fd_stock db)"
  shows "0 \<le> order_held ref (sk_id row) db" "order_held ref (sk_id row) db \<le> sk_reserved row"
  using mine_sums(2,3) [OF loaded_item_ok [OF assms, of ref], of ref]
  by (simp_all add: order_held_loaded) (simp add: loaded_item_def)

lemma settle_db_ok:
  assumes "stock_db_ok db" "s \<noteq> Reserved"
  shows "stock_db_ok (settle_db s ship ref I db)"
proof -
  let ?f = "\<lambda>row. if sk_id row \<in> I
         then row \<lparr> sk_units := sk_units row - (if ship then order_held ref (sk_id row) db else 0),
           sk_reserved := sk_reserved row - order_held ref (sk_id row) db \<rparr> else row"
  let ?g = "\<lambda>r. if rw_stock r \<in> I \<and> rw_order r = order_number_value ref then settle_row s r else r"
  have f: "sk_id (?f r) = sk_id r" "sk_company (?f r) = sk_company r" "sk_product (?f r) = sk_product r" for r
    by simp_all
  have g: "rw_id (?g r) = rw_id r" "rw_stock (?g r) = rw_stock r" "rw_order (?g r) = rw_order r" "rw_units (?g r) = rw_units r" for r
    by (simp_all add: settle_row_def)
  have held: "held_rows i (map ?g (fd_reservations db)) = held_rows i (fd_reservations db) - (if i \<in> I then order_held ref i db else 0)" for i
    using held_settled [OF assms(2), of i I ref "fd_reservations db"] order_held_loaded [of ref db]
    by (simp add: loaded_item_def) (metis stock_row.select_convs(1))
  have counters: "sk_reserved (?f row) = held_rows (sk_id row) (map ?g (fd_reservations db)) \<and>
      sk_reserved (?f row) \<le> sk_units (?f row) \<and> fits_int (sk_units (?f row))" if "row \<in> set (fd_stock db)" for row
  proof -
    have "sk_reserved row = held_rows (sk_id row) (fd_reservations db)" "sk_reserved row \<le> sk_units row" "fits_int (sk_units row)"
      using assms(1) that by (auto simp: stock_db_ok_def list_all_iff)
    then show ?thesis using order_held_bounds [OF assms(1) that, of ref] unfolding held
      by (auto simp: fits_int_def)
  qed
  have ids: "map sk_id (map ?f S) = map sk_id S" "map (\<lambda>s. (sk_company s, sk_product s)) (map ?f S) = map (\<lambda>s. (sk_company s, sk_product s)) S"
    "map rw_id (map ?g T) = map rw_id T" "sk_id ` ?f ` A = sk_id ` A" for S T A
    by (simp_all only: map_map comp_def f g image_image)
  have tables: "fd_stock (settle_db s ship ref I db) = map ?f (fd_stock db)"
    "fd_reservations (settle_db s ship ref I db) = map ?g (fd_reservations db)"
    by (simp_all add: settle_db_def)
  show ?thesis
    using assms(1) counters
    unfolding stock_db_ok_def tables ids list_all_iff set_map ball_simps(9) f g by blast
qed

lemma save_settled:
  assumes "stock_db_ok db" "set rows = {r \<in> set (fd_stock db). sk_id r \<in> I}"
    and h: "\<And>row. h row = settled_item s ref (if ship then order_held ref (sk_id row) db else 0) (loaded_item ref db row) \<or>
      (\<exists>e c. h row = with_event e c (settled_item s ref (if ship then order_held ref (sk_id row) db else 0) (loaded_item ref db row)))"
    and save: "save_all now (map h rows) db = Inr db'"
  shows "db' = (settle_db s ship ref I db)
    \<lparr> fd_outbox := fd_outbox db @ outbox_rows now (fd_next_seq db) (concat (map (si_events \<circ> h) rows)),
      fd_next_seq := fd_next_seq db + length (concat (map (si_events \<circ> h) rows)) \<rparr>"
proof -
  have fields: "si_id (h s) = sk_id s \<and> si_company (h s) = sk_company s \<and> si_product (h s) = sk_product s \<and>
      si_threshold (h s) = sk_threshold s" for s
    using h [of s] by (auto simp: settled_item_def loaded_item_def with_event_def)
  have counters: "si_units (h row) = sk_units row - (if ship then order_held ref (sk_id row) db else 0) \<and>
      si_reserved (h row) = sk_reserved row - order_held ref (sk_id row) db" for row
    using h [of row] order_held_loaded [of ref db row]
    by (elim disjE exE) (simp_all add: settled_item_def with_event_def, simp_all add: loaded_item_def)
  have rows: "to_reservation_table_rows (h row) = map (settle_row s) (own_rows ref (sk_id row) (fd_reservations db))" for row
    using h [of row] by (auto simp: settled_rows)
  have mem: "row \<in> set rows \<longleftrightarrow> sk_id row \<in> I" if "row \<in> set (fd_stock db)" for row
    using assms(2) that by auto
  have ids: "rw_stock r \<in> sk_id ` set rows \<longleftrightarrow> rw_stock r \<in> I" if "r \<in> set (fd_reservations db)" for r
    using assms(1,2) that by (auto simp: stock_db_ok_def list_all_iff)
  have "fold upsert_stock (map to_stock_table_row (map h rows)) (fd_stock db) = fd_stock (settle_db s ship ref I db)"
    using upsert_stock_rows [OF assms(1) _ fields, of rows] assms(2) mem
    by (auto simp: settle_db_def counters)
  moreover have "fold upsert_reservation (concat (map to_reservation_table_rows (map h rows))) (fd_reservations db) =
      fd_reservations (settle_db s ship ref I db)"
    using upsert_settled_rows [OF assms(1), of rows h s ref] rows ids by (auto simp: settle_db_def)
  ultimately show ?thesis using save_all_Inr(1) [OF save] by (simp add: settle_db_def comp_def)
qed

section \<open>Booking the lines of an order\<close>

definition stock_fresh :: "(nat \<Rightarrow> uid) \<Rightarrow> nat \<Rightarrow> fulfillment_db \<Rightarrow> bool" where
  "stock_fresh fresh n db \<longleftrightarrow> (\<forall>k<n. unique_id_from (fresh k) = Inr (fresh k) \<and>
     fresh k \<notin> rw_id ` set (fd_reservations db)) \<and> distinct (map fresh [0..<n])"

definition line_row :: "(nat \<Rightarrow> uid) \<Rightarrow> order_number \<Rightarrow> string \<Rightarrow> stock_row \<Rightarrow> nat \<times> reserve_line \<Rightarrow> reservation_row" where
  "line_row fresh ref retailer s x = \<lparr> rw_id = fresh (fst x), rw_stock = sk_id s, rw_company = sk_company s,
     rw_retailer = retailer, rw_product = rl_product (snd x), rw_order = order_number_value ref,
     rw_units = q_value (rl_units (snd x)), rw_status = Reserved \<rparr>"

definition lines_on :: "reserve_line list \<Rightarrow> stock_row \<Rightarrow> (nat \<times> reserve_line) list" where
  "lines_on ls s = filter (\<lambda>x. rl_product (snd x) = sk_product s) (enumerate 0 ls)"

definition book_db ::
    "(nat \<Rightarrow> uid) \<Rightarrow> order_number \<Rightarrow> string \<Rightarrow> reserve_line list \<Rightarrow> stock_row list \<Rightarrow> fulfillment_db \<Rightarrow> fulfillment_db" where
  "book_db fresh ref retailer ls rows db = db
     \<lparr> fd_stock := map (\<lambda>s. if s \<in> set rows
         then s \<lparr> sk_reserved := sk_reserved s + line_total (sk_product s) ls \<rparr> else s) (fd_stock db),
       fd_reservations := fd_reservations db @
         concat (map (\<lambda>s. map (line_row fresh ref retailer s) (lines_on ls s)) rows) \<rparr>"

lemma booked_rows:
  assumes "own_rows ref (sk_id s) (fd_reservations db) = []"
  shows "to_reservation_table_rows (with_event e c (book fresh ref retailer 0 ls (loaded_item ref db s))) =
    map (line_row fresh ref retailer s) (lines_on ls s)"
  using assms by (auto simp: to_reservation_table_rows_def with_event_def book_def loaded_item_def lines_on_def
      line_reservation_def create_reservation_def line_row_def)

lemma held_new:
  assumes "distinct (map sk_id rows)"
  shows "held_rows i (concat (map (\<lambda>s. map (line_row fresh ref retailer s) (lines_on ls s)) rows)) =
    (case find (\<lambda>s. sk_id s = i) rows of None \<Rightarrow> 0 | Some s \<Rightarrow> line_total (sk_product s) ls)"
proof -
  have one: "held_rows j (map (line_row fresh ref retailer s) (filter (\<lambda>x. rl_product (snd x) = sk_product s) (enumerate k ls))) =
      (if sk_id s = j then line_total (sk_product s) ls else 0)" for s j k
    by (induction ls arbitrary: k) (auto simp: line_row_def)
  have none: "find (\<lambda>s. sk_id s = i) rows = None" if "i \<notin> sk_id ` set rows" for rows
    using that by (auto simp: find_None_iff)
  show ?thesis using assms
  proof (induction rows)
    case (Cons s rows)
    then show ?case by (cases "sk_id s = i") (simp_all add: one lines_on_def none)
  qed simp
qed

lemma distinct_indices:
  assumes "distinct (map h rows)" "distinct (map fst xs)"
  shows "distinct (concat (map (\<lambda>s. map fst (filter (\<lambda>x. p (snd x) = h s) xs)) rows))"
  using assms(1)
proof (induction rows)
  case (Cons s rows)
  have "x = y" if "x \<in> set xs" "y \<in> set xs" "fst x = fst y" for x y
    using assms(2) that unfolding distinct_map by (auto dest: inj_onD)
  then have "set (map fst (filter (\<lambda>x. p (snd x) = h s) xs)) \<inter>
      set (concat (map (\<lambda>s. map fst (filter (\<lambda>x. p (snd x) = h s) xs)) rows)) = {}"
    using Cons.prems by fastforce
  then show ?case using Cons assms(2) by (auto intro: distinct_map_filter)
qed simp

lemma fst_enumerate [simp]: "map fst (enumerate k xs) = [k..<k + length xs]"
  by (induction xs arbitrary: k) (simp_all add: upt_rec)

lemma disjoint_image: "\<forall>x\<in>A. P x \<and> f x \<notin> B \<Longrightarrow> B \<inter> f ` A = {}"
  by auto

lemma new_row_ids:
  assumes "distinct (map sk_product rows)" "stock_fresh fresh (length ls) db"
  shows "distinct (map rw_id (concat (map (\<lambda>s. map (line_row fresh ref retailer s) (lines_on ls s)) rows)))"
    and "\<forall>r\<in>set (concat (map (\<lambda>s. map (line_row fresh ref retailer s) (lines_on ls s)) rows)). unique_id_from (rw_id r) = Inr (rw_id r) \<and>
    rw_id r \<notin> rw_id ` set (fd_reservations db)"
proof -
  let ?idx = "concat (map (\<lambda>s. map fst (lines_on ls s)) rows)"
  let ?new = "concat (map (\<lambda>s. map (line_row fresh ref retailer s) (lines_on ls s)) rows)"
  have ids: "map rw_id ?new = map fresh ?idx"
    by (induction rows) (auto simp: line_row_def comp_def)
  have lt: "k < length ls" if "k \<in> set ?idx" for k
    using that by (auto simp: lines_on_def in_set_enumerate_eq)
  have "distinct ?idx"
    unfolding lines_on_def using assms(1) by (intro distinct_indices) simp_all
  moreover have "inj_on fresh {0..<length ls}"
    using assms(2) by (simp add: stock_fresh_def distinct_map)
  moreover have "set ?idx \<subseteq> {0..<length ls}"
  proof
    fix k assume "k \<in> set ?idx"
    then show "k \<in> {0..<length ls}" using lt by simp
  qed
  ultimately show "distinct (map rw_id ?new)" unfolding ids
    by (simp add: distinct_map inj_on_subset del: set_concat)
  show "\<forall>r\<in>set ?new. unique_id_from (rw_id r) = Inr (rw_id r) \<and> rw_id r \<notin> rw_id ` set (fd_reservations db)"
  proof
    fix r assume "r \<in> set ?new"
    then have "rw_id r \<in> set (map rw_id ?new)" unfolding set_map by (rule imageI)
    then have "rw_id r \<in> fresh ` set ?idx" unfolding ids set_map .
    then obtain k where "k \<in> set ?idx" "rw_id r = fresh k" by (rule imageE)
    then have "k < length ls" "rw_id r = fresh k" using lt by blast+
    then show "unique_id_from (rw_id r) = Inr (rw_id r) \<and> rw_id r \<notin> rw_id ` set (fd_reservations db)"
      using assms(2) by (simp add: stock_fresh_def)
  qed
qed

lemma book_db_ok:
  assumes "stock_db_ok db" "stock_fresh fresh (length ls) db" "lines_ok ls" "order_number_of (order_number_value ref) = Inr ref"
    and rows: "set rows \<subseteq> set (fd_stock db)" "distinct (map sk_product rows)" "distinct (map sk_id rows)"
    and fits: "\<And>s. s \<in> set rows \<Longrightarrow> sk_reserved s + line_total (sk_product s) ls \<le> sk_units s"
  shows "stock_db_ok (book_db fresh ref retailer ls rows db)"
proof -
  let ?f = "\<lambda>s. if s \<in> set rows then s \<lparr> sk_reserved := sk_reserved s + line_total (sk_product s) ls \<rparr> else s"
  let ?new = "concat (map (\<lambda>s. map (line_row fresh ref retailer s) (lines_on ls s)) rows)"
  have f: "sk_id (?f s) = sk_id s" "sk_company (?f s) = sk_company s" "sk_product (?f s) = sk_product s" "sk_units (?f s) = sk_units s" for s
    by simp_all
  have ids: "map sk_id (map ?f S) = map sk_id S" "map (\<lambda>s. (sk_company s, sk_product s)) (map ?f S) = map (\<lambda>s. (sk_company s, sk_product s)) S"
    "sk_id ` ?f ` A = sk_id ` A" for S A
    by (simp_all only: map_map comp_def f image_image)
  have tables: "fd_stock (book_db fresh ref retailer ls rows db) = map ?f (fd_stock db)"
    "fd_reservations (book_db fresh ref retailer ls rows db) = fd_reservations db @ ?new"
    by (simp_all add: book_db_def)
  note new = new_row_ids [OF rows(2) assms(2), of ref retailer]
  have new_ok: "unique_id_from (rw_id r) = Inr (rw_id r) \<and> rw_stock r \<in> sk_id ` set (fd_stock db) \<and>
      order_number_of (rw_order r) = Inr (Order_Number (rw_order r)) \<and> 0 < rw_units r" if "r \<in> set ?new" for r
  proof -
    obtain s x where "s \<in> set rows" "x \<in> set (enumerate 0 ls)" "r = line_row fresh ref retailer s x"
      using \<open>r \<in> set ?new\<close> by (auto simp: lines_on_def)
    moreover from this have "snd x \<in> set ls" by (metis (no_types, lifting) in_set_enumerate_eq add.commute add_0 diff_zero nth_mem)
    ultimately have "rw_stock r \<in> sk_id ` set (fd_stock db)" "0 < rw_units r" "rw_order r = order_number_value ref"
      using rows(1) assms(3) by (auto simp: line_row_def lines_ok_def list_all_iff quantity_ok_def)
    then show ?thesis using new(2) that assms(4) by (metis order_number_eta)
  qed
  have counters: "sk_reserved (?f s) = held_rows (sk_id s) (fd_reservations db @ ?new) \<and>
      sk_reserved (?f s) \<le> sk_units s \<and> fits_int (sk_units s)" if s: "s \<in> set (fd_stock db)" for s
  proof -
    have k: "sk_reserved s = held_rows (sk_id s) (fd_reservations db)" "sk_reserved s \<le> sk_units s" "fits_int (sk_units s)"
      using assms(1) s by (auto simp: stock_db_ok_def list_all_iff)
    have inj: "t = s" if "t \<in> set rows" "sk_id t = sk_id s" for t
      using assms(1) s that rows(1) unfolding stock_db_ok_def distinct_map by (auto dest: inj_onD)
    have "held_rows (sk_id s) ?new = (if s \<in> set rows then line_total (sk_product s) ls else 0)"
    proof (cases "find (\<lambda>t. sk_id t = sk_id s) rows")
      case None
      then have "s \<notin> set rows" by (auto simp: find_None_iff)
      then show ?thesis using None unfolding held_new [OF rows(3)] by simp
    next
      case (Some t)
      then have "t \<in> set rows" "sk_id t = sk_id s" by (auto simp: find_Some_iff)
      then show ?thesis using Some inj unfolding held_new [OF rows(3)] by auto
    qed
    then show ?thesis using k fits [of s] by (simp add: k(1) [symmetric] del: set_concat)
  qed
  have dist: "distinct (map rw_id (fd_reservations db @ ?new))"
  proof -
    have "rw_id ` set (fd_reservations db) \<inter> rw_id ` set ?new = {}" using new(2) by (rule disjoint_image)
    moreover have "distinct (map rw_id (fd_reservations db))" using assms(1) by (simp only: stock_db_ok_def)
    ultimately show ?thesis using new(1) unfolding map_append distinct_append set_map by (intro conjI)
  qed
  show ?thesis
    using assms(1) counters dist new_ok
    unfolding stock_db_ok_def tables ids list_all_iff set_map set_append ball_simps(9) ball_Un f by blast
qed

end
