(* ===== verification/Stock_Properties.thy ===== *)
theory Stock_Properties
  imports Stock_Safety
begin

text \<open>
  What the commands of the Fulfillment service guarantee: reserving an order is all or nothing,
  a release or a despatch moves exactly what the order still holds, repeats change nothing, and
  no sequence of commands oversells a product or loses track of a reservation.
\<close>

lemma mapR_determined:
  "\<lbrakk> mapR f xs = Inr ys; \<And>x y. \<lbrakk> f x = Inr y; x \<in> set xs \<rbrakk> \<Longrightarrow> y = g x \<rbrakk> \<Longrightarrow> ys = map g xs"
  by (induction xs arbitrary: ys) (auto simp: bindR_Inr)

lemma mapR_defined: "\<lbrakk> mapR f xs = Inr ys; x \<in> set xs \<rbrakk> \<Longrightarrow> \<exists>y. f x = Inr y"
  by (induction xs arbitrary: ys) (auto simp: bindR_Inr)

lemma parse_order_Inr: "parse_order t = Inr ref \<longleftrightarrow> ref = Order_Number t \<and> reference_shape ''ORD'' t"
  by (auto simp: parse_order_def order_number_of_def parse_reference_def)

lemma parse_order_value: "parse_order t = Inr ref \<Longrightarrow> order_number_of (order_number_value ref) = Inr ref \<and> order_number_value ref = t"
  by (auto simp: parse_order_Inr order_number_of_def parse_reference_def)

lemma reserve_lines_of_Inr:
  assumes "reserve_lines_of rls = Inr ls"
  shows "lines_ok ls \<and> map (\<lambda>l. \<lparr> ul_product = rl_product l, ul_units = q_value (rl_units l) \<rparr>) ls = rls"
proof -
  have "mapR (\<lambda>l. bindR (quantity_of (Js_Int (ul_units l))) (\<lambda>q. Inr \<lparr> rl_product = ul_product l, rl_units = q \<rparr>)) rls = Inr ls"
    using assms by (simp add: reserve_lines_of_def)
  then have "list_all2 (\<lambda>x y. bindR (quantity_of (Js_Int (ul_units x))) (\<lambda>q. Inr \<lparr> rl_product = ul_product x, rl_units = q \<rparr>) = Inr y) rls ls"
    by (simp add: mapR_list_all2)
  then show ?thesis
    by induction (auto simp: lines_ok_def bindR_Inr quantity_of_Inr quantity_ok_def)
qed

definition request_rows :: "reserve_request \<Rightarrow> fulfillment_db \<Rightarrow> stock_row list" where
  "request_rows req db = company_rows (rq_company req) (remdups (map ul_product (rq_lines req))) db"

definition asked_units :: "string \<Rightarrow> reserve_request \<Rightarrow> int" where
  "asked_units p req = sum_list (map (\<lambda>l. if ul_product l = p then ul_units l else 0) (rq_lines req))"

text \<open>Every line names a product of the company with enough free units for all its lines together.\<close>

definition can_supply :: "reserve_request \<Rightarrow> fulfillment_db \<Rightarrow> bool" where
  "can_supply req db \<longleftrightarrow> list_all (\<lambda>l. list_ex (\<lambda>s. sk_company s = rq_company req \<and> sk_product s = ul_product l \<and>
     asked_units (ul_product l) req \<le> sk_units s - sk_reserved s) (fd_stock db)) (rq_lines req)"

definition holds_nothing :: "reserve_request \<Rightarrow> fulfillment_db \<Rightarrow> bool" where
  "holds_nothing req db \<longleftrightarrow> list_all (\<lambda>r. rw_order r = rq_reference req \<longrightarrow>
     rw_stock r \<notin> sk_id ` set (request_rows req db)) (fd_reservations db)"

lemma loaded_items_ok:
  assumes "stock_db_ok db" "set rows \<subseteq> set (fd_stock db)" "distinct (map sk_product rows)"
  shows "items_ok (map (loaded_item ref db) rows)"
proof -
  have "map si_product (map (loaded_item ref db) rows) = map sk_product rows" by (simp add: loaded_item_def)
  then show ?thesis using assms by (auto simp: items_ok_def list_all_iff intro: loaded_item_ok simp del: map_map)
qed

lemma reservations_for_loaded:
  "reservations_for ref (map (loaded_item ref db) rows) =
    concat (map (\<lambda>s. map row_reservation (own_rows ref (sk_id s) (fd_reservations db))) rows)"
proof -
  have "filter (\<lambda>r. rv_order r = ref) (map row_reservation (own_rows ref i T)) = map row_reservation (own_rows ref i T)" for i T
    by (cases ref, induction T) (auto simp: own_rows_def row_reservation_def)
  then show ?thesis by (simp add: reservations_for_def loaded_item_def comp_def)
qed

lemma item_for_loaded:
  "item_for p (map (loaded_item ref db) rows) = map_option (loaded_item ref db) (find (\<lambda>s. sk_product s = p) rows)"
  by (induction rows) (auto simp: item_for_def loaded_item_def)

lemma asked_units_total:
  assumes "map (\<lambda>l. \<lparr> ul_product = rl_product l, ul_units = q_value (rl_units l) \<rparr>) ls = rq_lines req"
  shows "asked_units p req = line_total p ls"
  unfolding asked_units_def assms [symmetric] by (induction ls) auto

lemma can_supply_iff:
  assumes "stock_db_ok db" and ls: "map (\<lambda>l. \<lparr> ul_product = rl_product l, ul_units = q_value (rl_units l) \<rparr>) ls = rq_lines req"
  shows "can_supply req db \<longleftrightarrow>
    (\<forall>l\<in>set ls. \<not> is_short (map (loaded_item ref db) (request_rows req db)) ls l)"
proof -
  have one: "list_ex (\<lambda>s. sk_company s = rq_company req \<and> sk_product s = p \<and>
      asked_units p req \<le> sk_units s - sk_reserved s) (fd_stock db) \<longleftrightarrow>
    (case find (\<lambda>s. sk_product s = p) (request_rows req db) of None \<Rightarrow> False
     | Some s \<Rightarrow> line_total p ls \<le> sk_units s - sk_reserved s)" if "p \<in> ul_product ` set (rq_lines req)" for p
  proof -
    have mem: "s \<in> set (request_rows req db) \<and> sk_product s = p \<longleftrightarrow>
        s \<in> set (fd_stock db) \<and> sk_company s = rq_company req \<and> sk_product s = p" for s
      using that by (auto simp: request_rows_def company_rows_facts(1) [OF assms(1)])
    have uniq: "s = t" if "s \<in> set (request_rows req db)" "t \<in> set (request_rows req db)" "sk_product s = sk_product t" for s t
      using that company_rows_facts(2) [OF assms(1)] unfolding request_rows_def distinct_map by (auto dest: inj_onD)
    show ?thesis
    proof (cases "find (\<lambda>s. sk_product s = p) (request_rows req db)")
      case None
      then have "\<not> list_ex (\<lambda>s. sk_company s = rq_company req \<and> sk_product s = p \<and>
          asked_units p req \<le> sk_units s - sk_reserved s) (fd_stock db)"
        using mem by (auto simp: find_None_iff list_ex_iff)
      then show ?thesis using None by simp
    next
      case (Some s)
      then have s: "s \<in> set (request_rows req db)" "sk_product s = p" by (auto simp: find_Some_iff)
      have "list_ex (\<lambda>s. sk_company s = rq_company req \<and> sk_product s = p \<and>
          asked_units p req \<le> sk_units s - sk_reserved s) (fd_stock db) \<longleftrightarrow>
        (\<exists>t\<in>set (request_rows req db). sk_product t = p \<and> asked_units p req \<le> sk_units t - sk_reserved t)"
        unfolding list_ex_iff using mem by blast
      also have "\<dots> \<longleftrightarrow> asked_units p req \<le> sk_units s - sk_reserved s" using s uniq by metis
      finally show ?thesis using Some asked_units_total [OF ls] by simp
    qed
  qed
  have "is_short (map (loaded_item ref db) (request_rows req db)) ls l \<longleftrightarrow>
      \<not> (case find (\<lambda>s. sk_product s = rl_product l) (request_rows req db) of None \<Rightarrow> False
     | Some s \<Rightarrow> line_total (rl_product l) ls \<le> sk_units s - sk_reserved s)" for l
    by (auto simp: is_short_def item_for_loaded loaded_item_def split: option.split)
  moreover have "can_supply req db \<longleftrightarrow> (\<forall>l\<in>set ls. case find (\<lambda>s. sk_product s = rl_product l) (request_rows req db) of None \<Rightarrow> False
     | Some s \<Rightarrow> line_total (rl_product l) ls \<le> sk_units s - sk_reserved s)"
  proof -
    have products: "ul_product ` set (rq_lines req) = rl_product ` set ls"
      unfolding ls [symmetric] by force
    have "can_supply req db \<longleftrightarrow> (\<forall>p\<in>ul_product ` set (rq_lines req). list_ex (\<lambda>s. sk_company s = rq_company req \<and>
        sk_product s = p \<and> asked_units p req \<le> sk_units s - sk_reserved s) (fd_stock db))"
      by (simp add: can_supply_def list_all_iff)
    also have "\<dots> \<longleftrightarrow> (\<forall>p\<in>ul_product ` set (rq_lines req). case find (\<lambda>s. sk_product s = p) (request_rows req db) of
        None \<Rightarrow> False | Some s \<Rightarrow> line_total p ls \<le> sk_units s - sk_reserved s)"
      using one by (intro ball_cong) auto
    finally show ?thesis unfolding products by simp
  qed
  ultimately show ?thesis by simp
qed

lemma holds_nothing_iff:
  assumes "order_number_value ref = rq_reference req"
  shows "concat (map (\<lambda>s. map row_reservation (own_rows ref (sk_id s) (fd_reservations db))) (request_rows req db)) = [] \<longleftrightarrow>
    holds_nothing req db"
  by (auto simp: holds_nothing_def own_rows_def assms list_all_iff filter_empty_conv)

lemma own_rows_none:
  assumes "order_number_value ref = rq_reference req" "holds_nothing req db" "s \<in> set (request_rows req db)"
  shows "own_rows ref (sk_id s) (fd_reservations db) = []"
  using assms by (auto simp: holds_nothing_def own_rows_def list_all_iff filter_empty_conv)

definition booked_db :: "(nat \<Rightarrow> uid) \<Rightarrow> reserve_request \<Rightarrow> fulfillment_db \<Rightarrow> fulfillment_db" where
  "booked_db fresh req db = book_db fresh (Order_Number (rq_reference req)) (rq_retailer req)
     (map (\<lambda>l. \<lparr> rl_product = ul_product l, rl_units = Quantity (ul_units l) \<rparr>) (rq_lines req)) (request_rows req db) db"

definition request_refs :: "(nat \<Rightarrow> uid) \<Rightarrow> reserve_request \<Rightarrow> reservation_ref list" where
  "request_refs fresh req = map (\<lambda>(k, l). \<lparr> rr_id = fresh k, rr_product = ul_product l, rr_units = ul_units l \<rparr>)
     (enumerate 0 (rq_lines req))"

text \<open>One write of one event: the outbox gains exactly this event.\<close>

definition emits :: "envelope list \<Rightarrow> fulfillment_db \<Rightarrow> fulfillment_db \<Rightarrow> bool" where
  "emits evs db db' \<longleftrightarrow> map ob_envelope (fd_outbox db') = map ob_envelope (fd_outbox db) @ evs"

lemma lines_of_request:
  assumes "map (\<lambda>l. \<lparr> ul_product = rl_product l, ul_units = q_value (rl_units l) \<rparr>) ls = rls"
  shows "ls = map (\<lambda>l. \<lparr> rl_product = ul_product l, rl_units = Quantity (ul_units l) \<rparr>) rls"
  unfolding assms [symmetric] by (induction ls) auto

lemma enumerate_map: "enumerate k (map f xs) = map (\<lambda>(j, x). (j, f x)) (enumerate k xs)"
  by (induction xs arbitrary: k) simp_all

lemma line_refs_request:
  "map (line_ref fresh) (enumerate 0 (map (\<lambda>l. \<lparr> rl_product = ul_product l, rl_units = Quantity (ul_units l) \<rparr>) (rq_lines req))) =
    request_refs fresh req"
  by (auto simp: request_refs_def enumerate_map line_ref_def)

lemma event_of_items:
  assumes "distinct (map f rows)" "c \<in> set (map f rows)" "\<And>s. si_id (g s) = f s \<and> si_events (g s) = []"
  shows "concat (map (si_events \<circ> (\<lambda>s. with_event e c (g s))) rows) = [e]"
  using assms
proof (induction rows)
  case (Cons s rows)
  have none: "concat (map (si_events \<circ> (\<lambda>s. with_event e c (g s))) rows) = []" if "c \<notin> set (map f rows)" for rows
    using that Cons.prems(3) by (induction rows) (auto simp: with_event_def)
  show ?case
  proof (cases "f s = c")
    case True
    then show ?thesis using Cons.prems none [of rows] by (auto simp: with_event_def)
  next
    case False
    then show ?thesis using Cons by (auto simp: with_event_def)
  qed
qed simp

lemma save_unchanged:
  assumes "stock_db_ok db" "set rows \<subseteq> set (fd_stock db)" "distinct (map sk_id rows)"
    and none: "\<And>s. s \<in> set rows \<Longrightarrow> own_rows ref (sk_id s) (fd_reservations db) = []"
    and c: "c \<in> set (map sk_id rows)"
    and save: "save_all now (map (\<lambda>s. with_event e c (loaded_item ref db s)) rows) db = Inr db'"
  shows "fd_stock db' = fd_stock db \<and> fd_reservations db' = fd_reservations db \<and> emits [e] db db'"
proof -
  let ?h = "\<lambda>s. with_event e c (loaded_item ref db s)"
  have f: "si_id (?h s) = sk_id s \<and> si_company (?h s) = sk_company s \<and> si_product (?h s) = sk_product s \<and>
      si_threshold (?h s) = sk_threshold s" "si_units (?h s) = sk_units s" "si_reserved (?h s) = sk_reserved s" for s
    by (simp_all add: with_event_def loaded_item_def)
  have "fold upsert_stock (map to_stock_table_row (map ?h rows)) (fd_stock db) = fd_stock db"
    unfolding upsert_stock_rows [OF assms(1,2) f(1)] f(2,3) by (simp add: map_idI)
  moreover have "fold upsert_reservation (concat (map to_reservation_table_rows (map ?h rows))) (fd_reservations db) = fd_reservations db"
  proof -
    have "concat (map to_reservation_table_rows (map ?h rows)) = []"
      using none by (auto simp: to_reservation_table_rows_def with_event_def loaded_item_def)
    then show ?thesis by (simp only: fold_Nil id_apply)
  qed
  moreover have "concat (map (si_events \<circ> ?h) rows) = [e]"
    using c by (intro event_of_items [OF assms(3)]) (simp_all add: loaded_item_def)
  ultimately show ?thesis using save_all_Inr(1) [OF save] by (simp add: emits_def comp_def)
qed

lemma distinct_sorted_wrt: "distinct (map f xs) \<Longrightarrow> sorted_wrt (\<lambda>a b. \<not> f a = f b) xs"
  by (induction xs) (auto simp: image_iff)

lemma save_booked:
  assumes "stock_db_ok db" "stock_fresh fresh (length ls) db" "set rows \<subseteq> set (fd_stock db)"
    and "distinct (map sk_id rows)" "distinct (map sk_product rows)"
    and none: "\<And>s. s \<in> set rows \<Longrightarrow> own_rows ref (sk_id s) (fd_reservations db) = []"
    and c: "c \<in> set (map sk_id rows)"
    and save: "save_all now (map (\<lambda>s. with_event e c (book fresh ref retailer 0 ls (loaded_item ref db s))) rows) db = Inr db'"
  shows "fd_stock db' = fd_stock (book_db fresh ref retailer ls rows db) \<and>
    fd_reservations db' = fd_reservations (book_db fresh ref retailer ls rows db) \<and> emits [e] db db'"
proof -
  let ?h = "\<lambda>s. with_event e c (book fresh ref retailer 0 ls (loaded_item ref db s))"
  have f: "si_id (?h s) = sk_id s \<and> si_company (?h s) = sk_company s \<and> si_product (?h s) = sk_product s \<and>
      si_threshold (?h s) = sk_threshold s" "si_units (?h s) = sk_units s"
    "si_reserved (?h s) = sk_reserved s + line_total (sk_product s) ls" for s
    by (simp_all add: with_event_def loaded_item_def book_def)
  have "fold upsert_stock (map to_stock_table_row (map ?h rows)) (fd_stock db) =
      fd_stock (book_db fresh ref retailer ls rows db)"
    unfolding upsert_stock_rows [OF assms(1,3) f(1)] f(2,3) book_db_def by (auto intro!: map_cong)
  moreover have rs: "map to_reservation_table_rows (map ?h rows) =
      map (\<lambda>s. map (line_row fresh ref retailer s) (lines_on ls s)) rows"
    using booked_rows none by (simp add: comp_def)
  have "fold upsert_reservation (concat (map to_reservation_table_rows (map ?h rows))) (fd_reservations db) =
      fd_reservations (book_db fresh ref retailer ls rows db)"
  proof -
    note new = new_row_ids [OF assms(5,2), of ref retailer]
    have "fold upsert_reservation (concat (map (\<lambda>s. map (line_row fresh ref retailer s) (lines_on ls s)) rows)) (fd_reservations db) =
        fd_reservations db @ concat (map (\<lambda>s. map (line_row fresh ref retailer s) (lines_on ls s)) rows)"
      unfolding upsert_reservation_def
    proof (rule fold_upsert_new)
      show "\<not> rw_id r = rw_id x" if "x \<in> set (concat (map (\<lambda>s. map (line_row fresh ref retailer s) (lines_on ls s)) rows))"
        "r \<in> set (fd_reservations db)" for x r
        using new(2) that by (metis image_eqI)
      show "sorted_wrt (\<lambda>a b. \<not> rw_id a = rw_id b) (concat (map (\<lambda>s. map (line_row fresh ref retailer s) (lines_on ls s)) rows))"
        using new(1) by (rule distinct_sorted_wrt)
    qed
    then show ?thesis unfolding rs by (simp add: book_db_def)
  qed
  moreover have "concat (map (si_events \<circ> ?h) rows) = [e]"
    using c by (intro event_of_items [OF assms(4)]) (simp_all add: loaded_item_def)
  ultimately show ?thesis using save_all_Inr(1) [OF save] by (simp add: emits_def comp_def)
qed

section \<open>Reserving\<close>

lemma request_rows_facts:
  assumes "stock_db_ok db"
  shows "set (request_rows req db) \<subseteq> set (fd_stock db)" "distinct (map sk_product (request_rows req db))"
    "distinct (map sk_id (request_rows req db))"
  using company_rows_facts [OF assms] by (auto simp: request_rows_def)

definition row_ref :: "reservation_row \<Rightarrow> reservation_ref" where
  "row_ref r = \<lparr> rr_id = rw_id r, rr_product = rw_product r, rr_units = rw_units r \<rparr>"

lemma mset_grouped:
  assumes "distinct (map g rows)"
  shows "mset (concat (map (\<lambda>s. filter (\<lambda>r. f r = g s) T) rows)) = mset (filter (\<lambda>r. f r \<in> g ` set rows) T)"
  using assms
proof (induction rows)
  case (Cons s rows)
  have "mset (filter (\<lambda>r. f r \<in> g ` set (s # rows)) T) =
      mset (filter (\<lambda>r. f r = g s) T) + mset (filter (\<lambda>r. f r \<in> g ` set rows) T)"
    using Cons.prems by (induction T) auto
  then show ?case using Cons by simp
qed simp

text \<open>What the order already holds on the requested products, in whatever status.\<close>

definition request_holdings :: "reserve_request \<Rightarrow> fulfillment_db \<Rightarrow> reservation_row list" where
  "request_holdings req db = filter (\<lambda>r. rw_order r = rq_reference req \<and> rw_stock r \<in> sk_id ` set (request_rows req db))
     (fd_reservations db)"

lemma existing_refs:
  assumes "order_number_value ref = rq_reference req" "distinct (map sk_id (request_rows req db))"
  shows "mset (map to_ref (reservations_for ref (map (loaded_item ref db) (request_rows req db)))) =
    image_mset row_ref (mset (request_holdings req db))"
proof -
  have refs: "to_ref (row_reservation r) = row_ref r" for r
    by (simp add: to_ref_def row_reservation_def row_ref_def)
  have "map to_ref (reservations_for ref (map (loaded_item ref db) (request_rows req db))) =
      map row_ref (concat (map (\<lambda>s. filter (\<lambda>r. rw_stock r = sk_id s) (filter (\<lambda>r. rw_order r = rq_reference req) (fd_reservations db)))
        (request_rows req db)))"
    unfolding reservations_for_loaded
    by (simp add: own_rows_def assms(1) map_concat comp_def refs conj_commute)
  then show ?thesis
    using mset_grouped [OF assms(2), of rw_stock "filter (\<lambda>r. rw_order r = rq_reference req) (fd_reservations db)"]
    by (simp add: request_holdings_def conj_commute)
qed

lemma reserve_in_transaction_eval:
  assumes "stock_db_ok db" "order_number_value ref = rq_reference req"
    and "reserve_in_transaction now fresh req request_id corr ref db = Inr (reply, db')"
  shows "(\<not> holds_nothing req db \<and> (\<exists>refs. reply = Reserve_Already (rq_reference req) refs \<and> refs \<noteq> [] \<and>
      mset refs = image_mset row_ref (mset (request_holdings req db))) \<and> db' = db) \<or>
    (holds_nothing req db \<and> (\<exists>ls out items'. reserve_lines_of (rq_lines req) = Inr ls \<and>
      reserve_order_stock fresh \<lparr> ri_order = ref, ri_company = rq_company req, ri_retailer = rq_retailer req, ri_lines = ls,
           ri_correlation = corr \<rparr> \<lparr> sx_at = now, sx_causation = request_id \<rparr>
           (map (loaded_item ref db) (request_rows req db)) = Inr (out, items') \<and>
      save_all now items' db = Inr db' \<and>
      (case out of Stock_Was_Rejected shs reason c \<Rightarrow> c \<noteq> None \<and> reply = Reserve_Rejected (rq_reference req) shs
       | Stock_Was_Reserved refs c \<Rightarrow> reply = Reserve_Accepted (rq_reference req) refs)))"
proof -
  have lock: "lock_for_order (rq_company req) (remdups (map ul_product (rq_lines req))) ref db =
      Inr (map (\<lambda>s. (sk_product s, loaded_item ref db s)) (request_rows req db))"
    unfolding request_rows_def by (rule lock_for_order_eval [OF assms(1)])
  have snd: "map snd (map (\<lambda>s. (sk_product s, loaded_item ref db s)) rows) = map (loaded_item ref db) rows" for rows
    by (simp add: comp_def)
  have existing: "reservations_for ref (map (loaded_item ref db) (request_rows req db)) = [] \<longleftrightarrow> holds_nothing req db"
    unfolding reservations_for_loaded by (rule holds_nothing_iff [OF assms(2)])
  show ?thesis
  proof (cases "holds_nothing req db")
    case False
    then show ?thesis
      using assms(3) existing existing_refs [OF assms(2) request_rows_facts(3) [OF assms(1)]]
      unfolding reserve_in_transaction_def lock bindR_simps Let_def snd by auto
  next
    case True
    then have none: "reservations_for ref (map (loaded_item ref db) (request_rows req db)) = []" using existing by simp
    from assms(3) obtain ls out items' where ls: "reserve_lines_of (rq_lines req) = Inr ls"
      and out: "reserve_order_stock fresh \<lparr> ri_order = ref, ri_company = rq_company req, ri_retailer = rq_retailer req, ri_lines = ls,
           ri_correlation = corr \<rparr> \<lparr> sx_at = now, sx_causation = request_id \<rparr>
           (map (loaded_item ref db) (request_rows req db)) = Inr (out, items')"
      and rest: "(case out of
           Stock_Was_Rejected shs reason None \<Rightarrow> Inl (No_Known_Stock_Item (rq_reference req))
         | Stock_Was_Rejected shs reason (Some c) \<Rightarrow>
             bindR (save_all now items' db) (\<lambda>db1. Inr (Reserve_Rejected (rq_reference req) shs, db1))
         | Stock_Was_Reserved refs c \<Rightarrow>
             bindR (save_all now items' db) (\<lambda>db1. Inr (Reserve_Accepted (rq_reference req) refs, db1))) = Inr (reply, db')"
      unfolding reserve_in_transaction_def lock bindR_simps Let_def snd none
      by (auto simp: bindR_Inr)
    have "save_all now items' db = Inr db' \<and>
      (case out of Stock_Was_Rejected shs reason c \<Rightarrow> c \<noteq> None \<and> reply = Reserve_Rejected (rq_reference req) shs
       | Stock_Was_Reserved refs c \<Rightarrow> reply = Reserve_Accepted (rq_reference req) refs)"
      using rest by (cases out) (auto simp: bindR_Inr split: option.splits)
    then show ?thesis using True ls out by blast
  qed
qed

lemma stock_reserve_outcomes:
  assumes "stock_db_ok db" "stock_fresh fresh (length (rq_lines req)) db"
    and "execute_reserve now fresh req request_id corr db = (Inr reply, db')"
  shows "if \<not> holds_nothing req db
      then (\<exists>refs. reply = Reserve_Already (rq_reference req) refs \<and> refs \<noteq> [] \<and>
      mset refs = image_mset row_ref (mset (request_holdings req db))) \<and> db' = db
    else if can_supply req db
      then reply = Reserve_Accepted (rq_reference req) (request_refs fresh req) \<and>
        fd_stock db' = fd_stock (booked_db fresh req db) \<and>
        fd_reservations db' = fd_reservations (booked_db fresh req db) \<and>
        (\<exists>e. emits [e] db db' \<and> ev_type e = Stock_Reserved_Fact \<and> ev_correlation e = corr)
    else (\<exists>shs. reply = Reserve_Rejected (rq_reference req) shs) \<and>
        fd_stock db' = fd_stock db \<and> fd_reservations db' = fd_reservations db \<and>
        (\<exists>e. emits [e] db db' \<and> ev_type e = Stock_Rejected_Fact \<and> ev_correlation e = corr)"
proof -
  obtain ref where ref: "parse_order (rq_reference req) = Inr ref"
    and tx: "reserve_in_transaction now fresh req request_id corr ref db = Inr (reply, db')"
    using assms(3) by (auto simp: execute_reserve_def unit_of_work_Inr split: sum.splits)
  note val = parse_order_value [OF ref]
  have refeq: "ref = Order_Number (rq_reference req)" using ref by (simp add: parse_order_Inr)
  note rows = request_rows_facts [OF assms(1), of req]
  let ?items = "map (loaded_item ref db) (request_rows req db)"
  have ids: "map si_id ?items = map sk_id (request_rows req db)" by (simp add: loaded_item_def)
  have items: "items_ok ?items" "distinct (map si_id ?items)"
    using loaded_items_ok [OF assms(1) rows(1,2)] rows(3) unfolding ids by auto
  from reserve_in_transaction_eval [OF assms(1) conjunct2 [OF val] tx] show ?thesis
  proof (elim disjE conjE exE)
    fix ls out items'
    assume none: "holds_nothing req db" and ls: "reserve_lines_of (rq_lines req) = Inr ls"
      and out: "reserve_order_stock fresh \<lparr> ri_order = ref, ri_company = rq_company req, ri_retailer = rq_retailer req,
           ri_lines = ls, ri_correlation = corr \<rparr> \<lparr> sx_at = now, sx_causation = request_id \<rparr> ?items = Inr (out, items')"
      and save: "save_all now items' db = Inr db'"
      and reply: "case out of Stock_Was_Rejected shs reason c \<Rightarrow> c \<noteq> None \<and> reply = Reserve_Rejected (rq_reference req) shs
       | Stock_Was_Reserved refs c \<Rightarrow> reply = Reserve_Accepted (rq_reference req) refs"
    note l = reserve_lines_of_Inr [OF ls]
    note sup = can_supply_iff [OF assms(1) conjunct2 [OF l]]
    have len: "length ls = length (rq_lines req)" using l by (metis length_map)
    have own: "own_rows ref (sk_id s) (fd_reservations db) = []" if "s \<in> set (request_rows req db)" for s
      using own_rows_none [OF conjunct2 [OF val] none that] .
    let ?inp = "\<lparr> ri_order = ref, ri_company = rq_company req, ri_retailer = rq_retailer req,
           ri_lines = ls, ri_correlation = corr \<rparr>"
    have inp: "ri_lines ?inp = ls" "ri_order ?inp = ref" "ri_retailer ?inp = rq_retailer req" "ri_correlation ?inp = corr" by simp_all
    have dec: "can_supply req db \<longleftrightarrow> (\<forall>l\<in>set ls. \<not> is_short ?items ls l)" by (rule sup)
    show ?thesis
    proof (cases "can_supply req db")
      case True
      have "ls \<noteq> []"
      proof
        assume "ls = []"
        then show False using out by (simp add: reserve_order_stock_def Let_def List.map_filter_simps)
      qed
      have fit: "\<not> is_short ?items ls l" if "l \<in> set ls" for l using dec True that by blast
      obtain c e where r: "reserve_order_stock fresh ?inp \<lparr> sx_at = now, sx_causation = request_id \<rparr> ?items =
          Inr (Stock_Was_Reserved (map (line_ref fresh) (enumerate 0 ls)) c,
            map (with_event e c) (map (book fresh ref (rq_retailer req) 0 ls) ?items))"
        and ce: "c \<in> si_id ` set ?items" "ev_type e = Stock_Reserved_Fact" "ev_correlation e = corr"
        using reserve_order_stock_fits [OF items, of ?inp, unfolded inp, OF conjunct1 [OF l] \<open>ls \<noteq> []\<close> fit] by blast
      have res: "out = Stock_Was_Reserved (map (line_ref fresh) (enumerate 0 ls)) c"
        "items' = map (with_event e c) (map (book fresh ref (rq_retailer req) 0 ls) ?items)"
        using out unfolding r by simp_all
      have save': "save_all now (map (\<lambda>s. with_event e c (book fresh ref (rq_retailer req) 0 ls (loaded_item ref db s)))
          (request_rows req db)) db = Inr db'"
        using save unfolding res(2) by (simp add: comp_def)
      have c: "c \<in> set (map sk_id (request_rows req db))" using ce(1) unfolding ids [symmetric] by (simp only: set_map)
      have lseq: "ls = map (\<lambda>l. \<lparr> rl_product = ul_product l, rl_units = Quantity (ul_units l) \<rparr>) (rq_lines req)"
        using l by (intro lines_of_request) simp
      have "fd_stock db' = fd_stock (booked_db fresh req db) \<and>
          fd_reservations db' = fd_reservations (booked_db fresh req db) \<and> emits [e] db db'"
        using save_booked [OF assms(1) _ rows(1,3,2) own c save'] assms(2) len
        unfolding booked_db_def refeq [symmetric] lseq [symmetric] by simp
      moreover have "reply = Reserve_Accepted (rq_reference req) (request_refs fresh req)"
        using reply unfolding res(1) lseq line_refs_request by simp
      ultimately show ?thesis using True none ce by auto
    next
      case False
      then have "\<exists>l\<in>set ls. is_short ?items ls l" using dec by blast
      then obtain reason carrier where o: "out = Stock_Was_Rejected (List.map_filter (line_shortage ?items ls) ls) reason carrier"
        and cr: "case carrier of None \<Rightarrow> items' = ?items
         | Some c \<Rightarrow> \<exists>e. ev_type e = Stock_Rejected_Fact \<and> ev_aggregate e = c \<and> ev_id e = fresh 0 \<and>
             ev_correlation e = corr \<and> c \<in> si_id ` set ?items \<and> items' = map (with_event e c) ?items"
        using reserve_order_stock_short [OF items, of ?inp, unfolded inp, OF conjunct1 [OF l] _ out] by blast
      obtain c e where ce: "ev_type e = Stock_Rejected_Fact" "ev_correlation e = corr" "c \<in> si_id ` set ?items"
        "items' = map (with_event e c) ?items"
        using cr reply o by (cases carrier) auto
      have save': "save_all now (map (\<lambda>s. with_event e c (loaded_item ref db s)) (request_rows req db)) db = Inr db'"
        using save unfolding ce(4) by (simp add: comp_def)
      have c: "c \<in> set (map sk_id (request_rows req db))" using ce(3) unfolding ids [symmetric] by (simp only: set_map)
      have "fd_stock db' = fd_stock db \<and> fd_reservations db' = fd_reservations db \<and> emits [e] db db'"
        by (rule save_unchanged [OF assms(1) rows(1,3) own c save'])
      then show ?thesis using False none ce reply o by auto
    qed
  qed simp
qed

text \<open>C19: A stock.reserve that returns is all or nothing. When the order already has a reservation
  on the requested products, in whatever status, the reply lists exactly these reservations, each
  with its identifier, product and units, and nothing changes. Otherwise, exactly when
  every requested product has enough free units for all the lines naming it, each line gets one
  reservation, the counters rise by the lines and one stock.reserved.v1 is emitted for the order;
  in every other case no stock row and no reservation changes and one stock.rejected.v1 is
  emitted.\<close>

theorem stock_reserve_all_or_nothing:
  assumes "stock_db_ok db" "stock_fresh fresh (length (rq_lines req)) db"
    and "execute_reserve now fresh req request_id corr db = (Inr reply, db')"
  shows "if \<not> holds_nothing req db
      then (\<exists>refs. reply = Reserve_Already (rq_reference req) refs \<and> refs \<noteq> [] \<and>
      mset refs = image_mset row_ref (mset (request_holdings req db))) \<and> db' = db
    else if can_supply req db
      then reply = Reserve_Accepted (rq_reference req) (request_refs fresh req) \<and>
        fd_stock db' = fd_stock (booked_db fresh req db) \<and>
        fd_reservations db' = fd_reservations (booked_db fresh req db) \<and>
        (\<exists>e. emits [e] db db' \<and> ev_type e = Stock_Reserved_Fact \<and> ev_correlation e = corr)
    else (\<exists>shs. reply = Reserve_Rejected (rq_reference req) shs) \<and>
        fd_stock db' = fd_stock db \<and> fd_reservations db' = fd_reservations db \<and>
        (\<exists>e. emits [e] db db' \<and> ev_type e = Stock_Rejected_Fact \<and> ev_correlation e = corr)"
  using assms by (rule stock_reserve_outcomes)

section \<open>Releasing and despatching\<close>

lemma release_items_eval:
  assumes "\<And>it. it \<in> set items \<Longrightarrow> stock_item_ok it" "release_items ref items = Inr xs"
  shows "xs = map (\<lambda>it. (map (\<lambda>r. r \<lparr> rv_status := Released \<rparr>) (filter (mine ref) (si_reservations it)),
      settled_item Released ref 0 it)) items"
    and "\<And>it r. \<lbrakk> it \<in> set items; r \<in> set (si_reservations it); rv_order r = ref \<rbrakk> \<Longrightarrow> rv_status r \<noteq> Consumed"
proof -
  have one: "x = (map (\<lambda>r. r \<lparr> rv_status := Released \<rparr>) (filter (mine ref) (si_reservations it)), settled_item Released ref 0 it) \<and>
      (\<forall>r\<in>set (si_reservations it). rv_order r = ref \<longrightarrow> rv_status r \<noteq> Consumed)"
    if "release_stock ref it = Inr x" "it \<in> set items" for it x
    using that(1) unfolding release_stock_eval [OF assms(1) [OF that(2)]]
    by (auto simp: settled_item_def find_None_iff split: option.splits)
  have m: "mapR (release_stock ref) items = Inr xs" using assms(2) by (simp only: release_items_def)
  show "xs = map (\<lambda>it. (map (\<lambda>r. r \<lparr> rv_status := Released \<rparr>) (filter (mine ref) (si_reservations it)),
      settled_item Released ref 0 it)) items"
    using one by (intro mapR_determined [OF m]) blast
  fix it r assume it: "it \<in> set items" "r \<in> set (si_reservations it)" "rv_order r = ref"
  obtain x where "release_stock ref it = Inr x" using mapR_defined [OF m it(1)] by blast
  then show "rv_status r \<noteq> Consumed" using one it by blast
qed

lemma consume_items_eval:
  assumes "\<And>it. it \<in> set items \<Longrightarrow> stock_item_ok it" "consume_items ref items = Inr xs"
  shows "xs = map (\<lambda>it. (map (\<lambda>r. r \<lparr> rv_status := Consumed \<rparr>) (filter (mine ref) (si_reservations it)),
      settled_item Consumed ref (held_units (filter (mine ref) (si_reservations it))) it)) items"
    and "\<And>it r. \<lbrakk> it \<in> set items; r \<in> set (si_reservations it); rv_order r = ref \<rbrakk> \<Longrightarrow> rv_status r \<noteq> Released"
proof -
  have one: "x = (map (\<lambda>r. r \<lparr> rv_status := Consumed \<rparr>) (filter (mine ref) (si_reservations it)),
        settled_item Consumed ref (held_units (filter (mine ref) (si_reservations it))) it) \<and>
      (\<forall>r\<in>set (si_reservations it). rv_order r = ref \<longrightarrow> rv_status r \<noteq> Released)"
    if "consume_stock ref it = Inr x" "it \<in> set items" for it x
    using that(1) unfolding consume_stock_eval [OF assms(1) [OF that(2)]]
    by (auto simp: settled_item_def find_None_iff split: option.splits)
  have m: "mapR (consume_stock ref) items = Inr xs" using assms(2) by (simp only: consume_items_def)
  show "xs = map (\<lambda>it. (map (\<lambda>r. r \<lparr> rv_status := Consumed \<rparr>) (filter (mine ref) (si_reservations it)),
      settled_item Consumed ref (held_units (filter (mine ref) (si_reservations it))) it)) items"
    using one by (intro mapR_determined [OF m]) blast
  fix it r assume it: "it \<in> set items" "r \<in> set (si_reservations it)" "rv_order r = ref"
  obtain x where "consume_stock ref it = Inr x" using mapR_defined [OF m it(1)] by blast
  then show "rv_status r \<noteq> Released" using one it by blast
qed

text \<open>The order's reserved reservations on the stock rows, item by item.\<close>

definition order_reserved :: "order_number \<Rightarrow> stock_item list \<Rightarrow> reservation list" where
  "order_reserved ref items = concat (map (\<lambda>it. filter (mine ref) (si_reservations it)) items)"

lemma release_order_stock_eval:
  assumes "\<And>it. it \<in> set items \<Longrightarrow> stock_item_ok it" "distinct (map si_product items)" "distinct (map si_id items)"
    and "release_order_stock eid ref company reason corr ctx items = Inr (out, items')"
  shows "if order_reserved ref items = [] then out = Already_Released
    else (\<exists>c e. out = Stock_Was_Released (map to_ref (order_reserved ref items)) c \<and> c \<in> si_id ` set items \<and>
      items' = map (with_event e c) (map (settled_item Released ref 0) items) \<and>
      ev_type e = Stock_Released_Fact \<and> ev_correlation e = corr)"
    and "\<And>it r. \<lbrakk> it \<in> set items; r \<in> set (si_reservations it); rv_order r = ref \<rbrakk> \<Longrightarrow> rv_status r \<noteq> Consumed"
proof -
  obtain xs where xs: "release_items ref items = Inr xs"
    using assms(4) by (auto simp: release_order_stock_def bindR_Inr)
  note ev = release_items_eval [OF assms(1) xs]
  show "\<And>it r. \<lbrakk> it \<in> set items; r \<in> set (si_reservations it); rv_order r = ref \<rbrakk> \<Longrightarrow> rv_status r \<noteq> Consumed" by (rule ev(2))
  let ?g = "settled_item Released ref 0"
  have refs: "concat (map (\<lambda>(rs, _). map to_ref rs) xs) = map to_ref (order_reserved ref items)"
    using ev(1) by (simp add: order_reserved_def to_ref_def [abs_def] map_concat comp_def)
  have snds: "map snd xs = map ?g items" using ev(1) by simp
  have empty: "find (\<lambda>(rs, _). rs \<noteq> []) xs = None \<longleftrightarrow> order_reserved ref items = []"
    using ev(1) by (auto simp: find_None_iff order_reserved_def)
  show "if order_reserved ref items = [] then out = Already_Released
    else (\<exists>c e. out = Stock_Was_Released (map to_ref (order_reserved ref items)) c \<and> c \<in> si_id ` set items \<and>
      items' = map (with_event e c) (map ?g items) \<and> ev_type e = Stock_Released_Fact \<and> ev_correlation e = corr)"
  proof (cases "find (\<lambda>(rs, _). rs \<noteq> []) xs")
    case None
    then show ?thesis using assms(4) empty xs by (simp add: release_order_stock_def)
  next
    case (Some y)
    obtain rs carrier where y: "y = (rs, carrier)" by (cases y)
    have "y \<in> set xs" using Some by (metis (no_types, lifting) find_Some_iff nth_mem)
    then have mem: "carrier \<in> set (map ?g items)" unfolding y snds [symmetric] by force
    let ?e = "stock_released_event eid carrier ref company (Some (rv_retailer (hd rs)))
      (map to_ref (order_reserved ref items)) reason corr ctx"
    have e: "ev_type ?e = Stock_Released_Fact" "ev_aggregate ?e = si_id carrier" "ev_correlation ?e = corr"
      by (simp_all add: stock_released_event_def stock_event_def)
    have d: "distinct (map si_id (map ?g items))" "distinct (map si_product (map ?g items))"
      using assms(2,3) by (simp_all add: settled_item_def comp_def)
    have "record_order_fact ?e carrier = Inr (carrier \<lparr> si_events := si_events carrier @ [?e] \<rparr>)"
      by (simp add: record_order_fact_def e)
    then have "out = Stock_Was_Released (map to_ref (order_reserved ref items)) (si_id carrier)"
      "items' = put_item (carrier \<lparr> si_events := si_events carrier @ [?e] \<rparr>) (map ?g items)"
      using assms(4) xs Some y refs snds by (simp_all add: release_order_stock_def Let_def)
    moreover have "si_id carrier \<in> si_id ` set items" using mem by (auto simp: settled_item_def)
    ultimately show ?thesis using empty Some e put_event [OF d mem] by auto
  qed
qed

definition order_rows :: "string \<Rightarrow> fulfillment_db \<Rightarrow> reservation_row list" where
  "order_rows text db = filter (\<lambda>r. rw_order r = text) (fd_reservations db)"

definition reserved_rows :: "string \<Rightarrow> fulfillment_db \<Rightarrow> reservation_row list" where
  "reserved_rows text db = filter (\<lambda>r. rw_status r = Reserved) (order_rows text db)"

definition order_stocks :: "string \<Rightarrow> fulfillment_db \<Rightarrow> uid set" where
  "order_stocks text db = rw_stock ` set (order_rows text db)"

text \<open>The reservations on some stock rows: what a command sees that locks these rows only.\<close>

definition rows_on :: "uid set \<Rightarrow> reservation_row list \<Rightarrow> reservation_row list" where
  "rows_on I rows = filter (\<lambda>r. rw_stock r \<in> I) rows"

lemma rows_on_all: "order_stocks text db \<subseteq> I \<Longrightarrow> rows_on I (reserved_rows text db) = reserved_rows text db \<and>
    rows_on I (order_rows text db) = order_rows text db"
  by (auto simp: rows_on_def reserved_rows_def order_stocks_def intro!: filter_cong filter_True)

lemma order_reserved_rows:
  assumes "distinct (map sk_id rows)" "\<forall>r\<in>set (order_rows text db). rw_stock r \<in> sk_id ` set rows \<longleftrightarrow> rw_stock r \<in> I"
  shows "mset (order_reserved (Order_Number text) (map (loaded_item (Order_Number text) db) rows)) =
    image_mset row_reservation (mset (rows_on I (reserved_rows text db)))"
proof -
  have "filter (mine (Order_Number text)) (map row_reservation (own_rows (Order_Number text) i T)) =
      map row_reservation (filter (\<lambda>r. rw_stock r = i) (filter (\<lambda>r. rw_status r = Reserved) (filter (\<lambda>r. rw_order r = text) T)))" for i T
    by (induction T) (auto simp: own_rows_def row_reservation_def mine_def)
  then have "order_reserved (Order_Number text) (map (loaded_item (Order_Number text) db) rows) =
      map row_reservation (concat (map (\<lambda>s. filter (\<lambda>r. rw_stock r = sk_id s) (reserved_rows text db)) rows))"
    by (simp add: order_reserved_def loaded_item_def reserved_rows_def order_rows_def map_concat comp_def)
  moreover have "filter (\<lambda>r. rw_stock r \<in> sk_id ` set rows) (reserved_rows text db) = rows_on I (reserved_rows text db)"
    unfolding rows_on_def using assms(2) by (intro filter_cong) (simp_all add: reserved_rows_def)
  ultimately show ?thesis using mset_grouped [OF assms(1), of rw_stock "reserved_rows text db"] by simp
qed

lemma stock_ids_of_order_Inr:
  assumes "stock_ids_of_order ref db = Inr ids" "stock_db_ok db"
  shows "set ids = order_stocks (order_number_value ref) db"
proof -
  have canon: "unique_id_from (rw_stock r) = Inr (rw_stock r)" if "r \<in> set (fd_reservations db)" for r
    using assms(2) that by (auto simp: stock_db_ok_def list_all_iff)
  have "mapR unique_id_from (remdups (map rw_stock (filter (\<lambda>r. rw_order r = order_number_value ref) (fd_reservations db)))) = Inr ids"
    using assms(1) by (simp add: stock_ids_of_order_def)
  from mapR_determined [OF this, of id]
  have "ids = remdups (map rw_stock (filter (\<lambda>r. rw_order r = order_number_value ref) (fd_reservations db)))"
    using canon by fastforce
  then show ?thesis by (simp add: order_stocks_def order_rows_def)
qed

lemma settled_events:
  assumes "distinct (map sk_id rows)" "c \<in> set (map sk_id rows)"
  shows "concat (map (si_events \<circ> (\<lambda>s. with_event e c (settled_item st ref (u s) (loaded_item ref db s)))) rows) = [e]"
  by (rule event_of_items [OF assms]) (simp add: settled_item_def loaded_item_def)

lemma locked_order:
  assumes "stock_db_ok db" "ref = Order_Number text" "lock_by_ids_for_order ids ref db = Inr items" "length items = length ids"
    and "ids \<noteq> []"
  obtains rows where "items = map (loaded_item ref db) rows"
    and "set rows = {s \<in> set (fd_stock db). sk_id s \<in> set ids}"
    and "distinct (map sk_product rows)" "distinct (map sk_id rows)"
    and "\<forall>it\<in>set items. stock_item_ok it"
    and "mset (order_reserved ref items) = image_mset row_reservation (mset (rows_on (set ids) (reserved_rows text db)))"
    and "\<forall>r\<in>set (rows_on (set ids) (order_rows text db)). \<exists>it\<in>set items. row_reservation r \<in> set (si_reservations it)"
proof -
  obtain rows where rows: "items = map (loaded_item ref db) rows"
    "set rows = {s \<in> set (fd_stock db). sk_id s \<in> set ids}" "distinct (map sk_product rows)" "distinct (map sk_id rows)"
    using lock_by_ids_eval [OF assms(1,3-5)] by blast
  have covers: "\<forall>r\<in>set (order_rows text db). rw_stock r \<in> sk_id ` set rows \<longleftrightarrow> rw_stock r \<in> set ids"
  proof
    fix r assume "r \<in> set (order_rows text db)"
    then have "rw_stock r \<in> sk_id ` set (fd_stock db)"
      using assms(1) by (auto simp: order_rows_def stock_db_ok_def list_all_iff)
    then show "rw_stock r \<in> sk_id ` set rows \<longleftrightarrow> rw_stock r \<in> set ids" unfolding rows(2) by auto
  qed
  show thesis
  proof (rule that [OF rows])
    show "\<forall>it\<in>set items. stock_item_ok it"
      using rows(1,2) loaded_item_ok [OF assms(1)] by auto
    show "mset (order_reserved ref items) = image_mset row_reservation (mset (rows_on (set ids) (reserved_rows text db)))"
      unfolding rows(1) assms(2) by (rule order_reserved_rows [OF rows(4) covers])
    show "\<forall>r\<in>set (rows_on (set ids) (order_rows text db)). \<exists>it\<in>set items. row_reservation r \<in> set (si_reservations it)"
    proof
      fix r assume "r \<in> set (rows_on (set ids) (order_rows text db))"
      then have r: "r \<in> set (order_rows text db)" "rw_stock r \<in> set ids" by (simp_all add: rows_on_def)
      obtain s where s: "s \<in> set rows" "rw_stock r = sk_id s" using covers r by blast
      have "r \<in> set (own_rows ref (sk_id s) (fd_reservations db))"
        using r(1) s(2) assms(2) by (simp add: own_rows_def order_rows_def)
      then have "row_reservation r \<in> set (si_reservations (loaded_item ref db s))" by (simp add: loaded_item_def)
      then show "\<exists>it\<in>set items. row_reservation r \<in> set (si_reservations it)" using s(1) rows(1) by auto
    qed
  qed
qed

lemma rows_on_order: "r \<in> set (rows_on I (order_rows text db)) \<Longrightarrow> r \<in> set (order_rows text db)"
  by (simp add: rows_on_def)

lemma row_reservation_order: "r \<in> set (order_rows text db) \<Longrightarrow> rv_order (row_reservation r) = Order_Number text"
  by (simp add: row_reservation_def order_rows_def)

lemma row_reservation_status [simp]: "rv_status (row_reservation r) = rw_status r"
  by (simp add: row_reservation_def)

lemma locked_release:
  assumes "stock_db_ok db" "ref = Order_Number text" "ids \<noteq> []"
    and tx: "release_in_transaction now eid text reason request_id corr ref ids db = Inr (reply, db')"
  shows "if rows_on (set ids) (reserved_rows text db) = [] then reply = Release_Already text \<and> db' = db
     else (\<exists>refs. reply = Release_Done text refs \<and> mset refs = image_mset row_ref (mset (rows_on (set ids) (reserved_rows text db)))) \<and>
       fd_stock db' = fd_stock (settle_db Released False (Order_Number text) (set ids) db) \<and>
       fd_reservations db' = fd_reservations (settle_db Released False (Order_Number text) (set ids) db) \<and>
       (\<exists>e. emits [e] db db' \<and> ev_type e = Stock_Released_Fact \<and> ev_correlation e = corr) \<and>
       list_all (\<lambda>r. rw_status r \<noteq> Consumed) (rows_on (set ids) (order_rows text db))"
proof -
  obtain items out items' where lock: "lock_by_ids_for_order ids ref db = Inr items" "length items = length ids"
    and rel: "release_order_stock eid ref (si_company (hd items)) reason corr \<lparr> sx_at = now, sx_causation = request_id \<rparr> items =
      Inr (out, items')"
    and rest: "(case out of Already_Released \<Rightarrow> Inr (Release_Already text, db)
      | Stock_Was_Released refs c \<Rightarrow> bindR (save_all now items' db) (\<lambda>db1. Inr (Release_Done text refs, db1))) = Inr (reply, db')"
    using tx by (auto simp: release_in_transaction_def bindR_Inr split: if_splits)
  obtain rows where rows: "items = map (loaded_item ref db) rows" "set rows = {s \<in> set (fd_stock db). sk_id s \<in> set ids}"
    "distinct (map sk_product rows)" "distinct (map sk_id rows)"
    and ok: "\<forall>it\<in>set items. stock_item_ok it"
    and res: "mset (order_reserved ref items) = image_mset row_reservation (mset (rows_on (set ids) (reserved_rows text db)))"
    and on: "\<forall>r\<in>set (rows_on (set ids) (order_rows text db)). \<exists>it\<in>set items. row_reservation r \<in> set (si_reservations it)"
    by (rule locked_order [OF assms(1,2) lock assms(3)])
  have maps: "map si_id items = map sk_id rows" "map si_product items = map sk_product rows"
    unfolding rows(1) by (simp_all add: loaded_item_def)
  have dist: "distinct (map si_product items)" "distinct (map si_id items)" unfolding maps by (rule rows(3,4))+
  note ev = release_order_stock_eval [OF bspec [OF ok] dist rel]
  show ?thesis
  proof (cases "rows_on (set ids) (reserved_rows text db) = []")
    case True
    then have "order_reserved ref items = []" using res by simp
    then show ?thesis using ev(1) rest True by auto
  next
    case f: False
    then have "order_reserved ref items \<noteq> []" using res by auto
    then obtain c e where out: "out = Stock_Was_Released (map to_ref (order_reserved ref items)) c" "c \<in> si_id ` set items"
      "items' = map (with_event e c) (map (settled_item Released ref 0) items)"
      and e: "ev_type e = Stock_Released_Fact" "ev_correlation e = corr"
      using ev(1) by auto
    let ?h = "\<lambda>s. with_event e c (settled_item Released ref (if False then order_held ref (sk_id s) db else 0) (loaded_item ref db s))"
    have save: "save_all now (map ?h rows) db = Inr db'" and reply: "reply = Release_Done text (map to_ref (order_reserved ref items))"
      using rest unfolding out(1,3) rows(1) by (auto simp: bindR_Inr comp_def)
    have c: "c \<in> set (map sk_id rows)" using out(2) unfolding maps(1) [symmetric] by (simp only: set_map)
    have db': "db' = (settle_db Released False ref (set ids) db)
      \<lparr> fd_outbox := fd_outbox db @ outbox_rows now (fd_next_seq db) (concat (map (si_events \<circ> ?h) rows)),
        fd_next_seq := fd_next_seq db + length (concat (map (si_events \<circ> ?h) rows)) \<rparr>"
      by (rule save_settled [OF assms(1) rows(2) _ save]) blast
    have events: "concat (map (si_events \<circ> ?h) rows) = [e]" by (rule settled_events [OF rows(4) c])
    have "mset (map to_ref (order_reserved ref items)) = image_mset row_ref (mset (rows_on (set ids) (reserved_rows text db)))"
      unfolding mset_map res by (simp add: multiset.map_comp comp_def to_ref_def row_reservation_def row_ref_def [abs_def])
    moreover have "rw_status r \<noteq> Consumed" if r: "r \<in> set (rows_on (set ids) (order_rows text db))" for r
      using bspec [OF on r] ev(2) row_reservation_order [OF rows_on_order [OF r]] assms(2) by force
    ultimately show ?thesis using f reply e unfolding db' events
      by (auto simp: emits_def list_all_iff assms(2) settle_db_def)
  qed
qed

text \<open>C20: A stock.release that returns gives back exactly what the order still holds on the stock rows
  that its read before the transaction named; when that read named every row the order has a
  reservation on, that is all the order holds. When the order has no reserved reservation left on
  these rows the reply is already_released and nothing changes, so a repeat is harmless; otherwise
  every reserved reservation of the order on these rows becomes released and is listed in the reply,
  each of the rows gives the order's units back from its reserved counter and keeps its units, no
  other row and no other reservation changes, one stock.released.v1 is emitted, and no reservation of
  the order on these rows had been consumed.\<close>

theorem stock_release_gives_back:
  assumes "stock_db_ok db_read" "stock_db_ok db"
    and "execute_release now eid text reason request_id corr db_read db = (Inr reply, db')"
  shows "let I = order_stocks text db_read; held = rows_on I (reserved_rows text db); released = settle_db Released False (Order_Number text) I db in
    (order_stocks text db \<subseteq> I \<longrightarrow> held = reserved_rows text db) \<and>
    (if held = [] then reply = Release_Already text \<and> db' = db
     else (\<exists>refs. reply = Release_Done text refs \<and> mset refs = image_mset row_ref (mset held)) \<and>
       fd_stock db' = fd_stock released \<and> fd_reservations db' = fd_reservations released \<and>
       (\<exists>e. emits [e] db db' \<and> ev_type e = Stock_Released_Fact \<and> ev_correlation e = corr) \<and>
       list_all (\<lambda>r. rw_status r \<noteq> Consumed) (rows_on I (order_rows text db)))"
proof -
  obtain ref ids where ref: "parse_order text = Inr ref" and ids: "stock_ids_of_order ref db_read = Inr ids"
    and run: "(if ids = [] then (Inr (Release_Already text), db)
        else unit_of_work (release_in_transaction now eid text reason request_id corr ref ids) db) = (Inr reply, db')"
    using assms(3) by (auto simp: execute_release_def bindR_Inr split: sum.splits)
  have refeq: "ref = Order_Number text" using ref by (simp add: parse_order_Inr)
  have set_ids: "order_stocks text db_read = set ids"
    using stock_ids_of_order_Inr [OF ids assms(1)] by (simp add: refeq)
  have "if rows_on (set ids) (reserved_rows text db) = [] then reply = Release_Already text \<and> db' = db
     else (\<exists>refs. reply = Release_Done text refs \<and> mset refs = image_mset row_ref (mset (rows_on (set ids) (reserved_rows text db)))) \<and>
       fd_stock db' = fd_stock (settle_db Released False (Order_Number text) (set ids) db) \<and>
       fd_reservations db' = fd_reservations (settle_db Released False (Order_Number text) (set ids) db) \<and>
       (\<exists>e. emits [e] db db' \<and> ev_type e = Stock_Released_Fact \<and> ev_correlation e = corr) \<and>
       list_all (\<lambda>r. rw_status r \<noteq> Consumed) (rows_on (set ids) (order_rows text db))"
  proof (cases "ids = []")
    case True
    then show ?thesis using run by (simp add: rows_on_def)
  next
    case False
    then have tx: "release_in_transaction now eid text reason request_id corr ref ids db = Inr (reply, db')"
      using run by (simp add: unit_of_work_Inr)
    then show ?thesis using locked_release [OF assms(2) refeq False] by simp
  qed
  then show ?thesis using rows_on_all [of _ db "set ids"] by (simp add: Let_def set_ids)
qed

lemma stock_db_ok_tables:
  "\<lbrakk> stock_db_ok db; fd_stock db' = fd_stock db; fd_reservations db' = fd_reservations db \<rbrakk> \<Longrightarrow> stock_db_ok db'"
  by (simp add: stock_db_ok_def)

lemma next_despatch_reference_Inr:
  "next_despatch_reference db = Inr (dref, db1) \<Longrightarrow> \<exists>v. db1 = db \<lparr> fd_sequence := Some v \<rparr>"
  by (auto simp: next_despatch_reference_def Let_def bindR_Inr split: if_splits)

lemma save_despatch_Inr:
  assumes "save_despatch now fresh d db = Inr db'"
  shows "db' = db \<lparr> fd_despatches := fd_despatches db @ [to_despatch_table_row d],
      fd_despatch_items := fd_despatch_items db @ to_despatch_item_rows fresh d,
      fd_outbox := fd_outbox db @ outbox_rows now (fd_next_seq db) (da_events d),
      fd_next_seq := fd_next_seq db + length (da_events d) \<rparr>"
    and "order_number_value (da_order d) \<notin> dv_order ` set (fd_despatches db)"
proof -
  have rec: "record_stock_outbox now (da_events d) (db \<lparr> fd_despatches := fd_despatches db @ [to_despatch_table_row d],
      fd_despatch_items := fd_despatch_items db @ to_despatch_item_rows fresh d \<rparr>) = Inr db'"
    and fresh: "\<not> list_ex (\<lambda>r. dv_order r = dv_order (to_despatch_table_row d)) (fd_despatches db)"
    using assms by (auto simp: save_despatch_def Let_def split: if_splits)
  show "db' = db \<lparr> fd_despatches := fd_despatches db @ [to_despatch_table_row d],
      fd_despatch_items := fd_despatch_items db @ to_despatch_item_rows fresh d,
      fd_outbox := fd_outbox db @ outbox_rows now (fd_next_seq db) (da_events d),
      fd_next_seq := fd_next_seq db + length (da_events d) \<rparr>"
    using record_stock_outbox_Inr [OF rec] by simp
  show "order_number_value (da_order d) \<notin> dv_order ` set (fd_despatches db)"
    using fresh by (auto simp: list_ex_iff to_despatch_table_row_def)
qed

definition row_units :: "reservation_row \<Rightarrow> units_line" where
  "row_units r = \<lparr> ul_product = rw_product r, ul_units = rw_units r \<rparr>"

lemma create_despatch_eval:
  assumes "\<And>it. it \<in> set items \<Longrightarrow> stock_item_ok it"
    and "create_despatch_for_order fresh ref company retailer corr dref ctx items = Inr (Some d, items')"
  shows "map despatch_line_of (da_lines d) = map (\<lambda>r. \<lparr> ul_product = rv_product r, ul_units = q_value (rv_units r) \<rparr>) (order_reserved ref items)"
    and "da_order d = ref" "da_reference d = dref"
    and "\<exists>e. da_events d = [e] \<and> ev_type e = Order_Despatched \<and> ev_correlation e = corr"
    and "items' = map (\<lambda>it. settled_item Consumed ref (held_units (filter (mine ref) (si_reservations it))) it) items"
    and "\<And>it r. \<lbrakk> it \<in> set items; r \<in> set (si_reservations it); rv_order r = ref \<rbrakk> \<Longrightarrow> rv_status r \<noteq> Released"
proof -
  obtain xs where xs: "consume_items ref items = Inr xs"
    and d: "create_despatch_advice (fresh 0) (fresh 1) dref (sx_at ctx) ref company retailer
      (concat (map (\<lambda>(rs, _). map (\<lambda>r. \<lparr> dl_product = rv_product r, dl_units = rv_units r \<rparr>) rs) xs)) corr ctx = Inr d"
    and items': "items' = map snd xs"
    using assms(2) by (auto simp: create_despatch_for_order_def bindR_Inr Let_def split: if_splits)
  note ev = consume_items_eval [OF assms(1) xs]
  show "\<And>it r. \<lbrakk> it \<in> set items; r \<in> set (si_reservations it); rv_order r = ref \<rbrakk> \<Longrightarrow> rv_status r \<noteq> Released" by (rule ev(2))
  show "items' = map (\<lambda>it. settled_item Consumed ref (held_units (filter (mine ref) (si_reservations it))) it) items"
    unfolding items' using ev(1) by simp
  show "da_order d = ref" "da_reference d = dref"
    "\<exists>e. da_events d = [e] \<and> ev_type e = Order_Despatched \<and> ev_correlation e = corr"
    using d by (auto simp: create_despatch_advice_def Let_def order_despatched_event_def split: if_splits)
  have "da_lines d = concat (map (\<lambda>(rs, _). map (\<lambda>r. \<lparr> dl_product = rv_product r, dl_units = rv_units r \<rparr>) rs) xs)"
    using d by (auto simp: create_despatch_advice_def Let_def split: if_splits)
  then show "map despatch_line_of (da_lines d) = map (\<lambda>r. \<lparr> ul_product = rv_product r, ul_units = q_value (rv_units r) \<rparr>) (order_reserved ref items)"
    using ev(1) by (simp add: order_reserved_def map_concat comp_def despatch_line_of_def)
qed

lemma find_despatch_Some:
  "find_despatch ref db = Inr (Some s) \<Longrightarrow> \<exists>row\<in>set (fd_despatches db). dv_order row = order_number_value ref \<and>
    dn_reference s = dv_reference row \<and> dn_order s = dv_order row"
  by (auto simp: find_despatch_def bindR_Inr to_despatch_snapshot_def find_Some_iff split: option.splits)

lemma despatch_in_transaction_Inr:
  assumes "despatch_in_transaction now fresh text request_id corr ref ids db = Inr (reply, db')"
  obtains (existing) items s where "lock_by_ids_for_order ids ref db = Inr items" "length items = length ids"
      "find_despatch ref db = Inr (Some s)" "reply = reply_from_snapshot s False" "db' = db"
  | (created) items first dref db1 d items' db2 where
      "lock_by_ids_for_order ids ref db = Inr items" "length items = length ids"
      "first \<in> set (reservations_for ref items)" "rv_status first = Reserved"
      "next_despatch_reference db = Inr (dref, db1)"
      "create_despatch_for_order fresh ref (si_company (hd items)) (rv_retailer first) corr dref
        \<lparr> sx_at = now, sx_causation = request_id \<rparr> items = Inr (Some d, items')"
      "save_all now items' db1 = Inr db2" "save_despatch now fresh d db2 = Inr db'"
      "reply = \<lparr> dy_order = text, dy_reference = despatch_reference_value dref, dy_date = now,
        dy_created = True, dy_lines = map despatch_line_of (da_lines d) \<rparr>"
proof -
  obtain items where lock: "lock_by_ids_for_order ids ref db = Inr items" "length items = length ids"
    using assms by (auto simp: despatch_in_transaction_def bindR_Inr split: if_splits)
  show thesis
  proof (cases "find (\<lambda>r. rv_status r = Reserved) (reservations_for ref items)")
    case None
    then show thesis using assms lock existing
      by (auto simp: despatch_in_transaction_def bindR_Inr Let_def split: if_splits option.splits)
  next
    case (Some first)
    then have "first \<in> set (reservations_for ref items)" "rv_status first = Reserved"
      by (auto simp: find_Some_iff)
    then show thesis using assms lock Some
      by (auto simp: despatch_in_transaction_def bindR_Inr Let_def split: option.splits intro: created)
  qed
qed

lemma locked_despatch:
  assumes "stock_db_ok db" "ref = Order_Number text" "ids \<noteq> []"
    and "lock_by_ids_for_order ids ref db = Inr items" "length items = length ids"
      "first \<in> set (reservations_for ref items)" "rv_status first = Reserved"
      "next_despatch_reference db = Inr (dref, db1)"
      "create_despatch_for_order fresh ref (si_company (hd items)) (rv_retailer first) corr dref
        \<lparr> sx_at = now, sx_causation = request_id \<rparr> items = Inr (Some d, items')"
      "save_all now items' db1 = Inr db2" "save_despatch now fresh d db2 = Inr db'"
      "reply = \<lparr> dy_order = text, dy_reference = despatch_reference_value dref, dy_date = now,
        dy_created = True, dy_lines = map despatch_line_of (da_lines d) \<rparr>"
  shows "rows_on (set ids) (reserved_rows text db) \<noteq> [] \<and>
    list_all (\<lambda>r. rw_status r \<noteq> Released) (rows_on (set ids) (order_rows text db)) \<and>
    text \<notin> dv_order ` set (fd_despatches db) \<and>
    mset (dy_lines reply) = image_mset row_units (mset (rows_on (set ids) (reserved_rows text db))) \<and>
    fd_stock db' = fd_stock (settle_db Consumed True (Order_Number text) (set ids) db) \<and>
    fd_reservations db' = fd_reservations (settle_db Consumed True (Order_Number text) (set ids) db) \<and>
    (\<exists>row. fd_despatches db' = fd_despatches db @ [row] \<and> dv_order row = text \<and> dv_reference row = dy_reference reply) \<and>
    (\<exists>e. emits [e] db db' \<and> ev_type e = Order_Despatched \<and> ev_correlation e = corr)"
proof -
  note lock = assms(4,5) and first = assms(6,7) and dn = assms(8) and cr = assms(9)
    and sv = assms(10) and sd = assms(11) and reply = assms(12) and refeq = assms(2)
  obtain rows where rows: "items = map (loaded_item ref db) rows" "set rows = {s \<in> set (fd_stock db). sk_id s \<in> set ids}"
    "distinct (map sk_product rows)" "distinct (map sk_id rows)"
    and ok: "\<forall>it\<in>set items. stock_item_ok it"
    and res: "mset (order_reserved ref items) = image_mset row_reservation (mset (rows_on (set ids) (reserved_rows text db)))"
    and on: "\<forall>r\<in>set (rows_on (set ids) (order_rows text db)). \<exists>it\<in>set items. row_reservation r \<in> set (si_reservations it)"
    by (rule locked_order [OF assms(1,2) lock assms(3)])
  obtain v where db1: "db1 = db \<lparr> fd_sequence := Some v \<rparr>" using next_despatch_reference_Inr [OF dn] by blast
  have ok1: "stock_db_ok db1" using assms(1) by (rule stock_db_ok_tables) (simp_all add: db1)
  note ce = create_despatch_eval [OF bspec [OF ok] cr]
  let ?h = "\<lambda>s. settled_item Consumed ref (if True then order_held ref (sk_id s) db1 else 0) (loaded_item ref db1 s)"
  have held: "order_held ref i db1 = order_held ref i db" and load: "loaded_item ref db1 = loaded_item ref db" for i
    by (simp_all add: db1 order_held_def loaded_item_def fun_eq_iff)
  have items': "items' = map ?h rows"
    using ce(5) by (simp add: rows(1) held load order_held_loaded comp_def)
  have rows1: "set rows = {r \<in> set (fd_stock db1). sk_id r \<in> set ids}" using rows(2) by (simp add: db1)
  have db2: "db2 = (settle_db Consumed True ref (set ids) db1)
    \<lparr> fd_outbox := fd_outbox db1 @ outbox_rows now (fd_next_seq db1) (concat (map (si_events \<circ> ?h) rows)),
      fd_next_seq := fd_next_seq db1 + length (concat (map (si_events \<circ> ?h) rows)) \<rparr>"
    by (rule save_settled [OF ok1 rows1 _ sv [unfolded items']]) blast
  have quiet: "concat (map (si_events \<circ> ?h) rows) = []" by (simp add: settled_item_def loaded_item_def)
  have tables: "fd_stock db' = fd_stock (settle_db Consumed True ref (set ids) db)"
    "fd_reservations db' = fd_reservations (settle_db Consumed True ref (set ids) db)"
    "fd_despatches db' = fd_despatches db @ [to_despatch_table_row d]"
    unfolding save_despatch_Inr(1) [OF sd] db2 by (simp_all add: settle_db_def db1 order_held_def)
  have new: "text \<notin> dv_order ` set (fd_despatches db)"
    using save_despatch_Inr(2) [OF sd] unfolding db2 by (simp add: ce(2) refeq settle_db_def db1)
  have lines: "mset (dy_lines reply) = image_mset row_units (mset (rows_on (set ids) (reserved_rows text db)))"
    unfolding reply by (simp add: ce(1) res multiset.map_comp comp_def row_reservation_def row_units_def [abs_def])
  have ne': "rows_on (set ids) (reserved_rows text db) \<noteq> []"
  proof -
    have "first \<in> set (order_reserved ref items)"
      using first by (auto simp: reservations_for_def order_reserved_def mine_def)
    then show ?thesis using res by (metis empty_iff list.set(1) mset.simps(1) image_mset_empty mset_zero_iff)
  qed
  have unreleased: "rw_status r \<noteq> Released" if r: "r \<in> set (rows_on (set ids) (order_rows text db))" for r
    using bspec [OF on r] ce(6) row_reservation_order [OF rows_on_order [OF r]] refeq by force
  obtain e where e: "da_events d = [e]" "ev_type e = Order_Despatched" "ev_correlation e = corr" using ce(4) by blast
  have "emits [e] db db'"
    unfolding save_despatch_Inr(1) [OF sd] db2 quiet emits_def by (simp add: e(1) settle_db_def db1)
  moreover have "dv_order (to_despatch_table_row d) = text" "dv_reference (to_despatch_table_row d) = dy_reference reply"
    by (simp_all add: to_despatch_table_row_def ce(2,3) refeq reply)
  ultimately show ?thesis using tables new lines ne' unreleased e(2,3)
    by (simp add: reply refeq list_all_iff) blast
qed

text \<open>C21: A despatch.create that returns either ships the order or names its existing despatch. What it
  ships is what the order has reserved on the stock rows that its read before the transaction named;
  when that read named every row the order has a reservation on, that is all the order has reserved.
  When it created a despatch, the order had reserved reservations on these rows, none released
  there, and no despatch before; all of them become consumed, their units leave both the stock and
  the reserved counter of the rows, no other row and no other reservation changes, the lines are
  exactly these reservations, and one order.despatched.v1 is emitted. Otherwise nothing changes and
  the reference is that of a despatch already stored for the order.\<close>

theorem despatch_ships_reserved:
  assumes "stock_db_ok db_read" "stock_db_ok db"
    and "execute_despatch now fresh text request_id corr db_read db = (Inr reply, db')"
  shows "let I = order_stocks text db_read; held = rows_on I (reserved_rows text db); shipped = settle_db Consumed True (Order_Number text) I db in
    (order_stocks text db \<subseteq> I \<longrightarrow> held = reserved_rows text db) \<and>
    (if dy_created reply
     then held \<noteq> [] \<and> list_all (\<lambda>r. rw_status r \<noteq> Released) (rows_on I (order_rows text db)) \<and>
       text \<notin> dv_order ` set (fd_despatches db) \<and>
       mset (dy_lines reply) = image_mset row_units (mset held) \<and>
       fd_stock db' = fd_stock shipped \<and> fd_reservations db' = fd_reservations shipped \<and>
       (\<exists>row. fd_despatches db' = fd_despatches db @ [row] \<and> dv_order row = text \<and> dv_reference row = dy_reference reply) \<and>
       (\<exists>e. emits [e] db db' \<and> ev_type e = Order_Despatched \<and> ev_correlation e = corr)
     else db' = db \<and> (\<exists>row\<in>set (fd_despatches db_read) \<union> set (fd_despatches db).
       dv_order row = text \<and> dv_reference row = dy_reference reply))"
proof -
  obtain ref where ref: "parse_order text = Inr ref"
    using assms(3) by (auto simp: execute_despatch_def split: sum.splits)
  have refeq: "ref = Order_Number text" using ref by (simp add: parse_order_Inr)
  obtain found where found: "find_despatch ref db_read = Inr found"
    using assms(3) ref by (auto simp: execute_despatch_def split: sum.splits)
  have all: "order_stocks text db \<subseteq> I \<longrightarrow> rows_on I (reserved_rows text db) = reserved_rows text db" for I
    using rows_on_all by blast
  show ?thesis
  proof (cases found)
    case (Some s)
    then have "reply = reply_from_snapshot s False" "db' = db"
      using assms(3) ref found by (simp_all add: execute_despatch_def)
    then show ?thesis using find_despatch_Some [of ref db_read s] found Some all
      by (auto simp: reply_from_snapshot_def refeq Let_def)
  next
    case None
    obtain ids where ids: "stock_ids_of_order ref db_read = Inr ids" and ne: "ids \<noteq> []"
      and tx: "despatch_in_transaction now fresh text request_id corr ref ids db = Inr (reply, db')"
      using assms(3) ref found None by (auto simp: execute_despatch_def unit_of_work_Inr split: sum.splits list.splits)
    have set_ids: "order_stocks text db_read = set ids"
      using stock_ids_of_order_Inr [OF ids assms(1)] by (simp add: refeq)
    from tx show ?thesis
    proof (cases rule: despatch_in_transaction_Inr)
      case (existing items s)
      then show ?thesis using find_despatch_Some [of ref db s] all by (auto simp: reply_from_snapshot_def refeq Let_def)
    next
      case created
      show ?thesis
        using locked_despatch [OF assms(2) refeq ne created] all created(9) by (simp add: Let_def set_ids)
    qed
  qed
qed

section \<open>Replenishment\<close>

definition topped_item :: "(stock_row \<Rightarrow> int) \<Rightarrow> stock_row \<Rightarrow> stock_item" where
  "topped_item u s = \<lparr> si_id = sk_id s, si_company = sk_company s, si_product = sk_product s, si_units = u s,
     si_reserved = sk_reserved s, si_threshold = sk_threshold s, si_reservations = [], si_events = [] \<rparr>"

definition supplied :: "string \<Rightarrow> units_line list \<Rightarrow> int" where
  "supplied p ls = sum_list (map (\<lambda>l. if ul_product l = p then ul_units l else 0) ls)"

text \<open>A running total is exact as long as it is a safe integer, and never falls back to one.\<close>

definition tops :: "int \<Rightarrow> int \<Rightarrow> bool" where
  "tops v u \<longleftrightarrow> (v \<le> max_safe \<longrightarrow> u = v) \<and> (max_safe < v \<longrightarrow> max_safe < u)"

lemma tops_step:
  assumes "tops v u" "0 \<le> v" "0 < q"
  shows "tops (v + q) (js_round (u + q))"
proof (cases "v + q \<le> max_safe")
  case True
  then have "u = v" "is_safe (v + q)" using assms by (auto simp: tops_def is_safe_def)
  then show ?thesis using True by (simp add: tops_def)
next
  case False
  then have "max_safe < u + q" using assms by (cases "v \<le> max_safe") (auto simp: tops_def)
  moreover have "0 < max_safe" by (simp add: max_safe_def)
  ultimately have "\<not> is_safe (u + q)" "0 \<le> js_round (u + q)" by (auto simp: is_safe_def intro: js_round_nonneg)
  then have "max_safe < js_round (u + q)"
    using js_round_safe_iff [of "u + q"] by (simp add: is_safe_def del: js_round_safe_iff)
  then show ?thesis using False by (simp add: tops_def)
qed

lemma update_topped:
  assumes "distinct (map sk_product rows)" "s0 \<in> set rows"
  shows "AList.update (sk_product s0) (topped_item (u(s0 := x)) s0) (map (\<lambda>s. (sk_product s, topped_item u s)) rows) =
    map (\<lambda>s. (sk_product s, topped_item (u(s0 := x)) s)) rows"
  using assms
proof (induction rows)
  case (Cons s rows)
  show ?case
  proof (cases "s = s0")
    case True
    have "map (\<lambda>s. (sk_product s, topped_item (u(s0 := x)) s)) rows = map (\<lambda>s. (sk_product s, topped_item u s)) rows"
      using Cons.prems(1) True by (auto simp: topped_item_def)
    then show ?thesis using True by (simp del: fun_upd_apply)
  next
    case False
    then have "sk_product s \<noteq> sk_product s0" using Cons.prems by (auto simp: image_iff)
    moreover have "topped_item (u(s0 := x)) s = topped_item u s" using False by (simp add: topped_item_def)
    ultimately show ?thesis using Cons False by (simp del: fun_upd_apply)
  qed
qed simp

lemma replenish_fold:
  assumes "foldR (\<lambda>m l. bindR (mapErr Stock_Kernel_Error (quantity_of (Js_Int (ul_units l)))) (\<lambda>q.
         Inr (AList.update (ul_product l) (replenish_stock q (the (map_of m (ul_product l)))) m)))
       (map (\<lambda>s. (sk_product s, topped_item u s)) rows) ls = Inr m'"
    and "distinct (map sk_product rows)" "\<forall>l\<in>set ls. ul_product l \<in> sk_product ` set rows"
    and "\<forall>s\<in>set rows. 0 \<le> v s \<and> tops (v s) (u s)"
  shows "\<exists>u'. m' = map (\<lambda>s. (sk_product s, topped_item u' s)) rows \<and>
    (\<forall>s\<in>set rows. tops (v s + supplied (sk_product s) ls) (u' s)) \<and> list_all (\<lambda>l. 0 < ul_units l) ls"
  using assms
proof (induction ls arbitrary: u v)
  case Nil
  then show ?case by (auto simp: supplied_def)
next
  case (Cons l ls)
  obtain s0 where s0: "s0 \<in> set rows" "sk_product s0 = ul_product l" using Cons.prems(3) by auto
  have q: "0 < ul_units l" using Cons.prems(1) by (auto simp: bindR_Inr quantity_of_Inr quantity_of_def split: if_splits)
  let ?u = "u(s0 := js_round (u s0 + ul_units l))" and ?v = "\<lambda>s. v s + (if s = s0 then ul_units l else 0)"
  have "map_of (map (\<lambda>s. (sk_product s, topped_item u s)) rows) (ul_product l) = Some (topped_item u s0)"
  proof (rule map_of_is_SomeI)
    show "(ul_product l, topped_item u s0) \<in> set (map (\<lambda>s. (sk_product s, topped_item u s)) rows)"
      unfolding s0(2) [symmetric] using s0(1) by simp
  qed (use Cons.prems(2) in \<open>simp add: comp_def\<close>)
  moreover have "replenish_stock (Quantity (ul_units l)) (topped_item u s0) = topped_item ?u s0"
    by (simp add: replenish_stock_def topped_item_def)
  ultimately have step: "foldR (\<lambda>m l. bindR (mapErr Stock_Kernel_Error (quantity_of (Js_Int (ul_units l)))) (\<lambda>q.
         Inr (AList.update (ul_product l) (replenish_stock q (the (map_of m (ul_product l)))) m)))
       (map (\<lambda>s. (sk_product s, topped_item ?u s)) rows) ls = Inr m'"
    using Cons.prems(1) q update_topped [OF Cons.prems(2) s0(1), of u] s0(2) by (simp add: quantity_of_def)
  have "\<forall>s\<in>set rows. 0 \<le> ?v s \<and> tops (?v s) (?u s)"
    using Cons.prems(4) q tops_step by simp
  from Cons.IH [OF step Cons.prems(2) _ this] Cons.prems(3)
  obtain u' where u': "m' = map (\<lambda>s. (sk_product s, topped_item u' s)) rows"
    "\<forall>s\<in>set rows. tops (?v s + supplied (sk_product s) ls) (u' s)" "list_all (\<lambda>l. 0 < ul_units l) ls" by auto
  have same: "?v s + supplied (sk_product s) ls = v s + supplied (sk_product s) (l # ls)" if "s \<in> set rows" for s
  proof -
    have "s = s0 \<longleftrightarrow> sk_product s = ul_product l"
      using that s0 Cons.prems(2) unfolding distinct_map by (metis inj_onD)
    then show ?thesis by (auto simp: supplied_def)
  qed
  have "\<forall>s\<in>set rows. tops (v s + supplied (sk_product s) (l # ls)) (u' s)"
  proof
    fix s assume s: "s \<in> set rows"
    then have "tops (?v s + supplied (sk_product s) ls) (u' s)" using u'(2) by blast
    then show "tops (v s + supplied (sk_product s) (l # ls)) (u' s)" unfolding same [OF s] .
  qed
  then show ?case using u'(1,3) q by (intro exI [of _ u']) simp
qed

lemma concat_map_nil [simp]: "concat (map (\<lambda>x. []) xs) = []"
  by (induction xs) simp_all

lemma lock_by_product_codes_eval:
  assumes "stock_db_ok db"
  shows "lock_by_product_codes company products db =
    Inr (map (\<lambda>s. (sk_product s, topped_item sk_units s)) (company_rows company products db))"
  unfolding lock_by_product_codes_def company_rows_def [symmetric]
proof (rule to_item_map_eval)
  show "distinct (map sk_product (company_rows company products db))" by (rule company_rows_facts(2) [OF assms])
  fix s assume "s \<in> set (company_rows company products db)"
  then have s: "s \<in> set (fd_stock db)" using company_rows_facts(1) [OF assms] by blast
  then have "0 \<le> sk_units s" "0 \<le> sk_reserved s" "sk_reserved s \<le> sk_units s" "unique_id_from (sk_id s) = Inr (sk_id s)"
    using stock_item_ok_bounds [OF loaded_item_ok [OF assms s, of undefined]] assms
    by (auto simp: loaded_item_def stock_db_ok_def list_all_iff)
  then show "reconstitute_stock_item s (filter (\<lambda>r. rw_stock r = sk_id s) []) = Inr (topped_item sk_units s)"
    by (simp add: reconstitute_stock_item_def to_stock_snapshot_def reconstitute_stock_def topped_item_def)
qed

lemma replenish_outcome:
  assumes "stock_db_ok db" "execute_replenish now company ls db = (Inr views, db')"
  shows "list_all (\<lambda>l. 0 < ul_units l \<and> list_ex (\<lambda>s. sk_company s = company \<and> sk_product s = ul_product l) (fd_stock db)) ls \<and>
    db' = db \<lparr> fd_stock := map (\<lambda>s. if sk_company s = company
      then s \<lparr> sk_units := sk_units s + supplied (sk_product s) ls \<rparr> else s) (fd_stock db) \<rparr> \<and>
    list_all (\<lambda>s. fits_int (sk_units s)) (fd_stock db')"
proof -
  let ?rows = "company_rows company (remdups (map ul_product ls)) db"
  let ?m = "map (\<lambda>s. (sk_product s, topped_item sk_units s)) ?rows"
  note rows = company_rows_facts [OF assms(1), of company "remdups (map ul_product ls)"]
  obtain m' where known: "find (\<lambda>l. map_of ?m (ul_product l) = None) ls = None"
    and fold: "foldR (\<lambda>m l. bindR (mapErr Stock_Kernel_Error (quantity_of (Js_Int (ul_units l)))) (\<lambda>q.
         Inr (AList.update (ul_product l) (replenish_stock q (the (map_of m (ul_product l)))) m))) ?m ls = Inr m'"
    and save: "save_all now (map snd m') db = Inr db'"
    using assms(2) unfolding execute_replenish_def unit_of_work_Inr replenish_in_transaction_def
      lock_by_product_codes_eval [OF assms(1)] bindR_simps
    by (auto simp: bindR_Inr split: option.splits)
  have products: "\<forall>l\<in>set ls. ul_product l \<in> sk_product ` set ?rows"
    using known by (auto simp: find_None_iff map_of_eq_None_iff image_image)
  have pos: "\<forall>s\<in>set ?rows. 0 \<le> sk_units s \<and> tops (sk_units s) (sk_units s)"
    using stock_item_ok_bounds(3) [OF loaded_item_ok [OF assms(1)]] rows(1) by (auto simp: loaded_item_def tops_def)
  obtain u where m': "m' = map (\<lambda>s. (sk_product s, topped_item u s)) ?rows"
    and u: "\<forall>s\<in>set ?rows. tops (sk_units s + supplied (sk_product s) ls) (u s)" and q: "list_all (\<lambda>l. 0 < ul_units l) ls"
    using replenish_fold [OF fold rows(2) products pos] by blast
  have items: "map snd m' = map (topped_item u) ?rows" by (simp add: m' comp_def)
  note sv = save_all_Inr [OF save [unfolded items]]
  have exact: "u s = sk_units s + supplied (sk_product s) ls" if "s \<in> set ?rows" for s
  proof -
    have "fits_int (u s)" using sv(2) that by (auto simp: topped_item_def)
    then have "u s \<le> max_safe" by (simp add: fits_int_def max_safe_def)
    then show ?thesis using u that by (auto simp: tops_def)
  qed
  have other: "supplied (sk_product s) ls = 0" if "s \<notin> set ?rows" "s \<in> set (fd_stock db)" "sk_company s = company" for s
  proof -
    have "sk_product s \<notin> ul_product ` set ls" using that rows(1) by auto
    then show ?thesis by (induction ls) (auto simp: supplied_def)
  qed
  have f: "si_id (topped_item u s) = sk_id s \<and> si_company (topped_item u s) = sk_company s \<and>
      si_product (topped_item u s) = sk_product s \<and> si_threshold (topped_item u s) = sk_threshold s" for s
    by (simp add: topped_item_def)
  have "set ?rows \<subseteq> set (fd_stock db)" using rows(1) by blast
  from upsert_stock_rows [OF assms(1) this f]
  have "fold upsert_stock (map to_stock_table_row (map (topped_item u) ?rows)) (fd_stock db) =
      map (\<lambda>s. if s \<in> set ?rows then s \<lparr> sk_units := si_units (topped_item u s), sk_reserved := si_reserved (topped_item u s) \<rparr> else s) (fd_stock db)" .
  also have "\<dots> = map (\<lambda>s. if sk_company s = company then s \<lparr> sk_units := sk_units s + supplied (sk_product s) ls \<rparr> else s) (fd_stock db)"
    using exact other rows(1) by (auto simp: topped_item_def)
  finally have "db' = db \<lparr> fd_stock := map (\<lambda>s. if sk_company s = company
      then s \<lparr> sk_units := sk_units s + supplied (sk_product s) ls \<rparr> else s) (fd_stock db) \<rparr>"
    using sv(1) by (simp add: topped_item_def to_reservation_table_rows_def comp_def)
  moreover have "\<exists>s\<in>set (fd_stock db). sk_company s = company \<and> sk_product s = ul_product l" if l: "l \<in> set ls" for l
  proof -
    obtain s where "s \<in> set ?rows" "ul_product l = sk_product s" using products l by blast
    then show ?thesis using rows(1) by auto
  qed
  moreover have "fits_int (sk_units s)" if "s \<in> set (fd_stock db')" for s
  proof -
    have "fd_stock db' = map (\<lambda>s. if sk_company s = company
        then s \<lparr> sk_units := sk_units s + supplied (sk_product s) ls \<rparr> else s) (fd_stock db)"
      using calculation(1) by simp
    with that have "s \<in> (\<lambda>s. if sk_company s = company
        then s \<lparr> sk_units := sk_units s + supplied (sk_product s) ls \<rparr> else s) ` set (fd_stock db)"
      by (simp only: set_map)
    then obtain t where t: "t \<in> set (fd_stock db)"
      "s = (if sk_company t = company then t \<lparr> sk_units := sk_units t + supplied (sk_product t) ls \<rparr> else t)"
      by (rule imageE)
    have "fits_int (sk_units t)" using t(1) assms(1) by (auto simp: stock_db_ok_def list_all_iff)
    moreover have "fits_int (sk_units t + supplied (sk_product t) ls)" if "t \<in> set ?rows"
      using sv(2) that exact [OF that] by (auto simp: topped_item_def)
    ultimately show ?thesis using t other by (cases "t \<in> set ?rows") auto
  qed
  ultimately show ?thesis using q by (auto simp: list_all_iff list_ex_iff)
qed

text \<open>A stock.replenish that returns adds to every stock row of the company exactly the units its
  lines name, with no rounding, and touches no counter, no reservation and no event; a line naming
  a product the company does not stock, or a quantity that is not positive, refuses the whole
  request.\<close>

theorem stock_replenish_exact:
  assumes "stock_db_ok db" "execute_replenish now company ls db = (Inr views, db')"
  shows "list_all (\<lambda>l. 0 < ul_units l \<and> list_ex (\<lambda>s. sk_company s = company \<and> sk_product s = ul_product l) (fd_stock db)) ls \<and>
    db' = db \<lparr> fd_stock := map (\<lambda>s. if sk_company s = company
      then s \<lparr> sk_units := sk_units s + supplied (sk_product s) ls \<rparr> else s) (fd_stock db) \<rparr>"
  using replenish_outcome [OF assms] by blast

section \<open>The steps of the service\<close>

inductive fulfillment_step :: "fulfillment_db \<Rightarrow> fulfillment_db \<Rightarrow> bool" where
  step_reserve: "stock_fresh fresh (length (rq_lines req)) db \<Longrightarrow>
    fulfillment_step db (snd (execute_reserve now fresh req request_id corr db))"
| step_release: "fulfillment_step db (snd (execute_release now eid text reason request_id corr db_read db))"
| step_despatch: "fulfillment_step db (snd (execute_despatch now fresh text request_id corr db_read db))"
| step_replenish: "fulfillment_step db (snd (execute_replenish now company ls db))"

lemma reserve_keeps_ok:
  assumes "stock_db_ok db" "stock_fresh fresh (length (rq_lines req)) db"
    and "execute_reserve now fresh req request_id corr db = (Inr reply, db')"
  shows "stock_db_ok db'"
proof -
  note cases = stock_reserve_outcomes [OF assms]
  obtain ref where ref: "parse_order (rq_reference req) = Inr ref"
    and tx: "reserve_in_transaction now fresh req request_id corr ref db = Inr (reply, db')"
    using assms(3) by (auto simp: execute_reserve_def unit_of_work_Inr split: sum.splits)
  show ?thesis
  proof (cases "holds_nothing req db \<and> can_supply req db")
    case True
    then obtain ls where ls: "reserve_lines_of (rq_lines req) = Inr ls"
      using reserve_in_transaction_eval [OF assms(1) conjunct2 [OF parse_order_value [OF ref]] tx] by blast
    note l = reserve_lines_of_Inr [OF ls] and rows = request_rows_facts [OF assms(1), of req]
    have lseq: "ls = map (\<lambda>l. \<lparr> rl_product = ul_product l, rl_units = Quantity (ul_units l) \<rparr>) (rq_lines req)"
      using l by (intro lines_of_request) simp
    have fits: "sk_reserved s + line_total (sk_product s) ls \<le> sk_units s" if "s \<in> set (request_rows req db)" for s
    proof -
      have "loaded_item ref db s \<in> set (map (loaded_item ref db) (request_rows req db))" using that by simp
      from not_short_fits [OF loaded_items_ok [OF assms(1) rows(1,2)] _ this, of ls]
      show ?thesis using True can_supply_iff [OF assms(1) conjunct2 [OF l]]
        by (simp add: loaded_item_def)
    qed
    have "stock_db_ok (book_db fresh ref (rq_retailer req) ls (request_rows req db) db)"
      using assms(2) l parse_order_value [OF ref]
      by (intro book_db_ok [OF assms(1) _ _ _ rows fits]) (auto simp: lseq)
    moreover have "ref = Order_Number (rq_reference req)" using ref by (simp add: parse_order_Inr)
    ultimately have "stock_db_ok (booked_db fresh req db)" by (simp add: booked_db_def lseq)
    moreover have "fd_stock db' = fd_stock (booked_db fresh req db)" "fd_reservations db' = fd_reservations (booked_db fresh req db)"
      using cases True by simp_all
    ultimately show ?thesis by (rule stock_db_ok_tables)
  next
    case False
    then have "fd_stock db' = fd_stock db \<and> fd_reservations db' = fd_reservations db"
      using cases by (cases "holds_nothing req db") simp_all
    then show ?thesis using assms(1) by (blast intro: stock_db_ok_tables)
  qed
qed

lemma release_keeps_ok:
  assumes "stock_db_ok db" "ids \<noteq> []"
    and "release_in_transaction now eid text reason request_id corr ref ids db = Inr (reply, db')"
  shows "stock_db_ok db'"
proof -
  obtain items out items' where lock: "lock_by_ids_for_order ids ref db = Inr items" "length items = length ids"
    and rel: "release_order_stock eid ref (si_company (hd items)) reason corr \<lparr> sx_at = now, sx_causation = request_id \<rparr> items =
      Inr (out, items')"
    and rest: "(case out of Already_Released \<Rightarrow> Inr (Release_Already text, db)
      | Stock_Was_Released refs c \<Rightarrow> bindR (save_all now items' db) (\<lambda>db1. Inr (Release_Done text refs, db1))) = Inr (reply, db')"
    using assms(3) by (auto simp: release_in_transaction_def bindR_Inr split: if_splits)
  obtain rows where rows: "items = map (loaded_item ref db) rows" "set rows = {s \<in> set (fd_stock db). sk_id s \<in> set ids}"
    "distinct (map sk_product rows)" "distinct (map sk_id rows)"
    using lock_by_ids_eval [OF assms(1) lock assms(2)] by blast
  have ok: "\<forall>it\<in>set items. stock_item_ok it" using rows(1,2) loaded_item_ok [OF assms(1)] by auto
  have dist: "distinct (map si_product items)" "distinct (map si_id items)"
    using rows(1,3,4) by (simp_all add: loaded_item_def comp_def)
  note ev = release_order_stock_eval(1) [OF bspec [OF ok] dist rel]
  show ?thesis
  proof (cases "order_reserved ref items = []")
    case True
    then show ?thesis using ev rest assms(1) by simp
  next
    case False
    then obtain c e where out: "out = Stock_Was_Released (map to_ref (order_reserved ref items)) c"
      "items' = map (with_event e c) (map (settled_item Released ref 0) items)" using ev by auto
    let ?h = "\<lambda>s. with_event e c (settled_item Released ref (if False then order_held ref (sk_id s) db else 0) (loaded_item ref db s))"
    have save: "save_all now (map ?h rows) db = Inr db'"
      using rest unfolding out rows(1) by (auto simp: bindR_Inr comp_def)
    have db': "db' = (settle_db Released False ref (set ids) db)
        \<lparr> fd_outbox := fd_outbox db @ outbox_rows now (fd_next_seq db) (concat (map (si_events \<circ> ?h) rows)),
          fd_next_seq := fd_next_seq db + length (concat (map (si_events \<circ> ?h) rows)) \<rparr>"
      by (rule save_settled [OF assms(1) rows(2) _ save]) blast
    have "stock_db_ok (settle_db Released False ref (set ids) db)" using assms(1) by (rule settle_db_ok) simp
    then show ?thesis unfolding db' by (rule stock_db_ok_tables) simp_all
  qed
qed

lemma despatch_keeps_ok:
  assumes "stock_db_ok db" "ids \<noteq> []"
    and "despatch_in_transaction now fresh text request_id corr ref ids db = Inr (reply, db')"
  shows "stock_db_ok db'"
proof -
  from assms(3) show ?thesis
  proof (cases rule: despatch_in_transaction_Inr)
    case (created items first dref db1 d items' db2)
    note lock = created(1,2) and dn = created(5) and cr = created(6) and sv = created(7) and sd = created(8)
    obtain rows where rows: "items = map (loaded_item ref db) rows" "set rows = {s \<in> set (fd_stock db). sk_id s \<in> set ids}"
      using lock_by_ids_eval [OF assms(1) lock assms(2)] by blast
    have ok: "\<forall>it\<in>set items. stock_item_ok it" using rows(1,2) loaded_item_ok [OF assms(1)] by auto
    obtain v where db1: "db1 = db \<lparr> fd_sequence := Some v \<rparr>" using next_despatch_reference_Inr [OF dn] by blast
    have ok1: "stock_db_ok db1" using assms(1) by (rule stock_db_ok_tables) (simp_all add: db1)
    let ?h = "\<lambda>s. settled_item Consumed ref (if True then order_held ref (sk_id s) db1 else 0) (loaded_item ref db1 s)"
    have held: "order_held ref i db1 = order_held ref i db" and load: "loaded_item ref db1 = loaded_item ref db" for i
      by (simp_all add: db1 order_held_def loaded_item_def fun_eq_iff)
    have items': "items' = map ?h rows"
      using create_despatch_eval(5) [OF bspec [OF ok] cr] by (simp add: rows(1) held load order_held_loaded comp_def)
    have rows1: "set rows = {r \<in> set (fd_stock db1). sk_id r \<in> set ids}" using rows(2) by (simp add: db1)
    have db2: "db2 = (settle_db Consumed True ref (set ids) db1)
        \<lparr> fd_outbox := fd_outbox db1 @ outbox_rows now (fd_next_seq db1) (concat (map (si_events \<circ> ?h) rows)),
          fd_next_seq := fd_next_seq db1 + length (concat (map (si_events \<circ> ?h) rows)) \<rparr>"
      by (rule save_settled [OF ok1 rows1 _ sv [unfolded items']]) blast
    have "stock_db_ok (settle_db Consumed True ref (set ids) db1)" using ok1 by (rule settle_db_ok) simp
    then show ?thesis unfolding save_despatch_Inr(1) [OF sd] db2
      by (rule stock_db_ok_tables) simp_all
  qed (use assms(1) in simp)
qed

lemma supplied_nonneg: "list_all (\<lambda>l. 0 < ul_units l) ls \<Longrightarrow> 0 \<le> supplied p ls"
  by (induction ls) (auto simp: supplied_def)

lemma topped_db_ok:
  assumes "stock_db_ok db" "\<And>s. 0 \<le> (u s :: int)"
    and fits: "list_all (\<lambda>s. fits_int (sk_units s)) (map (\<lambda>s. if sk_company s = company then s \<lparr> sk_units := sk_units s + u s \<rparr> else s) (fd_stock db))"
  shows "stock_db_ok (db \<lparr> fd_stock := map (\<lambda>s. if sk_company s = company then s \<lparr> sk_units := sk_units s + u s \<rparr> else s) (fd_stock db) \<rparr>)"
proof -
  let ?f = "\<lambda>s. if sk_company s = company then s \<lparr> sk_units := sk_units s + u s \<rparr> else s"
  have f: "sk_id (?f s) = sk_id s" "sk_company (?f s) = sk_company s" "sk_product (?f s) = sk_product s" "sk_reserved (?f s) = sk_reserved s" for s
    by simp_all
  have le: "sk_units s \<le> sk_units (?f s)" for s using assms(2) [of s] by simp
  have ids: "map sk_id (map ?f S) = map sk_id S" "map (\<lambda>s. (sk_company s, sk_product s)) (map ?f S) = map (\<lambda>s. (sk_company s, sk_product s)) S"
    "sk_id ` ?f ` A = sk_id ` A" for S A
    by (simp_all only: map_map comp_def f image_image)
  have tables: "fd_stock (db \<lparr> fd_stock := map ?f (fd_stock db) \<rparr>) = map ?f (fd_stock db)"
    "fd_reservations (db \<lparr> fd_stock := map ?f (fd_stock db) \<rparr>) = fd_reservations db"
    by simp_all
  have counters: "sk_reserved s = held_rows (sk_id s) (fd_reservations db) \<and> sk_reserved s \<le> sk_units (?f s) \<and> fits_int (sk_units (?f s))"
    if s: "s \<in> set (fd_stock db)" for s
  proof -
    have "sk_reserved s = held_rows (sk_id s) (fd_reservations db)" "sk_reserved s \<le> sk_units s"
      using assms(1) s by (auto simp: stock_db_ok_def list_all_iff)
    moreover have "fits_int (sk_units (?f s))" using fits s unfolding list_all_iff set_map by blast
    ultimately show ?thesis using le [of s] by (blast intro: order_trans)
  qed
  show ?thesis
    using assms(1) counters
    unfolding stock_db_ok_def tables ids list_all_iff set_map ball_simps(9) f by blast
qed

lemma fulfillment_step_keeps_ok:
  assumes "fulfillment_step db db'" "stock_db_ok db"
  shows "stock_db_ok db'"
  using assms
proof (induction rule: fulfillment_step.induct)
  case (step_reserve fresh req db now request_id corr)
  obtain r db' where "execute_reserve now fresh req request_id corr db = (r, db')" by (metis surj_pair)
  moreover have "db' = db" if "execute_reserve now fresh req request_id corr db = (Inl e, db')" for e
    using that by (auto simp: execute_reserve_def unit_of_work_Inl split: sum.splits)
  ultimately show ?case using reserve_keeps_ok [OF step_reserve(2,1)] step_reserve(2) by (cases r) auto
next
  case (step_release db now eid t reason request_id corr db_read)
  then show ?case
    by (auto simp: execute_release_def unit_of_work_def split: sum.splits dest: release_keeps_ok)
next
  case (step_despatch db now fresh t request_id corr db_read)
  then show ?case
    by (auto simp: execute_despatch_def unit_of_work_def split: sum.splits option.splits list.splits dest: despatch_keeps_ok [rotated 2])
next
  case (step_replenish db now company ls)
  obtain r db' where run: "execute_replenish now company ls db = (r, db')" by (metis surj_pair)
  show ?case
  proof (cases r)
    case (Inl e)
    then have "db' = db" using run by (simp add: execute_replenish_def unit_of_work_Inl)
    then show ?thesis using run step_replenish by simp
  next
    case (Inr v)
    note out = replenish_outcome [OF step_replenish run [unfolded Inr]]
    have nonneg: "0 \<le> supplied p ls" for p
      using out by (intro supplied_nonneg) (auto simp: list_all_iff)
    have db': "db' = db \<lparr> fd_stock := map (\<lambda>s. if sk_company s = company
      then s \<lparr> sk_units := sk_units s + supplied (sk_product s) ls \<rparr> else s) (fd_stock db) \<rparr>" using out by blast
    have "list_all (\<lambda>s. fits_int (sk_units s)) (fd_stock db')" using out by blast
    then have "stock_db_ok db'" unfolding db' fulfillment_db.select_convs fulfillment_db.update_convs
      by (intro topped_db_ok [OF step_replenish nonneg]) simp
    then show ?thesis using run by simp
  qed
qed

text \<open>C6: No sequence of commands ever oversells a product or loses track of a reservation, whatever
  the interleaving, however stale the read a release or a despatch starts from, and with refused
  commands in between: in every reachable state the reserved counter of a stock row is exactly
  what its reserved reservations hold, and lies between zero and the units in stock.\<close>

theorem stock_never_oversold:
  assumes "stock_db_ok db" "fulfillment_step\<^sup>*\<^sup>* db db'"
  shows "list_all (\<lambda>s. 0 \<le> sk_reserved s \<and> sk_reserved s \<le> sk_units s \<and>
    sk_reserved s = held_rows (sk_id s) (fd_reservations db')) (fd_stock db')"
proof -
  have "stock_db_ok db'" using assms(2,1) by (induction rule: rtranclp_induct) (auto intro: fulfillment_step_keeps_ok)
  then show ?thesis using held_rows_nonneg [of "fd_reservations db'"] by (auto simp: stock_db_ok_def list_all_iff)
qed

end
