(* ===== verification/Stock_Examples.thy ===== *)
theory Stock_Examples
  imports Stock_Properties Saga_Examples
begin

text \<open>
  A company with two products, an order with two lines and its run through the stock commands,
  evaluated in the kernel: the inputs on which the properties of the Fulfillment service are
  exercised.
\<close>

definition example_stock_row :: "nat \<Rightarrow> string \<Rightarrow> int \<Rightarrow> int \<Rightarrow> stock_row" where
  "example_stock_row k p u r = \<lparr> sk_id = example_id k, sk_company = ''CO'', sk_product = p, sk_units = u,
     sk_reserved = r, sk_threshold = 2 \<rparr>"

definition example_booking :: "nat \<Rightarrow> nat \<Rightarrow> string \<Rightarrow> int \<Rightarrow> reservation_row" where
  "example_booking k s p n = \<lparr> rw_id = example_id k, rw_stock = example_id s, rw_company = ''CO'', rw_retailer = ''RET'',
     rw_product = p, rw_order = ''ORD-000001'', rw_units = n, rw_status = Reserved \<rparr>"

definition example_stock :: fulfillment_db where
  "example_stock = \<lparr> fd_stock = [example_stock_row 8 ''P2'' 10 0, example_stock_row 9 ''P1'' 5 0], fd_reservations = [],
     fd_despatches = [], fd_despatch_items = [], fd_outbox = [], fd_next_seq = 1, fd_sequence = None \<rparr>"

definition example_booked_stock :: fulfillment_db where
  "example_booked_stock = example_stock
     \<lparr> fd_stock := [example_stock_row 8 ''P2'' 10 4, example_stock_row 9 ''P1'' 5 3],
       fd_reservations := [example_booking 0 9 ''P1'' 3, example_booking 1 8 ''P2'' 4] \<rparr>"

definition example_reserve :: reserve_request where
  "example_reserve = \<lparr> rq_reference = ''ORD-000001'', rq_retailer = ''RET'', rq_company = ''CO'',
     rq_lines = [\<lparr> ul_product = ''P1'', ul_units = 3 \<rparr>, \<lparr> ul_product = ''P2'', ul_units = 4 \<rparr>] \<rparr>"

lemma example_stock_ok: "stock_db_ok example_stock" "stock_db_ok example_booked_stock"
  by code_simp+

lemma example_stock_fresh: "stock_fresh example_id 2 example_stock"
proof -
  have "distinct (map example_id [0..<2])" by code_simp
  then show ?thesis using example_id_canonical by (auto simp: stock_fresh_def example_stock_def)
qed

lemma example_reserve_runs:
  "fst (execute_reserve 1000 example_id example_reserve (example_id 5) (example_id 6) example_stock) =
    Inr (Reserve_Accepted ''ORD-000001'' (request_refs example_id example_reserve))"
  by code_simp

lemma example_release_runs:
  "fst (execute_release 1000 (example_id 4) ''ORD-000001'' Release_Credit_Rejected (example_id 5) (example_id 6)
     example_booked_stock example_booked_stock) =
    Inr (Release_Done ''ORD-000001'' (map row_ref (rev (fd_reservations example_booked_stock)))) \<or>
   fst (execute_release 1000 (example_id 4) ''ORD-000001'' Release_Credit_Rejected (example_id 5) (example_id 6)
     example_booked_stock example_booked_stock) =
    Inr (Release_Done ''ORD-000001'' (map row_ref (fd_reservations example_booked_stock)))"
  by code_simp

lemma example_despatch_runs:
  "case fst (execute_despatch 1000 example_id ''ORD-000001'' (example_id 5) (example_id 6)
     example_booked_stock example_booked_stock) of Inr reply \<Rightarrow> dy_created reply | Inl _ \<Rightarrow> False"
  by code_simp

lemma example_replenish_runs:
  "is_ok (fst (execute_replenish 1000 ''CO'' [\<lparr> ul_product = ''P1'', ul_units = 7 \<rparr>, \<lparr> ul_product = ''P1'', ul_units = 2 \<rparr>] example_stock))"
  by code_simp

theorem stock_reserve_all_or_nothing_witness:
  "\<exists>db'. execute_reserve 1000 example_id example_reserve (example_id 5) (example_id 6) example_stock =
      (Inr (Reserve_Accepted ''ORD-000001'' (request_refs example_id example_reserve)), db') \<and>
    fd_reservations db' = fd_reservations (booked_db example_id example_reserve example_stock)"
proof -
  obtain db' where run: "execute_reserve 1000 example_id example_reserve (example_id 5) (example_id 6) example_stock =
      (Inr (Reserve_Accepted ''ORD-000001'' (request_refs example_id example_reserve)), db')"
    using example_reserve_runs by (metis prod.collapse)
  have fresh: "stock_fresh example_id (length (rq_lines example_reserve)) example_stock"
    using example_stock_fresh by (simp add: example_reserve_def eval_nat_numeral)
  have "holds_nothing example_reserve example_stock" "can_supply example_reserve example_stock" by code_simp+
  then show ?thesis
    using stock_reserve_all_or_nothing [OF example_stock_ok(1) fresh run] run by auto
qed

theorem stock_release_gives_back_witness:
  "\<exists>refs db'. execute_release 1000 (example_id 4) ''ORD-000001'' Release_Credit_Rejected (example_id 5) (example_id 6)
      example_booked_stock example_booked_stock = (Inr (Release_Done ''ORD-000001'' refs), db') \<and>
    mset refs = image_mset row_ref (mset (fd_reservations example_booked_stock)) \<and>
    map sk_reserved (fd_stock db') = [0, 0] \<and> map sk_units (fd_stock db') = [10, 5]"
proof -
  obtain refs db' where run: "execute_release 1000 (example_id 4) ''ORD-000001'' Release_Credit_Rejected (example_id 5) (example_id 6)
      example_booked_stock example_booked_stock = (Inr (Release_Done ''ORD-000001'' refs), db')"
    using example_release_runs by (metis prod.collapse)
  have all: "reserved_rows ''ORD-000001'' example_booked_stock = fd_reservations example_booked_stock"
    "fd_reservations example_booked_stock \<noteq> []"
    "map sk_reserved (fd_stock (settle_db Released False (Order_Number ''ORD-000001'') (order_stocks ''ORD-000001'' example_booked_stock) example_booked_stock)) = [0, 0]"
    "map sk_units (fd_stock (settle_db Released False (Order_Number ''ORD-000001'') (order_stocks ''ORD-000001'' example_booked_stock) example_booked_stock)) = [10, 5]"
    by code_simp+
  then show ?thesis
    using stock_release_gives_back [OF example_stock_ok(2,2) run] run by (auto simp: Let_def)
qed

theorem despatch_ships_reserved_witness:
  "\<exists>reply db'. execute_despatch 1000 example_id ''ORD-000001'' (example_id 5) (example_id 6)
      example_booked_stock example_booked_stock = (Inr reply, db') \<and>
    mset (dy_lines reply) = image_mset row_units (mset (fd_reservations example_booked_stock)) \<and>
    map sk_reserved (fd_stock db') = [0, 0] \<and> map sk_units (fd_stock db') = [6, 2]"
proof -
  obtain reply db' where run: "execute_despatch 1000 example_id ''ORD-000001'' (example_id 5) (example_id 6)
      example_booked_stock example_booked_stock = (Inr reply, db')" and created: "dy_created reply"
    using example_despatch_runs by (auto split: sum.splits) (metis prod.collapse)
  have all: "reserved_rows ''ORD-000001'' example_booked_stock = fd_reservations example_booked_stock"
    "map sk_reserved (fd_stock (settle_db Consumed True (Order_Number ''ORD-000001'') (order_stocks ''ORD-000001'' example_booked_stock) example_booked_stock)) = [0, 0]"
    "map sk_units (fd_stock (settle_db Consumed True (Order_Number ''ORD-000001'') (order_stocks ''ORD-000001'' example_booked_stock) example_booked_stock)) = [6, 2]"
    by code_simp+
  then show ?thesis
    using despatch_ships_reserved [OF example_stock_ok(2,2) run] run created by (auto simp: Let_def)
qed

theorem stock_replenish_exact_witness:
  "\<exists>views db'. execute_replenish 1000 ''CO'' [\<lparr> ul_product = ''P1'', ul_units = 7 \<rparr>, \<lparr> ul_product = ''P1'', ul_units = 2 \<rparr>] example_stock =
      (Inr views, db') \<and> map sk_units (fd_stock db') = [10, 14]"
proof -
  obtain views db' where run: "execute_replenish 1000 ''CO'' [\<lparr> ul_product = ''P1'', ul_units = 7 \<rparr>, \<lparr> ul_product = ''P1'', ul_units = 2 \<rparr>] example_stock =
      (Inr views, db')"
    using example_replenish_runs unfolding is_ok_iff by (metis prod.collapse)
  have "map sk_units (map (\<lambda>s. if sk_company s = ''CO''
      then s \<lparr> sk_units := sk_units s + supplied (sk_product s) [\<lparr> ul_product = ''P1'', ul_units = 7 \<rparr>, \<lparr> ul_product = ''P1'', ul_units = 2 \<rparr>] \<rparr> else s)
      (fd_stock example_stock)) = [10, 14]"
    by code_simp
  then show ?thesis
    using stock_replenish_exact [OF example_stock_ok(1) run] run by auto
qed

theorem stock_never_oversold_witness:
  "list_all (\<lambda>s. 0 \<le> sk_reserved s \<and> sk_reserved s \<le> sk_units s \<and> sk_reserved s = held_rows (sk_id s)
      (fd_reservations (snd (execute_reserve 1000 example_id example_reserve (example_id 5) (example_id 6) example_stock))))
    (fd_stock (snd (execute_reserve 1000 example_id example_reserve (example_id 5) (example_id 6) example_stock)))"
proof -
  have "stock_fresh example_id (length (rq_lines example_reserve)) example_stock"
    using example_stock_fresh by (simp add: example_reserve_def eval_nat_numeral)
  then have "fulfillment_step example_stock
      (snd (execute_reserve 1000 example_id example_reserve (example_id 5) (example_id 6) example_stock))"
    by (rule step_reserve)
  then show ?thesis using stock_never_oversold [OF example_stock_ok(1) r_into_rtranclp] by blast
qed

end
