(* ===== verification/Credit_Domain.thy ===== *)
theory Credit_Domain
  imports Order_Aggregate
begin

text \<open>
  The buyer credit (apps/billing/src/domain: credit-ledger-entry.ts, credit-exposure.ts,
  buyer-credit.ts, buyer-credit-snapshot.ts, credit-events.ts, credit-errors.ts).  An aggregate
  holds the row of a credit line, the committed exposure of the whole line and the ledger entries
  of the order it was loaded for; sums are JavaScript numbers, so they round.
\<close>

section \<open>Ledger entries and exposure\<close>

datatype credit_entry_type = Entry_Hold | Entry_Consume | Entry_Release

record credit_entry =
  ce_id :: uid
  ce_order :: order_number
  ce_amount :: money
  ce_type :: credit_entry_type
  ce_date :: instant

record order_accumulator =
  ac_hold :: int
  ac_release :: int
  ac_consume :: int
  ac_has_hold :: bool

record order_exposure =
  oe_order :: string
  oe_exposure :: int
  oe_open :: int
  oe_active :: int
  oe_has_hold :: bool

record ledger_summary =
  lm_by_order :: "order_exposure list"
  lm_committed :: int
  lm_active :: int
  lm_open :: int

definition no_exposure :: order_accumulator where
  "no_exposure = \<lparr> ac_hold = 0, ac_release = 0, ac_consume = 0, ac_has_hold = False \<rparr>"

definition add_to_exposure :: "credit_entry \<Rightarrow> order_accumulator \<Rightarrow> order_accumulator" where
  "add_to_exposure e a = (case ce_type e of
     Entry_Hold \<Rightarrow> a \<lparr> ac_hold := js_round (ac_hold a + amount (ce_amount e)), ac_has_hold := True \<rparr>
   | Entry_Release \<Rightarrow> a \<lparr> ac_release := js_round (ac_release a + amount (ce_amount e)) \<rparr>
   | Entry_Consume \<Rightarrow> a \<lparr> ac_consume := js_round (ac_consume a + amount (ce_amount e)) \<rparr>)"

text \<open>The map keeps the orders in the order they are first seen.\<close>

definition accumulate_ledger :: "credit_entry list \<Rightarrow> (string \<times> order_accumulator) list" where
  "accumulate_ledger es = foldl (\<lambda>m e. let k = order_number_value (ce_order e) in
     AList.update k (add_to_exposure e (or_else (map_of m k) no_exposure)) m) [] es"

definition exposure_of :: "string \<times> order_accumulator \<Rightarrow> order_exposure" where
  "exposure_of ka = (case ka of (k, a) \<Rightarrow> let
       exposure = js_round (ac_hold a - ac_release a);
       open_part = min (ac_consume a) exposure
     in \<lparr> oe_order = k, oe_exposure = exposure, oe_open = open_part,
       oe_active = js_round (exposure - open_part), oe_has_hold = ac_has_hold a \<rparr>)"

definition sum_exposures :: "(order_exposure \<Rightarrow> int) \<Rightarrow> order_exposure list \<Rightarrow> int" where
  "sum_exposures f = foldl (\<lambda>s o'. js_round (s + f o')) 0"

definition summarise_ledger :: "credit_entry list \<Rightarrow> ledger_summary" where
  "summarise_ledger es = (let by = map exposure_of (accumulate_ledger es) in
     \<lparr> lm_by_order = by, lm_committed = sum_exposures oe_exposure by,
       lm_active = sum_exposures oe_active by, lm_open = sum_exposures oe_open by \<rparr>)"

section \<open>The aggregate\<close>

datatype credit_fault =
    Negative_Limit int
  | Over_Committed int int
  | Entry_Currency uid string string

datatype credit_error =
    Credit_Limit_Exceeded int int string
  | Credit_Refusal_Mismatch credit_rejection_reason
  | Credit_Release_Underflow string int string
  | No_Active_Hold string
  | Invalid_Credit_Snapshot credit_fault uid
  | Credit_Fact_Mismatch uid uid
  | Credit_Money_Error kernel_error

record credit_context =
  cx_at :: instant
  cx_causation :: uid

record credit_snapshot =
  cz_id :: uid
  cz_code :: credit_line_reference
  cz_retailer :: string
  cz_company :: string
  cz_limit :: int
  cz_currency :: string
  cz_committed :: int
  cz_entries :: "credit_entry list"

record buyer_credit =
  bc_id :: uid
  bc_code :: credit_line_reference
  bc_retailer :: string
  bc_company :: string
  bc_limit :: int
  bc_currency :: string
  bc_committed :: int
  bc_loaded :: "credit_entry list"
  bc_appended :: "credit_entry list"
  bc_events :: "envelope list"

record credit_hold_request =
  hr_order :: order_number
  hr_amount :: money
  hr_correlation :: uid

datatype hold_evaluation = Already_Held money | Hold_Currency_Mismatch string | Hold_Fits | Hold_Over_Limit money

definition create_credit_entry ::
    "uid \<Rightarrow> order_number \<Rightarrow> money \<Rightarrow> credit_entry_type \<Rightarrow> instant \<Rightarrow> credit_entry" where
  "create_credit_entry i ref m ty t =
     \<lparr> ce_id = i, ce_order = ref, ce_amount = m, ce_type = ty, ce_date = t \<rparr>"

definition entries_of :: "order_number \<Rightarrow> buyer_credit \<Rightarrow> credit_entry list" where
  "entries_of ref bc = filter (\<lambda>e. ce_order e = ref) (bc_loaded bc @ bc_appended bc)"

definition reconstitute_credit :: "credit_snapshot \<Rightarrow> credit_error + buyer_credit" where
  "reconstitute_credit s =
     (if cz_limit s < 0 then Inl (Invalid_Credit_Snapshot (Negative_Limit (cz_limit s)) (cz_id s))
      else if cz_committed s > cz_limit s
        then Inl (Invalid_Credit_Snapshot (Over_Committed (cz_committed s) (cz_limit s)) (cz_id s))
      else case find (\<lambda>e. currency (ce_amount e) \<noteq> cz_currency s) (cz_entries s) of
        Some e \<Rightarrow> Inl (Invalid_Credit_Snapshot (Entry_Currency (ce_id e) (currency (ce_amount e)) (cz_currency s)) (cz_id s))
      | None \<Rightarrow> Inr \<lparr> bc_id = cz_id s, bc_code = cz_code s, bc_retailer = cz_retailer s, bc_company = cz_company s,
          bc_limit = cz_limit s, bc_currency = cz_currency s, bc_committed = cz_committed s,
          bc_loaded = cz_entries s, bc_appended = [], bc_events = [] \<rparr>)"

text \<open>What is left of the limit, as the number the methods compute and as the money of the getter.\<close>

definition credit_left :: "buyer_credit \<Rightarrow> int" where
  "credit_left bc = js_round (bc_limit bc - bc_committed bc)"

definition available_credit :: "buyer_credit \<Rightarrow> kernel_error + money" where
  "available_credit bc = money_of (Js_Int (credit_left bc)) (bc_currency bc)"

definition credit_summary :: "buyer_credit \<Rightarrow> ledger_summary" where
  "credit_summary bc = summarise_ledger (bc_loaded bc @ bc_appended bc)"

definition evaluate_hold :: "credit_hold_request \<Rightarrow> buyer_credit \<Rightarrow> credit_error + hold_evaluation" where
  "evaluate_hold req bc = (case find (\<lambda>e. ce_type e = Entry_Hold) (entries_of (hr_order req) bc) of
     Some e \<Rightarrow> Inr (Already_Held (ce_amount e))
   | None \<Rightarrow>
     if currency (hr_amount req) \<noteq> bc_currency bc then Inr (Hold_Currency_Mismatch (bc_currency bc))
     else if amount (hr_amount req) > credit_left bc
       then bindR (mapErr Credit_Money_Error (available_credit bc)) (\<lambda>m. Inr (Hold_Over_Limit m))
     else Inr Hold_Fits)"

section \<open>The facts\<close>

definition credit_event :: "uid \<Rightarrow> event_type \<Rightarrow> payload \<Rightarrow> buyer_credit \<Rightarrow> uid \<Rightarrow> credit_context \<Rightarrow> envelope" where
  "credit_event eid ty p bc corr ctx = \<lparr> ev_id = eid, ev_type = ty, ev_aggregate = bc_id bc,
     ev_correlation = corr, ev_causation = cx_causation ctx, ev_at = cx_at ctx, ev_payload = p \<rparr>"

definition credit_approved_event ::
    "uid \<Rightarrow> buyer_credit \<Rightarrow> order_number \<Rightarrow> int \<Rightarrow> int \<Rightarrow> uid \<Rightarrow> credit_context \<Rightarrow> envelope" where
  "credit_approved_event eid bc ref held left_after corr ctx = credit_event eid Credit_Approved_Fact
     (Credit_Approved_P \<lparr> ca_reference = order_number_value ref, ca_retailer = bc_retailer bc,
       ca_company = bc_company bc, ca_credit_code = credit_line_reference_value (bc_code bc),
       ca_currency = bc_currency bc, ca_held = held, ca_available_after = left_after \<rparr>) bc corr ctx"

definition credit_rejected_event ::
    "uid \<Rightarrow> buyer_credit \<Rightarrow> order_number \<Rightarrow> int \<Rightarrow> int \<Rightarrow> credit_rejection_reason \<Rightarrow> uid \<Rightarrow> credit_context \<Rightarrow> envelope" where
  "credit_rejected_event eid bc ref requested left reason corr ctx = credit_event eid Credit_Rejected_Fact
     (Credit_Rejected_P \<lparr> cj_reference = order_number_value ref, cj_retailer = bc_retailer bc,
       cj_company = bc_company bc, cj_credit_code = Some (credit_line_reference_value (bc_code bc)),
       cj_currency = bc_currency bc, cj_requested = requested, cj_available = left, cj_reason = reason \<rparr>) bc corr ctx"

definition credit_released_event ::
    "uid \<Rightarrow> buyer_credit \<Rightarrow> order_number \<Rightarrow> int \<Rightarrow> int \<Rightarrow> credit_release_reason \<Rightarrow> uid \<Rightarrow> credit_context \<Rightarrow> envelope" where
  "credit_released_event eid bc ref released left_after reason corr ctx = credit_event eid Credit_Released_Fact
     (Credit_Released_P \<lparr> cr_reference = order_number_value ref, cr_retailer = bc_retailer bc,
       cr_company = bc_company bc, cr_credit_code = Some (credit_line_reference_value (bc_code bc)),
       cr_currency = bc_currency bc, cr_released = released, cr_available_after = left_after, cr_reason = reason \<rparr>) bc corr ctx"

definition append_credit_fact :: "envelope \<Rightarrow> buyer_credit \<Rightarrow> credit_error + buyer_credit" where
  "append_credit_fact e bc = (if ev_aggregate e \<noteq> bc_id bc then Inl (Credit_Fact_Mismatch (bc_id bc) (ev_aggregate e))
     else Inr (bc \<lparr> bc_events := bc_events bc @ [e] \<rparr>))"

section \<open>Holding, refusing, releasing, consuming\<close>

definition append_entry :: "credit_entry \<Rightarrow> int \<Rightarrow> buyer_credit \<Rightarrow> buyer_credit" where
  "append_entry e committed bc = bc \<lparr> bc_committed := committed, bc_appended := bc_appended bc @ [e] \<rparr>"

definition approve_hold ::
    "uid \<Rightarrow> uid \<Rightarrow> credit_hold_request \<Rightarrow> credit_context \<Rightarrow> buyer_credit \<Rightarrow> credit_error + credit_entry \<times> buyer_credit" where
  "approve_hold i eid req ctx bc =
     bindR (evaluate_hold req bc) (\<lambda>v.
     if v \<noteq> Hold_Fits then Inl (Credit_Limit_Exceeded (amount (hr_amount req)) (credit_left bc) (bc_currency bc))
     else let e = create_credit_entry i (hr_order req) (hr_amount req) Entry_Hold (cx_at ctx);
          bc' = append_entry e (js_round (bc_committed bc + amount (hr_amount req))) bc in
       bindR (append_credit_fact (credit_approved_event eid bc' (hr_order req) (amount (hr_amount req)) (credit_left bc')
         (hr_correlation req) ctx) bc') (\<lambda>bc''. Inr (e, bc'')))"

definition refuse_hold ::
    "uid \<Rightarrow> credit_hold_request \<Rightarrow> credit_rejection_reason \<Rightarrow> credit_context \<Rightarrow> buyer_credit \<Rightarrow> credit_error + buyer_credit" where
  "refuse_hold eid req reason ctx bc =
     (if reason = Over_Limit \<and> amount (hr_amount req) \<le> credit_left bc then Inl (Credit_Refusal_Mismatch reason)
      else append_credit_fact (credit_rejected_event eid bc (hr_order req) (amount (hr_amount req)) (credit_left bc)
        reason (hr_correlation req) ctx) bc)"

definition order_exposure_in :: "(order_exposure \<Rightarrow> int) \<Rightarrow> order_number \<Rightarrow> ledger_summary \<Rightarrow> int" where
  "order_exposure_in f ref s = (case find (\<lambda>o'. oe_order o' = order_number_value ref) (lm_by_order s) of
     None \<Rightarrow> 0 | Some o' \<Rightarrow> f o')"

definition release_hold ::
    "uid \<Rightarrow> uid \<Rightarrow> order_number \<Rightarrow> credit_release_reason \<Rightarrow> uid \<Rightarrow> credit_context \<Rightarrow> buyer_credit \<Rightarrow>
      credit_error + credit_entry option \<times> buyer_credit" where
  "release_hold i eid ref reason corr ctx bc =
     (let outstanding = order_exposure_in oe_exposure ref (summarise_ledger (entries_of ref bc)) in
      if outstanding < 0 then Inl (Credit_Release_Underflow (order_number_value ref) outstanding (bc_currency bc))
      else if outstanding = 0 then Inr (None, bc)
      else bindR (mapErr Credit_Money_Error (money_of (Js_Int outstanding) (bc_currency bc))) (\<lambda>m.
        let e = create_credit_entry i ref m Entry_Release (cx_at ctx);
            bc' = append_entry e (js_round (bc_committed bc - outstanding)) bc in
        bindR (append_credit_fact (credit_released_event eid bc' ref outstanding (credit_left bc') reason corr ctx) bc')
          (\<lambda>bc''. Inr (Some e, bc''))))"

definition consume_hold ::
    "uid \<Rightarrow> order_number \<Rightarrow> credit_context \<Rightarrow> buyer_credit \<Rightarrow> credit_error + credit_entry \<times> buyer_credit" where
  "consume_hold i ref ctx bc =
     (let active = order_exposure_in oe_active ref (summarise_ledger (entries_of ref bc)) in
      if active \<le> 0 then Inl (No_Active_Hold (order_number_value ref))
      else bindR (mapErr Credit_Money_Error (money_of (Js_Int active) (bc_currency bc))) (\<lambda>m.
        let e = create_credit_entry i ref m Entry_Consume (cx_at ctx) in
        Inr (e, append_entry e (bc_committed bc) bc)))"

end
