(* ===== verification/Invoice_Domain.thy ===== *)
theory Invoice_Domain
  imports Order_Aggregate
begin

text \<open>
  The invoice (apps/billing/src/domain: invoice.ts, invoice-line.ts, invoice-snapshot.ts,
  invoice-events.ts, invoice-errors.ts).  The state of an invoice is one value, open or settled
  with its date; the k-th identifier drawn by \<open>issue_invoice\<close> is \<open>fresh k\<close>: one for each
  line, then the event's.
\<close>

record invoice_line =
  vl_id :: uid
  vl_product :: string
  vl_units :: quantity
  vl_price :: money

datatype invoice_state = Invoice_Open | Invoice_Settled instant

record invoice =
  v_id :: uid
  v_reference :: invoice_reference
  v_date :: instant
  v_order :: order_number
  v_retailer :: string
  v_company :: string
  v_currency :: string
  v_lines :: "invoice_line list"
  v_amount :: money
  v_discount :: money
  v_total :: money
  v_state :: invoice_state
  v_events :: "envelope list"

record invoice_snapshot =
  vs_id :: uid
  vs_reference :: invoice_reference
  vs_date :: instant
  vs_order :: order_number
  vs_retailer :: string
  vs_company :: string
  vs_currency :: string
  vs_lines :: "invoice_line list"
  vs_amount :: money
  vs_discount :: money
  vs_total :: money
  vs_status :: string
  vs_paid_at :: "instant option"

record invoice_context =
  vx_at :: instant
  vx_causation :: uid

record invoice_line_input =
  vn_product :: string
  vn_units :: quantity
  vn_price :: money

record issue_input =
  vi_id :: uid
  vi_reference :: invoice_reference
  vi_date :: instant
  vi_order :: order_number
  vi_retailer :: string
  vi_company :: string
  vi_currency :: string
  vi_lines :: "invoice_line_input list"
  vi_discount :: money
  vi_correlation :: uid

record mark_paid_input =
  mp_reference :: string
  mp_amount :: money
  mp_value_date :: instant
  mp_source :: payment_source
  mp_correlation :: uid

datatype invoice_fault =
    Paid_Without_Date
  | Issued_With_Date instant
  | Line_Currency uid string string
  | Amount_Not_Of_Lines int int
  | Total_Not_Of_Amount int int
  | Invoice_Fact_Mismatch uid

datatype invoice_error =
    Empty_Invoice_Lines string
  | Invoice_Line_Currency_Mismatch string string
  | Negative_Invoice_Total int int string
  | Invalid_Invoice_Snapshot invoice_fault uid
  | Invoice_Already_Paid string
  | Invoice_Payment_Amount_Mismatch int int string
  | Invoice_Payment_Currency_Mismatch string string
  | Invoice_Money_Error kernel_error

section \<open>Amounts\<close>

definition invoice_line_total :: "invoice_line \<Rightarrow> kernel_error + money" where
  "invoice_line_total l = money_multiply (vl_price l) (vl_units l)"

definition invoice_amount :: "string \<Rightarrow> invoice_line list \<Rightarrow> kernel_error + money" where
  "invoice_amount cur ls = bindR (money_zero cur) (\<lambda>z.
     foldR (\<lambda>s l. bindR (invoice_line_total l) (\<lambda>t. money_add s t)) z ls)"

definition invoice_status :: "invoice \<Rightarrow> string" where
  "invoice_status v = (case v_state v of Invoice_Open \<Rightarrow> ''issued'' | Invoice_Settled _ \<Rightarrow> ''paid'')"

definition invoice_paid_at :: "invoice \<Rightarrow> instant option" where
  "invoice_paid_at v = (case v_state v of Invoice_Open \<Rightarrow> None | Invoice_Settled t \<Rightarrow> Some t)"

section \<open>The facts\<close>

definition invoice_event :: "uid \<Rightarrow> event_type \<Rightarrow> payload \<Rightarrow> invoice \<Rightarrow> uid \<Rightarrow> invoice_context \<Rightarrow> envelope" where
  "invoice_event eid ty p v corr ctx = \<lparr> ev_id = eid, ev_type = ty, ev_aggregate = v_id v,
     ev_correlation = corr, ev_causation = vx_causation ctx, ev_at = vx_at ctx, ev_payload = p \<rparr>"

definition invoice_line_payload_of :: "invoice_line \<Rightarrow> invoice_line_payload" where
  "invoice_line_payload_of l = \<lparr> il_product = vl_product l, il_units = q_value (vl_units l),
     il_unit_price = amount (vl_price l) \<rparr>"

definition invoice_issued_event :: "uid \<Rightarrow> invoice \<Rightarrow> uid \<Rightarrow> invoice_context \<Rightarrow> envelope" where
  "invoice_issued_event eid v corr ctx = invoice_event eid Invoice_Issued (Invoice_P
     \<lparr> ip_reference = order_number_value (v_order v), ip_invoice_reference = invoice_reference_value (v_reference v),
       ip_date = v_date v, ip_retailer = v_retailer v, ip_company = v_company v, ip_currency = v_currency v,
       ip_lines = map invoice_line_payload_of (v_lines v), ip_amount = amount (v_amount v),
       ip_discount = amount (v_discount v), ip_total = amount (v_total v) \<rparr>) v corr ctx"

definition payment_received_event :: "uid \<Rightarrow> invoice \<Rightarrow> mark_paid_input \<Rightarrow> invoice_context \<Rightarrow> envelope" where
  "payment_received_event eid v inp ctx = invoice_event eid Payment_Received (Payment_P
     \<lparr> py_reference = order_number_value (v_order v), py_invoice_reference = invoice_reference_value (v_reference v),
       py_payment_reference = mp_reference inp, py_currency = v_currency v, py_amount = amount (mp_amount inp),
       py_value_date = mp_value_date inp, py_source = mp_source inp \<rparr>) v (mp_correlation inp) ctx"

definition append_invoice_fact :: "envelope \<Rightarrow> invoice \<Rightarrow> invoice_error + invoice" where
  "append_invoice_fact e v = (if ev_aggregate e \<noteq> v_id v
     then Inl (Invalid_Invoice_Snapshot (Invoice_Fact_Mismatch (ev_aggregate e)) (v_id v))
     else Inr (v \<lparr> v_events := v_events v @ [e] \<rparr>))"

section \<open>Issuing, reading back, settling\<close>

definition create_invoice_line :: "uid \<Rightarrow> invoice_line_input \<Rightarrow> invoice_line" where
  "create_invoice_line i l = \<lparr> vl_id = i, vl_product = vn_product l, vl_units = vn_units l, vl_price = vn_price l \<rparr>"

definition issue_line :: "string \<Rightarrow> uid \<times> invoice_line_input \<Rightarrow> invoice_error + invoice_line" where
  "issue_line cur il = (case il of (i, l) \<Rightarrow>
     if currency (vn_price l) \<noteq> cur then Inl (Invoice_Line_Currency_Mismatch cur (currency (vn_price l)))
     else Inr (create_invoice_line i l))"

definition issue_invoice :: "(nat \<Rightarrow> uid) \<Rightarrow> issue_input \<Rightarrow> invoice_context \<Rightarrow> invoice_error + invoice" where
  "issue_invoice fresh inp ctx =
     (if vi_lines inp = [] then Inl (Empty_Invoice_Lines (order_number_value (vi_order inp)))
      else bindR (mapR (issue_line (vi_currency inp)) (map (\<lambda>(k, l). (fresh k, l)) (enumerate 0 (vi_lines inp)))) (\<lambda>ls.
      bindR (mapErr Invoice_Money_Error (invoice_amount (vi_currency inp) ls)) (\<lambda>m.
      bindR (mapErr Invoice_Money_Error (money_subtract m (vi_discount inp))) (\<lambda>t.
      if amount t < 0 then Inl (Negative_Invoice_Total (amount m) (amount (vi_discount inp)) (vi_currency inp))
      else let v = \<lparr> v_id = vi_id inp, v_reference = vi_reference inp, v_date = vi_date inp, v_order = vi_order inp,
          v_retailer = vi_retailer inp, v_company = vi_company inp, v_currency = vi_currency inp, v_lines = ls,
          v_amount = m, v_discount = vi_discount inp, v_total = t, v_state = Invoice_Open, v_events = [] \<rparr> in
        append_invoice_fact (invoice_issued_event (fresh (length ls)) v (vi_correlation inp) ctx) v))))"

definition reconstitute_invoice :: "invoice_snapshot \<Rightarrow> invoice_error + invoice" where
  "reconstitute_invoice s =
     (if vs_status s = ''paid'' \<and> vs_paid_at s = None then Inl (Invalid_Invoice_Snapshot Paid_Without_Date (vs_id s))
      else if vs_status s = ''issued'' \<and> vs_paid_at s \<noteq> None
        then Inl (Invalid_Invoice_Snapshot (Issued_With_Date (the (vs_paid_at s))) (vs_id s))
      else case find (\<lambda>l. currency (vl_price l) \<noteq> vs_currency s) (vs_lines s) of
        Some l \<Rightarrow> Inl (Invalid_Invoice_Snapshot (Line_Currency (vl_id l) (currency (vl_price l)) (vs_currency s)) (vs_id s))
      | None \<Rightarrow>
        bindR (mapErr Invoice_Money_Error (invoice_amount (vs_currency s) (vs_lines s))) (\<lambda>m.
        if m \<noteq> vs_amount s
          then Inl (Invalid_Invoice_Snapshot (Amount_Not_Of_Lines (amount (vs_amount s)) (amount m)) (vs_id s))
        else bindR (mapErr Invoice_Money_Error (money_subtract m (vs_discount s))) (\<lambda>t.
        if t \<noteq> vs_total s
          then Inl (Invalid_Invoice_Snapshot (Total_Not_Of_Amount (amount (vs_total s)) (amount t)) (vs_id s))
        else Inr \<lparr> v_id = vs_id s, v_reference = vs_reference s, v_date = vs_date s, v_order = vs_order s,
          v_retailer = vs_retailer s, v_company = vs_company s, v_currency = vs_currency s, v_lines = vs_lines s,
          v_amount = vs_amount s, v_discount = vs_discount s, v_total = vs_total s,
          v_state = (if vs_status s = ''paid'' then Invoice_Settled (the (vs_paid_at s)) else Invoice_Open),
          v_events = [] \<rparr>)))"

definition mark_invoice_paid :: "uid \<Rightarrow> mark_paid_input \<Rightarrow> invoice_context \<Rightarrow> invoice \<Rightarrow> invoice_error + uid \<times> invoice" where
  "mark_invoice_paid eid inp ctx v =
     (if v_state v \<noteq> Invoice_Open then Inl (Invoice_Already_Paid (invoice_reference_value (v_reference v)))
      else if currency (mp_amount inp) \<noteq> v_currency v
        then Inl (Invoice_Payment_Currency_Mismatch (v_currency v) (currency (mp_amount inp)))
      else if mp_amount inp \<noteq> v_total v
        then Inl (Invoice_Payment_Amount_Mismatch (amount (v_total v)) (amount (mp_amount inp)) (v_currency v))
      else let v' = v \<lparr> v_state := Invoice_Settled (vx_at ctx) \<rparr>; e = payment_received_event eid v' inp ctx in
        bindR (append_invoice_fact e v') (\<lambda>v''. Inr (ev_id e, v'')))"

definition invoice_to_snapshot :: "invoice \<Rightarrow> invoice_snapshot" where
  "invoice_to_snapshot v = \<lparr> vs_id = v_id v, vs_reference = v_reference v, vs_date = v_date v, vs_order = v_order v,
     vs_retailer = v_retailer v, vs_company = v_company v, vs_currency = v_currency v, vs_lines = v_lines v,
     vs_amount = v_amount v, vs_discount = v_discount v, vs_total = v_total v,
     vs_status = invoice_status v, vs_paid_at = invoice_paid_at v \<rparr>"

end
