(* ===== verification/Billing_Store.thy ===== *)
theory Billing_Store
  imports Credit_Domain Invoice_Domain Table_Rows Place_Order
begin

text \<open>
  The tables of the Billing service and their repositories (apps/billing/src/infrastructure:
  persistence/buyer-credit.repository.ts, buyer-credit.mapper.ts, invoice.repository.ts,
  invoice.mapper.ts, invoice-number-allocator.ts, outbox/outbox-recorder.ts).  The ledger of a
  credit line is only ever inserted into; SQL adds its amounts exactly and the driver reads the
  sum as a number.  The rows of a credit's items belong to a credit row that was just read, and
  the rows of an invoice's items to an invoice row that was just inserted, so their foreign keys
  hold.
\<close>

record credit_row =
  kr_id :: uid
  kr_code :: string
  kr_retailer :: string
  kr_company :: string
  kr_limit :: int
  kr_currency :: string

record credit_item_row =
  ki_id :: uid
  ki_credit :: uid
  ki_order :: string
  ki_amount :: int
  ki_type :: credit_entry_type
  ki_date :: instant

record invoice_row =
  vr_id :: uid
  vr_reference :: string
  vr_date :: instant
  vr_company :: string
  vr_retailer :: string
  vr_order :: string
  vr_amount :: int
  vr_discount :: int
  vr_total :: int
  vr_currency :: string
  vr_status :: string
  vr_paid_at :: "instant option"

record invoice_item_row =
  vt_id :: uid
  vt_invoice :: uid
  vt_product :: string
  vt_units :: int
  vt_price :: int

record payment_row =
  pm_id :: uid
  pm_reference :: string
  pm_invoice :: uid
  pm_amount :: int
  pm_currency :: string
  pm_value_date :: instant
  pm_source :: payment_source
  pm_created :: instant

record billing_db =
  bd_credits :: "credit_row list"
  bd_credit_items :: "credit_item_row list"
  bd_invoices :: "invoice_row list"
  bd_invoice_items :: "invoice_item_row list"
  bd_payments :: "payment_row list"
  bd_outbox :: "outbox_row list"
  bd_next_seq :: nat
  bd_sequence :: "nat option"

datatype invoice_key = Key_Invoice_Id | Key_Invoice_Reference | Key_Invoice_Order | Key_Invoice_Item

datatype billing_error =
    Billing_Kernel kernel_error
  | Billing_Credit credit_error
  | Billing_Invoice invoice_error
  | Billing_Out_Of_Range
  | Billing_Outbox store_error
  | Duplicate_Credit_Item
  | Duplicate_Invoice invoice_key
  | Credit_Line_Not_Found string string
  | Credit_Currency_Mismatch string string
  | No_Active_Credit_Hold string
  | Invoice_Currency_Mismatch string string
  | Invoice_Not_Found string
  | Payment_Reference_Conflict string

section \<open>Credit lines\<close>

definition to_credit_entry :: "credit_row \<Rightarrow> credit_item_row \<Rightarrow> kernel_error + credit_entry" where
  "to_credit_entry row it =
     bindR (unique_id_from (ki_id it)) (\<lambda>i.
     bindR (order_number_of (ki_order it)) (\<lambda>ref.
     bindR (money_of (Js_Int (ki_amount it)) (kr_currency row)) (\<lambda>m.
     Inr \<lparr> ce_id = i, ce_order = ref, ce_amount = m, ce_type = ki_type it, ce_date = ki_date it \<rparr>)))"

definition to_credit_snapshot ::
    "credit_row \<Rightarrow> int \<Rightarrow> credit_item_row list \<Rightarrow> kernel_error + credit_snapshot" where
  "to_credit_snapshot row committed its =
     bindR (unique_id_from (kr_id row)) (\<lambda>i.
     bindR (credit_line_reference_of (kr_code row)) (\<lambda>code.
     bindR (mapR (to_credit_entry row) its) (\<lambda>es.
     Inr \<lparr> cz_id = i, cz_code = code, cz_retailer = kr_retailer row, cz_company = kr_company row,
       cz_limit = kr_limit row, cz_currency = kr_currency row, cz_committed = committed, cz_entries = es \<rparr>)))"

text \<open>The CASE expression of the sum: a hold adds, a release subtracts, a consumption is neutral.\<close>

definition signed_amount :: "credit_item_row \<Rightarrow> int" where
  "signed_amount it = (case ki_type it of
     Entry_Hold \<Rightarrow> ki_amount it | Entry_Release \<Rightarrow> - ki_amount it | Entry_Consume \<Rightarrow> 0)"

definition committed_of_line :: "uid \<Rightarrow> billing_db \<Rightarrow> int" where
  "committed_of_line i db = sum_list (map signed_amount (filter (\<lambda>it. ki_credit it = i) (bd_credit_items db)))"

definition lock_credit ::
    "string \<Rightarrow> string \<Rightarrow> order_number \<Rightarrow> billing_db \<Rightarrow> billing_error + buyer_credit option" where
  "lock_credit retailer company ref db =
     (case find (\<lambda>r. kr_retailer r = retailer \<and> kr_company r = company) (bd_credits db) of
        None \<Rightarrow> Inr None
      | Some row \<Rightarrow>
        bindR (mapErr Billing_Kernel (to_credit_snapshot row (js_round (committed_of_line (kr_id row) db))
          (filter (\<lambda>it. ki_credit it = kr_id row \<and> ki_order it = order_number_value ref) (bd_credit_items db)))) (\<lambda>s.
        bindR (mapErr Billing_Credit (reconstitute_credit s)) (\<lambda>bc. Inr (Some bc))))"

definition record_billing_outbox :: "instant \<Rightarrow> envelope list \<Rightarrow> billing_db \<Rightarrow> billing_error + billing_db" where
  "record_billing_outbox now evs db =
     (if evs = [] then Inr db
      else if event_id_taken evs (bd_outbox db) then Inl (Billing_Outbox (Duplicate_Key Key_Event_Id))
      else Inr (db \<lparr> bd_outbox := bd_outbox db @ outbox_rows now (bd_next_seq db) evs,
        bd_next_seq := bd_next_seq db + length evs \<rparr>))"

definition to_credit_item_row :: "buyer_credit \<Rightarrow> credit_entry \<Rightarrow> credit_item_row" where
  "to_credit_item_row bc e = \<lparr> ki_id = ce_id e, ki_credit = bc_id bc, ki_order = order_number_value (ce_order e),
     ki_amount = amount (ce_amount e), ki_type = ce_type e, ki_date = stored_datetime (ce_date e) \<rparr>"

definition save_credit :: "instant \<Rightarrow> buyer_credit \<Rightarrow> billing_db \<Rightarrow> billing_error + billing_db" where
  "save_credit now bc db =
     (let rows = map (to_credit_item_row bc) (bc_appended bc) in
      if \<not> list_all (\<lambda>r. fits_int (ki_amount r)) rows then Inl Billing_Out_Of_Range
      else if \<not> distinct (map ki_id rows) \<or> list_ex (\<lambda>r. list_ex (\<lambda>x. ki_id x = ki_id r) (bd_credit_items db)) rows
        then Inl Duplicate_Credit_Item
      else record_billing_outbox now (bc_events bc) (db \<lparr> bd_credit_items := bd_credit_items db @ rows \<rparr>))"

section \<open>Invoices and payments\<close>

definition to_invoice_line :: "string \<Rightarrow> invoice_item_row \<Rightarrow> kernel_error + invoice_line" where
  "to_invoice_line cur it =
     bindR (unique_id_from (vt_id it)) (\<lambda>i.
     bindR (quantity_of (Js_Int (vt_units it))) (\<lambda>q.
     bindR (money_of (Js_Int (vt_price it)) cur) (\<lambda>m.
     Inr \<lparr> vl_id = i, vl_product = vt_product it, vl_units = q, vl_price = m \<rparr>)))"

definition to_invoice_snapshot :: "invoice_row \<Rightarrow> invoice_item_row list \<Rightarrow> kernel_error + invoice_snapshot" where
  "to_invoice_snapshot row its =
     bindR (unique_id_from (vr_id row)) (\<lambda>i.
     bindR (invoice_reference_of (vr_reference row)) (\<lambda>ref.
     bindR (order_number_of (vr_order row)) (\<lambda>ord.
     bindR (mapR (to_invoice_line (vr_currency row)) its) (\<lambda>ls.
     bindR (money_of (Js_Int (vr_amount row)) (vr_currency row)) (\<lambda>m.
     bindR (money_of (Js_Int (vr_discount row)) (vr_currency row)) (\<lambda>d.
     bindR (money_of (Js_Int (vr_total row)) (vr_currency row)) (\<lambda>t.
     Inr \<lparr> vs_id = i, vs_reference = ref, vs_date = vr_date row, vs_order = ord, vs_retailer = vr_retailer row,
       vs_company = vr_company row, vs_currency = vr_currency row, vs_lines = ls, vs_amount = m, vs_discount = d,
       vs_total = t, vs_status = vr_status row, vs_paid_at = vr_paid_at row \<rparr>)))))))"

definition find_invoice :: "(invoice_row \<Rightarrow> bool) \<Rightarrow> billing_db \<Rightarrow> billing_error + invoice_snapshot option" where
  "find_invoice cond db = (case find cond (bd_invoices db) of
     None \<Rightarrow> Inr None
   | Some row \<Rightarrow> bindR (mapErr Billing_Kernel (to_invoice_snapshot row
       (filter (\<lambda>it. vt_invoice it = vr_id row) (bd_invoice_items db)))) (\<lambda>s. Inr (Some s)))"

definition find_invoice_by_order :: "order_number \<Rightarrow> billing_db \<Rightarrow> billing_error + invoice_snapshot option" where
  "find_invoice_by_order ref = find_invoice (\<lambda>r. vr_order r = order_number_value ref)"

definition find_invoice_by_id :: "uid \<Rightarrow> billing_db \<Rightarrow> billing_error + invoice_snapshot option" where
  "find_invoice_by_id i = find_invoice (\<lambda>r. vr_id r = i)"

definition find_invoice_by_reference :: "invoice_reference \<Rightarrow> billing_db \<Rightarrow> billing_error + invoice_snapshot option" where
  "find_invoice_by_reference ref = find_invoice (\<lambda>r. vr_reference r = invoice_reference_value ref)"

definition to_invoice_table_row :: "invoice \<Rightarrow> invoice_row" where
  "to_invoice_table_row v = \<lparr> vr_id = v_id v, vr_reference = invoice_reference_value (v_reference v),
     vr_date = stored_datetime (v_date v), vr_company = v_company v, vr_retailer = v_retailer v,
     vr_order = order_number_value (v_order v), vr_amount = amount (v_amount v), vr_discount = amount (v_discount v),
     vr_total = amount (v_total v), vr_currency = v_currency v, vr_status = invoice_status v,
     vr_paid_at = map_option stored_datetime (invoice_paid_at v) \<rparr>"

definition to_invoice_item_row :: "invoice \<Rightarrow> invoice_line \<Rightarrow> invoice_item_row" where
  "to_invoice_item_row v l = \<lparr> vt_id = vl_id l, vt_invoice = v_id v, vt_product = vl_product l,
     vt_units = q_value (vl_units l), vt_price = amount (vl_price l) \<rparr>"

definition save_invoice :: "instant \<Rightarrow> invoice \<Rightarrow> billing_db \<Rightarrow> billing_error + billing_db" where
  "save_invoice now v db =
     (let row = to_invoice_table_row v; its = map (to_invoice_item_row v) (v_lines v) in
      if \<not> (fits_int (vr_amount row) \<and> fits_int (vr_discount row) \<and> fits_int (vr_total row)) then Inl Billing_Out_Of_Range
      else if list_ex (\<lambda>r. vr_id r = vr_id row) (bd_invoices db) then Inl (Duplicate_Invoice Key_Invoice_Id)
      else if list_ex (\<lambda>r. vr_reference r = vr_reference row) (bd_invoices db) then Inl (Duplicate_Invoice Key_Invoice_Reference)
      else if list_ex (\<lambda>r. vr_order r = vr_order row) (bd_invoices db) then Inl (Duplicate_Invoice Key_Invoice_Order)
      else if \<not> list_all (\<lambda>r. fits_int (vt_units r) \<and> fits_int (vt_price r)) its then Inl Billing_Out_Of_Range
      else if \<not> distinct (map vt_id its) \<or> list_ex (\<lambda>r. list_ex (\<lambda>x. vt_id x = vt_id r) (bd_invoice_items db)) its
        then Inl (Duplicate_Invoice Key_Invoice_Item)
      else record_billing_outbox now (v_events v)
        (db \<lparr> bd_invoices := bd_invoices db @ [row], bd_invoice_items := bd_invoice_items db @ its \<rparr>))"

record payment_record =
  pt_id :: uid
  pt_reference :: string
  pt_invoice :: uid
  pt_amount :: money
  pt_value_date :: instant
  pt_source :: payment_source
  pt_created :: instant

definition to_payment_record :: "payment_row \<Rightarrow> kernel_error + payment_record" where
  "to_payment_record row =
     bindR (unique_id_from (pm_id row)) (\<lambda>i.
     bindR (unique_id_from (pm_invoice row)) (\<lambda>inv.
     bindR (money_of (Js_Int (pm_amount row)) (pm_currency row)) (\<lambda>m.
     Inr \<lparr> pt_id = i, pt_reference = pm_reference row, pt_invoice = inv, pt_amount = m,
       pt_value_date = pm_value_date row, pt_source = pm_source row, pt_created = pm_created row \<rparr>)))"

definition find_payment :: "(payment_row \<Rightarrow> bool) \<Rightarrow> billing_db \<Rightarrow> billing_error + payment_record option" where
  "find_payment cond db = (case find cond (bd_payments db) of
     None \<Rightarrow> Inr None
   | Some row \<Rightarrow> bindR (mapErr Billing_Kernel (to_payment_record row)) (\<lambda>p. Inr (Some p)))"

definition find_payment_by_reference :: "string \<Rightarrow> billing_db \<Rightarrow> billing_error + payment_record option" where
  "find_payment_by_reference ref = find_payment (\<lambda>r. pm_reference r = ref)"

definition find_payment_by_invoice :: "uid \<Rightarrow> billing_db \<Rightarrow> billing_error + payment_record option" where
  "find_payment_by_invoice i = find_payment (\<lambda>r. pm_invoice r = i)"

definition to_payment_table_row :: "uid \<Rightarrow> payment_record \<Rightarrow> payment_row" where
  "to_payment_table_row i p = \<lparr> pm_id = pt_id p, pm_reference = pt_reference p, pm_invoice = i,
     pm_amount = amount (pt_amount p), pm_currency = currency (pt_amount p),
     pm_value_date = stored_datetime (pt_value_date p), pm_source = pt_source p, pm_created = stored_datetime (pt_created p) \<rparr>"

definition settle_invoice_row :: "invoice \<Rightarrow> billing_db \<Rightarrow> billing_db" where
  "settle_invoice_row v db = db \<lparr> bd_invoices := map (\<lambda>r. if vr_id r = v_id v
     then r \<lparr> vr_status := invoice_status v, vr_paid_at := map_option stored_datetime (invoice_paid_at v) \<rparr>
     else r) (bd_invoices db) \<rparr>"

definition save_payment :: "instant \<Rightarrow> invoice \<Rightarrow> payment_record \<Rightarrow> billing_db \<Rightarrow> billing_error + billing_db" where
  "save_payment now v p db =
     (let db1 = settle_invoice_row v db; row = to_payment_table_row (v_id v) p in
      if \<not> fits_int (pm_amount row) then Inl Billing_Out_Of_Range
      else if list_ex (\<lambda>r. pm_id r = pm_id row \<or> pm_reference r = pm_reference row) (bd_payments db1)
        then Inl (Payment_Reference_Conflict (pt_reference p))
      else record_billing_outbox now (v_events v) (db1 \<lparr> bd_payments := bd_payments db1 @ [row] \<rparr>))"

section \<open>Invoice references\<close>

definition max_invoice_sequence :: "billing_db \<Rightarrow> nat" where
  "max_invoice_sequence db = fold max (map (\<lambda>r. sequence_of_reference (vr_reference r)) (bd_invoices db)) 0"

definition next_invoice_reference :: "billing_db \<Rightarrow> billing_error + invoice_reference \<times> billing_db" where
  "next_invoice_reference db =
     (let start_at = max_invoice_sequence db + 1;
          cur = (case bd_sequence db of None \<Rightarrow> start_at | Some v \<Rightarrow> v) in
      if \<not> fits_int (int cur + 1) then Inl Billing_Out_Of_Range
      else bindR (mapErr Billing_Kernel (invoice_reference_from_sequence (Js_Int (int cur)))) (\<lambda>ref.
        Inr (ref, db \<lparr> bd_sequence := Some (cur + 1) \<rparr>)))"

end
