(* ===== verification/Billing_Handlers.thy ===== *)
theory Billing_Handlers
  imports Billing_Store Saga_Steps
begin

text \<open>
  The commands of the Billing service (apps/billing/src/application: credit-hold.handler.ts,
  credit-release.handler.ts, invoice-issue.handler.ts, payment-register.handler.ts) and the two
  adapters of its credit-decision port (infrastructure/credit).  A handler that reads before its
  transaction has two states as arguments, the one it reads and the one its transaction runs on;
  \<open>fresh\<close> names the identifiers a call draws, one argument for each place that draws one.  The
  value date of a payment is the instant its text denotes.
\<close>

section \<open>The credit decision\<close>

datatype adapter_rejection = Refuse_Cents | Refuse_Rate

datatype credit_decision = Decide_Approve | Decide_Refuse adapter_rejection

record credit_decision_request =
  dr_reference :: string
  dr_retailer :: string
  dr_company :: string
  dr_credit_code :: string
  dr_amount :: int
  dr_currency :: string
  dr_available :: int

fun adapter_reason :: "adapter_rejection \<Rightarrow> credit_rejection_reason" where
  "adapter_reason Refuse_Cents = Simulated_Cents_Rule"
| "adapter_reason Refuse_Rate = Simulated_Failure_Rate"

definition always_approve :: "credit_decision_request \<Rightarrow> credit_decision" where
  "always_approve req = Decide_Approve"

definition simulator_decide :: "rat \<Rightarrow> rat \<Rightarrow> credit_decision_request \<Rightarrow> credit_decision" where
  "simulator_decide failure_rate draw req =
     (if js_rem (dr_amount req) 100 = 99 then Decide_Refuse Refuse_Cents
      else if draw < failure_rate then Decide_Refuse Refuse_Rate
      else Decide_Approve)"

section \<open>Replies\<close>

datatype hold_outcome = Outcome_Approved int | Outcome_Already_Held int | Outcome_Rejected credit_rejection_reason

record hold_reply =
  ha_outcome :: hold_outcome
  ha_reference :: string
  ha_credit_code :: string
  ha_currency :: string
  ha_available :: int

record credit_release_reply =
  la_released :: "int option"
  la_reference :: string
  la_credit_code :: string
  la_currency :: string
  la_available_after :: int

record issue_reply =
  ia_reference :: string
  ia_id :: uid
  ia_invoice_reference :: string
  ia_date :: instant
  ia_currency :: string
  ia_total :: int
  ia_status :: string
  ia_created :: bool

datatype payment_outcome = Payment_Accepted | Payment_Duplicate

record payment_reply =
  pa_outcome :: payment_outcome
  pa_payment_reference :: string
  pa_invoice_reference :: string
  pa_order :: string
  pa_status :: string
  pa_paid_at :: "instant option"

definition available_of :: "buyer_credit \<Rightarrow> billing_error + int" where
  "available_of bc = bindR (mapErr Billing_Kernel (available_credit bc)) (\<lambda>m. Inr (amount m))"

definition parse_billing_order :: "string \<Rightarrow> billing_error + order_number" where
  "parse_billing_order s = mapErr Billing_Kernel (order_number_of s)"

definition billing_money :: "int \<Rightarrow> string \<Rightarrow> billing_error + money" where
  "billing_money n c = mapErr Billing_Kernel (money_of (Js_Int n) c)"

section \<open>Holding credit\<close>

definition hold_answer :: "hold_request \<Rightarrow> buyer_credit \<Rightarrow> hold_outcome \<Rightarrow> billing_error + hold_reply" where
  "hold_answer req bc out = bindR (available_of bc) (\<lambda>left.
     Inr \<lparr> ha_outcome = out, ha_reference = hq_reference req,
       ha_credit_code = credit_line_reference_value (bc_code bc), ha_currency = bc_currency bc, ha_available = left \<rparr>)"

definition hold_refused ::
    "instant \<Rightarrow> (nat \<Rightarrow> uid) \<Rightarrow> hold_request \<Rightarrow> credit_hold_request \<Rightarrow> credit_rejection_reason \<Rightarrow> credit_context \<Rightarrow>
      buyer_credit \<Rightarrow> billing_db \<Rightarrow> billing_error + hold_reply \<times> billing_db" where
  "hold_refused now fresh req hr reason ctx bc db =
     bindR (mapErr Billing_Credit (refuse_hold (fresh 0) hr reason ctx bc)) (\<lambda>bc'.
     bindR (save_credit now bc' db) (\<lambda>db'.
     bindR (hold_answer req bc' (Outcome_Rejected reason)) (\<lambda>r. Inr (r, db'))))"

definition hold_in_transaction ::
    "(credit_decision_request \<Rightarrow> credit_decision) \<Rightarrow> instant \<Rightarrow> (nat \<Rightarrow> uid) \<Rightarrow> hold_request \<Rightarrow> uid \<Rightarrow> uid \<Rightarrow>
      order_number \<Rightarrow> money \<Rightarrow> billing_db \<Rightarrow> billing_error + hold_reply \<times> billing_db" where
  "hold_in_transaction decide now fresh req request_id corr ref m db =
     bindR (lock_credit (hq_retailer req) (hq_company req) ref db) (\<lambda>found.
     case found of
       None \<Rightarrow> Inl (Credit_Line_Not_Found (hq_retailer req) (hq_company req))
     | Some bc \<Rightarrow>
       let hr = \<lparr> hr_order = ref, hr_amount = m, hr_correlation = corr \<rparr>;
           ctx = \<lparr> cx_at = now, cx_causation = request_id \<rparr> in
       bindR (mapErr Billing_Credit (evaluate_hold hr bc)) (\<lambda>v. case v of
         Already_Held held \<Rightarrow>
           bindR (hold_answer req bc (Outcome_Already_Held (amount held))) (\<lambda>r. Inr (r, db))
       | Hold_Currency_Mismatch expected \<Rightarrow> Inl (Credit_Currency_Mismatch expected (hq_currency req))
       | Hold_Over_Limit left \<Rightarrow> hold_refused now fresh req hr Over_Limit ctx bc db
       | Hold_Fits \<Rightarrow>
           bindR (available_of bc) (\<lambda>left.
           case decide \<lparr> dr_reference = hq_reference req, dr_retailer = hq_retailer req, dr_company = hq_company req,
               dr_credit_code = credit_line_reference_value (bc_code bc), dr_amount = amount m,
               dr_currency = currency m, dr_available = left \<rparr> of
             Decide_Refuse why \<Rightarrow> hold_refused now fresh req hr (adapter_reason why) ctx bc db
           | Decide_Approve \<Rightarrow>
               bindR (mapErr Billing_Credit (approve_hold (fresh 0) (fresh 1) hr ctx bc)) (\<lambda>(e, bc').
               bindR (save_credit now bc' db) (\<lambda>db'.
               bindR (hold_answer req bc' (Outcome_Approved (amount m))) (\<lambda>r. Inr (r, db')))))))"

definition execute_hold ::
    "(credit_decision_request \<Rightarrow> credit_decision) \<Rightarrow> instant \<Rightarrow> (nat \<Rightarrow> uid) \<Rightarrow> hold_request \<Rightarrow> uid \<Rightarrow> uid \<Rightarrow>
      billing_db \<Rightarrow> (billing_error + hold_reply) \<times> billing_db" where
  "execute_hold decide now fresh req request_id corr db =
     (case bindR (parse_billing_order (hq_reference req)) (\<lambda>ref.
         bindR (billing_money (hq_amount req) (hq_currency req)) (\<lambda>m. Inr (ref, m))) of
        Inl e \<Rightarrow> (Inl e, db)
      | Inr (ref, m) \<Rightarrow> unit_of_work (hold_in_transaction decide now fresh req request_id corr ref m) db)"

section \<open>Releasing credit\<close>

definition credit_release_in_transaction ::
    "instant \<Rightarrow> (nat \<Rightarrow> uid) \<Rightarrow> credit_release_request \<Rightarrow> uid \<Rightarrow> uid \<Rightarrow> order_number \<Rightarrow> billing_db \<Rightarrow>
      billing_error + credit_release_reply \<times> billing_db" where
  "credit_release_in_transaction now fresh req request_id corr ref db =
     bindR (lock_credit (lq_retailer req) (lq_company req) ref db) (\<lambda>found.
     case found of
       None \<Rightarrow> Inl (Credit_Line_Not_Found (lq_retailer req) (lq_company req))
     | Some bc \<Rightarrow>
       bindR (mapErr Billing_Credit (release_hold (fresh 0) (fresh 1) ref Release_Cancelled corr
         \<lparr> cx_at = now, cx_causation = request_id \<rparr> bc)) (\<lambda>(entry, bc').
       bindR (case entry of None \<Rightarrow> Inr db | Some e \<Rightarrow> save_credit now bc' db) (\<lambda>db'.
       bindR (available_of bc') (\<lambda>left.
       Inr (\<lparr> la_released = map_option (\<lambda>e. amount (ce_amount e)) entry, la_reference = lq_reference req,
         la_credit_code = credit_line_reference_value (bc_code bc'), la_currency = bc_currency bc',
         la_available_after = left \<rparr>, db')))))"

definition execute_credit_release ::
    "instant \<Rightarrow> (nat \<Rightarrow> uid) \<Rightarrow> credit_release_request \<Rightarrow> uid \<Rightarrow> uid \<Rightarrow> billing_db \<Rightarrow>
      (billing_error + credit_release_reply) \<times> billing_db" where
  "execute_credit_release now fresh req request_id corr db = (case parse_billing_order (lq_reference req) of
     Inl e \<Rightarrow> (Inl e, db)
   | Inr ref \<Rightarrow> unit_of_work (credit_release_in_transaction now fresh req request_id corr ref) db)"

section \<open>Issuing an invoice\<close>

definition issue_reply_from_snapshot :: "invoice_snapshot \<Rightarrow> bool \<Rightarrow> issue_reply" where
  "issue_reply_from_snapshot s created = \<lparr> ia_reference = order_number_value (vs_order s), ia_id = vs_id s,
     ia_invoice_reference = invoice_reference_value (vs_reference s), ia_date = vs_date s, ia_currency = vs_currency s,
     ia_total = amount (vs_total s), ia_status = vs_status s, ia_created = created \<rparr>"

definition reply_from_invoice :: "invoice \<Rightarrow> bool \<Rightarrow> issue_reply" where
  "reply_from_invoice v created = \<lparr> ia_reference = order_number_value (v_order v), ia_id = v_id v,
     ia_invoice_reference = invoice_reference_value (v_reference v), ia_date = v_date v, ia_currency = v_currency v,
     ia_total = amount (v_total v), ia_status = invoice_status v, ia_created = created \<rparr>"

definition issue_line_input :: "string \<Rightarrow> invoice_line_payload \<Rightarrow> billing_error + invoice_line_input" where
  "issue_line_input cur l =
     bindR (mapErr Billing_Kernel (quantity_of (Js_Int (il_units l)))) (\<lambda>q.
     bindR (billing_money (il_unit_price l) cur) (\<lambda>m.
     Inr \<lparr> vn_product = il_product l, vn_units = q, vn_price = m \<rparr>))"

definition issue_in_transaction ::
    "instant \<Rightarrow> (nat \<Rightarrow> uid) \<Rightarrow> issue_request \<Rightarrow> uid \<Rightarrow> uid \<Rightarrow> order_number \<Rightarrow> billing_db \<Rightarrow>
      billing_error + issue_reply \<times> billing_db" where
  "issue_in_transaction now fresh req request_id corr ref db =
     bindR (lock_credit (iq_retailer req) (iq_company req) ref db) (\<lambda>found.
     case found of
       None \<Rightarrow> Inl (Credit_Line_Not_Found (iq_retailer req) (iq_company req))
     | Some bc \<Rightarrow>
       bindR (find_invoice_by_order ref db) (\<lambda>existing. case existing of
         Some s \<Rightarrow> Inr (issue_reply_from_snapshot s False, db)
       | None \<Rightarrow>
         if iq_currency req \<noteq> bc_currency bc then Inl (Invoice_Currency_Mismatch (bc_currency bc) (iq_currency req))
         else if order_exposure_in oe_active ref (credit_summary bc) \<le> 0 then Inl (No_Active_Credit_Hold (iq_reference req))
         else
           bindR (next_invoice_reference db) (\<lambda>(vref, db1).
           bindR (mapR (issue_line_input (iq_currency req)) (iq_lines req)) (\<lambda>ls.
           bindR (billing_money (or_else (iq_discount req) 0) (iq_currency req)) (\<lambda>d.
           bindR (mapErr Billing_Invoice (issue_invoice (\<lambda>k. fresh (k + 1))
             \<lparr> vi_id = fresh 0, vi_reference = vref, vi_date = now, vi_order = ref, vi_retailer = iq_retailer req,
               vi_company = iq_company req, vi_currency = iq_currency req, vi_lines = ls, vi_discount = d,
               vi_correlation = corr \<rparr> \<lparr> vx_at = now, vx_causation = request_id \<rparr>)) (\<lambda>v.
           bindR (mapErr Billing_Credit (consume_hold (fresh (length ls + 2)) ref
             \<lparr> cx_at = now, cx_causation = request_id \<rparr> bc)) (\<lambda>(e, bc').
           bindR (save_invoice now v db1) (\<lambda>db2.
           bindR (save_credit now bc' db2) (\<lambda>db3.
           Inr (reply_from_invoice v True, db3))))))))))"

definition execute_issue ::
    "instant \<Rightarrow> (nat \<Rightarrow> uid) \<Rightarrow> issue_request \<Rightarrow> uid \<Rightarrow> uid \<Rightarrow> billing_db \<Rightarrow> billing_db \<Rightarrow>
      (billing_error + issue_reply) \<times> billing_db" where
  "execute_issue now fresh req request_id corr db_read db_tx =
     (case bindR (parse_billing_order (iq_reference req)) (\<lambda>ref.
         bindR (find_invoice_by_order ref db_read) (\<lambda>existing. Inr (ref, existing))) of
        Inl e \<Rightarrow> (Inl e, db_tx)
      | Inr (ref, Some s) \<Rightarrow> (Inr (issue_reply_from_snapshot s False), db_tx)
      | Inr (ref, None) \<Rightarrow> unit_of_work (issue_in_transaction now fresh req request_id corr ref) db_tx)"

section \<open>Registering a payment\<close>

record payment_request =
  yq_invoice_id :: "string option"
  yq_invoice_reference :: "string option"
  yq_payment_reference :: string
  yq_amount :: int
  yq_currency :: string
  yq_value_date :: instant
  yq_source :: payment_source

definition identity_of :: "payment_request \<Rightarrow> string" where
  "identity_of req = (case yq_invoice_id req of Some i \<Rightarrow> i | None \<Rightarrow>
     or_else (yq_invoice_reference req) ''(no invoice identity given)'')"

definition identity_matches_invoice :: "payment_request \<Rightarrow> invoice_snapshot \<Rightarrow> bool" where
  "identity_matches_invoice req s =
     (if yq_invoice_id req \<noteq> None \<and> yq_invoice_id req \<noteq> Some (vs_id s) then False
      else if yq_invoice_reference req \<noteq> None \<and>
        yq_invoice_reference req \<noteq> Some (invoice_reference_value (vs_reference s)) then False
      else True)"

definition reply_from_duplicate :: "invoice_snapshot \<Rightarrow> payment_record \<Rightarrow> payment_reply" where
  "reply_from_duplicate s p = \<lparr> pa_outcome = Payment_Duplicate, pa_payment_reference = pt_reference p,
     pa_invoice_reference = invoice_reference_value (vs_reference s), pa_order = order_number_value (vs_order s),
     pa_status = vs_status s, pa_paid_at = vs_paid_at s \<rparr>"

definition reply_from_paid_invoice :: "invoice \<Rightarrow> string \<Rightarrow> payment_reply" where
  "reply_from_paid_invoice v pref = \<lparr> pa_outcome = Payment_Accepted, pa_payment_reference = pref,
     pa_invoice_reference = invoice_reference_value (v_reference v), pa_order = order_number_value (v_order v),
     pa_status = invoice_status v, pa_paid_at = invoice_paid_at v \<rparr>"

definition resolve_invoice :: "payment_request \<Rightarrow> billing_db \<Rightarrow> billing_error + invoice_snapshot option" where
  "resolve_invoice req db =
     (if truthy (yq_invoice_id req)
      then bindR (mapErr Billing_Kernel (unique_id_from (the (yq_invoice_id req)))) (\<lambda>i. find_invoice_by_id i db)
      else if truthy (yq_invoice_reference req)
      then bindR (mapErr Billing_Kernel (invoice_reference_of (the (yq_invoice_reference req))))
        (\<lambda>ref. find_invoice_by_reference ref db)
      else Inr None)"

definition paid_by_same :: "payment_request \<Rightarrow> invoice \<Rightarrow> billing_db \<Rightarrow> billing_error + payment_record option" where
  "paid_by_same req v db = (if invoice_status v \<noteq> ''paid'' then Inr None
     else bindR (find_payment_by_invoice (v_id v) db) (\<lambda>paid. case paid of
       Some p \<Rightarrow> Inr (if pt_reference p = yq_payment_reference req then Some p else None)
     | None \<Rightarrow> Inr None))"

definition payment_in_transaction ::
    "instant \<Rightarrow> (nat \<Rightarrow> uid) \<Rightarrow> payment_request \<Rightarrow> uid \<Rightarrow> uid \<Rightarrow> invoice_snapshot \<Rightarrow> billing_db \<Rightarrow>
      billing_error + payment_reply \<times> billing_db" where
  "payment_in_transaction now fresh req request_id corr s db =
     bindR (lock_credit (vs_retailer s) (vs_company s) (vs_order s) db) (\<lambda>found.
     case found of
       None \<Rightarrow> Inl (Credit_Line_Not_Found (vs_retailer s) (vs_company s))
     | Some bc \<Rightarrow>
       bindR (find_invoice_by_id (vs_id s) db) (\<lambda>locked. case locked of
         None \<Rightarrow> Inl (Invoice_Not_Found (vs_id s))
       | Some s' \<Rightarrow>
         bindR (mapErr Billing_Invoice (reconstitute_invoice s')) (\<lambda>v.
         bindR (paid_by_same req v db) (\<lambda>same. case same of
           Some p \<Rightarrow> Inr (reply_from_duplicate s' p, db)
         | None \<Rightarrow>
           bindR (billing_money (yq_amount req) (yq_currency req)) (\<lambda>m.
           bindR (mapErr Billing_Invoice (mark_invoice_paid (fresh 0) \<lparr> mp_reference = yq_payment_reference req, mp_amount = m,
             mp_value_date = yq_value_date req, mp_source = yq_source req, mp_correlation = corr \<rparr>
             \<lparr> vx_at = now, vx_causation = request_id \<rparr> v)) (\<lambda>(eid, v').
           bindR (mapErr Billing_Credit (release_hold (fresh 1) (fresh 2) (vs_order s) Release_Invoice_Paid corr
             \<lparr> cx_at = now, cx_causation = eid \<rparr> bc)) (\<lambda>(entry, bc').
           bindR (save_payment now v' \<lparr> pt_id = fresh 3, pt_reference = yq_payment_reference req, pt_invoice = v_id v',
             pt_amount = m, pt_value_date = yq_value_date req, pt_source = yq_source req, pt_created = now \<rparr> db) (\<lambda>db1.
           bindR (save_credit now bc' db1) (\<lambda>db2.
           Inr (reply_from_paid_invoice v' (yq_payment_reference req), db2))))))))))"

definition execute_payment ::
    "instant \<Rightarrow> (nat \<Rightarrow> uid) \<Rightarrow> payment_request \<Rightarrow> uid \<Rightarrow> uid \<Rightarrow> billing_db \<Rightarrow> billing_db \<Rightarrow>
      (billing_error + payment_reply) \<times> billing_db" where
  "execute_payment now fresh req request_id corr db_read db_tx =
     (case find_payment_by_reference (yq_payment_reference req) db_read of
        Inl e \<Rightarrow> (Inl e, db_tx)
      | Inr (Some p) \<Rightarrow>
        (case find_invoice_by_id (pt_invoice p) db_read of
           Inl e \<Rightarrow> (Inl e, db_tx)
         | Inr None \<Rightarrow> (Inl (Invoice_Not_Found (pt_invoice p)), db_tx)
         | Inr (Some s) \<Rightarrow>
           (if \<not> identity_matches_invoice req s then Inl (Payment_Reference_Conflict (yq_payment_reference req))
            else Inr (reply_from_duplicate s p), db_tx))
      | Inr None \<Rightarrow>
        (case resolve_invoice req db_read of
           Inl e \<Rightarrow> (Inl e, db_tx)
         | Inr None \<Rightarrow> (Inl (Invoice_Not_Found (identity_of req)), db_tx)
         | Inr (Some s) \<Rightarrow> unit_of_work (payment_in_transaction now fresh req request_id corr s) db_tx))"

end
