(* ===== verification/Billing_Ledger.thy ===== *)
theory Billing_Ledger
  imports Billing_Handlers
begin

text \<open>
  The credit ledger as an invariant of the Billing tables: \<open>ledger_ok\<close> says that the rows can be
  read back and that no line is committed beyond its limit.  \<open>billing_step\<close> is one command of
  the service; the states its reads see before the transaction are arbitrary.
\<close>

named_theorems credit_ops "the operations of a buyer credit, unfolded"

section \<open>The invariant\<close>

definition item_ok :: "credit_item_row \<Rightarrow> bool" where
  "item_ok it \<longleftrightarrow> unique_id_from (ki_id it) = Inr (ki_id it) \<and> is_ok (order_number_of (ki_order it)) \<and> fits_int (ki_amount it)"

definition credit_row_ok :: "credit_row \<Rightarrow> bool" where
  "credit_row_ok r \<longleftrightarrow> unique_id_from (kr_id r) = Inr (kr_id r) \<and> is_ok (credit_line_reference_of (kr_code r)) \<and>
     currency_shape (kr_currency r) \<and> 0 \<le> kr_limit r \<and> fits_int (kr_limit r)"

definition ledger_ok :: "billing_db \<Rightarrow> bool" where
  "ledger_ok db \<longleftrightarrow> distinct (map kr_id (bd_credits db)) \<and> list_all credit_row_ok (bd_credits db) \<and>
     list_all item_ok (bd_credit_items db) \<and>
     list_all (\<lambda>r. committed_of_line (kr_id r) db \<le> kr_limit r) (bd_credits db)"

definition uuid_stream :: "(nat \<Rightarrow> uid) \<Rightarrow> bool" where
  "uuid_stream fresh \<longleftrightarrow> (\<forall>k. unique_id_from (fresh k) = Inr (fresh k))"

inductive billing_step :: "billing_db \<Rightarrow> billing_db \<Rightarrow> bool" where
  Hold: "uuid_stream fresh \<Longrightarrow> billing_step db (snd (execute_hold decide now fresh hold_req request_id corr db))"
| Release: "uuid_stream fresh \<Longrightarrow> billing_step db (snd (execute_credit_release now fresh release_req request_id corr db))"
| Issue: "uuid_stream fresh \<Longrightarrow> billing_step db (snd (execute_issue now fresh issue_req request_id corr db_read db))"
| Pay: "uuid_stream fresh \<Longrightarrow> billing_step db (snd (execute_payment now fresh pay_req request_id corr db_read db))"

inductive_cases billing_stepE: "billing_step db db'"

lemma fits_int_safe: "fits_int n \<Longrightarrow> is_safe n"
  by (auto simp: fits_int_def is_safe_def max_safe_def)

lemma order_number_of_value: "order_number_of s = Inr ref \<longleftrightarrow> ref = Order_Number s \<and> is_ok (order_number_of s)"
  by (auto simp: order_number_of_def parse_reference_def result_simps split: if_splits)

lemma committed_append: "committed_of_line i (db \<lparr> bd_credit_items := bd_credit_items db @ rows \<rparr>) =
   committed_of_line i db + sum_list (map signed_amount (filter (\<lambda>it. ki_credit it = i) rows))"
  by (simp add: committed_of_line_def)

lemma committed_cong: "bd_credit_items db = bd_credit_items db' \<Longrightarrow> committed_of_line i db = committed_of_line i db'"
  by (simp add: committed_of_line_def)

lemma ledger_cong:
  "\<lbrakk> bd_credit_items db' = bd_credit_items db; bd_credits db' = bd_credits db \<rbrakk> \<Longrightarrow> ledger_ok db' = ledger_ok db"
  by (simp add: ledger_ok_def committed_of_line_def)

text \<open>Rows of one line are appended and the line stays within its limit.\<close>

lemma ledger_append:
  assumes ok: "ledger_ok db" and row: "row \<in> set (bd_credits db)"
    and db': "bd_credits db' = bd_credits db" "bd_credit_items db' = bd_credit_items db @ rows"
    and rows: "\<And>r. r \<in> set rows \<Longrightarrow> item_ok r \<and> ki_credit r = kr_id row"
    and limit: "committed_of_line (kr_id row) db + sum_list (map signed_amount rows) \<le> kr_limit row"
  shows "ledger_ok db'"
proof -
  have sum: "committed_of_line i db' = committed_of_line i db +
      sum_list (map signed_amount (filter (\<lambda>it. ki_credit it = i) rows))" for i
    using committed_append [of i db rows] committed_cong [of db' "db \<lparr> bd_credit_items := bd_credit_items db @ rows \<rparr>"] db'
    by simp
  have same: "committed_of_line (kr_id row) db' = committed_of_line (kr_id row) db + sum_list (map signed_amount rows)"
    using rows by (simp add: sum filter_True)
  have other: "committed_of_line (kr_id r) db' = committed_of_line (kr_id r) db" if "kr_id r \<noteq> kr_id row" for r
    using rows that by (simp add: sum filter_False)
  have "committed_of_line (kr_id r) db' \<le> kr_limit r" if "r \<in> set (bd_credits db)" for r
  proof (cases "kr_id r = kr_id row")
    case True
    then have "r = row" using ok row that by (auto simp: ledger_ok_def distinct_map dest: inj_onD)
    then show ?thesis using same limit by simp
  next
    case False
    then show ?thesis using ok that by (simp add: other ledger_ok_def list_all_iff)
  qed
  then show ?thesis using ok rows by (auto simp: ledger_ok_def db' list_all_iff)
qed

section \<open>Reading a line\<close>

definition entry_of_row :: "credit_row \<Rightarrow> credit_item_row \<Rightarrow> credit_entry" where
  "entry_of_row row it = \<lparr> ce_id = ki_id it, ce_order = Order_Number (ki_order it),
     ce_amount = \<lparr> amount = ki_amount it, currency = kr_currency row \<rparr>, ce_type = ki_type it, ce_date = ki_date it \<rparr>"

definition items_of :: "credit_row \<Rightarrow> order_number \<Rightarrow> billing_db \<Rightarrow> credit_item_row list" where
  "items_of row ref db =
     filter (\<lambda>it. ki_credit it = kr_id row \<and> ki_order it = order_number_value ref) (bd_credit_items db)"

definition line_at :: "credit_row \<Rightarrow> order_number \<Rightarrow> billing_db \<Rightarrow> buyer_credit" where
  "line_at row ref db = \<lparr> bc_id = kr_id row, bc_code = Credit_Line_Reference (kr_code row),
     bc_retailer = kr_retailer row, bc_company = kr_company row, bc_limit = kr_limit row, bc_currency = kr_currency row,
     bc_committed = js_round (committed_of_line (kr_id row) db), bc_loaded = map (entry_of_row row) (items_of row ref db),
     bc_appended = [], bc_events = [] \<rparr>"

definition credit_row_of :: "string \<Rightarrow> string \<Rightarrow> billing_db \<Rightarrow> credit_row option" where
  "credit_row_of retailer company db = find (\<lambda>r. kr_retailer r = retailer \<and> kr_company r = company) (bd_credits db)"

lemma js_round_le: "\<lbrakk> c \<le> n; 0 \<le> n; fits_int n \<rbrakk> \<Longrightarrow> js_round c \<le> n"
proof (cases "is_safe c")
  case False
  assume "c \<le> n" "0 \<le> n" "fits_int n"
  with False have "c \<le> 0" by (auto simp: is_safe_def max_safe_def fits_int_def)
  then have "js_round c \<le> 0" by (simp add: js_round_neg_iff)
  with \<open>0 \<le> n\<close> show ?thesis by simp
qed simp

lemma credit_row_of_mem: "credit_row_of retailer company db = Some row \<Longrightarrow>
  row \<in> set (bd_credits db) \<and> kr_retailer row = retailer \<and> kr_company row = company"
  by (auto simp: credit_row_of_def find_Some_iff)

lemma lock_credit_eval:
  assumes ok: "ledger_ok db"
  shows "lock_credit retailer company ref db = Inr (map_option (\<lambda>row. line_at row ref db) (credit_row_of retailer company db))"
proof (cases "credit_row_of retailer company db")
  case None
  then show ?thesis by (simp add: lock_credit_def credit_row_of_def)
next
  case (Some row)
  have mem: "row \<in> set (bd_credits db)" using credit_row_of_mem [OF Some] by simp
  then have row: "credit_row_ok row" "committed_of_line (kr_id row) db \<le> kr_limit row"
    using ok by (simp_all add: ledger_ok_def list_all_iff)
  have "to_credit_entry row it = Inr (entry_of_row row it)" if "it \<in> set (items_of row ref db)" for it
  proof -
    have it: "item_ok it" using ok that by (auto simp: ledger_ok_def list_all_iff items_of_def)
    have ref: "order_number_of (ki_order it) = Inr (Order_Number (ki_order it))"
      using it unfolding item_ok_def order_number_of_value by simp
    have m: "money_of (Js_Int (ki_amount it)) (kr_currency row) = Inr \<lparr> amount = ki_amount it, currency = kr_currency row \<rparr>"
      using it row(1) by (simp add: money_of_def fits_int_safe item_ok_def credit_row_ok_def)
    show ?thesis using it by (simp add: to_credit_entry_def entry_of_row_def ref m item_ok_def)
  qed
  then have es: "mapR (to_credit_entry row) (items_of row ref db) = Inr (map (entry_of_row row) (items_of row ref db))"
    by (rule mapR_pure)
  have cur: "find (\<lambda>e. currency (ce_amount e) \<noteq> kr_currency row) (map (entry_of_row row) (items_of row ref db)) = None"
    by (auto simp: find_None_iff entry_of_row_def)
  have code: "credit_line_reference_of (kr_code row) = Inr (Credit_Line_Reference (kr_code row))"
    using row(1) by (auto simp: credit_row_ok_def credit_line_reference_of_def parse_reference_def is_ok_iff result_simps split: if_splits)
  have "js_round (committed_of_line (kr_id row) db) \<le> kr_limit row"
    using row by (intro js_round_le) (auto simp: credit_row_ok_def)
  then show ?thesis using Some row(1) es cur code
    by (simp add: lock_credit_def credit_row_of_def to_credit_snapshot_def credit_row_ok_def reconstitute_credit_def
        line_at_def items_of_def)
qed

section \<open>What a transaction appends\<close>

lemma line_at_simps [simp]:
  "bc_id (line_at row ref db) = kr_id row" "bc_code (line_at row ref db) = Credit_Line_Reference (kr_code row)"
  "bc_retailer (line_at row ref db) = kr_retailer row" "bc_company (line_at row ref db) = kr_company row"
  "bc_limit (line_at row ref db) = kr_limit row" "bc_currency (line_at row ref db) = kr_currency row"
  "bc_committed (line_at row ref db) = js_round (committed_of_line (kr_id row) db)"
  "bc_loaded (line_at row ref db) = map (entry_of_row row) (items_of row ref db)"
  "bc_appended (line_at row ref db) = []" "bc_events (line_at row ref db) = []"
  by (simp_all add: line_at_def)

lemma lock_credit_found:
  assumes "ledger_ok db" "lock_credit retailer company ref db = Inr (Some bc)"
  obtains row where "credit_row_of retailer company db = Some row" "row \<in> set (bd_credits db)" "bc = line_at row ref db"
    "credit_row_ok row" "committed_of_line (kr_id row) db \<le> kr_limit row"
  using assms credit_row_of_mem [of retailer company db]
  by (auto simp: lock_credit_eval ledger_ok_def list_all_iff)

lemma record_billing_outbox_frame:
  assumes "record_billing_outbox now evs db = Inr db'"
  shows "bd_credits db' = bd_credits db" "bd_credit_items db' = bd_credit_items db" "bd_invoices db' = bd_invoices db"
    "bd_invoice_items db' = bd_invoice_items db" "bd_payments db' = bd_payments db" "bd_sequence db' = bd_sequence db"
    "map ob_envelope (bd_outbox db') = map ob_envelope (bd_outbox db) @ evs"
  using assms by (auto simp: record_billing_outbox_def split: if_splits)

lemma save_credit_frame:
  assumes "save_credit now bc db = Inr db'"
  shows "bd_credits db' = bd_credits db"
    "bd_credit_items db' = bd_credit_items db @ map (to_credit_item_row bc) (bc_appended bc)"
    "bd_invoices db' = bd_invoices db" "bd_invoice_items db' = bd_invoice_items db" "bd_payments db' = bd_payments db"
    "list_all (\<lambda>e. fits_int (amount (ce_amount e))) (bc_appended bc)"
  using assms
  by (auto simp: save_credit_def Let_def list_all_iff to_credit_item_row_def split: if_splits dest: record_billing_outbox_frame)

lemma save_invoice_frame:
  assumes "save_invoice now v db = Inr db'"
  shows "bd_credits db' = bd_credits db" "bd_credit_items db' = bd_credit_items db" "bd_payments db' = bd_payments db"
  using assms by (auto simp: save_invoice_def Let_def split: if_splits dest: record_billing_outbox_frame)

lemma save_payment_frame:
  assumes "save_payment now v p db = Inr db'"
  shows "bd_credits db' = bd_credits db" "bd_credit_items db' = bd_credit_items db" "bd_invoice_items db' = bd_invoice_items db"
  using assms by (auto simp: save_payment_def settle_invoice_row_def Let_def split: if_splits dest: record_billing_outbox_frame)

lemma next_invoice_reference_frame:
  assumes "next_invoice_reference db = Inr (ref, db')"
  shows "bd_credits db' = bd_credits db" "bd_credit_items db' = bd_credit_items db" "bd_payments db' = bd_payments db"
    "bd_invoices db' = bd_invoices db" "bd_invoice_items db' = bd_invoice_items db" "bd_outbox db' = bd_outbox db"
  using assms by (auto simp: next_invoice_reference_def Let_def result_simps split: if_splits)

text \<open>The entries a change of the aggregate appends: none, or one that fits.\<close>

definition appends :: "(credit_entry list) \<Rightarrow> buyer_credit \<Rightarrow> buyer_credit \<Rightarrow> bool" where
  "appends es bc bc' \<longleftrightarrow> bc_id bc' = bc_id bc \<and> bc_appended bc' = bc_appended bc @ es"

lemma append_credit_fact_appends: "append_credit_fact e bc = Inr bc' \<Longrightarrow> appends [] bc bc'"
  by (auto simp: append_credit_fact_def appends_def split: if_splits)

lemma refuse_hold_appends: "refuse_hold eid req reason ctx bc = Inr bc' \<Longrightarrow> appends [] bc bc'"
  by (auto simp: refuse_hold_def append_credit_fact_appends split: if_splits)

lemma approve_hold_appends:
  assumes "approve_hold i eid req ctx bc = Inr (e, bc')"
  shows "appends [e] bc bc' \<and> ce_id e = i \<and> ce_order e = hr_order req \<and> ce_type e = Entry_Hold \<and>
    ce_amount e = hr_amount req \<and> amount (hr_amount req) \<le> credit_left bc"
  using assms
  by (auto simp: approve_hold_def evaluate_hold_def result_simps create_credit_entry_def append_entry_def appends_def
      append_credit_fact_def Let_def split: if_splits option.splits)

lemma release_hold_appends:
  assumes "release_hold i eid ref reason corr ctx bc = Inr (entry, bc')"
  shows "case entry of None \<Rightarrow> bc' = bc
    | Some e \<Rightarrow> appends [e] bc bc' \<and> ce_id e = i \<and> ce_order e = ref \<and> ce_type e = Entry_Release \<and> 0 < amount (ce_amount e)"
  using assms
  by (auto simp: release_hold_def result_simps create_credit_entry_def append_entry_def appends_def
      append_credit_fact_def Let_def money_of_def split: if_splits)

lemma consume_hold_appends:
  assumes "consume_hold i ref ctx bc = Inr (e, bc')"
  shows "appends [e] bc bc' \<and> ce_id e = i \<and> ce_order e = ref \<and> ce_type e = Entry_Consume"
  using assms
  by (auto simp: consume_hold_def result_simps create_credit_entry_def append_entry_def appends_def
      append_credit_fact_def Let_def split: if_splits)

text \<open>The ledger after a command: still within the limits, and only appended to.\<close>

definition ledger_next :: "billing_db \<Rightarrow> billing_db \<Rightarrow> bool" where
  "ledger_next db db' \<longleftrightarrow> ledger_ok db' \<and> bd_credits db' = bd_credits db \<and>
     take (length (bd_credit_items db)) (bd_credit_items db') = bd_credit_items db"

lemma ledger_next_refl: "ledger_ok db \<Longrightarrow> ledger_next db db"
  by (simp add: ledger_next_def)

lemma ledger_nextI:
  "\<lbrakk> ledger_ok db'; bd_credits db' = bd_credits db; bd_credit_items db' = bd_credit_items db @ rows \<rbrakk> \<Longrightarrow> ledger_next db db'"
  by (simp add: ledger_next_def)

lemma ledger_next_trans: "\<lbrakk> ledger_next db db'; ledger_next db' db'' \<rbrakk> \<Longrightarrow> ledger_next db db''"
  unfolding ledger_next_def by (metis append_take_drop_id append_assoc append_eq_conv_conj)

text \<open>The rows of appended entries, added to a line that keeps its limit.\<close>

lemma save_credit_keeps_ledger:
  assumes ok: "ledger_ok db" and row: "row \<in> set (bd_credits db)"
    and db1: "bd_credits db1 = bd_credits db" "bd_credit_items db1 = bd_credit_items db"
    and save: "save_credit now bc' db1 = Inr db'"
    and es: "appends es (line_at row ref0 db) bc'"
    and each: "list_all (\<lambda>e. unique_id_from (ce_id e) = Inr (ce_id e) \<and> is_ok (order_number_of (order_number_value (ce_order e)))) es"
    and limit: "committed_of_line (kr_id row) db +
      sum_list (map (\<lambda>e. signed_amount (to_credit_item_row bc' e)) es) \<le> kr_limit row"
  shows "ledger_next db db'"
proof (rule ledger_nextI [OF ledger_append [OF ok row]])
  show "bd_credits db' = bd_credits db" "bd_credits db' = bd_credits db" using save_credit_frame(1) [OF save] db1 by simp_all
  show "bd_credit_items db' = bd_credit_items db @ map (to_credit_item_row bc') es"
    "bd_credit_items db' = bd_credit_items db @ map (to_credit_item_row bc') es"
    using save_credit_frame(2) [OF save] db1 es by (simp_all add: appends_def)
  show "committed_of_line (kr_id row) db + sum_list (map signed_amount (map (to_credit_item_row bc') es)) \<le> kr_limit row"
    using limit by (simp add: comp_def)
  have "list_all (\<lambda>e. fits_int (amount (ce_amount e))) es"
    using save_credit_frame(6) [OF save] es by (simp add: appends_def)
  then show "item_ok r \<and> ki_credit r = kr_id row" if "r \<in> set (map (to_credit_item_row bc') es)" for r
    using that es each by (auto simp: to_credit_item_row_def item_ok_def appends_def list_all_iff)
qed

section \<open>Every command keeps the invariant\<close>

lemma credit_left_bound:
  assumes ok: "credit_row_ok row" and c: "committed_of_line (kr_id row) db \<le> kr_limit row"
    and m: "fits_int m" "m \<le> credit_left (line_at row ref db)"
  shows "committed_of_line (kr_id row) db + m \<le> kr_limit row"
proof -
  let ?c = "committed_of_line (kr_id row) db"
  have lim: "0 \<le> kr_limit row" "kr_limit row < 2 ^ 31" and m': "m < 2 ^ 31"
    using ok m(1) by (auto simp: credit_row_ok_def fits_int_def)
  show ?thesis
  proof (cases "is_safe ?c")
    case True
    then have left: "credit_left (line_at row ref db) = js_round (kr_limit row - ?c)" by (simp add: credit_left_def)
    show ?thesis
    proof (cases "is_safe (kr_limit row - ?c)")
      case True
      then show ?thesis using m(2) left by simp
    next
      case False
      then show ?thesis using c lim m' by (auto simp: is_safe_def max_safe_def)
    qed
  next
    case False
    then have "?c < - (2 ^ 52)" using c lim by (auto simp: is_safe_def max_safe_def)
    then show ?thesis using lim m' by simp
  qed
qed

lemma unit_of_work_state:
  assumes "snd (unit_of_work f db) = db'"
  obtains "db' = db" | r where "f db = Inr (r, db')"
  using assms by (auto simp: unit_of_work_def split: sum.splits)

lemma order_text_ok: "order_number_of s = Inr ref \<Longrightarrow> is_ok (order_number_of (order_number_value ref))"
  by (simp add: order_number_of_value)

lemma hold_refused_keeps_ledger:
  assumes ok: "ledger_ok db" and row: "row \<in> set (bd_credits db)" "committed_of_line (kr_id row) db \<le> kr_limit row"
    and run: "hold_refused now fresh req hr reason ctx (line_at row ref db) db = Inr (r, db')"
  shows "ledger_next db db'"
proof -
  obtain bc' where "refuse_hold (fresh 0) hr reason ctx (line_at row ref db) = Inr bc'" "save_credit now bc' db = Inr db'"
    using run by (auto simp: hold_refused_def result_simps)
  then show ?thesis using row(2)
    by (intro save_credit_keeps_ledger [OF ok row(1) refl refl _ refuse_hold_appends]) auto
qed

lemma hold_keeps_ledger:
  assumes ok: "ledger_ok db" and fresh: "uuid_stream fresh" and ref: "order_number_of s = Inr ref"
    and run: "hold_in_transaction decide now fresh req request_id corr ref m db = Inr (r, db')"
  shows "ledger_next db db'"
proof -
  obtain found where found: "lock_credit (hq_retailer req) (hq_company req) ref db = Inr found"
    using run by (auto simp: hold_in_transaction_def result_simps)
  show ?thesis
  proof (cases found)
    case None
    then show ?thesis using run found by (simp add: hold_in_transaction_def)
  next
    case (Some bc)
    with found obtain row where row: "row \<in> set (bd_credits db)" "bc = line_at row ref db" "credit_row_ok row"
        "committed_of_line (kr_id row) db \<le> kr_limit row"
      using lock_credit_found [OF ok] by metis
    let ?hr = "\<lparr> hr_order = ref, hr_amount = m, hr_correlation = corr \<rparr>"
    let ?ctx = "\<lparr> cx_at = now, cx_causation = request_id \<rparr>"
    have refused: "ledger_next db db'" if "hold_refused now fresh req ?hr reason ?ctx bc db = Inr (r, db')" for reason
      using hold_refused_keeps_ledger [OF ok row(1,4)] that row(2) by blast
    have approved: "ledger_next db db'" if a: "approve_hold (fresh 0) (fresh 1) ?hr ?ctx bc = Inr (e, bc')"
        and save: "save_credit now bc' db = Inr db'" for e bc'
    proof -
      note app = approve_hold_appends [OF a]
      have es: "appends [e] (line_at row ref db) bc'" using app row(2) by simp
      have "fits_int (amount (ce_amount e))" using save_credit_frame(6) [OF save] es by (simp add: appends_def)
      then have "committed_of_line (kr_id row) db + amount (ce_amount e) \<le> kr_limit row"
        using app row by (intro credit_left_bound) auto
      then show ?thesis
        using app fresh ref
        by (intro save_credit_keeps_ledger [OF ok row(1) refl refl save es])
          (auto simp: signed_amount_def to_credit_item_row_def uuid_stream_def order_text_ok)
    qed
    have run': "(case evaluate_hold ?hr bc of Inl e \<Rightarrow> False | Inr v \<Rightarrow> True)"
      using run Some found by (auto simp: hold_in_transaction_def result_simps split: sum.splits)
    then obtain v where v: "evaluate_hold ?hr bc = Inr v" by (auto split: sum.splits)
    show ?thesis
    proof (cases v)
      case (Hold_Over_Limit left)
      then show ?thesis using run Some found v by (auto simp: hold_in_transaction_def intro: refused)
    next
      case Hold_Fits
      then obtain left where left: "available_of bc = Inr left"
        using run Some found v by (auto simp: hold_in_transaction_def result_simps Let_def)
      then show ?thesis
        using run Some found v Hold_Fits
        by (auto simp: hold_in_transaction_def bindR_Inr Let_def intro: refused approved split: credit_decision.splits)
    qed (use run Some found v ok in \<open>auto simp: hold_in_transaction_def result_simps ledger_next_refl\<close>)
  qed
qed

lemma credit_release_keeps_ledger:
  assumes ok: "ledger_ok db" and row: "row \<in> set (bd_credits db)" "committed_of_line (kr_id row) db \<le> kr_limit row"
    and ref: "is_ok (order_number_of (order_number_value ref))" and fresh: "unique_id_from i = Inr i"
    and rel: "release_hold i eid ref reason corr ctx (line_at row ref0 db) = Inr (entry, bc')"
    and db1: "bd_credits db1 = bd_credits db" "bd_credit_items db1 = bd_credit_items db"
    and save: "save_credit now bc' db1 = Inr db'"
  shows "ledger_next db db'"
proof (cases entry)
  case None
  then have "appends [] (line_at row ref0 db) bc'" using release_hold_appends [OF rel] by (simp add: appends_def)
  then show ?thesis using row(2) by (intro save_credit_keeps_ledger [OF ok row(1) db1 save]) auto
next
  case (Some e)
  note app = release_hold_appends [OF rel, unfolded Some option.case]
  show ?thesis
    using app row(2) ref fresh
    by (intro save_credit_keeps_ledger [OF ok row(1) db1 save conjunct1 [OF app]])
      (auto simp: signed_amount_def to_credit_item_row_def)
qed

lemma release_command_keeps_ledger:
  assumes ok: "ledger_ok db" and fresh: "uuid_stream fresh" and ref: "order_number_of s = Inr ref"
    and run: "credit_release_in_transaction now fresh req request_id corr ref db = Inr (r, db')"
  shows "ledger_next db db'"
proof -
  obtain bc where found: "lock_credit (lq_retailer req) (lq_company req) ref db = Inr (Some bc)"
    using run by (auto simp: credit_release_in_transaction_def result_simps split: option.splits)
  then obtain row where row: "row \<in> set (bd_credits db)" "bc = line_at row ref db"
      "committed_of_line (kr_id row) db \<le> kr_limit row"
    using lock_credit_found [OF ok] by metis
  obtain entry bc' where rel: "release_hold (fresh 0) (fresh 1) ref Release_Cancelled corr
        \<lparr> cx_at = now, cx_causation = request_id \<rparr> bc = Inr (entry, bc')"
      and save: "(case entry of None \<Rightarrow> Inr db | Some e \<Rightarrow> save_credit now bc' db) = Inr db'"
    using run found by (auto simp: credit_release_in_transaction_def result_simps)
  show ?thesis
  proof (cases entry)
    case None
    then show ?thesis using save ledger_next_refl [OF ok] by simp
  next
    case (Some e)
    then show ?thesis
      using credit_release_keeps_ledger [OF ok row(1,3) order_text_ok [OF ref] _ rel [unfolded row(2)] refl refl] save fresh
      by (simp add: uuid_stream_def)
  qed
qed

lemma issue_keeps_ledger:
  assumes ok: "ledger_ok db" and fresh: "uuid_stream fresh" and ref: "order_number_of s = Inr ref"
    and run: "issue_in_transaction now fresh req request_id corr ref db = Inr (r, db')"
  shows "ledger_next db db'"
proof -
  obtain bc where found: "lock_credit (iq_retailer req) (iq_company req) ref db = Inr (Some bc)"
    using run by (auto simp: issue_in_transaction_def result_simps split: option.splits)
  then obtain row where row: "row \<in> set (bd_credits db)" "bc = line_at row ref db"
      "committed_of_line (kr_id row) db \<le> kr_limit row"
    using lock_credit_found [OF ok] by metis
  obtain existing where ex: "find_invoice_by_order ref db = Inr existing"
    using run found by (auto simp: issue_in_transaction_def result_simps)
  show ?thesis
  proof (cases existing)
    case (Some s)
    then show ?thesis using run found ex ledger_next_refl [OF ok] by (simp add: issue_in_transaction_def)
  next
    case None
    obtain vref db1 ls d v e bc' db2
      where num: "next_invoice_reference db = Inr (vref, db1)"
        and consume: "consume_hold (fresh (length (ls :: invoice_line_input list) + 2)) ref
           \<lparr> cx_at = now, cx_causation = request_id \<rparr> bc = Inr (e, bc')"
        and inv: "save_invoice now v db1 = Inr db2" and save: "save_credit now bc' db2 = Inr db'"
      using run found ex None by (auto simp: issue_in_transaction_def result_simps split: if_splits)
    note app = consume_hold_appends [OF consume]
    have db2: "bd_credits db2 = bd_credits db" "bd_credit_items db2 = bd_credit_items db"
      using next_invoice_reference_frame [OF num] save_invoice_frame [OF inv] by simp_all
    show ?thesis
      using app row(2,3) fresh order_text_ok [OF ref]
      by (intro save_credit_keeps_ledger [OF ok row(1) db2 save conjunct1 [OF app, unfolded row(2)]])
        (auto simp: signed_amount_def to_credit_item_row_def uuid_stream_def)
  qed
qed

lemma find_invoice_order_ok:
  assumes "find_invoice p db = Inr (Some s)"
  shows "is_ok (order_number_of (order_number_value (vs_order s)))"
  using assms by (auto simp: find_invoice_def to_invoice_snapshot_def result_simps order_text_ok split: option.splits)

lemma payment_keeps_ledger:
  assumes ok: "ledger_ok db" and fresh: "uuid_stream fresh"
    and ord: "is_ok (order_number_of (order_number_value (vs_order s)))"
    and run: "payment_in_transaction now fresh req request_id corr s db = Inr (r, db')"
  shows "ledger_next db db'"
proof -
  obtain bc where found: "lock_credit (vs_retailer s) (vs_company s) (vs_order s) db = Inr (Some bc)"
    using run by (auto simp: payment_in_transaction_def result_simps split: option.splits)
  then obtain row where row: "row \<in> set (bd_credits db)" "bc = line_at row (vs_order s) db"
      "committed_of_line (kr_id row) db \<le> kr_limit row"
    using lock_credit_found [OF ok] by metis
  obtain s' v same where s': "find_invoice_by_id (vs_id s) db = Inr (Some s')"
      "reconstitute_invoice s' = Inr v" "paid_by_same req v db = Inr same"
    using run found by (auto simp: payment_in_transaction_def result_simps split: option.splits)
  show ?thesis
  proof (cases same)
    case (Some p)
    then show ?thesis using run found s' ledger_next_refl [OF ok] by (simp add: payment_in_transaction_def)
  next
    case None
    obtain eid v' entry bc' p db1 where
        rel: "release_hold (fresh 1) (fresh 2) (vs_order s) Release_Invoice_Paid corr
           \<lparr> cx_at = now, cx_causation = eid \<rparr> bc = Inr (entry, bc')"
        and pay: "save_payment now v' p db = Inr db1" and save: "save_credit now bc' db1 = Inr db'"
      using run found s' None by (auto simp: payment_in_transaction_def result_simps)
    show ?thesis
      using credit_release_keeps_ledger [OF ok row(1,3) ord _ rel [unfolded row(2)] save_payment_frame(1,2) [OF pay] save] fresh
      by (simp add: uuid_stream_def)
  qed
qed

lemma billing_step_keeps_ledger:
  assumes "billing_step db db'" "ledger_ok db"
  shows "ledger_next db db'"
  using assms(1)
proof (cases rule: billing_step.cases)
  case (Hold fresh decide now req request_id corr)
  show ?thesis
    unfolding Hold(1) execute_hold_def
    using ledger_next_refl [OF assms(2)] hold_keeps_ledger [OF assms(2) Hold(2)]
    by (auto simp: unit_of_work_def parse_billing_order_def result_simps split: sum.splits)
next
  case (Release fresh now req request_id corr)
  show ?thesis
    unfolding Release(1) execute_credit_release_def
    using ledger_next_refl [OF assms(2)] release_command_keeps_ledger [OF assms(2) Release(2)]
    by (auto simp: unit_of_work_def parse_billing_order_def split: sum.splits)
next
  case (Issue fresh now req request_id corr db_read)
  show ?thesis
    unfolding Issue(1) execute_issue_def
    using ledger_next_refl [OF assms(2)] issue_keeps_ledger [OF assms(2) Issue(2)]
    by (auto simp: unit_of_work_def parse_billing_order_def result_simps split: sum.splits option.splits)
next
  case (Pay fresh now req request_id corr db_read)
  have ord: "is_ok (order_number_of (order_number_value (vs_order s)))" if "resolve_invoice req db_read = Inr (Some s)" for s
    using that by (auto simp: resolve_invoice_def find_invoice_by_id_def find_invoice_by_reference_def result_simps
        intro: find_invoice_order_ok split: if_splits)
  show ?thesis
    unfolding Pay(1) execute_payment_def
    using ledger_next_refl [OF assms(2)] payment_keeps_ledger [OF assms(2) Pay(2) ord]
    by (auto simp: unit_of_work_def split: sum.splits option.splits)
qed

end
