(* ===== verification/Credit_Properties.thy ===== *)
theory Credit_Properties
  imports Billing_Ledger
begin

text \<open>
  What the credit commands do, in closed form: a line is never committed beyond its limit, a hold
  is decided by the ledger first and by the credit-decision port only when it fits, a release gives
  back exactly what the order still ties up and a repeat changes nothing.
\<close>

named_theorems credit_line "a line read by a handler"

section \<open>The limit\<close>

lemma billing_steps_ledger: "\<lbrakk> billing_step\<^sup>*\<^sup>* db db'; ledger_ok db \<rbrakk> \<Longrightarrow> ledger_next db db'"
proof (induction rule: rtranclp_induct)
  case (step y z)
  then have y: "ledger_next db y" by blast
  then have "ledger_next y z" using step.hyps(2) billing_step_keeps_ledger by (simp add: ledger_next_def)
  with y show ?case by (rule ledger_next_trans)
qed (simp add: ledger_next_refl)

text \<open>C7: Whatever commands the Billing service runs, in whatever order and on whatever earlier
  reads, no credit line is ever committed beyond its limit: the holds of a line minus its releases
  stay within the limit, the limits themselves are never written, and the ledger of credit items is
  append-only.\<close>

theorem credit_never_overcommitted:
  assumes "ledger_ok db" "billing_step\<^sup>*\<^sup>* db db'"
  shows "bd_credits db' = bd_credits db \<and>
    take (length (bd_credit_items db)) (bd_credit_items db') = bd_credit_items db \<and>
    list_all (\<lambda>r. committed_of_line (kr_id r) db' \<le> kr_limit r) (bd_credits db')"
  using billing_steps_ledger [OF assms(2,1)] unfolding ledger_next_def ledger_ok_def by blast

section \<open>Reading and appending\<close>

definition with_billing_event :: "instant \<Rightarrow> envelope \<Rightarrow> billing_db \<Rightarrow> billing_db" where
  "with_billing_event now e db = db \<lparr> bd_outbox := bd_outbox db @ outbox_rows now (bd_next_seq db) [e],
     bd_next_seq := Suc (bd_next_seq db) \<rparr>"

definition unused_event :: "uid \<Rightarrow> billing_db \<Rightarrow> bool" where
  "unused_event i db \<longleftrightarrow> list_all (\<lambda>r. ev_id (ob_envelope r) \<noteq> i) (bd_outbox db)"

definition unused_item :: "uid \<Rightarrow> billing_db \<Rightarrow> bool" where
  "unused_item i db \<longleftrightarrow> list_all (\<lambda>r. ki_id r \<noteq> i) (bd_credit_items db)"

text \<open>A line whose committed exposure is not negative; it is within its limit by the invariant.\<close>

definition line_ready :: "credit_row \<Rightarrow> billing_db \<Rightarrow> bool" where
  "line_ready row db \<longleftrightarrow> ledger_ok db \<and> 0 \<le> committed_of_line (kr_id row) db"

lemma record_one_event:
  "unused_event (ev_id e) db \<Longrightarrow> record_billing_outbox now [e] db = Inr (with_billing_event now e db)"
  by (auto simp: record_billing_outbox_def event_id_taken_def unused_event_def with_billing_event_def list_ex_iff list_all_iff)

lemma small_safe: "\<lbrakk> - (2 ^ 32) < n; n < (2::int) ^ 32 \<rbrakk> \<Longrightarrow> is_safe n"
  by (auto simp: is_safe_def max_safe_def)

lemma ready_bounds:
  assumes "line_ready row db" "row \<in> set (bd_credits db)"
  shows "0 \<le> committed_of_line (kr_id row) db" "committed_of_line (kr_id row) db \<le> kr_limit row"
    "kr_limit row < 2 ^ 31" "currency_shape (kr_currency row)"
  using assms by (auto simp: line_ready_def ledger_ok_def list_all_iff credit_row_ok_def fits_int_def)

lemma ready_line [credit_line]:
  assumes "line_ready row db" "row \<in> set (bd_credits db)"
  shows "bc_committed (line_at row ref db) = committed_of_line (kr_id row) db"
    "credit_left (line_at row ref db) = kr_limit row - committed_of_line (kr_id row) db"
  using ready_bounds [OF assms] by (simp_all add: credit_left_def small_safe)

lemma available_of_small:
  assumes "bc_currency bc = kr_currency row" "currency_shape (kr_currency row)" "credit_left bc = n"
    "- (2 ^ 32) < n" "n < 2 ^ 32"
  shows "available_of bc = Inr n"
  using assms by (simp add: available_of_def available_credit_def money_of_def small_safe)

lemma save_one_entry:
  assumes "bc_appended bc = [e]" "bc_events bc = [ev]" "fits_int (amount (ce_amount e))"
    "unused_item (ce_id e) db" "unused_event (ev_id ev) db"
  shows "save_credit now bc db =
    Inr (with_billing_event now ev (db \<lparr> bd_credit_items := bd_credit_items db @ [to_credit_item_row bc e] \<rparr>))"
proof -
  have "unused_event (ev_id ev) (db \<lparr> bd_credit_items := its \<rparr>)" for its
    using assms(5) by (simp add: unused_event_def)
  moreover have "\<not> list_ex (\<lambda>x. ki_id x = ce_id e) (bd_credit_items db)"
    using assms(4) by (auto simp: unused_item_def list_ex_iff list_all_iff)
  ultimately show ?thesis
    using assms(1-3) by (simp add: save_credit_def Let_def record_one_event to_credit_item_row_def)
qed

lemma save_fact_only:
  assumes "bc_appended bc = []" "bc_events bc = [ev]" "unused_event (ev_id ev) db"
  shows "save_credit now bc db = Inr (with_billing_event now ev db)"
  using assms by (simp add: save_credit_def record_one_event)

section \<open>The outcomes of a hold\<close>

lemma find_hold_entry:
  "find (\<lambda>e. ce_type e = Entry_Hold) (entries_of ref (line_at row ref db)) =
    map_option (entry_of_row row) (find (\<lambda>it. ki_type it = Entry_Hold) (items_of row ref db))"
proof -
  have "find (\<lambda>e. ce_type e = Entry_Hold) (filter (\<lambda>e. ce_order e = ref) (map (entry_of_row row) its)) =
      map_option (entry_of_row row) (find (\<lambda>it. ki_type it = Entry_Hold) its)"
    if "\<And>it. it \<in> set its \<Longrightarrow> ki_order it = order_number_value ref" for its
    using that by (induction its) (cases ref; auto simp: entry_of_row_def)+
  moreover have "ki_order it = order_number_value ref" if "it \<in> set (items_of row ref db)" for it
    using that by (auto simp: items_of_def)
  ultimately show ?thesis by (simp add: entries_of_def)
qed

lemma appended_line [simp]:
  "bc_id (append_entry e c bc) = bc_id bc" "bc_code (append_entry e c bc) = bc_code bc"
  "bc_currency (append_entry e c bc) = bc_currency bc" "bc_limit (append_entry e c bc) = bc_limit bc"
  "bc_committed (append_entry e c bc) = c" "bc_appended (append_entry e c bc) = bc_appended bc @ [e]"
  "bc_events (append_entry e c bc) = bc_events bc" "bc_retailer (append_entry e c bc) = bc_retailer bc"
  "bc_company (append_entry e c bc) = bc_company bc"
  by (simp_all add: append_entry_def)

lemma credit_events_of_line [simp]:
  "credit_approved_event eid (append_entry e c bc) ref m l corr ctx = credit_approved_event eid bc ref m l corr ctx"
  "credit_released_event eid (append_entry e c bc) ref m l reason corr ctx = credit_released_event eid bc ref m l reason corr ctx"
  "ev_id (credit_approved_event eid bc ref m l corr ctx) = eid" "ev_aggregate (credit_approved_event eid bc ref m l corr ctx) = bc_id bc"
  "ev_id (credit_rejected_event eid bc ref m l rr corr ctx) = eid" "ev_aggregate (credit_rejected_event eid bc ref m l rr corr ctx) = bc_id bc"
  "ev_id (credit_released_event eid bc ref m l reason corr ctx) = eid" "ev_aggregate (credit_released_event eid bc ref m l reason corr ctx) = bc_id bc"
  by (simp_all add: credit_approved_event_def credit_rejected_event_def credit_released_event_def credit_event_def)

definition hold_reply_for :: "hold_request \<Rightarrow> credit_row \<Rightarrow> hold_outcome \<Rightarrow> int \<Rightarrow> hold_reply" where
  "hold_reply_for req row out left = \<lparr> ha_outcome = out, ha_reference = hq_reference req, ha_credit_code = kr_code row,
     ha_currency = kr_currency row, ha_available = left \<rparr>"

definition decision_request_for :: "hold_request \<Rightarrow> credit_row \<Rightarrow> int \<Rightarrow> credit_decision_request" where
  "decision_request_for req row left = \<lparr> dr_reference = hq_reference req, dr_retailer = hq_retailer req,
     dr_company = hq_company req, dr_credit_code = kr_code row, dr_amount = hq_amount req,
     dr_currency = hq_currency req, dr_available = left \<rparr>"

definition hold_item :: "uid \<Rightarrow> credit_row \<Rightarrow> hold_request \<Rightarrow> instant \<Rightarrow> credit_item_row" where
  "hold_item i row req now = \<lparr> ki_id = i, ki_credit = kr_id row, ki_order = hq_reference req, ki_amount = hq_amount req,
     ki_type = Entry_Hold, ki_date = stored_datetime now \<rparr>"

definition with_item :: "credit_item_row \<Rightarrow> billing_db \<Rightarrow> billing_db" where
  "with_item it db = db \<lparr> bd_credit_items := bd_credit_items db @ [it] \<rparr>"

lemma hold_answer_line:
  assumes "bc_code bc = Credit_Line_Reference (kr_code row)" "bc_currency bc = kr_currency row" "currency_shape (kr_currency row)"
    "credit_left bc = n" "- (2 ^ 32) < n" "n < 2 ^ 32"
  shows "hold_answer req bc out = Inr (hold_reply_for req row out n)"
  using available_of_small [OF assms(2-6)] assms(1,2) by (simp add: hold_answer_def hold_reply_for_def)

lemma hold_refused_line:
  assumes ready: "line_ready row db" "row \<in> set (bd_credits db)" and unused: "unused_event (fresh 0) db"
    and reason: "reason = Over_Limit \<Longrightarrow> kr_limit row - committed_of_line (kr_id row) db < amount (hr_amount hr)"
  shows "hold_refused now fresh req hr reason ctx (line_at row ref db) db =
    Inr (hold_reply_for req row (Outcome_Rejected reason) (kr_limit row - committed_of_line (kr_id row) db),
      with_billing_event now (credit_rejected_event (fresh 0) (line_at row ref db) (hr_order hr) (amount (hr_amount hr))
        (kr_limit row - committed_of_line (kr_id row) db) reason (hr_correlation hr) ctx) db)"
proof -
  let ?left = "kr_limit row - committed_of_line (kr_id row) db"
  let ?e = "credit_rejected_event (fresh 0) (line_at row ref db) (hr_order hr) (amount (hr_amount hr)) ?left reason (hr_correlation hr) ctx"
  let ?bc = "line_at row ref db \<lparr> bc_events := [?e] \<rparr>"
  have refuse: "refuse_hold (fresh 0) hr reason ctx (line_at row ref db) = Inr ?bc"
    using reason by (auto simp: refuse_hold_def ready_line [OF ready] append_credit_fact_def)
  have "save_credit now ?bc db = Inr (with_billing_event now ?e db)"
    using unused by (intro save_fact_only) simp_all
  moreover have "credit_left ?bc = ?left"
    using ready_line(2) [OF ready, of ref] by (simp add: credit_left_def)
  then have "hold_answer req ?bc (Outcome_Rejected reason) = Inr (hold_reply_for req row (Outcome_Rejected reason) ?left)"
    using ready_bounds [OF ready] by (intro hold_answer_line) simp_all
  ultimately show ?thesis by (simp add: hold_refused_def refuse)
qed

lemma approve_hold_line:
  assumes ready: "line_ready row db" "row \<in> set (bd_credits db)"
    and fits: "evaluate_hold hr (line_at row ref db) = Inr Hold_Fits" and small: "fits_int (amount (hr_amount hr))"
    and unused: "unused_item i db" "unused_event eid db"
  shows "\<exists>bc'. approve_hold i eid hr ctx (line_at row ref db) = Inr (create_credit_entry i (hr_order hr) (hr_amount hr) Entry_Hold (cx_at ctx), bc') \<and>
    bc_code bc' = Credit_Line_Reference (kr_code row) \<and> bc_currency bc' = kr_currency row \<and>
    credit_left bc' = kr_limit row - committed_of_line (kr_id row) db - amount (hr_amount hr) \<and>
    save_credit now bc' db = Inr (with_billing_event now (credit_approved_event eid (line_at row ref db) (hr_order hr)
        (amount (hr_amount hr)) (kr_limit row - committed_of_line (kr_id row) db - amount (hr_amount hr)) (hr_correlation hr) ctx)
      (with_item \<lparr> ki_id = i, ki_credit = kr_id row, ki_order = order_number_value (hr_order hr),
         ki_amount = amount (hr_amount hr), ki_type = Entry_Hold, ki_date = stored_datetime (cx_at ctx) \<rparr> db))"
proof -
  let ?m = "amount (hr_amount hr)"
  let ?c = "committed_of_line (kr_id row) db"
  let ?entry = "create_credit_entry i (hr_order hr) (hr_amount hr) Entry_Hold (cx_at ctx)"
  let ?bc1 = "append_entry ?entry (?c + ?m) (line_at row ref db)"
  let ?e = "credit_approved_event eid (line_at row ref db) (hr_order hr) ?m (kr_limit row - ?c - ?m) (hr_correlation hr) ctx"
  let ?bc = "?bc1 \<lparr> bc_events := [?e] \<rparr>"
  have b: "0 \<le> ?c" "?c \<le> kr_limit row" "kr_limit row < 2 ^ 31" "- (2 ^ 31) \<le> ?m" "?m < 2 ^ 31"
    using ready_bounds [OF ready] small by (auto simp: fits_int_def)
  have sums: "js_round (?c + ?m) = ?c + ?m" "js_round (kr_limit row - (?c + ?m)) = kr_limit row - ?c - ?m" "js_round ?c = ?c"
    using b by (simp_all add: small_safe algebra_simps)
  have left: "credit_left ?bc1 = kr_limit row - ?c - ?m" "credit_left ?bc = kr_limit row - ?c - ?m"
    using sums(2) by (simp_all add: credit_left_def)
  have "approve_hold i eid hr ctx (line_at row ref db) = Inr (?entry, ?bc)"
    using sums(1,3) left(1) fits
    by (simp add: approve_hold_def ready_line [OF ready] append_credit_fact_def Let_def)
  moreover have "save_credit now ?bc db = Inr (with_billing_event now ?e
      (db \<lparr> bd_credit_items := bd_credit_items db @ [to_credit_item_row ?bc ?entry] \<rparr>))"
    using small unused by (intro save_one_entry) (simp_all add: create_credit_entry_def)
  ultimately show ?thesis using left(2)
    by (intro exI [of _ ?bc]) (simp add: with_item_def to_credit_item_row_def create_credit_entry_def)
qed

lemma evaluate_hold_line:
  assumes ready: "line_ready row db" "row \<in> set (bd_credits db)"
  shows "evaluate_hold hr (line_at row (hr_order hr) db) = Inr (
    case find (\<lambda>it. ki_type it = Entry_Hold) (items_of row (hr_order hr) db) of
      Some it \<Rightarrow> Already_Held \<lparr> amount = ki_amount it, currency = kr_currency row \<rparr>
    | None \<Rightarrow>
      if currency (hr_amount hr) \<noteq> kr_currency row then Hold_Currency_Mismatch (kr_currency row)
      else if kr_limit row - committed_of_line (kr_id row) db < amount (hr_amount hr)
        then Hold_Over_Limit \<lparr> amount = kr_limit row - committed_of_line (kr_id row) db, currency = kr_currency row \<rparr>
      else Hold_Fits)"
proof -
  have "available_credit (line_at row (hr_order hr) db) =
      Inr \<lparr> amount = kr_limit row - committed_of_line (kr_id row) db, currency = kr_currency row \<rparr>"
    using ready_bounds [OF ready] by (simp add: available_credit_def ready_line [OF ready] money_of_def small_safe)
  then show ?thesis
    by (simp add: evaluate_hold_def find_hold_entry ready_line [OF ready] entry_of_row_def split: option.split)
qed

lemma approved_answer_line:
  assumes ready: "line_ready row db" "row \<in> set (bd_credits db)" and small: "fits_int (hq_amount req)"
    and unused: "unused_item i db" "unused_event eid db"
    and hr: "hr = \<lparr> hr_order = ref, hr_amount = \<lparr> amount = hq_amount req, currency = hq_currency req \<rparr>, hr_correlation = corr \<rparr>"
    and ref: "order_number_value ref = hq_reference req"
    and fits: "evaluate_hold hr (line_at row ref db) = Inr Hold_Fits"
  shows "\<exists>e bc'. approve_hold i eid hr \<lparr> cx_at = now, cx_causation = cause \<rparr> (line_at row ref db) = Inr (e, bc') \<and>
    hold_answer req bc' (Outcome_Approved (hq_amount req)) = Inr (hold_reply_for req row (Outcome_Approved (hq_amount req))
      (kr_limit row - committed_of_line (kr_id row) db - hq_amount req)) \<and>
    save_credit now bc' db = Inr (with_billing_event now (credit_approved_event eid (line_at row ref db) ref (hq_amount req)
        (kr_limit row - committed_of_line (kr_id row) db - hq_amount req) corr \<lparr> cx_at = now, cx_causation = cause \<rparr>)
      (with_item (hold_item i row req now) db))"
proof -
  let ?left = "kr_limit row - committed_of_line (kr_id row) db"
  let ?ctx = "\<lparr> cx_at = now, cx_causation = cause \<rparr>"
  obtain e bc' where bc': "approve_hold i eid hr ?ctx (line_at row ref db) = Inr (e, bc')"
      "bc_code bc' = Credit_Line_Reference (kr_code row)" "bc_currency bc' = kr_currency row" "credit_left bc' = ?left - hq_amount req"
      "save_credit now bc' db = Inr (with_billing_event now (credit_approved_event eid (line_at row ref db) ref (hq_amount req)
         (?left - hq_amount req) corr ?ctx) (with_item (hold_item i row req now) db))"
    using approve_hold_line [OF ready fits _ unused, of ?ctx now] small by (auto simp: hold_item_def ref hr)
  moreover have "hold_answer req bc' out = Inr (hold_reply_for req row out (?left - hq_amount req))" for out
    using bc'(2-4) ready_bounds [OF ready] small by (intro hold_answer_line) (auto simp: fits_int_def)
  ultimately show ?thesis by blast
qed

text \<open>A repeat is answered from the ledger alone, whatever identifiers it draws.\<close>

lemma hold_repeated:
  assumes line: "credit_row_of (hq_retailer req) (hq_company req) db = Some row" "line_ready row db"
    and req: "order_number_of (hq_reference req) = Inr ref" "currency_shape (hq_currency req)" "fits_int (hq_amount req)"
    and held: "find (\<lambda>it. ki_type it = Entry_Hold) (items_of row ref db) = Some it"
  shows "execute_hold decide now fresh req request_id corr db = (Inr (hold_reply_for req row (Outcome_Already_Held (ki_amount it))
    (kr_limit row - committed_of_line (kr_id row) db)), db)"
proof -
  let ?m = "\<lparr> amount = hq_amount req, currency = hq_currency req \<rparr>"
  have row: "row \<in> set (bd_credits db)" using credit_row_of_mem [OF line(1)] by simp
  note b = ready_bounds [OF line(2) row] and eval = evaluate_hold_line [OF line(2) row, of "\<lparr> hr_order = ref, hr_amount = ?m, hr_correlation = corr \<rparr>", simplified]
  have "execute_hold decide now fresh req request_id corr db =
      unit_of_work (hold_in_transaction decide now fresh req request_id corr ref ?m) db"
    using req by (simp add: execute_hold_def parse_billing_order_def billing_money_def money_of_def fits_int_safe)
  moreover have "lock_credit (hq_retailer req) (hq_company req) ref db = Inr (Some (line_at row ref db))"
    using line by (simp add: lock_credit_eval line_ready_def)
  moreover have "hold_answer req (line_at row ref db) out =
      Inr (hold_reply_for req row out (kr_limit row - committed_of_line (kr_id row) db))" for out
    using b by (intro hold_answer_line) (simp_all add: ready_line [OF line(2) row])
  ultimately show ?thesis using held by (simp add: hold_in_transaction_def eval unit_of_work_def)
qed

lemma hold_command_outcomes:
  assumes line: "credit_row_of (hq_retailer req) (hq_company req) db = Some row" "line_ready row db"
    and req: "order_number_of (hq_reference req) = Inr ref" "currency_shape (hq_currency req)" "fits_int (hq_amount req)"
    and unused: "unused_item (fresh 0) db" "unused_event (fresh 0) db" "unused_event (fresh 1) db"
  shows "execute_hold decide now fresh req request_id corr db = (
    let left = kr_limit row - committed_of_line (kr_id row) db;
        ctx = \<lparr> cx_at = now, cx_causation = request_id \<rparr>;
        rejected = (\<lambda>reason. (Inr (hold_reply_for req row (Outcome_Rejected reason) left), with_billing_event now
          (credit_rejected_event (fresh 0) (line_at row ref db) ref (hq_amount req) left reason corr ctx) db))
    in case find (\<lambda>it. ki_type it = Entry_Hold) (items_of row ref db) of
      Some it \<Rightarrow> (Inr (hold_reply_for req row (Outcome_Already_Held (ki_amount it)) left), db)
    | None \<Rightarrow>
      if hq_currency req \<noteq> kr_currency row then (Inl (Credit_Currency_Mismatch (kr_currency row) (hq_currency req)), db)
      else if left < hq_amount req then rejected Over_Limit
      else case decide (decision_request_for req row left) of
        Decide_Refuse why \<Rightarrow> rejected (adapter_reason why)
      | Decide_Approve \<Rightarrow>
          (Inr (hold_reply_for req row (Outcome_Approved (hq_amount req)) (left - hq_amount req)),
           with_billing_event now (credit_approved_event (fresh 1) (line_at row ref db) ref (hq_amount req)
             (left - hq_amount req) corr ctx) (with_item (hold_item (fresh 0) row req now) db)))"
proof -
  let ?m = "\<lparr> amount = hq_amount req, currency = hq_currency req \<rparr>"
  let ?hr = "\<lparr> hr_order = ref, hr_amount = ?m, hr_correlation = corr \<rparr>"
  let ?ctx = "\<lparr> cx_at = now, cx_causation = request_id \<rparr>"
  let ?left = "kr_limit row - committed_of_line (kr_id row) db"
  let ?bc = "line_at row ref db"
  have row: "row \<in> set (bd_credits db)" using credit_row_of_mem [OF line(1)] by simp
  note ready = line(2) row
  note b = ready_bounds [OF ready]
  have ref: "order_number_value ref = hq_reference req" using req(1) by (simp add: order_number_of_value)
  have start: "execute_hold decide now fresh req request_id corr db =
      unit_of_work (hold_in_transaction decide now fresh req request_id corr ref ?m) db"
    using req by (simp add: execute_hold_def parse_billing_order_def billing_money_def money_of_def fits_int_safe)
  have lock: "lock_credit (hq_retailer req) (hq_company req) ref db = Inr (Some ?bc)"
    using line by (simp add: lock_credit_eval line_ready_def)
  have answer: "hold_answer req ?bc out = Inr (hold_reply_for req row out ?left)" for out
    using b by (intro hold_answer_line) (simp_all add: ready_line [OF ready])
  have left: "available_of ?bc = Inr ?left"
    using b by (intro available_of_small) (simp_all add: ready_line [OF ready])
  have refused: "hold_refused now fresh req ?hr reason ?ctx ?bc db = Inr (hold_reply_for req row (Outcome_Rejected reason) ?left,
      with_billing_event now (credit_rejected_event (fresh 0) ?bc ref (hq_amount req) ?left reason corr ?ctx) db)"
    if "reason = Over_Limit \<Longrightarrow> ?left < hq_amount req" for reason
    using hold_refused_line [where hr = ?hr and ref = ref and fresh = fresh, OF ready unused(2)] that by simp
  have adapter: "adapter_reason why \<noteq> Over_Limit" for why by (cases why) simp_all
  note eval = evaluate_hold_line [OF ready, of ?hr, simplified]
  note approved = approved_answer_line [OF ready req(3) unused(1,3) refl ref, of corr now request_id]
  show ?thesis
  proof (cases "find (\<lambda>it. ki_type it = Entry_Hold) (items_of row ref db)")
    case (Some it)
    then show ?thesis using hold_repeated [OF line req Some] by simp
  next
    case None
    note eval' = eval [unfolded None option.case]
    consider "hq_currency req \<noteq> kr_currency row" | "kr_currency row = hq_currency req" "?left < hq_amount req"
      | "kr_currency row = hq_currency req" "\<not> ?left < hq_amount req" by metis
    then show ?thesis
    proof cases
      case 1
      then show ?thesis using None by (simp add: start hold_in_transaction_def lock eval' unit_of_work_def)
    next
      case 2
      then show ?thesis using None by (simp add: start hold_in_transaction_def lock eval' unit_of_work_def refused Let_def)
    next
      case 3
      have req': "\<lparr> dr_reference = hq_reference req, dr_retailer = hq_retailer req, dr_company = hq_company req,
          dr_credit_code = kr_code row, dr_amount = hq_amount req, dr_currency = hq_currency req, dr_available = ?left \<rparr> =
          decision_request_for req row ?left"
        by (simp add: decision_request_for_def)
      show ?thesis
      proof (cases "decide (decision_request_for req row ?left)")
        case Decide_Approve
        then show ?thesis using 3 None approved
          by (auto simp: start hold_in_transaction_def lock eval' unit_of_work_def left req' Let_def)
      next
        case (Decide_Refuse why)
        then show ?thesis using 3 None refused [of "adapter_reason why"] adapter [of why]
          by (simp add: start hold_in_transaction_def lock eval' unit_of_work_def left req' Let_def)
      qed
    qed
  qed
qed

text \<open>C29: What a hold does, on a line within its limit.  The first hold entry of the order, whatever
  happened since, makes the command a repeat: it answers the amount held and writes nothing.
  Otherwise a foreign currency is refused as an error, and an amount beyond what is left is
  rejected as over the limit whatever the credit-decision port would say.  An amount that fits is
  put to the port, which can only refuse it with a reason of its own or let it through; only then
  one ledger entry is written, with one approved fact that carries what is left after it.  A refusal writes its rejected fact and nothing else.\<close>

theorem credit_hold_outcomes:
  assumes line: "credit_row_of (hq_retailer req) (hq_company req) db = Some row" "line_ready row db"
    and req: "order_number_of (hq_reference req) = Inr ref" "currency_shape (hq_currency req)" "fits_int (hq_amount req)"
    and unused: "unused_item (fresh 0) db" "unused_event (fresh 0) db" "unused_event (fresh 1) db"
  shows "execute_hold decide now fresh req request_id corr db = (
    let left = kr_limit row - committed_of_line (kr_id row) db;
        ctx = \<lparr> cx_at = now, cx_causation = request_id \<rparr>;
        rejected = (\<lambda>reason. (Inr (hold_reply_for req row (Outcome_Rejected reason) left), with_billing_event now
          (credit_rejected_event (fresh 0) (line_at row ref db) ref (hq_amount req) left reason corr ctx) db))
    in case find (\<lambda>it. ki_type it = Entry_Hold) (items_of row ref db) of
      Some it \<Rightarrow> (Inr (hold_reply_for req row (Outcome_Already_Held (ki_amount it)) left), db)
    | None \<Rightarrow>
      if hq_currency req \<noteq> kr_currency row then (Inl (Credit_Currency_Mismatch (kr_currency row) (hq_currency req)), db)
      else if left < hq_amount req then rejected Over_Limit
      else case decide (decision_request_for req row left) of
        Decide_Refuse why \<Rightarrow> rejected (adapter_reason why)
      | Decide_Approve \<Rightarrow>
          (Inr (hold_reply_for req row (Outcome_Approved (hq_amount req)) (left - hq_amount req)),
           with_billing_event now (credit_approved_event (fresh 1) (line_at row ref db) ref (hq_amount req)
             (left - hq_amount req) corr ctx) (with_item (hold_item (fresh 0) row req now) db)))"
  using assms by (rule hold_command_outcomes)

section \<open>What an order ties up\<close>

definition entry_total :: "credit_entry_type \<Rightarrow> credit_item_row list \<Rightarrow> int" where
  "entry_total ty its = sum_list (map ki_amount (filter (\<lambda>it. ki_type it = ty) its))"

definition order_exposure_rows :: "credit_row \<Rightarrow> order_number \<Rightarrow> billing_db \<Rightarrow> int" where
  "order_exposure_rows row ref db = sum_list (map signed_amount (items_of row ref db))"

definition order_active_rows :: "credit_row \<Rightarrow> order_number \<Rightarrow> billing_db \<Rightarrow> int" where
  "order_active_rows row ref db = (let x = order_exposure_rows row ref db in
     x - min (entry_total Entry_Consume (items_of row ref db)) x)"

text \<open>The entries of one order are few enough for their sums to be exact.\<close>

definition ledger_weight :: "credit_row \<Rightarrow> order_number \<Rightarrow> billing_db \<Rightarrow> int" where
  "ledger_weight row ref db = sum_list (map (\<lambda>it. \<bar>ki_amount it\<bar>) (items_of row ref db))"

definition small_ledger :: "credit_row \<Rightarrow> order_number \<Rightarrow> billing_db \<Rightarrow> bool" where
  "small_ledger row ref db \<longleftrightarrow> ledger_weight row ref db < 2 ^ 49"

lemma signed_sum: "sum_list (map signed_amount its) = entry_total Entry_Hold its - entry_total Entry_Release its"
proof (induction its)
  case (Cons it its)
  then show ?case by (cases "ki_type it") (simp_all add: entry_total_def signed_amount_def)
qed (simp add: entry_total_def)

lemma entry_total_bound: "\<bar>entry_total ty its\<bar> \<le> sum_list (map (\<lambda>it. \<bar>ki_amount it\<bar>) its)"
  by (induction its) (auto simp: entry_total_def)

definition totals_of :: "credit_item_row list \<Rightarrow> order_accumulator" where
  "totals_of its = \<lparr> ac_hold = entry_total Entry_Hold its, ac_release = entry_total Entry_Release its,
     ac_consume = entry_total Entry_Consume its, ac_has_hold = list_ex (\<lambda>it. ki_type it = Entry_Hold) its \<rparr>"

lemma add_to_exposure_row:
  assumes "sum_list (map (\<lambda>it. \<bar>ki_amount it\<bar>) (its @ [it])) < 2 ^ 50"
  shows "add_to_exposure (entry_of_row row it) (totals_of its) = totals_of (its @ [it])"
proof -
  have "\<bar>entry_total ty (its @ [it])\<bar> < 2 ^ 50" for ty
    using entry_total_bound [of ty "its @ [it]"] assms by linarith
  then have "is_safe (entry_total ty (its @ [it]))" for ty
    unfolding is_safe_def max_safe_def by (rule order_trans [OF less_imp_le]) simp
  then have safe: "js_round (entry_total ty (its @ [it])) = entry_total ty (its @ [it])" for ty by simp
  have grow: "entry_total ty (its @ [it]) = entry_total ty its + (if ki_type it = ty then ki_amount it else 0)" for ty
    by (simp add: entry_total_def)
  show ?thesis
    using safe [of Entry_Hold] safe [of Entry_Release] safe [of Entry_Consume]
    by (cases "ki_type it") (auto simp: add_to_exposure_def totals_of_def entry_of_row_def grow)
qed

lemma accumulate_one_order:
  assumes "its \<noteq> []" "\<And>it. it \<in> set its \<Longrightarrow> ki_order it = k" "sum_list (map (\<lambda>it. \<bar>ki_amount it\<bar>) its) < 2 ^ 50"
  shows "accumulate_ledger (map (entry_of_row row) its) = [(k, totals_of its)]"
  using assms
proof (induction its rule: rev_induct)
  case (snoc it its)
  have k: "order_number_value (ce_order (entry_of_row row it)) = k" using snoc.prems(2) by (simp add: entry_of_row_def)
  have empty: "no_exposure = totals_of []" by (simp add: no_exposure_def totals_of_def entry_total_def)
  have step: "add_to_exposure (entry_of_row row it) (totals_of its) = totals_of (its @ [it])"
    using snoc.prems(3) by (rule add_to_exposure_row)
  show ?case
  proof (cases "its = []")
    case True
    then show ?thesis using k step by (simp add: accumulate_ledger_def empty)
  next
    case False
    have "sum_list (map (\<lambda>it. \<bar>ki_amount it\<bar>) its) < 2 ^ 50" using snoc.prems(3) by simp
    then have "accumulate_ledger (map (entry_of_row row) its) = [(k, totals_of its)]"
      using snoc.IH [OF False] snoc.prems(2) by simp
    then show ?thesis using k step by (simp add: accumulate_ledger_def Let_def)
  qed
qed simp

lemma order_entries_of_line: "entries_of ref (line_at row ref db) = map (entry_of_row row) (items_of row ref db)"
  by (cases ref) (auto simp: entries_of_def entry_of_row_def items_of_def filter_map comp_def cong: filter_cong intro!: filter_True)

lemma order_exposure_line:
  assumes "ledger_weight row ref db < 2 ^ 50"
  shows "order_exposure_in oe_exposure ref (summarise_ledger (map (entry_of_row row) (items_of row ref db))) = order_exposure_rows row ref db"
    "order_exposure_in oe_active ref (summarise_ledger (map (entry_of_row row) (items_of row ref db))) = order_active_rows row ref db"
proof -
  let ?its = "items_of row ref db"
  let ?k = "order_number_value ref"
  have b: "\<bar>entry_total ty ?its\<bar> < 2 ^ 50" for ty
    using entry_total_bound [of ty ?its] assms unfolding ledger_weight_def by linarith
  have x: "order_exposure_rows row ref db = entry_total Entry_Hold ?its - entry_total Entry_Release ?its"
    by (simp add: order_exposure_rows_def signed_sum)
  have safe: "is_safe (order_exposure_rows row ref db)" "is_safe (order_active_rows row ref db)"
    using b [of Entry_Hold] b [of Entry_Release] b [of Entry_Consume]
    by (auto simp: order_active_rows_def x is_safe_def max_safe_def Let_def min_def)
  have "order_exposure_in oe_exposure ref (summarise_ledger (map (entry_of_row row) ?its)) = order_exposure_rows row ref db \<and>
    order_exposure_in oe_active ref (summarise_ledger (map (entry_of_row row) ?its)) = order_active_rows row ref db"
  proof (cases "?its = []")
    case True
    then show ?thesis
      by (simp add: order_exposure_in_def summarise_ledger_def accumulate_ledger_def order_exposure_rows_def
          order_active_rows_def entry_total_def)
  next
    case False
    have "accumulate_ledger (map (entry_of_row row) ?its) = [(?k, totals_of ?its)]"
      using False assms by (intro accumulate_one_order) (auto simp: items_of_def ledger_weight_def)
    then show ?thesis using safe
      by (simp add: order_exposure_in_def summarise_ledger_def exposure_of_def totals_of_def Let_def order_active_rows_def x)
  qed
  then show "order_exposure_in oe_exposure ref (summarise_ledger (map (entry_of_row row) ?its)) = order_exposure_rows row ref db"
    "order_exposure_in oe_active ref (summarise_ledger (map (entry_of_row row) ?its)) = order_active_rows row ref db"
    by simp_all
qed

section \<open>The outcomes of a release\<close>

definition ledger_item :: "uid \<Rightarrow> credit_row \<Rightarrow> order_number \<Rightarrow> int \<Rightarrow> credit_entry_type \<Rightarrow> instant \<Rightarrow> credit_item_row" where
  "ledger_item i row ref n ty t = \<lparr> ki_id = i, ki_credit = kr_id row, ki_order = order_number_value ref, ki_amount = n,
     ki_type = ty, ki_date = stored_datetime t \<rparr>"

lemma with_item_simps [simp]:
  "bd_credits (with_item it db) = bd_credits db" "bd_credits (with_billing_event now e db) = bd_credits db"
  "bd_credit_items (with_item it db) = bd_credit_items db @ [it]"
  "bd_credit_items (with_billing_event now e db) = bd_credit_items db"
  "bd_invoices (with_item it db) = bd_invoices db" "bd_invoices (with_billing_event now e db) = bd_invoices db"
  "bd_invoice_items (with_item it db) = bd_invoice_items db" "bd_invoice_items (with_billing_event now e db) = bd_invoice_items db"
  "bd_payments (with_item it db) = bd_payments db" "bd_payments (with_billing_event now e db) = bd_payments db"
  by (simp_all add: with_item_def with_billing_event_def)

lemma ledger_after_event [simp]:
  "items_of row ref (with_billing_event now e db) = items_of row ref db"
  "committed_of_line i (with_billing_event now e db) = committed_of_line i db"
  "credit_row_of retailer company (with_billing_event now e db) = credit_row_of retailer company db"
  "credit_row_of retailer company (with_item it db) = credit_row_of retailer company db"
  by (simp_all add: items_of_def committed_of_line_def credit_row_of_def)

lemma ledger_after_item [simp]:
  "items_of row ref (with_item (ledger_item i row ref n ty t) db) = items_of row ref db @ [ledger_item i row ref n ty t]"
  "committed_of_line (kr_id row) (with_item (ledger_item i row ref n ty t) db) =
    committed_of_line (kr_id row) db + signed_amount (ledger_item i row ref n ty t)"
  by (simp_all add: items_of_def committed_of_line_def ledger_item_def)

lemma signed_ledger_item [simp]:
  "signed_amount (ledger_item i row ref n Entry_Hold t) = n"
  "signed_amount (ledger_item i row ref n Entry_Release t) = - n"
  "signed_amount (ledger_item i row ref n Entry_Consume t) = 0"
  "ki_amount (ledger_item i row ref n ty t) = n"
  by (simp_all add: signed_amount_def ledger_item_def)

lemma exposure_weight: "\<bar>order_exposure_rows row ref db\<bar> \<le> 2 * ledger_weight row ref db"
  using entry_total_bound [of Entry_Hold "items_of row ref db"] entry_total_bound [of Entry_Release "items_of row ref db"]
  unfolding order_exposure_rows_def signed_sum ledger_weight_def by linarith

lemma release_hold_line:
  assumes ready: "line_ready row db" "row \<in> set (bd_credits db)" and weight: "ledger_weight row ref db < 2 ^ 50"
  shows "release_hold i eid ref reason corr ctx (line_at row ref db) = (
    let x = order_exposure_rows row ref db;
        e = create_credit_entry i ref \<lparr> amount = x, currency = kr_currency row \<rparr> Entry_Release (cx_at ctx);
        ev = credit_released_event eid (line_at row ref db) ref x (kr_limit row - committed_of_line (kr_id row) db + x) reason corr ctx
    in if x < 0 then Inl (Credit_Release_Underflow (order_number_value ref) x (kr_currency row))
       else if x = 0 then Inr (None, line_at row ref db)
       else Inr (Some e, append_entry e (committed_of_line (kr_id row) db - x) (line_at row ref db) \<lparr> bc_events := [ev] \<rparr>))"
proof -
  let ?x = "order_exposure_rows row ref db"
  let ?c = "committed_of_line (kr_id row) db"
  have x: "\<bar>?x\<bar> < 2 ^ 51"
    using exposure_weight [of row ref db] weight by simp
  have b: "0 \<le> ?c" "?c \<le> kr_limit row" "kr_limit row < 2 ^ 31" using ready_bounds [OF ready] by simp_all
  have safe: "is_safe ?x" "js_round ?c = ?c" "js_round (?c - ?x) = ?c - ?x"
      "js_round (kr_limit row - (?c - ?x)) = kr_limit row - ?c + ?x"
    using x b by (auto simp: js_round_safe is_safe_def max_safe_def algebra_simps)
  have m: "money_of (Js_Int ?x) (kr_currency row) = Inr \<lparr> amount = ?x, currency = kr_currency row \<rparr>"
    using safe(1) ready_bounds(4) [OF ready] by (simp add: money_of_def)
  have out: "order_exposure_in oe_exposure ref (summarise_ledger (entries_of ref (line_at row ref db))) = ?x"
    using order_exposure_line(1) [OF weight] by (simp add: order_entries_of_line)
  have left: "credit_left (append_entry e (?c - ?x) (line_at row ref db)) = kr_limit row - ?c + ?x" for e
    using safe(4) by (simp add: credit_left_def)
  show ?thesis
    using safe(2,3) left
    by (simp add: release_hold_def out m Let_def append_credit_fact_def)
qed

definition release_reply_for :: "credit_release_request \<Rightarrow> credit_row \<Rightarrow> int option \<Rightarrow> int \<Rightarrow> credit_release_reply" where
  "release_reply_for req row released left = \<lparr> la_released = released, la_reference = lq_reference req,
     la_credit_code = kr_code row, la_currency = kr_currency row, la_available_after = left \<rparr>"

lemma release_command_line:
  assumes line: "credit_row_of (lq_retailer req) (lq_company req) db = Some row" "line_ready row db" "ledger_weight row ref db < 2 ^ 50"
    and ref: "order_number_of (lq_reference req) = Inr ref" and fits: "order_exposure_rows row ref db < 2 ^ 31"
    and unused: "unused_item (fresh 0) db" "unused_event (fresh 1) db"
  shows "execute_credit_release now fresh req request_id corr db = (
    let x = order_exposure_rows row ref db; left = kr_limit row - committed_of_line (kr_id row) db in
    if x < 0 then (Inl (Billing_Credit (Credit_Release_Underflow (order_number_value ref) x (kr_currency row))), db)
    else if x = 0 then (Inr (release_reply_for req row None left), db)
    else (Inr (release_reply_for req row (Some x) (left + x)),
      with_billing_event now (credit_released_event (fresh 1) (line_at row ref db) ref x (left + x) Release_Cancelled corr
          \<lparr> cx_at = now, cx_causation = request_id \<rparr>)
        (with_item (ledger_item (fresh 0) row ref x Entry_Release now) db)))"
proof -
  let ?x = "order_exposure_rows row ref db"
  let ?c = "committed_of_line (kr_id row) db"
  let ?ctx = "\<lparr> cx_at = now, cx_causation = request_id \<rparr>"
  have row: "row \<in> set (bd_credits db)" using credit_row_of_mem [OF line(1)] by simp
  note ready = line(2) row
  have b: "0 \<le> ?c" "?c \<le> kr_limit row" "kr_limit row < 2 ^ 31" "currency_shape (kr_currency row)"
    using ready_bounds [OF ready] by simp_all
  have start: "execute_credit_release now fresh req request_id corr db =
      unit_of_work (credit_release_in_transaction now fresh req request_id corr ref) db"
    using ref by (simp add: execute_credit_release_def parse_billing_order_def)
  have lock: "lock_credit (lq_retailer req) (lq_company req) ref db = Inr (Some (line_at row ref db))"
    using line(1,2) by (simp add: lock_credit_eval line_ready_def)
  note release = release_hold_line [OF ready line(3)]
  show ?thesis
  proof (cases "0 < ?x")
    case False
    have "available_of (line_at row ref db) = Inr (kr_limit row - ?c)"
      using b by (intro available_of_small) (simp_all add: ready_line [OF ready])
    then show ?thesis using False
      by (auto simp: start credit_release_in_transaction_def lock release unit_of_work_def release_reply_for_def Let_def)
  next
    case True
    define ev e where "ev = credit_released_event (fresh 1) (line_at row ref db) ref ?x (kr_limit row - ?c + ?x) Release_Cancelled corr ?ctx"
      and "e = create_credit_entry (fresh 0) ref \<lparr> amount = ?x, currency = kr_currency row \<rparr> Entry_Release now"
    define bc where "bc = append_entry e (?c - ?x) (line_at row ref db) \<lparr> bc_events := [ev] \<rparr>"
    have bc: "bc_currency bc = kr_currency row" "bc_code bc = Credit_Line_Reference (kr_code row)" "credit_left bc = kr_limit row - ?c + ?x"
      "to_credit_item_row bc e = ledger_item (fresh 0) row ref ?x Entry_Release now"
      using b True fits
      by (simp_all add: bc_def credit_left_def small_safe to_credit_item_row_def e_def create_credit_entry_def ledger_item_def algebra_simps)
    have "available_of bc = Inr (kr_limit row - ?c + ?x)"
      using b True fits bc by (intro available_of_small) simp_all
    moreover have "save_credit now bc db = Inr (with_billing_event now ev (with_item (ledger_item (fresh 0) row ref ?x Entry_Release now) db))"
    proof -
      have "fits_int ?x" using True fits by (simp add: fits_int_def)
      then have "save_credit now bc db = Inr (with_billing_event now ev
          (db \<lparr> bd_credit_items := bd_credit_items db @ [to_credit_item_row bc e] \<rparr>))"
        using unused by (intro save_one_entry) (simp_all add: bc_def e_def ev_def create_credit_entry_def)
      then show ?thesis by (simp add: bc(4) with_item_def)
    qed
    moreover have "release_hold (fresh 0) (fresh 1) ref Release_Cancelled corr ?ctx (line_at row ref db) = Inr (Some e, bc)"
      using True by (simp add: release Let_def bc_def e_def ev_def)
    moreover have "ce_amount e = \<lparr> amount = ?x, currency = kr_currency row \<rparr>" by (simp add: e_def create_credit_entry_def)
    ultimately show ?thesis using True bc
      by (simp add: start credit_release_in_transaction_def lock unit_of_work_def release_reply_for_def Let_def ev_def)
  qed
qed

text \<open>C30: A release gives back exactly what the order still ties up, the amount of its holds less
  its releases: the ledger gets one release entry of that amount, one credit.released fact carries it
  with what is available after it, and the available credit grows by it.  An order that ties
  nothing up is answered without writing anything, and a ledger that is already below zero is
  refused.  After a release the order ties nothing up, so a repeat, with any identifiers and at any
  time, answers without a release and leaves every table as it is.\<close>

theorem credit_release_outcomes:
  assumes line: "credit_row_of (lq_retailer req) (lq_company req) db = Some row" "line_ready row db" "small_ledger row ref db"
    and ref: "order_number_of (lq_reference req) = Inr ref"
    and fits: "order_exposure_rows row ref db < 2 ^ 31" "order_exposure_rows row ref db \<le> committed_of_line (kr_id row) db"
    and unused: "unused_item (fresh 0) db" "unused_event (fresh 1) db" "uuid_stream fresh"
    and again: "uuid_stream fresh'" "unused_item (fresh' 0) db'" "unused_event (fresh' 1) db'"
    and run: "execute_credit_release now fresh req request_id corr db = (reply, db')"
  shows "let x = order_exposure_rows row ref db; left = kr_limit row - committed_of_line (kr_id row) db in
    if x < 0 then reply = Inl (Billing_Credit (Credit_Release_Underflow (order_number_value ref) x (kr_currency row))) \<and> db' = db
    else if x = 0 then reply = Inr (release_reply_for req row None left) \<and> db' = db
    else reply = Inr (release_reply_for req row (Some x) (left + x)) \<and>
      db' = with_billing_event now (credit_released_event (fresh 1) (line_at row ref db) ref x (left + x) Release_Cancelled corr
          \<lparr> cx_at = now, cx_causation = request_id \<rparr>)
        (with_item (ledger_item (fresh 0) row ref x Entry_Release now) db) \<and>
      execute_credit_release now' fresh' req request_id' corr' db' = (Inr (release_reply_for req row None (left + x)), db')"
proof -
  let ?x = "order_exposure_rows row ref db"
  have w: "ledger_weight row ref db < 2 ^ 50" using line(3) by (simp add: small_ledger_def)
  note first = release_command_line [OF line(1,2) w ref fits(1) unused(1,2), of now request_id corr]
  show ?thesis
  proof (cases "0 < ?x")
    case False
    then show ?thesis using first run by (auto simp: Let_def)
  next
    case True
    then have db': "db' = with_billing_event now (credit_released_event (fresh 1) (line_at row ref db) ref ?x
          (kr_limit row - committed_of_line (kr_id row) db + ?x) Release_Cancelled corr \<lparr> cx_at = now, cx_causation = request_id \<rparr>)
        (with_item (ledger_item (fresh 0) row ref ?x Entry_Release now) db)"
      using first run by (simp add: Let_def)
    have x0: "order_exposure_rows row ref db' = 0"
      by (simp add: order_exposure_rows_def db')
    have c: "committed_of_line (kr_id row) db' = committed_of_line (kr_id row) db - ?x" by (simp add: db')
    have "ledger_ok db'"
      using billing_step_keeps_ledger [OF billing_step.Release [OF unused(3)], of db now req request_id corr] run line(2)
      by (simp add: line_ready_def ledger_next_def)
    then have ready: "line_ready row db'" using c fits(2) by (simp add: line_ready_def)
    have "ledger_weight row ref db' = ledger_weight row ref db + ?x"
      using True by (simp add: ledger_weight_def db')
    then have w': "ledger_weight row ref db' < 2 ^ 50" using line(3) fits(1) by (simp add: small_ledger_def)
    have found: "credit_row_of (lq_retailer req) (lq_company req) db' = Some row" using line(1) by (simp add: db')
    have "execute_credit_release now' fresh' req request_id' corr' db' =
        (Inr (release_reply_for req row None (kr_limit row - committed_of_line (kr_id row) db + ?x)), db')"
      using release_command_line [where fresh = fresh', OF found ready w' ref _ again(2,3), of now' request_id' corr'] x0 c
      by (simp add: Let_def algebra_simps)
    then show ?thesis using True first run db' by (simp add: Let_def)
  qed
qed

end
