(* ===== verification/Invoice_Properties.thy ===== *)
theory Invoice_Properties
  imports Credit_Properties
begin

text \<open>
  Invoices and payments: an invoice is issued once, for the exact total of its lines less the
  discount, and leaves the committed credit as it is; a payment settles it for that total, gives
  the credit back in the same transaction and is answered as a duplicate when it comes again.
\<close>

section \<open>Totals\<close>

definition line_sum :: "invoice_line_payload list \<Rightarrow> int" where
  "line_sum ls = sum_list (map (\<lambda>l. il_units l * il_unit_price l) ls)"

definition invoice_line_ok :: "string \<Rightarrow> invoice_line \<Rightarrow> bool" where
  "invoice_line_ok cur l \<longleftrightarrow> unique_id_from (vl_id l) = Inr (vl_id l) \<and> 0 < q_value (vl_units l) \<and>
     is_safe (amount (vl_price l)) \<and> currency (vl_price l) = cur"

lemma invoice_amount_fold:
  assumes "foldR (\<lambda>s l. bindR (invoice_line_total l) (\<lambda>t. money_add s t)) z ls = Inr m" "money_ok z" "currency z = cur"
    "list_all (invoice_line_ok cur) ls"
  shows "money_ok m \<and> currency m = cur \<and> amount m = amount z + line_sum (map invoice_line_payload_of ls)"
  using assms
proof (induction ls arbitrary: z)
  case (Cons l ls)
  have l: "money_ok (vl_price l)" "currency (vl_price l) = cur"
    using Cons.prems by (auto simp: money_ok_def invoice_line_ok_def)
  obtain t z' where t: "invoice_line_total l = Inr t" "money_add z t = Inr z'"
      "foldR (\<lambda>s l. bindR (invoice_line_total l) (\<lambda>t. money_add s t)) z' ls = Inr m"
    using Cons.prems(1) by (auto simp: result_simps)
  have "money_ok t" "amount t = q_value (vl_units l) * amount (vl_price l)"
    using t(1) l by (auto simp: invoice_line_total_def money_multiply_eval money_ok_def split: if_splits)
  moreover have "money_ok z'" using t(2) by (rule money_results_ok)
  moreover have "amount z' = amount z + amount t \<and> currency z' = currency z"
    using money_add_exact [OF Cons.prems(2) \<open>money_ok t\<close> t(2)] .
  ultimately show ?case
    using Cons.IH [OF t(3)] Cons.prems by (simp add: line_sum_def invoice_line_payload_of_def)
qed (simp add: line_sum_def)

lemma invoice_amount_exact:
  assumes "invoice_amount cur ls = Inr m" "currency_shape cur" "list_all (invoice_line_ok cur) ls"
  shows "money_ok m \<and> currency m = cur \<and> amount m = line_sum (map invoice_line_payload_of ls)"
proof -
  have z: "money_zero cur = Inr \<lparr> amount = 0, currency = cur \<rparr>"
    using assms(2) by (simp add: money_zero_def money_of_def)
  have "money_ok m \<and> currency m = cur \<and> amount m = amount \<lparr> amount = 0, currency = cur \<rparr> + line_sum (map invoice_line_payload_of ls)"
    using assms z by (intro invoice_amount_fold) (simp_all add: invoice_amount_def money_ok_def)
  then show ?thesis by simp
qed

section \<open>Issuing\<close>

definition input_payload :: "invoice_line_input \<Rightarrow> invoice_line_payload" where
  "input_payload l = \<lparr> il_product = vn_product l, il_units = q_value (vn_units l), il_unit_price = amount (vn_price l) \<rparr>"

definition input_ok :: "string \<Rightarrow> invoice_line_input \<Rightarrow> bool" where
  "input_ok cur l \<longleftrightarrow> 0 < q_value (vn_units l) \<and> is_safe (amount (vn_price l)) \<and> currency (vn_price l) = cur"

lemma issue_lines_form:
  assumes "mapR (issue_line cur) (map (\<lambda>(k, l). (fresh k, l)) (enumerate n ls)) = Inr vs"
    and "\<And>k. unique_id_from (fresh k) = Inr (fresh k)" "list_all (input_ok cur) ls"
  shows "map invoice_line_payload_of vs = map input_payload ls \<and> map vl_id vs = map fresh [n..<n + length ls] \<and>
    list_all (invoice_line_ok cur) vs"
  using assms(1,3)
proof (induction ls arbitrary: n vs)
  case (Cons l ls)
  then obtain v vs' where v: "vs = v # vs'" "issue_line cur (fresh n, l) = Inr v"
    and rest: "mapR (issue_line cur) (map (\<lambda>(k, l). (fresh k, l)) (enumerate (Suc n) ls)) = Inr vs'"
    by (auto simp: result_simps)
  have "list_all (input_ok cur) ls" "input_ok cur l" using Cons.prems(2) by simp_all
  note IH = Cons.IH [OF rest this(1)]
  have "v = create_invoice_line (fresh n) l" using v(2) by (simp add: issue_line_def split: if_splits)
  then show ?case using IH v(1) \<open>input_ok cur l\<close> assms(2)
    by (simp add: create_invoice_line_def invoice_line_payload_of_def input_payload_def invoice_line_ok_def input_ok_def upt_conv_Cons del: upt_Suc)
qed simp

lemma issue_inputs_form:
  assumes "mapR (issue_line_input cur) ls = Inr ins" "currency_shape cur"
  shows "map input_payload ins = ls \<and> list_all (input_ok cur) ins"
  using assms
proof (induction ls arbitrary: ins)
  case (Cons l ls)
  then obtain i ins' where i: "ins = i # ins'" "issue_line_input cur l = Inr i" and rest: "mapR (issue_line_input cur) ls = Inr ins'"
    by (auto simp: result_simps)
  note IH = Cons.IH [OF rest Cons.prems(2)]
  show ?case using IH i Cons.prems(2)
    by (auto simp: issue_line_input_def billing_money_def result_simps quantity_of_Inr money_of_def input_payload_def input_ok_def split: if_splits)
qed simp

lemma issue_invoice_form:
  assumes run: "issue_invoice fresh inp ctx = Inr v" and cur: "currency_shape (vi_currency inp)"
    and ids: "\<And>k. unique_id_from (fresh k) = Inr (fresh k)"
    and lines: "list_all (input_ok (vi_currency inp)) (vi_lines inp)"
    and disc: "money_ok (vi_discount inp)"
  shows "\<exists>v0. v = v0 \<lparr> v_events := [invoice_issued_event (fresh (length (vi_lines inp))) v0 (vi_correlation inp) ctx] \<rparr> \<and>
    v_id v0 = vi_id inp \<and> v_reference v0 = vi_reference inp \<and> v_date v0 = vi_date inp \<and> v_order v0 = vi_order inp \<and>
    v_retailer v0 = vi_retailer inp \<and> v_company v0 = vi_company inp \<and> v_currency v0 = vi_currency inp \<and>
    v_discount v0 = vi_discount inp \<and> v_state v0 = Invoice_Open \<and> v_events v0 = [] \<and> vi_lines inp \<noteq> [] \<and>
    map invoice_line_payload_of (v_lines v0) = map input_payload (vi_lines inp) \<and>
    list_all (invoice_line_ok (vi_currency inp)) (v_lines v0) \<and>
    money_ok (v_amount v0) \<and> currency (v_amount v0) = vi_currency inp \<and>
    amount (v_amount v0) = line_sum (map invoice_line_payload_of (v_lines v0)) \<and>
    money_ok (v_total v0) \<and> currency (v_total v0) = vi_currency inp \<and> currency (vi_discount inp) = vi_currency inp \<and>
    amount (v_total v0) = amount (v_amount v0) - amount (vi_discount inp) \<and> 0 \<le> amount (v_total v0)"
proof -
  obtain ls m t where r: "mapR (issue_line (vi_currency inp)) (map (\<lambda>(k, l). (fresh k, l)) (enumerate 0 (vi_lines inp))) = Inr ls"
      "invoice_amount (vi_currency inp) ls = Inr m" "money_subtract m (vi_discount inp) = Inr t" "\<not> amount t < 0" "vi_lines inp \<noteq> []"
    using run by (auto simp: issue_invoice_def result_simps split: if_splits)
  have form: "map invoice_line_payload_of ls = map input_payload (vi_lines inp)" and ok: "list_all (invoice_line_ok (vi_currency inp)) ls"
    using issue_lines_form [OF r(1) ids lines] by simp_all
  have len: "length ls = length (vi_lines inp)" using mapR_length [OF r(1)] by simp
  note m = invoice_amount_exact [OF r(2) cur ok]
  have t: "currency (vi_discount inp) = vi_currency inp" "amount t = amount m - amount (vi_discount inp)" "currency t = vi_currency inp" "money_ok t"
    using r(3) m disc money_results_ok(2) [OF r(3)] by (auto simp: money_subtract_eval split: if_splits)
  let ?v0 = "\<lparr> v_id = vi_id inp, v_reference = vi_reference inp, v_date = vi_date inp, v_order = vi_order inp,
          v_retailer = vi_retailer inp, v_company = vi_company inp, v_currency = vi_currency inp, v_lines = ls,
          v_amount = m, v_discount = vi_discount inp, v_total = t, v_state = Invoice_Open, v_events = [] \<rparr>"
  have "v = ?v0 \<lparr> v_events := [invoice_issued_event (fresh (length (vi_lines inp))) ?v0 (vi_correlation inp) ctx] \<rparr>"
    using run r len by (simp add: issue_invoice_def append_invoice_fact_def invoice_issued_event_def invoice_event_def)
  then show ?thesis using ok form m t r(4,5) by (intro exI [of _ ?v0]) simp
qed

section \<open>Reading an invoice back\<close>

lemma to_invoice_line_of_row:
  "invoice_line_ok cur l \<Longrightarrow> currency_shape cur \<Longrightarrow> to_invoice_line cur (to_invoice_item_row v l) = Inr l"
  by (cases "vl_units l") (simp add: to_invoice_line_def to_invoice_item_row_def invoice_line_ok_def quantity_of_def money_of_def)

definition as_stored :: "invoice_snapshot \<Rightarrow> invoice_snapshot" where
  "as_stored s = s \<lparr> vs_date := stored_datetime (vs_date s), vs_paid_at := map_option stored_datetime (vs_paid_at s) \<rparr>"

lemma stored_invoice_reads:
  assumes "unique_id_from (v_id v) = Inr (v_id v)"
    "invoice_reference_of (invoice_reference_value (v_reference v)) = Inr (v_reference v)"
    "order_number_of (order_number_value (v_order v)) = Inr (v_order v)"
    "currency_shape (v_currency v)" "list_all (invoice_line_ok (v_currency v)) (v_lines v)"
    "money_ok (v_amount v)" "currency (v_amount v) = v_currency v" "money_ok (v_discount v)" "currency (v_discount v) = v_currency v"
    "money_ok (v_total v)" "currency (v_total v) = v_currency v"
  shows "to_invoice_snapshot (to_invoice_table_row v) (map (to_invoice_item_row v) (v_lines v)) = Inr (as_stored (invoice_to_snapshot v))"
proof -
  have "mapR (to_invoice_line (v_currency v)) (map (to_invoice_item_row v) (v_lines v)) = Inr (v_lines v)"
    using assms(4,5) by (induction "v_lines v" arbitrary: v) (auto simp: mapR_list_all2 list_all2_map1 list_all2_same list_all_iff to_invoice_line_of_row)
  moreover have "money_of (Js_Int (amount m)) (v_currency v) = Inr m" if "money_ok m" "currency m = v_currency v" for m
    using that by (simp add: money_of_def money_ok_def)
  ultimately show ?thesis
    using assms by (simp add: to_invoice_snapshot_def to_invoice_table_row_def as_stored_def invoice_to_snapshot_def)
qed

lemma next_invoice_reference_parses:
  assumes "next_invoice_reference db = Inr (vref, db1)"
  shows "invoice_reference_of (invoice_reference_value vref) = Inr vref"
proof -
  define cur where "cur = (case bd_sequence db of None \<Rightarrow> Suc (max_invoice_sequence db) | Some v \<Rightarrow> v)"
  have fits: "fits_int (int cur + 1)" and ref: "invoice_reference_from_sequence (Js_Int (int cur)) = Inr vref"
    using assms by (auto simp: next_invoice_reference_def cur_def Let_def result_simps split: if_splits)
  obtain r where r: "format_reference ''INV'' (Js_Int (int cur)) = Inr r" "vref = Invoice_Reference r"
    using ref by (auto simp: invoice_reference_from_sequence_def result_simps)
  show ?thesis
    using format_reference_parses [OF plain_number_int [OF fits] r(1)] r(2)
    by (simp add: invoice_reference_of_def)
qed

section \<open>A created invoice\<close>

definition items_unused :: "uid \<Rightarrow> billing_db \<Rightarrow> bool" where
  "items_unused i db \<longleftrightarrow> list_all (\<lambda>it. vt_invoice it \<noteq> i) (bd_invoice_items db)"

lemma save_invoice_tables:
  assumes "save_invoice now v db = Inr db'"
  shows "bd_invoices db' = bd_invoices db @ [to_invoice_table_row v]"
    "bd_invoice_items db' = bd_invoice_items db @ map (to_invoice_item_row v) (v_lines v)"
    "map ob_envelope (bd_outbox db') = map ob_envelope (bd_outbox db) @ v_events v"
    "list_all (\<lambda>r. vr_order r \<noteq> order_number_value (v_order v)) (bd_invoices db)"
  using assms
  by (auto simp: save_invoice_def Let_def list_all_iff list_ex_iff to_invoice_table_row_def split: if_splits dest: record_billing_outbox_frame)

lemma save_credit_events:
  "save_credit now bc db = Inr db' \<Longrightarrow> map ob_envelope (bd_outbox db') = map ob_envelope (bd_outbox db) @ bc_events bc"
  by (auto simp: save_credit_def Let_def split: if_splits dest: record_billing_outbox_frame)

lemma consume_hold_events: "consume_hold i ref ctx bc = Inr (e, bc') \<Longrightarrow> bc_events bc' = bc_events bc \<and> bc_id bc' = bc_id bc"
  by (auto simp: consume_hold_def result_simps append_entry_def Let_def split: if_splits)

lemma issue_created_cases:
  assumes ok: "ledger_ok db" and run: "execute_issue now fresh req request_id corr db db = (Inr r, db')" and created: "ia_created r"
  obtains ref row vref db1 ins d v e bc' db2
    where "order_number_of (iq_reference req) = Inr ref" "credit_row_of (iq_retailer req) (iq_company req) db = Some row"
      "find_invoice_by_order ref db = Inr None" "iq_currency req = kr_currency row" "row \<in> set (bd_credits db)"
      "next_invoice_reference db = Inr (vref, db1)" "mapR (issue_line_input (iq_currency req)) (iq_lines req) = Inr ins"
      "billing_money (or_else (iq_discount req) 0) (iq_currency req) = Inr d"
      "issue_invoice (\<lambda>k. fresh (k + 1)) \<lparr> vi_id = fresh 0, vi_reference = vref, vi_date = now, vi_order = ref,
         vi_retailer = iq_retailer req, vi_company = iq_company req, vi_currency = iq_currency req, vi_lines = ins,
         vi_discount = d, vi_correlation = corr \<rparr> \<lparr> vx_at = now, vx_causation = request_id \<rparr> = Inr v"
      "consume_hold (fresh (length ins + 2)) ref \<lparr> cx_at = now, cx_causation = request_id \<rparr> (line_at row ref db) = Inr (e, bc')"
      "save_invoice now v db1 = Inr db2" "save_credit now bc' db2 = Inr db'" "r = reply_from_invoice v True"
proof -
  obtain ref where ref: "order_number_of (iq_reference req) = Inr ref"
    and none: "find_invoice_by_order ref db = Inr None"
    and tx: "issue_in_transaction now fresh req request_id corr ref db = Inr (r, db')"
    using run created
    by (auto simp: execute_issue_def parse_billing_order_def unit_of_work_Inr result_simps issue_reply_from_snapshot_def
        split: sum.splits option.splits)
  obtain bc where found: "lock_credit (iq_retailer req) (iq_company req) ref db = Inr (Some bc)"
    using tx by (auto simp: issue_in_transaction_def result_simps split: option.splits)
  obtain row where row: "credit_row_of (iq_retailer req) (iq_company req) db = Some row" "row \<in> set (bd_credits db)" "bc = line_at row ref db"
    using lock_credit_found [OF ok found] by metis
  have cur: "iq_currency req = kr_currency row"
    using tx found none row(3) by (auto simp: issue_in_transaction_def split: if_splits)
  show thesis
    using tx found none row(3) cur
    by (auto simp: issue_in_transaction_def result_simps split: if_splits intro!: that [OF ref row(1) none cur row(2)])
qed

lemma find_invoice_appended:
  assumes "list_all (\<lambda>r. \<not> P r) (bd_invoices db)" "P (to_invoice_table_row v)" "items_unused (v_id v) db"
    and tables: "bd_invoices db' = bd_invoices db @ [to_invoice_table_row v]"
      "bd_invoice_items db' = bd_invoice_items db @ map (to_invoice_item_row v) (v_lines v)"
    and reads: "to_invoice_snapshot (to_invoice_table_row v) (map (to_invoice_item_row v) (v_lines v)) = Inr s"
  shows "find_invoice P db' = Inr (Some s)"
proof -
  have "find P (bd_invoices db) = None" using assms(1) by (auto simp: find_None_iff list_all_iff)
  then have "find P (bd_invoices db') = Some (to_invoice_table_row v)"
    using assms(1,2) tables(1) by (simp add: find_append)
  moreover have "filter (\<lambda>it. vt_invoice it = v_id v) (bd_invoice_items db') = map (to_invoice_item_row v) (v_lines v)"
    using assms(3) tables(2) by (simp add: items_unused_def list_all_iff filter_False filter_map comp_def to_invoice_item_row_def)
  then have "filter (\<lambda>it. vt_invoice it = vr_id (to_invoice_table_row v)) (bd_invoice_items db') = map (to_invoice_item_row v) (v_lines v)"
    by (simp add: to_invoice_table_row_def)
  ultimately show ?thesis using reads by (simp add: find_invoice_def)
qed

text \<open>The invoice a created reply reports, as the tables hold it.\<close>

lemma created_invoice_form:
  assumes ok: "ledger_ok db" and fresh: "uuid_stream fresh"
    and run: "execute_issue now fresh req request_id corr db db = (Inr r, db')" "ia_created r"
  shows "\<exists>v0 eid. let ref = Order_Number (iq_reference req) in order_number_of (iq_reference req) = Inr ref \<and>
    v_id v0 = fresh 0 \<and> v_order v0 = ref \<and> v_state v0 = Invoice_Open \<and> iq_lines req \<noteq> [] \<and>
    map invoice_line_payload_of (v_lines v0) = iq_lines req \<and> r = reply_from_invoice v0 True \<and>
    amount (v_total v0) = line_sum (iq_lines req) - or_else (iq_discount req) 0 \<and> 0 \<le> amount (v_total v0) \<and>
    list_all (\<lambda>x. vr_order x \<noteq> iq_reference req) (bd_invoices db) \<and>
    bd_invoices db' = bd_invoices db @ [to_invoice_table_row v0] \<and>
    bd_invoice_items db' = bd_invoice_items db @ map (to_invoice_item_row v0) (v_lines v0) \<and>
    map ob_envelope (bd_outbox db') = map ob_envelope (bd_outbox db) @
      [invoice_issued_event eid v0 corr \<lparr> vx_at = now, vx_causation = request_id \<rparr>] \<and>
    (\<forall>i. committed_of_line i db' = committed_of_line i db) \<and>
    to_invoice_snapshot (to_invoice_table_row v0) (map (to_invoice_item_row v0) (v_lines v0)) = Inr (as_stored (invoice_to_snapshot v0))"
proof -
  obtain ref row vref db1 ins d v e bc' db2 where c:
      "order_number_of (iq_reference req) = Inr ref" "credit_row_of (iq_retailer req) (iq_company req) db = Some row"
      "find_invoice_by_order ref db = Inr None" "iq_currency req = kr_currency row" "row \<in> set (bd_credits db)"
      "next_invoice_reference db = Inr (vref, db1)" "mapR (issue_line_input (iq_currency req)) (iq_lines req) = Inr ins"
      "billing_money (or_else (iq_discount req) 0) (iq_currency req) = Inr d"
      "issue_invoice (\<lambda>k. fresh (k + 1)) \<lparr> vi_id = fresh 0, vi_reference = vref, vi_date = now, vi_order = ref,
         vi_retailer = iq_retailer req, vi_company = iq_company req, vi_currency = iq_currency req, vi_lines = ins,
         vi_discount = d, vi_correlation = corr \<rparr> \<lparr> vx_at = now, vx_causation = request_id \<rparr> = Inr v"
      "consume_hold (fresh (length ins + 2)) ref \<lparr> cx_at = now, cx_causation = request_id \<rparr> (line_at row ref db) = Inr (e, bc')"
      "save_invoice now v db1 = Inr db2" "save_credit now bc' db2 = Inr db'" "r = reply_from_invoice v True"
    using issue_created_cases [OF ok run] by blast
  have ref: "ref = Order_Number (iq_reference req)" using c(1) by (simp add: order_number_of_value)
  have cur: "currency_shape (iq_currency req)" using ok c(4,5) by (auto simp: ledger_ok_def list_all_iff credit_row_ok_def)
  have d: "money_ok d" "currency d = iq_currency req" "amount d = or_else (iq_discount req) 0"
    using c(8) cur by (auto simp: billing_money_def money_of_def money_ok_def split: if_splits)
  have ins: "map input_payload ins = iq_lines req" "list_all (input_ok (iq_currency req)) ins"
    using issue_inputs_form [OF c(7) cur] by simp_all
  have ids: "\<And>k. unique_id_from (fresh (k + 1)) = Inr (fresh (k + 1))" "unique_id_from (fresh 0) = Inr (fresh 0)"
    using fresh(1) by (simp_all add: uuid_stream_def)
  let ?ctx = "\<lparr> vx_at = now, vx_causation = request_id \<rparr>"
  obtain v0 where v: "v = v0 \<lparr> v_events := [invoice_issued_event (fresh (length ins + 1)) v0 corr ?ctx] \<rparr>"
      "v_id v0 = fresh 0" "v_reference v0 = vref" "v_date v0 = now" "v_order v0 = ref" "v_currency v0 = iq_currency req"
      "v_discount v0 = d" "v_state v0 = Invoice_Open" "ins \<noteq> []"
      "map invoice_line_payload_of (v_lines v0) = iq_lines req" "list_all (invoice_line_ok (iq_currency req)) (v_lines v0)"
      "money_ok (v_amount v0)" "currency (v_amount v0) = iq_currency req"
      "amount (v_amount v0) = line_sum (iq_lines req)" "money_ok (v_total v0)" "currency (v_total v0) = iq_currency req"
      "amount (v_total v0) = amount (v_amount v0) - amount d" "0 \<le> amount (v_total v0)"
    using issue_invoice_form [OF c(9)] cur ids ins d by auto
  note frame = next_invoice_reference_frame [OF c(6)]
  note saved = save_invoice_tables [OF c(11)]
  note credit = save_credit_frame [OF c(12)]
  have row0: "to_invoice_table_row v = to_invoice_table_row v0" "to_invoice_item_row v = to_invoice_item_row v0" "v_lines v = v_lines v0"
    "v_order v = ref" "v_id v = fresh 0"
    using v(1,2,5) by (auto simp: to_invoice_table_row_def to_invoice_item_row_def invoice_status_def invoice_paid_at_def)
  have tables: "bd_invoices db' = bd_invoices db @ [to_invoice_table_row v0]"
      "bd_invoice_items db' = bd_invoice_items db @ map (to_invoice_item_row v0) (v_lines v0)"
    using saved credit frame row0 by simp_all
  have consumed: "ce_type e = Entry_Consume" "bc_appended bc' = [e]" "bc_events bc' = []"
    using consume_hold_appends [OF c(10)] consume_hold_events [OF c(10)] by (simp_all add: appends_def)
  have committed: "committed_of_line i db' = committed_of_line i db" for i
  proof -
    have "committed_of_line i db' = committed_of_line i (db \<lparr> bd_credit_items := bd_credit_items db @ [to_credit_item_row bc' e] \<rparr>)"
      using credit(2) save_invoice_frame(2) [OF c(11)] frame(2) consumed(2) by (intro committed_cong) simp
    then show ?thesis using consumed(1)
      unfolding committed_append by (simp add: signed_amount_def to_credit_item_row_def)
  qed
  have outbox: "map ob_envelope (bd_outbox db') = map ob_envelope (bd_outbox db) @ [invoice_issued_event (fresh (length ins + 1)) v0 corr ?ctx]"
    using save_credit_events [OF c(12)] consumed(3) saved(3) frame(6) v(1) by simp
  have unissued: "list_all (\<lambda>x. vr_order x \<noteq> iq_reference req) (bd_invoices db)"
    using saved(4) frame(4) row0(4) ref by simp
  have reads: "to_invoice_snapshot (to_invoice_table_row v0) (map (to_invoice_item_row v0) (v_lines v0)) = Inr (as_stored (invoice_to_snapshot v0))"
    using v next_invoice_reference_parses [OF c(6)] c(1) ref ids(2) cur d by (intro stored_invoice_reads) simp_all
  have reply: "r = reply_from_invoice v0 True" using c(13) v(1) by (simp add: reply_from_invoice_def invoice_status_def)
  have "iq_lines req \<noteq> []" using ins(1) v(9) by auto
  then show ?thesis
    using c(1) v d ref reply tables outbox committed unissued reads
    by (intro exI [of _ v0] exI [of _ "fresh (length ins + 1)"]) simp
qed

text \<open>The invoice of an order is found again once it is issued.\<close>

lemma created_invoice_found:
  assumes "ledger_ok db" "uuid_stream fresh" "items_unused (fresh 0) db"
    and "execute_issue now fresh req request_id corr db db = (Inr r, db')" "ia_created r"
  shows "\<exists>v0. r = reply_from_invoice v0 True \<and> order_number_of (iq_reference req) = Inr (Order_Number (iq_reference req)) \<and>
    find_invoice_by_order (Order_Number (iq_reference req)) db' = Inr (Some (as_stored (invoice_to_snapshot v0)))"
proof -
  obtain v0 where v: "order_number_of (iq_reference req) = Inr (Order_Number (iq_reference req))" "v_id v0 = fresh 0"
      "v_order v0 = Order_Number (iq_reference req)" "r = reply_from_invoice v0 True"
      "list_all (\<lambda>x. vr_order x \<noteq> iq_reference req) (bd_invoices db)"
    and tables: "bd_invoices db' = bd_invoices db @ [to_invoice_table_row v0]"
      "bd_invoice_items db' = bd_invoice_items db @ map (to_invoice_item_row v0) (v_lines v0)"
    and reads: "to_invoice_snapshot (to_invoice_table_row v0) (map (to_invoice_item_row v0) (v_lines v0)) = Inr (as_stored (invoice_to_snapshot v0))"
    using created_invoice_form [OF assms(1,2,4,5)] unfolding Let_def by blast
  have "find_invoice_by_order (Order_Number (iq_reference req)) db' = Inr (Some (as_stored (invoice_to_snapshot v0)))"
    unfolding find_invoice_by_order_def
    using v(5) assms(3) v(2,3)
    by (intro find_invoice_appended [OF _ _ _ tables reads]) (simp_all add: to_invoice_table_row_def)
  with v show ?thesis by blast
qed

text \<open>C31: When an invoice is issued, its total is exactly the sum of units times unit price over
  the lines of the request less the discount, and is not negative; the order had no invoice before;
  one row is added to the invoices and one invoice.issued fact with these lines and this total to
  the outbox; and no credit line's committed exposure changes, since the consumption is neutral.
  Sending the command again, at any time and with any identifiers, answers the same invoice as not
  created, its date rounded to the second as the column stores it, and changes no table.\<close>

theorem invoice_issued_once:
  assumes ok: "ledger_ok db" and fresh: "uuid_stream fresh" "items_unused (fresh 0) db"
    and run: "execute_issue now fresh req request_id corr db db = (Inr r, db')" "ia_created r"
  shows "ia_total r = line_sum (iq_lines req) - or_else (iq_discount req) 0 \<and> 0 \<le> ia_total r \<and> iq_lines req \<noteq> [] \<and>
    list_all (\<lambda>x. vr_order x \<noteq> iq_reference req) (bd_invoices db) \<and>
    (\<exists>v. bd_invoices db' = bd_invoices db @ [v] \<and> vr_id v = ia_id r \<and> vr_order v = iq_reference req \<and>
      vr_total v = ia_total r \<and> vr_reference v = ia_invoice_reference r \<and> vr_status v = ''issued'') \<and>
    (\<exists>e p. map ob_envelope (bd_outbox db') = map ob_envelope (bd_outbox db) @ [e] \<and> ev_type e = Invoice_Issued \<and>
      ev_aggregate e = ia_id r \<and> ev_payload e = Invoice_P p \<and> ip_lines p = iq_lines req \<and> ip_total p = ia_total r \<and>
      ip_reference p = iq_reference req) \<and>
    (\<forall>i. committed_of_line i db' = committed_of_line i db) \<and>
    execute_issue now' fresh' req request_id' corr' db' db' =
      (Inr (r \<lparr> ia_created := False, ia_date := stored_datetime (ia_date r) \<rparr>), db')"
proof -
  let ?ref = "Order_Number (iq_reference req)"
  obtain v0 eid where v: "order_number_of (iq_reference req) = Inr ?ref" "v_id v0 = fresh 0" "v_order v0 = ?ref"
      "v_state v0 = Invoice_Open" "iq_lines req \<noteq> []" "map invoice_line_payload_of (v_lines v0) = iq_lines req"
      "r = reply_from_invoice v0 True" "amount (v_total v0) = line_sum (iq_lines req) - or_else (iq_discount req) 0"
      "0 \<le> amount (v_total v0)" "list_all (\<lambda>x. vr_order x \<noteq> iq_reference req) (bd_invoices db)"
    and tables: "bd_invoices db' = bd_invoices db @ [to_invoice_table_row v0]"
      "bd_invoice_items db' = bd_invoice_items db @ map (to_invoice_item_row v0) (v_lines v0)"
    and outbox: "map ob_envelope (bd_outbox db') = map ob_envelope (bd_outbox db) @
      [invoice_issued_event eid v0 corr \<lparr> vx_at = now, vx_causation = request_id \<rparr>]"
    and committed: "\<forall>i. committed_of_line i db' = committed_of_line i db"
    and reads: "to_invoice_snapshot (to_invoice_table_row v0) (map (to_invoice_item_row v0) (v_lines v0)) = Inr (as_stored (invoice_to_snapshot v0))"
    using created_invoice_form [OF ok fresh(1) run] unfolding Let_def by blast
  obtain v1 where found: "r = reply_from_invoice v1 True"
      "find_invoice_by_order ?ref db' = Inr (Some (as_stored (invoice_to_snapshot v1)))"
    using created_invoice_found [OF ok fresh run] by blast
  have again: "execute_issue now' fresh' req request_id' corr' db' db' =
      (Inr (r \<lparr> ia_created := False, ia_date := stored_datetime (ia_date r) \<rparr>), db')"
    using v(1) found
    by (simp add: execute_issue_def parse_billing_order_def issue_reply_from_snapshot_def as_stored_def invoice_to_snapshot_def reply_from_invoice_def)
  have "ia_total r = line_sum (iq_lines req) - or_else (iq_discount req) 0 \<and> 0 \<le> ia_total r"
    using v(7-9) by (simp add: reply_from_invoice_def)
  moreover have "\<exists>x. bd_invoices db' = bd_invoices db @ [x] \<and> vr_id x = ia_id r \<and> vr_order x = iq_reference req \<and>
      vr_total x = ia_total r \<and> vr_reference x = ia_invoice_reference r \<and> vr_status x = ''issued''"
    using tables(1) v(3,4,7) by (simp add: reply_from_invoice_def to_invoice_table_row_def invoice_status_def)
  moreover have "\<exists>e p. map ob_envelope (bd_outbox db') = map ob_envelope (bd_outbox db) @ [e] \<and> ev_type e = Invoice_Issued \<and>
      ev_aggregate e = ia_id r \<and> ev_payload e = Invoice_P p \<and> ip_lines p = iq_lines req \<and> ip_total p = ia_total r \<and>
      ip_reference p = iq_reference req"
    using outbox v(3,6,7) by (simp add: invoice_issued_event_def invoice_event_def reply_from_invoice_def)
  ultimately show ?thesis using v(5,10) committed again by blast
qed

section \<open>A payment\<close>

definition invoices_ok :: "billing_db \<Rightarrow> bool" where
  "invoices_ok db \<longleftrightarrow> distinct (map vr_id (bd_invoices db)) \<and>
     list_all (\<lambda>r. unique_id_from (vr_id r) = Inr (vr_id r)) (bd_invoices db)"

definition settled_row :: "instant \<Rightarrow> invoice_row \<Rightarrow> invoice_row" where
  "settled_row now r = r \<lparr> vr_status := ''paid'', vr_paid_at := Some (stored_datetime now) \<rparr>"

lemma find_invoice_row:
  assumes "invoices_ok db" "find_invoice P db = Inr (Some s)"
  obtains row where "row \<in> set (bd_invoices db)" "vr_id row = vs_id s" "vr_currency row = vs_currency s" "find P (bd_invoices db) = Some row"
    "to_invoice_snapshot row (filter (\<lambda>it. vt_invoice it = vr_id row) (bd_invoice_items db)) = Inr s"
proof -
  obtain row where row: "find P (bd_invoices db) = Some row"
      "to_invoice_snapshot row (filter (\<lambda>it. vt_invoice it = vr_id row) (bd_invoice_items db)) = Inr s"
    using assms(2) by (auto simp: find_invoice_def result_simps split: option.splits)
  then have mem: "row \<in> set (bd_invoices db)" by (auto simp: find_Some_iff)
  then have "unique_id_from (vr_id row) = Inr (vr_id row)" using assms(1) by (simp add: invoices_ok_def list_all_iff)
  then have "vr_id row = vs_id s" "vr_currency row = vs_currency s" using row(2) by (auto simp: to_invoice_snapshot_def result_simps)
  with mem row show thesis by (intro that)
qed

lemma find_invoice_of_row:
  assumes "invoices_ok db" "row \<in> set (bd_invoices db)"
    "to_invoice_snapshot row (filter (\<lambda>it. vt_invoice it = vr_id row) (bd_invoice_items db)) = Inr s"
  shows "find_invoice_by_id (vr_id row) db = Inr (Some s)"
  using find_distinct [of vr_id "bd_invoices db" row] assms
  by (simp add: find_invoice_by_id_def find_invoice_def invoices_ok_def)

lemma resolve_invoice_row:
  assumes "invoices_ok db" "resolve_invoice req db = Inr (Some s)"
  obtains row where "row \<in> set (bd_invoices db)" "vr_id row = vs_id s" "vr_currency row = vs_currency s"
    "to_invoice_snapshot row (filter (\<lambda>it. vt_invoice it = vr_id row) (bd_invoice_items db)) = Inr s"
proof -
  obtain P where "find_invoice P db = Inr (Some s)"
    using assms(2) by (auto simp: resolve_invoice_def find_invoice_by_id_def find_invoice_by_reference_def result_simps split: if_splits)
  then show thesis using find_invoice_row [OF assms(1)] that by metis
qed

lemma settled_row_reads:
  assumes "to_invoice_snapshot row its = Inr s"
  shows "to_invoice_snapshot (settled_row now row) its = Inr (s \<lparr> vs_status := ''paid'', vs_paid_at := Some (stored_datetime now) \<rparr>)"
  using assms by (auto simp: to_invoice_snapshot_def settled_row_def result_simps)

lemma reconstitute_invoice_fields:
  assumes "reconstitute_invoice s = Inr v"
  shows "v_id v = vs_id s" "v_total v = vs_total s" "v_currency v = vs_currency s" "v_order v = vs_order s"
    "v_reference v = vs_reference s" "v_events v = []" "v_state v = Invoice_Open \<longleftrightarrow> vs_status s \<noteq> ''paid''"
  using assms by (auto simp: reconstitute_invoice_def result_simps split: if_splits option.splits)

lemma mark_invoice_paid_form:
  assumes "mark_invoice_paid eid inp ctx v = Inr (i, v')"
  shows "v_state v = Invoice_Open \<and> mp_amount inp = v_total v \<and> currency (mp_amount inp) = v_currency v \<and> i = eid \<and>
    v' = v \<lparr> v_state := Invoice_Settled (vx_at ctx),
      v_events := v_events v @ [payment_received_event eid (v \<lparr> v_state := Invoice_Settled (vx_at ctx) \<rparr>) inp ctx] \<rparr>"
  using assms
  by (auto simp: mark_invoice_paid_def append_invoice_fact_def payment_received_event_def invoice_event_def Let_def split: if_splits)

lemma save_payment_tables:
  assumes "save_payment now v p db = Inr db'"
  shows "bd_invoices db' = bd_invoices (settle_invoice_row v db)" "bd_invoice_items db' = bd_invoice_items db"
    "bd_payments db' = bd_payments db @ [to_payment_table_row (v_id v) p]"
    "map ob_envelope (bd_outbox db') = map ob_envelope (bd_outbox db) @ v_events v"
  using assms
  by (auto simp: save_payment_def settle_invoice_row_def Let_def split: if_splits dest: record_billing_outbox_frame)

lemma settled_invoices:
  assumes "v_state v = Invoice_Settled now"
  shows "bd_invoices (settle_invoice_row v db) = map (\<lambda>r. if vr_id r = v_id v then settled_row now r else r) (bd_invoices db)"
  using assms by (simp add: settle_invoice_row_def settled_row_def invoice_status_def invoice_paid_at_def cong: if_cong)

lemma find_settled_invoice:
  assumes ok: "invoices_ok db" and row: "row \<in> set (bd_invoices db)"
    "to_invoice_snapshot row (filter (\<lambda>it. vt_invoice it = vr_id row) (bd_invoice_items db)) = Inr s"
    and db': "bd_invoices db' = map (\<lambda>r. if vr_id r = vr_id row then settled_row now r else r) (bd_invoices db)"
      "bd_invoice_items db' = bd_invoice_items db"
  shows "find_invoice_by_id (vr_id row) db' = Inr (Some (s \<lparr> vs_status := ''paid'', vs_paid_at := Some (stored_datetime now) \<rparr>))"
proof -
  have id: "vr_id (settled_row now r) = vr_id r" for r by (simp add: settled_row_def)
  have "find (\<lambda>r. vr_id r = vr_id row) (map (\<lambda>r. if vr_id r = vr_id row then settled_row now r else r) rs) =
      map_option (settled_row now) (find (\<lambda>r. vr_id r = vr_id row) rs)" for rs
    by (induction rs) (simp_all add: id)
  then have "find (\<lambda>r. vr_id r = vr_id row) (bd_invoices db') = Some (settled_row now row)"
    using find_distinct [of vr_id "bd_invoices db" row] ok row(1) db'(1) by (simp add: invoices_ok_def)
  then show ?thesis
    using settled_row_reads [OF row(2)] db'(2) by (simp add: find_invoice_by_id_def find_invoice_def id)
qed

lemma payment_accepted_cases:
  assumes ok: "ledger_ok db" and inv: "invoices_ok db"
    and s: "resolve_invoice req db = Inr (Some s)" and row: "credit_row_of (vs_retailer s) (vs_company s) db = Some row"
    and run: "execute_payment now fresh req request_id corr db db = (Inr r, db')" "pa_outcome r = Payment_Accepted"
  obtains v m eid v' entry bc' db1
    where "find_payment_by_reference (yq_payment_reference req) db = Inr None" "reconstitute_invoice s = Inr v"
      "billing_money (yq_amount req) (yq_currency req) = Inr m"
      "mark_invoice_paid (fresh 0) \<lparr> mp_reference = yq_payment_reference req, mp_amount = m,
         mp_value_date = yq_value_date req, mp_source = yq_source req, mp_correlation = corr \<rparr>
         \<lparr> vx_at = now, vx_causation = request_id \<rparr> v = Inr (eid, v')"
      "release_hold (fresh 1) (fresh 2) (vs_order s) Release_Invoice_Paid corr \<lparr> cx_at = now, cx_causation = eid \<rparr>
         (line_at row (vs_order s) db) = Inr (entry, bc')"
      "save_payment now v' \<lparr> pt_id = fresh 3, pt_reference = yq_payment_reference req, pt_invoice = v_id v',
         pt_amount = m, pt_value_date = yq_value_date req, pt_source = yq_source req, pt_created = now \<rparr> db = Inr db1"
      "save_credit now bc' db1 = Inr db'" "r = reply_from_paid_invoice v' (yq_payment_reference req)"
proof -
  obtain irow where irow: "irow \<in> set (bd_invoices db)" "vr_id irow = vs_id s"
      "to_invoice_snapshot irow (filter (\<lambda>it. vt_invoice it = vr_id irow) (bd_invoice_items db)) = Inr s"
    using resolve_invoice_row [OF inv s] by metis
  have locked: "find_invoice_by_id (vs_id s) db = Inr (Some s)"
    using find_invoice_of_row [OF inv irow(1,3)] irow(2) by simp
  have none: "find_payment_by_reference (yq_payment_reference req) db = Inr None"
    and tx: "payment_in_transaction now fresh req request_id corr s db = Inr (r, db')"
    using run s
    by (auto simp: execute_payment_def unit_of_work_Inr reply_from_duplicate_def split: sum.splits option.splits if_splits)
  have lock: "lock_credit (vs_retailer s) (vs_company s) (vs_order s) db = Inr (Some (line_at row (vs_order s) db))"
    using row ok by (simp add: lock_credit_eval)
  obtain v same where v: "reconstitute_invoice s = Inr v" "paid_by_same req v db = Inr same"
    using tx lock locked by (auto simp: payment_in_transaction_def result_simps)
  have "same = None"
    using tx lock locked v run(2) by (cases same) (auto simp: payment_in_transaction_def reply_from_duplicate_def)
  then show thesis
    using tx lock locked v
    by (auto simp: payment_in_transaction_def result_simps intro!: that [OF none v(1)])
qed

lemma release_effect:
  assumes ready: "line_ready row db" "row \<in> set (bd_credits db)" and weight: "ledger_weight row ref db < 2 ^ 50"
    and run: "release_hold i eid ref reason corr ctx (line_at row ref db) = Inr (entry, bc')"
  shows "let x = order_exposure_rows row ref db in 0 \<le> x \<and>
    bc_events bc' = (if x = 0 then [] else [credit_released_event eid (line_at row ref db) ref x
      (kr_limit row - committed_of_line (kr_id row) db + x) reason corr ctx]) \<and>
    sum_list (map signed_amount (map (to_credit_item_row bc') (bc_appended bc'))) = - x \<and>
    list_all (\<lambda>it. ki_credit it = kr_id row) (map (to_credit_item_row bc') (bc_appended bc'))"
  using run unfolding release_hold_line [OF ready weight] Let_def
  by (auto simp: to_credit_item_row_def signed_amount_def create_credit_entry_def split: if_splits)

lemma committed_after_save:
  assumes "bd_credit_items db' = bd_credit_items db @ its" "list_all (\<lambda>it. ki_credit it = kr_id row) its"
  shows "committed_of_line (kr_id row) db' = committed_of_line (kr_id row) db + sum_list (map signed_amount its)"
proof -
  have "filter (\<lambda>it. ki_credit it = kr_id row) its = its" using assms(2) by (simp add: list_all_iff filter_True)
  then show ?thesis using assms(1) by (simp add: committed_of_line_def)
qed

text \<open>A payment that was accepted, answered when it comes again.\<close>

lemma paid_again:
  assumes inv: "invoices_ok db" and s: "resolve_invoice req db = Inr (Some s)"
    and none: "find_payment_by_reference (yq_payment_reference req) db = Inr None"
    and db': "bd_invoices db' = map (\<lambda>r. if vr_id r = vs_id s then settled_row now r else r) (bd_invoices db)"
      "bd_invoice_items db' = bd_invoice_items db" "bd_payments db' = bd_payments db @ [to_payment_table_row (vs_id s) p]"
    and p: "pt_reference p = yq_payment_reference req" "unique_id_from (pt_id p) = Inr (pt_id p)" "money_ok (pt_amount p)"
  shows "execute_payment now' fresh' req request_id' corr' db' db' =
    (if identity_matches_invoice req s
     then Inr (reply_from_duplicate (s \<lparr> vs_status := ''paid'', vs_paid_at := Some (stored_datetime now) \<rparr>) p)
     else Inl (Payment_Reference_Conflict (yq_payment_reference req)), db')"
proof -
  obtain irow where irow: "irow \<in> set (bd_invoices db)" "vr_id irow = vs_id s"
      "to_invoice_snapshot irow (filter (\<lambda>it. vt_invoice it = vr_id irow) (bd_invoice_items db)) = Inr s"
    using resolve_invoice_row [OF inv s] by metis
  have uid: "unique_id_from (vs_id s) = Inr (vs_id s)" using inv irow(1,2) by (auto simp: invoices_ok_def list_all_iff)
  have invoice: "find_invoice_by_id (vs_id s) db' = Inr (Some (s \<lparr> vs_status := ''paid'', vs_paid_at := Some (stored_datetime now) \<rparr>))"
    using find_settled_invoice [OF inv irow(1,3), of db' now] db'(1,2) irow(2) by simp
  have "find (\<lambda>r. pm_reference r = yq_payment_reference req) (bd_payments db) = None"
    using none by (auto simp: find_payment_by_reference_def find_payment_def result_simps split: option.splits)
  then have "find (\<lambda>r. pm_reference r = yq_payment_reference req) (bd_payments db') = Some (to_payment_table_row (vs_id s) p)"
    using db'(3) p(1) by (simp add: find_append to_payment_table_row_def)
  moreover have "to_payment_record (to_payment_table_row (vs_id s) p) =
      Inr (p \<lparr> pt_invoice := vs_id s, pt_value_date := stored_datetime (pt_value_date p), pt_created := stored_datetime (pt_created p) \<rparr>)"
    using p(2,3) uid by (simp add: to_payment_record_def to_payment_table_row_def money_of_def money_ok_def)
  ultimately have payment: "find_payment_by_reference (yq_payment_reference req) db' =
      Inr (Some (p \<lparr> pt_invoice := vs_id s, pt_value_date := stored_datetime (pt_value_date p), pt_created := stored_datetime (pt_created p) \<rparr>))"
    by (simp add: find_payment_by_reference_def find_payment_def)
  show ?thesis
    by (simp add: execute_payment_def payment invoice identity_matches_invoice_def reply_from_duplicate_def)
qed

lemma paid_tables:
  assumes ok: "ledger_ok db" "invoices_ok db" and fresh: "uuid_stream fresh"
    and s: "resolve_invoice req db = Inr (Some s)" and row: "credit_row_of (vs_retailer s) (vs_company s) db = Some row"
    and run: "execute_payment now fresh req request_id corr db db = (Inr r, db')" "pa_outcome r = Payment_Accepted"
  shows "bd_invoices db' = map (\<lambda>x. if vr_id x = vs_id s then settled_row now x else x) (bd_invoices db) \<and>
    (\<exists>p. bd_payments db' = bd_payments db @ [p] \<and> pm_reference p = yq_payment_reference req \<and> pm_invoice p = vs_id s \<and>
      pm_amount p = yq_amount req) \<and>
    execute_payment now' fresh' req request_id' corr' db' db' =
      (if identity_matches_invoice req s
       then Inr (r \<lparr> pa_outcome := Payment_Duplicate, pa_paid_at := Some (stored_datetime now) \<rparr>)
       else Inl (Payment_Reference_Conflict (yq_payment_reference req)), db')"
proof -
  obtain v m eid v' entry bc' db1 where c: "find_payment_by_reference (yq_payment_reference req) db = Inr None"
      "reconstitute_invoice s = Inr v" "billing_money (yq_amount req) (yq_currency req) = Inr m"
    and mark: "mark_invoice_paid (fresh 0) \<lparr> mp_reference = yq_payment_reference req, mp_amount = m,
         mp_value_date = yq_value_date req, mp_source = yq_source req, mp_correlation = corr \<rparr>
         \<lparr> vx_at = now, vx_causation = request_id \<rparr> v = Inr (eid, v')"
    and pay: "save_payment now v' \<lparr> pt_id = fresh 3, pt_reference = yq_payment_reference req, pt_invoice = v_id v',
         pt_amount = m, pt_value_date = yq_value_date req, pt_source = yq_source req, pt_created = now \<rparr> db = Inr db1"
    and save: "save_credit now bc' db1 = Inr db'" and r: "r = reply_from_paid_invoice v' (yq_payment_reference req)"
    using payment_accepted_cases [OF ok s row run] by metis
  note f = reconstitute_invoice_fields [OF c(2)]
  note marked = mark_invoice_paid_form [OF mark, simplified]
  note paid = save_payment_tables [OF pay] and credit = save_credit_frame [OF save]
  have m: "money_ok m" "amount m = yq_amount req"
    using c(3) by (auto simp: billing_money_def money_of_def money_ok_def result_simps validate_currency_def Let_def split: if_splits)
  have v': "v_id v' = vs_id s" "v_state v' = Invoice_Settled now" using marked f by simp_all
  have invoices: "bd_invoices db' = map (\<lambda>x. if vr_id x = vs_id s then settled_row now x else x) (bd_invoices db)"
    using settled_invoices [OF v'(2)] paid(1) credit(3) v'(1) by simp
  have payments: "bd_payments db' = bd_payments db @ [to_payment_table_row (vs_id s) \<lparr> pt_id = fresh 3,
      pt_reference = yq_payment_reference req, pt_invoice = v_id v', pt_amount = m, pt_value_date = yq_value_date req,
      pt_source = yq_source req, pt_created = now \<rparr>]"
    using paid(3) credit(5) v'(1) by simp
  have "unique_id_from (fresh 3) = Inr (fresh 3)" using fresh by (simp add: uuid_stream_def)
  then have "execute_payment now' fresh' req request_id' corr' db' db' =
      (if identity_matches_invoice req s
       then Inr (r \<lparr> pa_outcome := Payment_Duplicate, pa_paid_at := Some (stored_datetime now) \<rparr>)
       else Inl (Payment_Reference_Conflict (yq_payment_reference req)), db')"
    using paid_again [OF ok(2) s c(1) invoices _ payments, of now' fresh' request_id' corr', simplified] paid(2) credit(4) m(1) r marked f
    by (simp add: reply_from_duplicate_def reply_from_paid_invoice_def invoice_status_def)
  then show ?thesis using invoices payments m(2) by (simp add: to_payment_table_row_def)
qed

text \<open>C32: An accepted payment names an invoice that was not paid and pays its exact total in its
  currency.  In one transaction the invoice's row, and no other, becomes paid at the time of the
  command; one payment row is added; the outbox gets the payment.received fact and after it, when
  the order still tied credit up, the credit.released fact it caused; and the committed exposure of
  the credit line falls by exactly what the order tied up.  Sending the command again writes nothing:
  it is answered as a duplicate with the settled invoice, or, when the invoice identifiers the request
  carries are not literally those of the invoice, refused as a conflict of payment references.\<close>

theorem payment_settles_invoice:
  assumes ok: "invoices_ok db" and fresh: "uuid_stream fresh"
    and s: "resolve_invoice req db = Inr (Some s)" and line: "credit_row_of (vs_retailer s) (vs_company s) db = Some row"
      "line_ready row db" "small_ledger row (vs_order s) db"
    and run: "execute_payment now fresh req request_id corr db db = (Inr r, db')" "pa_outcome r = Payment_Accepted"
  shows "vs_status s \<noteq> ''paid'' \<and> amount (vs_total s) = yq_amount req \<and> vs_currency s = upper_case (yq_currency req) \<and>
    bd_invoices db' = map (\<lambda>v. if vr_id v = vs_id s then settled_row now v else v) (bd_invoices db) \<and>
    (\<exists>p. bd_payments db' = bd_payments db @ [p] \<and> pm_reference p = yq_payment_reference req \<and> pm_invoice p = vs_id s \<and>
      pm_amount p = yq_amount req) \<and>
    (let x = order_exposure_rows row (vs_order s) db in
      committed_of_line (kr_id row) db' = committed_of_line (kr_id row) db - x \<and>
      (\<exists>e es. map ob_envelope (bd_outbox db') = map ob_envelope (bd_outbox db) @ e # es \<and> ev_type e = Payment_Received \<and>
        map (\<lambda>e'. (ev_type e', ev_causation e')) es = (if x = 0 then [] else [(Credit_Released_Fact, ev_id e)]))) \<and>
    execute_payment now' fresh' req request_id' corr' db' db' =
      (if identity_matches_invoice req s
       then Inr (r \<lparr> pa_outcome := Payment_Duplicate, pa_paid_at := Some (stored_datetime now) \<rparr>)
       else Inl (Payment_Reference_Conflict (yq_payment_reference req)), db')"
proof -
  have led: "ledger_ok db" using line(2) by (simp add: line_ready_def)
  obtain v m eid v' entry bc' db1 where c: "reconstitute_invoice s = Inr v" "billing_money (yq_amount req) (yq_currency req) = Inr m"
    and mark: "mark_invoice_paid (fresh 0) \<lparr> mp_reference = yq_payment_reference req, mp_amount = m,
         mp_value_date = yq_value_date req, mp_source = yq_source req, mp_correlation = corr \<rparr>
         \<lparr> vx_at = now, vx_causation = request_id \<rparr> v = Inr (eid, v')"
    and release: "release_hold (fresh 1) (fresh 2) (vs_order s) Release_Invoice_Paid corr \<lparr> cx_at = now, cx_causation = eid \<rparr>
         (line_at row (vs_order s) db) = Inr (entry, bc')"
    and pay: "save_payment now v' \<lparr> pt_id = fresh 3, pt_reference = yq_payment_reference req, pt_invoice = v_id v',
         pt_amount = m, pt_value_date = yq_value_date req, pt_source = yq_source req, pt_created = now \<rparr> db = Inr db1"
    and save: "save_credit now bc' db1 = Inr db'"
    using payment_accepted_cases [OF led ok s line(1) run] by metis
  note f = reconstitute_invoice_fields [OF c(1)]
  note marked = mark_invoice_paid_form [OF mark, simplified]
  have m: "amount m = yq_amount req" "currency m = upper_case (yq_currency req)"
    using c(2) by (auto simp: billing_money_def money_of_def result_simps validate_currency_def Let_def split: if_splits)
  have row: "row \<in> set (bd_credits db)" using credit_row_of_mem [OF line(1)] by simp
  have weight: "ledger_weight row (vs_order s) db < 2 ^ 50" using line(3) by (simp add: small_ledger_def)
  note rel = release_effect [OF line(2) row weight release, unfolded Let_def]
  have committed: "committed_of_line (kr_id row) db' = committed_of_line (kr_id row) db - order_exposure_rows row (vs_order s) db"
    using committed_after_save [of db' db "map (to_credit_item_row bc') (bc_appended bc')" row] rel
      save_credit_frame(2) [OF save] save_payment_frame(2) [OF pay] by simp
  have "map ob_envelope (bd_outbox db') = map ob_envelope (bd_outbox db) @ v_events v' @ bc_events bc'"
    using save_credit_events [OF save] save_payment_tables(4) [OF pay] by simp
  then have facts: "\<exists>e es. map ob_envelope (bd_outbox db') = map ob_envelope (bd_outbox db) @ e # es \<and> ev_type e = Payment_Received \<and>
      map (\<lambda>e'. (ev_type e', ev_causation e')) es =
        (if order_exposure_rows row (vs_order s) db = 0 then [] else [(Credit_Released_Fact, ev_id e)])"
    using marked f(6) rel
    by (simp add: payment_received_event_def invoice_event_def credit_released_event_def credit_event_def)
  have "vs_status s \<noteq> ''paid'' \<and> amount (vs_total s) = yq_amount req \<and> vs_currency s = upper_case (yq_currency req)"
    using marked f m by auto
  then show ?thesis
    using paid_tables [OF led ok fresh s line(1) run] committed facts unfolding Let_def by blast
qed

text \<open>A payment that names its invoice by an identifier with an upper-case letter is accepted,
  since the identifier is normalised before the invoice is looked up, but the very same command sent
  again is refused as a payment-reference conflict instead of answered as a duplicate: the fast path
  compares the identifier of the request as it was written with the stored one.\<close>

theorem payment_upper_case_id_conflicts:
  assumes ok: "ledger_ok db" "invoices_ok db" "uuid_stream fresh"
    and s: "resolve_invoice req db = Inr (Some s)" "credit_row_of (vs_retailer s) (vs_company s) db = Some row"
    and upper: "yq_invoice_id req = Some i" "lower_case i \<noteq> i"
    and run: "execute_payment now fresh req request_id corr db db = (Inr r, db')" "pa_outcome r = Payment_Accepted"
  shows "vs_id s = lower_case i \<and>
    execute_payment now' fresh' req request_id' corr' db' db' = (Inl (Payment_Reference_Conflict (yq_payment_reference req)), db')"
proof -
  have "i \<noteq> []" using upper(2) by (auto simp: lower_case_def)
  then have "find_invoice_by_id (lower_case i) db = Inr (Some s)"
    using s(1) upper(1) by (auto simp: resolve_invoice_def truthy_def unique_id_from_def result_simps split: if_splits)
  then have id: "vs_id s = lower_case i"
    using find_invoice_row [OF ok(2), of _ s] unfolding find_invoice_by_id_def by (metis (mono_tags, lifting) find_Some_iff)
  then have "\<not> identity_matches_invoice req s" using upper by (auto simp: identity_matches_invoice_def)
  then show ?thesis using paid_tables [OF ok s run] id by simp
qed

end
