(* ===== verification/Billing_Examples.thy ===== *)
theory Billing_Examples
  imports Invoice_Properties Saga_Examples
begin

text \<open>
  One credit line with one order held on it, and the billing commands run on it in the kernel: the
  order is invoiced and its invoice paid.
\<close>

definition example_uuid :: "nat \<Rightarrow> nat \<Rightarrow> uid" where
  "example_uuid n k = example_id (min (n + k) 9)"

definition example_credit_row :: credit_row where
  "example_credit_row = \<lparr> kr_id = example_id 0, kr_code = ''CR-000001'', kr_retailer = ''RET'', kr_company = ''CO'',
     kr_limit = 10000, kr_currency = ''EUR'' \<rparr>"

definition example_billing :: billing_db where
  "example_billing = \<lparr> bd_credits = [example_credit_row],
     bd_credit_items = [\<lparr> ki_id = example_id 1, ki_credit = example_id 0, ki_order = ''ORD-000002'', ki_amount = 3000,
       ki_type = Entry_Hold, ki_date = 0 \<rparr>],
     bd_invoices = [], bd_invoice_items = [], bd_payments = [], bd_outbox = [], bd_next_seq = 1, bd_sequence = None \<rparr>"

definition example_hold :: hold_request where
  "example_hold = \<lparr> hq_reference = ''ORD-000001'', hq_retailer = ''RET'', hq_company = ''CO'', hq_amount = 4000, hq_currency = ''EUR'' \<rparr>"

definition example_credit_release :: credit_release_request where
  "example_credit_release = \<lparr> lq_reference = ''ORD-000002'', lq_retailer = ''RET'', lq_company = ''CO'' \<rparr>"

lemma example_uuid_stream: "uuid_stream (example_uuid n)"
  using example_id_canonical by (auto simp: uuid_stream_def example_uuid_def)

lemma example_billing_ready: "line_ready example_credit_row example_billing"
  by code_simp

lemma example_billing_facts:
  "credit_row_of ''RET'' ''CO'' example_billing = Some example_credit_row"
  "order_number_of ''ORD-000001'' = Inr (Order_Number ''ORD-000001'')"
  "order_number_of ''ORD-000002'' = Inr (Order_Number ''ORD-000002'')"
  "unused_item (example_uuid 2 0) example_billing" "unused_event (example_uuid 2 0) example_billing"
  "unused_event (example_uuid 2 1) example_billing"
  by code_simp+

theorem credit_never_overcommitted_witness:
  "committed_of_line (example_id 0) (snd (execute_hold always_approve 0 (example_uuid 2) example_hold (example_id 5) (example_id 6)
     example_billing)) \<le> 10000"
proof -
  let ?db = "snd (execute_hold always_approve 0 (example_uuid 2) example_hold (example_id 5) (example_id 6) example_billing)"
  have ok: "ledger_ok example_billing" using example_billing_ready by (simp add: line_ready_def)
  have "billing_step\<^sup>*\<^sup>* example_billing ?db" using billing_step.Hold [OF example_uuid_stream] by blast
  from credit_never_overcommitted [OF ok this]
  have "bd_credits ?db = bd_credits example_billing" "list_all (\<lambda>r. committed_of_line (kr_id r) ?db \<le> kr_limit r) (bd_credits ?db)"
    by blast+
  moreover have "bd_credits example_billing = [example_credit_row]" "kr_id example_credit_row = example_id 0"
      "kr_limit example_credit_row = 10000"
    by (simp_all add: example_billing_def example_credit_row_def)
  ultimately show ?thesis by simp
qed

theorem credit_hold_outcomes_witness:
  "fst (execute_hold (simulator_decide 0 0) 0 (example_uuid 2) example_hold (example_id 5) (example_id 6) example_billing) =
    Inr (hold_reply_for example_hold example_credit_row (Outcome_Approved 4000) 3000)"
proof -
  have "execute_hold (simulator_decide 0 0) 0 (example_uuid 2) example_hold (example_id 5) (example_id 6) example_billing =
      (Inr (hold_reply_for example_hold example_credit_row (Outcome_Approved 4000) 3000),
       with_billing_event 0 (credit_approved_event (example_uuid 2 1) (line_at example_credit_row (Order_Number ''ORD-000001'') example_billing)
         (Order_Number ''ORD-000001'') 4000 3000 (example_id 6) \<lparr> cx_at = 0, cx_causation = example_id 5 \<rparr>)
         (with_item (hold_item (example_uuid 2 0) example_credit_row example_hold 0) example_billing))"
    by (subst credit_hold_outcomes [where row = example_credit_row and ref = "Order_Number ''ORD-000001''"])
      (use example_billing_facts example_billing_ready in \<open>simp_all add: example_hold_def example_billing_def example_credit_row_def
        items_of_def committed_of_line_def signed_amount_def simulator_decide_def decision_request_for_def js_rem_def
        currency_shape_def is_upper_def code_of_def fits_int_def\<close>)
  then show ?thesis by simp
qed

theorem credit_release_outcomes_witness:
  "\<exists>db'. execute_credit_release 0 (example_uuid 2) example_credit_release (example_id 5) (example_id 6) example_billing =
      (Inr (release_reply_for example_credit_release example_credit_row (Some 3000) 10000), db') \<and>
    execute_credit_release 9 (example_uuid 4) example_credit_release (example_id 7) (example_id 8) db' =
      (Inr (release_reply_for example_credit_release example_credit_row None 10000), db')"
proof -
  let ?ref = "Order_Number ''ORD-000002''"
  obtain reply db' where run: "execute_credit_release 0 (example_uuid 2) example_credit_release (example_id 5) (example_id 6) example_billing = (reply, db')"
    by (metis prod.exhaust)
  have sums: "order_exposure_rows example_credit_row ?ref example_billing = 3000"
      "committed_of_line (kr_id example_credit_row) example_billing = 3000" "small_ledger example_credit_row ?ref example_billing"
      "kr_limit example_credit_row = 10000"
    by code_simp+
  have db': "db' = snd (execute_credit_release 0 (example_uuid 2) example_credit_release (example_id 5) (example_id 6) example_billing)"
    using run by simp
  have unused: "unused_item (example_uuid 4 0) db'" "unused_event (example_uuid 4 1) db'"
    unfolding db' by code_simp+
  have rel: "lq_retailer example_credit_release = ''RET''" "lq_company example_credit_release = ''CO''"
      "lq_reference example_credit_release = ''ORD-000002''" by (simp_all add: example_credit_release_def)
  have "unused_item (example_uuid 2 0) example_billing" "unused_event (example_uuid 2 1) example_billing"
    using example_billing_facts by blast+
  then have "reply = Inr (release_reply_for example_credit_release example_credit_row (Some 3000) 10000) \<and>
      execute_credit_release 9 (example_uuid 4) example_credit_release (example_id 7) (example_id 8) db' =
        (Inr (release_reply_for example_credit_release example_credit_row None 10000), db')"
    using credit_release_outcomes [where ref = ?ref and fresh' = "example_uuid 4" and now' = 9 and request_id' = "example_id 7" and corr' = "example_id 8", OF _ example_billing_ready _ _ _ _ _ _ example_uuid_stream example_uuid_stream unused run]
      example_billing_facts(1,3) sums
    by (auto simp: rel Let_def)
  with run show ?thesis by blast
qed

section \<open>An invoice and its payment\<close>

definition example_letter_uuid :: "nat \<Rightarrow> uid" where
  "example_letter_uuid k = (if k = 0 then ''0000000a-0000-4000-8000-000000000000'' else example_id (min (k + 1) 9))"

definition example_issue :: issue_request where
  "example_issue = \<lparr> iq_reference = ''ORD-000002'', iq_retailer = ''RET'', iq_company = ''CO'', iq_currency = ''EUR'',
     iq_lines = [\<lparr> il_product = ''P1'', il_units = 2, il_unit_price = 1600 \<rparr>], iq_discount = Some 200 \<rparr>"

definition example_payment :: "string \<Rightarrow> payment_request" where
  "example_payment i = \<lparr> yq_invoice_id = Some i, yq_invoice_reference = None, yq_payment_reference = ''PAY-1'',
     yq_amount = 3000, yq_currency = ''EUR'', yq_value_date = 5000, yq_source = By_Robot \<rparr>"

definition example_issued :: "(billing_error + issue_reply) \<times> billing_db" where
  "example_issued = execute_issue 1000 example_letter_uuid example_issue (example_id 8) (example_id 9) example_billing example_billing"

text \<open>The tables after such an issue, its fact left out.\<close>

definition example_invoiced :: billing_db where
  "example_invoiced = example_billing
     \<lparr> bd_credit_items := bd_credit_items example_billing @ [\<lparr> ki_id = example_id 4, ki_credit = example_id 0,
         ki_order = ''ORD-000002'', ki_amount = 3000, ki_type = Entry_Consume, ki_date = 1000 \<rparr>],
       bd_invoices := [\<lparr> vr_id = ''0000000a-0000-4000-8000-000000000000'', vr_reference = ''INV-000001'', vr_date = 1000,
         vr_company = ''CO'', vr_retailer = ''RET'', vr_order = ''ORD-000002'', vr_amount = 3200, vr_discount = 200,
         vr_total = 3000, vr_currency = ''EUR'', vr_status = ''issued'', vr_paid_at = None \<rparr>],
       bd_invoice_items := [\<lparr> vt_id = example_id 2, vt_invoice = ''0000000a-0000-4000-8000-000000000000'',
         vt_product = ''P1'', vt_units = 2, vt_price = 1600 \<rparr>] \<rparr>"

definition example_paid :: "string \<Rightarrow> (billing_error + payment_reply) \<times> billing_db" where
  "example_paid i = execute_payment 9000 (example_uuid 5) (example_payment i) (example_id 8) (example_id 9) example_invoiced example_invoiced"

lemma example_letter_stream: "uuid_stream example_letter_uuid"
proof -
  have "unique_id_from ''0000000a-0000-4000-8000-000000000000'' = Inr ''0000000a-0000-4000-8000-000000000000''" by code_simp
  then show ?thesis using example_id_canonical by (auto simp: uuid_stream_def example_letter_uuid_def)
qed

lemma example_issue_runs: "case fst example_issued of Inr r \<Rightarrow> ia_created r \<and> ia_total r = 3000 | Inl _ \<Rightarrow> False"
  by code_simp

lemma example_invoiced_ok:
  "invoices_ok example_invoiced" "line_ready example_credit_row example_invoiced"
  by code_simp+

lemma example_payment_accepted:
  "case fst (example_paid ''0000000A-0000-4000-8000-000000000000'') of Inr r \<Rightarrow> pa_outcome r = Payment_Accepted | Inl _ \<Rightarrow> False"
  "case resolve_invoice (example_payment ''0000000A-0000-4000-8000-000000000000'') example_invoiced of
     Inr (Some s) \<Rightarrow> credit_row_of (vs_retailer s) (vs_company s) example_invoiced = Some example_credit_row \<and>
       small_ledger example_credit_row (vs_order s) example_invoiced \<and> order_exposure_rows example_credit_row (vs_order s) example_invoiced = 3000
   | _ \<Rightarrow> False"
  by code_simp+

theorem invoice_issued_once_witness:
  "\<exists>r db'. example_issued = (Inr r, db') \<and> ia_total r = 3000 \<and>
    execute_issue 7000 (example_uuid 4) example_issue (example_id 4) (example_id 5) db' db' =
      (Inr (r \<lparr> ia_created := False, ia_date := stored_datetime (ia_date r) \<rparr>), db')"
proof -
  obtain r db' where run: "execute_issue 1000 example_letter_uuid example_issue (example_id 8) (example_id 9) example_billing example_billing = (Inr r, db')"
      "ia_created r" "ia_total r = 3000"
    using example_issue_runs by (cases "fst example_issued"; cases example_issued) (auto simp: example_issued_def)
  have ok: "ledger_ok example_billing" "items_unused (example_letter_uuid 0) example_billing"
    using example_billing_ready by (simp_all add: line_ready_def items_unused_def example_billing_def)
  have "execute_issue 7000 (example_uuid 4) example_issue (example_id 4) (example_id 5) db' db' =
      (Inr (r \<lparr> ia_created := False, ia_date := stored_datetime (ia_date r) \<rparr>), db')"
    using invoice_issued_once [OF ok(1) example_letter_stream ok(2) run(1,2), of 7000 "example_uuid 4" "example_id 4" "example_id 5"] by blast
  then show ?thesis using run by (simp add: example_issued_def)
qed

lemma example_payment_run:
  obtains s r db' where "resolve_invoice (example_payment ''0000000A-0000-4000-8000-000000000000'') example_invoiced = Inr (Some s)"
    "credit_row_of (vs_retailer s) (vs_company s) example_invoiced = Some example_credit_row"
    "small_ledger example_credit_row (vs_order s) example_invoiced"
    "order_exposure_rows example_credit_row (vs_order s) example_invoiced = 3000"
    "execute_payment 9000 (example_uuid 5) (example_payment ''0000000A-0000-4000-8000-000000000000'') (example_id 8) (example_id 9)
       example_invoiced example_invoiced = (Inr r, db')" "pa_outcome r = Payment_Accepted"
    "example_paid ''0000000A-0000-4000-8000-000000000000'' = (Inr r, db')"
proof -
  let ?p = "example_paid ''0000000A-0000-4000-8000-000000000000''"
  obtain r where r: "fst ?p = Inr r" "pa_outcome r = Payment_Accepted" using example_payment_accepted(1) by (auto split: sum.splits)
  then have "?p = (Inr r, snd ?p)" by (metis prod.collapse)
  then show thesis using example_payment_accepted(2) r(2) by (auto simp: example_paid_def split: sum.splits option.splits intro: that)
qed

theorem payment_settles_invoice_witness:
  "\<exists>r db'. example_paid ''0000000A-0000-4000-8000-000000000000'' = (Inr r, db') \<and>
    committed_of_line (kr_id example_credit_row) db' = committed_of_line (kr_id example_credit_row) example_invoiced - 3000"
proof -
  obtain s r db' where p: "resolve_invoice (example_payment ''0000000A-0000-4000-8000-000000000000'') example_invoiced = Inr (Some s)"
    "credit_row_of (vs_retailer s) (vs_company s) example_invoiced = Some example_credit_row"
    "small_ledger example_credit_row (vs_order s) example_invoiced"
    "order_exposure_rows example_credit_row (vs_order s) example_invoiced = 3000"
    "execute_payment 9000 (example_uuid 5) (example_payment ''0000000A-0000-4000-8000-000000000000'') (example_id 8) (example_id 9)
       example_invoiced example_invoiced = (Inr r, db')" "pa_outcome r = Payment_Accepted"
    "example_paid ''0000000A-0000-4000-8000-000000000000'' = (Inr r, db')"
    by (rule example_payment_run)
  show ?thesis
    using payment_settles_invoice [OF example_invoiced_ok(1) example_uuid_stream p(1,2) example_invoiced_ok(2) p(3,5,6)] p(4,7)
    unfolding Let_def by auto
qed

theorem payment_upper_case_id_conflicts_witness:
  "\<exists>r db'. example_paid ''0000000A-0000-4000-8000-000000000000'' = (Inr r, db') \<and>
    execute_payment 9500 (example_uuid 6) (example_payment ''0000000A-0000-4000-8000-000000000000'') (example_id 8) (example_id 9) db' db' =
      (Inl (Payment_Reference_Conflict ''PAY-1''), db')"
proof -
  obtain s r db' where p: "resolve_invoice (example_payment ''0000000A-0000-4000-8000-000000000000'') example_invoiced = Inr (Some s)"
    "credit_row_of (vs_retailer s) (vs_company s) example_invoiced = Some example_credit_row"
    "execute_payment 9000 (example_uuid 5) (example_payment ''0000000A-0000-4000-8000-000000000000'') (example_id 8) (example_id 9)
       example_invoiced example_invoiced = (Inr r, db')" "pa_outcome r = Payment_Accepted"
    "example_paid ''0000000A-0000-4000-8000-000000000000'' = (Inr r, db')"
    by (rule example_payment_run)
  have ok: "ledger_ok example_invoiced" using example_invoiced_ok(2) by (simp add: line_ready_def)
  have id: "yq_invoice_id (example_payment ''0000000A-0000-4000-8000-000000000000'') = Some ''0000000A-0000-4000-8000-000000000000''"
      "yq_payment_reference (example_payment ''0000000A-0000-4000-8000-000000000000'') = ''PAY-1''"
    by (simp_all add: example_payment_def)
  have "lower_case ''0000000A-0000-4000-8000-000000000000'' \<noteq> ''0000000A-0000-4000-8000-000000000000''" by code_simp
  then show ?thesis
    using payment_upper_case_id_conflicts [OF ok example_invoiced_ok(1) example_uuid_stream p(1,2) id(1) _ p(3,4)] p(5) id(2) by auto
qed

end
