(* ===== verification/Fact_Projection.thy ===== *)
theory Fact_Projection
  imports Order_Domain
begin

text \<open>
  The projector's domain (apps/projector/src/domain): what one fact says about the read model.
  \<open>rank_entry\<close> is the rank table of order-status-rank.ts, the summary functions are
  summaries.ts and \<open>project_fact\<close> is projectFact of fact-projection.ts, from an envelope to the
  change it describes.  The contract types a payload by its event type; the branch
  \<open>Foreign_Payload\<close> stands for the envelopes outside it.  Sums of units are exact (the code's
  numbers are, below two to the fifty-third), and a text is its UTF-8 encoding.
\<close>

section \<open>The rank table\<close>

fun rank_entry :: "event_type \<Rightarrow> (order_status option \<times> nat) option" where
  "rank_entry Order_Placed = Some (Some Placed, 1)"
| "rank_entry Stock_Reserved_Fact = Some (Some Stock_Reserved, 2)"
| "rank_entry Credit_Approved_Fact = Some (Some Credit_Approved, 3)"
| "rank_entry Order_Confirmed = Some (Some Confirmed, 4)"
| "rank_entry Order_Despatched = Some (Some Despatched, 5)"
| "rank_entry Invoice_Issued = Some (Some Invoiced, 6)"
| "rank_entry Payment_Received = Some (Some Paid, 7)"
| "rank_entry Order_Completed = Some (Some Completed, 98)"
| "rank_entry Order_Cancelled = Some (Some Cancelled, 99)"
| "rank_entry Stock_Rejected_Fact = Some (None, 0)"
| "rank_entry Stock_Released_Fact = Some (None, 0)"
| "rank_entry Credit_Rejected_Fact = Some (None, 0)"
| "rank_entry Credit_Released_Fact = Some (None, 0)"
| "rank_entry Order_Saga_Failed = Some (None, 0)"
| "rank_entry _ = None"

datatype projection_error =
    Unknown_Event_Type_For_Rank event_type
  | Unknown_Fact_Type event_type
  | Reads_Undefined
  | Foreign_Payload event_type

definition rank_entry_for :: "event_type \<Rightarrow> projection_error + order_status option \<times> nat" where
  "rank_entry_for e = (case rank_entry e of None \<Rightarrow> Inl (Unknown_Event_Type_For_Rank e) | Some r \<Rightarrow> Inr r)"

definition implied_status_of :: "event_type \<Rightarrow> projection_error + order_status option" where
  "implied_status_of e = bindR (rank_entry_for e) (\<lambda>r. Inr (fst r))"

definition rank_of :: "event_type \<Rightarrow> projection_error + nat" where
  "rank_of e = bindR (rank_entry_for e) (\<lambda>r. Inr (snd r))"

section \<open>Summaries\<close>

datatype entry_detail =
    Shortages_Detail "shortage list" rejection_reason
  | Released_Detail "reservation_ref list" release_reason
  | Credit_Detail credit_rejection_reason int
  | Cancel_Detail cancellation_reason "compensation_step list"
  | Saga_Failed_Detail string nat string

definition int_text :: "int \<Rightarrow> string" where
  "int_text n = (if n < 0 then ''-'' else []) @ number_text (nat \<bar>n\<bar>)"

fun cancellation_reason_text :: "cancellation_reason \<Rightarrow> string" where
  "cancellation_reason_text Stock_Rejected = ''stock_rejected''"
| "cancellation_reason_text Credit_Rejected = ''credit_rejected''"
| "cancellation_reason_text Operator_Cancelled = ''operator_cancelled''"

fun credit_rejection_text :: "credit_rejection_reason \<Rightarrow> string" where
  "credit_rejection_text Over_Limit = ''over_limit''"
| "credit_rejection_text Simulated_Cents_Rule = ''simulated_cents_rule''"
| "credit_rejection_text Simulated_Failure_Rate = ''simulated_failure_rate''"

definition order_placed_summary :: "placed_payload \<Rightarrow> string" where
  "order_placed_summary p = ''Order '' @ pp_reference p @ '' placed for '' @ pp_retailer p"

definition stock_reserved_summary :: "stock_reserved_payload \<Rightarrow> string" where
  "stock_reserved_summary p =
     ''Stock reserved for '' @ number_text (length (srv_reservations p)) @ '' line(s)''"

definition stock_rejected_summary :: "stock_rejected_payload \<Rightarrow> projection_error + string \<times> entry_detail" where
  "stock_rejected_summary p = (let
     total_short = sum_list (map (\<lambda>s. sh_requested s - sh_available s) (srj_shortages p)) in
     case srj_shortages p of
       [] \<Rightarrow> Inl Reads_Undefined
     | s # _ \<Rightarrow> Inr (''Stock rejected: '' @ int_text total_short @ '' unit(s) short on '' @ sh_product s,
         Shortages_Detail (srj_shortages p) (srj_reason p)))"

definition stock_released_summary :: "stock_released_payload \<Rightarrow> string \<times> entry_detail" where
  "stock_released_summary p = (let
     units = sum_list (map rr_units (srl_released p));
     suffix = (if srl_reason p = Release_Credit_Rejected then '' (compensation)'' else []) in
     (int_text units @ '' unit(s) released back to stock'' @ suffix,
      Released_Detail (srl_released p) (srl_reason p)))"

definition credit_approved_summary :: "credit_approved_payload \<Rightarrow> string" where
  "credit_approved_summary p = ''Credit hold of '' @ format_money (ca_held p) (ca_currency p) @ '' approved''"

definition credit_rejected_summary :: "credit_rejected_payload \<Rightarrow> string \<times> entry_detail" where
  "credit_rejected_summary p =
     (''Credit hold of '' @ format_money (cj_requested p) (cj_currency p) @ '' rejected ('' @
        credit_rejection_text (cj_reason p) @ '')'',
      Credit_Detail (cj_reason p) (cj_requested p))"

text \<open>The dash of the text is U+2014.\<close>

definition credit_released_summary :: "credit_released_payload \<Rightarrow> string" where
  "credit_released_summary p =
     ''Credit exposure released '' @ [CHR 0xE2, CHR 0x80, CHR 0x94] @ '' '' @
       (if cr_reason p = Release_Invoice_Paid then ''invoice paid'' else ''order cancelled'')"

definition order_confirmed_summary :: string where
  "order_confirmed_summary = ''Order confirmed (ORDRSP)''"

definition order_despatched_summary :: "despatched_payload \<Rightarrow> string" where
  "order_despatched_summary p = ''Despatch '' @ dp_despatch_reference p @ '' created''"

definition invoice_issued_summary :: "invoice_issued_payload \<Rightarrow> string" where
  "invoice_issued_summary p = ''Invoice '' @ ip_invoice_reference p @ '' issued''"

definition payment_received_summary :: "payment_payload \<Rightarrow> string" where
  "payment_received_summary p = ''Payment '' @ py_payment_reference p @ '' received''"

definition order_completed_summary :: "closing_payload \<Rightarrow> string" where
  "order_completed_summary p = ''Order '' @ cl_reference p @ '' completed''"

definition order_cancelled_summary :: "cancelled_payload \<Rightarrow> string \<times> entry_detail" where
  "order_cancelled_summary p =
     (''Order '' @ cp_reference p @ '' cancelled ('' @ cancellation_reason_text (cp_reason p) @ '')'',
      Cancel_Detail (cp_reason p) (cp_steps p))"

definition order_saga_failed_summary :: "saga_failed_payload \<Rightarrow> string \<times> entry_detail" where
  "order_saga_failed_summary p =
     (''Saga command '' @ [CHR 0x22] @ fp_command p @ [CHR 0x22] @ '' dead-lettered after '' @
        number_text (fp_attempts p) @ '' attempt(s)'',
      Saga_Failed_Detail (fp_command p) (fp_attempts p) (fp_last_error p))"

section \<open>The change a fact describes\<close>

record timeline_entry =
  te_id :: uid
  te_type :: event_type
  te_at :: instant
  te_summary :: string
  te_causation :: "uid option"
  te_detail :: "entry_detail option"

record references_delta =
  rd_despatch :: "string option"
  rd_invoice :: "string option"
  rd_payment :: "string option"

record header_item =
  hi_product :: string
  hi_quantity :: int
  hi_unit_price :: int
  hi_discount :: int

record header_totals =
  ht_initial :: int
  ht_discount :: int
  ht_total :: int

record header_delta =
  hd_reference :: string
  hd_date :: instant
  hd_retailer :: "string \<times> string"
  hd_company :: "string \<times> string"
  hd_currency :: string
  hd_totals :: header_totals
  hd_items :: "header_item list"

record projection_delta =
  pd_order :: uid
  pd_entry :: timeline_entry
  pd_status :: "order_status option"
  pd_rank :: nat
  pd_reason :: "cancellation_reason option"
  pd_references :: references_delta
  pd_header :: "header_delta option"

definition no_references :: references_delta where
  "no_references = \<lparr> rd_despatch = None, rd_invoice = None, rd_payment = None \<rparr>"

text \<open>HANDLED_EVENT_TYPES, in its order.\<close>

definition handled_event_types :: "event_type list" where
  "handled_event_types = [Order_Placed, Stock_Reserved_Fact, Stock_Rejected_Fact, Stock_Released_Fact,
     Credit_Approved_Fact, Credit_Rejected_Fact, Credit_Released_Fact, Order_Confirmed, Order_Despatched,
     Invoice_Issued, Payment_Received, Order_Completed, Order_Cancelled, Order_Saga_Failed]"

definition entry_of :: "envelope \<Rightarrow> string \<Rightarrow> entry_detail option \<Rightarrow> timeline_entry" where
  "entry_of env summary detail = \<lparr> te_id = ev_id env, te_type = ev_type env, te_at = ev_at env,
     te_summary = summary, te_causation = Some (ev_causation env), te_detail = detail \<rparr>"

definition placed_header :: "placed_payload \<Rightarrow> header_delta" where
  "placed_header p = \<lparr> hd_reference = pp_reference p, hd_date = pp_order_date p,
     hd_retailer = (pp_retailer p, pp_buyer_gln p), hd_company = (pp_company p, pp_supplier_gln p),
     hd_currency = pp_currency p,
     hd_totals = \<lparr> ht_initial = pp_initial_amount p, ht_discount = pp_initial_discount p, ht_total = pp_total p \<rparr>,
     hd_items = map (\<lambda>l. \<lparr> hi_product = lp_product l, hi_quantity = lp_quantity l,
       hi_unit_price = lp_unit_price l, hi_discount = lp_discount l \<rparr>) (pp_lines p) \<rparr>"

text \<open>The arms of the switch: the summary, the detail, the fields to fill and the header.\<close>

definition fact_arm :: "event_type \<Rightarrow> payload \<Rightarrow> projection_error +
    (string \<times> entry_detail option) \<times> cancellation_reason option \<times> references_delta \<times> header_delta option" where
  "fact_arm e pl = (case (e, pl) of
     (Order_Placed, Placed_P p) \<Rightarrow>
       Inr ((order_placed_summary p, None), None, no_references, Some (placed_header p))
   | (Stock_Reserved_Fact, Stock_Reserved_P p) \<Rightarrow>
       Inr ((stock_reserved_summary p, None), None, no_references, None)
   | (Stock_Rejected_Fact, Stock_Rejected_P p) \<Rightarrow>
       bindR (stock_rejected_summary p) (\<lambda>(s, d). Inr ((s, Some d), None, no_references, None))
   | (Stock_Released_Fact, Stock_Released_P p) \<Rightarrow>
       Inr (map_prod id Some (stock_released_summary p), None, no_references, None)
   | (Credit_Approved_Fact, Credit_Approved_P p) \<Rightarrow>
       Inr ((credit_approved_summary p, None), None, no_references, None)
   | (Credit_Rejected_Fact, Credit_Rejected_P p) \<Rightarrow>
       Inr (map_prod id Some (credit_rejected_summary p), None, no_references, None)
   | (Credit_Released_Fact, Credit_Released_P p) \<Rightarrow>
       Inr ((credit_released_summary p, None), None, no_references, None)
   | (Order_Confirmed, Confirmed_P p) \<Rightarrow>
       Inr ((order_confirmed_summary, None), None, no_references, None)
   | (Order_Despatched, Despatched_P p) \<Rightarrow>
       Inr ((order_despatched_summary p, None), None,
         no_references \<lparr> rd_despatch := Some (dp_despatch_reference p) \<rparr>, None)
   | (Invoice_Issued, Invoice_P p) \<Rightarrow>
       Inr ((invoice_issued_summary p, None), None,
         no_references \<lparr> rd_invoice := Some (ip_invoice_reference p) \<rparr>, None)
   | (Payment_Received, Payment_P p) \<Rightarrow>
       Inr ((payment_received_summary p, None), None,
         no_references \<lparr> rd_payment := Some (py_payment_reference p) \<rparr>, None)
   | (Order_Completed, Completed_P p) \<Rightarrow>
       Inr ((order_completed_summary p, None), None, no_references, None)
   | (Order_Cancelled, Cancelled_P p) \<Rightarrow>
       Inr (map_prod id Some (order_cancelled_summary p), Some (cp_reason p), no_references, None)
   | (Order_Saga_Failed, Saga_Failed_P p) \<Rightarrow>
       Inr (map_prod id Some (order_saga_failed_summary p), None, no_references, None)
   | _ \<Rightarrow> Inl (Foreign_Payload e))"

definition project_fact :: "envelope \<Rightarrow> projection_error + projection_delta" where
  "project_fact env =
     (if ev_type env \<notin> set handled_event_types then Inl (Unknown_Fact_Type (ev_type env)) else
      bindR (implied_status_of (ev_type env)) (\<lambda>status.
      bindR (rank_of (ev_type env)) (\<lambda>rank.
      bindR (fact_arm (ev_type env) (ev_payload env)) (\<lambda>((summary, detail), reason, refs, header).
      Inr \<lparr> pd_order = ev_correlation env, pd_entry = entry_of env summary detail, pd_status = status,
        pd_rank = rank, pd_reason = reason, pd_references = refs, pd_header = header \<rparr>))))"

section \<open>What every change carries\<close>

lemma rank_entry_total: "list_all (\<lambda>e. rank_entry e \<noteq> None) handled_event_types"
  by (simp add: handled_event_types_def)

lemma rank_entry_handled: "rank_entry e \<noteq> None \<longleftrightarrow> e \<in> set handled_event_types"
  by (cases e) (simp_all add: handled_event_types_def)

lemma handled_are_facts: "set handled_event_types = set fact_types"
  by (auto simp: handled_event_types_def fact_types_def)

text \<open>The status a fact proves and its rank determine each other.\<close>

lemma rank_entry_injective:
  "\<lbrakk> rank_entry e = Some (s, r); rank_entry e' = Some (s', r) \<rbrakk> \<Longrightarrow> s = s'"
  by (cases e; cases e'; simp) 

lemma rank_entry_zero: "rank_entry e = Some (s, r) \<Longrightarrow> s = None \<longleftrightarrow> r = 0"
  by (cases e) auto

text \<open>The facts an order has at most one of, as far as the projection can tell: they write a field.\<close>

definition field_writers :: "event_type list" where
  "field_writers = [Order_Placed, Order_Despatched, Invoice_Issued, Payment_Received, Order_Cancelled]"

lemma fact_arm_writes:
  assumes "fact_arm e pl = Inr (sd, reason, refs, header)"
  shows "header \<noteq> None \<longleftrightarrow> e = Order_Placed" and "rd_despatch refs \<noteq> None \<longleftrightarrow> e = Order_Despatched"
    and "rd_invoice refs \<noteq> None \<longleftrightarrow> e = Invoice_Issued" and "rd_payment refs \<noteq> None \<longleftrightarrow> e = Payment_Received"
    and "reason \<noteq> None \<longleftrightarrow> e = Order_Cancelled"
  using assms by (cases e; cases pl; auto simp: fact_arm_def no_references_def result_simps)+

lemma project_fact_Inr:
  assumes "project_fact env = Inr d"
  shows "pd_order d = ev_correlation env" and "te_id (pd_entry d) = ev_id env"
    and "te_type (pd_entry d) = ev_type env" and "te_at (pd_entry d) = ev_at env"
    and "te_causation (pd_entry d) = Some (ev_causation env)"
    and "rank_entry (ev_type env) = Some (pd_status d, pd_rank d)"
    and "pd_header d \<noteq> None \<longleftrightarrow> ev_type env = Order_Placed"
    and "rd_despatch (pd_references d) \<noteq> None \<longleftrightarrow> ev_type env = Order_Despatched"
    and "rd_invoice (pd_references d) \<noteq> None \<longleftrightarrow> ev_type env = Invoice_Issued"
    and "rd_payment (pd_references d) \<noteq> None \<longleftrightarrow> ev_type env = Payment_Received"
    and "pd_reason d \<noteq> None \<longleftrightarrow> ev_type env = Order_Cancelled"
  using assms fact_arm_writes [of "ev_type env" "ev_payload env"]
  by (auto simp: project_fact_def implied_status_of_def rank_of_def rank_entry_for_def entry_of_def result_simps
      split: if_splits option.splits)

end
