(* ===== verification/Timeline_Order.thy ===== *)
theory Timeline_Order
  imports Fact_Projection "HOL-Library.List_Lexorder" "HOL-Library.Char_ord" "HOL-Library.Product_Lexorder"
begin

text \<open>
  The causal order of a timeline (causalTimelineOrder in
  apps/projector/src/infrastructure/persistence/delta-to-pipeline.ts): as many relaxation rounds
  as there are entries give every entry the length of its chain of causes within one instant,
  and the entries are sorted by instant, depth and identifier.  The transient depth of the
  pipeline is the second component of a pair.  Shown here: the result does not depend on the
  order the entries come in, the rounds reach the fixpoint on every acyclic timeline, and no
  entry then precedes its cause.
\<close>

section \<open>The pipeline expression\<close>

definition is_cause :: "timeline_entry \<Rightarrow> timeline_entry \<Rightarrow> bool" where
  "is_cause c e = (te_causation e = Some (te_id c) \<and> te_at c = te_at e \<and> te_id c \<noteq> te_id e)"

definition relaxation_round :: "(timeline_entry \<times> nat) list \<Rightarrow> (timeline_entry \<times> nat) list" where
  "relaxation_round ds = map (\<lambda>(e, _).
     (e, case find (\<lambda>(c, _). is_cause c e) ds of None \<Rightarrow> 0 | Some (_, depth) \<Rightarrow> Suc depth)) ds"

definition depth_fixpoint :: "timeline_entry list \<Rightarrow> (timeline_entry \<times> nat) list" where
  "depth_fixpoint es = (relaxation_round ^^ length es) (map (\<lambda>e. (e, 0)) es)"

definition timeline_key :: "timeline_entry \<times> nat \<Rightarrow> instant \<times> nat \<times> uid" where
  "timeline_key ed = (te_at (fst ed), snd ed, te_id (fst ed))"

definition causal_timeline_order :: "timeline_entry list \<Rightarrow> timeline_entry list" where
  "causal_timeline_order es = map fst (sort_key timeline_key (depth_fixpoint es))"

section \<open>The depth of one entry\<close>

fun depth_after :: "timeline_entry list \<Rightarrow> nat \<Rightarrow> timeline_entry \<Rightarrow> nat" where
  "depth_after es 0 e = 0"
| "depth_after es (Suc k) e =
     (case find (\<lambda>c. is_cause c e) es of None \<Rightarrow> 0 | Some c \<Rightarrow> Suc (depth_after es k c))"

lemma find_pairs: "find (\<lambda>(c, _). P c) (map (\<lambda>e. (e, f e)) es) = map_option (\<lambda>e. (e, f e)) (find P es)"
  by (induction es) auto

lemma relaxation_rounds:
  "(relaxation_round ^^ k) (map (\<lambda>e. (e, 0)) es) = map (\<lambda>e. (e, depth_after es k e)) es"
proof (induction k)
  case (Suc k)
  have "relaxation_round (map (\<lambda>e. (e, depth_after es k e)) es) =
    map (\<lambda>e. (e, depth_after es (Suc k) e)) es"
    by (auto simp: relaxation_round_def find_pairs split: option.split)
  with Suc show ?case by simp
qed simp

definition entry_key :: "timeline_entry list \<Rightarrow> timeline_entry \<Rightarrow> instant \<times> nat \<times> uid" where
  "entry_key es e = (te_at e, depth_after es (length es) e, te_id e)"

lemma insort_key_pairs:
  "map g (insort_key (f \<circ> g) x xs) = insort_key f (g x) (map g xs)"
  by (induction xs) simp_all

lemma sort_key_pairs: "sort_key f (map g xs) = map g (sort_key (f \<circ> g) xs)"
  by (induction xs) (simp_all add: insort_key_pairs del: o_apply)

lemma causal_timeline_order_eq: "causal_timeline_order es = sort_key (entry_key es) es"
  by (simp add: causal_timeline_order_def depth_fixpoint_def relaxation_rounds sort_key_pairs comp_def
      entry_key_def [abs_def] timeline_key_def)

lemma mset_causal_timeline_order [simp]: "mset (causal_timeline_order es) = mset es"
  by (simp add: causal_timeline_order_eq)

lemma set_causal_timeline_order [simp]: "set (causal_timeline_order es) = set es"
  by (simp add: causal_timeline_order_eq)

lemma length_causal_timeline_order [simp]: "length (causal_timeline_order es) = length es"
  by (simp add: causal_timeline_order_eq)

section \<open>The order of arrival does not matter\<close>

lemma find_unique:
  assumes "distinct (map te_id es)" and "c \<in> set es" and "is_cause c e"
  shows "find (\<lambda>c. is_cause c e) es = Some c"
proof -
  have inj: "inj_on te_id (set es)" using assms(1) by (simp add: distinct_map)
  have "c' = c" if "c' \<in> set es" "is_cause c' e" for c'
    using assms(3) that(2) by (intro inj_onD [OF inj _ that(1) assms(2)]) (simp add: is_cause_def)
  moreover have "find (\<lambda>c. is_cause c e) es \<noteq> None" using assms(2,3) by (auto simp: find_None_iff)
  then obtain d where "find (\<lambda>c. is_cause c e) es = Some d" by blast
  moreover from this have "d \<in> set es" "is_cause d e" by (auto simp: find_Some_iff)
  ultimately show ?thesis by simp
qed

lemma find_cause_perm:
  assumes "mset es = mset es'" and "distinct (map te_id es)"
  shows "find (\<lambda>c. is_cause c e) es = find (\<lambda>c. is_cause c e) es'"
proof (cases "\<exists>c\<in>set es. is_cause c e")
  case True
  then obtain c where c: "c \<in> set es" "is_cause c e" by blast
  have "distinct (map te_id es')" using assms by (metis mset_eq_imp_distinct_iff mset_map)
  with c assms show ?thesis by (simp add: find_unique mset_eq_setD [OF assms(1), symmetric])
next
  case False
  then have "find (\<lambda>c. is_cause c e) es = None" by (simp add: find_None_iff)
  moreover have "find (\<lambda>c. is_cause c e) es' = None"
    using False by (simp add: find_None_iff flip: mset_eq_setD [OF assms(1)])
  ultimately show ?thesis by simp
qed

lemma depth_after_perm:
  assumes "mset es = mset es'" and "distinct (map te_id es)"
  shows "depth_after es k e = depth_after es' k e"
  by (induction k arbitrary: e) (simp_all add: find_cause_perm [OF assms] split: option.split)

lemma inj_entry_key: "distinct (map te_id es) \<Longrightarrow> inj_on (entry_key es) (set es)"
  by (auto simp: inj_on_def entry_key_def distinct_map)

lemma causal_timeline_order_perm:
  assumes "mset es = mset es'" and "distinct (map te_id es)"
  shows "causal_timeline_order es = causal_timeline_order es'"
proof -
  have "entry_key es' = entry_key es"
    using depth_after_perm [OF assms] mset_eq_length [OF assms(1)] by (auto simp: entry_key_def)
  then have "causal_timeline_order es' = sort_key (entry_key es) es'"
    by (simp add: causal_timeline_order_eq)
  moreover have "sort_key (entry_key es) es = sort_key (entry_key es) es'"
    by (rule sort_key_inj_key_eq) (simp_all add: assms inj_entry_key)
  ultimately show ?thesis by (simp add: causal_timeline_order_eq)
qed

lemma causal_timeline_order_idem:
  assumes "distinct (map te_id es)"
  shows "causal_timeline_order (causal_timeline_order es) = causal_timeline_order es"
proof -
  have "distinct (map te_id (causal_timeline_order es))"
    using assms by (simp add: causal_timeline_order_eq distinct_map)
  then show ?thesis by (rule causal_timeline_order_perm [rotated]) simp
qed

section \<open>The rounds settle\<close>

text \<open>An edge leads from an entry's cause within its instant to the entry.\<close>

definition cause_edges :: "timeline_entry list \<Rightarrow> (timeline_entry \<times> timeline_entry) set" where
  "cause_edges es = {(c, e). c \<in> set es \<and> e \<in> set es \<and> is_cause c e}"

definition causes_of :: "timeline_entry list \<Rightarrow> timeline_entry \<Rightarrow> timeline_entry set" where
  "causes_of es e = {c. (c, e) \<in> (cause_edges es)\<^sup>+}"

lemma causes_of_subset: "causes_of es e \<subseteq> set es"
proof
  fix c assume "c \<in> causes_of es e"
  then have "(c, e) \<in> (cause_edges es)\<^sup>+" by (simp add: causes_of_def)
  then show "c \<in> set es" by (rule converse_tranclE) (auto simp: cause_edges_def)
qed

lemma finite_causes_of: "finite (causes_of es e)"
  by (rule finite_subset [OF causes_of_subset]) simp

lemma finite_cause_edges: "finite (cause_edges es)"
  by (rule finite_subset [of _ "set es \<times> set es"]) (auto simp: cause_edges_def)

lemma causes_of_cause:
  assumes "acyclic (cause_edges es)" and "(c, e) \<in> cause_edges es"
  shows "causes_of es c \<subset> causes_of es e"
proof
  show "causes_of es c \<subseteq> causes_of es e"
    using assms(2) by (auto simp: causes_of_def)
  have "c \<in> causes_of es e" using assms(2) by (auto simp: causes_of_def)
  moreover have "c \<notin> causes_of es c" using assms(1) by (simp add: causes_of_def acyclic_def)
  ultimately show "causes_of es c \<noteq> causes_of es e" by blast
qed

lemma depth_settles:
  assumes "acyclic (cause_edges es)" and "e \<in> set es" and "card (causes_of es e) \<le> k"
  shows "depth_after es (Suc k) e = depth_after es k e"
  using finite_acyclic_wf [OF finite_cause_edges assms(1)] assms(2,3)
proof (induction e arbitrary: k rule: wf_induct_rule)
  case (less e)
  show ?case
  proof (cases "find (\<lambda>c. is_cause c e) es")
    case None
    then show ?thesis by (cases k) simp_all
  next
    case (Some c)
    then have c: "c \<in> set es" "(c, e) \<in> cause_edges es"
      using less.prems(1) by (auto simp: find_Some_iff cause_edges_def)
    have "card (causes_of es c) < card (causes_of es e)"
      by (rule psubset_card_mono [OF finite_causes_of causes_of_cause [OF assms(1) c(2)]])
    with less.prems(2) obtain k' where k': "k = Suc k'" "card (causes_of es c) \<le> k'"
      by (cases k) auto
    from less.IH [OF c(2,1) k'(2)] Some show ?thesis by (simp add: k'(1))
  qed
qed

lemma card_causes_of:
  assumes "acyclic (cause_edges es)" and "e \<in> set es"
  shows "card (causes_of es e) \<le> length es"
proof -
  have "card (causes_of es e) \<le> card (set es)" by (simp add: card_mono causes_of_subset)
  also have "\<dots> \<le> length es" by (rule card_length)
  finally show ?thesis .
qed

lemma depth_fixpoint_settles:
  assumes "acyclic (cause_edges es)"
  shows "relaxation_round (depth_fixpoint es) = depth_fixpoint es"
proof -
  have "relaxation_round (depth_fixpoint es) = (relaxation_round ^^ Suc (length es)) (map (\<lambda>e. (e, 0)) es)"
    by (simp add: depth_fixpoint_def)
  then show ?thesis
    using depth_settles [OF assms _ card_causes_of [OF assms]]
    unfolding depth_fixpoint_def relaxation_rounds by simp
qed

section \<open>A cause stands before what it caused\<close>

definition stands_before :: "'a list \<Rightarrow> 'a \<Rightarrow> 'a \<Rightarrow> bool" where
  "stands_before xs a b = (\<exists>us vs ws. xs = us @ a # vs @ b # ws)"

lemma sorted_stands_before:
  assumes "sorted (map f xs)" and "a \<in> set xs" and "b \<in> set xs" and "f a < f b"
  shows "stands_before xs a b"
proof -
  obtain us rest where us: "xs = us @ b # rest" using assms(3) by (meson split_list)
  have "a \<notin> set (b # rest)" using assms(1,4) by (auto simp: us sorted_append)
  with assms(2) us have "a \<in> set us" by auto
  then obtain ps qs where "us = ps @ a # qs" by (meson split_list)
  then show ?thesis by (auto simp: stands_before_def us)
qed

lemma earlier_stands_before:
  assumes "a \<in> set es" and "b \<in> set es" and "te_at a < te_at b"
  shows "stands_before (causal_timeline_order es) a b"
  by (rule sorted_stands_before [where f = "entry_key es"])
    (use assms in \<open>simp_all add: causal_timeline_order_eq entry_key_def\<close>)

lemma cause_stands_before:
  assumes "acyclic (cause_edges es)" and "distinct (map te_id es)"
    and "c \<in> set es" and "e \<in> set es" and "is_cause c e"
  shows "stands_before (causal_timeline_order es) c e"
proof (rule sorted_stands_before [where f = "entry_key es"])
  have "depth_after es (length es) e = depth_after es (Suc (length es)) e"
    by (rule depth_settles [OF assms(1,4) card_causes_of [OF assms(1,4)], symmetric])
  also have "\<dots> = Suc (depth_after es (length es) c)"
    by (simp add: find_unique [OF assms(2,3,5)])
  finally show "entry_key es c < entry_key es e"
    using assms(5) by (simp add: entry_key_def is_cause_def)
qed (simp_all add: causal_timeline_order_eq assms(3,4))

end
