(* ===== verification/Replication.thy ===== *)
theory Replication
  imports Main
begin

text \<open>
  The contract of a consumer of facts that arrive in any order and any number of times: a
  delivery keeps the consumer's invariant, delivering the same fact again changes nothing, and
  two facts that agree with each other may be delivered in either order.  Under it the state
  depends on the set of the delivered facts alone.
\<close>

locale convergent_replica =
  fixes deliver :: "'e \<Rightarrow> 's \<Rightarrow> 's"
    and good :: "'s \<Rightarrow> bool"
    and admitted :: "'e \<Rightarrow> bool"
    and agree :: "'e \<Rightarrow> 'e \<Rightarrow> bool"
  assumes delivery_keeps: "\<lbrakk> good s; admitted e \<rbrakk> \<Longrightarrow> good (deliver e s)"
    and delivered_again: "\<lbrakk> good s; admitted e \<rbrakk> \<Longrightarrow> deliver e (deliver e s) = deliver e s"
    and deliveries_commute: "\<lbrakk> good s; admitted a; admitted b; agree a b \<rbrakk> \<Longrightarrow>
          deliver a (deliver b s) = deliver b (deliver a s)"
begin

definition all_agree :: "'e set \<Rightarrow> bool" where
  "all_agree A = (\<forall>a\<in>A. \<forall>b\<in>A. a \<noteq> b \<longrightarrow> agree a b)"

lemma fold_keeps: "\<lbrakk> good s; \<forall>e\<in>set es. admitted e \<rbrakk> \<Longrightarrow> good (fold deliver es s)"
  by (induction es arbitrary: s) (simp_all add: delivery_keeps)

lemma deliver_past:
  assumes "good s" and "\<forall>x\<in>insert e (set es). admitted x" and "all_agree (insert e (set es))"
  shows "deliver e (fold deliver es s) = fold deliver es (deliver e s)"
  using assms
proof (induction es arbitrary: s)
  case (Cons x xs)
  have "all_agree (insert e (set xs))" using Cons.prems(3) by (auto simp: all_agree_def)
  then have "deliver e (fold deliver xs (deliver x s)) = fold deliver xs (deliver e (deliver x s))"
    using Cons.prems by (intro Cons.IH) (simp_all add: delivery_keeps)
  also have "deliver e (deliver x s) = deliver x (deliver e s)"
  proof (cases "e = x")
    case False
    then show ?thesis using Cons.prems by (intro deliveries_commute) (simp_all add: all_agree_def)
  qed simp
  finally show ?case by simp
qed simp

lemma deliver_absorbed:
  assumes "good s" and "\<forall>x\<in>set es. admitted x" and "all_agree (set es)" and "e \<in> set es"
  shows "deliver e (fold deliver es s) = fold deliver es s"
  using assms
proof (induction es arbitrary: s)
  case (Cons x xs)
  show ?case
  proof (cases "e \<in> set xs")
    case True
    then show ?thesis using Cons.prems by (simp add: Cons.IH delivery_keeps all_agree_def)
  next
    case False
    then have "e = x" using Cons.prems(4) by simp
    moreover have "deliver x (fold deliver xs (deliver x s)) = fold deliver xs (deliver x (deliver x s))"
      using Cons.prems by (intro deliver_past) (simp_all add: delivery_keeps)
    ultimately show ?thesis using Cons.prems by (simp add: delivered_again)
  qed
qed simp

lemma fold_absorbed:
  assumes "good s" and "\<forall>x\<in>set es. admitted x" and "all_agree (set es)" and "set fs \<subseteq> set es"
  shows "fold deliver fs (fold deliver es s) = fold deliver es s"
  using assms(4) by (induction fs) (simp_all add: deliver_absorbed assms(1-3))

lemma fold_past:
  assumes "good s" and "\<forall>x\<in>set es \<union> set fs. admitted x" and "all_agree (set es \<union> set fs)"
  shows "fold deliver fs (fold deliver es s) = fold deliver es (fold deliver fs s)"
  using assms
proof (induction fs arbitrary: s)
  case (Cons f fs)
  have agree: "all_agree (insert f (set es))" "all_agree (set es \<union> set fs)"
    using Cons.prems(3) by (auto simp: all_agree_def)
  have "deliver f (fold deliver es s) = fold deliver es (deliver f s)"
    using Cons.prems agree by (intro deliver_past) simp_all
  then have "fold deliver (f # fs) (fold deliver es s) = fold deliver fs (fold deliver es (deliver f s))"
    by simp
  also have "\<dots> = fold deliver es (fold deliver fs (deliver f s))"
    using Cons.prems agree by (intro Cons.IH) (simp_all add: delivery_keeps)
  finally show ?case by simp
qed simp

lemma replicas_converge:
  assumes "good s" and "\<forall>x\<in>set es. admitted x" and "all_agree (set es)" and "set fs = set es"
  shows "fold deliver es s = fold deliver fs s"
proof -
  have "fold deliver es s = fold deliver fs (fold deliver es s)"
    using fold_absorbed [OF assms(1-3), of fs] assms(4) by simp
  also have "\<dots> = fold deliver es (fold deliver fs s)"
    using assms by (intro fold_past) simp_all
  also have "\<dots> = fold deliver fs s"
    using assms by (intro fold_absorbed) simp_all
  finally show ?thesis .
qed

end

end
