(* ===== verification/Read_Model.thy ===== *)
theory Read_Model
  imports Timeline_Order Replication Fact_Retry
begin

text \<open>
  The projector's read model (apps/projector/src): the order document of
  order-timeline.document.ts, the update of delta-to-pipeline.ts as a function from the stored
  document to the stored document, the writer of mongo-read-model-writer.ts over the idempotent
  consumer, the service that projects a fact and signals the result, and the dispatch of the
  Kafka controller.  The collection is a map from order ids to documents.  The faults of the
  store and of the message bus are arguments: \<open>mw_upsert k\<close> is how the \<open>k\<close>-th placeholder upsert
  ends, \<open>mw_write\<close> the fault of the atomic update, \<open>mw_publish k\<close> that of the \<open>k\<close>-th publication.
  A missing \<open>processedEventKeys\<close> or \<open>events\<close> array is the empty list, as the guards of the
  pipeline read it; the three totals are absent together.
\<close>

section \<open>The document\<close>

record party_ref =
  pr_code :: "string option"
  pr_name :: "string option"
  pr_gln :: "string option"

record order_document =
  od_order :: uid
  od_reference :: "string option"
  od_date :: "instant option"
  od_retailer :: party_ref
  od_company :: party_ref
  od_status :: order_status
  od_reason :: "cancellation_reason option"
  od_currency :: "string option"
  od_totals :: "header_totals option"
  od_items :: "header_item list"
  od_references :: references_delta
  od_events :: "timeline_entry list"
  od_complete :: bool
  od_updated :: instant
  od_rank :: "nat option"
  od_keys :: "string list"
  od_version :: "nat option"

type_synonym documents = "uid \<Rightarrow> order_document option"

definition timeline_order_version :: nat where
  "timeline_order_version = 2"

definition dedup_key_of :: "string \<Rightarrow> uid \<Rightarrow> string" where
  "dedup_key_of consumer event = consumer @ '':'' @ event"

definition projector_consumer :: string where
  "projector_consumer = ''projector''"

definition no_party :: party_ref where
  "no_party = \<lparr> pr_code = None, pr_name = None, pr_gln = None \<rparr>"

definition placeholder_skeleton :: "uid \<Rightarrow> instant \<Rightarrow> order_document" where
  "placeholder_skeleton order seed = \<lparr> od_order = order, od_reference = None, od_date = None,
     od_retailer = no_party, od_company = no_party, od_status = Placed, od_reason = None,
     od_currency = None, od_totals = None, od_items = [], od_references = no_references,
     od_events = [], od_complete = False, od_updated = seed, od_rank = Some 0, od_keys = [],
     od_version = Some timeline_order_version \<rparr>"

section \<open>The update\<close>

definition key_union :: "string list \<Rightarrow> string \<Rightarrow> string list" where
  "key_union keys key = sort (remdups (keys @ [key]))"

definition if_absent :: "'a option \<Rightarrow> 'a option \<Rightarrow> 'a option" where
  "if_absent old new = (case old of Some x \<Rightarrow> Some x | None \<Rightarrow> new)"

definition fill_references :: "references_delta \<Rightarrow> references_delta \<Rightarrow> references_delta" where
  "fill_references new old = \<lparr> rd_despatch = if_absent (rd_despatch old) (rd_despatch new),
     rd_invoice = if_absent (rd_invoice old) (rd_invoice new),
     rd_payment = if_absent (rd_payment old) (rd_payment new) \<rparr>"

definition raised_status :: "order_status option \<Rightarrow> nat \<Rightarrow> nat option \<Rightarrow> order_status \<Rightarrow> order_status" where
  "raised_status implied rank stored_rank stored = (case implied of
     Some s \<Rightarrow> if or_else stored_rank 0 < rank then s else stored
   | None \<Rightarrow> stored)"

definition write_header :: "header_delta option \<Rightarrow> order_document \<Rightarrow> order_document" where
  "write_header header doc = (case header of None \<Rightarrow> doc | Some h \<Rightarrow>
     doc \<lparr> od_reference := Some (hd_reference h), od_date := Some (hd_date h),
       od_retailer := (od_retailer doc) \<lparr> pr_code := Some (fst (hd_retailer h)), pr_gln := Some (snd (hd_retailer h)) \<rparr>,
       od_company := (od_company doc) \<lparr> pr_code := Some (fst (hd_company h)), pr_gln := Some (snd (hd_company h)) \<rparr>,
       od_currency := Some (hd_currency h), od_totals := Some (hd_totals h), od_items := hd_items h,
       od_complete := True \<rparr>)"

text \<open>Every right-hand side reads the document as it was before the update.\<close>

definition delta_to_pipeline :: "projection_delta \<Rightarrow> string \<Rightarrow> order_document \<Rightarrow> order_document" where
  "delta_to_pipeline d key doc = write_header (pd_header d)
     (doc \<lparr> od_keys := key_union (od_keys doc) key,
       od_events := causal_timeline_order (od_events doc @ [pd_entry d]),
       od_version := Some timeline_order_version,
       od_rank := Some (max (or_else (od_rank doc) 0) (pd_rank d)),
       od_status := raised_status (pd_status d) (pd_rank d) (od_rank doc) (od_status doc),
       od_updated := max (od_updated doc) (te_at (pd_entry d)),
       od_references := fill_references (pd_references d) (od_references doc),
       od_reason := if_absent (od_reason doc) (pd_reason d) \<rparr>)"

section \<open>The writer\<close>

datatype upsert_end = Upsert_Done | Upsert_Lost_Race instant | Upsert_Fault string

record mongo_world =
  mw_upsert :: "nat \<Rightarrow> upsert_end"
  mw_write :: "string option"
  mw_publish :: "nat \<Rightarrow> string option"

datatype projector_error =
    Projection_Error projection_error
  | Duplicate_Key_Error uid
  | Store_Fault string

datatype apply_outcome = Applied | Already_Applied

definition insert_placeholder :: "uid \<Rightarrow> instant \<Rightarrow> documents \<Rightarrow> documents" where
  "insert_placeholder order seed docs =
     (case docs order of None \<Rightarrow> docs(order \<mapsto> placeholder_skeleton order seed) | Some _ \<Rightarrow> docs)"

text \<open>A lost race leaves the winner's placeholder, seeded by the winner's fact.\<close>

definition upsert_attempt :: "upsert_end \<Rightarrow> uid \<Rightarrow> instant \<Rightarrow> documents \<Rightarrow> (projector_error + unit) \<times> documents" where
  "upsert_attempt e order seed docs = (case e of
     Upsert_Done \<Rightarrow> (Inr (), insert_placeholder order seed docs)
   | Upsert_Lost_Race winner \<Rightarrow> (Inl (Duplicate_Key_Error order), insert_placeholder order winner docs)
   | Upsert_Fault m \<Rightarrow> (Inl (Store_Fault m), docs))"

definition upsert_placeholder :: "mongo_world \<Rightarrow> uid \<Rightarrow> instant \<Rightarrow> documents \<Rightarrow> (projector_error + unit) \<times> documents" where
  "upsert_placeholder w order seed docs =
     (case upsert_attempt (mw_upsert w 1) order seed docs of
        (Inl (Duplicate_Key_Error _), docs') \<Rightarrow> upsert_attempt (mw_upsert w 2) order seed docs'
      | done \<Rightarrow> done)"

text \<open>The atomic update: the filter is the check, and the document after it is returned.\<close>

definition find_one_and_update ::
    "uid \<Rightarrow> string \<Rightarrow> (order_document \<Rightarrow> order_document) \<Rightarrow> documents \<Rightarrow> order_document option \<times> documents" where
  "find_one_and_update scope key stage docs = (case docs scope of
     None \<Rightarrow> (None, docs)
   | Some doc \<Rightarrow> if key \<in> set (od_keys doc) then (None, docs)
       else (Some (stage doc), docs(scope \<mapsto> stage doc)))"

section \<open>The signals\<close>

record applied_timeline =
  at_order :: uid
  at_reference :: "string option"
  at_status :: order_status
  at_reason :: "cancellation_reason option"
  at_references :: references_delta
  at_totals :: "header_totals option"
  at_latest :: timeline_entry

record order_stream_update =
  ou_event :: uid
  ou_order :: uid
  ou_reference :: "string option"
  ou_status :: order_status
  ou_reason :: "cancellation_reason option"
  ou_references :: references_delta
  ou_totals :: "header_totals option"
  ou_at :: instant

record timeline_stream_entry =
  ts_event :: uid
  ts_order :: uid
  ts_reference :: "string option"
  ts_type :: event_type
  ts_at :: instant
  ts_summary :: string
  ts_causation :: "uid option"

datatype stream_signal =
    Order_Updated_Signal string order_stream_update
  | Timeline_Appended_Signal string timeline_stream_entry

definition to_applied_order_timeline :: "order_document \<Rightarrow> applied_timeline" where
  "to_applied_order_timeline doc = \<lparr> at_order = od_order doc, at_reference = od_reference doc,
     at_status = od_status doc, at_reason = od_reason doc, at_references = od_references doc,
     at_totals = od_totals doc, at_latest = last (od_events doc) \<rparr>"

definition order_updated_subject :: "uid \<Rightarrow> string" where
  "order_updated_subject order = ''readmodel.order.updated.'' @ order"

definition timeline_appended_subject :: "uid \<Rightarrow> string" where
  "timeline_appended_subject order = ''readmodel.timeline.appended.'' @ order"

definition order_update_signal :: "applied_timeline \<Rightarrow> stream_signal" where
  "order_update_signal t = Order_Updated_Signal (order_updated_subject (at_order t))
     \<lparr> ou_event = te_id (at_latest t), ou_order = at_order t, ou_reference = at_reference t,
       ou_status = at_status t, ou_reason = at_reason t, ou_references = at_references t,
       ou_totals = at_totals t, ou_at = te_at (at_latest t) \<rparr>"

definition timeline_signal :: "applied_timeline \<Rightarrow> stream_signal" where
  "timeline_signal t = Timeline_Appended_Signal (timeline_appended_subject (at_order t))
     \<lparr> ts_event = te_id (at_latest t), ts_order = at_order t, ts_reference = at_reference t,
       ts_type = te_type (at_latest t), ts_at = te_at (at_latest t), ts_summary = te_summary (at_latest t),
       ts_causation = te_causation (at_latest t) \<rparr>"

definition publish_signals :: "(nat \<Rightarrow> string option) \<Rightarrow> applied_timeline \<Rightarrow> stream_signal list \<times> string option" where
  "publish_signals faults t = (case faults 1 of
     Some m \<Rightarrow> ([], Some m)
   | None \<Rightarrow> (case faults 2 of
       Some m \<Rightarrow> ([order_update_signal t], Some m)
     | None \<Rightarrow> ([order_update_signal t, timeline_signal t], None)))"

section \<open>The service and the controller\<close>

record projector_state =
  ps_documents :: documents
  ps_signals :: "stream_signal list"
  ps_logged :: "string list"

definition run_once_mongo ::
    "mongo_world \<Rightarrow> uid \<Rightarrow> uid \<Rightarrow> string \<Rightarrow> (string \<Rightarrow> order_document \<Rightarrow> order_document) \<Rightarrow>
      (order_document \<Rightarrow> projector_state \<Rightarrow> projector_state) \<Rightarrow> projector_state \<Rightarrow>
      (projector_error + apply_outcome) \<times> projector_state" where
  "run_once_mongo w scope event consumer stages after st =
     (case mw_write w of
        Some m \<Rightarrow> (Inl (Store_Fault m), st)
      | None \<Rightarrow> (let key = dedup_key_of consumer event in
          case find_one_and_update scope key (stages key) (ps_documents st) of
            (None, _) \<Rightarrow> (Inr Already_Applied, st)
          | (Some doc, docs) \<Rightarrow> (Inr Applied, after doc (st \<lparr> ps_documents := docs \<rparr>))))"

definition writer_apply ::
    "mongo_world \<Rightarrow> projection_delta \<Rightarrow> uid \<Rightarrow> string \<Rightarrow> (applied_timeline \<Rightarrow> projector_state \<Rightarrow> projector_state) \<Rightarrow>
      projector_state \<Rightarrow> (projector_error + apply_outcome) \<times> projector_state" where
  "writer_apply w d event consumer after st =
     (case upsert_placeholder w (pd_order d) (te_at (pd_entry d)) (ps_documents st) of
        (Inl e, docs) \<Rightarrow> (Inl e, st \<lparr> ps_documents := docs \<rparr>)
      | (Inr _, docs) \<Rightarrow> run_once_mongo w (pd_order d) event consumer (delta_to_pipeline d)
          (after \<circ> to_applied_order_timeline) (st \<lparr> ps_documents := docs \<rparr>))"

text \<open>The signal after the write: its failure is logged and goes no further.\<close>

definition signal_applied :: "mongo_world \<Rightarrow> applied_timeline \<Rightarrow> projector_state \<Rightarrow> projector_state" where
  "signal_applied w t st = (let (sent, fault) = publish_signals (mw_publish w) t in
     st \<lparr> ps_signals := ps_signals st @ sent,
       ps_logged := ps_logged st @ (case fault of None \<Rightarrow> [] | Some m \<Rightarrow> [m]) \<rparr>)"

definition projection_apply ::
    "mongo_world \<Rightarrow> envelope \<Rightarrow> projector_state \<Rightarrow> (projector_error + apply_outcome) \<times> projector_state" where
  "projection_apply w env st = (case project_fact env of
     Inl e \<Rightarrow> (Inl (Projection_Error e), st)
   | Inr d \<Rightarrow> writer_apply w d (ev_id env) projector_consumer (signal_applied w) st)"

end
