(* ===== verification/Read_Model_Properties.thy ===== *)
theory Read_Model_Properties
  imports Read_Model
begin

text \<open>
  What the projector guarantees.  \<open>document_ok\<close> ties every field of a stored document to the
  facts of its timeline; every delivery keeps it, whatever the store and the bus do.  The
  deliveries satisfy the contract \<open>convergent_replica\<close>, so the documents depend on the set of
  the delivered facts and not on their order or on redeliveries.
\<close>

section \<open>A document and its timeline\<close>

definition entry_keys :: "timeline_entry list \<Rightarrow> string list" where
  "entry_keys es = map (\<lambda>e. dedup_key_of projector_consumer (te_id e)) es"

definition event_rank :: "event_type \<Rightarrow> nat" where
  "event_rank e = (case rank_entry e of None \<Rightarrow> 0 | Some (_, r) \<Rightarrow> r)"

definition ledger_matches :: "order_document \<Rightarrow> bool" where
  "ledger_matches doc = (distinct (map te_id (od_events doc)) \<and> od_keys doc = sort (entry_keys (od_events doc)) \<and>
     od_events doc = causal_timeline_order (od_events doc) \<and> od_version doc = Some timeline_order_version)"

text \<open>The status is the one proved by the fact of the greatest rank.\<close>

definition status_matches :: "order_document \<Rightarrow> bool" where
  "status_matches doc = (case od_rank doc of None \<Rightarrow> False | Some r \<Rightarrow>
     (\<forall>e\<in>set (od_events doc). event_rank (te_type e) \<le> r) \<and>
     (if r = 0 then od_status doc = Placed
      else \<exists>e\<in>set (od_events doc). rank_entry (te_type e) = Some (Some (od_status doc), r)))"

text \<open>What the header writes, each present or not.\<close>

definition header_presence :: "order_document \<Rightarrow> bool list" where
  "header_presence doc = [od_complete doc, od_reference doc \<noteq> None, od_date doc \<noteq> None, od_currency doc \<noteq> None,
     od_totals doc \<noteq> None, pr_code (od_retailer doc) \<noteq> None, pr_gln (od_retailer doc) \<noteq> None,
     pr_code (od_company doc) \<noteq> None, pr_gln (od_company doc) \<noteq> None]"

definition fields_match :: "order_document \<Rightarrow> bool" where
  "fields_match doc = (let facts = te_type ` set (od_events doc) in
     list_all (\<lambda>present. present \<longleftrightarrow> Order_Placed \<in> facts) (header_presence doc) \<and>
     (rd_despatch (od_references doc) \<noteq> None \<longleftrightarrow> Order_Despatched \<in> facts) \<and>
     (rd_invoice (od_references doc) \<noteq> None \<longleftrightarrow> Invoice_Issued \<in> facts) \<and>
     (rd_payment (od_references doc) \<noteq> None \<longleftrightarrow> Payment_Received \<in> facts) \<and>
     (od_reason doc \<noteq> None \<longleftrightarrow> Order_Cancelled \<in> facts) \<and>
     (\<forall>e\<in>set (od_events doc). te_at e \<le> od_updated doc))"

definition document_ok :: "uid \<Rightarrow> order_document \<Rightarrow> bool" where
  "document_ok order doc = (od_order doc = order \<and> ledger_matches doc \<and> status_matches doc \<and> fields_match doc)"

definition documents_ok :: "documents \<Rightarrow> bool" where
  "documents_ok docs = (\<forall>order doc. docs order = Some doc \<longrightarrow> document_ok order doc)"

section \<open>The fields after an update\<close>

lemma od_write_header [simp]:
  "od_order (write_header h doc) = od_order doc" "od_status (write_header h doc) = od_status doc"
  "od_reason (write_header h doc) = od_reason doc" "od_references (write_header h doc) = od_references doc"
  "od_events (write_header h doc) = od_events doc" "od_updated (write_header h doc) = od_updated doc"
  "od_rank (write_header h doc) = od_rank doc" "od_keys (write_header h doc) = od_keys doc"
  "od_version (write_header h doc) = od_version doc"
  by (simp_all add: write_header_def split: option.split)

lemma od_pipeline [simp]:
  "od_order (delta_to_pipeline d key doc) = od_order doc"
  "od_events (delta_to_pipeline d key doc) = causal_timeline_order (od_events doc @ [pd_entry d])"
  "od_keys (delta_to_pipeline d key doc) = key_union (od_keys doc) key"
  "od_version (delta_to_pipeline d key doc) = Some timeline_order_version"
  "od_rank (delta_to_pipeline d key doc) = Some (max (or_else (od_rank doc) 0) (pd_rank d))"
  "od_status (delta_to_pipeline d key doc) = raised_status (pd_status d) (pd_rank d) (od_rank doc) (od_status doc)"
  "od_updated (delta_to_pipeline d key doc) = max (od_updated doc) (te_at (pd_entry d))"
  "od_references (delta_to_pipeline d key doc) = fill_references (pd_references d) (od_references doc)"
  "od_reason (delta_to_pipeline d key doc) = if_absent (od_reason doc) (pd_reason d)"
  by (simp_all add: delta_to_pipeline_def)

lemma od_header_fields:
  "od_reference (delta_to_pipeline d key doc) = (case pd_header d of None \<Rightarrow> od_reference doc | Some h \<Rightarrow> Some (hd_reference h))"
  "od_date (delta_to_pipeline d key doc) = (case pd_header d of None \<Rightarrow> od_date doc | Some h \<Rightarrow> Some (hd_date h))"
  "od_retailer (delta_to_pipeline d key doc) = (case pd_header d of None \<Rightarrow> od_retailer doc
     | Some h \<Rightarrow> (od_retailer doc) \<lparr> pr_code := Some (fst (hd_retailer h)), pr_gln := Some (snd (hd_retailer h)) \<rparr>)"
  "od_company (delta_to_pipeline d key doc) = (case pd_header d of None \<Rightarrow> od_company doc
     | Some h \<Rightarrow> (od_company doc) \<lparr> pr_code := Some (fst (hd_company h)), pr_gln := Some (snd (hd_company h)) \<rparr>)"
  "od_currency (delta_to_pipeline d key doc) = (case pd_header d of None \<Rightarrow> od_currency doc | Some h \<Rightarrow> Some (hd_currency h))"
  "od_totals (delta_to_pipeline d key doc) = (case pd_header d of None \<Rightarrow> od_totals doc | Some h \<Rightarrow> Some (hd_totals h))"
  "od_items (delta_to_pipeline d key doc) = (case pd_header d of None \<Rightarrow> od_items doc | Some h \<Rightarrow> hd_items h)"
  "od_complete (delta_to_pipeline d key doc) = (case pd_header d of None \<Rightarrow> od_complete doc | Some _ \<Rightarrow> True)"
  by (simp_all add: delta_to_pipeline_def write_header_def split: option.split)

lemma if_absent_simps [simp]:
  "if_absent None x = x" "if_absent (Some y) x = Some y" "if_absent x None = x"
  by (simp_all add: if_absent_def split: option.split)

lemma if_absent_None [simp]: "if_absent x y = None \<longleftrightarrow> x = None \<and> y = None"
  by (cases x) simp_all

lemma set_key_union [simp]: "set (key_union keys key) = insert key (set keys)"
  by (auto simp: key_union_def)

lemma dedup_key_inject [simp]: "dedup_key_of c i = dedup_key_of c j \<longleftrightarrow> i = j"
  by (simp add: dedup_key_of_def)

lemma sort_perm: "mset xs = mset ys \<Longrightarrow> sort xs = sort ys"
  by (metis mset_sort properties_for_sort sorted_sort)

lemma key_in_ledger:
  "ledger_matches doc \<Longrightarrow> dedup_key_of projector_consumer i \<in> set (od_keys doc) \<longleftrightarrow> i \<in> te_id ` set (od_events doc)"
  by (auto simp: ledger_matches_def entry_keys_def)

section \<open>An update keeps the document consistent\<close>

lemma pipeline_ledger:
  assumes "ledger_matches doc" and "te_id (pd_entry d) = i"
    and "key = dedup_key_of projector_consumer i" and "key \<notin> set (od_keys doc)"
  shows "ledger_matches (delta_to_pipeline d key doc)"
proof -
  let ?es = "od_events doc @ [pd_entry d]"
  have ids: "distinct (map te_id ?es)"
    using assms key_in_ledger [OF assms(1), of i] by (auto simp: ledger_matches_def)
  then have keys: "distinct (entry_keys ?es)" by (auto simp: entry_keys_def distinct_map inj_on_def)
  have "key_union (od_keys doc) key = sort (remdups (sort (entry_keys (od_events doc)) @ [key]))"
    using assms(1) by (simp add: key_union_def ledger_matches_def)
  also have "\<dots> = sort (sort (entry_keys (od_events doc)) @ [key])"
    using keys by (subst distinct_remdups_id) (simp_all add: entry_keys_def assms(2,3))
  also have "\<dots> = sort (entry_keys (causal_timeline_order ?es))"
    by (rule sort_perm) (simp add: entry_keys_def assms(2,3))
  finally have "key_union (od_keys doc) key = sort (entry_keys (causal_timeline_order ?es))" .
  moreover have "distinct (map te_id (causal_timeline_order ?es))"
    using ids by (metis mset_causal_timeline_order mset_eq_imp_distinct_iff mset_map)
  ultimately show ?thesis
    by (simp add: ledger_matches_def causal_timeline_order_idem [OF ids])
qed

lemma pipeline_status:
  assumes "status_matches doc" and "rank_entry (te_type (pd_entry d)) = Some (pd_status d, pd_rank d)"
  shows "status_matches (delta_to_pipeline d key doc)"
proof -
  from assms(1) obtain r where r: "od_rank doc = Some r" "\<forall>e\<in>set (od_events doc). event_rank (te_type e) \<le> r"
      "if r = 0 then od_status doc = Placed
       else \<exists>e\<in>set (od_events doc). rank_entry (te_type e) = Some (Some (od_status doc), r)"
    by (auto simp: status_matches_def split: option.splits)
  have "event_rank (te_type (pd_entry d)) = pd_rank d" using assms(2) by (simp add: event_rank_def)
  moreover have "pd_status d = None \<longleftrightarrow> pd_rank d = 0" using rank_entry_zero [OF assms(2)] .
  ultimately show ?thesis using r assms(2)
    by (cases "pd_status d") (auto simp: status_matches_def raised_status_def max_def le_max_iff_disj split: if_splits)
qed

lemma pipeline_fields:
  assumes "fields_match doc" and "project_fact env = Inr d"
  shows "fields_match (delta_to_pipeline d key doc)"
proof -
  have header: "header_presence (delta_to_pipeline d key doc) = map (\<lambda>b. b \<or> pd_header d \<noteq> None) (header_presence doc)"
    by (simp add: header_presence_def od_header_fields split: option.split)
  have types: "te_type ` set (od_events (delta_to_pipeline d key doc)) = insert (ev_type env) (te_type ` set (od_events doc))"
    by (simp add: project_fact_Inr(3) [OF assms(2)])
  have "list_all (\<lambda>present. present \<longleftrightarrow> Order_Placed \<in> te_type ` set (od_events doc)) (header_presence doc)"
    using assms(1) by (simp add: fields_match_def Let_def)
  then have present: "list_all (\<lambda>present. present \<longleftrightarrow> Order_Placed \<in> insert (ev_type env) (te_type ` set (od_events doc)))
      (header_presence (delta_to_pipeline d key doc))"
    unfolding header list.pred_map comp_def using project_fact_Inr(7) [OF assms(2)]
    by (auto elim!: list.pred_mono_strong)
  show ?thesis using assms(1) project_fact_Inr(8-11) [OF assms(2)]
    unfolding fields_match_def Let_def types
    by (simp add: fill_references_def le_max_iff_disj present [simplified]) (intro conjI iffI; elim disjE; simp)
qed

lemma pipeline_ok:
  assumes "document_ok order doc" and "project_fact env = Inr d"
    and "key = dedup_key_of projector_consumer (ev_id env)" and "key \<notin> set (od_keys doc)"
  shows "document_ok order (delta_to_pipeline d key doc)"
  using assms pipeline_ledger [of doc d "ev_id env" key] pipeline_status [of doc d key] pipeline_fields [of doc env d key]
  by (simp add: document_ok_def project_fact_Inr(2,3,6) [OF assms(2)])

lemma placeholder_ok: "document_ok order (placeholder_skeleton order seed)"
  by (simp add: document_ok_def placeholder_skeleton_def ledger_matches_def status_matches_def fields_match_def
      entry_keys_def causal_timeline_order_def depth_fixpoint_def no_references_def header_presence_def no_party_def)

section \<open>Every delivery keeps the documents consistent\<close>

lemma documents_okD: "documents_ok docs \<Longrightarrow> docs order = Some doc \<Longrightarrow> document_ok order doc"
  by (simp add: documents_ok_def)

lemma documents_ok_upd: "documents_ok docs \<Longrightarrow> document_ok order doc \<Longrightarrow> documents_ok (docs(order \<mapsto> doc))"
  by (simp add: documents_ok_def)

lemma insert_placeholder_ok: "documents_ok docs \<Longrightarrow> documents_ok (insert_placeholder order seed docs)"
  by (simp add: insert_placeholder_def documents_ok_upd placeholder_ok split: option.split)

lemma insert_placeholder_twice [simp]:
  "insert_placeholder order seed (insert_placeholder order winner docs) = insert_placeholder order winner docs"
  by (simp add: insert_placeholder_def split: option.split)

lemma upsert_documents:
  assumes "upsert_placeholder w order seed docs = (res, docs')"
  obtains "docs' = docs" | winner where "docs' = insert_placeholder order winner docs"
  using assms
  by (auto simp: upsert_placeholder_def upsert_attempt_def split: upsert_end.splits sum.splits projector_error.splits prod.splits)

lemma find_one_and_update_ok:
  assumes "documents_ok docs" and "project_fact env = Inr d"
    and "key = dedup_key_of projector_consumer (ev_id env)"
  shows "documents_ok (snd (find_one_and_update (pd_order d) key (delta_to_pipeline d key) docs))"
  using assms documents_okD [OF assms(1)] pipeline_ok [OF _ assms(2,3)]
  by (simp add: find_one_and_update_def documents_ok_upd split: option.split)

lemma signal_applied_documents [simp]: "ps_documents (signal_applied w t st) = ps_documents st"
  by (simp add: signal_applied_def case_prod_unfold Let_def)

lemma run_once_mongo_documents:
  assumes "\<And>doc st. ps_documents (after doc st) = ps_documents st"
  shows "ps_documents (snd (run_once_mongo w scope event consumer stages after st)) =
    (if mw_write w = None then snd (find_one_and_update scope (dedup_key_of consumer event)
       (stages (dedup_key_of consumer event)) (ps_documents st)) else ps_documents st)"
  by (auto simp: run_once_mongo_def find_one_and_update_def Let_def assms split: option.split)

lemma projection_apply_ok:
  assumes "documents_ok (ps_documents st)"
  shows "documents_ok (ps_documents (snd (projection_apply w env st)))"
proof (cases "project_fact env")
  case (Inl e)
  then show ?thesis using assms by (simp add: projection_apply_def)
next
  case (Inr d)
  obtain res docs where up: "upsert_placeholder w (pd_order d) (te_at (pd_entry d)) (ps_documents st) = (res, docs)"
    by fastforce
  then have docs: "documents_ok docs"
    by (rule upsert_documents) (simp_all add: assms insert_placeholder_ok)
  show ?thesis
    using docs find_one_and_update_ok [OF docs Inr refl] Inr up
    by (simp add: projection_apply_def writer_apply_def run_once_mongo_documents split: sum.split)
qed

section \<open>Two deliveries commute\<close>

definition clear_world :: "(nat \<Rightarrow> string option) \<Rightarrow> mongo_world" where
  "clear_world publish = \<lparr> mw_upsert = \<lambda>_. Upsert_Done, mw_write = None, mw_publish = publish \<rparr>"

text \<open>What a delivery does to the document of its order when the store answers.\<close>

definition projected :: "projection_delta \<Rightarrow> string \<Rightarrow> order_document option \<Rightarrow> order_document" where
  "projected d key stored = (let doc = or_else stored (placeholder_skeleton (pd_order d) (te_at (pd_entry d))) in
     if key \<in> set (od_keys doc) then doc else delta_to_pipeline d key doc)"

definition deliver_document :: "envelope \<Rightarrow> documents \<Rightarrow> documents" where
  "deliver_document env docs = (case project_fact env of
     Inl _ \<Rightarrow> docs
   | Inr d \<Rightarrow> docs(pd_order d \<mapsto> projected d (dedup_key_of projector_consumer (ev_id env)) (docs (pd_order d))))"

lemma clear_delivery:
  "ps_documents (snd (projection_apply (clear_world f) env st)) = deliver_document env (ps_documents st)"
  by (auto simp: projection_apply_def writer_apply_def run_once_mongo_documents deliver_document_def projected_def
      clear_world_def upsert_placeholder_def upsert_attempt_def find_one_and_update_def insert_placeholder_def
      or_else_def Let_def fun_upd_idem split: sum.split option.split)

text \<open>Facts the projection cannot confuse: at most one of each kind that writes a field.\<close>

definition facts_agree :: "envelope \<Rightarrow> envelope \<Rightarrow> bool" where
  "facts_agree a b = (ev_correlation a \<noteq> ev_correlation b \<or>
     ev_id a \<noteq> ev_id b \<and> (ev_type a = ev_type b \<longrightarrow> ev_type a \<notin> set field_writers))"

lemma or_else_Some [simp]: "or_else (Some x) y = x" by simp

lemma raised_status_commutes:
  assumes "rank_entry e = Some (s, r)" and "rank_entry e' = Some (s', r')"
  shows "raised_status s r (Some (max (or_else q 0) r')) (raised_status s' r' q st) =
    raised_status s' r' (Some (max (or_else q 0) r)) (raised_status s r q st)"
  using rank_entry_injective [OF assms(1), of e' s'] assms(2) rank_entry_zero [OF assms(1)] rank_entry_zero [OF assms(2)]
  by (auto simp: raised_status_def max_def split: option.split)

lemma if_absent_commutes:
  "x = None \<or> y = None \<Longrightarrow> if_absent (if_absent old x) y = if_absent (if_absent old y) x"
  by (cases old) auto

lemma fill_references_commutes:
  assumes "rd_despatch a = None \<or> rd_despatch b = None" and "rd_invoice a = None \<or> rd_invoice b = None"
    and "rd_payment a = None \<or> rd_payment b = None"
  shows "fill_references a (fill_references b old) = fill_references b (fill_references a old)"
  using assms [THEN if_absent_commutes] by (simp add: fill_references_def)

lemma key_union_commutes: "key_union (key_union keys a) b = key_union (key_union keys b) a"
  by (rule sorted_distinct_set_unique) (auto simp: key_union_def)

lemma pipelines_commute:
  assumes ids: "distinct (map te_id (od_events doc @ [pd_entry a, pd_entry b]))"
    and ranks: "rank_entry e = Some (pd_status a, pd_rank a)" "rank_entry e' = Some (pd_status b, pd_rank b)"
    and refs: "rd_despatch (pd_references a) = None \<or> rd_despatch (pd_references b) = None"
      "rd_invoice (pd_references a) = None \<or> rd_invoice (pd_references b) = None"
      "rd_payment (pd_references a) = None \<or> rd_payment (pd_references b) = None"
    and others: "pd_reason a = None \<or> pd_reason b = None" "pd_header a = None \<or> pd_header b = None"
  shows "delta_to_pipeline a ka (delta_to_pipeline b kb doc) = delta_to_pipeline b kb (delta_to_pipeline a ka doc)"
proof (rule order_document.equality)
  let ?es = "od_events doc"
  have "causal_timeline_order (causal_timeline_order (?es @ [pd_entry b]) @ [pd_entry a]) =
      causal_timeline_order (causal_timeline_order (?es @ [pd_entry a]) @ [pd_entry b])"
  proof (rule causal_timeline_order_perm)
    have "mset (map te_id (causal_timeline_order (?es @ [pd_entry b]) @ [pd_entry a])) =
        mset (map te_id (?es @ [pd_entry a, pd_entry b]))"
      by simp
    with ids show "distinct (map te_id (causal_timeline_order (?es @ [pd_entry b]) @ [pd_entry a]))"
      using mset_eq_imp_distinct_iff by blast
  qed simp
  then show "od_events (delta_to_pipeline a ka (delta_to_pipeline b kb doc)) =
      od_events (delta_to_pipeline b kb (delta_to_pipeline a ka doc))" by simp
  show "od_rank (delta_to_pipeline a ka (delta_to_pipeline b kb doc)) =
      od_rank (delta_to_pipeline b kb (delta_to_pipeline a ka doc))"
    and "od_updated (delta_to_pipeline a ka (delta_to_pipeline b kb doc)) =
      od_updated (delta_to_pipeline b kb (delta_to_pipeline a ka doc))"
    by (simp_all add: max.left_commute max.commute max.assoc)
qed (use others in \<open>auto simp: raised_status_commutes [OF ranks] fill_references_commutes [OF refs]
    if_absent_commutes key_union_commutes od_header_fields split: option.splits\<close>)

text \<open>The seed of a placeholder leaves no trace once a later fact is applied.\<close>

lemma pipeline_seed:
  assumes "seed \<le> te_at (pd_entry d)"
  shows "delta_to_pipeline d key (placeholder_skeleton order (te_at (pd_entry d))) =
    delta_to_pipeline d key (placeholder_skeleton order seed)"
  using assms by (simp add: delta_to_pipeline_def placeholder_skeleton_def write_header_def max_def split: option.split)

lemma agreeing_pipelines_commute:
  assumes "project_fact a = Inr da" and "project_fact b = Inr db"
    and "ev_correlation a = ev_correlation b" and "facts_agree a b"
    and "ledger_matches doc" and "ev_id a \<notin> te_id ` set (od_events doc)" and "ev_id b \<notin> te_id ` set (od_events doc)"
  shows "delta_to_pipeline da ka (delta_to_pipeline db kb doc) = delta_to_pipeline db kb (delta_to_pipeline da ka doc)"
proof (rule pipelines_commute)
  note facts = project_fact_Inr [OF assms(1)] project_fact_Inr [OF assms(2)]
  show "distinct (map te_id (od_events doc @ [pd_entry da, pd_entry db]))"
    using assms(3-7) by (auto simp: facts facts_agree_def ledger_matches_def)
  show "rank_entry (ev_type a) = Some (pd_status da, pd_rank da)" "rank_entry (ev_type b) = Some (pd_status db, pd_rank db)"
    by (fact project_fact_Inr(6) [OF assms(1)] project_fact_Inr(6) [OF assms(2)])+
  have "\<not> (ev_type a = e \<and> ev_type b = e)" if "e \<in> set field_writers" for e
    using assms(3,4) that by (auto simp: facts_agree_def)
  then have types: "\<not> (ev_type a = Order_Placed \<and> ev_type b = Order_Placed)"
    "\<not> (ev_type a = Order_Despatched \<and> ev_type b = Order_Despatched)"
    "\<not> (ev_type a = Invoice_Issued \<and> ev_type b = Invoice_Issued)"
    "\<not> (ev_type a = Payment_Received \<and> ev_type b = Payment_Received)"
    "\<not> (ev_type a = Order_Cancelled \<and> ev_type b = Order_Cancelled)"
    by (simp_all add: field_writers_def)
  show "rd_despatch (pd_references da) = None \<or> rd_despatch (pd_references db) = None"
    using types(2) facts(8,19) by argo
  show "rd_invoice (pd_references da) = None \<or> rd_invoice (pd_references db) = None"
    using types(3) facts(9,20) by argo
  show "rd_payment (pd_references da) = None \<or> rd_payment (pd_references db) = None"
    using types(4) facts(10,21) by argo
  show "pd_reason da = None \<or> pd_reason db = None"
    using types(5) facts(11,22) by argo
  show "pd_header da = None \<or> pd_header db = None"
    using types(1) facts(7,18) by argo
qed

lemma key_after_projection:
  assumes "project_fact b = Inr db" and "ev_id a \<noteq> ev_id b" and "kb = dedup_key_of projector_consumer (ev_id b)"
    and "ka = dedup_key_of projector_consumer (ev_id a)"
  shows "ka \<in> set (od_keys (delta_to_pipeline db kb doc)) \<longleftrightarrow> ka \<in> set (od_keys doc)"
  using assms by simp

lemma projections_commute:
  assumes "project_fact a = Inr da" and "project_fact b = Inr db"
    and "ev_correlation a = ev_correlation b" and "facts_agree a b"
    and "ka = dedup_key_of projector_consumer (ev_id a)" and "kb = dedup_key_of projector_consumer (ev_id b)"
    and ok: "\<And>doc. stored = Some doc \<Longrightarrow> ledger_matches doc"
  shows "projected da ka (Some (projected db kb stored)) = projected db kb (Some (projected da ka stored))"
proof -
  have ids: "ev_id a \<noteq> ev_id b" using assms(3,4) by (simp add: facts_agree_def)
  have order: "pd_order da = pd_order db"
    using assms(3) project_fact_Inr(1) [OF assms(1)] project_fact_Inr(1) [OF assms(2)] by simp
  let ?t = "min (te_at (pd_entry da)) (te_at (pd_entry db))"
  let ?doc = "or_else stored (placeholder_skeleton (pd_order db) ?t)"
  have ledger: "ledger_matches ?doc"
    using ok placeholder_ok [of "pd_order db" ?t] by (cases stored) (simp_all add: document_ok_def)
  have alone: "projected d k stored = (if k \<in> set (od_keys ?doc) then ?doc else delta_to_pipeline d k ?doc)"
    if "d = da \<or> d = db" for d k
  proof (cases stored)
    case None
    have "?t \<le> te_at (pd_entry d)" using that by auto
    then show ?thesis using that order pipeline_seed [of ?t d k "pd_order db"]
      by (auto simp: None projected_def placeholder_skeleton_def)
  qed (simp add: projected_def)
  have new: "i \<notin> te_id ` set (od_events ?doc)"
    if "dedup_key_of projector_consumer i \<notin> set (od_keys ?doc)" for i
    using that key_in_ledger [OF ledger] by blast
  show ?thesis
    using agreeing_pipelines_commute [OF assms(1-4) ledger new new, of ka kb] ids assms(5,6)
    by (simp add: alone projected_def [of _ _ "Some _"])
qed

lemma projected_again: "projected d key (Some (projected d key stored)) = projected d key stored"
  by (simp add: projected_def Let_def)

section \<open>The read model is a convergent replica\<close>

interpretation read_model: convergent_replica deliver_document documents_ok "\<lambda>env. is_ok (project_fact env)" facts_agree
proof
  fix docs env
  assume "documents_ok docs"
  then show "documents_ok (deliver_document env docs)"
    using projection_apply_ok [of "\<lparr> ps_documents = docs, ps_signals = [], ps_logged = [] \<rparr>" "clear_world (\<lambda>_. None)" env]
    by (simp add: clear_delivery)
  show "deliver_document env (deliver_document env docs) = deliver_document env docs"
    by (simp add: deliver_document_def projected_again split: sum.split)
next
  fix docs a b
  assume ok: "documents_ok docs" and "is_ok (project_fact a)" "is_ok (project_fact b)" and agree: "facts_agree a b"
  then obtain da db where d: "project_fact a = Inr da" "project_fact b = Inr db" by (auto simp: is_ok_iff)
  note order = project_fact_Inr(1) [OF d(1)] project_fact_Inr(1) [OF d(2)]
  show "deliver_document a (deliver_document b docs) = deliver_document b (deliver_document a docs)"
  proof (cases "ev_correlation a = ev_correlation b")
    case True
    have "ledger_matches doc" if "docs (ev_correlation b) = Some doc" for doc
      using documents_okD [OF ok that] by (simp add: document_ok_def)
    from projections_commute [OF d True agree refl refl this] True
    show ?thesis by (simp add: deliver_document_def d order)
  next
    case False
    then show ?thesis by (simp add: deliver_document_def d order fun_upd_twist)
  qed
qed

section \<open>The properties\<close>

definition empty_read_model :: projector_state where
  "empty_read_model = \<lparr> ps_documents = (\<lambda>_. None), ps_signals = [], ps_logged = [] \<rparr>"

text \<open>A run: deliveries, each in the world it meets.\<close>

definition read_model_run :: "(mongo_world \<times> envelope) list \<Rightarrow> projector_state \<Rightarrow> projector_state" where
  "read_model_run run = fold (\<lambda>(w, env) st. snd (projection_apply w env st)) run"

definition entry_from :: "envelope \<Rightarrow> uid \<Rightarrow> timeline_entry \<Rightarrow> bool" where
  "entry_from env order e = (ev_correlation env = order \<and>
     (case project_fact env of Inl _ \<Rightarrow> False | Inr d \<Rightarrow> pd_entry d = e))"

definition drawn_from :: "envelope set \<Rightarrow> documents \<Rightarrow> bool" where
  "drawn_from delivered docs = (\<forall>order doc e. docs order = Some doc \<and> e \<in> set (od_events doc) \<longrightarrow>
     (\<exists>env\<in>delivered. entry_from env order e))"

lemma clear_run_documents:
  "ps_documents (fold (\<lambda>e st. snd (projection_apply (clear_world f) e st)) es st) = fold deliver_document es (ps_documents st)"
  by (induction es arbitrary: st) (simp_all add: clear_delivery)

lemma drawn_from_mono: "\<lbrakk> drawn_from A docs; A \<subseteq> B \<rbrakk> \<Longrightarrow> drawn_from B docs"
  unfolding drawn_from_def by blast

lemma drawn_from_placeholder: "drawn_from A docs \<Longrightarrow> drawn_from A (insert_placeholder order seed docs)"
  by (auto simp: drawn_from_def insert_placeholder_def placeholder_skeleton_def split: option.splits)

lemma drawn_from_update:
  assumes "drawn_from A docs" and "project_fact env = Inr d"
  shows "drawn_from (insert env A) (snd (find_one_and_update (pd_order d) key (delta_to_pipeline d key) docs))"
proof (cases "docs (pd_order d)")
  case None
  then show ?thesis using drawn_from_mono [OF assms(1)] by (auto simp: find_one_and_update_def)
next
  case (Some doc)
  have old: "drawn_from (insert env A) docs" using drawn_from_mono [OF assms(1)] by blast
  have "entry_from env (pd_order d) (pd_entry d)"
    by (simp add: entry_from_def assms(2) project_fact_Inr(1) [OF assms(2)])
  then have "drawn_from (insert env A) (docs(pd_order d \<mapsto> delta_to_pipeline d key doc))"
    using old Some unfolding drawn_from_def by simp blast
  then show ?thesis using Some old by (simp add: find_one_and_update_def)
qed

lemma projection_apply_drawn:
  assumes "drawn_from A (ps_documents st)"
  shows "drawn_from (insert env A) (ps_documents (snd (projection_apply w env st)))"
proof (cases "project_fact env")
  case (Inl e)
  then show ?thesis using drawn_from_mono [OF assms] by (auto simp: projection_apply_def)
next
  case (Inr d)
  obtain res docs where up: "upsert_placeholder w (pd_order d) (te_at (pd_entry d)) (ps_documents st) = (res, docs)"
    by fastforce
  then have docs: "drawn_from A docs"
    by (rule upsert_documents) (simp_all add: assms drawn_from_placeholder)
  then have "drawn_from (insert env A) docs" by (rule drawn_from_mono) blast
  then show ?thesis using drawn_from_update [OF docs Inr] Inr up
    by (simp add: projection_apply_def writer_apply_def run_once_mongo_documents split: sum.split)
qed

lemma run_documents:
  assumes "documents_ok (ps_documents st)" and "drawn_from A (ps_documents st)"
  shows "documents_ok (ps_documents (read_model_run run st)) \<and>
    drawn_from (A \<union> snd ` set run) (ps_documents (read_model_run run st))"
  using assms
proof (induction run arbitrary: st A)
  case (Cons x run)
  obtain w env where x: "x = (w, env)" by fastforce
  from Cons.IH [OF projection_apply_ok [OF Cons.prems(1)] projection_apply_drawn [OF Cons.prems(2)], of w env]
  show ?case by (simp add: read_model_run_def x)
qed (simp add: read_model_run_def)

text \<open>
  C8: the read model reflects the delivered facts.  Whatever facts are delivered, in whatever
  order and however often, and whatever faults the store and the bus show on the way, every
  document of the read model holds: its timeline has no fact twice, is in causal order and
  consists of delivered facts of that order; its processed keys are those of its timeline; its
  status is the one proved by the fact of the greatest rank (so it never regresses); its header,
  references and cancellation reason are present exactly when the fact that writes them is in
  the timeline; and it is not older than any of its facts.
\<close>

theorem read_model_reflects_facts:
  shows "documents_ok (ps_documents (read_model_run run empty_read_model)) \<and>
    drawn_from (snd ` set run) (ps_documents (read_model_run run empty_read_model))"
proof -
  have "documents_ok (ps_documents empty_read_model)" "drawn_from {} (ps_documents empty_read_model)"
    by (simp_all add: documents_ok_def drawn_from_def empty_read_model_def)
  from run_documents [OF this, of run] show ?thesis by simp
qed

text \<open>
  C9: replicas of the read model converge.  Take facts the projection accepts, of which no two
  of the same order are both its placement, its despatch, its invoice, its payment or its
  cancellation, and which carry an identifier each within their order.  Two projectors that start
  from the same consistent documents and are delivered these facts, each in an order of its own and
  with any repetitions, end with the same documents, whether or not their signals got through.
\<close>

theorem projection_converges:
  assumes "documents_ok (ps_documents st)"
    and "\<forall>e\<in>set es. is_ok (project_fact e)"
    and "\<forall>a\<in>set es. \<forall>b\<in>set es. a \<noteq> b \<longrightarrow> facts_agree a b"
    and "set fs = set es"
  shows "ps_documents (fold (\<lambda>e st. snd (projection_apply (clear_world f) e st)) es st) =
    ps_documents (fold (\<lambda>e st. snd (projection_apply (clear_world g) e st)) fs st)"
proof -
  have "read_model.all_agree (set es)" using assms(3) by (simp add: read_model.all_agree_def)
  then show ?thesis
    using read_model.replicas_converge [OF assms(1) assms(2) _ assms(4)] by (simp add: clear_run_documents)
qed

lemma run_document_ok:
  assumes "ps_documents (read_model_run run empty_read_model) order = Some doc"
  shows "document_ok order doc"
proof -
  have "documents_ok (ps_documents (read_model_run run empty_read_model))"
    using run_documents [of empty_read_model "{}" run]
    by (simp add: documents_ok_def drawn_from_def empty_read_model_def)
  from documents_okD [OF this assms] show ?thesis .
qed

text \<open>
  C28: the rounds that compute the depth of a timeline always end, after one round per entry, and
  on a stored timeline without a cycle of causes they have then reached their fixpoint: one more
  round changes no depth.  The stored order is then the causal one: an earlier fact stands before
  a later one, and of two facts of one instant the cause stands before what it caused.
\<close>

theorem timeline_depth_settles:
  assumes "ps_documents (read_model_run run empty_read_model) order = Some doc"
    and "acyclic (cause_edges (od_events doc))"
  shows "relaxation_round (depth_fixpoint (od_events doc)) = depth_fixpoint (od_events doc) \<and>
    (\<forall>c\<in>set (od_events doc). \<forall>e\<in>set (od_events doc).
       te_at c < te_at e \<or> is_cause c e \<longrightarrow> stands_before (od_events doc) c e)"
proof (intro conjI ballI impI)
  have ledger: "ledger_matches doc" using run_document_ok [OF assms(1)] by (simp add: document_ok_def)
  then have ids: "distinct (map te_id (od_events doc))"
    and order: "causal_timeline_order (od_events doc) = od_events doc"
    by (simp_all add: ledger_matches_def)
  show "relaxation_round (depth_fixpoint (od_events doc)) = depth_fixpoint (od_events doc)"
    by (rule depth_fixpoint_settles [OF assms(2)])
  fix c e
  assume c: "c \<in> set (od_events doc)" and e: "e \<in> set (od_events doc)" and "te_at c < te_at e \<or> is_cause c e"
  then show "stands_before (od_events doc) c e"
    using earlier_stands_before [OF c e] cause_stands_before [OF assms(2) ids c e] by (auto simp: order)
qed

section \<open>The fact a signal names\<close>

definition signal_event :: "stream_signal \<Rightarrow> uid" where
  "signal_event s = (case s of Order_Updated_Signal _ u \<Rightarrow> ou_event u | Timeline_Appended_Signal _ t \<Rightarrow> ts_event t)"

lemma last_not_earlier:
  assumes "e \<in> set es" and "x \<in> set es" and "te_at x < te_at e"
  shows "last (causal_timeline_order es) \<noteq> x"
proof
  assume last: "last (causal_timeline_order es) = x"
  have "stands_before (causal_timeline_order es) x e" by (rule earlier_stands_before [OF assms(2,1,3)])
  then obtain us vs ws where split: "causal_timeline_order es = us @ x # vs @ e # ws"
    by (auto simp: stands_before_def)
  have "sorted (map (entry_key es) (us @ x # vs @ e # ws))"
    using split by (simp add: causal_timeline_order_eq flip: split)
  then have "entry_key es e \<le> entry_key es (last (e # ws))"
    by (auto simp: sorted_append)
  moreover have "last (e # ws) = x" using last split by simp
  ultimately show False using assms(3) by (simp add: entry_key_def)
qed

lemma clear_apply:
  assumes "project_fact env = Inr d" and "ps_documents st (ev_correlation env) = Some doc"
    and "dedup_key_of projector_consumer (ev_id env) \<notin> set (od_keys doc)"
  shows "projection_apply (clear_world (\<lambda>_. None)) env st =
    (let doc' = delta_to_pipeline d (dedup_key_of projector_consumer (ev_id env)) doc;
         t = to_applied_order_timeline doc' in
     (Inr Applied, st \<lparr> ps_documents := (ps_documents st)(ev_correlation env \<mapsto> doc'),
        ps_signals := ps_signals st @ [order_update_signal t, timeline_signal t] \<rparr>))"
  using assms project_fact_Inr(1) [OF assms(1)]
  by (simp add: projection_apply_def writer_apply_def clear_world_def upsert_placeholder_def upsert_attempt_def
      insert_placeholder_def run_once_mongo_def find_one_and_update_def signal_applied_def publish_signals_def Let_def)

text \<open>
  C36: the signal of a late fact names another one.  When a fact is applied to an order whose
  timeline already shows a fact of a later instant, the fact is in the stored timeline, but both
  signals published for it carry the event id of a fact that was there before: a client that
  deduplicates on that id, as the interface asks it to, drops the update.
\<close>

theorem late_fact_signalled_as_another:
  assumes "documents_ok (ps_documents st)" and "ps_documents st (ev_correlation env) = Some doc"
    and "project_fact env = Inr d" and "ev_id env \<notin> te_id ` set (od_events doc)"
    and "e \<in> set (od_events doc)" and "ev_at env < te_at e"
  shows "\<exists>doc' s1 s2. fst (projection_apply (clear_world (\<lambda>_. None)) env st) = Inr Applied \<and>
    ps_documents (snd (projection_apply (clear_world (\<lambda>_. None)) env st)) (ev_correlation env) = Some doc' \<and>
    pd_entry d \<in> set (od_events doc') \<and>
    ps_signals (snd (projection_apply (clear_world (\<lambda>_. None)) env st)) = ps_signals st @ [s1, s2] \<and>
    signal_event s1 = signal_event s2 \<and> signal_event s1 \<in> te_id ` set (od_events doc)"
proof -
  have ledger: "ledger_matches doc" using documents_okD [OF assms(1,2)] by (simp add: document_ok_def)
  have key: "dedup_key_of projector_consumer (ev_id env) \<notin> set (od_keys doc)"
    using assms(4) by (simp add: key_in_ledger [OF ledger])
  let ?es = "od_events doc @ [pd_entry d]"
  have "last (causal_timeline_order ?es) \<noteq> pd_entry d"
    using assms(5,6) project_fact_Inr(4) [OF assms(3)] by (intro last_not_earlier [of e]) simp_all
  moreover have "last (causal_timeline_order ?es) \<in> set ?es"
    using last_in_set [of "causal_timeline_order ?es"] by (metis append_is_Nil_conv length_0_conv
      length_causal_timeline_order not_Cons_self2 set_causal_timeline_order)
  ultimately have "last (causal_timeline_order ?es) \<in> set (od_events doc)" by auto
  then show ?thesis
    unfolding clear_apply [OF assms(3,2) key] Let_def
    by (simp add: signal_event_def order_update_signal_def timeline_signal_def to_applied_order_timeline_def)
qed

end
