(* ===== verification/Fact_Envelope.thy ===== *)
theory Fact_Envelope
  imports Contracts
begin

text \<open>
  The envelope parser of the Kafka controllers (apps/projector/src/presentation/
  projector-facts.controller.ts; the controllers of Orders and of the notifications hold the same
  parser).  An inbound value is what \<open>JSON.parse\<close> makes of it.
\<close>

record wire_fields =
  wf_id :: "uid option"
  wf_type :: "event_type option"
  wf_aggregate :: "uid option"
  wf_correlation :: "uid option"
  wf_causation :: "uid option"
  wf_at :: "instant option"
  wf_payload :: "payload option"

datatype wire_value = Not_Json string | Not_An_Object | Wire_Object wire_fields

datatype malformed_envelope = Invalid_Json string | No_Object | Missing_Fields "string list"

definition required_envelope_fields :: "(string \<times> (wire_fields \<Rightarrow> bool)) list" where
  "required_envelope_fields =
    [(''eventId'', \<lambda>w. wf_id w \<noteq> None), (''eventType'', \<lambda>w. wf_type w \<noteq> None),
     (''aggregateId'', \<lambda>w. wf_aggregate w \<noteq> None), (''correlationId'', \<lambda>w. wf_correlation w \<noteq> None),
     (''causationId'', \<lambda>w. wf_causation w \<noteq> None), (''occurredAt'', \<lambda>w. wf_at w \<noteq> None),
     (''payload'', \<lambda>w. wf_payload w \<noteq> None)]"

definition parse_fact_envelope :: "wire_value \<Rightarrow> malformed_envelope + envelope" where
  "parse_fact_envelope v = (case v of
     Not_Json m \<Rightarrow> Inl (Invalid_Json m)
   | Not_An_Object \<Rightarrow> Inl No_Object
   | Wire_Object w \<Rightarrow>
       (let missing = map fst (filter (\<lambda>(_, present). \<not> present w) required_envelope_fields) in
        if missing \<noteq> [] then Inl (Missing_Fields missing)
        else Inr \<lparr> ev_id = the (wf_id w), ev_type = the (wf_type w), ev_aggregate = the (wf_aggregate w),
          ev_correlation = the (wf_correlation w), ev_causation = the (wf_causation w),
          ev_at = the (wf_at w), ev_payload = the (wf_payload w) \<rparr>))"

lemma parse_fact_envelope_Inr:
  "parse_fact_envelope (Wire_Object w) = Inr env \<longleftrightarrow>
    w = \<lparr> wf_id = Some (ev_id env), wf_type = Some (ev_type env), wf_aggregate = Some (ev_aggregate env),
      wf_correlation = Some (ev_correlation env), wf_causation = Some (ev_causation env),
      wf_at = Some (ev_at env), wf_payload = Some (ev_payload env) \<rparr>"
  by (cases w; cases env) (auto simp: parse_fact_envelope_def required_envelope_fields_def Let_def)

end
