(* ===== verification/Projector_Intake.thy ===== *)
theory Projector_Intake
  imports Read_Model_Properties Fact_Envelope
begin

text \<open>
  The edges of the projector: the Kafka controller
  (apps/projector/src/presentation/projector-facts.controller.ts), which reads an envelope,
  projects it under the retry dispatcher and acknowledges what redelivery cannot repair (the envelope
  parser is in Fact_Envelope), and the
  two updates run at boot on documents of earlier writers (legacy-document-backfill.ts and
  timeline-order-migration.ts), over the documents of the collection.
\<close>

section \<open>The controller\<close>

text \<open>One attempt: an unknown fact type is logged and acknowledged, any other failure is retried.\<close>

definition project_attempt ::
    "mongo_world \<Rightarrow> envelope \<Rightarrow> projector_state \<Rightarrow> (projector_error + unit) \<times> projector_state" where
  "project_attempt w env st = (case projection_apply w env st of
     (Inl (Projection_Error (Unknown_Fact_Type e)), st') \<Rightarrow>
       (Inr (), st' \<lparr> ps_logged := ps_logged st' @ [''unknown eventType''] \<rparr>)
   | (Inl e, st') \<Rightarrow> (Inl e, st')
   | (Inr _, st') \<Rightarrow> (Inr (), st'))"

definition route_fact ::
    "retry_policy \<Rightarrow> (nat \<Rightarrow> mongo_world) \<Rightarrow> (nat \<Rightarrow> instant) \<Rightarrow> string option \<Rightarrow> string \<Rightarrow> wire_value \<Rightarrow> projector_state \<Rightarrow>
      (projector_error dispatch_end \<times> rat list) \<times> projector_state" where
  "route_fact pol worlds clock dlq topic v st = (case parse_fact_envelope v of
     Inl _ \<Rightarrow> ((Fact_Handled, []), st \<lparr> ps_logged := ps_logged st @ [''malformed fact envelope''] \<rparr>)
   | Inr env \<Rightarrow> fact_dispatch pol (\<lambda>k. project_attempt (worlds k) env) clock dlq topic env projector_consumer st)"

section \<open>The updates at boot\<close>

fun status_rank_switch :: "order_status \<Rightarrow> nat" where
  "status_rank_switch Placed = 1"
| "status_rank_switch Stock_Reserved = 2"
| "status_rank_switch Credit_Approved = 3"
| "status_rank_switch Confirmed = 4"
| "status_rank_switch Despatched = 5"
| "status_rank_switch Invoiced = 6"
| "status_rank_switch Paid = 7"
| "status_rank_switch Completed = 98"
| "status_rank_switch Cancelled = 99"

definition backfill_document :: "order_document \<Rightarrow> order_document" where
  "backfill_document doc = doc \<lparr> od_rank := Some (status_rank_switch (od_status doc)),
     od_keys := sort (map (\<lambda>e. ''projector:'' @ te_id e) (od_events doc)) \<rparr>"

definition backfill_legacy_documents :: "order_document list \<Rightarrow> order_document list \<times> nat" where
  "backfill_legacy_documents docs =
     (map (\<lambda>doc. if od_rank doc = None then backfill_document doc else doc) docs,
      length (filter (\<lambda>doc. od_rank doc = None) docs))"

definition version_mismatch :: "order_document \<Rightarrow> bool" where
  "version_mismatch doc = (od_version doc \<noteq> Some timeline_order_version)"

definition migrate_document :: "order_document \<Rightarrow> order_document" where
  "migrate_document doc = doc \<lparr> od_events := causal_timeline_order (od_events doc),
     od_version := Some timeline_order_version \<rparr>"

text \<open>The documents, how many were migrated, and how many of those hold an entry without a cause.\<close>

definition migrate_timeline_order :: "order_document list \<Rightarrow> order_document list \<times> nat \<times> nat" where
  "migrate_timeline_order docs = (let candidates = filter version_mismatch docs in
     if candidates = [] then (docs, 0, 0)
     else (map (\<lambda>doc. if version_mismatch doc then migrate_document doc else doc) docs,
       length candidates,
       length (filter (\<lambda>doc. \<exists>e\<in>set (od_events doc). te_causation e = None) candidates)))"

section \<open>What the edges do\<close>

lemma attempt_documents:
  "ps_documents (snd (project_attempt w env st)) = ps_documents (snd (projection_apply w env st))"
  by (auto simp: project_attempt_def split: prod.splits sum.splits projector_error.splits projection_error.splits)

text \<open>A fact outside the fourteen is acknowledged at once, without touching a document.\<close>

lemma unknown_fact_acknowledged:
  assumes "ev_type env \<notin> set handled_event_types"
  shows "project_attempt w env st = (Inr (), st \<lparr> ps_logged := ps_logged st @ [''unknown eventType''] \<rparr>)"
  using assms by (simp add: project_attempt_def projection_apply_def project_fact_def)

text \<open>A rejection without a shortage fails every attempt and leaves the documents alone.\<close>

lemma empty_rejection_fails:
  assumes "ev_type env = Stock_Rejected_Fact" and "ev_payload env = Stock_Rejected_P p" and "srj_shortages p = []"
  shows "project_attempt w env st = (Inl (Projection_Error Reads_Undefined), st)"
  using assms
  by (simp add: project_attempt_def projection_apply_def project_fact_def handled_event_types_def fact_arm_def
      stock_rejected_summary_def implied_status_of_def rank_of_def rank_entry_for_def)

text \<open>After the boot updates a document of the seed is one the consumer recognises.\<close>

lemma boot_updates_ledger:
  assumes "distinct (map te_id (od_events doc))"
  shows "ledger_matches (migrate_document (backfill_document doc))"
proof -
  let ?es = "causal_timeline_order (od_events doc)"
  have "entry_keys es = map (\<lambda>e. ''projector:'' @ te_id e) es" for es
    by (simp add: entry_keys_def dedup_key_of_def projector_consumer_def)
  moreover have "sort (map (\<lambda>e. ''projector:'' @ te_id e) (od_events doc)) =
      sort (map (\<lambda>e. ''projector:'' @ te_id e) ?es)"
    by (rule sort_perm) simp
  moreover have "distinct (map te_id ?es)"
    using assms by (metis mset_causal_timeline_order mset_eq_imp_distinct_iff mset_map)
  ultimately show ?thesis
    by (simp add: ledger_matches_def migrate_document_def backfill_document_def causal_timeline_order_idem [OF assms])
qed

text \<open>And the replay of a fact it already shows changes nothing.\<close>

lemma replay_after_boot_ignored:
  assumes "distinct (map te_id (od_events doc))"
    and "docs (ev_correlation env) = Some (migrate_document (backfill_document doc))"
    and "ev_id env \<in> te_id ` set (od_events doc)"
  shows "deliver_document env docs = docs"
proof (cases "project_fact env")
  case (Inr d)
  have "dedup_key_of projector_consumer (ev_id env) \<in> set (od_keys (migrate_document (backfill_document doc)))"
    using assms(3) key_in_ledger [OF boot_updates_ledger [OF assms(1)]] by (simp add: migrate_document_def backfill_document_def)
  then show ?thesis
    using assms(2) Inr project_fact_Inr(1) [OF Inr] by (simp add: deliver_document_def projected_def fun_upd_idem)
qed (simp add: deliver_document_def)

lemma status_rank_switch_ranked:
  "0 < status_rank_switch s \<and> (rank_entry e = Some (Some s, r) \<longrightarrow> r = status_rank_switch s)"
  by (cases e; cases s) auto

end
