(* ===== verification/Outbox_Relay.thy ===== *)
theory Outbox_Relay
  imports Table_Rows Fact_Retry
begin

text \<open>
  The outbox relay (apps/orders/src/infrastructure/outbox/outbox-relay.ts, of which Fulfillment
  and Billing hold copies) and the retrying unit of work (drizzle-unit-of-work.ts).  A cycle of
  the relay is one transaction: claim the oldest unpublished rows nobody else has locked, publish
  them, stamp them once the broker has acknowledged all.  What a cycle meets is its
  \<open>relay_world\<close>: the rows another transaction has locked, how the publication ends, and whether
  the transaction fails before it commits.  A refused or timed-out publication may still have
  reached the broker in part (\<open>reached\<close> says which facts).  A row is known by its event id, which
  is unique in the table; its envelope columns are never null, so the mapper's check for missing
  fields has no branch.  Spans and trace headers are left out.
\<close>

section \<open>One cycle\<close>

record relay_config =
  rc_enabled :: bool
  rc_poll_interval :: js_number
  rc_batch_size :: js_number
  rc_publish_timeout :: js_number

text \<open>The argument of each setting is the number its text reads as, when it is set.\<close>

definition load_outbox_relay_config ::
    "string option \<Rightarrow> js_number option \<Rightarrow> js_number option \<Rightarrow> js_number option \<Rightarrow> relay_config" where
  "load_outbox_relay_config enabled poll batch timeout = \<lparr> rc_enabled = (or_else enabled ''true'' \<noteq> ''false''),
     rc_poll_interval = or_else poll (Js_Int 250), rc_batch_size = or_else batch (Js_Int 100),
     rc_publish_timeout = or_else timeout (Js_Int 5000) \<rparr>"

record publishable_fact =
  pf_key :: uid
  pf_envelope :: envelope
  pf_headers :: "(string \<times> string) list"

datatype publish_end =
    Publish_Acknowledged
  | Publish_Refused string "uid \<Rightarrow> bool"
  | Publish_Timed_Out "uid \<Rightarrow> bool"

record relay_world =
  rw_locked :: "uid \<Rightarrow> bool"
  rw_publish :: publish_end
  rw_fails :: bool
  rw_now :: instant

record relay_state =
  rl_rows :: "outbox_row list"
  rl_log :: "publishable_fact list"

definition row_event :: "outbox_row \<Rightarrow> uid" where
  "row_event r = ev_id (ob_envelope r)"

definition unpublished :: "outbox_row list \<Rightarrow> outbox_row list" where
  "unpublished rows = filter (\<lambda>r. ob_published_at r = None) rows"

definition claim_batch :: "nat \<Rightarrow> (uid \<Rightarrow> bool) \<Rightarrow> outbox_row list \<Rightarrow> outbox_row list" where
  "claim_batch n locked rows = take n (sort_key ob_seq (filter (\<lambda>r. \<not> locked (row_event r)) (unpublished rows)))"

definition publishable_envelope :: "envelope \<Rightarrow> publishable_fact" where
  "publishable_envelope env = \<lparr> pf_key = ev_correlation env, pf_envelope = env,
     pf_headers = [(''x-event-type'', event_type_name (ev_type env)), (''content-type'', ''application/json'')] \<rparr>"

definition publishable_of :: "outbox_row \<Rightarrow> publishable_fact" where
  "publishable_of r = publishable_envelope (ob_envelope r)"

text \<open>What the broker's log gains: all of the batch, or the part that got through.\<close>

definition reached_facts :: "publish_end \<Rightarrow> publishable_fact list \<Rightarrow> publishable_fact list" where
  "reached_facts e facts = (case e of
     Publish_Acknowledged \<Rightarrow> facts
   | Publish_Refused _ reached \<Rightarrow> filter (\<lambda>f. reached (ev_id (pf_envelope f))) facts
   | Publish_Timed_Out reached \<Rightarrow> filter (\<lambda>f. reached (ev_id (pf_envelope f))) facts)"

definition stamp_rows :: "instant \<Rightarrow> outbox_row list \<Rightarrow> outbox_row list \<Rightarrow> outbox_row list" where
  "stamp_rows now claimed rows =
     map (\<lambda>r. if row_event r \<in> row_event ` set claimed then r \<lparr> ob_published_at := Some (stored_datetime now) \<rparr> else r) rows"

record relay_result =
  rr_claimed :: nat
  rr_published :: nat

text \<open>The cycle after its claim; \<open>None\<close> is a transaction that failed and rolled back.\<close>

definition finish_batch :: "relay_world \<Rightarrow> outbox_row list \<Rightarrow> relay_state \<Rightarrow> relay_result option \<times> relay_state" where
  "finish_batch w claimed st =
     (if claimed = [] then (Some \<lparr> rr_claimed = 0, rr_published = 0 \<rparr>, st)
      else let facts = map publishable_of claimed;
               st' = st \<lparr> rl_log := rl_log st @ reached_facts (rw_publish w) facts \<rparr> in
        if rw_publish w \<noteq> Publish_Acknowledged then (Some \<lparr> rr_claimed = length claimed, rr_published = 0 \<rparr>, st')
        else if rw_fails w then (None, st')
        else (Some \<lparr> rr_claimed = length claimed, rr_published = length claimed \<rparr>,
          st' \<lparr> rl_rows := stamp_rows (rw_now w) claimed (rl_rows st') \<rparr>))"

definition relay_run_once :: "nat \<Rightarrow> relay_world \<Rightarrow> relay_state \<Rightarrow> relay_result option \<times> relay_state" where
  "relay_run_once n w st = finish_batch w (claim_batch n (rw_locked w) (rl_rows st)) st"

text \<open>The lag gauge, before the claim.\<close>

definition outbox_lag :: "instant \<Rightarrow> outbox_row list \<Rightarrow> int" where
  "outbox_lag now rows = (case sort_key (\<lambda>r. ev_at (ob_envelope r)) (unpublished rows) of
     [] \<Rightarrow> 0 | oldest # _ \<Rightarrow> max 0 (now - ev_at (ob_envelope oldest)))"

definition relay_cycles :: "nat \<Rightarrow> relay_world list \<Rightarrow> relay_state \<Rightarrow> relay_state" where
  "relay_cycles n ws = fold (\<lambda>w st. snd (relay_run_once n w st)) ws"

section \<open>What a cycle does\<close>

definition row_events :: "outbox_row list \<Rightarrow> uid list" where
  "row_events rows = map row_event rows"

lemma unpublished_Nil [simp]: "unpublished [] = []" by (simp add: unpublished_def)

lemma set_claim_batch: "set (claim_batch n locked rows) \<subseteq> set (unpublished rows)"
  by (auto simp: claim_batch_def dest: in_set_takeD)

lemma claim_batch_unlocked: "r \<in> set (claim_batch n locked rows) \<Longrightarrow> \<not> locked (row_event r)"
  by (auto simp: claim_batch_def dest: in_set_takeD)

lemma images_disjoint:
  assumes "\<And>r. r \<in> B \<Longrightarrow> f r \<notin> f ` A"
  shows "f ` A \<inter> f ` B = {}"
proof (rule equals0I)
  fix x assume x: "x \<in> f ` A \<inter> f ` B"
  from IntD2 [OF x] obtain r where r: "x = f r" "r \<in> B" by (rule imageE)
  from assms [OF r(2)] IntD1 [OF x] show False unfolding r(1) by (rule notE)
qed

text \<open>Two relays: what one holds locked the other does not claim.\<close>

lemma claims_disjoint:
  "row_event ` set (claim_batch n locked rows) \<inter> row_event ` set (claim_batch m
     (\<lambda>i. i \<in> row_event ` set (claim_batch n locked rows)) rows) = {}"
  by (rule images_disjoint, drule claim_batch_unlocked)

lemma sorted_claim_batch: "sorted (map ob_seq (claim_batch n locked rows))"
  by (simp add: claim_batch_def sorted_wrt_take flip: take_map)

lemma stamp_rows_envelopes [simp]: "map ob_envelope (stamp_rows now claimed rows) = map ob_envelope rows"
  by (simp add: stamp_rows_def)

lemma row_event_stamped [simp]: "row_event (r \<lparr> ob_published_at := t \<rparr>) = row_event r"
  by (simp add: row_event_def)

lemma stamp_rows_events [simp]: "row_events (stamp_rows now claimed rows) = row_events rows"
  by (simp add: stamp_rows_def row_events_def)

lemma run_once_envelopes [simp]: "map ob_envelope (rl_rows (snd (relay_run_once n w st))) = map ob_envelope (rl_rows st)"
  by (simp add: relay_run_once_def finish_batch_def Let_def)

lemma run_once_events [simp]: "row_events (rl_rows (snd (relay_run_once n w st))) = row_events (rl_rows st)"
  by (simp add: relay_run_once_def finish_batch_def Let_def)

text \<open>The invariant: a stamped row's fact is in the log, and the log holds facts of rows only.\<close>

definition relay_ok :: "relay_state \<Rightarrow> bool" where
  "relay_ok st = (distinct (row_events (rl_rows st)) \<and>
     publishable_of ` {r \<in> set (rl_rows st). ob_published_at r \<noteq> None} \<subseteq> set (rl_log st) \<and>
     set (rl_log st) \<subseteq> publishable_of ` set (rl_rows st))"

lemma publishable_of_stamped [simp]: "publishable_of (r \<lparr> ob_published_at := t \<rparr>) = publishable_of r"
  by (simp add: publishable_of_def)

lemma publishable_image: "publishable_of ` set rows = publishable_envelope ` set (map ob_envelope rows)"
  by (auto simp: publishable_of_def)

lemma publishable_stamp_rows [simp]: "publishable_of ` set (stamp_rows now claimed rows) = publishable_of ` set rows"
  by (simp only: publishable_image stamp_rows_envelopes)

lemma set_reached_facts: "set (reached_facts e facts) \<subseteq> set facts"
  by (auto simp: reached_facts_def split: publish_end.splits)

lemma stamped_rows:
  assumes "distinct (row_events rows)" and "set claimed \<subseteq> set rows"
  shows "{r \<in> set (stamp_rows now claimed rows). ob_published_at r \<noteq> None} \<subseteq>
    {r \<in> set rows. ob_published_at r \<noteq> None} \<union> (\<lambda>r. r \<lparr> ob_published_at := Some (stored_datetime now) \<rparr>) ` set claimed"
proof
  fix r assume "r \<in> {r \<in> set (stamp_rows now claimed rows). ob_published_at r \<noteq> None}"
  then obtain q where q: "q \<in> set rows" "ob_published_at r \<noteq> None"
    "r = (if row_event q \<in> row_event ` set claimed then q \<lparr> ob_published_at := Some (stored_datetime now) \<rparr> else q)"
    by (auto simp: stamp_rows_def)
  show "r \<in> {r \<in> set rows. ob_published_at r \<noteq> None} \<union> (\<lambda>r. r \<lparr> ob_published_at := Some (stored_datetime now) \<rparr>) ` set claimed"
  proof (cases "row_event q \<in> row_event ` set claimed")
    case True
    then obtain c where c: "c \<in> set claimed" "row_event c = row_event q" by auto
    have "inj_on row_event (set rows)" using assms(1) by (simp add: row_events_def distinct_map)
    with c q(1) assms(2) have "c = q" by (auto dest: inj_onD)
    with c(1) q(3) True show ?thesis by simp
  qed (use q in simp)
qed

lemma set_unpublished: "set (unpublished rows) = {r \<in> set rows. ob_published_at r = None}"
  by (auto simp: unpublished_def)

lemma relay_ok_log:
  assumes "relay_ok st" and "set facts \<subseteq> publishable_of ` set (rl_rows st)"
  shows "relay_ok (st \<lparr> rl_log := rl_log st @ facts \<rparr>)"
  using assms by (auto simp: relay_ok_def)

lemma relay_ok_stamp:
  assumes "relay_ok st" and "set claimed \<subseteq> set (rl_rows st)" and "publishable_of ` set claimed \<subseteq> set (rl_log st)"
  shows "relay_ok (st \<lparr> rl_rows := stamp_rows now claimed (rl_rows st) \<rparr>)"
proof -
  have "publishable_of ` {r \<in> set (stamp_rows now claimed (rl_rows st)). ob_published_at r \<noteq> None} \<subseteq>
      publishable_of ` ({r \<in> set (rl_rows st). ob_published_at r \<noteq> None} \<union>
        (\<lambda>r. r \<lparr> ob_published_at := Some (stored_datetime now) \<rparr>) ` set claimed)"
    by (rule image_mono [OF stamped_rows]) (use assms(1,2) in \<open>simp_all add: relay_ok_def\<close>)
  also have "\<dots> \<subseteq> set (rl_log st)"
    using assms(1,3) by (auto simp: relay_ok_def image_Un image_image)
  finally show ?thesis using assms(1) by (simp add: relay_ok_def)
qed

lemma finish_batch_ok:
  assumes "relay_ok st" and "set claimed \<subseteq> set (rl_rows st)"
  shows "relay_ok (snd (finish_batch w claimed st))"
proof -
  let ?facts = "reached_facts (rw_publish w) (map publishable_of claimed)"
  have sent: "relay_ok (st \<lparr> rl_log := rl_log st @ ?facts \<rparr>)"
    using set_reached_facts [of "rw_publish w" "map publishable_of claimed"] assms
    by (intro relay_ok_log) auto
  moreover have "relay_ok (st \<lparr> rl_log := rl_log st @ ?facts, rl_rows := stamp_rows (rw_now w) claimed (rl_rows st) \<rparr>)"
    if "rw_publish w = Publish_Acknowledged"
    using relay_ok_stamp [OF sent, of claimed "rw_now w"] assms(2) that by (simp add: reached_facts_def)
  ultimately show ?thesis using assms(1) by (cases "rw_publish w") (simp_all add: finish_batch_def Let_def)
qed

lemma run_once_ok: "relay_ok st \<Longrightarrow> relay_ok (snd (relay_run_once n w st))"
  unfolding relay_run_once_def using set_claim_batch [of n "rw_locked w" "rl_rows st"]
  by (intro finish_batch_ok) (auto simp: unpublished_def)

lemma cycles_ok: "relay_ok st \<Longrightarrow> relay_ok (relay_cycles n ws st)"
  unfolding relay_cycles_def by (induction ws arbitrary: st) (simp_all add: run_once_ok)

lemma cycles_envelopes [simp]: "map ob_envelope (rl_rows (relay_cycles n ws st)) = map ob_envelope (rl_rows st)"
  unfolding relay_cycles_def by (induction ws arbitrary: st) simp_all

section \<open>The outbox drains\<close>

definition clear_cycle :: "instant \<Rightarrow> relay_world" where
  "clear_cycle now = \<lparr> rw_locked = \<lambda>_. False, rw_publish = Publish_Acknowledged, rw_fails = False, rw_now = now \<rparr>"

lemma unpublished_stamp:
  "unpublished (stamp_rows now claimed rows) = filter (\<lambda>r. row_event r \<notin> row_event ` set claimed) (unpublished rows)"
  by (induction rows) (auto simp: unpublished_def stamp_rows_def)

lemma filter_removes:
  assumes "distinct (map f xs)" and "set ys \<subseteq> set xs" and "distinct ys"
  shows "length (filter (\<lambda>x. f x \<notin> f ` set ys) xs) = length xs - length ys"
proof -
  have inj: "inj_on f (set xs)" and dist: "distinct xs" using assms(1) by (simp_all add: distinct_map)
  have "set (filter (\<lambda>x. f x \<notin> f ` set ys) xs) = set xs - set ys"
    using inj assms(2) by (auto simp: inj_on_def)
  then have "length (filter (\<lambda>x. f x \<notin> f ` set ys) xs) = card (set xs - set ys)"
    using dist by (metis distinct_card distinct_filter)
  also have "\<dots> = length xs - length ys"
    using assms(2,3) dist by (simp add: card_Diff_subset distinct_card)
  finally show ?thesis .
qed

lemma distinct_sort_claim: "distinct rows \<Longrightarrow> distinct (claim_batch n locked rows)"
  by (simp add: claim_batch_def unpublished_def)

lemma clear_cycle_progress:
  assumes "distinct (row_events (rl_rows st))"
  shows "length (unpublished (rl_rows (snd (relay_run_once n (clear_cycle now) st)))) =
    length (unpublished (rl_rows st)) - n"
proof -
  let ?rows = "rl_rows st" and ?claimed = "claim_batch n (\<lambda>_. False) (rl_rows st)"
  have dist: "distinct ?rows" using assms by (simp add: row_events_def distinct_map)
  have "distinct (map row_event (unpublished ?rows))"
    using assms by (simp add: row_events_def unpublished_def distinct_map inj_on_def)
  then have "length (unpublished (stamp_rows now ?claimed ?rows)) = length (unpublished ?rows) - length ?claimed"
    unfolding unpublished_stamp using set_claim_batch distinct_sort_claim [OF dist] by (rule filter_removes)
  moreover have "length ?claimed = min (length (unpublished ?rows)) n"
    by (simp add: claim_batch_def)
  moreover from this have "?claimed = [] \<Longrightarrow> length (unpublished ?rows) - n = length (unpublished ?rows)"
    by auto
  ultimately show ?thesis
    by (auto simp: relay_run_once_def finish_batch_def clear_cycle_def reached_facts_def Let_def)
qed

lemma clear_cycles_progress:
  assumes "distinct (row_events (rl_rows st))"
  shows "length (unpublished (rl_rows (relay_cycles n (map clear_cycle ts) st))) =
    length (unpublished (rl_rows st)) - length ts * n"
  using assms unfolding relay_cycles_def
  by (induction ts arbitrary: st) (simp_all add: clear_cycle_progress)

text \<open>
  C12: no fact of the outbox is lost.  Start from an outbox in which every stamped fact has been
  published, let the relay run any cycles, with locks of other relays, refused and timed-out
  publications, partial deliveries and failed transactions, and then enough cycles in which the
  broker answers for the batch size to cover the rows.  Then every row is stamped, no row was
  lost or altered, the broker's log holds the fact of every row under its correlation id, and
  nothing else.
\<close>

theorem relay_publishes_every_fact:
  assumes "relay_ok st" and "length (rl_rows st) \<le> length ts * n"
  shows "let st' = relay_cycles n (map clear_cycle ts) (relay_cycles n ws st) in
    unpublished (rl_rows st') = [] \<and> map ob_envelope (rl_rows st') = map ob_envelope (rl_rows st) \<and>
    set (rl_log st') = publishable_of ` set (rl_rows st)"
proof -
  let ?mid = "relay_cycles n ws st"
  let ?fin = "relay_cycles n (map clear_cycle ts) ?mid"
  have ok: "relay_ok ?mid" "relay_ok ?fin" using assms(1) by (simp_all add: cycles_ok)
  have rows: "map ob_envelope (rl_rows ?fin) = map ob_envelope (rl_rows st)" by simp
  have "length (unpublished (rl_rows ?mid)) \<le> length (rl_rows ?mid)" by (simp add: unpublished_def)
  also have "\<dots> = length (rl_rows st)" using cycles_envelopes [of n ws st] by (metis length_map)
  finally have drained: "unpublished (rl_rows ?fin) = []"
    using ok(1) assms(2) by (simp add: clear_cycles_progress relay_ok_def flip: length_0_conv)
  then have "{r \<in> set (rl_rows ?fin). ob_published_at r \<noteq> None} = set (rl_rows ?fin)"
    by (auto simp: unpublished_def filter_empty_conv)
  with ok(2) have "set (rl_log ?fin) = publishable_of ` set (rl_rows ?fin)"
    by (auto simp: relay_ok_def)
  also have "\<dots> = publishable_of ` set (rl_rows st)"
    by (simp only: publishable_image rows)
  finally show ?thesis using drained rows by (simp add: Let_def)
qed

section \<open>Two relays\<close>

text \<open>
  A second relay skips the rows the first has locked, so of two rows of one transaction it may
  publish the later one while the first relay has yet to publish the earlier one.
\<close>

lemma concurrent_relays_reorder:
  assumes "ob_seq r1 < ob_seq r2" and "row_event r1 \<noteq> row_event r2"
    and "ob_published_at r1 = None" and "ob_published_at r2 = None"
    and "rl_rows st = [r1, r2]" and "rl_log st = []"
  shows "let a = claim_batch 1 (\<lambda>_. False) (rl_rows st);
      b = (clear_cycle t) \<lparr> rw_locked := \<lambda>i. i \<in> row_event ` set a \<rparr>;
      st1 = snd (relay_run_once 1 b st);
      st2 = snd (finish_batch (clear_cycle t') a st1) in
    a = [r1] \<and> rl_log st2 = [publishable_of r2, publishable_of r1]"
  using assms
  by (simp add: claim_batch_def unpublished_def relay_run_once_def finish_batch_def clear_cycle_def reached_facts_def Let_def)

text \<open>One relay alone publishes in the order of insertion.\<close>

lemma lone_relay_in_order:
  assumes "distinct (row_events (rl_rows st))"
  shows "\<exists>batch. rl_log (snd (relay_run_once n (clear_cycle t) st)) = rl_log st @ map publishable_of batch \<and>
    batch = claim_batch n (\<lambda>_. False) (rl_rows st) \<and> sorted (map ob_seq batch)"
  by (auto simp: relay_run_once_def finish_batch_def clear_cycle_def reached_facts_def Let_def sorted_claim_batch)

section \<open>The retrying unit of work\<close>

datatype 'e driver_error = Lock_Deadlock | Lock_Wait_Timeout | Other_Error 'e

definition retryable_lock_error :: "'e driver_error \<Rightarrow> bool" where
  "retryable_lock_error e = (case e of Other_Error _ \<Rightarrow> False | _ \<Rightarrow> True)"

definition max_attempts :: nat where
  "max_attempts = 3"

definition retry_backoff_ms :: "nat list" where
  "retry_backoff_ms = [10, 25]"

text \<open>The outcome of the work at its \<open>k\<close>-th attempt may depend on \<open>k\<close>; a failed attempt is rolled back.\<close>

function execute_unit ::
    "(nat \<Rightarrow> 'db \<Rightarrow> 'e driver_error + 'a \<times> 'db) \<Rightarrow> nat \<Rightarrow> 'db \<Rightarrow> ('e driver_error + 'a) \<times> nat list \<times> 'db" where
  "execute_unit work attempt db = (case work attempt db of
     Inr (x, db') \<Rightarrow> (Inr x, [], db')
   | Inl e \<Rightarrow> if \<not> retryable_lock_error e \<or> max_attempts \<le> attempt then (Inl e, [], db)
       else (let (res, delays, db') = execute_unit work (Suc attempt) db in
         (res, retry_backoff_ms ! (attempt - 1) # delays, db')))"
  by pat_completeness auto

termination
  by (relation "measure (\<lambda>(_, attempt, _). max_attempts - attempt)") auto

declare execute_unit.simps [simp del]

definition lock_failure :: "'e driver_error + 'a \<times> 'db \<Rightarrow> bool" where
  "lock_failure r = (case r of Inl e \<Rightarrow> retryable_lock_error e | Inr _ \<Rightarrow> False)"

lemma execute_unit_last:
  assumes "\<not> lock_failure (work k db) \<or> max_attempts \<le> k"
  shows "execute_unit work k db = (case work k db of Inr (x, db') \<Rightarrow> (Inr x, [], db') | Inl e \<Rightarrow> (Inl e, [], db))"
  using assms by (subst execute_unit.simps) (auto simp: lock_failure_def split: sum.split)

lemma execute_unit_retry:
  assumes "lock_failure (work k db)" and "k < max_attempts"
  shows "execute_unit work k db =
    (let (res, delays, db') = execute_unit work (Suc k) db in (res, retry_backoff_ms ! (k - 1) # delays, db'))"
  using assms by (subst execute_unit.simps) (auto simp: lock_failure_def split: sum.splits)

text \<open>
  The unit of work ends after at most three attempts: all before the last failed on a lock and
  left no trace, the last one decides, and the pauses are the configured ones.
\<close>

lemma execute_unit_ends:
  obtains k where "1 \<le> k" and "k \<le> max_attempts" and "\<And>j. \<lbrakk> 1 \<le> j; j < k \<rbrakk> \<Longrightarrow> lock_failure (work j db)"
    and "k = max_attempts \<or> \<not> lock_failure (work k db)"
    and "execute_unit work 1 db = (case work k db of
      Inr (x, db') \<Rightarrow> (Inr x, take (k - 1) retry_backoff_ms, db')
    | Inl e \<Rightarrow> (Inl e, take (k - 1) retry_backoff_ms, db))"
proof -
  consider "\<not> lock_failure (work 1 db)" | "lock_failure (work 1 db)" "\<not> lock_failure (work 2 db)"
    | "lock_failure (work 1 db)" "lock_failure (work 2 db)" by blast
  then show thesis
  proof cases
    case 1
    then show thesis
      by (intro that [of 1]) (auto simp: max_attempts_def execute_unit_last split: sum.split)
  next
    case 2
    have "execute_unit work 1 db = (let (res, delays, db') = execute_unit work 2 db in (res, 10 # delays, db'))"
      using execute_unit_retry [of work 1 db] 2 by (simp add: max_attempts_def retry_backoff_ms_def numeral_2_eq_2)
    then show thesis using 2
      by (intro that [of 2]) (auto simp: max_attempts_def retry_backoff_ms_def execute_unit_last less_Suc_eq
          numeral_2_eq_2 split: sum.split)
  next
    case 3
    have "execute_unit work 1 db = (let (res, delays, db') = execute_unit work 2 db in (res, 10 # delays, db'))"
      using execute_unit_retry [of work 1 db] 3 by (simp add: max_attempts_def retry_backoff_ms_def numeral_2_eq_2)
    moreover have "execute_unit work 2 db = (let (res, delays, db') = execute_unit work 3 db in (res, 25 # delays, db'))"
      using execute_unit_retry [of work 2 db] 3 by (simp add: max_attempts_def retry_backoff_ms_def numeral_3_eq_3)
    moreover have "execute_unit work 3 db = (case work 3 db of Inr (x, db') \<Rightarrow> (Inr x, [], db') | Inl e \<Rightarrow> (Inl e, [], db))"
      by (rule execute_unit_last) (simp add: max_attempts_def)
    moreover have "lock_failure (work j db)" if "1 \<le> j" "j < 3" for j
    proof -
      have "j = 1 \<or> j = 2" using that by linarith
      with 3 show ?thesis by blast
    qed
    ultimately show thesis
      by (intro that [of 3]) (auto simp: max_attempts_def retry_backoff_ms_def split: sum.split)
  qed
qed

end
