(* ===== verification/Projector_Examples.thy ===== *)
theory Projector_Examples
  imports Projector_Intake Outbox_Relay
begin

text \<open>Concrete facts of one order: the witnesses of the projector's and the relay's properties.\<close>

definition example_order_fact :: "uid \<Rightarrow> event_type \<Rightarrow> instant \<Rightarrow> uid \<Rightarrow> payload \<Rightarrow> envelope" where
  "example_order_fact i e t cause pl = \<lparr> ev_id = i, ev_type = e, ev_aggregate = ''o1'', ev_correlation = ''o1'',
     ev_causation = cause, ev_at = t, ev_payload = pl \<rparr>"

definition example_placed_fact :: envelope where
  "example_placed_fact = example_order_fact ''f1'' Order_Placed 100 ''cmd''
     (Placed_P \<lparr> pp_reference = ''ORD-000001'', pp_retailer = ''RET'', pp_company = ''COM'', pp_buyer_gln = ''b'',
        pp_supplier_gln = ''s'', pp_currency = ''EUR'', pp_order_date = 90,
        pp_lines = [\<lparr> lp_product = ''P'', lp_description = ''p'', lp_quantity = 2, lp_unit_price = 500, lp_discount = 0 \<rparr>],
        pp_initial_amount = 1000, pp_initial_discount = 0, pp_total = 1000, pp_notes = None \<rparr>)"

definition example_reserved_fact :: envelope where
  "example_reserved_fact = example_order_fact ''f2'' Stock_Reserved_Fact 200 ''f1''
     (Stock_Reserved_P \<lparr> srv_reference = ''ORD-000001'', srv_company = ''COM'', srv_retailer = None,
        srv_reservations = [\<lparr> rr_id = ''r'', rr_product = ''P'', rr_units = 2 \<rparr>] \<rparr>)"

text \<open>Two facts of one instant, of which the one with the smaller identifier is the effect.\<close>

definition example_paid_fact :: envelope where
  "example_paid_fact = example_order_fact ''f9'' Payment_Received 300 ''f2''
     (Payment_P \<lparr> py_reference = ''ORD-000001'', py_invoice_reference = ''INV'', py_payment_reference = ''PAY'',
        py_currency = ''EUR'', py_amount = 1000, py_value_date = 300, py_source = By_Operator \<rparr>)"

definition example_completed_fact :: envelope where
  "example_completed_fact = example_order_fact ''f3'' Order_Completed 300 ''f9''
     (Completed_P \<lparr> cl_reference = ''ORD-000001'', cl_retailer = ''RET'', cl_company = ''COM'', cl_currency = ''EUR'',
        cl_total = 1000, cl_at = 300 \<rparr>)"

lemmas example_facts = example_placed_fact_def example_reserved_fact_def example_paid_fact_def example_completed_fact_def

lemma example_facts_projected:
  "list_all (\<lambda>e. is_ok (project_fact e)) [example_placed_fact, example_reserved_fact, example_paid_fact, example_completed_fact]"
  by code_simp

theorem projection_converges_witness:
  "ps_documents (fold (\<lambda>e st. snd (projection_apply (clear_world (\<lambda>_. None)) e st))
      [example_placed_fact, example_paid_fact, example_completed_fact] empty_read_model) =
   ps_documents (fold (\<lambda>e st. snd (projection_apply (clear_world (\<lambda>_. Some ''bus down'')) e st))
      [example_completed_fact, example_paid_fact, example_completed_fact, example_placed_fact] empty_read_model)"
proof (rule projection_converges)
  show "documents_ok (ps_documents empty_read_model)" by (simp add: documents_ok_def empty_read_model_def)
  show "\<forall>e\<in>set [example_placed_fact, example_paid_fact, example_completed_fact]. is_ok (project_fact e)"
    using example_facts_projected by simp
  show "\<forall>a\<in>set [example_placed_fact, example_paid_fact, example_completed_fact].
      \<forall>b\<in>set [example_placed_fact, example_paid_fact, example_completed_fact]. a \<noteq> b \<longrightarrow> facts_agree a b"
    by (simp add: facts_agree_def example_facts example_order_fact_def)
qed auto

text \<open>The cause arrives after its effect and is still put before it.\<close>

definition example_run :: "(mongo_world \<times> envelope) list" where
  "example_run = map (\<lambda>e. (clear_world (\<lambda>_. None), e)) [example_completed_fact, example_paid_fact]"

definition example_document :: order_document where
  "example_document = the (ps_documents (read_model_run example_run empty_read_model) ''o1'')"

lemma example_document_read:
  "ps_documents (read_model_run example_run empty_read_model) ''o1'' \<noteq> None"
  "map te_id (od_events example_document) = [''f9'', ''f3'']"
  "map te_causation (od_events example_document) = [Some ''f2'', Some ''f9'']"
  "map te_at (od_events example_document) = [300, 300]"
  "od_status example_document = Completed"
  by code_simp+

lemma example_acyclic: "acyclic (cause_edges (od_events example_document))"
proof -
  obtain a b where e: "od_events example_document = [a, b]"
    using example_document_read(2) by (auto simp: map_eq_Cons_conv)
  have "cause_edges (od_events example_document) = {(a, b)}"
    using example_document_read(2-4) unfolding e by (auto simp: cause_edges_def is_cause_def)
  moreover have "a \<noteq> b" using example_document_read(2) unfolding e by auto
  moreover have "acyclic ({} :: (timeline_entry \<times> timeline_entry) set)" by (simp add: acyclic_def)
  ultimately show ?thesis by (simp add: acyclic_insert)
qed

theorem timeline_depth_settles_witness:
  "relaxation_round (depth_fixpoint (od_events example_document)) = depth_fixpoint (od_events example_document) \<and>
   is_cause (od_events example_document ! 0) (od_events example_document ! 1) \<and>
   stands_before (od_events example_document) (od_events example_document ! 0) (od_events example_document ! 1)"
proof -
  have doc: "ps_documents (read_model_run example_run empty_read_model) ''o1'' = Some example_document"
    using example_document_read(1) by (simp add: example_document_def)
  obtain a b where e: "od_events example_document = [a, b]"
    using example_document_read(2) by (auto simp: map_eq_Cons_conv)
  have cause: "is_cause a b" using example_document_read(2-4) unfolding e by (simp add: is_cause_def)
  from timeline_depth_settles [OF doc example_acyclic] cause show ?thesis unfolding e by simp
qed

section \<open>What a signal names\<close>

text \<open>The placement arrives after the reservation it caused.\<close>

definition example_late_state :: projector_state where
  "example_late_state = read_model_run [(clear_world (\<lambda>_. None), example_reserved_fact)] empty_read_model"

theorem late_fact_signalled_as_another_witness:
  "\<exists>doc' s1 s2. fst (projection_apply (clear_world (\<lambda>_. None)) example_placed_fact example_late_state) = Inr Applied \<and>
    ps_documents (snd (projection_apply (clear_world (\<lambda>_. None)) example_placed_fact example_late_state)) ''o1'' = Some doc' \<and>
    ''f1'' \<in> te_id ` set (od_events doc') \<and>
    ps_signals (snd (projection_apply (clear_world (\<lambda>_. None)) example_placed_fact example_late_state)) =
      ps_signals example_late_state @ [s1, s2] \<and>
    signal_event s1 = ''f2'' \<and> signal_event s2 = ''f2''"
proof -
  let ?doc = "the (ps_documents example_late_state ''o1'')"
  have read: "ps_documents example_late_state ''o1'' \<noteq> None" "map te_id (od_events ?doc) = [''f2'']"
    "map te_at (od_events ?doc) = [200]"
    by code_simp+
  obtain e where e: "od_events ?doc = [e]" "te_id e = ''f2''" "te_at e = 200"
    using read(2,3) by (auto simp: map_eq_Cons_conv)
  obtain d where d: "project_fact example_placed_fact = Inr d"
    using example_facts_projected by (auto simp: is_ok_iff)
  have corr: "ev_correlation example_placed_fact = ''o1''" "ev_id example_placed_fact = ''f1''" "ev_at example_placed_fact = 100"
    by (simp_all add: example_placed_fact_def example_order_fact_def)
  have ok: "documents_ok (ps_documents example_late_state)"
    unfolding example_late_state_def read_model_run_def
    using projection_apply_ok [of empty_read_model] by (simp add: documents_ok_def empty_read_model_def)
  have doc: "ps_documents example_late_state (ev_correlation example_placed_fact) = Some ?doc"
    using read(1) by (simp add: corr)
  from late_fact_signalled_as_another [OF ok doc d, of e] e corr obtain doc' s1 s2 where
    r: "fst (projection_apply (clear_world (\<lambda>_. None)) example_placed_fact example_late_state) = Inr Applied"
      "ps_documents (snd (projection_apply (clear_world (\<lambda>_. None)) example_placed_fact example_late_state)) ''o1'' = Some doc'"
      "pd_entry d \<in> set (od_events doc')"
      "ps_signals (snd (projection_apply (clear_world (\<lambda>_. None)) example_placed_fact example_late_state)) =
        ps_signals example_late_state @ [s1, s2]"
      "signal_event s1 = signal_event s2" "signal_event s1 = ''f2''"
    by auto
  have "''f1'' \<in> te_id ` set (od_events doc')"
    using r(3) project_fact_Inr(2) [OF d] by (metis corr(2) image_eqI)
  with r show ?thesis by auto
qed

section \<open>The relay\<close>

definition example_outbox :: relay_state where
  "example_outbox = \<lparr> rl_rows = outbox_rows 400 7 [example_placed_fact, example_completed_fact], rl_log = [] \<rparr>"

text \<open>First a timed-out cycle that reached the broker in part, then two that succeed.\<close>

definition example_bad_cycle :: relay_world where
  "example_bad_cycle = \<lparr> rw_locked = \<lambda>_. False, rw_publish = Publish_Timed_Out (\<lambda>i. i = ''f1''), rw_fails = False, rw_now = 500 \<rparr>"

theorem relay_publishes_every_fact_witness:
  "let st' = relay_cycles 1 (map clear_cycle [600, 700]) (relay_cycles 1 [example_bad_cycle] example_outbox) in
    unpublished (rl_rows st') = [] \<and>
    map ob_envelope (rl_rows st') = [example_placed_fact, example_completed_fact] \<and>
    set (rl_log st') = {publishable_envelope example_placed_fact, publishable_envelope example_completed_fact}"
proof -
  have "relay_ok example_outbox"
    by (auto simp: relay_ok_def example_outbox_def row_events_def row_event_def example_facts example_order_fact_def)
  moreover have "length (rl_rows example_outbox) \<le> length [600::int, 700] * 1"
    by (simp add: example_outbox_def)
  ultimately show ?thesis
    using relay_publishes_every_fact [of example_outbox "[600, 700]" 1 "[example_bad_cycle]"]
    by (simp add: Let_def publishable_image) (simp add: example_outbox_def)
qed

end
