(* ===== verification/Notify_Format.thy ===== *)
theory Notify_Format
  imports Fact_Projection
begin

text \<open>
  The mails of the notification service (apps/notifications/src/infrastructure/templates): the
  formatting helpers and one builder per notified fact.  An instant of a payload is an ISO text
  on the wire; \<open>iso_text\<close> is that text, a parameter.  A text is its UTF-8 encoding.
\<close>

record notification_message =
  nm_to :: string
  nm_subject :: string
  nm_text :: string
  nm_html :: string

section \<open>Formatting\<close>

fun join_text :: "string \<Rightarrow> string list \<Rightarrow> string" where
  "join_text sep [] = []"
| "join_text sep [x] = x"
| "join_text sep (x # y # xs) = x @ sep @ join_text sep (y # xs)"

definition recipient_for :: "string \<Rightarrow> string" where
  "recipient_for i = lower_case i @ ''@retailer.order-to-cash.example''"

definition subject_with_correlation_id :: "string \<Rightarrow> string \<Rightarrow> string" where
  "subject_with_correlation_id summary correlation =
     ''[order-to-cash] '' @ summary @ '' (correlationId: '' @ correlation @ '')''"

definition html_escape :: "char \<Rightarrow> string" where
  "html_escape c =
     (if c = CHR ''&'' then ''&amp;'' else if c = CHR ''<'' then ''&lt;'' else if c = CHR ''>'' then ''&gt;''
      else if c = CHR 0x22 then ''&quot;'' else if c = CHR 0x27 then ''&#39;'' else [c])"

definition escape_html :: "string \<Rightarrow> string" where
  "escape_html s = concat (map html_escape s)"

definition newline :: string where
  "newline = [CHR 0x0A]"

text \<open>The dash of the texts is U+2014.\<close>

definition mail_dash :: string where
  "mail_dash = [CHR 0xE2, CHR 0x80, CHR 0x94]"

section \<open>The templates\<close>

definition build_order_placed_message :: "(instant \<Rightarrow> string) \<Rightarrow> uid \<Rightarrow> placed_payload \<Rightarrow> notification_message" where
  "build_order_placed_message iso_text corr p = (let sum_text = format_money (pp_total p) (pp_currency p) in
     \<lparr> nm_to = recipient_for (pp_retailer p),
       nm_subject = subject_with_correlation_id (''Order '' @ pp_reference p @ '' placed'') corr,
       nm_text = join_text newline
         [''Order '' @ pp_reference p @ '' has been placed.'', ''Retailer: '' @ pp_retailer p,
          ''Company: '' @ pp_company p, ''Total: '' @ sum_text, ''Order date: '' @ iso_text (pp_order_date p),
          ''Correlation id: '' @ corr],
       nm_html = join_text newline
         [''<p>Order <strong>'' @ escape_html (pp_reference p) @ ''</strong> has been placed.</p>'', ''<ul>'',
          ''<li>Retailer: '' @ escape_html (pp_retailer p) @ ''</li>'',
          ''<li>Company: '' @ escape_html (pp_company p) @ ''</li>'',
          ''<li>Total: '' @ escape_html sum_text @ ''</li>'',
          ''<li>Order date: '' @ escape_html (iso_text (pp_order_date p)) @ ''</li>'', ''</ul>'',
          ''<p>Correlation id: '' @ escape_html corr @ ''</p>''] \<rparr>)"

definition build_order_confirmed_message :: "(instant \<Rightarrow> string) \<Rightarrow> uid \<Rightarrow> closing_payload \<Rightarrow> notification_message" where
  "build_order_confirmed_message iso_text corr p = (let sum_text = format_money (cl_total p) (cl_currency p) in
     \<lparr> nm_to = recipient_for (cl_retailer p),
       nm_subject = subject_with_correlation_id (''Order '' @ cl_reference p @ '' confirmed'') corr,
       nm_text = join_text newline
         [''Order '' @ cl_reference p @ '' has been confirmed '' @ mail_dash @ '' stock reserved and credit approved.'',
          ''Retailer: '' @ cl_retailer p, ''Company: '' @ cl_company p, ''Total: '' @ sum_text,
          ''Confirmed at: '' @ iso_text (cl_at p), ''Correlation id: '' @ corr],
       nm_html = join_text newline
         [''<p>Order <strong>'' @ escape_html (cl_reference p) @ ''</strong> has been confirmed '' @ mail_dash @
            '' stock reserved and credit approved.</p>'', ''<ul>'',
          ''<li>Retailer: '' @ escape_html (cl_retailer p) @ ''</li>'',
          ''<li>Company: '' @ escape_html (cl_company p) @ ''</li>'',
          ''<li>Total: '' @ escape_html sum_text @ ''</li>'',
          ''<li>Confirmed at: '' @ escape_html (iso_text (cl_at p)) @ ''</li>'', ''</ul>'',
          ''<p>Correlation id: '' @ escape_html corr @ ''</p>''] \<rparr>)"

definition build_order_completed_message :: "(instant \<Rightarrow> string) \<Rightarrow> uid \<Rightarrow> closing_payload \<Rightarrow> notification_message" where
  "build_order_completed_message iso_text corr p = (let sum_text = format_money (cl_total p) (cl_currency p) in
     \<lparr> nm_to = recipient_for (cl_retailer p),
       nm_subject = subject_with_correlation_id (''Order '' @ cl_reference p @ '' completed'') corr,
       nm_text = join_text newline
         [''Order '' @ cl_reference p @ '' is complete '' @ mail_dash @ '' despatched, invoiced and paid.'',
          ''Retailer: '' @ cl_retailer p, ''Company: '' @ cl_company p, ''Total: '' @ sum_text,
          ''Completed at: '' @ iso_text (cl_at p), ''Correlation id: '' @ corr],
       nm_html = join_text newline
         [''<p>Order <strong>'' @ escape_html (cl_reference p) @ ''</strong> is complete '' @ mail_dash @
            '' despatched, invoiced and paid.</p>'', ''<ul>'',
          ''<li>Retailer: '' @ escape_html (cl_retailer p) @ ''</li>'',
          ''<li>Company: '' @ escape_html (cl_company p) @ ''</li>'',
          ''<li>Total: '' @ escape_html sum_text @ ''</li>'',
          ''<li>Completed at: '' @ escape_html (iso_text (cl_at p)) @ ''</li>'', ''</ul>'',
          ''<p>Correlation id: '' @ escape_html corr @ ''</p>''] \<rparr>)"

definition build_order_despatched_message :: "(instant \<Rightarrow> string) \<Rightarrow> uid \<Rightarrow> despatched_payload \<Rightarrow> notification_message" where
  "build_order_despatched_message iso_text corr p = (let
     line_summary = join_text '', '' (map (\<lambda>l. ul_product l @ '' x'' @ int_text (ul_units l)) (dp_lines p)) in
     \<lparr> nm_to = recipient_for (dp_retailer p),
       nm_subject = subject_with_correlation_id
         (''Order '' @ dp_reference p @ '' despatched ('' @ dp_despatch_reference p @ '')'') corr,
       nm_text = join_text newline
         [''Order '' @ dp_reference p @ '' has been despatched.'', ''Despatch reference: '' @ dp_despatch_reference p,
          ''Despatch date: '' @ iso_text (dp_date p), ''Retailer: '' @ dp_retailer p, ''Company: '' @ dp_company p,
          ''Lines: '' @ line_summary, ''Correlation id: '' @ corr],
       nm_html = join_text newline
         [''<p>Order <strong>'' @ escape_html (dp_reference p) @ ''</strong> has been despatched.</p>'', ''<ul>'',
          ''<li>Despatch reference: '' @ escape_html (dp_despatch_reference p) @ ''</li>'',
          ''<li>Despatch date: '' @ escape_html (iso_text (dp_date p)) @ ''</li>'',
          ''<li>Retailer: '' @ escape_html (dp_retailer p) @ ''</li>'',
          ''<li>Company: '' @ escape_html (dp_company p) @ ''</li>'',
          ''<li>Lines: '' @ escape_html line_summary @ ''</li>'', ''</ul>'',
          ''<p>Correlation id: '' @ escape_html corr @ ''</p>''] \<rparr>)"

definition build_invoice_issued_message :: "(instant \<Rightarrow> string) \<Rightarrow> uid \<Rightarrow> invoice_issued_payload \<Rightarrow> notification_message" where
  "build_invoice_issued_message iso_text corr p = (let sum_text = format_money (ip_total p) (ip_currency p) in
     \<lparr> nm_to = recipient_for (ip_retailer p),
       nm_subject = subject_with_correlation_id (''Invoice '' @ ip_invoice_reference p @ '' issued'') corr,
       nm_text = join_text newline
         [''Invoice '' @ ip_invoice_reference p @ '' has been issued for order '' @ ip_reference p @ ''.'',
          ''Retailer: '' @ ip_retailer p, ''Company: '' @ ip_company p, ''Total: '' @ sum_text,
          ''Invoice date: '' @ iso_text (ip_date p), ''Correlation id: '' @ corr],
       nm_html = join_text newline
         [''<p>Invoice <strong>'' @ escape_html (ip_invoice_reference p) @ ''</strong> has been issued for order '' @
            escape_html (ip_reference p) @ ''.</p>'', ''<ul>'',
          ''<li>Retailer: '' @ escape_html (ip_retailer p) @ ''</li>'',
          ''<li>Company: '' @ escape_html (ip_company p) @ ''</li>'',
          ''<li>Total: '' @ escape_html sum_text @ ''</li>'',
          ''<li>Invoice date: '' @ escape_html (iso_text (ip_date p)) @ ''</li>'', ''</ul>'',
          ''<p>Correlation id: '' @ escape_html corr @ ''</p>''] \<rparr>)"

fun payment_source_text :: "payment_source \<Rightarrow> string" where
  "payment_source_text By_Operator = ''operator''"
| "payment_source_text By_Robot = ''robot''"
| "payment_source_text By_Test = ''test''"

definition build_payment_received_message :: "(instant \<Rightarrow> string) \<Rightarrow> uid \<Rightarrow> payment_payload \<Rightarrow> notification_message" where
  "build_payment_received_message iso_text corr p = (let paid = format_money (py_amount p) (py_currency p) in
     \<lparr> nm_to = recipient_for (py_reference p),
       nm_subject = subject_with_correlation_id (''Payment received for invoice '' @ py_invoice_reference p) corr,
       nm_text = join_text newline
         [''Payment '' @ py_payment_reference p @ '' has been received for invoice '' @ py_invoice_reference p @
            '' (order '' @ py_reference p @ '').'',
          ''Amount: '' @ paid, ''Value date: '' @ iso_text (py_value_date p),
          ''Source: '' @ payment_source_text (py_source p), ''Correlation id: '' @ corr],
       nm_html = join_text newline
         [''<p>Payment <strong>'' @ escape_html (py_payment_reference p) @ ''</strong> has been received for invoice '' @
            escape_html (py_invoice_reference p) @ '' (order '' @ escape_html (py_reference p) @ '').</p>'', ''<ul>'',
          ''<li>Amount: '' @ escape_html paid @ ''</li>'',
          ''<li>Value date: '' @ escape_html (iso_text (py_value_date p)) @ ''</li>'',
          ''<li>Source: '' @ escape_html (payment_source_text (py_source p)) @ ''</li>'', ''</ul>'',
          ''<p>Correlation id: '' @ escape_html corr @ ''</p>''] \<rparr>)"

fun compensation_kind_text :: "compensation_kind \<Rightarrow> string" where
  "compensation_kind_text Step_Stock_Released = ''stock_released''"
| "compensation_kind_text Step_Credit_Released = ''credit_released''"

definition build_order_cancelled_message :: "(instant \<Rightarrow> string) \<Rightarrow> uid \<Rightarrow> cancelled_payload \<Rightarrow> notification_message" where
  "build_order_cancelled_message iso_text corr p = (let
     summary = (if cp_steps p = [] then ''none''
       else join_text '', '' (map (compensation_kind_text \<circ> cs_step) (cp_steps p))) in
     \<lparr> nm_to = recipient_for (cp_retailer p),
       nm_subject = subject_with_correlation_id (''Order '' @ cp_reference p @ '' cancelled'') corr,
       nm_text = join_text newline
         [''Order '' @ cp_reference p @ '' has been cancelled.'', ''Reason: '' @ cancellation_reason_text (cp_reason p),
          ''Retailer: '' @ cp_retailer p, ''Company: '' @ cp_company p, ''Cancelled at: '' @ iso_text (cp_at p),
          ''Compensation steps: '' @ summary, ''Correlation id: '' @ corr],
       nm_html = join_text newline
         [''<p>Order <strong>'' @ escape_html (cp_reference p) @ ''</strong> has been cancelled.</p>'', ''<ul>'',
          ''<li>Reason: '' @ escape_html (cancellation_reason_text (cp_reason p)) @ ''</li>'',
          ''<li>Retailer: '' @ escape_html (cp_retailer p) @ ''</li>'',
          ''<li>Company: '' @ escape_html (cp_company p) @ ''</li>'',
          ''<li>Cancelled at: '' @ escape_html (iso_text (cp_at p)) @ ''</li>'',
          ''<li>Compensation steps: '' @ escape_html summary @ ''</li>'', ''</ul>'',
          ''<p>Correlation id: '' @ escape_html corr @ ''</p>''] \<rparr>)"

section \<open>The mail of a fact\<close>

datatype notify_command =
    Notify_Order_Placed | Notify_Order_Confirmed | Notify_Order_Despatched | Notify_Invoice_Issued
  | Notify_Payment_Received | Notify_Order_Completed | Notify_Order_Cancelled

fun notify_command_for :: "event_type \<Rightarrow> notify_command option" where
  "notify_command_for Order_Placed = Some Notify_Order_Placed"
| "notify_command_for Order_Confirmed = Some Notify_Order_Confirmed"
| "notify_command_for Order_Despatched = Some Notify_Order_Despatched"
| "notify_command_for Invoice_Issued = Some Notify_Invoice_Issued"
| "notify_command_for Payment_Received = Some Notify_Payment_Received"
| "notify_command_for Order_Completed = Some Notify_Order_Completed"
| "notify_command_for Order_Cancelled = Some Notify_Order_Cancelled"
| "notify_command_for _ = None"

text \<open>The handler of a command; a payload of another type is outside the contract.\<close>

definition build_message :: "(instant \<Rightarrow> string) \<Rightarrow> notify_command \<Rightarrow> envelope \<Rightarrow> notification_message option" where
  "build_message iso_text k env = (case (k, ev_payload env) of
     (Notify_Order_Placed, Placed_P p) \<Rightarrow> Some (build_order_placed_message iso_text (ev_correlation env) p)
   | (Notify_Order_Confirmed, Confirmed_P p) \<Rightarrow> Some (build_order_confirmed_message iso_text (ev_correlation env) p)
   | (Notify_Order_Despatched, Despatched_P p) \<Rightarrow> Some (build_order_despatched_message iso_text (ev_correlation env) p)
   | (Notify_Invoice_Issued, Invoice_P p) \<Rightarrow> Some (build_invoice_issued_message iso_text (ev_correlation env) p)
   | (Notify_Payment_Received, Payment_P p) \<Rightarrow> Some (build_payment_received_message iso_text (ev_correlation env) p)
   | (Notify_Order_Completed, Completed_P p) \<Rightarrow> Some (build_order_completed_message iso_text (ev_correlation env) p)
   | (Notify_Order_Cancelled, Cancelled_P p) \<Rightarrow> Some (build_order_cancelled_message iso_text (ev_correlation env) p)
   | _ \<Rightarrow> None)"

section \<open>No payload reaches the markup\<close>

definition is_markup :: "char \<Rightarrow> bool" where
  "is_markup c = (c = CHR ''<'' \<or> c = CHR ''>'' \<or> c = CHR 0x22 \<or> c = CHR 0x27)"

lemma html_escape_inert: "filter is_markup (html_escape c) = []"
  by (simp add: html_escape_def is_markup_def)

lemma escape_html_inert [simp]: "filter is_markup (escape_html s) = []"
  by (induction s) (simp_all add: escape_html_def html_escape_inert)

text \<open>Escaping loses nothing: a reader that decodes the entities gets the text back.\<close>

lemma html_escape_split:
  "html_escape c @ s = html_escape d @ t \<Longrightarrow> c = d \<and> s = t"
  by (auto simp: html_escape_def split: if_splits)

lemma escape_html_injective: "escape_html s = escape_html t \<Longrightarrow> s = t"
proof (induction s arbitrary: t)
  case Nil
  then show ?case by (cases t) (auto simp: escape_html_def html_escape_def split: if_splits)
next
  case (Cons c s)
  then obtain d t' where t: "t = d # t'"
    by (cases t) (auto simp: escape_html_def html_escape_def split: if_splits)
  have "html_escape c @ escape_html s = html_escape d @ escape_html t'"
    using Cons.prems by (simp add: escape_html_def t)
  from html_escape_split [OF this] Cons.IH show ?case by (simp add: t)
qed

lemmas template_defs = build_order_placed_message_def build_order_confirmed_message_def
  build_order_completed_message_def build_order_despatched_message_def build_invoice_issued_message_def
  build_payment_received_message_def build_order_cancelled_message_def

definition template_markup :: "notify_command \<Rightarrow> string" where
  "template_markup k = (let item = ''<><>'' in
     ''<><><><>'' @ ''<>'' @ concat (replicate (case k of Notify_Payment_Received \<Rightarrow> 3
       | Notify_Order_Despatched \<Rightarrow> 5 | Notify_Order_Cancelled \<Rightarrow> 5 | _ \<Rightarrow> 4) item) @ ''<>'' @ ''<><>'')"

text \<open>
  no value of a fact injects markup into a mail.  The tags of the HTML body a fact is
  rendered to are those of its template, in their order, whatever the references, codes, amounts
  and texts of its payload hold; and the values are escaped without loss, since two values with
  the same escaped form are equal.
\<close>

theorem mail_markup_fixed:
  assumes "build_message iso_text k env = Some m"
  shows "filter is_markup (nm_html m) = template_markup k \<and>
    (\<forall>s t. escape_html s = escape_html t \<longleftrightarrow> s = t)"
proof
  show "\<forall>s t. escape_html s = escape_html t \<longleftrightarrow> s = t"
    using escape_html_injective by blast
  show "filter is_markup (nm_html m) = template_markup k"
    using assms
    by (cases k; cases "ev_payload env")
      (auto simp: build_message_def template_defs template_markup_def Let_def newline_def mail_dash_def
        is_markup_def numeral_eq_Suc)
qed

end
