(* ===== verification/Notify_Dispatch.thy ===== *)
theory Notify_Dispatch
  imports Notify_Format Projector_Intake Idempotent_Consumer
begin

text \<open>
  Sending the mails (apps/notifications/src): the dispatch service over the idempotent consumer
  with its compensating delete, the degrading sender with its failure classifier, the choice of
  the sender at boot and the dispatch of the Kafka controller, whose envelope parser is the
  projector's.  What a delivery meets is its \<open>notify_world\<close>: the faults of the ledger's two
  transactions, how the SMTP call ends, and whether the process dies once the ledger row is
  committed.  A failing SMTP call may have left the mail with the server all the same.
\<close>

section \<open>The sender\<close>

datatype send_error =
    Smtp_Error "int option" "string option" string
  | Foreign_Fact

datatype send_failure_class = Permanent_Failure | Transient_Failure

definition classify_send_failure :: "send_error \<Rightarrow> send_failure_class" where
  "classify_send_failure e = (case e of
     Smtp_Error (Some code) _ _ \<Rightarrow> if 500 \<le> code \<and> code < 600 then Permanent_Failure else Transient_Failure
   | Smtp_Error None (Some c) _ \<Rightarrow> if c = ''EAUTH'' then Permanent_Failure else Transient_Failure
   | _ \<Rightarrow> Transient_Failure)"

datatype smtp_end = Smtp_Accepted | Smtp_Failed send_error bool

text \<open>A mail with the headers the dispatcher adds.\<close>

record outgoing_mail =
  om_message :: notification_message
  om_message_id :: string
  om_correlation :: uid

record notify_state =
  ns_ledger :: "(uid \<times> string) list"
  ns_mailed :: "outgoing_mail list"
  ns_console :: "outgoing_mail list"
  ns_logged :: "string list"

definition console_send :: "outgoing_mail \<Rightarrow> notify_state \<Rightarrow> notify_state" where
  "console_send m st = st \<lparr> ns_console := ns_console st @ [m] \<rparr>"

definition smtp_send :: "smtp_end \<Rightarrow> outgoing_mail \<Rightarrow> notify_state \<Rightarrow> send_error option \<times> notify_state" where
  "smtp_send e m st = (let st' = st \<lparr> ns_mailed := ns_mailed st @ [m] \<rparr> in case e of
     Smtp_Accepted \<Rightarrow> (None, st')
   | Smtp_Failed err delivered \<Rightarrow> (Some err, if delivered then st' else st))"

definition degrading_send :: "smtp_end \<Rightarrow> outgoing_mail \<Rightarrow> notify_state \<Rightarrow> send_error option \<times> notify_state" where
  "degrading_send e m st = (case smtp_send e m st of
     (None, st') \<Rightarrow> (None, st')
   | (Some err, st') \<Rightarrow> (case classify_send_failure err of
       Transient_Failure \<Rightarrow> (Some err, st')
     | Permanent_Failure \<Rightarrow> (None, console_send m
         (st' \<lparr> ns_logged := ns_logged st' @ [''notification.send.degraded''] \<rparr>))))"

section \<open>The choice of the sender\<close>

record smtp_config =
  sc_host :: string
  sc_port :: js_number
  sc_user :: string
  sc_password :: string
  sc_from :: string

datatype sender_binding = Console_Binding | Smtp_Binding smtp_config

datatype binding_error = Partial_Credentials | Missing_Setting string | Invalid_Port

definition setting_present :: "string option \<Rightarrow> bool" where
  "setting_present v = (case v of None \<Rightarrow> False | Some s \<Rightarrow> trim s \<noteq> [] \<and> trim s \<noteq> ''replace_me'')"

text \<open>\<open>port_number\<close> is the number the trimmed text of the port reads as.\<close>

definition required_setting :: "string \<Rightarrow> string option \<Rightarrow> binding_error + string" where
  "required_setting name v = (case v of None \<Rightarrow> Inl (Missing_Setting name)
     | Some s \<Rightarrow> if trim s = [] then Inl (Missing_Setting name) else Inr (trim s))"

definition resolve_notification_sender_binding ::
    "(string \<Rightarrow> js_number) \<Rightarrow> string option \<Rightarrow> string option \<Rightarrow> string option \<Rightarrow> string option \<Rightarrow> string option \<Rightarrow>
      binding_error + sender_binding" where
  "resolve_notification_sender_binding port_number user password host from port =
     (if \<not> setting_present user \<and> \<not> setting_present password then Inr Console_Binding
      else if setting_present user \<noteq> setting_present password then Inl Partial_Credentials
      else bindR (required_setting ''SMTP_HOST'' host) (\<lambda>h.
        bindR (required_setting ''SMTP_FROM_EMAIL'' from) (\<lambda>f.
        bindR (required_setting ''SMTP_PORT'' port) (\<lambda>p.
          case port_number p of
            Js_Int n \<Rightarrow> if n \<le> 0 then Inl Invalid_Port
              else Inr (Smtp_Binding \<lparr> sc_host = h, sc_port = Js_Int n, sc_user = the user,
                sc_password = the password, sc_from = f \<rparr>)
          | _ \<Rightarrow> Inl Invalid_Port))))"

section \<open>Dispatching one fact\<close>

record notify_world =
  nw_ledger :: "string option"
  nw_dies :: bool
  nw_smtp :: smtp_end
  nw_delete :: "string option"

datatype notify_error = Ledger_Fault string | Send_Failed send_error

datatype notify_outcome = Notified | Already_Notified

definition notifications_consumer :: string where
  "notifications_consumer = ''notifications''"

definition record_notified :: "uid \<Rightarrow> notify_state \<Rightarrow> notify_state option" where
  "record_notified i st = (if (i, notifications_consumer) \<in> set (ns_ledger st) then None
     else Some (st \<lparr> ns_ledger := ns_ledger st @ [(i, notifications_consumer)] \<rparr>))"

definition delete_processed_event :: "uid \<Rightarrow> string \<Rightarrow> notify_state \<Rightarrow> notify_state" where
  "delete_processed_event i consumer st =
     st \<lparr> ns_ledger := filter (\<lambda>row. row \<noteq> (i, consumer)) (ns_ledger st) \<rparr>"

definition mail_id :: "uid \<Rightarrow> string" where
  "mail_id i = i @ ''@order-to-cash''"

definition send_built :: "smtp_end \<Rightarrow> envelope \<Rightarrow> notification_message option \<Rightarrow> notify_state \<Rightarrow> send_error option \<times> notify_state" where
  "send_built e env built st = (case built of
     None \<Rightarrow> (Some Foreign_Fact, st)
   | Some m \<Rightarrow> degrading_send e \<lparr> om_message = m, om_message_id = mail_id (ev_id env),
       om_correlation = ev_correlation env \<rparr> st)"

definition compensate :: "string option \<Rightarrow> uid \<Rightarrow> notify_state \<Rightarrow> notify_state" where
  "compensate fault i st = (case fault of
     None \<Rightarrow> delete_processed_event i notifications_consumer st
   | Some _ \<Rightarrow> st \<lparr> ns_logged := ns_logged st @ [''compensating delete failed''] \<rparr>)"

text \<open>\<open>None\<close> is a process that died.\<close>

definition notify_dispatch ::
    "notify_world \<Rightarrow> (envelope \<Rightarrow> notification_message option) \<Rightarrow> envelope \<Rightarrow> notify_state \<Rightarrow>
      (notify_error + notify_outcome) option \<times> notify_state" where
  "notify_dispatch w build env st = (case nw_ledger w of
     Some m \<Rightarrow> (Some (Inl (Ledger_Fault m)), st)
   | None \<Rightarrow> (case run_once (record_notified (ev_id env)) (\<lambda>d. Inr ((), d) :: notify_error + unit \<times> notify_state) st of
       (Inl e, st1) \<Rightarrow> (Some (Inl e), st1)
     | (Inr Duplicate, st1) \<Rightarrow> (Some (Inr Already_Notified), st1)
     | (Inr (Processed _), st1) \<Rightarrow>
         if nw_dies w then (None, st1)
         else (case send_built (nw_smtp w) env (build env) st1 of
             (None, st2) \<Rightarrow> (Some (Inr Notified), st2)
           | (Some e, st2) \<Rightarrow> (Some (Inl (Send_Failed e)), compensate (nw_delete w) (ev_id env) st2))))"

text \<open>
  The controller: a fact outside the seven is acknowledged, another one is dispatched.  A process
  that dies makes no further attempt, so the attempts of one delivery are those of a live one.
\<close>

definition notify_attempt ::
    "(instant \<Rightarrow> string) \<Rightarrow> notify_world \<Rightarrow> envelope \<Rightarrow> notify_state \<Rightarrow> (notify_error + notify_outcome) option \<times> notify_state" where
  "notify_attempt iso_text w env st = (case notify_command_for (ev_type env) of
     None \<Rightarrow> (Some (Inr Already_Notified), st)
   | Some k \<Rightarrow> notify_dispatch w (build_message iso_text k) env st)"

definition route_notification ::
    "(instant \<Rightarrow> string) \<Rightarrow> retry_policy \<Rightarrow> (nat \<Rightarrow> notify_world) \<Rightarrow> (nat \<Rightarrow> instant) \<Rightarrow> string option \<Rightarrow> string \<Rightarrow> wire_value \<Rightarrow>
      notify_state \<Rightarrow> (notify_error dispatch_end \<times> rat list) \<times> notify_state" where
  "route_notification iso_text pol worlds clock dlq topic v st = (case parse_fact_envelope v of
     Inl _ \<Rightarrow> ((Fact_Handled, []), st \<lparr> ns_logged := ns_logged st @ [''malformed fact envelope''] \<rparr>)
   | Inr env \<Rightarrow> (case notify_command_for (ev_type env) of
       None \<Rightarrow> ((Fact_Handled, []), st)
     | Some k \<Rightarrow> fact_dispatch pol
         (\<lambda>i st. case notify_dispatch ((worlds i) \<lparr> nw_dies := False \<rparr>) (build_message iso_text k) env st of
            (Some r, st') \<Rightarrow> (r, st') | (None, st') \<Rightarrow> (Inr Notified, st'))
         clock dlq topic env notifications_consumer st))"

interpretation notified: processed_ledger record_notified "\<lambda>i st. (i, notifications_consumer) \<in> set (ns_ledger st)"
  by unfold_locales (auto simp: record_notified_def split: if_splits)

section \<open>Runs of deliveries\<close>

definition notify_run :: "(instant \<Rightarrow> string) \<Rightarrow> (notify_world \<times> envelope) list \<Rightarrow> notify_state \<Rightarrow> notify_state" where
  "notify_run iso_text run = fold (\<lambda>(w, env) st. snd (notify_attempt iso_text w env st)) run"

definition no_mail :: notify_state where
  "no_mail = \<lparr> ns_ledger = [], ns_mailed = [], ns_console = [], ns_logged = [] \<rparr>"

text \<open>The mails that came out for an event, and whether the ledger has it.\<close>

definition mails_of :: "uid \<Rightarrow> notify_state \<Rightarrow> nat" where
  "mails_of i st = length (filter (\<lambda>m. om_message_id m = mail_id i) (ns_mailed st @ ns_console st))"

definition in_ledger :: "uid \<Rightarrow> notify_state \<Rightarrow> bool" where
  "in_ledger i st = ((i, notifications_consumer) \<in> set (ns_ledger st))"

text \<open>An SMTP failure that left the mail with the server.\<close>

definition delivered_in_error :: "notify_world \<Rightarrow> bool" where
  "delivered_in_error w = (case nw_smtp w of Smtp_Accepted \<Rightarrow> False | Smtp_Failed _ delivered \<Rightarrow> delivered)"

lemma mail_id_inject [simp]: "mail_id i = mail_id j \<longleftrightarrow> i = j"
  by (simp add: mail_id_def)

lemma mails_of_simps [simp]:
  "mails_of i (st \<lparr> ns_ledger := l \<rparr>) = mails_of i st"
  "mails_of i (st \<lparr> ns_logged := g \<rparr>) = mails_of i st"
  "mails_of i (st \<lparr> ns_mailed := ns_mailed st @ [m] \<rparr>) = mails_of i st + (if om_message_id m = mail_id i then 1 else 0)"
  "mails_of i (st \<lparr> ns_console := ns_console st @ [m] \<rparr>) = mails_of i st + (if om_message_id m = mail_id i then 1 else 0)"
  by (simp_all add: mails_of_def)

lemma in_ledger_simps [simp]:
  "in_ledger i (st \<lparr> ns_mailed := ms \<rparr>) = in_ledger i st"
  "in_ledger i (st \<lparr> ns_console := ms \<rparr>) = in_ledger i st"
  "in_ledger i (st \<lparr> ns_logged := g \<rparr>) = in_ledger i st"
  by (simp_all add: in_ledger_def)

lemma send_built_ledger: "send_built e env built st = (r, st') \<Longrightarrow> in_ledger i st' = in_ledger i st"
  by (auto simp: send_built_def degrading_send_def smtp_send_def console_send_def Let_def
      split: option.splits smtp_end.splits send_failure_class.splits if_splits)

text \<open>A send that succeeds leaves one mail, one that fails leaves none (or the one in error).\<close>

lemma send_built_mails:
  assumes "send_built (nw_smtp w) env built st = (r, st')" and "\<not> delivered_in_error w"
  shows "mails_of i st' = mails_of i st + (if r = None \<and> i = ev_id env then 1 else 0)"
  using assms
  by (auto simp: send_built_def degrading_send_def smtp_send_def console_send_def delivered_in_error_def Let_def mails_of_def
      split: option.splits smtp_end.splits send_failure_class.splits if_splits)

lemma compensate_mails [simp]: "mails_of i (compensate fault j st) = mails_of i st"
  by (simp add: compensate_def delete_processed_event_def split: option.split)

lemma compensate_ledger:
  "in_ledger i (compensate fault j st) \<longleftrightarrow> in_ledger i st \<and> (i \<noteq> j \<or> fault \<noteq> None)"
  by (auto simp: compensate_def delete_processed_event_def in_ledger_def split: option.split)

text \<open>The branches of a dispatch.\<close>

lemma notify_dispatch_cases:
  assumes "notify_dispatch w build env st = (r, st')"
  obtains "st' = st" "r \<noteq> Some (Inr Notified)"
  | st1 where "\<not> in_ledger (ev_id env) st" "record_notified (ev_id env) st = Some st1" "nw_dies w" "r = None" "st' = st1"
  | st1 where "\<not> in_ledger (ev_id env) st" "record_notified (ev_id env) st = Some st1" "r = Some (Inr Notified)"
      "send_built (nw_smtp w) env (build env) st1 = (None, st')"
  | st1 e st2 where "\<not> in_ledger (ev_id env) st" "record_notified (ev_id env) st = Some st1"
      "r = Some (Inl (Send_Failed e))" "send_built (nw_smtp w) env (build env) st1 = (Some e, st2)"
      "st' = compensate (nw_delete w) (ev_id env) st2"
proof (cases "record_notified (ev_id env) st")
  case None
  then show thesis using assms that(1)
    by (auto simp: notify_dispatch_def run_once_unfold split: option.splits)
next
  case (Some st1)
  then have new: "\<not> in_ledger (ev_id env) st" by (auto simp: record_notified_def in_ledger_def split: if_splits)
  show thesis
  proof (cases "nw_ledger w")
    case (Some m)
    then show thesis using assms that(1) by (auto simp: notify_dispatch_def)
  next
    case None
    obtain e st2 where send: "send_built (nw_smtp w) env (build env) st1 = (e, st2)" by fastforce
    then show thesis
      using assms that(2) [OF new Some] that(3) [OF new Some] that(4) [OF new Some] None Some
      by (cases "nw_dies w"; cases e) (auto simp: notify_dispatch_def run_once_unfold)
  qed
qed

lemma record_notified_mails:
  "record_notified j st = Some st1 \<Longrightarrow> mails_of i st1 = mails_of i st \<and> in_ledger i st1 = (in_ledger i st \<or> i = j)"
  by (auto simp: record_notified_def in_ledger_def split: if_splits)

text \<open>The invariant of an event: one mail at most, and then it is in the ledger.\<close>

definition mailed_once :: "uid \<Rightarrow> notify_state \<Rightarrow> bool" where
  "mailed_once i st = (mails_of i st = 0 \<or> mails_of i st = 1 \<and> in_ledger i st)"

lemma notify_dispatch_once:
  assumes "mailed_once i st" and "\<not> delivered_in_error w" and "notify_dispatch w build env st = (r, st')"
  shows "mailed_once i st'"
  using assms(3)
proof (cases rule: notify_dispatch_cases)
  case 1
  then show ?thesis using assms(1) by simp
next
  case (2 st1)
  then show ?thesis using assms(1) record_notified_mails [OF 2(2), of i] by (auto simp: mailed_once_def)
next
  case (3 st1)
  then show ?thesis using assms(1) record_notified_mails [OF 3(2), of i]
      send_built_mails [OF 3(4) assms(2), of i] send_built_ledger [OF 3(4), of i]
    by (auto simp: mailed_once_def)
next
  case (4 st1 e st2)
  then show ?thesis using assms(1) record_notified_mails [OF 4(2), of i]
      send_built_mails [OF 4(4) assms(2), of i] send_built_ledger [OF 4(4), of i]
    by (auto simp: mailed_once_def compensate_ledger)
qed

lemma notify_attempt_once:
  assumes "mailed_once i st" and "\<not> delivered_in_error w"
  shows "mailed_once i (snd (notify_attempt iso_text w env st))"
proof (cases "notify_command_for (ev_type env)")
  case (Some k)
  obtain r st' where r: "notify_dispatch w (build_message iso_text k) env st = (r, st')" by fastforce
  show ?thesis using notify_dispatch_once [OF assms r] by (simp add: notify_attempt_def Some r)
qed (use assms(1) in \<open>simp add: notify_attempt_def\<close>)

lemma notify_run_once:
  assumes "mailed_once i st" and "\<forall>(w, env)\<in>set run. \<not> delivered_in_error w"
  shows "mailed_once i (notify_run iso_text run st)"
  using assms
proof (induction run arbitrary: st)
  case (Cons x run)
  obtain w env where x: "x = (w, env)" by fastforce
  have "mailed_once i (snd (notify_attempt iso_text w env st))"
    using Cons.prems by (intro notify_attempt_once) (simp_all add: x)
  then have "mailed_once i (notify_run iso_text run (snd (notify_attempt iso_text w env st)))"
    using Cons.prems(2) by (intro Cons.IH) simp_all
  then show ?case by (simp add: notify_run_def x)
qed (simp add: notify_run_def)

text \<open>
  C13: a fact is notified at most once.  Whatever facts are delivered, in whatever order and
  however often, with faults of the ledger, refusals of the mail server, failed compensations and
  processes that die, at most one mail per fact comes out (by SMTP or, degraded, on the console),
  as long as no failing SMTP call left its mail with the server; and a dispatch that reports
  success has put out exactly one.
\<close>

theorem notified_at_most_once:
  assumes "\<forall>(w, env)\<in>set run. \<not> delivered_in_error w" and "\<not> delivered_in_error w"
    and "notify_command_for (ev_type env) \<noteq> None"
  shows "mails_of i (notify_run iso_text run no_mail) \<le> 1 \<and>
    (fst (notify_attempt iso_text w env (notify_run iso_text run no_mail)) = Some (Inr Notified) \<longrightarrow>
      mails_of (ev_id env) (snd (notify_attempt iso_text w env (notify_run iso_text run no_mail))) = 1)"
proof
  let ?st = "notify_run iso_text run no_mail"
  have once: "mailed_once j ?st" for j
    by (rule notify_run_once [OF _ assms(1)]) (simp add: mailed_once_def mails_of_def no_mail_def)
  from once [of i] show "mails_of i ?st \<le> 1" by (auto simp: mailed_once_def)
  obtain k where k: "notify_command_for (ev_type env) = Some k" using assms(3) by blast
  obtain r st' where r: "notify_dispatch w (build_message iso_text k) env ?st = (r, st')" by fastforce
  have "mails_of (ev_id env) st' = 1" if "r = Some (Inr Notified)"
    using r
  proof (cases rule: notify_dispatch_cases)
    case (3 st1)
    then show ?thesis
      using once [of "ev_id env"] record_notified_mails [OF 3(2), of "ev_id env"]
        send_built_mails [OF 3(4) assms(2), of "ev_id env"] by (auto simp: mailed_once_def)
  qed (use that in auto)
  then show "fst (notify_attempt iso_text w env ?st) = Some (Inr Notified) \<longrightarrow>
      mails_of (ev_id env) (snd (notify_attempt iso_text w env ?st)) = 1"
    by (simp add: notify_attempt_def k r)
qed

section \<open>A lost mail\<close>

lemma ledgered_dispatch: "in_ledger i st \<Longrightarrow> in_ledger i (snd (notify_dispatch w build env st)) \<and>
    (ev_id env = i \<longrightarrow> snd (notify_dispatch w build env st) = st)"
proof -
  assume ledger: "in_ledger i st"
  obtain r st' where r: "notify_dispatch w build env st = (r, st')" by fastforce
  then show ?thesis
  proof (cases rule: notify_dispatch_cases)
    case (2 st1)
    then show ?thesis using ledger r record_notified_mails [OF 2(2), of i] by auto
  next
    case (3 st1)
    then show ?thesis using ledger r record_notified_mails [OF 3(2), of i] send_built_ledger [OF 3(4), of i] by auto
  next
    case (4 st1 e st2)
    then show ?thesis using ledger r record_notified_mails [OF 4(2), of i] send_built_ledger [OF 4(4), of i]
      by (auto simp: compensate_ledger)
  qed (use ledger r in simp)
qed

lemma other_event_mails:
  assumes "ev_id env \<noteq> i"
  shows "mails_of i (snd (notify_dispatch w build env st)) = mails_of i st"
proof -
  have send: "mails_of i st' = mails_of i st"
    if "send_built e env built st = (r, st')" for e built r st st'
    using that assms
    by (auto simp: send_built_def degrading_send_def smtp_send_def console_send_def Let_def mails_of_def
        split: option.splits smtp_end.splits send_failure_class.splits if_splits)
  obtain r st' where r: "notify_dispatch w build env st = (r, st')" by fastforce
  then show ?thesis
  proof (cases rule: notify_dispatch_cases)
    case (2 st1)
    then show ?thesis using r record_notified_mails [OF 2(2), of i] by simp
  next
    case (3 st1)
    then show ?thesis using r record_notified_mails [OF 3(2), of i] send [OF 3(4)] by simp
  next
    case (4 st1 e st2)
    then show ?thesis using r record_notified_mails [OF 4(2), of i] send [OF 4(4)] by simp
  qed (use r in simp)
qed

lemma ledgered_attempt:
  assumes "in_ledger i st"
  shows "in_ledger i (snd (notify_attempt iso_text w env st)) \<and>
    mails_of i (snd (notify_attempt iso_text w env st)) = mails_of i st"
proof (cases "notify_command_for (ev_type env)")
  case (Some k)
  show ?thesis
    using assms ledgered_dispatch [OF assms, of w "build_message iso_text k" env]
      other_event_mails [of env i w "build_message iso_text k" st]
    by (cases "ev_id env = i") (simp_all add: notify_attempt_def Some)
qed (simp add: notify_attempt_def assms)

text \<open>
  A process that dies between the commit of the ledger row and the send loses the mail: the
  redelivery is a duplicate, and no later delivery of anything sends it.
\<close>

lemma death_after_ledger_loses_mail:
  assumes "notify_command_for (ev_type env) \<noteq> None" and "nw_ledger w = None" and "nw_dies w"
    and "\<not> in_ledger (ev_id env) st" and "mails_of (ev_id env) st = 0"
  shows "mails_of (ev_id env) (notify_run iso_text run (snd (notify_attempt iso_text w env st))) = 0"
proof -
  obtain k where k: "notify_command_for (ev_type env) = Some k" using assms(1) by blast
  have new: "record_notified (ev_id env) st = Some (st \<lparr> ns_ledger := ns_ledger st @ [(ev_id env, notifications_consumer)] \<rparr>)"
    using assms(4) by (simp add: record_notified_def in_ledger_def)
  have dead: "in_ledger (ev_id env) (snd (notify_attempt iso_text w env st)) \<and>
      mails_of (ev_id env) (snd (notify_attempt iso_text w env st)) = 0"
    using assms(2,3,5) by (simp add: notify_attempt_def k notify_dispatch_def run_once_unfold new in_ledger_def)
  have "in_ledger i s \<Longrightarrow> mails_of i (notify_run iso_text run s) = mails_of i s" for i s
  proof (induction run arbitrary: s)
    case (Cons x run)
    obtain w' env' where x: "x = (w', env')" by fastforce
    have "mails_of i (notify_run iso_text run (snd (notify_attempt iso_text w' env' s))) =
        mails_of i (snd (notify_attempt iso_text w' env' s))"
      using ledgered_attempt [OF Cons.prems] by (intro Cons.IH) simp
    then show ?case using ledgered_attempt [OF Cons.prems, of iso_text w' env'] by (simp add: notify_run_def x)
  qed (simp add: notify_run_def)
  with dead show ?thesis by simp
qed

end
