(* ===== verification/Notify_Examples.thy ===== *)
theory Notify_Examples
  imports Projector_Examples Notify_Dispatch
begin

text \<open>The witnesses of the notifications' properties: a delivery that is refused, retried and repeated.\<close>

definition plain_iso :: "instant \<Rightarrow> string" where
  "plain_iso t = decimal (nat t)"

definition notify_world_of :: "smtp_end \<Rightarrow> notify_world" where
  "notify_world_of e = \<lparr> nw_ledger = None, nw_dies = False, nw_smtp = e, nw_delete = None \<rparr>"

definition refused_world :: notify_world where
  "refused_world = notify_world_of (Smtp_Failed (Smtp_Error (Some 451) None ''try later'') False)"

definition accepted_world :: notify_world where
  "accepted_world = notify_world_of Smtp_Accepted"

definition example_notify_run :: "(notify_world \<times> envelope) list" where
  "example_notify_run = [(refused_world, example_paid_fact)]"

lemma example_notify_outcome:
  "fst (notify_attempt plain_iso accepted_world example_paid_fact (notify_run plain_iso example_notify_run no_mail)) =
    Some (Inr Notified)"
  by code_simp

theorem notified_at_most_once_witness:
  "mails_of ''f9'' (notify_run plain_iso example_notify_run no_mail) \<le> 1 \<and>
   mails_of ''f9'' (snd (notify_attempt plain_iso accepted_world example_paid_fact
     (notify_run plain_iso example_notify_run no_mail))) = 1"
proof -
  have "\<forall>(w, env)\<in>set example_notify_run. \<not> delivered_in_error w"
    by (simp add: example_notify_run_def refused_world_def notify_world_of_def delivered_in_error_def)
  moreover have "\<not> delivered_in_error accepted_world"
    by (simp add: accepted_world_def notify_world_of_def delivered_in_error_def)
  moreover have "notify_command_for (ev_type example_paid_fact) \<noteq> None" "ev_id example_paid_fact = ''f9''"
    by code_simp+
  ultimately show ?thesis
    using notified_at_most_once [of example_notify_run accepted_world example_paid_fact "''f9''" plain_iso]
      example_notify_outcome by simp
qed

text \<open>A payment whose reference is a tag.\<close>

definition tagged_payment_fact :: envelope where
  "tagged_payment_fact = example_order_fact ''f9'' Payment_Received 300 ''f2''
     (Payment_P \<lparr> py_reference = ''ORD-000001'', py_invoice_reference = ''INV'', py_payment_reference = ''<b>'',
        py_currency = ''EUR'', py_amount = 1000, py_value_date = 300, py_source = By_Operator \<rparr>)"

theorem mail_markup_fixed_witness:
  "\<exists>m. build_message plain_iso Notify_Payment_Received tagged_payment_fact = Some m \<and>
    filter is_markup (nm_html m) = template_markup Notify_Payment_Received"
proof -
  have "build_message plain_iso Notify_Payment_Received tagged_payment_fact \<noteq> None" by code_simp
  then obtain m where m: "build_message plain_iso Notify_Payment_Received tagged_payment_fact = Some m" by blast
  with mail_markup_fixed [OF m] show ?thesis by blast
qed

end
