(* ===== verification/Gateway_Stream.thy ===== *)
theory Gateway_Stream
  imports Js_Text
begin

text \<open>
  The gateway's event stream (apps/gateway/src): the cursor generator, the bounded replay buffer,
  the hub and what the stream controller writes to a client that connects.  The clock is an
  argument of every operation that reads it.  Shown here: cursors are never repeated, the buffer
  holds the last frames the hub published, and a client that reconnects with the cursor of a
  frame still held gets exactly the frames published after it.
\<close>

section \<open>Cursors\<close>

definition cursor_text :: "int \<Rightarrow> nat \<Rightarrow> string" where
  "cursor_text now k = (if now < 0 then ''-'' else []) @ decimal (nat \<bar>now\<bar>) @ ''-'' @ decimal k"

definition next_cursor :: "int \<Rightarrow> nat \<Rightarrow> string \<times> nat" where
  "next_cursor now sequence = (cursor_text now (sequence + 1), sequence + 1)"

section \<open>The replay buffer\<close>

record 'a replay_buffer =
  rb_entries :: "(string \<times> 'a) list"
  rb_capacity :: nat

datatype buffer_error = Capacity_Below_One

definition new_replay_buffer :: "nat \<Rightarrow> buffer_error + 'a replay_buffer" where
  "new_replay_buffer capacity = (if capacity < 1 then Inl Capacity_Below_One
     else Inr \<lparr> rb_entries = [], rb_capacity = capacity \<rparr>)"

fun shift_to :: "nat \<Rightarrow> 'a list \<Rightarrow> 'a list" where
  "shift_to n [] = []"
| "shift_to n (x # xs) = (if n < length (x # xs) then shift_to n xs else x # xs)"

definition push_entry :: "string \<Rightarrow> 'a \<Rightarrow> 'a replay_buffer \<Rightarrow> 'a replay_buffer" where
  "push_entry cursor v b = b \<lparr> rb_entries := shift_to (rb_capacity b) (rb_entries b @ [(cursor, v)]) \<rparr>"

record 'a replay_result =
  rr_resumed :: bool
  rr_missed :: "'a list"

definition not_resumed :: "'a replay_result" where
  "not_resumed = \<lparr> rr_resumed = False, rr_missed = [] \<rparr>"

definition replay_after :: "string option \<Rightarrow> 'a replay_buffer \<Rightarrow> 'a replay_result" where
  "replay_after cursor b = (case cursor of
     None \<Rightarrow> not_resumed
   | Some c \<Rightarrow> (case dropWhile (\<lambda>e. fst e \<noteq> c) (rb_entries b) of
       [] \<Rightarrow> not_resumed
     | _ # later \<Rightarrow> \<lparr> rr_resumed = True, rr_missed = map snd later \<rparr>))"

section \<open>The hub\<close>

datatype stream_event_type = Order_Updated_Event | Timeline_Appended_Event

record 'd stream_frame =
  sf_cursor :: string
  sf_event :: stream_event_type
  sf_order :: string
  sf_data :: 'd

record 'd stream_hub =
  sh_buffer :: "'d stream_frame replay_buffer"
  sh_sequence :: nat

definition default_capacity :: nat where
  "default_capacity = 500"

definition new_stream_hub :: "nat \<Rightarrow> buffer_error + 'd stream_hub" where
  "new_stream_hub capacity = bindR (new_replay_buffer capacity) (\<lambda>b.
     Inr \<lparr> sh_buffer = b, sh_sequence = 0 \<rparr>)"

definition hub_publish :: "int \<Rightarrow> stream_event_type \<Rightarrow> string \<Rightarrow> 'd \<Rightarrow> 'd stream_hub \<Rightarrow> 'd stream_frame \<times> 'd stream_hub" where
  "hub_publish now event order data hub = (let (cursor, k) = next_cursor now (sh_sequence hub);
       frame = \<lparr> sf_cursor = cursor, sf_event = event, sf_order = order, sf_data = data \<rparr> in
     (frame, hub \<lparr> sh_buffer := push_entry cursor frame (sh_buffer hub), sh_sequence := k \<rparr>))"

definition hub_replay_after :: "string option \<Rightarrow> 'd stream_hub \<Rightarrow> 'd stream_frame replay_result" where
  "hub_replay_after cursor hub = replay_after cursor (sh_buffer hub)"

definition mint_cursor :: "int \<Rightarrow> 'd stream_hub \<Rightarrow> string \<times> 'd stream_hub" where
  "mint_cursor now hub = (let (cursor, k) = next_cursor now (sh_sequence hub) in (cursor, hub \<lparr> sh_sequence := k \<rparr>))"

section \<open>A client that connects\<close>

datatype 'd sse_frame =
    Stream_Ready string bool "string option"
  | Stream_Content "'d stream_frame"

definition matches_filter :: "string option \<Rightarrow> 'd stream_frame \<Rightarrow> bool" where
  "matches_filter order frame = (case order of None \<Rightarrow> True | Some i \<Rightarrow> sf_order frame = i)"

text \<open>What is written on connection, and the hub, which mints a cursor when the client has none.\<close>

definition stream_connect :: "int \<Rightarrow> string option \<Rightarrow> string option \<Rightarrow> 'd stream_hub \<Rightarrow> 'd sse_frame list \<times> 'd stream_hub" where
  "stream_connect now order last_id hub = (let
     replay = hub_replay_after last_id hub;
     (ready, hub') = (case last_id of Some c \<Rightarrow> (c, hub) | None \<Rightarrow> mint_cursor now hub) in
     (Stream_Ready ready (rr_resumed replay) order #
        map Stream_Content (filter (matches_filter order) (rr_missed replay)), hub'))"

text \<open>What a connected client is sent when a frame is published.\<close>

definition stream_deliver :: "string option \<Rightarrow> 'd stream_frame \<Rightarrow> 'd sse_frame list" where
  "stream_deliver order frame = (if matches_filter order frame then [Stream_Content frame] else [])"

section \<open>Cursors are never repeated\<close>

lemma no_dash_in_decimal: "CHR ''-'' \<notin> set (decimal n)"
  using decimal_digits [of n] by (auto simp: list_all_iff is_digit_def code_of_def)

lemma takeWhile_up_to:
  "x \<notin> set ys \<Longrightarrow> takeWhile (\<lambda>y. y \<noteq> x) (ys @ x # zs) = ys"
  by (induction ys) auto

lemma last_dash_unique:
  assumes "a @ CHR ''-'' # b = c @ CHR ''-'' # d" and "CHR ''-'' \<notin> set b" and "CHR ''-'' \<notin> set d"
  shows "b = d"
proof -
  have "rev b @ CHR ''-'' # rev a = rev d @ CHR ''-'' # rev c"
    using arg_cong [OF assms(1), of rev] by simp
  then have "rev b = rev d"
    using takeWhile_up_to [of "CHR ''-''" "rev b" "rev a"] takeWhile_up_to [of "CHR ''-''" "rev d" "rev c"] assms(2,3)
    by simp
  then show ?thesis by simp
qed

lemma cursor_text_inject: "cursor_text s k = cursor_text t j \<Longrightarrow> k = j"
proof -
  assume eq: "cursor_text s k = cursor_text t j"
  have split: "cursor_text u i = ((if u < 0 then ''-'' else []) @ decimal (nat \<bar>u\<bar>)) @ CHR ''-'' # decimal i" for u i
    by (simp add: cursor_text_def)
  have "decimal k = decimal j"
    by (rule last_dash_unique [OF eq [unfolded split] no_dash_in_decimal no_dash_in_decimal])
  then show ?thesis by (metis read_decimal_decimal)
qed

section \<open>The history of a hub\<close>

text \<open>A hub's operations: publications and minted cursors, each at its instant.\<close>

datatype 'd hub_step = Publish_Step int stream_event_type string 'd | Mint_Step int

definition hub_step :: "'d hub_step \<Rightarrow> 'd stream_frame list \<times> 'd stream_hub \<Rightarrow> 'd stream_frame list \<times> 'd stream_hub" where
  "hub_step s fh = (case s of
     Publish_Step now e i d \<Rightarrow> (let (frame, hub) = hub_publish now e i d (snd fh) in (fst fh @ [frame], hub))
   | Mint_Step now \<Rightarrow> (fst fh, snd (mint_cursor now (snd fh))))"

definition hub_run :: "'d hub_step list \<Rightarrow> 'd stream_frame list \<times> 'd stream_hub \<Rightarrow> 'd stream_frame list \<times> 'd stream_hub" where
  "hub_run = fold hub_step"

definition last_frames :: "nat \<Rightarrow> 'a list \<Rightarrow> 'a list" where
  "last_frames n xs = drop (length xs - n) xs"

text \<open>The history holds: cursors carry distinct numbers up to the sequence, the buffer the last frames.\<close>

definition hub_history :: "'d stream_frame list \<times> 'd stream_hub \<Rightarrow> bool" where
  "hub_history fh = (rb_entries (sh_buffer (snd fh)) =
       map (\<lambda>f. (sf_cursor f, f)) (last_frames (rb_capacity (sh_buffer (snd fh))) (fst fh)) \<and>
     distinct (map sf_cursor (fst fh)) \<and>
     (\<forall>f\<in>set (fst fh). \<exists>now k. k \<le> sh_sequence (snd fh) \<and> sf_cursor f = cursor_text now k))"

lemma shift_to_drop: "shift_to n xs = drop (length xs - n) xs"
  by (induction n xs rule: shift_to.induct) (auto simp: Suc_diff_le)

lemma last_frames_snoc: "last_frames n (xs @ [x]) = drop (length (last_frames n xs @ [x]) - n) (last_frames n xs @ [x])"
  by (cases "length xs < n") (auto simp: last_frames_def Suc_diff_le)

lemma push_entry_last:
  assumes "rb_entries b = map g (last_frames (rb_capacity b) fs)" and "g f = (c, v)"
  shows "rb_entries (push_entry c v b) = map g (last_frames (rb_capacity b) (fs @ [f]))"
proof -
  have "rb_entries b @ [(c, v)] = map g (last_frames (rb_capacity b) fs @ [f])"
    using assms by simp
  then show ?thesis
    by (simp add: push_entry_def shift_to_drop last_frames_snoc drop_map del: map_append drop_append)
qed

lemma push_entry_capacity [simp]: "rb_capacity (push_entry c v b) = rb_capacity b"
  by (simp add: push_entry_def)

lemma hub_step_history:
  assumes "hub_history fh"
  shows "hub_history (hub_step s fh) \<and> rb_capacity (sh_buffer (snd (hub_step s fh))) = rb_capacity (sh_buffer (snd fh))"
proof (cases s)
  case (Publish_Step now e i d)
  obtain fs hub where fh: "fh = (fs, hub)" by fastforce
  let ?c = "cursor_text now (Suc (sh_sequence hub))"
  let ?f = "\<lparr> sf_cursor = ?c, sf_event = e, sf_order = i, sf_data = d \<rparr>"
  have fresh: "?c \<notin> set (map sf_cursor fs)"
  proof
    assume "?c \<in> set (map sf_cursor fs)"
    then obtain t k where "k \<le> sh_sequence hub" "?c = cursor_text t k"
      using assms by (auto simp: hub_history_def fh)
    with cursor_text_inject [of now "Suc (sh_sequence hub)" t k] show False by simp
  qed
  have "rb_entries (push_entry ?c ?f (sh_buffer hub)) =
      map (\<lambda>f. (sf_cursor f, f)) (last_frames (rb_capacity (sh_buffer hub)) (fs @ [?f]))"
    using assms by (intro push_entry_last) (simp_all add: hub_history_def fh)
  moreover have "\<exists>t k. k \<le> Suc (sh_sequence hub) \<and> sf_cursor f = cursor_text t k" if "f \<in> set fs" for f
  proof -
    from assms that obtain t k where "k \<le> sh_sequence hub" "sf_cursor f = cursor_text t k"
      by (auto simp: hub_history_def fh)
    then show ?thesis by (metis le_SucI)
  qed
  ultimately show ?thesis using assms fresh
    by (auto simp: Publish_Step hub_step_def hub_publish_def next_cursor_def hub_history_def fh Let_def)
next
  case (Mint_Step now)
  have "\<exists>t k. k \<le> Suc (sh_sequence (snd fh)) \<and> sf_cursor f = cursor_text t k" if "f \<in> set (fst fh)" for f
  proof -
    from assms that obtain t k where "k \<le> sh_sequence (snd fh)" "sf_cursor f = cursor_text t k"
      by (auto simp: hub_history_def)
    then show ?thesis by (metis le_SucI)
  qed
  with Mint_Step show ?thesis using assms
    by (auto simp: hub_step_def mint_cursor_def next_cursor_def hub_history_def Let_def)
qed

lemma hub_run_history:
  "hub_history fh \<Longrightarrow> hub_history (hub_run ss fh) \<and>
    rb_capacity (sh_buffer (snd (hub_run ss fh))) = rb_capacity (sh_buffer (snd fh))"
  unfolding hub_run_def by (induction ss arbitrary: fh) (simp_all add: hub_step_history)

lemma new_hub_history: "new_stream_hub n = Inr hub \<Longrightarrow> hub_history ([], hub) \<and> rb_capacity (sh_buffer hub) = n"
  by (auto simp: new_stream_hub_def new_replay_buffer_def hub_history_def last_frames_def split: if_splits)

lemma dropWhile_found:
  assumes "distinct (map g xs)" and "xs = us @ x # ws"
  shows "dropWhile (\<lambda>e. fst e \<noteq> g x) (map (\<lambda>y. (g y, y)) xs) = (g x, x) # map (\<lambda>y. (g y, y)) ws"
proof -
  have "g x \<notin> g ` set us" using assms by (simp add: distinct_map)
  then have "\<forall>y\<in>set us. g y \<noteq> g x" by (metis image_eqI)
  then have "dropWhile (\<lambda>e. fst e \<noteq> g x) (map (\<lambda>y. (g y, y)) us @ (g x, x) # map (\<lambda>y. (g y, y)) ws) =
      (g x, x) # map (\<lambda>y. (g y, y)) ws"
    by (subst dropWhile_append2) auto
  then show ?thesis by (simp add: assms(2))
qed

lemma replay_after_absent: "c \<notin> fst ` set (rb_entries b) \<Longrightarrow> replay_after (Some c) b = not_resumed"
proof -
  assume a: "c \<notin> fst ` set (rb_entries b)"
  obtain es where es: "rb_entries b = es" by simp
  have "c \<notin> fst ` set es \<Longrightarrow> (case dropWhile (\<lambda>e. fst e \<noteq> c) es of [] \<Rightarrow> not_resumed
     | _ # later \<Rightarrow> \<lparr> rr_resumed = True, rr_missed = map snd later \<rparr>) = not_resumed"
    by (induction es) auto
  with a show ?thesis by (simp add: replay_after_def es)
qed
text \<open>
  C24: a reconnecting client misses nothing the buffer still holds.  After any publications and
  minted cursors of a hub, let the client come back with the cursor of the \<open>k\<close>-th published frame.
  If that frame is among the last \<open>n\<close>, the capacity of the buffer, the stream resumes and sends
  exactly the frames published after it (those of the client's order), in their order; if it is
  older, the stream says that it does not resume and sends none.
\<close>

theorem stream_resumes_exactly:
  assumes "new_stream_hub n = Inr hub0" and "hub_run steps ([], hub0) = (frames, hub)" and "k < length frames"
  shows "stream_connect now order (Some (sf_cursor (frames ! k))) hub =
    (if length frames \<le> k + n
     then (Stream_Ready (sf_cursor (frames ! k)) True order #
            map Stream_Content (filter (matches_filter order) (drop (Suc k) frames)), hub)
     else ([Stream_Ready (sf_cursor (frames ! k)) False order], hub))"
proof -
  have history: "hub_history (frames, hub)" and cap: "rb_capacity (sh_buffer hub) = n"
    using hub_run_history [of "([], hub0)" steps] new_hub_history [OF assms(1)] assms(2) by auto
  let ?m = "length frames - n"
  have entries: "rb_entries (sh_buffer hub) = map (\<lambda>f. (sf_cursor f, f)) (drop ?m frames)"
    using history by (simp add: hub_history_def cap last_frames_def)
  have dist: "distinct (map sf_cursor frames)" using history by (simp add: hub_history_def)
  show ?thesis
  proof (cases "length frames \<le> k + n")
    case True
    have "drop ?m frames = drop ?m (take k frames) @ frames ! k # drop (Suc k) frames"
      using True assms(3) by (subst id_take_nth_drop [OF assms(3)]) (simp add: min_def)
    moreover have "distinct (map sf_cursor (drop ?m frames))"
      using dist by (simp add: distinct_drop flip: drop_map)
    ultimately have "dropWhile (\<lambda>e. fst e \<noteq> sf_cursor (frames ! k)) (rb_entries (sh_buffer hub)) =
        (sf_cursor (frames ! k), frames ! k) # map (\<lambda>f. (sf_cursor f, f)) (drop (Suc k) frames)"
      unfolding entries by (intro dropWhile_found)
    then show ?thesis using True
      by (simp add: stream_connect_def hub_replay_after_def replay_after_def comp_def)
  next
    case False
    have other: "sf_cursor f \<noteq> sf_cursor (frames ! k)" if "f \<in> set (drop ?m frames)" for f
    proof -
      from that obtain j where j: "j < length (drop ?m frames)" "f = drop ?m frames ! j" by (metis in_set_conv_nth)
      then have "f = frames ! (?m + j)" "?m + j < length frames" "?m + j \<noteq> k" using False by simp_all
      with dist assms(3) show ?thesis by (metis length_map nth_eq_iff_index_eq nth_map)
    qed
    have "fst ` set (rb_entries (sh_buffer hub)) = sf_cursor ` set (drop ?m frames)"
      unfolding entries by (simp add: image_image)
    then have "sf_cursor (frames ! k) \<notin> fst ` set (rb_entries (sh_buffer hub))"
      by (metis imageE other)
    then have "hub_replay_after (Some (sf_cursor (frames ! k))) hub = not_resumed"
      unfolding hub_replay_after_def by (rule replay_after_absent)
    then show ?thesis using False by (simp add: stream_connect_def not_resumed_def)
  qed
qed

definition example_hub_run :: "nat hub_step list" where
  "example_hub_run = [Publish_Step 5 Order_Updated_Event ''o1'' 1, Mint_Step 5, Publish_Step 5 Order_Updated_Event ''o2'' 2,
     Publish_Step 6 Timeline_Appended_Event ''o1'' 3]"

theorem stream_resumes_exactly_witness:
  "case hub_run example_hub_run ([], \<lparr> sh_buffer = \<lparr> rb_entries = [], rb_capacity = 2 \<rparr>, sh_sequence = 0 \<rparr>) of (frames, hub) \<Rightarrow>
     map sf_cursor frames = [''5-1'', ''5-3'', ''6-4''] \<and>
     stream_connect 9 (Some ''o1'') (Some ''5-3'') hub =
       ([Stream_Ready ''5-3'' True (Some ''o1''), Stream_Content (frames ! 2)], hub) \<and>
     stream_connect 9 (Some ''o1'') (Some ''5-1'') hub = ([Stream_Ready ''5-1'' False (Some ''o1'')], hub)"
proof -
  let ?hub0 = "\<lparr> sh_buffer = \<lparr> rb_entries = [], rb_capacity = 2 \<rparr>, sh_sequence = 0 \<rparr> :: nat stream_hub"
  obtain frames hub where run: "hub_run example_hub_run ([], ?hub0) = (frames, hub)" by fastforce
  have new: "new_stream_hub 2 = Inr ?hub0" by (simp add: new_stream_hub_def new_replay_buffer_def)
  have "map sf_cursor (fst (hub_run example_hub_run ([], ?hub0))) = [''5-1'', ''5-3'', ''6-4'']"
    "map sf_order (fst (hub_run example_hub_run ([], ?hub0))) = [''o1'', ''o2'', ''o1'']"
    by code_simp+
  then have cursors: "map sf_cursor frames = [''5-1'', ''5-3'', ''6-4'']"
    and orders: "map sf_order frames = [''o1'', ''o2'', ''o1'']" by (simp_all add: run)
  obtain a b c where frames: "frames = [a, b, c]" using cursors by (auto simp: map_eq_Cons_conv)
  show ?thesis
    using stream_resumes_exactly [OF new run, of 1 9 "Some ''o1''"] stream_resumes_exactly [OF new run, of 0 9 "Some ''o1''"]
      cursors orders
    by (simp add: run frames matches_filter_def)
qed

end
