(* ===== verification/Gateway_Orders.thy ===== *)
theory Gateway_Orders
  imports Read_Model_Properties Gateway_Stream
begin

text \<open>
  The gateway's order queries (apps/gateway/src): the mapper from a stored document to the rows
  of the list and to the detail, the list query over the collection, the window of the order
  identifiers this process has handed out and the three answers of a lookup by id.  The
  collection of a list query is the documents in the order the store scans them; two documents of
  one order date keep it.
\<close>

section \<open>The shapes of the interface\<close>

record party_view =
  pv_code :: string
  pv_name :: "string option"
  pv_gln :: string

record order_summary =
  os_order :: uid
  os_reference :: string
  os_date :: instant
  os_retailer :: party_view
  os_company :: party_view
  os_status :: order_status
  os_reason :: "cancellation_reason option"
  os_currency :: string
  os_totals :: header_totals
  os_updated :: instant

record order_detail =
  ot_order :: uid
  ot_reference :: "string option"
  ot_date :: "instant option"
  ot_retailer :: "party_view option"
  ot_company :: "party_view option"
  ot_status :: order_status
  ot_reason :: "cancellation_reason option"
  ot_currency :: "string option"
  ot_totals :: "header_totals option"
  ot_items :: "header_item list"
  ot_references :: references_delta
  ot_events :: "timeline_entry list"
  ot_complete :: bool
  ot_updated :: instant

text \<open>The texts JavaScript takes for true.\<close>

definition truthy_text :: "string option \<Rightarrow> string option" where
  "truthy_text v = (case v of None \<Rightarrow> None | Some s \<Rightarrow> if s = [] then None else Some s)"

definition party_ref_view :: "party_ref \<Rightarrow> party_view option" where
  "party_ref_view p = (case (truthy_text (pr_code p), truthy_text (pr_gln p)) of
     (Some c, Some g) \<Rightarrow> Some \<lparr> pv_code = c, pv_name = truthy_text (pr_name p), pv_gln = g \<rparr>
   | _ \<Rightarrow> None)"

text \<open>
  The totals of a document are one optional value: the projector writes the three amounts together, so
  the zero that the code takes for a missing amount or discount beside a total is not needed.
\<close>

definition to_order_summary :: "order_document \<Rightarrow> order_summary option" where
  "to_order_summary doc =
     (case (truthy_text (od_reference doc), od_date doc, truthy_text (od_currency doc), party_ref_view (od_retailer doc),
         party_ref_view (od_company doc), od_totals doc) of
       (Some ref, Some d, Some cur, Some ret, Some com, Some t) \<Rightarrow>
         Some \<lparr> os_order = od_order doc, os_reference = ref, os_date = d, os_retailer = ret, os_company = com,
           os_status = od_status doc, os_reason = od_reason doc, os_currency = cur, os_totals = t,
           os_updated = od_updated doc \<rparr>
     | _ \<Rightarrow> None)"

definition to_order_detail :: "order_document \<Rightarrow> order_detail" where
  "to_order_detail doc = \<lparr> ot_order = od_order doc, ot_reference = od_reference doc, ot_date = od_date doc,
     ot_retailer = party_ref_view (od_retailer doc), ot_company = party_ref_view (od_company doc),
     ot_status = od_status doc, ot_reason = od_reason doc, ot_currency = od_currency doc, ot_totals = od_totals doc,
     ot_items = od_items doc, ot_references = od_references doc, ot_events = od_events doc,
     ot_complete = od_complete doc, ot_updated = od_updated doc \<rparr>"

section \<open>The list\<close>

record order_list_filter =
  lf_status :: "string list option"
  lf_retailer :: "string option"
  lf_company :: "string option"
  lf_reference :: "string option"
  lf_page :: nat
  lf_size :: nat

text \<open>A condition is added for a non-empty value only.\<close>

definition filter_matches :: "order_list_filter \<Rightarrow> order_document \<Rightarrow> bool" where
  "filter_matches q doc =
     ((case lf_status q of None \<Rightarrow> True | Some ss \<Rightarrow> ss = [] \<or> status_name (od_status doc) \<in> set ss) \<and>
      (case truthy_text (lf_retailer q) of None \<Rightarrow> True | Some c \<Rightarrow> pr_code (od_retailer doc) = Some c) \<and>
      (case truthy_text (lf_company q) of None \<Rightarrow> True | Some c \<Rightarrow> pr_code (od_company doc) = Some c) \<and>
      (case truthy_text (lf_reference q) of None \<Rightarrow> True | Some ref \<Rightarrow> od_reference doc = Some ref))"

text \<open>Descending by date; the store puts a document without one last.\<close>

definition date_rank :: "order_document \<Rightarrow> nat \<times> int" where
  "date_rank doc = (case od_date doc of None \<Rightarrow> (1, 0) | Some d \<Rightarrow> (0, - d))"

definition find_orders :: "order_list_filter \<Rightarrow> order_document list \<Rightarrow> order_document list \<times> nat" where
  "find_orders q docs = (let matching = filter (filter_matches q) docs in
     (take (lf_size q) (drop ((lf_page q - 1) * lf_size q) (sort_key date_rank matching)), length matching))"

definition list_orders :: "order_list_filter \<Rightarrow> order_document list \<Rightarrow> order_summary list \<times> nat" where
  "list_orders q docs = (case find_orders q docs of (items, n) \<Rightarrow> (List.map_filter to_order_summary items, n))"

text \<open>The texts of the header.\<close>

definition header_texts :: "order_document \<Rightarrow> string option list" where
  "header_texts doc = [od_reference doc, od_currency doc, pr_code (od_retailer doc), pr_gln (od_retailer doc),
     pr_code (od_company doc), pr_gln (od_company doc)]"

lemma truthy_text_present [simp]: "v \<noteq> Some [] \<Longrightarrow> truthy_text v = v"
  by (auto simp: truthy_text_def split: option.split)

lemma party_ref_view_None:
  "\<lbrakk> pr_code p \<noteq> Some []; pr_gln p \<noteq> Some [] \<rbrakk> \<Longrightarrow> party_ref_view p \<noteq> None \<longleftrightarrow> pr_code p \<noteq> None \<and> pr_gln p \<noteq> None"
  by (auto simp: party_ref_view_def split: option.split)

lemma to_order_summary_Some:
  assumes "list_all (\<lambda>t. t \<noteq> Some []) (header_texts doc)"
  shows "to_order_summary doc \<noteq> None \<longleftrightarrow> od_reference doc \<noteq> None \<and> od_date doc \<noteq> None \<and> od_currency doc \<noteq> None \<and>
    party_ref_view (od_retailer doc) \<noteq> None \<and> party_ref_view (od_company doc) \<noteq> None \<and> od_totals doc \<noteq> None"
proof -
  have "truthy_text (od_reference doc) = od_reference doc" "truthy_text (od_currency doc) = od_currency doc"
    using assms by (simp_all add: header_texts_def)
  then show ?thesis
    unfolding to_order_summary_def by (simp split: option.split)
qed

text \<open>
  C27: the list shows exactly the placed orders, and each row agrees with the detail.  Take a
  document of a read model built from any deliveries, whose header texts are not empty texts.  It
  is a row of the list, with every required field present, exactly when the fact of its placement
  is in its timeline; and every field of the row, identity, reference, date, parties, status,
  cancellation reason, currency, totals and instant of the last update, is that of the detail of
  the order.
\<close>

theorem order_listed_iff_placed:
  assumes "ps_documents (read_model_run run empty_read_model) order = Some doc"
    and "list_all (\<lambda>t. t \<noteq> Some []) (header_texts doc)"
  shows "(to_order_summary doc \<noteq> None \<longleftrightarrow> Order_Placed \<in> te_type ` set (od_events doc)) \<and>
    pred_option (\<lambda>s. os_order s = order \<and> Some (os_reference s) = ot_reference (to_order_detail doc) \<and>
      Some (os_date s) = ot_date (to_order_detail doc) \<and> Some (os_retailer s) = ot_retailer (to_order_detail doc) \<and>
      Some (os_company s) = ot_company (to_order_detail doc) \<and> os_status s = ot_status (to_order_detail doc) \<and>
      os_reason s = ot_reason (to_order_detail doc) \<and> Some (os_currency s) = ot_currency (to_order_detail doc) \<and>
      Some (os_totals s) = ot_totals (to_order_detail doc) \<and> os_updated s = ot_updated (to_order_detail doc)) (to_order_summary doc)"
proof
  have ok: "document_ok order doc" by (rule run_document_ok [OF assms(1)])
  then have "\<forall>present\<in>set (header_presence doc). present \<longleftrightarrow> Order_Placed \<in> te_type ` set (od_events doc)"
    by (simp add: document_ok_def fields_match_def list_all_iff Let_def)
  moreover have "to_order_summary doc \<noteq> None \<longleftrightarrow> (\<forall>present\<in>set (tl (header_presence doc)). present)"
    unfolding to_order_summary_Some [OF assms(2)]
    using assms(2) by (simp add: party_ref_view_None header_texts_def header_presence_def del: not_None_eq) blast
  ultimately show "to_order_summary doc \<noteq> None \<longleftrightarrow> Order_Placed \<in> te_type ` set (od_events doc)"
    by (simp add: header_presence_def)
  show "pred_option (\<lambda>s. os_order s = order \<and> Some (os_reference s) = ot_reference (to_order_detail doc) \<and>
      Some (os_date s) = ot_date (to_order_detail doc) \<and> Some (os_retailer s) = ot_retailer (to_order_detail doc) \<and>
      Some (os_company s) = ot_company (to_order_detail doc) \<and> os_status s = ot_status (to_order_detail doc) \<and>
      os_reason s = ot_reason (to_order_detail doc) \<and> Some (os_currency s) = ot_currency (to_order_detail doc) \<and>
      Some (os_totals s) = ot_totals (to_order_detail doc) \<and> os_updated s = ot_updated (to_order_detail doc)) (to_order_summary doc)"
    using ok
    by (auto simp: option.pred_set to_order_summary_def to_order_detail_def document_ok_def truthy_text_def
        split: option.splits if_splits)
qed

text \<open>The number of a list counts the placeholders that its rows leave out.\<close>

lemma list_counts_placeholders:
  "\<lbrakk> lf_status q = None; truthy_text (lf_retailer q) = None; truthy_text (lf_company q) = None; truthy_text (lf_reference q) = None \<rbrakk> \<Longrightarrow>
    list_orders q [placeholder_skeleton order seed] = ([], 1)"
proof -
  assume "lf_status q = None" "truthy_text (lf_retailer q) = None" "truthy_text (lf_company q) = None" "truthy_text (lf_reference q) = None"
  then have match: "filter_matches q (placeholder_skeleton order seed)" by (simp add: filter_matches_def)
  have "to_order_summary (placeholder_skeleton order seed) = None"
    by (simp add: to_order_summary_def placeholder_skeleton_def truthy_text_def)
  then have "List.map_filter to_order_summary (take n (drop k [placeholder_skeleton order seed])) = []" for n k
    by (cases k; cases n) (simp_all add: List.map_filter_simps)
  then show ?thesis by (simp add: list_orders_def find_orders_def match)
qed

section \<open>The identifiers handed out\<close>

record issued_window =
  wi_issued :: "(uid \<times> instant) list"
  wi_ttl :: int
  wi_capacity :: nat

datatype window_error = Window_Ttl | Window_Capacity

definition new_issued_window :: "int \<Rightarrow> nat \<Rightarrow> window_error + issued_window" where
  "new_issued_window ttl capacity = (if ttl < 1 then Inl Window_Ttl
     else if capacity < 1 then Inl Window_Capacity
     else Inr \<lparr> wi_issued = [], wi_ttl = ttl, wi_capacity = capacity \<rparr>)"

definition record_issued :: "instant \<Rightarrow> uid \<Rightarrow> issued_window \<Rightarrow> issued_window" where
  "record_issued now i w = w \<lparr> wi_issued := shift_to (wi_capacity w) (AList.update i now (wi_issued w)) \<rparr>"

definition is_recently_issued :: "instant \<Rightarrow> uid \<Rightarrow> issued_window \<Rightarrow> bool \<times> issued_window" where
  "is_recently_issued now i w = (case map_of (wi_issued w) i of
     None \<Rightarrow> (False, w)
   | Some t \<Rightarrow> if now - t > wi_ttl w then (False, w \<lparr> wi_issued := AList.delete i (wi_issued w) \<rparr>) else (True, w))"

section \<open>A lookup by id\<close>

datatype get_order_result = Order_Found order_detail | Order_Pending | Order_Unknown

definition get_order :: "instant \<Rightarrow> documents \<Rightarrow> uid \<Rightarrow> issued_window \<Rightarrow> get_order_result \<times> issued_window" where
  "get_order now docs i w = (case docs i of
     Some doc \<Rightarrow> (Order_Found (to_order_detail doc), w)
   | None \<Rightarrow> (case is_recently_issued now i w of
       (True, w') \<Rightarrow> (Order_Pending, w')
     | (False, w') \<Rightarrow> (Order_Unknown, w')))"

text \<open>The answer of the controller: the status, with the seconds to wait before a retry.\<close>

datatype order_answer = Order_Answer nat "order_detail option" "nat option"

definition projection_pending_retry_after_seconds :: nat where
  "projection_pending_retry_after_seconds = 2"

definition answer_get_order :: "instant \<Rightarrow> documents \<Rightarrow> string \<Rightarrow> issued_window \<Rightarrow> order_answer \<times> issued_window" where
  "answer_get_order now docs text w = (case unique_id_from text of
     Inl _ \<Rightarrow> (Order_Answer 400 None None, w)
   | Inr i \<Rightarrow> (case get_order now docs i w of
       (Order_Found d, w') \<Rightarrow> (Order_Answer 200 (Some d) None, w')
     | (Order_Pending, w') \<Rightarrow> (Order_Answer 202 None (Some projection_pending_retry_after_seconds), w')
     | (Order_Unknown, w') \<Rightarrow> (Order_Answer 404 None None, w')))"

section \<open>An order just placed is not unknown\<close>

datatype window_step = Window_Record instant uid | Window_Read instant uid

fun apply_window_step :: "window_step \<Rightarrow> issued_window \<Rightarrow> issued_window" where
  "apply_window_step (Window_Record now i) w = record_issued now i w"
| "apply_window_step (Window_Read now i) w = snd (is_recently_issued now i w)"

definition window_run :: "window_step list \<Rightarrow> issued_window \<Rightarrow> issued_window" where
  "window_run = fold apply_window_step"

fun recorded_ids :: "window_step list \<Rightarrow> uid set" where
  "recorded_ids [] = {}"
| "recorded_ids (Window_Record _ i # ss) = insert i (recorded_ids ss)"
| "recorded_ids (Window_Read _ _ # ss) = recorded_ids ss"

fun step_instant :: "window_step \<Rightarrow> instant" where
  "step_instant (Window_Record now _) = now"
| "step_instant (Window_Read now _) = now"

text \<open>The entry of \<open>i\<close> is held, and what stands behind it was recorded later.\<close>

definition held_before :: "uid \<Rightarrow> instant \<Rightarrow> uid set \<Rightarrow> issued_window \<Rightarrow> bool" where
  "held_before i t0 later w = (\<exists>us vs t. map fst (wi_issued w) = us @ i # vs \<and> distinct (us @ i # vs) \<and>
     set vs \<subseteq> later - {i} \<and> map_of (wi_issued w) i = Some t \<and> t0 \<le> t)"

lemma held_beforeI:
  "\<lbrakk> map fst (wi_issued w) = us @ i # vs; distinct (us @ i # vs); set vs \<subseteq> later - {i};
     map_of (wi_issued w) i = Some t; t0 \<le> t \<rbrakk> \<Longrightarrow> held_before i t0 later w"
  unfolding held_before_def by blast

lemma record_issued_fields [simp]:
  "wi_ttl (record_issued now j w) = wi_ttl w" "wi_capacity (record_issued now j w) = wi_capacity w"
  by (simp_all add: record_issued_def)

lemma read_fields [simp]:
  "wi_ttl (snd (is_recently_issued now j w)) = wi_ttl w" "wi_capacity (snd (is_recently_issued now j w)) = wi_capacity w"
  by (simp_all add: is_recently_issued_def split: option.split)

lemma window_step_fields [simp]:
  "wi_ttl (apply_window_step s w) = wi_ttl w" "wi_capacity (apply_window_step s w) = wi_capacity w"
  by (cases s; simp)+

lemma window_run_fields [simp]:
  "wi_ttl (window_run ss w) = wi_ttl w" "wi_capacity (window_run ss w) = wi_capacity w"
  by (induction ss arbitrary: w) (simp_all add: window_run_def)

lemma map_of_drop:
  assumes "i \<notin> fst ` set (take n xs)"
  shows "map_of (drop n xs) i = map_of xs i"
proof -
  have "map_of xs i = (map_of (drop n xs) ++ map_of (take n xs)) i"
    by (metis append_take_drop_id map_of_append)
  also have "\<dots> = map_of (drop n xs) i"
    using assms map_of_eq_None_iff [of "take n xs" i] by (simp add: map_add_def)
  finally show ?thesis ..
qed

lemma record_keeps_held:
  assumes "held_before i t0 later w" and "t0 \<le> now" and "finite later"
    and "card (insert j later - {i}) < wi_capacity w"
  shows "held_before i t0 (insert j later) (record_issued now j w)"
proof -
  obtain us vs t where h: "map fst (wi_issued w) = us @ i # vs" "distinct (us @ i # vs)" "set vs \<subseteq> later - {i}"
      "map_of (wi_issued w) i = Some t" "t0 \<le> t"
    using assms(1) by (auto simp: held_before_def)
  let ?xs = "AList.update j now (wi_issued w)"
  let ?n = "length ?xs - wi_capacity w"
  define vs' where "vs' = (if j \<in> set (us @ i # vs) then vs else vs @ [j])"
  have keys: "map fst ?xs = us @ i # vs'" by (simp add: update_keys h(1) vs'_def)
  have dist: "distinct (us @ i # vs')" and later: "set vs' \<subseteq> insert j later - {i}"
    using h(2,3) by (auto simp: vs'_def)
  have "length vs' \<le> card (insert j later - {i})"
    using card_mono [OF _ later] dist assms(3) by (simp add: distinct_card)
  with assms(4) have room: "?n \<le> length us" using arg_cong [OF keys, of length] by simp
  have drop_keys: "map fst (drop ?n ?xs) = drop ?n us @ i # vs'"
    using room by (simp add: keys drop_map [symmetric] drop_Cons')
  have "fst ` set (take ?n ?xs) = set (take ?n (us @ i # vs'))"
    by (simp only: keys [symmetric] take_map set_map)
  also have "\<dots> = set (take ?n us)" using room by simp
  finally have "i \<notin> fst ` set (take ?n ?xs)" using dist by (auto dest: in_set_takeD)
  then have "map_of (drop ?n ?xs) i = map_of ?xs i" by (rule map_of_drop)
  then obtain t' where "map_of (drop ?n ?xs) i = Some t'" "t0 \<le> t'"
    using h(4,5) assms(2) by (cases "i = j") (simp_all add: update_conv')
  moreover have "distinct (drop ?n us @ i # vs')" using dist by (auto dest: in_set_dropD)
  ultimately show ?thesis
    using drop_keys later by (intro held_beforeI [of _ "drop ?n us" i vs']) (simp_all add: record_issued_def shift_to_drop)
qed

lemma read_keeps_held:
  assumes "held_before i t0 later w" and "now \<le> t0 + wi_ttl w"
  shows "held_before i t0 later (snd (is_recently_issued now j w))"
proof -
  obtain us vs t where h: "map fst (wi_issued w) = us @ i # vs" "distinct (us @ i # vs)" "set vs \<subseteq> later - {i}"
      "map_of (wi_issued w) i = Some t" "t0 \<le> t"
    using assms(1) by (auto simp: held_before_def)
  show ?thesis
  proof (cases "snd (is_recently_issued now j w) = w")
    case False
    then obtain u where u: "map_of (wi_issued w) j = Some u" "now - u > wi_ttl w"
        "snd (is_recently_issued now j w) = w \<lparr> wi_issued := AList.delete j (wi_issued w) \<rparr>"
      by (auto simp: is_recently_issued_def split: option.splits if_splits)
    then have "j \<noteq> i" using h(4,5) assms(2) by auto
    then have "map fst (AList.delete j (wi_issued w)) = removeAll j us @ i # removeAll j vs"
      "map_of (AList.delete j (wi_issued w)) i = Some t"
      using h(4) by (simp_all add: delete_keys h(1) delete_conv')
    moreover have "distinct (removeAll j us @ i # removeAll j vs)" "set (removeAll j vs) \<subseteq> later - {i}"
      using h(2,3) by (auto simp: distinct_removeAll)
    ultimately show ?thesis using h(5) by (intro held_beforeI [of _ "removeAll j us" i "removeAll j vs"]) (simp_all add: u(3))
  qed (use assms(1) in simp)
qed

text \<open>A window after any history: its keys are distinct and were recorded.\<close>

lemma record_keys:
  "set (map fst (wi_issued (record_issued now j w))) \<subseteq> insert j (set (map fst (wi_issued w)))"
  "distinct (map fst (wi_issued w)) \<Longrightarrow> distinct (map fst (wi_issued (record_issued now j w)))"
  using update_keys [of j now "wi_issued w"]
  by (auto simp: record_issued_def shift_to_drop drop_map [symmetric] dest: in_set_dropD)

lemma fst_delete: "fst ` set (AList.delete k al) = fst ` set al - {k}"
proof -
  have "set (map fst (AList.delete k al)) = set (map fst al) - {k}" by (simp only: delete_keys set_removeAll)
  then show ?thesis by simp
qed

lemma read_keys:
  "set (map fst (wi_issued (snd (is_recently_issued now j w)))) \<subseteq> set (map fst (wi_issued w))"
  "distinct (map fst (wi_issued w)) \<Longrightarrow> distinct (map fst (wi_issued (snd (is_recently_issued now j w))))"
  by (simp_all add: is_recently_issued_def fst_delete delete_keys distinct_removeAll split: option.split)

lemma window_run_keys:
  assumes "distinct (map fst (wi_issued w))"
  shows "distinct (map fst (wi_issued (window_run ss w))) \<and>
    set (map fst (wi_issued (window_run ss w))) \<subseteq> set (map fst (wi_issued w)) \<union> recorded_ids ss"
  using assms
proof (induction ss arbitrary: w)
  case (Cons s ss)
  show ?case
  proof (cases s)
    case (Window_Record now j)
    have "distinct (map fst (wi_issued (record_issued now j w)))" using record_keys(2) Cons.prems .
    from Cons.IH [OF this] record_keys(1) [of now j w] show ?thesis
      by (simp add: window_run_def Window_Record) (blast dest: subsetD)
  next
    case (Window_Read now j)
    have "distinct (map fst (wi_issued (snd (is_recently_issued now j w))))" using read_keys(2) Cons.prems .
    from Cons.IH [OF this] read_keys(1) [of now j w] show ?thesis
      by (simp add: window_run_def Window_Read) (blast dest: subsetD)
  qed
qed (simp add: window_run_def)

lemma finite_recorded [simp]: "finite (recorded_ids ss)"
  by (induction ss rule: recorded_ids.induct) simp_all

lemma recorded_append [simp]: "recorded_ids (xs @ ys) = recorded_ids xs \<union> recorded_ids ys"
  by (induction xs rule: recorded_ids.induct) simp_all

lemma run_keeps_held:
  assumes "held_before i t0 {} w" and "\<forall>s\<in>set ss. t0 \<le> step_instant s \<and> step_instant s \<le> t0 + wi_ttl w"
    and "card (recorded_ids ss - {i}) < wi_capacity w"
  shows "held_before i t0 (recorded_ids ss) (window_run ss w)"
  using assms(2,3)
proof (induction ss rule: rev_induct)
  case (snoc s ss)
  have "card (recorded_ids ss - {i}) \<le> card (recorded_ids (ss @ [s]) - {i})"
    by (intro card_mono) (cases s; auto)+
  then have held: "held_before i t0 (recorded_ids ss) (window_run ss w)" using snoc by simp
  show ?case
  proof (cases s)
    case (Window_Record now j)
    then have "held_before i t0 (insert j (recorded_ids ss)) (record_issued now j (window_run ss w))"
      using snoc.prems by (intro record_keeps_held [OF held]) simp_all
    then show ?thesis by (simp add: window_run_def Window_Record)
  next
    case (Window_Read now j)
    then have "held_before i t0 (recorded_ids ss) (snd (is_recently_issued now j (window_run ss w)))"
      using snoc.prems by (intro read_keeps_held [OF held]) simp
    then show ?thesis by (simp add: window_run_def Window_Read)
  qed
qed (use assms(1) in \<open>simp add: window_run_def\<close>)

lemma record_new_held:
  assumes "distinct (map fst (wi_issued w))" and "i \<notin> set (map fst (wi_issued w))" and "0 < wi_capacity w"
  shows "held_before i t0 {} (record_issued t0 i w)"
proof -
  let ?xs = "AList.update i t0 (wi_issued w)"
  let ?n = "length ?xs - wi_capacity w"
  have keys: "map fst ?xs = map fst (wi_issued w) @ [i]" using assms(2) by (simp add: update_keys)
  have n: "?n \<le> length (wi_issued w)" using assms(3) arg_cong [OF keys, of length] by simp
  then have "map fst (drop ?n ?xs) = drop ?n (map fst (wi_issued w)) @ i # []"
    by (simp add: keys drop_map [symmetric] drop_Cons')
  moreover have "i \<notin> fst ` set (take ?n ?xs)"
  proof -
    have "fst ` set (take ?n ?xs) = set (take ?n (map fst (wi_issued w) @ [i]))"
      by (simp only: keys [symmetric] take_map set_map)
    also have "\<dots> = set (take ?n (map fst (wi_issued w)))" using n by simp
    finally show ?thesis using assms(2) by (auto dest: in_set_takeD)
  qed
  then have "map_of (drop ?n ?xs) i = Some t0" by (simp add: map_of_drop update_conv')
  moreover have "distinct (drop ?n (map fst (wi_issued w)) @ i # [])"
    using assms(1,2) by (auto dest: in_set_dropD)
  ultimately show ?thesis
    by (intro held_beforeI [of _ "drop ?n (map fst (wi_issued w))" i "[]" "{}" t0])
      (simp_all add: record_issued_def shift_to_drop)
qed

text \<open>
  C26: an order just placed is not answered as unknown.  Let the gateway hand out an order
  identifier for the first time at \<open>t0\<close>, after any history of its window.  As long as its time to
  live has not passed, and fewer other identifiers than the window's capacity have been handed
  out since, a lookup whose document does not exist yet is answered as pending (202, with the
  seconds to wait), whatever lookups came before it.
\<close>

theorem placed_order_answers_pending:
  assumes "new_issued_window ttl n = Inr w0" and "i \<notin> recorded_ids earlier"
    and "\<forall>s\<in>set later. t0 \<le> step_instant s \<and> step_instant s \<le> t0 + ttl" and "now \<le> t0 + ttl"
    and "card (recorded_ids later - {i}) < n" and "docs i = None" and "unique_id_from text = Inr i"
  shows "fst (answer_get_order now docs text (window_run later (record_issued t0 i (window_run earlier w0)))) =
    Order_Answer 202 None (Some projection_pending_retry_after_seconds)"
proof -
  let ?w = "window_run earlier w0"
  have w0: "wi_issued w0 = []" "wi_ttl w0 = ttl" "wi_capacity w0 = n" "0 < n"
    using assms(1) by (auto simp: new_issued_window_def split: if_splits)
  have "distinct (map fst (wi_issued ?w))" "i \<notin> set (map fst (wi_issued ?w))"
    using window_run_keys [of w0 earlier] assms(2) by (auto simp: w0)
  then have "held_before i t0 {} (record_issued t0 i ?w)" by (rule record_new_held) (simp add: w0)
  then have "held_before i t0 (recorded_ids later) (window_run later (record_issued t0 i ?w))"
    by (rule run_keeps_held) (use assms(3,5) in \<open>simp_all add: w0\<close>)
  then obtain t where "map_of (wi_issued (window_run later (record_issued t0 i ?w))) i = Some t" "t0 \<le> t"
    by (auto simp: held_before_def)
  then show ?thesis using assms(4,6,7)
    by (simp add: answer_get_order_def get_order_def is_recently_issued_def w0)
qed

text \<open>
  Handing an identifier out again, as the answer to a repeated request is, renews its instant but
  not its place: when it is the oldest of a full window, the next new identifier evicts it.
\<close>

lemma reissued_order_evicted_first:
  assumes "wi_issued w = (i, t) # rest" and "length (wi_issued w) = wi_capacity w"
    and "distinct (map fst (wi_issued w))" and "j \<notin> set (map fst (wi_issued w))"
  shows "\<not> fst (is_recently_issued now i (record_issued t2 j (record_issued t1 i w)))"
proof -
  have upd: "AList.update j t2 al = al @ [(j, t2)]" if "j \<notin> fst ` set al" for al :: "(uid \<times> instant) list"
    using that by (induction al) auto
  have "wi_issued (record_issued t1 i w) = (i, t1) # rest" using assms(1,2) by (simp add: record_issued_def)
  then have "wi_issued (record_issued t2 j (record_issued t1 i w)) = rest @ [(j, t2)]"
    using assms(1,2,4) upd [of "(i, t1) # rest"] by (simp add: record_issued_def [of t2 j] shift_to_drop)
  moreover have "map_of (rest @ [(j, t2)]) i = None"
    using assms(1,3,4) by (auto simp: map_of_eq_None_iff)
  ultimately show ?thesis by (simp add: is_recently_issued_def del: map_of_append)
qed

end
