(* ===== verification/Billing_Queries.thy ===== *)
theory Billing_Queries
  imports Billing_Store "HOL-Library.List_Lexorder" "HOL-Library.Char_ord" "HOL-Library.Product_Lexorder"
begin

text \<open>
  The read side of the Billing service (apps/billing/src/infrastructure/persistence):
  invoice-read.repository.ts behind billing.invoice.list.  A page is a slice of the invoices that
  pass the filter, newest first; invoice references are unique, so the order is a total one.
\<close>

record page_info =
  pg_page :: nat
  pg_size :: nat
  pg_total :: nat

definition default_page :: nat where
  "default_page = 1"

definition default_page_size :: nat where
  "default_page_size = 25"

record invoice_query =
  iq_status :: "string option"
  iq_retailer :: "string option"
  iq_company :: "string option"
  iq_order :: "string option"
  iq_issued_before :: "int option"
  iq_page :: "nat option"
  iq_size :: "nat option"

record invoice_view =
  iw_id :: uid
  iw_reference :: string
  iw_date :: instant
  iw_order :: string
  iw_retailer :: string
  iw_company :: string
  iw_currency :: string
  iw_amount :: int
  iw_discount :: int
  iw_total :: int
  iw_status :: string
  iw_paid_at :: "instant option"

text \<open>A condition is added for each field that is present.\<close>

definition unless_absent :: "'a option \<Rightarrow> ('a \<Rightarrow> bool) \<Rightarrow> bool" where
  "unless_absent v cond = (case v of None \<Rightarrow> True | Some x \<Rightarrow> cond x)"

definition invoice_matches :: "invoice_query \<Rightarrow> instant \<Rightarrow> invoice_row \<Rightarrow> bool" where
  "invoice_matches q now r =
     (unless_absent (iq_status q) (\<lambda>s. vr_status r = s) \<and>
      unless_absent (iq_retailer q) (\<lambda>c. vr_retailer r = c) \<and>
      unless_absent (iq_company q) (\<lambda>c. vr_company r = c) \<and>
      unless_absent (iq_order q) (\<lambda>o'. vr_order r = o') \<and>
      unless_absent (iq_issued_before q) (\<lambda>m. vr_date r \<le> now - m * 60000))"

definition to_invoice_view :: "invoice_row \<Rightarrow> invoice_view" where
  "to_invoice_view r = \<lparr> iw_id = vr_id r, iw_reference = vr_reference r, iw_date = vr_date r, iw_order = vr_order r,
     iw_retailer = vr_retailer r, iw_company = vr_company r, iw_currency = vr_currency r, iw_amount = vr_amount r,
     iw_discount = vr_discount r, iw_total = vr_total r, iw_status = vr_status r, iw_paid_at = vr_paid_at r \<rparr>"

definition newest_first :: "invoice_row list \<Rightarrow> invoice_row list" where
  "newest_first rows = rev (sort_key (\<lambda>r. (vr_date r, vr_reference r)) rows)"

definition page_slice :: "nat \<Rightarrow> nat \<Rightarrow> 'a list \<Rightarrow> 'a list" where
  "page_slice page n xs = take n (drop ((page - 1) * n) xs)"

definition list_invoices :: "invoice_query \<Rightarrow> instant \<Rightarrow> billing_db \<Rightarrow> invoice_view list \<times> page_info" where
  "list_invoices q now db = (let page = or_else (iq_page q) default_page; n = or_else (iq_size q) default_page_size;
       rows = filter (invoice_matches q now) (bd_invoices db) in
     (map to_invoice_view (page_slice page n (newest_first rows)),
      \<lparr> pg_page = page, pg_size = n, pg_total = length rows \<rparr>))"

lemma unless_absent_simps [simp]: "unless_absent None c" "unless_absent (Some x) c = c x"
  by (simp_all add: unless_absent_def)

lemma length_newest_first [simp]: "length (newest_first rows) = length rows"
  by (simp add: newest_first_def)

lemma set_newest_first [simp]: "set (newest_first rows) = set rows"
  by (simp add: newest_first_def)

lemma mset_newest_first [simp]: "mset (newest_first rows) = mset rows"
  by (simp add: newest_first_def)

text \<open>The pages are consecutive: the first \<open>k\<close> of them are the first \<open>k\<close> sizes of rows.\<close>

lemma pages_consecutive:
  "concat (map (\<lambda>k. page_slice k n xs) [1..<Suc k]) = take (k * n) xs"
proof (induction k)
  case (Suc k)
  have "concat (map (\<lambda>k. page_slice k n xs) [1..<Suc (Suc k)]) =
      concat (map (\<lambda>k. page_slice k n xs) [1..<Suc k]) @ page_slice (Suc k) n xs" by simp
  also have "\<dots> = take (k * n) xs @ take n (drop (k * n) xs)"
    unfolding Suc.IH by (simp add: page_slice_def)
  also have "\<dots> = take (k * n + n) xs" by (rule take_add [symmetric])
  finally show ?case by (simp only: mult_Suc add.commute)
qed simp

lemma length_page_slice: "length (page_slice (Suc k) n xs) = min n (length xs - k * n)"
  by (simp add: page_slice_def min.commute)

end
