(* ===== verification/Gateway_Payments.thy ===== *)
theory Gateway_Payments
  imports Gateway_Orders Billing_Queries
begin

text \<open>
  The gateway's way from a payment to the order it settles (apps/gateway/src): the bounded scan of
  billing.invoice.list for the invoice, the lookup of the order in the read model, the call of
  billing.payment.register, and the translation of every error into a problem.  A page of the
  listing and the reply of the registration are arguments; the main property composes the scan
  with the listing of the Billing service.  The detail text of a problem and its extra members are
  left out, and no error code names a member of the Object prototype of JavaScript.
\<close>

section \<open>Calls and errors\<close>

datatype rpc_failure =
    Rpc_Timed_Out
  | Rpc_Unavailable string
  | Rpc_Refused string "string option"

datatype gateway_error =
    Rpc_Failed rpc_failure
  | Gateway_Invoice_Not_Found uid
  | Scan_Budget_Exceeded uid nat
  | Order_Not_Yet_Projected string
  | Invalid_Credentials
  | Invalid_Token
  | Login_Throttled
  | Unknown_Operator
  | Bad_Request
  | Http_Status nat string
  | Unexpected_Error

record problem =
  pb_status :: nat
  pb_code :: string
  pb_title :: string

definition problem_of :: "nat \<Rightarrow> string \<Rightarrow> string \<Rightarrow> problem" where
  "problem_of s c t = \<lparr> pb_status = s, pb_code = c, pb_title = t \<rparr>"

definition detail_code_overrides :: "(string \<times> problem) list" where
  "detail_code_overrides =
    [(''INVOICE_ALREADY_PAID'', problem_of 409 ''INVOICE_ALREADY_PAID''
        ''Invoice already paid''),
     (''INVOICE_PAYMENT_AMOUNT_MISMATCH'', problem_of 422 ''PAYMENT_MISMATCH''
        ''Payment amount does not match the invoice total''),
     (''INVOICE_PAYMENT_CURRENCY_MISMATCH'', problem_of 422 ''PAYMENT_MISMATCH''
        ''Payment currency does not match the invoice total''),
     (''PAYMENT_REFERENCE_CONFLICT'', problem_of 409 ''PAYMENT_REFERENCE_REUSED''
        ''Payment reference reused for a different invoice or amount''),
     (''ORDER_NOT_CANCELLABLE'', problem_of 409 ''ORDER_NOT_CANCELLABLE''
        ''Order is not cancellable'')]"

definition generic_code_classification :: "(string \<times> problem) list" where
  "generic_code_classification =
    [(''VALIDATION_FAILED'', problem_of 400 ''VALIDATION_FAILED''
        ''The request was malformed or failed validation''),
     (''NOT_FOUND'', problem_of 404 ''NOT_FOUND''
        ''No such resource''),
     (''CONFLICT'', problem_of 409 ''CONFLICT''
        ''The request conflicts with the current state''),
     (''PRECONDITION_FAILED'', problem_of 409 ''PRECONDITION_FAILED''
        ''A precondition of this operation was not met''),
     (''ORDER_NOT_CANCELLABLE'', problem_of 409 ''ORDER_NOT_CANCELLABLE''
        ''Order is not cancellable''),
     (''STOCK_UNAVAILABLE'', problem_of 409 ''STOCK_UNAVAILABLE''
        ''Insufficient stock at acceptance''),
     (''INVOICE_NOT_PAYABLE'', problem_of 409 ''INVOICE_NOT_PAYABLE''
        ''Invoice is not payable''),
     (''PAYMENT_MISMATCH'', problem_of 422 ''PAYMENT_MISMATCH''
        ''Payment amount or currency does not match the invoice''),
     (''DOMAIN_ERROR'', problem_of 422 ''DOMAIN_ERROR''
        ''A domain rule refused the request''),
     (''INTERNAL_ERROR'', problem_of 500 ''INTERNAL_ERROR''
        ''An unexpected error occurred''),
     (''UNAVAILABLE'', problem_of 503 ''UPSTREAM_UNAVAILABLE''
        ''The owning context is unreachable''),
     (''TIMEOUT'', problem_of 503 ''UPSTREAM_TIMEOUT''
        ''The owning context did not answer within the deadline'')]"

definition default_classification :: problem where
  "default_classification = problem_of 500 ''INTERNAL_ERROR'' ''An unexpected error occurred''"

definition classify_rpc_error :: "string \<Rightarrow> string option \<Rightarrow> problem" where
  "classify_rpc_error code detail =
     (case Option.bind detail (map_of detail_code_overrides) of
        Some p \<Rightarrow> p
      | None \<Rightarrow> or_else (map_of generic_code_classification code) default_classification)"

definition code_for_status :: "nat \<Rightarrow> string" where
  "code_for_status s = (if s = 401 then ''UNAUTHORIZED'' else if s = 404 then ''NOT_FOUND''
     else if s = 409 then ''CONFLICT'' else if s = 429 then ''TOO_MANY_REQUESTS'' else ''DOMAIN_ERROR'')"

fun rpc_problem :: "rpc_failure \<Rightarrow> problem" where
  "rpc_problem Rpc_Timed_Out = classify_rpc_error ''TIMEOUT'' None"
| "rpc_problem (Rpc_Unavailable _) = classify_rpc_error ''UNAVAILABLE'' None"
| "rpc_problem (Rpc_Refused code detail) = classify_rpc_error code detail"

fun classify_problem :: "gateway_error \<Rightarrow> problem" where
  "classify_problem (Rpc_Failed e) = rpc_problem e"
| "classify_problem Invalid_Credentials = problem_of 401 ''INVALID_CREDENTIALS''
     ''Bad credentials''"
| "classify_problem Invalid_Token = problem_of 401 ''UNAUTHORIZED''
     ''Missing, expired or invalid bearer token''"
| "classify_problem Login_Throttled = problem_of 429 ''TOO_MANY_REQUESTS''
     ''Too many requests''"
| "classify_problem (Gateway_Invoice_Not_Found _) = problem_of 404 ''NOT_FOUND''
     ''No such invoice''"
| "classify_problem (Scan_Budget_Exceeded _ _) = problem_of 503 ''SCAN_BUDGET_EXCEEDED''
     (''Could not resolve the invoice within this gateway'' @ [CHR 0x27] @ ''s search window'')"
| "classify_problem (Order_Not_Yet_Projected _) = problem_of 503 ''UPSTREAM_UNAVAILABLE''
     ''The order is not yet available for this operation''"
| "classify_problem Unknown_Operator = problem_of 500 ''INTERNAL_ERROR''
     ''An unexpected error occurred''"
| "classify_problem Bad_Request = problem_of 400 ''VALIDATION_FAILED''
     ''The request was malformed or failed schema validation''"
| "classify_problem (Http_Status s name) = problem_of s (code_for_status s) name"
| "classify_problem Unexpected_Error = problem_of 500 ''INTERNAL_ERROR''
     ''An unexpected error occurred''"

section \<open>The scan for an invoice\<close>

definition invoice_scan_page_size :: nat where
  "invoice_scan_page_size = 200"

definition invoice_scan_max_pages :: nat where
  "invoice_scan_max_pages = 5"

definition invoice_scan_request :: "nat \<Rightarrow> invoice_query" where
  "invoice_scan_request page = \<lparr> iq_status = None, iq_retailer = None, iq_company = None, iq_order = None,
     iq_issued_before = None, iq_page = Some page, iq_size = Some invoice_scan_page_size \<rparr>"

fun scan_invoices ::
    "(nat \<Rightarrow> rpc_failure + invoice_view list) \<Rightarrow> uid \<Rightarrow> nat list \<Rightarrow> nat \<Rightarrow> gateway_error + string" where
  "scan_invoices fetch i [] scanned = Inl (Scan_Budget_Exceeded i scanned)"
| "scan_invoices fetch i (page # pages) scanned = (case fetch page of
     Inl e \<Rightarrow> Inl (Rpc_Failed e)
   | Inr items \<Rightarrow> (case find (\<lambda>v. iw_id v = i) items of
       Some v \<Rightarrow> Inr (iw_order v)
     | None \<Rightarrow> if length items < invoice_scan_page_size then Inl (Gateway_Invoice_Not_Found i)
         else scan_invoices fetch i pages (scanned + length items)))"

definition resolve_order_reference :: "(nat \<Rightarrow> rpc_failure + invoice_view list) \<Rightarrow> uid \<Rightarrow> gateway_error + string" where
  "resolve_order_reference fetch i = scan_invoices fetch i [1..<Suc invoice_scan_max_pages] 0"

section \<open>Registering a payment\<close>

record payment_body =
  pd_payment_reference :: string
  pd_amount :: money
  pd_value_date :: string
  pd_source :: payment_source

datatype payment_reply_outcome = Payment_Accepted | Payment_Duplicate

definition find_by_order_reference :: "string \<Rightarrow> order_document list \<Rightarrow> order_document option" where
  "find_by_order_reference ref docs = find (\<lambda>d. od_reference d = Some ref) docs"

definition gateway_register_payment ::
    "(nat \<Rightarrow> rpc_failure + invoice_view list) \<Rightarrow> order_document list \<Rightarrow>
      (uid \<Rightarrow> payment_body \<Rightarrow> uid \<Rightarrow> rpc_failure + payment_reply_outcome) \<Rightarrow> uid \<Rightarrow> payment_body \<Rightarrow>
      gateway_error + payment_reply_outcome \<times> uid" where
  "gateway_register_payment fetch docs register i body =
     bindR (resolve_order_reference fetch i) (\<lambda>ref.
       case find_by_order_reference ref docs of
         None \<Rightarrow> Inl (Order_Not_Yet_Projected ref)
       | Some doc \<Rightarrow> bindR (mapErr Rpc_Failed (register i body (od_order doc))) (\<lambda>reply.
           Inr (reply, od_order doc)))"

text \<open>The answer of the controller: the status, the correlation id and the replay header, or a problem.\<close>

record payment_answer =
  pa_status :: nat
  pa_correlation :: uid
  pa_replay :: bool

definition answer_payment ::
    "(nat \<Rightarrow> rpc_failure + invoice_view list) \<Rightarrow> order_document list \<Rightarrow>
      (uid \<Rightarrow> payment_body \<Rightarrow> uid \<Rightarrow> rpc_failure + payment_reply_outcome) \<Rightarrow> string \<Rightarrow> payment_body \<Rightarrow>
      problem + payment_answer" where
  "answer_payment fetch docs register text body = (case unique_id_from text of
     Inl _ \<Rightarrow> Inl (classify_problem Bad_Request)
   | Inr i \<Rightarrow> (case gateway_register_payment fetch docs register i body of
       Inl e \<Rightarrow> Inl (classify_problem e)
     | Inr (Payment_Duplicate, order) \<Rightarrow> Inr \<lparr> pa_status = 200, pa_correlation = order, pa_replay = True \<rparr>
     | Inr (Payment_Accepted, order) \<Rightarrow> Inr \<lparr> pa_status = 201, pa_correlation = order, pa_replay = False \<rparr>))"

section \<open>What the scan finds\<close>

lemma find_append_first:
  "find P (xs @ ys) = (case find P xs of None \<Rightarrow> find P ys | Some x \<Rightarrow> Some x)"
  by (induction xs) simp_all

lemma find_map_view: "find P (map f xs) = map_option f (find (P \<circ> f) xs)"
  by (induction xs) simp_all

lemma scan_pages:
  assumes "k * invoice_scan_page_size \<le> length xs"
  shows "scan_invoices (\<lambda>p. Inr (page_slice p invoice_scan_page_size xs)) i [Suc k..<Suc (k + d)] (k * invoice_scan_page_size) =
    (case find (\<lambda>v. iw_id v = i) (take (d * invoice_scan_page_size) (drop (k * invoice_scan_page_size) xs)) of
       Some v \<Rightarrow> Inr (iw_order v)
     | None \<Rightarrow> if length xs < (k + d) * invoice_scan_page_size then Inl (Gateway_Invoice_Not_Found i)
         else Inl (Scan_Budget_Exceeded i ((k + d) * invoice_scan_page_size)))"
  using assms
proof (induction d arbitrary: k)
  case 0
  then show ?case by simp
next
  case (Suc d)
  let ?n = invoice_scan_page_size
  let ?ys = "drop (k * ?n) xs"
  have pages: "[Suc k..<Suc (k + Suc d)] = Suc k # [Suc (Suc k)..<Suc (Suc k + d)]" by (simp add: upt_rec)
  let ?P = "\<lambda>v. iw_id v = i"
  let ?rest = "find ?P (take (d * ?n) (drop (Suc k * ?n) xs))"
  have split: "find ?P (take (Suc d * ?n) ?ys) = (case find ?P (take ?n ?ys) of None \<Rightarrow> ?rest | Some v \<Rightarrow> Some v)"
  proof -
    have "take (Suc d * ?n) ?ys = take ?n ?ys @ take (d * ?n) (drop ?n ?ys)" by (simp only: mult_Suc take_add)
    also have "drop ?n ?ys = drop (Suc k * ?n) xs" by (simp add: add.commute)
    finally show ?thesis by (simp only: find_append_first)
  qed
  have turn: "scan_invoices (\<lambda>p. Inr (page_slice p ?n xs)) i (Suc k # pages) (k * ?n) =
      (case find ?P (take ?n ?ys) of Some v \<Rightarrow> Inr (iw_order v)
       | None \<Rightarrow> if length (take ?n ?ys) < ?n then Inl (Gateway_Invoice_Not_Found i)
           else scan_invoices (\<lambda>p. Inr (page_slice p ?n xs)) i pages (k * ?n + length (take ?n ?ys)))" for pages
  proof -
    have "page_slice (Suc k) ?n xs = take ?n ?ys" by (simp add: page_slice_def)
    then show ?thesis by (simp only: scan_invoices.simps sum.case)
  qed
  show ?case
  proof (cases "length (take ?n ?ys) < ?n")
    case True
    then have short: "length xs < Suc k * ?n" by auto
    also have "Suc k * ?n \<le> (k + Suc d) * ?n" by (intro mult_le_mono1) simp
    finally have all: "length xs < (k + Suc d) * ?n" .
    have "?rest = None" using short by (simp add: find_None_iff)
    with all True show ?thesis
      unfolding pages turn split by (cases "find ?P (take ?n ?ys)") (simp_all only: option.case if_True)
  next
    case False
    then have full: "length (take ?n ?ys) = ?n" "Suc k * ?n \<le> length xs" using Suc.prems by auto
    have next_page: "k * ?n + length (take ?n ?ys) = Suc k * ?n" using full(1) by simp
    show ?thesis
      unfolding pages turn split next_page Suc.IH [OF full(2)] using False
      by (cases "find ?P (take ?n ?ys)") (simp_all only: option.case if_False add_Suc add_Suc_right)
  qed
qed

text \<open>
  C34: the scan of the gateway over the listing of Billing.  For any invoice table, looking an
  invoice up answers the order of that invoice when it is among the thousand newest; it answers
  that there is no such invoice (404) only when the table has fewer than a thousand, so that all of
  them were looked at; otherwise it says that its search window ended (503).
\<close>

theorem payment_invoice_resolved:
  shows "resolve_order_reference (\<lambda>page. Inr (fst (list_invoices (invoice_scan_request page) now db))) i =
    (case find (\<lambda>r. vr_id r = i) (take 1000 (newest_first (bd_invoices db))) of
       Some r \<Rightarrow> Inr (vr_order r)
     | None \<Rightarrow> if length (bd_invoices db) < 1000 then Inl (Gateway_Invoice_Not_Found i)
         else Inl (Scan_Budget_Exceeded i 1000)) \<and>
    pb_status (classify_problem (Gateway_Invoice_Not_Found i)) = 404 \<and>
    pb_status (classify_problem (Scan_Budget_Exceeded i 1000)) = 503"
proof -
  let ?views = "map to_invoice_view (newest_first (bd_invoices db))"
  have fetch: "fst (list_invoices (invoice_scan_request page) now db) = page_slice page invoice_scan_page_size ?views" for page
    by (simp add: list_invoices_def invoice_scan_request_def invoice_matches_def page_slice_def take_map drop_map Let_def)
  have sizes: "(0 + 5) * invoice_scan_page_size = 1000" "5 * invoice_scan_page_size = 1000" "0 * invoice_scan_page_size = 0"
    by (simp_all add: invoice_scan_page_size_def)
  have pages: "[1..<Suc invoice_scan_max_pages] = [Suc 0..<Suc (0 + 5)]"
    by (simp only: invoice_scan_max_pages_def One_nat_def add_0)
  have "resolve_order_reference (\<lambda>page. Inr (fst (list_invoices (invoice_scan_request page) now db))) i =
      (case find (\<lambda>v. iw_id v = i) (take 1000 ?views) of
         Some v \<Rightarrow> Inr (iw_order v)
       | None \<Rightarrow> if length ?views < 1000 then Inl (Gateway_Invoice_Not_Found i) else Inl (Scan_Budget_Exceeded i 1000))"
    unfolding resolve_order_reference_def fetch pages
    by (rule scan_pages [of 0 ?views i 5, unfolded sizes drop_0, OF le0])
  also have "find (\<lambda>v. iw_id v = i) (take 1000 ?views) =
      map_option to_invoice_view (find (\<lambda>r. vr_id r = i) (take 1000 (newest_first (bd_invoices db))))"
    by (simp add: take_map find_map_view comp_def to_invoice_view_def)
  finally show ?thesis
    by (simp add: problem_of_def to_invoice_view_def split: option.split)
qed

end
