(* ===== verification/Gateway_Examples.thy ===== *)
theory Gateway_Examples
  imports Gateway_Payments Projector_Examples
begin

text \<open>The witnesses of the gateway's properties.\<close>

definition listed_run :: "(mongo_world \<times> envelope) list" where
  "listed_run = [(clear_world (\<lambda>_. None), example_reserved_fact), (clear_world (\<lambda>_. None), example_placed_fact)]"

definition listed_document :: order_document where
  "listed_document = the (ps_documents (read_model_run listed_run empty_read_model) ''o1'')"

lemma listed_document_read:
  "ps_documents (read_model_run listed_run empty_read_model) ''o1'' \<noteq> None"
  "list_all (\<lambda>t. t \<noteq> Some []) (header_texts listed_document)"
  "list_ex (\<lambda>e. te_type e = Order_Placed) (od_events listed_document)"
  by code_simp+

theorem order_listed_iff_placed_witness:
  "ps_documents (read_model_run listed_run empty_read_model) ''o1'' = Some listed_document \<and>
   to_order_summary listed_document \<noteq> None"
proof -
  have doc: "ps_documents (read_model_run listed_run empty_read_model) ''o1'' = Some listed_document"
    using listed_document_read(1) by (auto simp: listed_document_def)
  have "Order_Placed \<in> te_type ` set (od_events listed_document)"
    using listed_document_read(3) by (force simp: list_ex_iff image_iff)
  with order_listed_iff_placed [OF doc listed_document_read(2)] show ?thesis using doc by simp
qed

definition example_order_id :: string where
  "example_order_id = ''11111111-1111-4111-8111-111111111111''"

definition example_window :: issued_window where
  "example_window = \<lparr> wi_issued = [], wi_ttl = 30000, wi_capacity = 2 \<rparr>"

theorem placed_order_answers_pending_witness:
  "fst (answer_get_order 29000 (\<lambda>_. None) example_order_id
     (window_run [Window_Record 500 ''other'', Window_Read 600 example_order_id]
       (record_issued 0 example_order_id (window_run [] example_window)))) =
    Order_Answer 202 None (Some projection_pending_retry_after_seconds)"
proof (rule placed_order_answers_pending)
  show "new_issued_window 30000 2 = Inr example_window" by (simp add: new_issued_window_def example_window_def)
  show "unique_id_from example_order_id = Inr example_order_id" by code_simp
  have "recorded_ids [Window_Record 500 ''other'', Window_Read 600 example_order_id] - {example_order_id} = {''other''}"
    by (simp add: example_order_id_def)
  then show "card (recorded_ids [Window_Record 500 ''other'', Window_Read 600 example_order_id] - {example_order_id}) < 2"
    by simp
qed simp_all

end
