(* ===== verification/Stock_Queries.thy ===== *)
theory Stock_Queries
  imports Stock_Examples Billing_Queries
begin

text \<open>
  The read side of the Fulfillment service (apps/fulfillment/src/infrastructure/persistence/
  stock-read.repository.ts): the availability check of fulfillment.stock.check and the listing of
  fulfillment.stock.list.  The check reads each line alone; the main property compares it with the
  reservation of the same lines.
\<close>

section \<open>Availability\<close>

record line_availability =
  la_product :: string
  la_requested :: int
  la_available :: int
  la_sufficient :: bool

record check_reply =
  ck_available :: bool
  ck_lines :: "line_availability list"

definition rows_by_product :: "string \<Rightarrow> units_line list \<Rightarrow> fulfillment_db \<Rightarrow> (string \<times> stock_row) list" where
  "rows_by_product company ls db = map (\<lambda>r. (sk_product r, r))
     (filter (\<lambda>r. sk_company r = company \<and> sk_product r \<in> ul_product ` set ls) (fd_stock db))"

text \<open>A later row of one product would replace an earlier one in the map.\<close>

definition check_line :: "(string \<times> stock_row) list \<Rightarrow> units_line \<Rightarrow> line_availability" where
  "check_line by_product l = (let available = (case map_of (rev by_product) (ul_product l) of
       None \<Rightarrow> 0 | Some r \<Rightarrow> js_round (sk_units r - sk_reserved r)) in
     \<lparr> la_product = ul_product l, la_requested = ul_units l, la_available = available,
       la_sufficient = (available \<ge> ul_units l) \<rparr>)"

definition check_availability :: "string \<Rightarrow> units_line list \<Rightarrow> fulfillment_db \<Rightarrow> check_reply" where
  "check_availability company ls db = (let lines = map (check_line (rows_by_product company ls db)) ls in
     \<lparr> ck_available = list_all la_sufficient lines, ck_lines = lines \<rparr>)"

section \<open>The listing\<close>

record stock_query =
  tq_company :: "string option"
  tq_product :: "string option"
  tq_below :: "bool option"
  tq_page :: "nat option"
  tq_size :: "nat option"

definition row_stock_view :: "stock_row \<Rightarrow> stock_view" where
  "row_stock_view r = \<lparr> sv_company = sk_company r, sv_product = sk_product r, sv_units = sk_units r,
     sv_reserved = sk_reserved r, sv_available = js_round (sk_units r - sk_reserved r), sv_threshold = sk_threshold r \<rparr>"

definition stock_matches :: "stock_query \<Rightarrow> stock_row \<Rightarrow> bool" where
  "stock_matches q r = (unless_absent (tq_company q) (\<lambda>c. sk_company r = c) \<and>
     unless_absent (tq_product q) (\<lambda>p. sk_product r = p) \<and>
     (tq_below q = Some True \<longrightarrow> sk_units r - sk_reserved r < sk_threshold r))"

definition list_stock :: "stock_query \<Rightarrow> fulfillment_db \<Rightarrow> stock_view list \<times> page_info" where
  "list_stock q db = (let page = or_else (tq_page q) default_page; n = or_else (tq_size q) default_page_size;
       rows = filter (stock_matches q) (fd_stock db) in
     (map row_stock_view (page_slice page n (by_code rows)),
      \<lparr> pg_page = page, pg_size = n, pg_total = length rows \<rparr>))"

section \<open>The check and the reservation\<close>

lemma row_of_product:
  assumes "stock_db_ok db" "s \<in> set (fd_stock db)" "sk_company s = company" "sk_product s \<in> ul_product ` set ls"
  shows "map_of (rev (rows_by_product company ls db)) (sk_product s) = Some s"
proof -
  let ?rows = "filter (\<lambda>r. sk_company r = company \<and> sk_product r \<in> ul_product ` set ls) (fd_stock db)"
  have "distinct (map (\<lambda>s. (sk_company s, sk_product s)) ?rows)"
    using assms(1) by (simp add: stock_db_ok_def distinct_map_filter)
  then have "distinct (map fst (rows_by_product company ls db))"
    by (auto simp: rows_by_product_def comp_def distinct_map inj_on_def)
  then show ?thesis using assms(2-4)
    by (intro map_of_is_SomeI) (auto simp: rows_by_product_def rev_map [symmetric])
qed

lemma no_row_of_product:
  "(\<And>s. \<lbrakk> s \<in> set (fd_stock db); sk_company s = company \<rbrakk> \<Longrightarrow> sk_product s \<noteq> p) \<Longrightarrow>
    map_of (rev (rows_by_product company ls db)) p = None"
  by (auto simp: map_of_eq_None_iff rows_by_product_def)

lemma free_units_exact:
  assumes "stock_db_ok db" "s \<in> set (fd_stock db)"
  shows "js_round (sk_units s - sk_reserved s) = sk_units s - sk_reserved s"
  using stock_item_ok_bounds(4) [OF loaded_item_ok [OF assms]] by (simp add: loaded_item_def available_units_def)

lemma check_line_sufficient:
  assumes "stock_db_ok db" "l \<in> set ls" "0 < ul_units l"
  shows "la_sufficient (check_line (rows_by_product company ls db) l) \<longleftrightarrow>
    list_ex (\<lambda>s. sk_company s = company \<and> sk_product s = ul_product l \<and> ul_units l \<le> sk_units s - sk_reserved s) (fd_stock db)"
proof (cases "\<exists>s\<in>set (fd_stock db). sk_company s = company \<and> sk_product s = ul_product l")
  case True
  then obtain s where s: "s \<in> set (fd_stock db)" "sk_company s = company" "sk_product s = ul_product l" by blast
  have row: "map_of (rev (rows_by_product company ls db)) (ul_product l) = Some s"
    using row_of_product [OF assms(1) s(1,2)] s(3) assms(2) by auto
  have only: "t = s" if "t \<in> set (fd_stock db)" "sk_company t = company" "sk_product t = ul_product l" for t
    using row_of_product [OF assms(1) that(1,2), of ls] that(3) assms(2) row by auto
  have "la_sufficient (check_line (rows_by_product company ls db) l) \<longleftrightarrow> ul_units l \<le> sk_units s - sk_reserved s"
    by (simp add: check_line_def Let_def row free_units_exact [OF assms(1) s(1)])
  also have "\<dots> \<longleftrightarrow> (\<exists>t\<in>set (fd_stock db). sk_company t = company \<and> sk_product t = ul_product l \<and>
      ul_units l \<le> sk_units t - sk_reserved t)"
    using s only by blast
  finally show ?thesis by (simp only: list_ex_iff)
next
  case False
  then have "map_of (rev (rows_by_product company ls db)) (ul_product l) = None" by (intro no_row_of_product) blast
  then show ?thesis using False assms(3) by (auto simp: check_line_def list_ex_iff)
qed

lemma asked_units_distinct:
  assumes "distinct (map ul_product (rq_lines req))" "l \<in> set (rq_lines req)"
  shows "asked_units (ul_product l) req = ul_units l"
proof -
  have "sum_list (map (\<lambda>k. if ul_product k = ul_product l then ul_units k else 0) ls) = ul_units l"
    if "distinct (map ul_product ls)" "l \<in> set ls" for ls
    using that
  proof (induction ls)
    case (Cons k ls)
    show ?case
    proof (cases "k = l")
      case True
      with Cons.prems(1) have "\<forall>x\<in>set ls. ul_product x \<noteq> ul_product l"
        by (metis distinct.simps(2) image_eqI list.map(2) list.set_map)
      then have "map (\<lambda>k. if ul_product k = ul_product l then ul_units k else 0) ls = map (\<lambda>_. 0) ls" by simp
      then show ?thesis using True by (simp add: map_replicate_const sum_list_replicate)
    next
      case False
      with Cons show ?thesis by auto
    qed
  qed simp
  then show ?thesis using assms by (simp add: asked_units_def)
qed

lemma check_agrees_with_supply:
  assumes "stock_db_ok db" "distinct (map ul_product (rq_lines req))" "\<forall>l\<in>set (rq_lines req). 0 < ul_units l"
  shows "ck_available (check_availability (rq_company req) (rq_lines req) db) \<longleftrightarrow> can_supply req db"
  using assms check_line_sufficient [OF assms(1), of _ "rq_lines req" "rq_company req"] asked_units_distinct [OF assms(2)]
  by (simp add: check_availability_def can_supply_def list_all_iff list.pred_map comp_def Let_def)

text \<open>
  C23: the availability check predicts the reservation.  On a consistent stock table, for a request
  whose lines name distinct products and which holds no reservation yet, a stock.reserve that
  returns is accepted exactly when the availability check of its lines, on the same table, answers
  that all of them are available; otherwise it is rejected.
\<close>

theorem stock_check_predicts_reservation:
  assumes "stock_db_ok db" and "stock_fresh fresh (length (rq_lines req)) db"
    and "distinct (map ul_product (rq_lines req))" and "\<forall>l\<in>set (rq_lines req). 0 < ul_units l"
    and "holds_nothing req db"
    and "execute_reserve now fresh req request_id corr db = (Inr reply, db')"
  shows "if ck_available (check_availability (rq_company req) (rq_lines req) db)
    then reply = Reserve_Accepted (rq_reference req) (request_refs fresh req)
    else \<exists>shs. reply = Reserve_Rejected (rq_reference req) shs"
  using stock_reserve_outcomes [OF assms(1,2,6)] assms(5) check_agrees_with_supply [OF assms(1,3,4)]
  by (simp split: if_splits)

theorem stock_check_predicts_reservation_witness:
  "ck_available (check_availability ''CO'' (rq_lines example_reserve) example_stock) \<and>
   fst (execute_reserve 1000 example_id example_reserve (example_id 5) (example_id 6) example_stock) =
     Inr (Reserve_Accepted ''ORD-000001'' (request_refs example_id example_reserve))"
proof -
  have check: "ck_available (check_availability (rq_company example_reserve) (rq_lines example_reserve) example_stock)"
    by code_simp
  obtain reply db' where run: "execute_reserve 1000 example_id example_reserve (example_id 5) (example_id 6) example_stock =
      (Inr reply, db')"
    using example_reserve_runs by (metis prod.collapse)
  have "stock_fresh example_id (length (rq_lines example_reserve)) example_stock"
    using example_stock_fresh by (simp add: example_reserve_def eval_nat_numeral)
  moreover have "distinct (map ul_product (rq_lines example_reserve))" "\<forall>l\<in>set (rq_lines example_reserve). 0 < ul_units l"
    "holds_nothing example_reserve example_stock" "rq_company example_reserve = ''CO''" "rq_reference example_reserve = ''ORD-000001''"
    by (simp_all add: example_reserve_def holds_nothing_def example_stock_def)
  ultimately show ?thesis
    using stock_check_predicts_reservation [OF example_stock_ok(1) _ _ _ _ run] check run by simp
qed

text \<open>
  Without distinct products the two part ways: each of two lines of one product fits the stock, so
  the check answers that all is available, and the reservation of the same lines is rejected.
\<close>

definition doubled_reserve :: reserve_request where
  "doubled_reserve = \<lparr> rq_reference = ''ORD-000001'', rq_retailer = ''RET'', rq_company = ''CO'',
     rq_lines = [\<lparr> ul_product = ''P1'', ul_units = 3 \<rparr>, \<lparr> ul_product = ''P1'', ul_units = 3 \<rparr>] \<rparr>"

lemma doubled_lines_pass_the_check:
  "ck_available (check_availability ''CO'' (rq_lines doubled_reserve) example_stock)"
  "case fst (execute_reserve 1000 example_id doubled_reserve (example_id 5) (example_id 6) example_stock) of
     Inr (Reserve_Rejected ref shs) \<Rightarrow> True | _ \<Rightarrow> False"
  by code_simp+

end
