(* ===== verification/Credit_Queries.thy ===== *)
theory Credit_Queries
  imports Billing_Examples Billing_Queries
begin

text \<open>
  The credit positions of billing.credit.list (apps/billing/src/infrastructure/persistence/
  credit-read.repository.ts): the ledger of every line on the page is summed by order in the
  database and folded by the aggregate's own \<open>summarise_ledger\<close> over one synthetic entry for each
  sum.  The id of a synthetic entry is never read; the empty text stands for it.
\<close>

record credit_query =
  cq_retailer :: "string option"
  cq_company :: "string option"
  cq_page :: "nat option"
  cq_size :: "nat option"

record credit_view =
  cw_code :: string
  cw_retailer :: string
  cw_company :: string
  cw_currency :: string
  cw_limit :: int
  cw_active :: int
  cw_open :: int
  cw_available :: int

record grouped_row =
  gr_credit :: uid
  gr_order :: string
  gr_hold :: int
  gr_consume :: int
  gr_release :: int

definition synthetic_entry :: "string \<Rightarrow> int \<Rightarrow> credit_entry_type \<Rightarrow> string \<Rightarrow> kernel_error + credit_entry" where
  "synthetic_entry ref n ty cur = bindR (order_number_of ref) (\<lambda>o'. bindR (money_of (Js_Int n) cur) (\<lambda>m.
     Inr \<lparr> ce_id = [], ce_order = o', ce_amount = m, ce_type = ty, ce_date = 0 \<rparr>))"

text \<open>One group for each credit line and order; the order of the groups is the database's.\<close>

definition sum_of_type :: "credit_entry_type \<Rightarrow> credit_item_row list \<Rightarrow> int" where
  "sum_of_type ty its = sum_list (map (\<lambda>it. if ki_type it = ty then ki_amount it else 0) its)"

definition grouped_items :: "uid list \<Rightarrow> billing_db \<Rightarrow> grouped_row list" where
  "grouped_items ids db = (let its = filter (\<lambda>it. ki_credit it \<in> set ids) (bd_credit_items db) in
     map (\<lambda>(c, ref). let own = filter (\<lambda>it. ki_credit it = c \<and> ki_order it = ref) its in
         \<lparr> gr_credit = c, gr_order = ref, gr_hold = sum_of_type Entry_Hold own,
           gr_consume = sum_of_type Entry_Consume own, gr_release = sum_of_type Entry_Release own \<rparr>)
       (remdups (map (\<lambda>it. (ki_credit it, ki_order it)) its)))"

text \<open>A sum arrives as a text and is read as a number.\<close>

definition entries_of_group :: "string \<Rightarrow> grouped_row \<Rightarrow> kernel_error + credit_entry list" where
  "entries_of_group cur g = mapR (\<lambda>(n, ty). synthetic_entry (gr_order g) n ty cur)
     (filter (\<lambda>(n, ty). n > 0) [(js_round (gr_hold g), Entry_Hold), (js_round (gr_consume g), Entry_Consume),
        (js_round (gr_release g), Entry_Release)])"

definition to_credit_view :: "grouped_row list \<Rightarrow> credit_row \<Rightarrow> kernel_error + credit_view" where
  "to_credit_view groups row =
     bindR (mapR (entries_of_group (kr_currency row)) (filter (\<lambda>g. gr_credit g = kr_id row) groups)) (\<lambda>ess.
     let s = summarise_ledger (concat ess) in
     Inr \<lparr> cw_code = kr_code row, cw_retailer = kr_retailer row, cw_company = kr_company row, cw_currency = kr_currency row,
       cw_limit = kr_limit row, cw_active = lm_active s, cw_open = lm_open s,
       cw_available = js_round (kr_limit row - lm_committed s) \<rparr>)"

definition credit_matches :: "credit_query \<Rightarrow> credit_row \<Rightarrow> bool" where
  "credit_matches q r = (unless_absent (cq_retailer q) (\<lambda>c. kr_retailer r = c) \<and>
     unless_absent (cq_company q) (\<lambda>c. kr_company r = c))"

definition by_parties :: "credit_row list \<Rightarrow> credit_row list" where
  "by_parties rows = sort_key (\<lambda>r. (kr_retailer r, kr_company r)) rows"

definition list_credit :: "credit_query \<Rightarrow> billing_db \<Rightarrow> kernel_error + credit_view list \<times> page_info" where
  "list_credit q db = (let page = or_else (cq_page q) default_page; n = or_else (cq_size q) default_page_size;
       matching = filter (credit_matches q) (bd_credits db); rows = page_slice page n (by_parties matching);
       info = \<lparr> pg_page = page, pg_size = n, pg_total = length matching \<rparr> in
     if rows = [] then Inr ([], info)
     else bindR (mapR (to_credit_view (grouped_items (map kr_id rows) db)) rows) (\<lambda>views. Inr (views, info)))"

section \<open>Sums over the orders of a line\<close>

definition weight_of :: "credit_item_row list \<Rightarrow> int" where
  "weight_of its = sum_list (map (\<lambda>it. \<bar>ki_amount it\<bar>) its)"

definition items_for :: "string \<Rightarrow> credit_item_row list \<Rightarrow> credit_item_row list" where
  "items_for k its = filter (\<lambda>it. ki_order it = k) its"

lemma weight_of_simps [simp]:
  "weight_of [] = 0" "weight_of (it # its) = \<bar>ki_amount it\<bar> + weight_of its" "weight_of (its @ jts) = weight_of its + weight_of jts"
  "0 \<le> weight_of its"
  by (auto simp: weight_of_def intro!: sum_list_nonneg)

lemma items_for_simps [simp]:
  "items_for k [] = []" "items_for k (its @ jts) = items_for k its @ items_for k jts"
  "items_for k (it # its) = (if ki_order it = k then it # items_for k its else items_for k its)"
  by (simp_all add: items_for_def)

lemma weight_items_for: "weight_of (items_for k its) \<le> weight_of its"
  by (induction its) auto

lemma sum_list_single: "distinct ks \<Longrightarrow> sum_list (map (\<lambda>k. if a = k then x else (0::int)) ks) = (if a \<in> set ks then x else 0)"
  by (induction ks) auto

lemma sum_by_key:
  fixes f :: "credit_item_row \<Rightarrow> int"
  assumes "distinct ks" "ki_order ` set its \<subseteq> set ks"
  shows "sum_list (map (\<lambda>k. sum_list (map f (items_for k its))) ks) = sum_list (map f its)"
  using assms(2)
proof (induction its)
  case (Cons it its)
  have one: "sum_list (map (\<lambda>k. if ki_order it = k then f it else 0) ks) = f it"
    using assms(1) Cons.prems by (simp add: sum_list_single)
  have "sum_list (map (\<lambda>k. sum_list (map f (items_for k (it # its)))) ks) =
      sum_list (map (\<lambda>k. (if ki_order it = k then f it else 0) + sum_list (map f (items_for k its))) ks)"
    by (intro arg_cong [where f = sum_list] map_cong) auto
  then show ?case using Cons one by (simp add: sum_list_addf)
qed simp

lemma totals_accumulate:
  assumes "weight_of its < 2 ^ 50"
  shows "distinct (map fst (accumulate_ledger (map (entry_of_row row) its))) \<and>
    (\<forall>k. map_of (accumulate_ledger (map (entry_of_row row) its)) k =
      (if k \<in> ki_order ` set its then Some (totals_of (items_for k its)) else None))"
  using assms
proof (induction its rule: rev_induct)
  case (snoc it its)
  let ?m = "accumulate_ledger (map (entry_of_row row) its)" and ?k = "ki_order it"
  have IH: "distinct (map fst ?m)" "\<And>k. map_of ?m k = (if k \<in> ki_order ` set its then Some (totals_of (items_for k its)) else None)"
    using snoc by auto
  have key: "order_number_value (ce_order (entry_of_row row it)) = ?k" by (simp add: entry_of_row_def)
  have empty: "no_exposure = totals_of []" by (simp add: no_exposure_def totals_of_def entry_total_def)
  have none: "ki_order it \<notin> ki_order ` set its \<Longrightarrow> items_for ?k its = []"
    by (auto simp: items_for_def filter_empty_conv image_iff)
  have old: "or_else (map_of ?m ?k) no_exposure = totals_of (items_for ?k its)"
    using none by (auto simp: IH(2) or_else_def empty)
  have "weight_of (items_for ?k its @ [it]) < 2 ^ 50"
    using weight_items_for [of ?k its] snoc.prems by simp
  from add_to_exposure_row [OF this [unfolded weight_of_def], of row]
  have step: "accumulate_ledger (map (entry_of_row row) (its @ [it])) = AList.update ?k (totals_of (items_for ?k its @ [it])) ?m"
    by (simp add: accumulate_ledger_def Let_def key old [unfolded accumulate_ledger_def Let_def])
  show ?case unfolding step using IH by (auto simp: distinct_update update_conv' items_for_def)
qed (simp add: accumulate_ledger_def)

lemma sum_exposures_exact:
  assumes "sum_list (map (\<lambda>x. \<bar>f x\<bar>) xs) < 2 ^ 52"
  shows "sum_exposures f xs = sum_list (map f xs)"
  using assms
proof (induction xs rule: rev_induct)
  case (snoc x xs)
  have "\<bar>sum_list (map f (xs @ [x]))\<bar> \<le> sum_list (map (\<lambda>x. \<bar>f x\<bar>) (xs @ [x]))" by (rule order_trans [OF sum_list_abs]) (simp add: comp_def)
  then have "is_safe (sum_list (map f (xs @ [x])))" using snoc.prems by (simp add: is_safe_def max_safe_def)
  moreover have "sum_exposures f xs = sum_list (map f xs)" using snoc by simp
  ultimately show ?case by (simp add: sum_exposures_def)
qed (simp add: sum_exposures_def)

lemma exposure_of_totals:
  assumes "weight_of its < 2 ^ 50"
  shows "oe_exposure (exposure_of (k, totals_of its)) = sum_list (map signed_amount its)"
    "oe_active (exposure_of (k, totals_of its)) + oe_open (exposure_of (k, totals_of its)) = sum_list (map signed_amount its)"
    "\<bar>oe_exposure (exposure_of (k, totals_of its))\<bar> \<le> weight_of its"
    "\<bar>oe_open (exposure_of (k, totals_of its))\<bar> \<le> weight_of its"
    "\<bar>oe_active (exposure_of (k, totals_of its))\<bar> \<le> 2 * weight_of its"
proof -
  let ?x = "sum_list (map signed_amount its)" and ?c = "entry_total Entry_Consume its"
  have x: "\<bar>?x\<bar> \<le> weight_of its"
  proof (induction its)
    case (Cons it its)
    have "\<bar>signed_amount it\<bar> \<le> \<bar>ki_amount it\<bar>" by (simp add: signed_amount_def split: credit_entry_type.split)
    then show ?case using Cons by simp
  qed simp
  have c: "\<bar>?c\<bar> \<le> weight_of its" unfolding weight_of_def by (rule entry_total_bound)
  have safe: "js_round n = n" if "\<bar>n\<bar> \<le> 2 * weight_of its" for n
    using that assms by (intro js_round_safe) (simp add: is_safe_def max_safe_def)
  have e: "js_round (entry_total Entry_Hold its - entry_total Entry_Release its) = ?x"
    using safe [of ?x] x by (simp add: signed_sum)
  have a: "js_round (?x - min ?c ?x) = ?x - min ?c ?x" using x c by (intro safe) linarith
  show "oe_exposure (exposure_of (k, totals_of its)) = ?x"
    "oe_active (exposure_of (k, totals_of its)) + oe_open (exposure_of (k, totals_of its)) = ?x"
    "\<bar>oe_exposure (exposure_of (k, totals_of its))\<bar> \<le> weight_of its"
    "\<bar>oe_open (exposure_of (k, totals_of its))\<bar> \<le> weight_of its"
    "\<bar>oe_active (exposure_of (k, totals_of its))\<bar> \<le> 2 * weight_of its"
    using x c by (auto simp: exposure_of_def totals_of_def e a Let_def)
qed

text \<open>The summary of all entries of a line is the ledger's own arithmetic.\<close>

lemma summary_of_line:
  assumes w: "weight_of its < 2 ^ 49"
  shows "lm_committed (summarise_ledger (map (entry_of_row row) its)) = sum_list (map signed_amount its)"
    "lm_active (summarise_ledger (map (entry_of_row row) its)) + lm_open (summarise_ledger (map (entry_of_row row) its)) =
      sum_list (map signed_amount its)"
proof -
  let ?m = "accumulate_ledger (map (entry_of_row row) its)"
  define ks where "ks = map fst ?m"
  have acc: "distinct ks" "\<And>k. map_of ?m k = (if k \<in> ki_order ` set its then Some (totals_of (items_for k its)) else None)"
    using totals_accumulate [of its row] w by (auto simp: ks_def)
  have keys: "set ks = ki_order ` set its"
    using acc(2) by (metis (no_types, lifting) ks_def list.set_map map_of_eq_None_iff option.distinct(1) subsetI subset_antisym)
  have m: "?m = map (\<lambda>k. (k, totals_of (items_for k its))) ks"
  proof (rule nth_equalityI)
    fix i assume i: "i < length ?m"
    then have mem: "?m ! i \<in> set ?m" by simp
    then have "map_of ?m (fst (?m ! i)) = Some (snd (?m ! i))"
      using acc(1) by (intro map_of_is_SomeI) (simp_all add: ks_def)
    then show "?m ! i = map (\<lambda>k. (k, totals_of (items_for k its))) ks ! i"
      using i acc(2) by (cases "?m ! i") (auto simp: ks_def split: if_splits)
  qed (simp add: ks_def)
  have wk: "weight_of (items_for k its) < 2 ^ 50" for k using weight_items_for [of k its] w by simp
  note ex = exposure_of_totals [OF wk]
  let ?os = "map (\<lambda>k. exposure_of (k, totals_of (items_for k its))) ks"
  have all: "sum_list (map (\<lambda>k. sum_list (map f (items_for k its))) ks) = sum_list (map f its)" for f :: "credit_item_row \<Rightarrow> int"
    using sum_by_key [OF acc(1)] keys by blast
  have bound: "sum_list (map (\<lambda>k. \<bar>g k\<bar>) ks) < 2 ^ 52" if "\<And>k. \<bar>g k\<bar> \<le> 2 * weight_of (items_for k its)" for g :: "string \<Rightarrow> int"
  proof -
    have "sum_list (map (\<lambda>k. \<bar>g k\<bar>) ks) \<le> sum_list (map (\<lambda>k. 2 * weight_of (items_for k its)) ks)"
      using that by (intro sum_list_mono)
    also have "\<dots> = 2 * weight_of its" using all [of "\<lambda>it. \<bar>ki_amount it\<bar>"] by (simp add: sum_list_const_mult weight_of_def)
    finally show ?thesis using w by simp
  qed
  have two: "n \<le> weight_of (items_for k its) \<Longrightarrow> n \<le> 2 * weight_of (items_for k its)" for n k
    using weight_of_simps(4) [of "items_for k its"] by linarith
  have exact: "sum_exposures f ?os = sum_list (map f ?os)"
    if "\<And>k. \<bar>f (exposure_of (k, totals_of (items_for k its)))\<bar> \<le> 2 * weight_of (items_for k its)" for f
    using bound [OF that] by (intro sum_exposures_exact) (simp add: comp_def)
  have sums: "sum_exposures oe_exposure ?os = sum_list (map oe_exposure ?os)" "sum_exposures oe_open ?os = sum_list (map oe_open ?os)"
    "sum_exposures oe_active ?os = sum_list (map oe_active ?os)"
    by (rule exact, rule two, rule ex(3)) (rule exact, rule two, rule ex(4), rule exact, rule ex(5))
  have s: "summarise_ledger (map (entry_of_row row) its) = \<lparr> lm_by_order = ?os, lm_committed = sum_exposures oe_exposure ?os,
      lm_active = sum_exposures oe_active ?os, lm_open = sum_exposures oe_open ?os \<rparr>"
    by (simp add: summarise_ledger_def m Let_def comp_def)
  show "lm_committed (summarise_ledger (map (entry_of_row row) its)) = sum_list (map signed_amount its)"
    unfolding s using sums(1) all [of signed_amount] by (simp add: comp_def ex(1))
  show "lm_active (summarise_ledger (map (entry_of_row row) its)) + lm_open (summarise_ledger (map (entry_of_row row) its)) =
      sum_list (map signed_amount its)"
    unfolding s using sums(2,3) all [of signed_amount] by (simp add: comp_def ex(2) sum_list_addf [symmetric])
qed

section \<open>The list and the ledger\<close>

definition line_items :: "credit_row \<Rightarrow> billing_db \<Rightarrow> credit_item_row list" where
  "line_items row db = filter (\<lambda>it. ki_credit it = kr_id row) (bd_credit_items db)"

definition group_for :: "uid \<Rightarrow> string \<Rightarrow> credit_item_row list \<Rightarrow> grouped_row" where
  "group_for c k own = \<lparr> gr_credit = c, gr_order = k, gr_hold = sum_of_type Entry_Hold own,
     gr_consume = sum_of_type Entry_Consume own, gr_release = sum_of_type Entry_Release own \<rparr>"

definition synthetic_items :: "grouped_row \<Rightarrow> credit_item_row list" where
  "synthetic_items g = map (\<lambda>(n, ty). \<lparr> ki_id = [], ki_credit = gr_credit g, ki_order = gr_order g, ki_amount = n, ki_type = ty, ki_date = 0 \<rparr>)
     (filter (\<lambda>(n, ty). n > 0) [(gr_hold g, Entry_Hold), (gr_consume g, Entry_Consume), (gr_release g, Entry_Release)])"

lemma groups_of_row:
  assumes "kr_id row \<in> set ids"
  shows "\<exists>ks. distinct ks \<and> set ks = ki_order ` set (line_items row db) \<and>
    filter (\<lambda>g. gr_credit g = kr_id row) (grouped_items ids db) =
      map (\<lambda>k. group_for (kr_id row) k (items_for k (line_items row db))) ks"
proof -
  let ?its = "filter (\<lambda>it. ki_credit it \<in> set ids) (bd_credit_items db)"
  let ?keys = "filter (\<lambda>x. fst x = kr_id row) (remdups (map (\<lambda>it. (ki_credit it, ki_order it)) ?its))"
  let ?G = "\<lambda>x. group_for (fst x) (snd x) (filter (\<lambda>it. ki_credit it = fst x \<and> ki_order it = snd x) ?its)"
  have own: "filter (\<lambda>it. ki_credit it = kr_id row \<and> ki_order it = k) ?its = items_for k (line_items row db)" for k
    using assms by (auto simp: items_for_def line_items_def intro: filter_cong)
  have "grouped_items ids db = map ?G (remdups (map (\<lambda>it. (ki_credit it, ki_order it)) ?its))"
    by (simp add: grouped_items_def group_for_def Let_def case_prod_beta)
  then have "filter (\<lambda>g. gr_credit g = kr_id row) (grouped_items ids db) = map ?G ?keys"
    by (simp add: filter_map comp_def group_for_def)
  also have "\<dots> = map (\<lambda>k. group_for (kr_id row) k (items_for k (line_items row db))) (map snd ?keys)"
    using own by (auto simp: comp_def intro!: map_cong)
  finally have gs: "filter (\<lambda>g. gr_credit g = kr_id row) (grouped_items ids db) =
      map (\<lambda>k. group_for (kr_id row) k (items_for k (line_items row db))) (map snd ?keys)" .
  have "inj_on snd (set ?keys)" by (auto simp: inj_on_def)
  then have "distinct (map snd ?keys)" by (simp add: distinct_map)
  moreover have "set (map snd ?keys) = ki_order ` set (line_items row db)"
    using assms by (force simp: line_items_def image_iff)
  ultimately show ?thesis using gs by blast
qed

lemma sum_of_type_total: "sum_of_type ty its = entry_total ty its"
  by (induction its) (simp_all add: sum_of_type_def entry_total_def)

lemma synthetic_sums:
  assumes "\<And>it. it \<in> set own \<Longrightarrow> 0 \<le> ki_amount it"
  shows "weight_of (synthetic_items (group_for c k own)) = weight_of own"
    "sum_list (map signed_amount (synthetic_items (group_for c k own))) = sum_list (map signed_amount own)"
    "0 \<le> entry_total ty own" "entry_total ty own \<le> weight_of own"
proof -
  have nonneg: "0 \<le> entry_total ty own" for ty
    using assms by (auto simp: entry_total_def intro!: sum_list_nonneg)
  then show "0 \<le> entry_total ty own" .
  show "entry_total ty own \<le> weight_of own" using entry_total_bound [of ty own] by (simp add: weight_of_def)
  have "entry_total Entry_Hold own + entry_total Entry_Consume own + entry_total Entry_Release own = weight_of own"
    using assms
  proof (induction own)
    case (Cons it own)
    then show ?case by (cases "ki_type it") (auto simp: entry_total_def)
  qed (simp add: entry_total_def)
  then show "weight_of (synthetic_items (group_for c k own)) = weight_of own"
    using nonneg [of Entry_Hold] nonneg [of Entry_Consume] nonneg [of Entry_Release]
    by (auto simp: synthetic_items_def group_for_def sum_of_type_total)
  show "sum_list (map signed_amount (synthetic_items (group_for c k own))) = sum_list (map signed_amount own)"
    using nonneg [of Entry_Hold] nonneg [of Entry_Consume] nonneg [of Entry_Release]
    by (auto simp: synthetic_items_def group_for_def sum_of_type_total signed_sum signed_amount_def)
qed

lemma entries_of_group_eval:
  assumes "is_ok (order_number_of k)" "currency_shape (kr_currency row)" "weight_of own < 2 ^ 50"
    and "\<And>it. it \<in> set own \<Longrightarrow> 0 \<le> ki_amount it"
  shows "entries_of_group (kr_currency row) (group_for c k own) = Inr (map (entry_of_row row) (synthetic_items (group_for c k own)))"
proof -
  note t = synthetic_sums(3,4) [OF assms(4)]
  have safe: "is_safe (entry_total ty own)" for ty
    using t(1) [of own ty] t(2) [of own ty] assms(3) by (simp add: is_safe_def max_safe_def)
  have ref: "order_number_of k = Inr (Order_Number k)" using assms(1) unfolding order_number_of_value by simp
  have "synthetic_entry k n ty (kr_currency row) = Inr (entry_of_row row
      \<lparr> ki_id = [], ki_credit = c, ki_order = k, ki_amount = n, ki_type = ty, ki_date = 0 \<rparr>)" if "is_safe n" for n ty
    using that assms(2) by (simp add: synthetic_entry_def ref money_of_def entry_of_row_def)
  then show ?thesis using safe
    by (auto simp: entries_of_group_def synthetic_items_def group_for_def sum_of_type_total)
qed

definition position_of :: "billing_db \<Rightarrow> credit_row \<Rightarrow> credit_view \<Rightarrow> bool" where
  "position_of db row v \<longleftrightarrow> cw_code v = kr_code row \<and> cw_retailer v = kr_retailer row \<and> cw_company v = kr_company row \<and>
     cw_currency v = kr_currency row \<and> cw_limit v = kr_limit row \<and>
     cw_available v = kr_limit row - committed_of_line (kr_id row) db \<and>
     cw_active v + cw_open v = committed_of_line (kr_id row) db"

definition light_ledger :: "billing_db \<Rightarrow> bool" where
  "light_ledger db \<longleftrightarrow> list_all (\<lambda>it. 0 \<le> ki_amount it) (bd_credit_items db) \<and>
     list_all (\<lambda>r. weight_of (line_items r db) < 2 ^ 49) (bd_credits db)"

lemma to_credit_view_position:
  assumes ok: "ledger_ok db" "light_ledger db" and row: "row \<in> set (bd_credits db)" "kr_id row \<in> set ids"
  shows "\<exists>v. to_credit_view (grouped_items ids db) row = Inr v \<and> position_of db row v"
proof -
  let ?its = "line_items row db"
  let ?group = "\<lambda>k. group_for (kr_id row) k (items_for k ?its)"
  obtain ks where ks: "distinct ks" "set ks = ki_order ` set ?its"
    and gs: "filter (\<lambda>g. gr_credit g = kr_id row) (grouped_items ids db) = map ?group ks"
    using groups_of_row [OF row(2)] by blast
  have r: "credit_row_ok row" "weight_of ?its < 2 ^ 49"
    using ok row(1) by (auto simp: ledger_ok_def light_ledger_def list_all_iff)
  have its: "is_ok (order_number_of (ki_order it))" "0 \<le> ki_amount it" if "it \<in> set ?its" for it
    using ok that by (auto simp: ledger_ok_def light_ledger_def list_all_iff line_items_def item_ok_def)
  have own: "0 \<le> ki_amount it" if "it \<in> set (items_for k ?its)" for k it
    using its(2) [of it] that by (simp add: items_for_def)
  have "entries_of_group (kr_currency row) (?group k) = Inr (map (entry_of_row row) (synthetic_items (?group k)))" if "k \<in> set ks" for k
  proof (rule entries_of_group_eval)
    show "is_ok (order_number_of k)" using that its(1) by (auto simp: ks(2))
    show "weight_of (items_for k ?its) < 2 ^ 50" using weight_items_for [of k ?its] r(2) by simp
  qed (use r(1) own in \<open>auto simp: credit_row_ok_def\<close>)
  then have ess: "mapR (entries_of_group (kr_currency row)) (map ?group ks) =
      Inr (map (\<lambda>g. map (entry_of_row row) (synthetic_items g)) (map ?group ks))"
    by (intro mapR_pure) auto
  let ?syn = "concat (map (\<lambda>k. synthetic_items (?group k)) ks)"
  have entries: "concat (map (\<lambda>g. map (entry_of_row row) (synthetic_items g)) (map ?group ks)) = map (entry_of_row row) ?syn"
    by (simp add: map_concat comp_def)
  have one: "weight_of (synthetic_items (?group k)) = weight_of (items_for k ?its)"
      "sum_list (map signed_amount (synthetic_items (?group k))) = sum_list (map signed_amount (items_for k ?its))" for k
    by (rule synthetic_sums(1), erule own, rule synthetic_sums(2), erule own)
  have sums: "weight_of (concat (map (\<lambda>k. synthetic_items (?group k)) ls)) = sum_list (map (\<lambda>k. weight_of (items_for k ?its)) ls)"
    "sum_list (map signed_amount (concat (map (\<lambda>k. synthetic_items (?group k)) ls))) =
      sum_list (map (\<lambda>k. sum_list (map signed_amount (items_for k ?its))) ls)" for ls
    by (induction ls) (simp_all add: one)
  have all: "sum_list (map (\<lambda>k. sum_list (map f (items_for k ?its))) ks) = sum_list (map f ?its)" for f :: "credit_item_row \<Rightarrow> int"
    using sum_by_key [OF ks(1)] ks(2) by blast
  have committed: "sum_list (map signed_amount ?syn) = committed_of_line (kr_id row) db"
    unfolding sums(2) all by (simp add: committed_of_line_def line_items_def)
  have weight: "weight_of ?syn = weight_of ?its"
    unfolding sums(1) using all [of "\<lambda>it. \<bar>ki_amount it\<bar>"] by (simp add: weight_of_def)
  note summary = summary_of_line [of ?syn row, unfolded weight committed, OF r(2)]
  have "\<bar>sum_list (map signed_amount ls)\<bar> \<le> weight_of ls" for ls
  proof (induction ls)
    case (Cons it ls)
    have "\<bar>signed_amount it\<bar> \<le> \<bar>ki_amount it\<bar>" by (simp add: signed_amount_def split: credit_entry_type.split)
    then show ?case using Cons by simp
  qed simp
  from this [of ?syn] have "\<bar>committed_of_line (kr_id row) db\<bar> < 2 ^ 49" unfolding committed weight using r(2) by simp
  then have "js_round (kr_limit row - committed_of_line (kr_id row) db) = kr_limit row - committed_of_line (kr_id row) db"
    using r(1) by (intro js_round_safe) (auto simp: is_safe_def max_safe_def credit_row_ok_def fits_int_def abs_le_iff abs_less_iff)
  moreover have "to_credit_view (grouped_items ids db) row = (let s = summarise_ledger (map (entry_of_row row) ?syn) in
     Inr \<lparr> cw_code = kr_code row, cw_retailer = kr_retailer row, cw_company = kr_company row, cw_currency = kr_currency row,
       cw_limit = kr_limit row, cw_active = lm_active s, cw_open = lm_open s,
       cw_available = js_round (kr_limit row - lm_committed s) \<rparr>)"
    by (simp only: to_credit_view_def gs ess entries bindR_simps)
  ultimately show ?thesis using summary by (simp add: Let_def position_of_def)
qed

text \<open>
  C33: the listed credit positions are the ledger.  On a ledger the invariant holds for, whose
  amounts are not negative and whose lines weigh less than two to the 49, a listing never fails, and
  each line of its page shows as available exactly what a hold on that line would be measured
  against: the limit less the holds and plus the releases of all its orders; the active holds and
  the open exposure split the committed rest.
\<close>

theorem credit_list_shows_ledger:
  assumes "ledger_ok db" "light_ledger db"
  shows "\<exists>views info. list_credit q db = Inr (views, info) \<and>
    list_all2 (position_of db) (page_slice (pg_page info) (pg_size info) (by_parties (filter (credit_matches q) (bd_credits db)))) views"
proof -
  let ?page = "or_else (cq_page q) default_page" and ?n = "or_else (cq_size q) default_page_size"
  let ?matching = "filter (credit_matches q) (bd_credits db)"
  let ?rows = "page_slice ?page ?n (by_parties ?matching)"
  have mem: "row \<in> set (bd_credits db)" if "row \<in> set ?rows" for row
    using that by (auto simp: page_slice_def by_parties_def dest!: in_set_takeD in_set_dropD)
  have "\<exists>views. mapR (to_credit_view (grouped_items (map kr_id ?rows) db)) rows = Inr views \<and> list_all2 (position_of db) rows views"
    if "set rows \<subseteq> set ?rows" for rows
    using that
  proof (induction rows)
    case (Cons row rows)
    obtain v where "to_credit_view (grouped_items (map kr_id ?rows) db) row = Inr v" "position_of db row v"
      using to_credit_view_position [OF assms mem [of row], of "map kr_id ?rows"] Cons.prems by auto
    then show ?case using Cons by auto
  qed simp
  then obtain views where "mapR (to_credit_view (grouped_items (map kr_id ?rows) db)) ?rows = Inr views" "list_all2 (position_of db) ?rows views"
    by blast
  then show ?thesis by (auto simp: list_credit_def Let_def)
qed

theorem credit_list_shows_ledger_witness:
  "\<exists>v info. list_credit \<lparr> cq_retailer = Some ''RET'', cq_company = None, cq_page = None, cq_size = None \<rparr> example_billing =
      Inr ([v], info) \<and> cw_available v = 7000 \<and> cw_active v + cw_open v = 3000"
proof -
  let ?q = "\<lparr> cq_retailer = Some ''RET'', cq_company = None, cq_page = None, cq_size = None \<rparr>"
  have ok: "ledger_ok example_billing" using example_billing_ready by (simp add: line_ready_def)
  have light: "light_ledger example_billing" by code_simp
  obtain views info where l: "list_credit ?q example_billing = Inr (views, info)"
      "list_all2 (position_of example_billing) (page_slice (pg_page info) (pg_size info)
        (by_parties (filter (credit_matches ?q) (bd_credits example_billing)))) views"
    using credit_list_shows_ledger [OF ok light, of ?q] by blast
  have "pg_page info = 1" "pg_size info = 25"
    using l(1) by (auto simp: list_credit_def Let_def default_page_def default_page_size_def or_else_def bindR_Inr split: if_splits)
  moreover have "page_slice 1 25 (by_parties (filter (credit_matches ?q) (bd_credits example_billing))) = [example_credit_row]"
    by code_simp
  ultimately obtain v where v: "views = [v]" "position_of example_billing example_credit_row v"
    using l(2) by (auto simp: list_all2_Cons1)
  have "committed_of_line (kr_id example_credit_row) example_billing = 3000" "kr_limit example_credit_row = 10000" by code_simp+
  then show ?thesis using v l(1) by (auto simp: position_of_def)
qed

end
