(* ===== verification/Rpc_Errors.thy ===== *)
theory Rpc_Errors
  imports Despatch Billing_Handlers Place_Order
begin

text \<open>
  The responder side of the remote calls: the error reply of the contract (contracts, RpcError),
  the mapping of each service's failures into it (the three rpc-error-mapper.ts files), the headers
  a mutating command must carry (rpc-meta.ts) and the answer of a NATS responder
  (stock.controller.ts, despatch.controller.ts, credit.controller.ts, invoice.controller.ts,
  orders-create.controller.ts).  The verdict of the validation library is an argument, the list of
  violations; the text of an exception is an argument too, since the model's errors carry the
  fields of the exceptions and not their sentences.
\<close>

section \<open>The error reply\<close>

datatype rpc_code =
    Code_Validation_Failed | Code_Not_Found | Code_Conflict | Code_Precondition_Failed
  | Code_Order_Not_Cancellable | Code_Stock_Unavailable | Code_Invoice_Not_Payable | Code_Payment_Mismatch
  | Code_Domain_Error | Code_Internal_Error | Code_Unavailable | Code_Timeout

primrec rpc_code_text :: "rpc_code \<Rightarrow> string" where
  "rpc_code_text Code_Validation_Failed = ''VALIDATION_FAILED''"
| "rpc_code_text Code_Not_Found = ''NOT_FOUND''"
| "rpc_code_text Code_Conflict = ''CONFLICT''"
| "rpc_code_text Code_Precondition_Failed = ''PRECONDITION_FAILED''"
| "rpc_code_text Code_Order_Not_Cancellable = ''ORDER_NOT_CANCELLABLE''"
| "rpc_code_text Code_Stock_Unavailable = ''STOCK_UNAVAILABLE''"
| "rpc_code_text Code_Invoice_Not_Payable = ''INVOICE_NOT_PAYABLE''"
| "rpc_code_text Code_Payment_Mismatch = ''PAYMENT_MISMATCH''"
| "rpc_code_text Code_Domain_Error = ''DOMAIN_ERROR''"
| "rpc_code_text Code_Internal_Error = ''INTERNAL_ERROR''"
| "rpc_code_text Code_Unavailable = ''UNAVAILABLE''"
| "rpc_code_text Code_Timeout = ''TIMEOUT''"

datatype rpc_detail = Detail_Text string | Detail_Number nat | Detail_Lines "stock_line_result list"

record rpc_error =
  re_code :: rpc_code
  re_message :: string
  re_details :: "(string \<times> rpc_detail) list"
  re_at :: instant

text \<open>A failed property of the request: its own messages and those of the values nested in it.\<close>

datatype violation = Violation "string list" "violation list"

primrec violation_messages :: "violation \<Rightarrow> string list" where
  "violation_messages (Violation own nested) = own @ concat (map violation_messages nested)"

definition flatten_violations :: "violation list \<Rightarrow> string list" where
  "flatten_violations vs = concat (map violation_messages vs)"

fun join_messages :: "string list \<Rightarrow> string" where
  "join_messages [] = []"
| "join_messages [m] = m"
| "join_messages (m # ms) = m @ ''; '' @ join_messages ms"

definition validation_rpc_error :: "instant \<Rightarrow> violation list \<Rightarrow> rpc_error" where
  "validation_rpc_error now vs = (let text = join_messages (flatten_violations vs) in
     \<lparr> re_code = Code_Validation_Failed,
       re_message = (if text = [] then ''request payload failed validation'' else text), re_details = [], re_at = now \<rparr>)"

section \<open>The codes of the domain errors\<close>

primrec kernel_error_code :: "kernel_error \<Rightarrow> string" where
  "kernel_error_code (Invalid_Money_Amount n) = ''INVALID_MONEY_AMOUNT''"
| "kernel_error_code (Invalid_Currency_Code c) = ''INVALID_CURRENCY_CODE''"
| "kernel_error_code (Currency_Mismatch a b) = ''CURRENCY_MISMATCH''"
| "kernel_error_code (Invalid_Quantity n) = ''INVALID_QUANTITY''"
| "kernel_error_code (Invalid_Unique_Id s) = ''INVALID_UNIQUE_ID''"
| "kernel_error_code (Invalid_Business_Reference p s) = ''INVALID_BUSINESS_REFERENCE''"
| "kernel_error_code (Invalid_Sequence p n) = ''INVALID_BUSINESS_REFERENCE''"
| "kernel_error_code (Invalid_Gln s r) = ''INVALID_GLN''"

text \<open>A failure that is no domain error has no code here.\<close>

primrec stock_error_code :: "stock_error \<Rightarrow> string option" where
  "stock_error_code (Insufficient_Stock_Error p n m) = Some ''INSUFFICIENT_STOCK''"
| "stock_error_code (Reservation_Terminal i s a) = Some ''RESERVATION_TERMINAL''"
| "stock_error_code (Invalid_Stock_Item_Snapshot r i) = Some ''INVALID_STOCK_ITEM_SNAPSHOT''"
| "stock_error_code (Fact_Aggregate_Mismatch i j) = Some ''FACT_AGGREGATE_MISMATCH''"
| "stock_error_code Undefined_Carrier = None"

primrec credit_error_code :: "credit_error \<Rightarrow> string" where
  "credit_error_code (Credit_Limit_Exceeded n m c) = ''CREDIT_LIMIT_EXCEEDED''"
| "credit_error_code (Credit_Refusal_Mismatch r) = ''CREDIT_REFUSAL_MISMATCH''"
| "credit_error_code (Credit_Release_Underflow r n c) = ''CREDIT_RELEASE_UNDERFLOW''"
| "credit_error_code (No_Active_Hold r) = ''NO_ACTIVE_HOLD''"
| "credit_error_code (Invalid_Credit_Snapshot f i) = ''INVALID_BUYER_CREDIT_SNAPSHOT''"
| "credit_error_code (Credit_Fact_Mismatch i j) = ''FACT_AGGREGATE_MISMATCH''"
| "credit_error_code (Credit_Money_Error e) = kernel_error_code e"

primrec invoice_error_code :: "invoice_error \<Rightarrow> string" where
  "invoice_error_code (Empty_Invoice_Lines r) = ''EMPTY_INVOICE_LINES''"
| "invoice_error_code (Invoice_Line_Currency_Mismatch a b) = ''INVOICE_LINE_CURRENCY_MISMATCH''"
| "invoice_error_code (Negative_Invoice_Total a d c) = ''NEGATIVE_INVOICE_TOTAL''"
| "invoice_error_code (Invalid_Invoice_Snapshot f i) = ''INVALID_INVOICE_SNAPSHOT''"
| "invoice_error_code (Invoice_Already_Paid r) = ''INVOICE_ALREADY_PAID''"
| "invoice_error_code (Invoice_Payment_Amount_Mismatch a b c) = ''INVOICE_PAYMENT_AMOUNT_MISMATCH''"
| "invoice_error_code (Invoice_Payment_Currency_Mismatch a b) = ''INVOICE_PAYMENT_CURRENCY_MISMATCH''"
| "invoice_error_code (Invoice_Money_Error e) = kernel_error_code e"

primrec order_error_code :: "order_error \<Rightarrow> string option" where
  "order_error_code (Transition_Not_Allowed i s t) = Some ''ORDER_TRANSITION_NOT_ALLOWED''"
| "order_error_code (Empty_Order i) = Some ''ORDER_HAS_NO_LINES''"
| "order_error_code (Lines_Frozen i s) = Some ''ORDER_LINES_FROZEN''"
| "order_error_code (Negative_Order_Total m i) = Some ''ORDER_TOTAL_NEGATIVE''"
| "order_error_code (Line_Currency_Mismatch a b i) = Some ''ORDER_LINE_CURRENCY_MISMATCH''"
| "order_error_code (Unknown_Order_Line i j) = Some ''ORDER_LINE_NOT_FOUND''"
| "order_error_code (Reason_Required i) = Some ''ORDER_CANCELLATION_REASON_REQUIRED''"
| "order_error_code (Reason_Invalid i r) = Some ''ORDER_CANCELLATION_REASON_INVALID''"
| "order_error_code (Reason_Not_Applicable i s r) = Some ''ORDER_CANCELLATION_REASON_NOT_APPLICABLE''"
| "order_error_code (Invalid_Order_Snapshot f i) = Some ''ORDER_SNAPSHOT_INVALID''"
| "order_error_code (Kernel_Error e) = Some (kernel_error_code e)"
| "order_error_code No_Lines_For_Event = None"

primrec stored_error_code :: "store_error \<Rightarrow> string option" where
  "stored_error_code (Duplicate_Key k) = None"
| "stored_error_code (Unknown_Reference k v) = None"
| "stored_error_code Out_Of_Range = None"
| "stored_error_code (Row_Kernel_Error e) = Some (kernel_error_code e)"
| "stored_error_code (Row_Order_Error e) = order_error_code e"
| "stored_error_code (Bad_Sequence s) = None"

section \<open>Each service's mapping\<close>

definition coded :: "string \<Rightarrow> (string \<times> rpc_detail) list" where
  "coded c = [(''code'', Detail_Text c)]"

text \<open>A domain error that no case above names, and any other exception.\<close>

definition remaining_error :: "rpc_code \<Rightarrow> string option \<Rightarrow> rpc_code \<times> (string \<times> rpc_detail) list" where
  "remaining_error domain code = (case code of Some c \<Rightarrow> (domain, coded c) | None \<Rightarrow> (Code_Internal_Error, []))"

primrec fulfillment_verdict :: "fulfillment_error \<Rightarrow> rpc_code \<times> (string \<times> rpc_detail) list" where
  "fulfillment_verdict (No_Known_Stock_Item ref) = (Code_Not_Found, [(''orderReference'', Detail_Text ref)])"
| "fulfillment_verdict (Unknown_Stock_Item company product) =
    (Code_Not_Found, [(''companyCode'', Detail_Text company), (''productCode'', Detail_Text product)])"
| "fulfillment_verdict (Stock_Domain_Error e) = (case e of
     Reservation_Terminal i s a \<Rightarrow> (Code_Precondition_Failed, coded ''RESERVATION_TERMINAL'')
   | _ \<Rightarrow> remaining_error Code_Domain_Error (stock_error_code e))"
| "fulfillment_verdict (No_Reserved_Stock_For_Despatch ref) = (Code_Precondition_Failed, [(''orderReference'', Detail_Text ref)])"
| "fulfillment_verdict (Concurrent_Reservation_Change ref) = (Code_Conflict, [(''orderReference'', Detail_Text ref)])"
| "fulfillment_verdict (Stock_Kernel_Error e) = remaining_error Code_Domain_Error (Some (kernel_error_code e))"
| "fulfillment_verdict (Empty_Despatch_Lines ref) = remaining_error Code_Domain_Error (Some ''EMPTY_DESPATCH_LINES'')"
| "fulfillment_verdict (Stock_Outbox_Error e) = remaining_error Code_Domain_Error (stored_error_code e)"
| "fulfillment_verdict Stock_Out_Of_Range = remaining_error Code_Domain_Error None"
| "fulfillment_verdict (Duplicate_Despatch k) = remaining_error Code_Domain_Error None"
| "fulfillment_verdict (Despatch_Row_Missing ref) = remaining_error Code_Domain_Error None"

primrec billing_verdict :: "billing_error \<Rightarrow> rpc_code \<times> (string \<times> rpc_detail) list" where
  "billing_verdict (Credit_Line_Not_Found retailer company) =
    (Code_Not_Found, [(''retailerCode'', Detail_Text retailer), (''companyCode'', Detail_Text company)])"
| "billing_verdict (Credit_Currency_Mismatch expected received) =
    (Code_Validation_Failed, [(''expected'', Detail_Text expected), (''received'', Detail_Text received)])"
| "billing_verdict (Billing_Credit e) = (case e of
     Credit_Release_Underflow r n c \<Rightarrow> (Code_Precondition_Failed, coded ''CREDIT_RELEASE_UNDERFLOW'')
   | No_Active_Hold r \<Rightarrow> (Code_Precondition_Failed, coded ''NO_ACTIVE_HOLD'')
   | _ \<Rightarrow> remaining_error Code_Domain_Error (Some (credit_error_code e)))"
| "billing_verdict (No_Active_Credit_Hold ref) =
    (Code_Precondition_Failed, [(''code'', Detail_Text ''NO_ACTIVE_HOLD''), (''orderReference'', Detail_Text ref)])"
| "billing_verdict (Invoice_Currency_Mismatch expected received) =
    (Code_Validation_Failed, [(''expected'', Detail_Text expected), (''received'', Detail_Text received)])"
| "billing_verdict (Billing_Invoice e) = (case e of
     Negative_Invoice_Total a d c \<Rightarrow> (Code_Validation_Failed, coded ''NEGATIVE_INVOICE_TOTAL'')
   | Empty_Invoice_Lines r \<Rightarrow> (Code_Validation_Failed, coded ''EMPTY_INVOICE_LINES'')
   | Invoice_Line_Currency_Mismatch a b \<Rightarrow> (Code_Validation_Failed, coded ''INVOICE_LINE_CURRENCY_MISMATCH'')
   | Invoice_Already_Paid r \<Rightarrow> (Code_Precondition_Failed, coded ''INVOICE_ALREADY_PAID'')
   | Invoice_Payment_Amount_Mismatch a b c \<Rightarrow> (Code_Precondition_Failed, coded ''INVOICE_PAYMENT_AMOUNT_MISMATCH'')
   | Invoice_Payment_Currency_Mismatch a b \<Rightarrow> (Code_Precondition_Failed, coded ''INVOICE_PAYMENT_CURRENCY_MISMATCH'')
   | _ \<Rightarrow> remaining_error Code_Domain_Error (Some (invoice_error_code e)))"
| "billing_verdict (Invoice_Not_Found identity) =
    (Code_Not_Found, [(''code'', Detail_Text ''INVOICE_NOT_FOUND''), (''identity'', Detail_Text identity)])"
| "billing_verdict (Payment_Reference_Conflict ref) =
    (Code_Conflict, [(''code'', Detail_Text ''PAYMENT_REFERENCE_CONFLICT''), (''paymentReference'', Detail_Text ref)])"
| "billing_verdict (Billing_Kernel e) = remaining_error Code_Domain_Error (Some (kernel_error_code e))"
| "billing_verdict (Billing_Outbox e) = remaining_error Code_Domain_Error (stored_error_code e)"
| "billing_verdict Billing_Out_Of_Range = remaining_error Code_Domain_Error None"
| "billing_verdict Duplicate_Credit_Item = remaining_error Code_Domain_Error None"
| "billing_verdict (Duplicate_Invoice k) = remaining_error Code_Domain_Error None"

primrec reference_field :: "reference_kind \<Rightarrow> string" where
  "reference_field Ref_Currency = ''currency''"
| "reference_field Ref_Retailer = ''retailerCode''"
| "reference_field Ref_Company = ''companyCode''"
| "reference_field Ref_Product = ''productCode''"

definition stock_check_subject :: string where
  "stock_check_subject = ''fulfillment.stock.check''"

primrec orders_verdict :: "nat \<Rightarrow> place_error \<Rightarrow> rpc_code \<times> (string \<times> rpc_detail) list" where
  "orders_verdict ms (Stock_Unavailable shs) = (Code_Stock_Unavailable, [(''shortages'', Detail_Lines shs)])"
| "orders_verdict ms (Stock_Check_Failed f) = (case f of
     Stock_Check_Timeout \<Rightarrow> (Code_Timeout, [(''subject'', Detail_Text stock_check_subject), (''timeoutMs'', Detail_Number ms)])
   | Stock_Check_Transport r \<Rightarrow> (Code_Unavailable, [(''subject'', Detail_Text stock_check_subject)]))"
| "orders_verdict ms (Reference_Data_Not_Found k v) =
    (Code_Not_Found, [(''field'', Detail_Text (reference_field k)), (''value'', Detail_Text v)])"
| "orders_verdict ms (Order_Discount_Not_Supported d c) = (Code_Validation_Failed, [])"
| "orders_verdict ms (Place_Kernel e) = remaining_error Code_Validation_Failed (Some (kernel_error_code e))"
| "orders_verdict ms (Place_Order_Error e) = remaining_error Code_Validation_Failed (order_error_code e)"
| "orders_verdict ms (Place_Store e) = remaining_error Code_Validation_Failed (stored_error_code e)"

definition to_rpc_error :: "('e \<Rightarrow> rpc_code \<times> (string \<times> rpc_detail) list) \<Rightarrow> ('e \<Rightarrow> string) \<Rightarrow> instant \<Rightarrow> 'e \<Rightarrow> rpc_error" where
  "to_rpc_error verdict sentence now e = \<lparr> re_code = fst (verdict e), re_message = sentence e,
     re_details = snd (verdict e), re_at = now \<rparr>"

section \<open>The responders\<close>

text \<open>A header that was not sent reads as the empty string.\<close>

type_synonym rpc_headers = "string \<Rightarrow> string"

definition parse_rpc_meta :: "rpc_headers option \<Rightarrow> (uid \<times> uid) option" where
  "parse_rpc_meta hs = (case hs of
     None \<Rightarrow> None
   | Some get \<Rightarrow>
     if get ''x-correlation-id'' = [] \<or> get ''x-request-id'' = [] then None
     else (case bindR (unique_id_from (get ''x-correlation-id'')) (\<lambda>corr.
         bindR (unique_id_from (get ''x-request-id'')) (\<lambda>request. Inr (corr, request))) of
       Inl e \<Rightarrow> None | Inr m \<Rightarrow> Some m))"

definition missing_headers_error :: "string \<Rightarrow> instant \<Rightarrow> rpc_error" where
  "missing_headers_error rule now = \<lparr> re_code = Code_Validation_Failed,
     re_message = ''x-correlation-id and x-request-id are required headers and must be valid UniqueIds ('' @ rule @ '')'',
     re_details = [], re_at = now \<rparr>"

text \<open>
  The answer to a mutating command.  A payload that does not validate and a request without its
  headers are answered before any command runs; a failure of the command is answered as its error.
\<close>

definition respond_command ::
    "('e \<Rightarrow> rpc_error) \<Rightarrow> string \<Rightarrow> instant \<Rightarrow> violation list \<Rightarrow> rpc_headers option \<Rightarrow>
      (uid \<Rightarrow> uid \<Rightarrow> 'db \<Rightarrow> ('e + 'r) \<times> 'db) \<Rightarrow> 'db \<Rightarrow> (rpc_error + 'r) \<times> 'db" where
  "respond_command err rule now vs hs run db =
     (if vs \<noteq> [] then (Inl (validation_rpc_error now vs), db)
      else case parse_rpc_meta hs of
        None \<Rightarrow> (Inl (missing_headers_error rule now), db)
      | Some (corr, request) \<Rightarrow> (case run corr request db of (res, db') \<Rightarrow> (mapErr err res, db')))"

lemma respond_command_refused:
  "vs \<noteq> [] \<or> parse_rpc_meta hs = None \<Longrightarrow>
    \<exists>e. respond_command err rule now vs hs run db = (Inl e, db) \<and> re_code e = Code_Validation_Failed"
  by (auto simp: respond_command_def validation_rpc_error_def missing_headers_error_def Let_def)

end
