(* ===== verification/Rpc_Wire.thy ===== *)
theory Rpc_Wire
  imports Rpc_Errors Saga_Dispatch
begin

text \<open>
  The caller side of the remote calls: the saga command adapter
  (apps/orders/src/infrastructure/messaging/nats-saga-commands.adapter.ts) with its failures
  (ports/saga-commands.port.ts), the stock check adapter (nats-stock-availability.adapter.ts), and
  what the dispatcher of saga-command-dispatcher.ts makes of them.  What the broker client returns
  for one request is an argument: no reply in time, nobody subscribed, another failure, a reply that
  is not JSON, or a body.  The trace headers are left out.
\<close>

section \<open>One call\<close>

datatype 'r wire_result =
    Wire_Timeout | Wire_No_Responders | Wire_Failure string | Wire_Not_Json string | Wire_Body "rpc_error + 'r"

datatype call_failure =
    Command_Timeout string nat
  | Command_Transport string string
  | Command_Refused string rpc_code string

primrec is_terminal_code :: "rpc_code \<Rightarrow> bool" where
  "is_terminal_code Code_Validation_Failed = True"
| "is_terminal_code Code_Not_Found = True"
| "is_terminal_code Code_Conflict = True"
| "is_terminal_code Code_Precondition_Failed = True"
| "is_terminal_code Code_Order_Not_Cancellable = True"
| "is_terminal_code Code_Stock_Unavailable = True"
| "is_terminal_code Code_Invoice_Not_Payable = True"
| "is_terminal_code Code_Payment_Mismatch = True"
| "is_terminal_code Code_Domain_Error = True"
| "is_terminal_code Code_Timeout = False"
| "is_terminal_code Code_Unavailable = False"
| "is_terminal_code Code_Internal_Error = False"

definition responder_text :: "rpc_error \<Rightarrow> string" where
  "responder_text e = ''responder returned '' @ rpc_code_text (re_code e) @ '': '' @ re_message e"

definition saga_call :: "string \<Rightarrow> nat \<Rightarrow> 'r wire_result \<Rightarrow> call_failure + 'r" where
  "saga_call subject ms w = (case w of
     Wire_Timeout \<Rightarrow> Inl (Command_Timeout subject ms)
   | Wire_No_Responders \<Rightarrow> Inl (Command_Transport subject ''no responder is subscribed to this subject'')
   | Wire_Failure m \<Rightarrow> Inl (Command_Transport subject m)
   | Wire_Not_Json m \<Rightarrow> Inl (Command_Transport subject (''reply payload was not valid JSON: '' @ m))
   | Wire_Body (Inl e) \<Rightarrow>
       if is_terminal_code (re_code e) then Inl (Command_Refused subject (re_code e) (re_message e))
       else Inl (Command_Transport subject (responder_text e))
   | Wire_Body (Inr r) \<Rightarrow> Inr r)"

definition in_quotes :: "string \<Rightarrow> string" where
  "in_quotes s = [CHR 0x22] @ s @ [CHR 0x22]"

primrec failure_text :: "call_failure \<Rightarrow> string" where
  "failure_text (Command_Timeout subject ms) =
    ''saga command: no reply within '' @ decimal ms @ ''ms on subject '' @ in_quotes subject"
| "failure_text (Command_Transport subject reason) =
    ''saga command: transport failure on subject '' @ in_quotes subject @ '': '' @ reason"
| "failure_text (Command_Refused subject code reason) =
    ''saga command: terminal business rejection on subject '' @ in_quotes subject @ '' ('' @ rpc_code_text code @ ''): '' @ reason"

text \<open>The dispatcher tells a refusal from every other failure and keeps the text of either.\<close>

definition call_outcome_of :: "call_failure + 'r \<Rightarrow> call_outcome" where
  "call_outcome_of res = (case res of
     Inr r \<Rightarrow> Call_Ok
   | Inl (Command_Refused subject code reason) \<Rightarrow> Call_Rejected (failure_text (Command_Refused subject code reason))
   | Inl f \<Rightarrow> Call_Failed (failure_text f))"

primrec command_subject :: "saga_command_kind \<Rightarrow> string" where
  "command_subject Stock_Reserve = ''fulfillment.stock.reserve''"
| "command_subject Stock_Release = ''fulfillment.stock.release''"
| "command_subject Despatch_Create = ''fulfillment.despatch.create''"
| "command_subject Credit_Hold = ''billing.credit.hold''"
| "command_subject Invoice_Issue = ''billing.invoice.issue''"
| "command_subject Credit_Release = ''billing.credit.release''"

definition request_headers :: "issued_call \<Rightarrow> rpc_headers" where
  "request_headers c = (\<lambda>_. [])(''x-correlation-id'' := ic_correlation c, ''x-request-id'' := ic_request c)"

definition stock_check_call :: "stock_answer wire_result \<Rightarrow> stock_check_failure + stock_answer" where
  "stock_check_call w = (case w of
     Wire_Timeout \<Rightarrow> Inl Stock_Check_Timeout
   | Wire_No_Responders \<Rightarrow> Inl (Stock_Check_Transport ''no responder is subscribed to this subject'')
   | Wire_Failure m \<Rightarrow> Inl (Stock_Check_Transport m)
   | Wire_Not_Json m \<Rightarrow> Inl (Stock_Check_Transport (''reply payload was not valid JSON: '' @ m))
   | Wire_Body (Inl e) \<Rightarrow> Inl (Stock_Check_Transport (responder_text e))
   | Wire_Body (Inr a) \<Rightarrow> Inr a)"

section \<open>What a reply amounts to\<close>

lemma outcome_of_body [simp]:
  "call_outcome_of (saga_call s ms (Wire_Body (Inr r))) = Call_Ok"
  "is_terminal_code (re_code e) \<Longrightarrow> call_outcome_of (saga_call s ms (Wire_Body (Inl e))) =
    Call_Rejected (failure_text (Command_Refused s (re_code e) (re_message e)))"
  "\<not> is_terminal_code (re_code e) \<Longrightarrow> call_outcome_of (saga_call s ms (Wire_Body (Inl e))) =
    Call_Failed (failure_text (Command_Transport s (responder_text e)))"
  "call_outcome_of (saga_call s ms Wire_Timeout) = Call_Failed (failure_text (Command_Timeout s ms))"
  by (simp_all add: call_outcome_of_def saga_call_def)

text \<open>The headers of the adapter are the ones the responders ask for.\<close>

lemma headers_accepted:
  assumes "unique_id_from (ic_correlation c) = Inr (ic_correlation c)" "unique_id_from (ic_request c) = Inr (ic_request c)"
  shows "parse_rpc_meta (Some (request_headers c)) = Some (ic_correlation c, ic_request c)"
proof -
  have "ic_correlation c \<noteq> []" "ic_request c \<noteq> []"
    using assms by (auto simp: unique_id_from_def uuid_v4_shape_def split: if_splits)
  then show ?thesis using assms by (simp add: parse_rpc_meta_def request_headers_def)
qed

text \<open>
  A failure of a service is final for the caller unless it is one the service did not foresee: the
  codes of the mappings are terminal, except for the internal error.
\<close>

lemma remaining_error_code [simp]:
  "fst (remaining_error d c) = (if c = None then Code_Internal_Error else d)"
  by (simp add: remaining_error_def split: option.split)

lemma fulfillment_terminal_iff:
  "is_terminal_code (fst (fulfillment_verdict e)) \<longleftrightarrow> fst (fulfillment_verdict e) \<noteq> Code_Internal_Error"
  by (cases e) (auto split: stock_error.split)

lemma billing_terminal_iff:
  "is_terminal_code (fst (billing_verdict e)) \<longleftrightarrow> fst (billing_verdict e) \<noteq> Code_Internal_Error"
  by (cases e) (auto split: credit_error.split invoice_error.split)

text \<open>A refusal ends the dispatch at once.\<close>

lemma dispatch_refused_at_once:
  assumes "find_by_order_and_command oid k odb = Some row" "cm_status row \<noteq> Sent"
    and "0 < dc_max_attempts cfg" "undisturbed w" "\<exists>m. dw_call w 1 = Call_Rejected m"
    and "dispatch_command cfg w oid k odb = (rep, odb')"
  shows "dr_result rep = Inr Outcome_Rejected \<and> length (dr_calls rep) = 1 \<and> dr_delays rep = [] \<and> dr_letters rep = [] \<and>
    (\<exists>row'. find_by_order_and_command oid k odb' = Some row' \<and> cm_status row' = Rejected \<and> cm_next_attempt row' = None)"
proof -
  obtain m where m: "dw_call w 1 = Call_Rejected m" using assms(5) by blast
  obtain n where n: "dc_max_attempts cfg = Suc n" using assms(3) by (cases "dc_max_attempts cfg") auto
  have "run_store (dw_others w 1) odb = odb" using assms(4) by (simp add: undisturbed_def)
  then have "rep = \<lparr> dr_result = Inr Outcome_Rejected, dr_calls = [\<lparr> ic_command = k, ic_payload = cm_payload row,
      ic_correlation = oid, ic_request = cm_id row \<rparr>], dr_delays = [], dr_letters = [] \<rparr>"
    "odb' = snd (mark_rejected (dw_now w) (cm_id row) (cm_attempts row + 1) m odb)"
    using assms(1,2,6) m n by (auto simp: dispatch_command_def Let_def)
  then show ?thesis using assms(1,2) by (simp add: find_store_updates)
qed

section \<open>A command that answers its own repetition\<close>

text \<open>
  The responders are called again with the same request when a reply was lost.  The contract: once
  the work of a request is done, serving it again answers and changes nothing; a committed answer
  means that the work is done.
\<close>

primrec serve_all :: "('c \<Rightarrow> 'db \<Rightarrow> ('e + 'r) \<times> 'db) \<Rightarrow> 'c list \<Rightarrow> 'db \<Rightarrow> ('e + 'r) list \<times> 'db" where
  "serve_all serve [] db = ([], db)"
| "serve_all serve (c # cs) db =
     (let (a, db1) = serve c db; (answers, db2) = serve_all serve cs db1 in (a # answers, db2))"

text \<open>The outcome of the j-th call, counted from one: its reply is lost or it is the j-th answer.\<close>

definition delivered :: "(nat \<Rightarrow> bool) \<Rightarrow> string \<Rightarrow> nat \<Rightarrow> (rpc_error + 'r) list \<Rightarrow> nat \<Rightarrow> call_outcome" where
  "delivered lost subject ms answers j =
     call_outcome_of (saga_call subject ms (if lost j then Wire_Timeout else Wire_Body (answers ! (j - 1))))"

locale repeatable_command =
  fixes serve :: "'c \<Rightarrow> 'q \<Rightarrow> 'db \<Rightarrow> (rpc_error + 'r) \<times> 'db"
    and done_in :: "'q \<Rightarrow> 'db \<Rightarrow> bool"
    and ready :: "'c \<Rightarrow> 'q \<Rightarrow> 'db \<Rightarrow> bool"
    and committed :: "'r \<Rightarrow> bool"
  assumes repeats: "done_in q db \<Longrightarrow> \<exists>r. serve c q db = (Inr r, db)"
    and settles: "\<lbrakk> ready c q db; serve c q db = (Inr r, db'); committed r \<rbrakk> \<Longrightarrow> done_in q db'"
begin

lemma served_again: "done_in q db \<Longrightarrow> \<exists>rs. serve_all (\<lambda>c. serve c q) cs db = (map Inr rs, db) \<and> length rs = length cs"
proof (induction cs)
  case (Cons c cs)
  obtain r where "serve c q db = (Inr r, db)" using repeats [OF Cons.prems] by blast
  moreover obtain rs where "serve_all (\<lambda>c. serve c q) cs db = (map Inr rs, db)" "length rs = length cs"
    using Cons by blast
  ultimately show ?case by (intro exI [of _ "r # rs"]) simp
qed simp

lemma served_once:
  assumes "ready c q db" "serve c q db = (Inr r, db1)" "committed r"
  shows "\<exists>rs. serve_all (\<lambda>c. serve c q) (c # cs) db = (Inr r # map Inr rs, db1) \<and> length rs = length cs"
  using served_again [OF settles [OF assms], of cs] assms(2) by auto

text \<open>The dispatcher's attempts against the service, some of the replies being lost.\<close>

lemma lost_replies:
  assumes ready: "ready (cs ! 0) q sdb" "serve (cs ! 0) q sdb = (Inr r, sdb1)" "committed r"
    and len: "length cs = dc_max_attempts cfg" "0 < dc_max_attempts cfg"
    and w: "undisturbed w" "\<forall>j. dw_call w j = delivered lost subject ms (fst (serve_all (\<lambda>c. serve c q) cs sdb)) j"
    and heard: "\<exists>j\<in>{1..dc_max_attempts cfg}. \<not> lost j"
    and row: "find_by_order_and_command oid k odb = Some row" "cm_status row \<noteq> Sent"
    and run: "dispatch_command cfg w oid k odb = (rep, odb')"
  shows "dr_result rep = Inr Outcome_Sent \<and> sent_row (cm_id row) odb' \<and> dr_letters rep = [] \<and>
    set (dr_calls rep) = {\<lparr> ic_command = k, ic_payload = cm_payload row, ic_correlation = oid, ic_request = cm_id row \<rparr>} \<and>
    snd (serve_all (\<lambda>c. serve c q) (take (length (dr_calls rep)) cs) sdb) = sdb1"
proof -
  obtain c cs' where cs: "cs = c # cs'" using len by (cases cs) auto
  have first: "ready c q sdb" "serve c q sdb = (Inr r, sdb1)" using ready cs by simp_all
  obtain rs where rs: "serve_all (\<lambda>c. serve c q) cs sdb = (map Inr (r # rs), sdb1)" "length rs = length cs'"
    using served_once [OF first ready(3), of cs'] cs by auto
  have call: "dw_call w j = (if lost j then Call_Failed (failure_text (Command_Timeout subject ms)) else Call_Ok)"
    if "1 \<le> j" "j \<le> dc_max_attempts cfg" for j
  proof -
    have "j - 1 < length (r # rs)" using that len(1) cs rs(2) by simp
    then have "fst (serve_all (\<lambda>c. serve c q) cs sdb) ! (j - 1) = Inr ((r # rs) ! (j - 1))"
      unfolding rs(1) fst_conv by (rule nth_map)
    then show ?thesis by (simp only: w(2) delivered_def outcome_of_body split: if_splits) simp
  qed
  let ?c = "\<lparr> ic_command = k, ic_payload = cm_payload row, ic_correlation = oid, ic_request = cm_id row \<rparr>"
  obtain res calls ds odb1 where l: "attempt_loop cfg w row ?c (dc_max_attempts cfg) 1 [] odb = (res, calls, ds, odb1)"
    by (metis prod_cases4)
  have "\<exists>j\<in>set [1..<1 + dc_max_attempts cfg]. \<not> is_failure (dw_call w j)"
  proof -
    obtain j where "1 \<le> j" "j \<le> dc_max_attempts cfg" "\<not> lost j" using heard by auto
    then show ?thesis using call [of j] by (intro bexI [of _ j]) (auto simp: is_failure_def)
  qed
  then obtain j where j: "find (\<lambda>j. \<not> is_failure (dw_call w j)) [1..<1 + dc_max_attempts cfg] = Some j"
    by (cases "find (\<lambda>j. \<not> is_failure (dw_call w j)) [1..<1 + dc_max_attempts cfg]") (auto simp: find_None_iff)
  then have "1 \<le> j" "j \<le> dc_max_attempts cfg" "\<not> is_failure (dw_call w j)"
    by (auto simp: find_Some_iff nth_append)
  then have "dw_call w j = Call_Ok" using call [of j] by (auto simp: is_failure_def split: if_splits)
  then have end_of: "res = Loop_Sent" "odb1 = snd (mark_sent (dw_now w) (cm_id row) odb)"
    using attempt_loop_undisturbed [OF w(1) l] j by auto
  have rep: "rep = \<lparr> dr_result = Inr Outcome_Sent, dr_calls = calls, dr_delays = ds, dr_letters = [] \<rparr>" "odb' = odb1"
    using run row l end_of(1) by (auto simp: dispatch_command_def Let_def)
  obtain n where n: "0 < n" "n \<le> dc_max_attempts cfg" "calls = replicate n ?c"
    using attempt_loop_shape [OF l] len(2) by auto
  obtain m where m: "n = Suc m" using n(1) by (cases n) auto
  have served: "snd (serve_all (\<lambda>c. serve c q) (take n cs) sdb) = sdb1"
    using served_once [OF first ready(3), of "take m cs'"] cs m by auto
  have "row_is (\<lambda>_. True) (cm_id row) odb"
    using row(1) by (auto simp: row_is_def find_by_order_and_command_def find_Some_iff list_ex_iff)
  from mark_sent_sent [OF this] have "sent_row (cm_id row) odb'" by (simp add: rep(2) end_of(2))
  then show ?thesis using rep(1) served n by simp
qed

end

end
