(* ===== verification/Rpc_Services.thy ===== *)
theory Rpc_Services
  imports Rpc_Wire Stock_Properties Invoice_Properties
begin

text \<open>
  The mutating responders (apps/fulfillment/src/presentation/stock.controller.ts,
  despatch.controller.ts and apps/billing/src/presentation/credit.controller.ts,
  invoice.controller.ts) behind the saga dispatcher.  A responder takes the clock and the
  identifiers its command draws, the headers, and the payload; \<open>sentence\<close> gives the text of an
  exception and \<open>check\<close> the verdict of the validation library.
\<close>

section \<open>Responders\<close>

type_synonym draws = "instant \<times> (nat \<Rightarrow> uid)"

type_synonym 'q served_request = "rpc_headers \<times> 'q"

definition reserve_service ::
    "(fulfillment_error \<Rightarrow> string) \<Rightarrow> (reserve_request \<Rightarrow> violation list) \<Rightarrow> draws \<Rightarrow> reserve_request served_request \<Rightarrow>
      fulfillment_db \<Rightarrow> (rpc_error + reserve_reply) \<times> fulfillment_db" where
  "reserve_service sentence check c q db =
     respond_command (to_rpc_error fulfillment_verdict sentence (fst c)) ''FS3'' (fst c) (check (snd q)) (Some (fst q))
       (\<lambda>corr request. execute_reserve (fst c) (snd c) (snd q) request corr) db"

definition release_service ::
    "(fulfillment_error \<Rightarrow> string) \<Rightarrow> (string \<times> release_reason \<Rightarrow> violation list) \<Rightarrow> draws \<Rightarrow>
      (string \<times> release_reason) served_request \<Rightarrow> fulfillment_db \<Rightarrow> fulfillment_db \<Rightarrow>
      (rpc_error + release_reply) \<times> fulfillment_db" where
  "release_service sentence check c q db_read db =
     respond_command (to_rpc_error fulfillment_verdict sentence (fst c)) ''FS3'' (fst c) (check (snd q)) (Some (fst q))
       (\<lambda>corr request. execute_release (fst c) (snd c 0) (fst (snd q)) (snd (snd q)) request corr db_read) db"

definition despatch_service ::
    "(fulfillment_error \<Rightarrow> string) \<Rightarrow> (string \<Rightarrow> violation list) \<Rightarrow> draws \<Rightarrow> string served_request \<Rightarrow>
      fulfillment_db \<Rightarrow> fulfillment_db \<Rightarrow> (rpc_error + despatch_reply) \<times> fulfillment_db" where
  "despatch_service sentence check c q db_read db =
     respond_command (to_rpc_error fulfillment_verdict sentence (fst c)) ''FS3'' (fst c) (check (snd q)) (Some (fst q))
       (\<lambda>corr request. execute_despatch (fst c) (snd c) (snd q) request corr db_read) db"

definition hold_service ::
    "(credit_decision_request \<Rightarrow> credit_decision) \<Rightarrow> (billing_error \<Rightarrow> string) \<Rightarrow> (hold_request \<Rightarrow> violation list) \<Rightarrow>
      draws \<Rightarrow> hold_request served_request \<Rightarrow> billing_db \<Rightarrow> (rpc_error + hold_reply) \<times> billing_db" where
  "hold_service decide sentence check c q db =
     respond_command (to_rpc_error billing_verdict sentence (fst c)) ''BC1'' (fst c) (check (snd q)) (Some (fst q))
       (\<lambda>corr request. execute_hold decide (fst c) (snd c) (snd q) request corr) db"

definition credit_release_service ::
    "(billing_error \<Rightarrow> string) \<Rightarrow> (credit_release_request \<Rightarrow> violation list) \<Rightarrow> draws \<Rightarrow>
      credit_release_request served_request \<Rightarrow> billing_db \<Rightarrow> (rpc_error + credit_release_reply) \<times> billing_db" where
  "credit_release_service sentence check c q db =
     respond_command (to_rpc_error billing_verdict sentence (fst c)) ''BC1'' (fst c) (check (snd q)) (Some (fst q))
       (\<lambda>corr request. execute_credit_release (fst c) (snd c) (snd q) request corr) db"

definition issue_service ::
    "(billing_error \<Rightarrow> string) \<Rightarrow> (issue_request \<Rightarrow> violation list) \<Rightarrow> draws \<Rightarrow> issue_request served_request \<Rightarrow>
      billing_db \<Rightarrow> billing_db \<Rightarrow> (rpc_error + issue_reply) \<times> billing_db" where
  "issue_service sentence check c q db_read db =
     respond_command (to_rpc_error billing_verdict sentence (fst c)) ''BC1'' (fst c) (check (snd q)) (Some (fst q))
       (\<lambda>corr request. execute_issue (fst c) (snd c) (snd q) request corr db_read) db"

definition payment_service ::
    "(billing_error \<Rightarrow> string) \<Rightarrow> (payment_request \<Rightarrow> violation list) \<Rightarrow> draws \<Rightarrow> payment_request served_request \<Rightarrow>
      billing_db \<Rightarrow> billing_db \<Rightarrow> (rpc_error + payment_reply) \<times> billing_db" where
  "payment_service sentence check c q db_read db =
     respond_command (to_rpc_error billing_verdict sentence (fst c)) ''BC1'' (fst c) (check (snd q)) (Some (fst q))
       (\<lambda>corr request. execute_payment (fst c) (snd c) (snd q) request corr db_read) db"

text \<open>A request that gets past the guards runs its command with the two ids of its headers.\<close>

definition admitted :: "('q \<Rightarrow> violation list) \<Rightarrow> 'q served_request \<Rightarrow> bool" where
  "admitted check q \<longleftrightarrow> check (snd q) = [] \<and> parse_rpc_meta (Some (fst q)) \<noteq> None"

lemma respond_repeats:
  assumes "admitted check q" "\<And>corr request. \<exists>r. run corr request db = (Inr r, db)"
  shows "\<exists>r. respond_command err rule now (check (snd q)) (Some (fst q)) run db = (Inr r, db)"
proof -
  obtain corr request where "parse_rpc_meta (Some (fst q)) = Some (corr, request)" "check (snd q) = []"
    using assms(1) by (auto simp: admitted_def)
  moreover obtain r where "run corr request db = (Inr r, db)" using assms(2) by blast
  ultimately show ?thesis by (simp add: respond_command_def)
qed

lemma respond_Inr:
  "respond_command err rule now vs hs run db = (Inr r, db') \<Longrightarrow>
    \<exists>corr request. parse_rpc_meta hs = Some (corr, request) \<and> vs = [] \<and> run corr request db = (Inr r, db')"
  by (auto simp: respond_command_def split: if_splits option.splits prod.splits)

section \<open>Reserving again\<close>

definition reserve_done :: "(reserve_request \<Rightarrow> violation list) \<Rightarrow> reserve_request served_request \<Rightarrow> fulfillment_db \<Rightarrow> bool" where
  "reserve_done check q db \<longleftrightarrow> admitted check q \<and> stock_db_ok db \<and> is_ok (parse_order (rq_reference (snd q))) \<and>
     \<not> holds_nothing (snd q) db"

definition reserve_ready :: "draws \<Rightarrow> reserve_request served_request \<Rightarrow> fulfillment_db \<Rightarrow> bool" where
  "reserve_ready c q db \<longleftrightarrow> stock_db_ok db \<and> stock_fresh (snd c) (length (rq_lines (snd q))) db \<and> rq_lines (snd q) \<noteq> []"

primrec holds_stock :: "reserve_reply \<Rightarrow> bool" where
  "holds_stock (Reserve_Accepted ref refs) = True"
| "holds_stock (Reserve_Already ref refs) = True"
| "holds_stock (Reserve_Rejected ref shs) = False"

lemma booked_is_held:
  assumes "stock_db_ok db" "can_supply req db" "rq_lines req \<noteq> []"
    and db': "fd_stock db' = fd_stock (booked_db fresh req db)" "fd_reservations db' = fd_reservations (booked_db fresh req db)"
  shows "\<not> holds_nothing req db'"
proof -
  let ?ls = "map (\<lambda>l. \<lparr> rl_product = ul_product l, rl_units = Quantity (ul_units l) \<rparr>) (rq_lines req)"
  obtain l where l: "l \<in> set (rq_lines req)" using assms(3) by (cases "rq_lines req") auto
  obtain s where s: "s \<in> set (fd_stock db)" "sk_company s = rq_company req" "sk_product s = ul_product l"
    using assms(2) l by (fastforce simp: can_supply_def list_all_iff list_ex_iff)
  have rows: "set (request_rows req d) = {s \<in> set (fd_stock d). sk_company s = rq_company req \<and> sk_product s \<in> ul_product ` set (rq_lines req)}" for d
    by (auto simp: request_rows_def company_rows_def)
  have mem: "s \<in> set (request_rows req db)" using s l by (auto simp: rows)
  obtain i where i: "i < length (rq_lines req)" "rq_lines req ! i = l" using l by (auto simp: in_set_conv_nth)
  then have line: "(i, ?ls ! i) \<in> set (lines_on ?ls s)"
    using s(3) by (auto simp: lines_on_def in_set_enumerate_eq)
  let ?r = "line_row fresh (Order_Number (rq_reference req)) (rq_retailer req) s (i, ?ls ! i)"
  have "?r \<in> set (fd_reservations db')"
    using mem line unfolding db'(2) booked_db_def book_db_def by auto
  moreover have "rw_order ?r = rq_reference req" "rw_stock ?r = sk_id s" by (simp_all add: line_row_def)
  moreover have "sk_id s \<in> sk_id ` set (request_rows req db')"
  proof -
    let ?s = "s \<lparr> sk_reserved := sk_reserved s + line_total (sk_product s) ?ls \<rparr>"
    have "?s \<in> set (fd_stock db')" using s(1) mem unfolding db'(1) booked_db_def book_db_def by auto
    then have "?s \<in> set (request_rows req db')" using s l by (auto simp: rows)
    from imageI [OF this, of sk_id] show ?thesis by simp
  qed
  ultimately show ?thesis by (auto simp: holds_nothing_def list_all_iff)
qed

lemma reserve_repeats:
  assumes "reserve_done check q db"
  shows "\<exists>r. reserve_service sentence check c q db = (Inr r, db)"
proof -
  have d: "admitted check q" "stock_db_ok db" "\<not> holds_nothing (snd q) db" using assms by (simp_all add: reserve_done_def)
  obtain ref where ref: "parse_order (rq_reference (snd q)) = Inr ref"
    using assms by (auto simp: reserve_done_def is_ok_iff)
  have lock: "lock_for_order (rq_company (snd q)) (remdups (map ul_product (rq_lines (snd q)))) ref db =
      Inr (map (\<lambda>s. (sk_product s, loaded_item ref db s)) (request_rows (snd q) db))"
    unfolding request_rows_def by (rule lock_for_order_eval [OF d(2)])
  have "reservations_for ref (map (loaded_item ref db) (request_rows (snd q) db)) \<noteq> []"
    using d(3) unfolding reservations_for_loaded holds_nothing_iff [OF conjunct2 [OF parse_order_value [OF ref]]] .
  then have tx: "\<exists>r. reserve_in_transaction now fresh (snd q) request corr ref db = Inr (r, db)" for now fresh request corr
    by (simp add: reserve_in_transaction_def lock Let_def comp_def)
  have "\<exists>r. execute_reserve (fst c) (snd c) (snd q) request corr db = (Inr r, db)" for request corr
    using tx [of "fst c" "snd c" request corr] ref by (auto simp: execute_reserve_def unit_of_work_def)
  then show ?thesis unfolding reserve_service_def by (intro respond_repeats [OF d(1)])
qed

lemma reserve_settles:
  assumes "reserve_ready c q db" "reserve_service sentence check c q db = (Inr r, db')" "holds_stock r"
  shows "reserve_done check q db'"
proof -
  have d: "stock_db_ok db" "stock_fresh (snd c) (length (rq_lines (snd q))) db" "rq_lines (snd q) \<noteq> []"
    using assms(1) by (simp_all add: reserve_ready_def)
  obtain corr request where meta: "parse_rpc_meta (Some (fst q)) = Some (corr, request)" "check (snd q) = []"
    and run: "execute_reserve (fst c) (snd c) (snd q) request corr db = (Inr r, db')"
    using respond_Inr [OF assms(2) [unfolded reserve_service_def]] by blast
  note out = stock_reserve_outcomes [OF d(1,2) run]
  have "\<not> holds_nothing (snd q) db'"
  proof (cases "holds_nothing (snd q) db")
    case True
    then have "can_supply (snd q) db" using out assms(3) by (auto split: if_splits)
    with True out show ?thesis using d(1,3) by (intro booked_is_held) auto
  qed (use out in simp)
  moreover have "is_ok (parse_order (rq_reference (snd q)))"
    using run by (auto simp: execute_reserve_def is_ok_iff split: sum.splits)
  ultimately show ?thesis
    using meta reserve_keeps_ok [OF d(1,2) run] by (simp add: reserve_done_def admitted_def)
qed

interpretation reserve_again: repeatable_command "reserve_service sentence check" "reserve_done check" reserve_ready holds_stock
  for sentence check
  by unfold_locales (rule reserve_repeats, assumption, rule reserve_settles)

section \<open>Despatching again\<close>

definition despatch_done :: "(string \<Rightarrow> violation list) \<Rightarrow> string served_request \<Rightarrow> fulfillment_db \<Rightarrow> bool" where
  "despatch_done check q db \<longleftrightarrow> admitted check q \<and> (case parse_order (snd q) of
     Inl e \<Rightarrow> False
   | Inr ref \<Rightarrow> (case find_despatch ref db of Inr (Some s) \<Rightarrow> True | _ \<Rightarrow> False))"

definition despatch_ready :: "draws \<Rightarrow> string served_request \<Rightarrow> fulfillment_db \<Rightarrow> bool" where
  "despatch_ready c q db \<longleftrightarrow> unique_id_from (snd c 0) = Inr (snd c 0)"

lemma despatch_found_after:
  assumes "unique_id_from (fresh 0) = Inr (fresh 0)"
    and "execute_despatch now fresh text request_id corr db db = (Inr reply, db')"
  shows "\<exists>ref s. parse_order text = Inr ref \<and> find_despatch ref db' = Inr (Some s)"
proof -
  obtain ref where ref: "parse_order text = Inr ref"
    using assms(2) by (auto simp: execute_despatch_def split: sum.splits)
  obtain found where found: "find_despatch ref db = Inr found"
    using assms(2) ref by (auto simp: execute_despatch_def split: sum.splits)
  show ?thesis
  proof (cases found)
    case (Some s)
    then have "db' = db" using assms(2) ref found by (simp add: execute_despatch_def)
    with Some ref found show ?thesis by simp
  next
    case None
    obtain ids where "despatch_in_transaction now fresh text request_id corr ref ids db = Inr (reply, db')"
      using assms(2) ref found None by (auto simp: execute_despatch_def unit_of_work_Inr split: sum.splits list.splits)
    then show ?thesis
    proof (cases rule: despatch_in_transaction_Inr)
      case (existing items s)
      then show ?thesis using ref by auto
    next
      case (created items first dref db1 d items' db2)
      have d: "da_id d = fresh 0" "da_order d = ref"
        using created(6) by (auto simp: create_despatch_for_order_def create_despatch_advice_def bindR_Inr Let_def split: if_splits)
      note save = save_despatch_Inr [OF created(8)]
      have "find (\<lambda>r. dv_order r = order_number_value ref) (fd_despatches db2) = None"
        using save(2) unfolding d(2) by (metis (mono_tags, lifting) find_None_iff image_eqI)
      then have "find (\<lambda>r. dv_order r = order_number_value ref) (fd_despatches db') = Some (to_despatch_table_row d)"
        unfolding save(1) by (simp add: find_append d(2) to_despatch_table_row_def)
      then show ?thesis using ref assms(1)
        by (auto simp: find_despatch_def to_despatch_snapshot_def to_despatch_table_row_def d(1))
    qed
  qed
qed

lemma despatch_repeats:
  assumes "despatch_done check q db"
  shows "\<exists>r. despatch_service sentence check c q db db = (Inr r, db)"
  unfolding despatch_service_def
  using assms by (intro respond_repeats) (auto simp: despatch_done_def execute_despatch_def split: sum.splits option.splits)

lemma despatch_settles:
  assumes "despatch_ready c q db" "despatch_service sentence check c q db db = (Inr r, db')"
  shows "despatch_done check q db'"
proof -
  obtain corr request where "parse_rpc_meta (Some (fst q)) = Some (corr, request)" "check (snd q) = []"
    and run: "execute_despatch (fst c) (snd c) (snd q) request corr db db = (Inr r, db')"
    using respond_Inr [OF assms(2) [unfolded despatch_service_def]] by blast
  moreover have "unique_id_from (snd c 0) = Inr (snd c 0)" using assms(1) by (simp add: despatch_ready_def)
  ultimately show ?thesis using despatch_found_after [OF _ run] by (auto simp: despatch_done_def admitted_def)
qed

interpretation despatch_again: repeatable_command "\<lambda>c q db. despatch_service sentence check c q db db"
    "despatch_done check" despatch_ready "\<lambda>_. True"
  for sentence check
  by unfold_locales (rule despatch_repeats, assumption, rule despatch_settles)

section \<open>Holding again\<close>

definition hold_request_ok :: "hold_request \<Rightarrow> bool" where
  "hold_request_ok req \<longleftrightarrow> is_ok (order_number_of (hq_reference req)) \<and> currency_shape (hq_currency req) \<and>
     fits_int (hq_amount req) \<and> 0 < hq_amount req"

lemma hold_request_facts:
  assumes "hold_request_ok req"
  shows "order_number_of (hq_reference req) = Inr (Order_Number (hq_reference req))" "currency_shape (hq_currency req)"
    "fits_int (hq_amount req)" "0 < hq_amount req"
proof -
  obtain ref where "order_number_of (hq_reference req) = Inr ref" using assms by (auto simp: hold_request_ok_def is_ok_iff)
  then show "order_number_of (hq_reference req) = Inr (Order_Number (hq_reference req))" by (simp add: order_number_of_value)
qed (use assms in \<open>simp_all add: hold_request_ok_def\<close>)

definition hold_done :: "(hold_request \<Rightarrow> violation list) \<Rightarrow> hold_request served_request \<Rightarrow> billing_db \<Rightarrow> bool" where
  "hold_done check q db \<longleftrightarrow> admitted check q \<and> hold_request_ok (snd q) \<and>
     (case credit_row_of (hq_retailer (snd q)) (hq_company (snd q)) db of
        None \<Rightarrow> False
      | Some row \<Rightarrow> line_ready row db \<and>
          list_ex (\<lambda>it. ki_type it = Entry_Hold) (items_of row (Order_Number (hq_reference (snd q))) db))"

definition hold_ready :: "draws \<Rightarrow> hold_request served_request \<Rightarrow> billing_db \<Rightarrow> bool" where
  "hold_ready c q db \<longleftrightarrow> hold_request_ok (snd q) \<and> uuid_stream (snd c) \<and> unused_item (snd c 0) db \<and>
     unused_event (snd c 0) db \<and> unused_event (snd c 1) db \<and>
     (case credit_row_of (hq_retailer (snd q)) (hq_company (snd q)) db of None \<Rightarrow> False | Some row \<Rightarrow> line_ready row db)"

definition holds_credit :: "hold_reply \<Rightarrow> bool" where
  "holds_credit r = (case ha_outcome r of hold_outcome.Outcome_Rejected why \<Rightarrow> False | _ \<Rightarrow> True)"

lemma hold_repeats:
  assumes "hold_done check q db"
  shows "\<exists>r. hold_service decide sentence check c q db = (Inr r, db)"
proof -
  let ?ref = "Order_Number (hq_reference (snd q))"
  obtain row where row: "credit_row_of (hq_retailer (snd q)) (hq_company (snd q)) db = Some row" "line_ready row db"
      "list_ex (\<lambda>it. ki_type it = Entry_Hold) (items_of row ?ref db)"
    and q: "admitted check q" "hold_request_ok (snd q)"
    using assms by (auto simp: hold_done_def split: option.splits)
  obtain it where it: "find (\<lambda>it. ki_type it = Entry_Hold) (items_of row ?ref db) = Some it"
    using row(3) by (cases "find (\<lambda>it. ki_type it = Entry_Hold) (items_of row ?ref db)") (auto simp: find_None_iff list_ex_iff)
  note ref = hold_request_facts [OF q(2)]
  show ?thesis unfolding hold_service_def
    using hold_repeated [OF row(1,2) ref(1-3) it] by (intro respond_repeats [OF q(1)]) blast
qed

lemma hold_settles:
  assumes "hold_ready c q db" "hold_service decide sentence check c q db = (Inr r, db')" "holds_credit r"
  shows "hold_done check q db'"
proof -
  let ?req = "snd q" and ?ref = "Order_Number (hq_reference (snd q))"
  obtain corr request where meta: "parse_rpc_meta (Some (fst q)) = Some (corr, request)" "check ?req = []"
    and run: "execute_hold decide (fst c) (snd c) ?req request corr db = (Inr r, db')"
    using respond_Inr [OF assms(2) [unfolded hold_service_def]] by blast
  obtain row where row: "credit_row_of (hq_retailer ?req) (hq_company ?req) db = Some row" "line_ready row db"
    and u: "hold_request_ok ?req" "uuid_stream (snd c)" "unused_item (snd c 0) db" "unused_event (snd c 0) db" "unused_event (snd c 1) db"
    using assms(1) by (auto simp: hold_ready_def split: option.splits)
  note ref = hold_request_facts [OF u(1)]
  note out = hold_command_outcomes [OF row ref(1-3) u(3-5), of decide "fst c" request corr, unfolded run]
  have settled: "hold_done check q db'"
    if "credit_row_of (hq_retailer ?req) (hq_company ?req) db' = Some row" "line_ready row db'"
      "it \<in> set (items_of row ?ref db')" "ki_type it = Entry_Hold" for it
    using that meta u(1) by (auto simp: hold_done_def admitted_def list_ex_iff)
  show ?thesis
  proof (cases "find (\<lambda>it. ki_type it = Entry_Hold) (items_of row ?ref db)")
    case (Some it)
    then have "it \<in> set (items_of row ?ref db)" "ki_type it = Entry_Hold" by (auto simp: find_Some_iff)
    then show ?thesis using settled [of it] row out Some by simp
  next
    case None
    let ?e = "credit_approved_event (snd c 1) (line_at row ?ref db) ?ref (hq_amount ?req)
      (kr_limit row - committed_of_line (kr_id row) db - hq_amount ?req) corr \<lparr> cx_at = fst c, cx_causation = request \<rparr>"
    let ?it = "hold_item (snd c 0) row ?req (fst c)"
    have it: "?it = ledger_item (snd c 0) row ?ref (hq_amount ?req) Entry_Hold (fst c)"
      by (simp add: hold_item_def ledger_item_def)
    have db': "db' = with_billing_event (fst c) ?e (with_item ?it db)"
      using out None assms(3) by (auto simp: Let_def hold_reply_for_def holds_credit_def split: if_splits credit_decision.splits)
    have "ledger_next db db'"
      using billing_step_keeps_ledger [OF billing_step.Hold [OF u(2)], of db decide "fst c" ?req request corr] row(2) run
      by (simp add: line_ready_def)
    then have "line_ready row db'"
      using row(2) u(1) by (simp add: line_ready_def ledger_next_def db' it hold_request_ok_def)
    moreover have "?it \<in> set (items_of row ?ref db')" by (simp add: db' it)
    moreover have "credit_row_of (hq_retailer ?req) (hq_company ?req) db' = Some row" using row(1) by (simp add: db')
    moreover have "ki_type ?it = Entry_Hold" by (simp add: hold_item_def)
    ultimately show ?thesis using settled [of ?it] by blast
  qed
qed

interpretation hold_again: repeatable_command "hold_service decide sentence check" "hold_done check" hold_ready holds_credit
  for decide sentence check
  by unfold_locales (rule hold_repeats, assumption, rule hold_settles)

end
