(* ===== verification/Rpc_Composition.thy ===== *)
theory Rpc_Composition
  imports Rpc_Services Dispatch_Examples Stock_Examples
begin

text \<open>
  The dispatcher of the Orders service against the responders of the Fulfillment service, across
  the wire: what happens to an owed command when replies are lost, and what the caller makes of a
  responder that asks for a retry.
\<close>

definition reserve_call :: "uid \<Rightarrow> command_row \<Rightarrow> issued_call" where
  "reserve_call oid row = \<lparr> ic_command = Stock_Reserve, ic_payload = cm_payload row, ic_correlation = oid, ic_request = cm_id row \<rparr>"

text \<open>
  C16: a lost reply does not reserve twice.  Let the owed stock.reserve command of an order be sent
  as often as its retries allow, each time with fresh identifiers on the side of the Fulfillment
  service, and let the first request hold stock for the order.  Whatever replies are lost, as long
  as one of them arrives, the command ends as sent, no dead letter is written, every call carried
  the same payload, correlation and request id, and the tables of the Fulfillment service are
  exactly what the first request left.
\<close>

theorem lost_replies_reserve_once:
  assumes "cm_payload row = Reserve_Request req"
    and "find_by_order_and_command oid Stock_Reserve odb = Some row" "cm_status row \<noteq> Sent"
    and "length cs = dc_max_attempts cfg" "0 < dc_max_attempts cfg"
    and "reserve_ready (cs ! 0) (request_headers (reserve_call oid row), req) fdb"
    and "reserve_service sentence check (cs ! 0) (request_headers (reserve_call oid row), req) fdb = (Inr reply, fdb1)"
    and "holds_stock reply"
    and "undisturbed w" "\<forall>j. dw_call w j = delivered lost (command_subject Stock_Reserve) ms
      (fst (serve_all (\<lambda>c. reserve_service sentence check c (request_headers (reserve_call oid row), req)) cs fdb)) j"
    and "\<exists>j\<in>{1..dc_max_attempts cfg}. \<not> lost j"
    and "dispatch_command cfg w oid Stock_Reserve odb = (rep, odb')"
  shows "dr_result rep = Inr Outcome_Sent \<and> sent_row (cm_id row) odb' \<and> dr_letters rep = [] \<and>
    set (dr_calls rep) = {reserve_call oid row} \<and>
    snd (serve_all (\<lambda>c. reserve_service sentence check c (request_headers (reserve_call oid row), req))
      (take (length (dr_calls rep)) cs) fdb) = fdb1"
  unfolding reserve_call_def
  using assms(6-8) [unfolded reserve_call_def] assms(4,5,9) assms(10) [unfolded reserve_call_def] assms(11,2,3,12)
  by (rule reserve_again.lost_replies)

text \<open>
  A responder that gives up for a concurrent change is never asked again.  The answer to a stock.release
  that ended with the error of a concurrent change is a CONFLICT, which the caller takes for a final
  refusal: whatever the retry budget, the owed release is called once, without any delay, and ends as
  rejected, which no sweep picks up again.
\<close>

lemma concurrent_release_never_retried:
  assumes "cm_payload row = Release_Request text reason"
    and "find_by_order_and_command oid Stock_Release odb = Some row" "cm_status row \<noteq> Sent"
    and "0 < dc_max_attempts cfg" "undisturbed w"
    and "unique_id_from oid = Inr oid" "unique_id_from (cm_id row) = Inr (cm_id row)" "check (text, reason) = []"
    and "fst (execute_release now (fresh 0) text reason (cm_id row) oid rdb sdb) = Inl (Concurrent_Reservation_Change text)"
    and "dw_call w 1 = call_outcome_of (saga_call (command_subject Stock_Release) ms (Wire_Body (fst
      (release_service sentence check (now, fresh) (request_headers \<lparr> ic_command = Stock_Release, ic_payload = cm_payload row,
        ic_correlation = oid, ic_request = cm_id row \<rparr>, text, reason) rdb sdb))))"
    and "dispatch_command cfg w oid Stock_Release odb = (rep, odb')"
  shows "dr_result rep = Inr Outcome_Rejected \<and> length (dr_calls rep) = 1 \<and> dr_delays rep = [] \<and> dr_letters rep = [] \<and>
    (\<exists>row'. find_by_order_and_command oid Stock_Release odb' = Some row' \<and> cm_status row' = Rejected \<and> cm_next_attempt row' = None)"
proof -
  let ?c = "\<lparr> ic_command = Stock_Release, ic_payload = cm_payload row, ic_correlation = oid, ic_request = cm_id row \<rparr>"
  have "parse_rpc_meta (Some (request_headers ?c)) = Some (oid, cm_id row)"
    using headers_accepted [of ?c] assms(6,7) by simp
  then obtain e where "fst (release_service sentence check (now, fresh) (request_headers ?c, text, reason) rdb sdb) = Inl e"
      "re_code e = Code_Conflict"
    using assms(8,9)
    by (cases "execute_release now (fresh 0) text reason (cm_id row) oid rdb sdb")
      (simp add: release_service_def respond_command_def to_rpc_error_def)
  then have refused: "\<exists>m. dw_call w 1 = Call_Rejected m" unfolding assms(10) by simp
  show ?thesis by (rule dispatch_refused_at_once [OF assms(2-5) refused assms(11)])
qed

section \<open>Concrete runs\<close>

definition example_due :: enqueue_input where
  "example_due = \<lparr> en_id = example_id 6, en_order = example_id 1, en_reference = Order_Number ''ORD-000001'',
     en_command = Stock_Reserve, en_payload = Reserve_Request example_reserve,
     en_trigger_id = example_id 7, en_trigger = example_fact Order_Placed (Raw_P ''x'') 7, en_topic = ''orders'' \<rparr>"

definition example_due_db :: orders_db where
  "example_due_db = enqueue_command 0 example_due (example_db ''placed'')"

definition example_serve :: "draws \<Rightarrow> fulfillment_db \<Rightarrow> (rpc_error + reserve_reply) \<times> fulfillment_db" where
  "example_serve c = reserve_service (\<lambda>_. []) (\<lambda>_. []) c
     (request_headers (reserve_call (example_id 1) (new_command_row 0 example_due)), example_reserve)"

text \<open>The first of three replies is lost.\<close>

definition example_lossy_world :: dispatch_world where
  "example_lossy_world = \<lparr> dw_call = delivered (\<lambda>j. j = 1) (command_subject Stock_Reserve) 5000
       (fst (serve_all example_serve (replicate 3 (1000, example_id)) example_stock)),
     dw_others = (\<lambda>_. []), dw_now = 20000, dw_event = example_id 8, dw_broker_up = True \<rparr>"

lemma example_due_row:
  "find_by_order_and_command (example_id 1) Stock_Reserve example_due_db = Some (new_command_row 0 example_due)"
  by (simp add: example_due_db_def enqueue_command_def find_by_order_and_command_def new_command_row_def example_due_def)

lemma example_first_request:
  "case fst (example_serve (1000, example_id) example_stock) of Inr r \<Rightarrow> holds_stock r | Inl e \<Rightarrow> False"
  by code_simp

theorem lost_replies_reserve_once_witness:
  "let rep = fst (dispatch_command default_dispatcher_config example_lossy_world (example_id 1) Stock_Reserve example_due_db) in
    dr_result rep = Inr Outcome_Sent \<and> dr_letters rep = [] \<and>
    snd (serve_all example_serve (take (length (dr_calls rep)) (replicate 3 (1000, example_id))) example_stock) =
      snd (example_serve (1000, example_id) example_stock)"
proof -
  let ?row = "new_command_row 0 example_due"
  let ?d = "dispatch_command default_dispatcher_config example_lossy_world (example_id 1) Stock_Reserve example_due_db"
  obtain r where r: "example_serve (1000, example_id) example_stock = (Inr r, snd (example_serve (1000, example_id) example_stock))"
    "holds_stock r"
    using example_first_request by (cases "example_serve (1000, example_id) example_stock") (auto split: sum.splits)
  have payload: "cm_payload ?row = Reserve_Request example_reserve" "cm_status ?row \<noteq> Sent"
    by (simp_all add: new_command_row_def example_due_def)
  have serve: "reserve_service (\<lambda>_. []) (\<lambda>_. []) c (request_headers (reserve_call (example_id 1) ?row), example_reserve) =
      example_serve c" for c
    by (simp add: example_serve_def fun_eq_iff)
  have len: "length (replicate 3 (1000::int, example_id)) = dc_max_attempts default_dispatcher_config"
      "0 < dc_max_attempts default_dispatcher_config" "replicate 3 (1000::int, example_id) ! 0 = (1000, example_id)"
    by simp_all
  have ready: "reserve_ready (1000, example_id) (hs, example_reserve) example_stock" for hs
    using example_stock_ok(1) example_stock_fresh by (simp add: reserve_ready_def example_reserve_def eval_nat_numeral)
  have world: "undisturbed example_lossy_world"
      "\<forall>j. dw_call example_lossy_world j = delivered (\<lambda>j. j = 1) (command_subject Stock_Reserve) 5000
        (fst (serve_all example_serve (replicate 3 (1000, example_id)) example_stock)) j"
    by (simp_all add: example_lossy_world_def undisturbed_def)
  have heard: "\<exists>j\<in>{1..dc_max_attempts default_dispatcher_config}. \<not> j = 1" by (intro bexI [of _ 2]) simp_all
  note run = lost_replies_reserve_once [where sentence = "\<lambda>_. []" and check = "\<lambda>_. []",
      OF payload(1) example_due_row payload(2) len(1,2), unfolded serve len(3), OF ready r world heard surjective_pairing]
  show ?thesis using run by (simp only: Let_def conj_assoc)
qed

end
