(* ===== verification/Gateway_Commands.thy ===== *)
theory Gateway_Commands
  imports Gateway_Payments Rpc_Wire Cancel_Order
begin

text \<open>
  The commands a client sends through the gateway: the remote-call adapter
  (apps/gateway/src/infrastructure/messaging/nats-rpc-client.adapter.ts), the placement and the
  cancellation of an order (application/commands, presentation/orders.controller.ts), and the two
  responders of the Orders service behind them (orders-create.controller.ts,
  orders-cancel.controller.ts).  The main property follows a placement through all of them.
\<close>

section \<open>The adapter\<close>

definition text_detail :: "string \<Rightarrow> rpc_error \<Rightarrow> string option" where
  "text_detail k e = (case map_of (re_details e) k of Some (Detail_Text s) \<Rightarrow> Some s | _ \<Rightarrow> None)"

definition gateway_call :: "'r wire_result \<Rightarrow> rpc_failure + 'r" where
  "gateway_call w = (case w of
     Wire_Timeout \<Rightarrow> Inl Rpc_Timed_Out
   | Wire_No_Responders \<Rightarrow> Inl (Rpc_Unavailable ''no responder is subscribed to this subject'')
   | Wire_Failure m \<Rightarrow> Inl (Rpc_Unavailable m)
   | Wire_Not_Json m \<Rightarrow> Inl (Rpc_Unavailable (''reply payload was not valid JSON: '' @ m))
   | Wire_Body (Inl e) \<Rightarrow> Inl (Rpc_Refused (rpc_code_text (re_code e)) (text_detail ''code'' e))
   | Wire_Body (Inr r) \<Rightarrow> Inr r)"

datatype 'r http_answer = Http_Answer nat 'r | Http_Problem problem

section \<open>Placing an order\<close>

record gateway_placement =
  gq_retailer :: string
  gq_company :: string
  gq_currency :: string
  gq_lines :: "place_line_command list"
  gq_order_discount :: "js_number option"
  gq_notes :: "string option"

definition placement_command :: "gateway_placement \<Rightarrow> string option \<Rightarrow> place_command" where
  "placement_command g key = \<lparr> pc_request_id = (if truthy key then key else None), pc_retailer = gq_retailer g,
     pc_company = gq_company g, pc_currency = gq_currency g, pc_lines = gq_lines g,
     pc_order_discount = gq_order_discount g, pc_notes = gq_notes g \<rparr>"

record place_response =
  po_order :: uid
  po_reference :: string
  po_status :: string
  po_currency :: string
  po_initial :: int
  po_discount :: int
  po_total :: int
  po_date :: instant
  po_projection_pending :: bool

definition place_response_of :: "place_result \<Rightarrow> place_response" where
  "place_response_of r = \<lparr> po_order = pr_order_id r, po_reference = pr_reference r, po_status = ''placed'',
     po_currency = pr_currency r, po_initial = pr_initial r, po_discount = pr_discount r, po_total = pr_total r,
     po_date = pr_order_date r, po_projection_pending = True \<rparr>"

definition gateway_place ::
    "instant \<Rightarrow> place_result wire_result \<Rightarrow> issued_window \<Rightarrow> (gateway_error + place_response) \<times> issued_window" where
  "gateway_place now w win = (case gateway_call w of
     Inl e \<Rightarrow> (Inl (Rpc_Failed e), win)
   | Inr r \<Rightarrow> (Inr (place_response_of r), record_issued now (pr_order_id r) win))"

definition answer_place ::
    "instant \<Rightarrow> place_result wire_result \<Rightarrow> issued_window \<Rightarrow> place_response http_answer \<times> issued_window" where
  "answer_place now w win = (case gateway_place now w win of
     (Inl e, win') \<Rightarrow> (Http_Problem (classify_problem e), win')
   | (Inr r, win') \<Rightarrow> (Http_Answer 201 r, win'))"

text \<open>
  The responder of orders.create; \<open>check\<close> is the verdict of its request validation.  The validation
  the gateway makes before its call is not part of the model.
\<close>

definition create_service ::
    "(place_error \<Rightarrow> string) \<Rightarrow> (place_command \<Rightarrow> violation list) \<Rightarrow> nat \<Rightarrow>
      (string \<Rightarrow> (string \<times> js_number) list \<Rightarrow> stock_answer wire_result) \<Rightarrow> instant \<Rightarrow> (nat \<Rightarrow> uid) \<Rightarrow>
      place_command \<Rightarrow> orders_db \<Rightarrow> orders_db \<Rightarrow> (rpc_error + place_result) \<times> orders_db" where
  "create_service sentence check ms wire now fresh cmd db_read db =
     (if check cmd \<noteq> [] then (Inl (validation_rpc_error now (check cmd)), db)
      else case execute_place (\<lambda>company ls. stock_check_call (wire company ls)) now fresh cmd db_read db of
        (res, db') \<Rightarrow> (mapErr (to_rpc_error (orders_verdict ms) sentence now) res, db'))"

section \<open>Cancelling an order\<close>

record cancel_reply =
  cv_order :: uid
  cv_reference :: string
  cv_status :: string
  cv_reason :: "cancellation_reason option"
  cv_planned :: "planned_release list"

definition to_cancel_reply :: "instant \<Rightarrow> string \<Rightarrow> cancel_result \<Rightarrow> rpc_error + cancel_reply" where
  "to_cancel_reply now requested res = (case res of
     Cancel_Not_Found \<Rightarrow> Inl \<lparr> re_code = Code_Not_Found, re_message = ''order '' @ requested @ '' not found'',
       re_details = [], re_at = now \<rparr>
   | Not_Cancellable i ref st \<Rightarrow> Inl \<lparr> re_code = Code_Order_Not_Cancellable,
       re_message = ''order '' @ ref @ '' cannot be cancelled from status '' @ in_quotes (status_name st),
       re_details = [(''status'', Detail_Text (status_name st))], re_at = now \<rparr>
   | Compensation_Pending i ref st planned \<Rightarrow> Inr \<lparr> cv_order = i, cv_reference = ref, cv_status = status_name st,
       cv_reason = None, cv_planned = planned \<rparr>
   | Cancel_Done i ref why \<Rightarrow> Inr \<lparr> cv_order = i, cv_reference = ref, cv_status = ''cancelled'', cv_reason = why, cv_planned = [] \<rparr>)"

definition gateway_cancel :: "cancel_reply wire_result \<Rightarrow> gateway_error + cancel_reply" where
  "gateway_cancel w = (case gateway_call w of
     Inl e \<Rightarrow> Inl (Rpc_Failed e)
   | Inr r \<Rightarrow> Inr (r \<lparr> cv_reason := Some Operator_Cancelled \<rparr>))"

text \<open>An id that is no UUID is refused before any call.\<close>

definition answer_cancel :: "string \<Rightarrow> (uid \<Rightarrow> cancel_reply wire_result) \<Rightarrow> cancel_reply http_answer" where
  "answer_cancel raw wire = (case unique_id_from raw of
     Inl e \<Rightarrow> Http_Problem (classify_problem Bad_Request)
   | Inr i \<Rightarrow> (case gateway_cancel (wire i) of
       Inl e \<Rightarrow> Http_Problem (classify_problem e)
     | Inr r \<Rightarrow> Http_Answer 202 r))"

section \<open>What a client is told\<close>

text \<open>No code of a domain error of the Orders service is one the gateway treats on its own.\<close>

lemma kernel_code_plain: "map_of detail_code_overrides (kernel_error_code e) = None"
  by (cases e) (simp_all add: detail_code_overrides_def)

lemma order_code_plain: "order_error_code e = Some c \<Longrightarrow> map_of detail_code_overrides c = None"
proof (cases e)
  case (Kernel_Error x)
  assume "order_error_code e = Some c"
  then show ?thesis using Kernel_Error kernel_code_plain [of x] by simp
qed (auto simp: detail_code_overrides_def)

lemma stored_code_plain: "stored_error_code e = Some c \<Longrightarrow> map_of detail_code_overrides c = None"
  by (cases e) (auto simp: kernel_code_plain order_code_plain)

text \<open>The failures that carry no code of a domain error: some rows that cannot be written or read.\<close>

primrec place_error_is_internal :: "place_error \<Rightarrow> bool" where
  "place_error_is_internal (Order_Discount_Not_Supported d c) = False"
| "place_error_is_internal (Reference_Data_Not_Found k v) = False"
| "place_error_is_internal (Stock_Unavailable shs) = False"
| "place_error_is_internal (Stock_Check_Failed f) = False"
| "place_error_is_internal (Place_Kernel e) = False"
| "place_error_is_internal (Place_Order_Error e) = (order_error_code e = None)"
| "place_error_is_internal (Place_Store e) = (stored_error_code e = None)"

definition refusal_status :: "place_error \<Rightarrow> nat \<times> string" where
  "refusal_status e = (if place_error_is_internal e then (500, ''INTERNAL_ERROR'')
     else case e of
       Stock_Unavailable shs \<Rightarrow> (409, ''STOCK_UNAVAILABLE'')
     | Stock_Check_Failed Stock_Check_Timeout \<Rightarrow> (503, ''UPSTREAM_TIMEOUT'')
     | Stock_Check_Failed (Stock_Check_Transport r) \<Rightarrow> (503, ''UPSTREAM_UNAVAILABLE'')
     | Reference_Data_Not_Found k v \<Rightarrow> (404, ''NOT_FOUND'')
     | _ \<Rightarrow> (400, ''VALIDATION_FAILED''))"

lemma refused_placement_problem:
  "\<exists>p. classify_problem (Rpc_Failed (Rpc_Refused (rpc_code_text (re_code (to_rpc_error (orders_verdict ms) sentence now e)))
      (text_detail ''code'' (to_rpc_error (orders_verdict ms) sentence now e)))) = p \<and> (pb_status p, pb_code p) = refusal_status e"
proof -
  have plain: "classify_rpc_error code (Some c) = classify_rpc_error code None" if "map_of detail_code_overrides c = None" for code c
    using that by (simp add: classify_rpc_error_def)
  note defs = refusal_status_def to_rpc_error_def text_detail_def remaining_error_def coded_def
    plain [OF kernel_code_plain] plain [OF order_code_plain] plain [OF stored_code_plain]
  note codes = classify_rpc_error_def generic_code_classification_def or_else_def problem_of_def
  show ?thesis
  proof (cases e)
    case (Place_Order_Error x)
    then show ?thesis by (cases "order_error_code x") (simp_all add: defs, simp_all add: codes)
  next
    case (Place_Store x)
    then show ?thesis by (cases "stored_error_code x") (simp_all add: defs, simp_all add: codes)
  qed (simp_all add: defs split: stock_check_failure.split, simp_all add: codes split: stock_check_failure.split)
qed

text \<open>
  C25: a placement is answered for what happened to it.  For any request the gateway's validation let
  through and any Orders database, a client whose reply is not lost learns the outcome: a payload the
  Orders service does not validate is a 400 and touches nothing; an order that was placed, or found
  for its idempotency key, is a 201 with its identity and totals, and its id is in the window of the
  gateway; every failure is the problem of its kind: 409 with STOCK_UNAVAILABLE for missing stock, 503
  for a stock check that timed out or failed, 404 for an unknown party, product or currency, 400
  with VALIDATION_FAILED for any other failure with a domain code, a rule that refuses the request
  or a stored row that breaks one, and 500 without such a code.  The window is touched by success
  alone.  The 400 is what the code answers: the OpenAPI file gives this operation 422 for a domain rule
  and lists no 404.
\<close>

theorem placement_answered_truly:
  "let cmd = placement_command g key;
     run = execute_place (\<lambda>company ls. stock_check_call (wire company ls)) now fresh cmd db_read db;
     (reply, db') = create_service sentence check ms wire now fresh cmd db_read db;
     (answer, win') = answer_place t (Wire_Body reply) win
   in if check cmd \<noteq> [] then db' = db \<and> win' = win \<and>
       answer = Http_Problem (problem_of 400 ''VALIDATION_FAILED'' ''The request was malformed or failed validation'')
     else db' = snd run \<and> (case fst run of
       Inr r \<Rightarrow> answer = Http_Answer 201 (place_response_of r) \<and> win' = record_issued t (pr_order_id r) win
     | Inl e \<Rightarrow> win' = win \<and> (\<exists>p. answer = Http_Problem p \<and> (pb_status p, pb_code p) = refusal_status e))"
proof -
  let ?cmd = "placement_command g key"
  obtain res db1 where run: "execute_place (\<lambda>company ls. stock_check_call (wire company ls)) now fresh ?cmd db_read db = (res, db1)"
    by fastforce
  show ?thesis
  proof (cases "check ?cmd = []")
    case False
    then show ?thesis
      by (simp add: create_service_def answer_place_def gateway_place_def gateway_call_def validation_rpc_error_def
          text_detail_def classify_rpc_error_def generic_code_classification_def or_else_def Let_def)
  next
    case True
    then show ?thesis using run refused_placement_problem [of ms sentence now]
      by (cases res) (simp_all add: create_service_def answer_place_def gateway_place_def gateway_call_def Let_def)
  qed
qed

end
