(* ===== verification/Saga_Intake.thy ===== *)
theory Saga_Intake
  imports Saga_Examples Fact_Retry Fact_Envelope
begin

text \<open>
  The Kafka controller of the saga (apps/orders/src/presentation/saga-facts.controller.ts): it reads
  an envelope, looks up the command of its type (saga-fact.commands.ts) and runs it under the retry
  dispatcher.  What an attempt meets is its \<open>attempt_world\<close>: the clock, the identifiers it
  draws, and a failure of the database before or after the commit of its transaction; in the latter
  case the attempt fails although its work is done.  The publication of a dead letter may fail as well.
\<close>

section \<open>The controller\<close>

datatype database_fault = Fault_Before_Commit string | Fault_After_Commit string

record attempt_world =
  aw_now :: instant
  aw_event :: uid
  aw_row :: uid
  aw_fault :: "database_fault option"

datatype fact_failure = Fact_Handler_Failed handler_error | Fact_Database_Failed string | No_Fact_Command string

text \<open>
  The lookup is one in an object literal, which also answers to the members every object inherits:
  they are no commands.
\<close>

datatype fact_command = Saga_Fact_Command | Inherited_Member

definition object_members :: "string list" where
  "object_members = [''constructor'', ''hasOwnProperty'', ''isPrototypeOf'', ''propertyIsEnumerable'', ''toLocaleString'',
     ''toString'', ''valueOf'', ''__proto__'', ''__defineGetter__'', ''__defineSetter__'', ''__lookupGetter__'', ''__lookupSetter__'']"

fun fact_command_for :: "event_type \<Rightarrow> fact_command option" where
  "fact_command_for Order_Placed = Some Saga_Fact_Command"
| "fact_command_for Stock_Reserved_Fact = Some Saga_Fact_Command"
| "fact_command_for Stock_Rejected_Fact = Some Saga_Fact_Command"
| "fact_command_for Credit_Approved_Fact = Some Saga_Fact_Command"
| "fact_command_for Credit_Rejected_Fact = Some Saga_Fact_Command"
| "fact_command_for Stock_Released_Fact = Some Saga_Fact_Command"
| "fact_command_for Order_Despatched = Some Saga_Fact_Command"
| "fact_command_for Invoice_Issued = Some Saga_Fact_Command"
| "fact_command_for Payment_Received = Some Saga_Fact_Command"
| "fact_command_for Credit_Released_Fact = Some Saga_Fact_Command"
| "fact_command_for (Other_Event s) = (if s \<in> set object_members then Some Inherited_Member else None)"
| "fact_command_for e = None"

definition saga_attempt ::
    "string \<Rightarrow> envelope \<Rightarrow> fact_command \<Rightarrow> attempt_world \<Rightarrow> orders_db \<Rightarrow> (fact_failure + fact_outcome) \<times> orders_db" where
  "saga_attempt topic env c w db = (case (c, aw_fault w) of
     (Inherited_Member, _) \<Rightarrow> (Inl (No_Fact_Command (event_type_name (ev_type env))), db)
   | (Saga_Fact_Command, Some (Fault_Before_Commit m)) \<Rightarrow> (Inl (Fact_Database_Failed m), db)
   | (Saga_Fact_Command, fault) \<Rightarrow> (case handle_fact (aw_now w) (aw_event w) (aw_row w) topic env db of
       (Inl e, db') \<Rightarrow> (Inl (Fact_Handler_Failed e), db')
     | (Inr r, db') \<Rightarrow> (case fault of
         Some (Fault_After_Commit m) \<Rightarrow> (Inl (Fact_Database_Failed m), db')
       | _ \<Rightarrow> (Inr r, db'))))"

datatype fact_routing =
    Malformed_Acknowledged malformed_envelope
  | Not_Consumed
  | Fact_Dispatched "fact_failure dispatch_end" "rat list"

definition route_saga_fact ::
    "retry_policy \<Rightarrow> (nat \<Rightarrow> attempt_world) \<Rightarrow> (nat \<Rightarrow> instant) \<Rightarrow> string option \<Rightarrow> string \<Rightarrow> wire_value \<Rightarrow>
      orders_db \<Rightarrow> fact_routing \<times> orders_db" where
  "route_saga_fact pol worlds clock dlq topic v db = (case parse_fact_envelope v of
     Inl e \<Rightarrow> (Malformed_Acknowledged e, db)
   | Inr env \<Rightarrow> (case fact_command_for (ev_type env) of
       None \<Rightarrow> (Not_Consumed, db)
     | Some c \<Rightarrow> (case fact_dispatch pol (\<lambda>k. saga_attempt topic env c (worlds k)) clock dlq topic env orders_saga_consumer db of
         ((stop, delays), db') \<Rightarrow> (Fact_Dispatched stop delays, db'))))"

section \<open>What the attempts of one delivery do\<close>

lemma consumed_not_skipped:
  "fact_command_for e = Some Saga_Fact_Command \<Longrightarrow> \<not> list_all is_skip (step_variants_for e)"
  by (cases e) (simp_all add: step_variants split: if_splits)

definition fact_done :: "envelope \<Rightarrow> orders_db \<Rightarrow> bool" where
  "fact_done env db \<longleftrightarrow> (ev_id env, orders_saga_consumer) \<in> set (db_processed db)"

text \<open>A run of the handler that commits: exactly one is what a fact may do to the tables.\<close>

definition fact_effect_of :: "string \<Rightarrow> envelope \<Rightarrow> attempt_world \<Rightarrow> orders_db \<Rightarrow> orders_db \<Rightarrow> bool" where
  "fact_effect_of topic env w db db' \<longleftrightarrow>
     (\<exists>r. handle_fact (aw_now w) (aw_event w) (aw_row w) topic env db = (Inr r, db'))"

lemma effect_is_done:
  assumes "fact_effect_of topic env w db db'" "fact_command_for (ev_type env) = Some Saga_Fact_Command"
  shows "fact_done env db'"
proof -
  obtain c where "run_once (record_processed_event (ev_id env) orders_saga_consumer)
      (saga_fact_work (aw_now w) (aw_event w) (aw_row w) topic env) db = (Inr c, db')"
    using assms consumed_not_skipped
    by (auto simp: fact_effect_of_def handle_fact_def split: prod.splits sum.splits consumption.splits)
  from orders_ledger.processed_after [of "(ev_id env, orders_saga_consumer)", simplified, OF this saga_work_keeps_ledger]
  show ?thesis by (simp add: fact_done_def)
qed

lemma failed_handler_changes_nothing:
  assumes "handle_fact now event row topic env db = (Inl e, db')"
  shows "db' = db"
proof (cases "list_all is_skip (step_variants_for (ev_type env))")
  case False
  then have "run_once (record_processed_event (ev_id env) orders_saga_consumer) (saga_fact_work now event row topic env) db = (Inl e, db')"
    using assms by (auto simp: handle_fact_def split: prod.splits sum.splits consumption.splits)
  then show ?thesis using orders_ledger.error_is_noop [of "(ev_id env, orders_saga_consumer)"] by simp
qed (use assms in \<open>simp add: handle_fact_def\<close>)

lemma done_attempt:
  assumes "fact_done env db"
  shows "snd (saga_attempt topic env c w db) = db"
proof -
  have "snd (handle_fact now event row topic env db) = db" for now event row
    using assms by (simp add: fact_done_def handle_fact_snd duplicate_delivery)
  then show ?thesis
    by (auto simp: saga_attempt_def split: fact_command.split option.split database_fault.split prod.split sum.split)
      (metis snd_conv)+
qed

lemma attempt_effect:
  assumes "saga_attempt topic env Saga_Fact_Command w db = (r, db')"
  shows "(db' = db \<and> \<not> is_ok r) \<or> fact_effect_of topic env w db db'"
  using assms
  by (auto simp: saga_attempt_def fact_effect_of_def dest: failed_handler_changes_nothing
      split: option.splits database_fault.splits prod.splits sum.splits)

lemma attempt_keeps_done: "fact_done e db \<Longrightarrow> fact_done e (snd (saga_attempt topic env c w db))"
  using handle_fact_processed_mono [of "(ev_id e, orders_saga_consumer)" db "aw_now w" "aw_event w" "aw_row w" topic env]
  by (auto simp: saga_attempt_def fact_done_def split: fact_command.split option.split database_fault.split prod.split sum.split)

text \<open>What every attempt keeps, the dispatcher keeps.\<close>

lemma retry_loop_invariant:
  assumes "\<And>k x. P x \<Longrightarrow> P (snd (process k x))" "P db"
  shows "P (snd (snd (retry_loop pol process clock k f l db)))"
  using assms
proof (induction pol process clock k f l db rule: retry_loop.induct)
  case (1 pol process clock k f l db)
  show ?case
  proof (cases "process k db")
    case (Pair a db1)
    then have db1: "P db1" using "1.prems"(1) [of db k, OF "1.prems"(2)] by simp
    show ?thesis
    proof (cases "of_nat k \<le> rp_max_attempts pol")
      case True
      then show ?thesis using "1.IH" [OF True Pair [symmetric] _ refl "1.prems"(1) db1] Pair db1
        by (cases a) (simp_all add: retry_loop.simps [of pol process clock k f l db] Let_def case_prod_beta)
    qed (use "1.prems" in \<open>simp add: retry_loop.simps [of pol process clock k f l db]\<close>)
  qed
qed

lemma dispatch_invariant:
  assumes "\<And>k x. P x \<Longrightarrow> P (snd (process k x))" "P db"
  shows "P (snd (fact_dispatch pol process clock dlq topic env consumer db))"
  using retry_loop_invariant [of P process db pol clock 1 None None, OF assms]
  by (auto simp: fact_dispatch_def Let_def split: prod.splits retry_end.splits)

lemma route_keeps_done: "fact_done e db \<Longrightarrow> fact_done e (snd (route_saga_fact pol worlds clock dlq topic v db))"
proof -
  assume d: "fact_done e db"
  have "fact_done e (snd (fact_dispatch pol (\<lambda>k. saga_attempt topic env c (worlds k)) clock dlq topic env orders_saga_consumer db))" for env c
    by (rule dispatch_invariant [where P = "fact_done e"]) (simp_all add: attempt_keeps_done d)
  then show ?thesis using d by (simp add: route_saga_fact_def case_prod_beta split: sum.split option.split)
qed

text \<open>A fact that is done is never worked on again, whatever envelope carries its identifier.\<close>

lemma route_done_fact:
  assumes "parse_fact_envelope v = Inr env" "fact_done env db"
  shows "snd (route_saga_fact pol worlds clock dlq topic v db) = db"
proof -
  have "snd (fact_dispatch pol (\<lambda>k. saga_attempt topic env c (worlds k)) clock dlq topic env orders_saga_consumer db) = db" for c
    by (rule dispatch_invariant [where P = "\<lambda>x. x = db"]) (simp_all add: done_attempt assms(2))
  then show ?thesis using assms(1) by (simp add: route_saga_fact_def case_prod_beta split: option.split)
qed

lemma dispatch_stops:
  assumes "1 \<le> rp_max_attempts pol"
    and "fact_dispatch pol process clock dlq topic env consumer db = ((stop, delays), db')"
  shows "\<exists>n. db' = state_before process (Suc n) db \<and> 1 \<le> n \<and> n \<le> allowed_attempts pol \<and>
    (stop = Fact_Handled \<longrightarrow> \<not> attempt_fails process db n) \<and>
    (stop \<noteq> Fact_Handled \<longrightarrow> (\<forall>k\<in>{1..allowed_attempts pol}. attempt_fails process db k)) \<and>
    (\<forall>l. dispatch_letter stop = Some l \<longrightarrow> fl_envelope l = env \<and> fl_topic l = topic) \<and> (dlq = None \<longrightarrow> offset_committed stop)"
proof -
  note first = fact_processed_or_dead_lettered [OF assms(1), where process = process and db = db and clock = clock and topic = topic
      and env = env and consumer = consumer and dlq = dlq]
  show ?thesis
  proof (cases "find (\<lambda>j. \<not> attempt_fails process db j) [1..<Suc (allowed_attempts pol)]")
    case None
    then have fails: "\<forall>k\<in>{1..allowed_attempts pol}. attempt_fails process db k"
      by (auto simp: find_None_iff simp del: upt_Suc)
    have "1 \<le> allowed_attempts pol" using assms(1) attempt_allowed [of 1 pol] by simp
    then show ?thesis using first None assms(2) fails
      by (intro exI [of _ "allowed_attempts pol"]) (auto simp del: state_before.simps split: option.splits)
  next
    case (Some n)
    then have "\<not> attempt_fails process db n" "1 \<le> n" "n \<le> allowed_attempts pol"
      by (auto simp: find_Some_iff simp del: upt_Suc state_before.simps)
    then show ?thesis using first Some assms(2)
      by (intro exI [of _ n]) auto
  qed
qed

lemma attempts_leave:
  assumes "fact_command_for (ev_type env) = Some Saga_Fact_Command"
  shows "(let s = state_before (\<lambda>k. saga_attempt topic env Saga_Fact_Command (worlds k)) (Suc n) db in
    s = db \<or> (\<exists>k\<in>{1..n}. fact_effect_of topic env (worlds k) db s))"
proof (induction n)
  case (Suc n)
  let ?p = "\<lambda>k. saga_attempt topic env Saga_Fact_Command (worlds k)"
  let ?s = "state_before ?p (Suc n) db"
  have step: "state_before ?p (Suc (Suc n)) db = snd (?p (Suc n) ?s)" by simp
  consider "?s = db" | k where "k \<in> {1..n}" "fact_effect_of topic env (worlds k) db ?s"
    using Suc.IH by (auto simp: Let_def simp del: state_before.simps)
  then show ?case
  proof cases
    case 1
    have "snd (?p (Suc n) db) = db \<or> fact_effect_of topic env (worlds (Suc n)) db (snd (?p (Suc n) db))"
      using attempt_effect [OF surjective_pairing, of topic env "worlds (Suc n)" db] by blast
    then show ?thesis unfolding step 1 Let_def by auto
  next
    case 2
    then have "snd (?p (Suc n) ?s) = ?s" by (intro done_attempt effect_is_done assms)
    then show ?thesis using 2 unfolding step Let_def by auto
  qed
qed simp

section \<open>A fact settles once\<close>

record inbound_fact =
  ib_topic :: string
  ib_value :: wire_value
  ib_worlds :: "nat \<Rightarrow> attempt_world"
  ib_dlq :: "string option"

definition route_all :: "retry_policy \<Rightarrow> (nat \<Rightarrow> instant) \<Rightarrow> inbound_fact list \<Rightarrow> orders_db \<Rightarrow> orders_db" where
  "route_all pol clock xs db = fold (\<lambda>x d. snd (route_saga_fact pol (ib_worlds x) clock (ib_dlq x) (ib_topic x) (ib_value x) d)) xs db"

lemma route_all_keeps_done: "fact_done e db \<Longrightarrow> fact_done e (route_all pol clock xs db)"
  by (induction xs arbitrary: db) (simp_all add: route_all_def route_keeps_done)

text \<open>
  C4: a consumed fact settles, under a policy that allows at least one attempt.  Whatever the
  database does to the attempts of one delivery, failing before or after the commit, the delivery
  leaves either the tables as they were or what exactly one committed run of the handler leaves,
  although an attempt may be repeated after its work was committed.  It returns, so that the offset
  is committed, unless the publication of a dead letter fails; a dead letter is only tried when
  every allowed attempt failed and carries the envelope as it came, and a delivery that returns
  without one has done the fact.  A fact that is done stays done, and no later message with its
  identifier, whatever arrived in between and whatever failed, changes a table.
\<close>

theorem consumed_fact_settles_once:
  assumes "1 \<le> rp_max_attempts pol" and "parse_fact_envelope v = Inr env"
    and "fact_command_for (ev_type env) = Some Saga_Fact_Command"
  shows "\<exists>stop delays db'. route_saga_fact pol worlds clock dlq topic v db = (Fact_Dispatched stop delays, db') \<and>
    (db' = db \<or> (\<exists>k\<in>{1..allowed_attempts pol}. fact_effect_of topic env (worlds k) db db')) \<and>
    (dlq = None \<longrightarrow> offset_committed stop) \<and>
    (stop = Fact_Handled \<longrightarrow> fact_done env db') \<and>
    (stop \<noteq> Fact_Handled \<longrightarrow> (\<forall>k\<in>{1..allowed_attempts pol}.
      attempt_fails (\<lambda>j. saga_attempt topic env Saga_Fact_Command (worlds j)) db k)) \<and>
    (\<forall>l. dispatch_letter stop = Some l \<longrightarrow> fl_envelope l = env \<and> fl_topic l = topic) \<and>
    (fact_done env db' \<longrightarrow> (\<forall>xs worlds' dlq' topic' v' env'. parse_fact_envelope v' = Inr env' \<and> ev_id env' = ev_id env \<longrightarrow>
      snd (route_saga_fact pol worlds' clock dlq' topic' v' (route_all pol clock xs db')) = route_all pol clock xs db'))"
proof -
  let ?p = "\<lambda>k. saga_attempt topic env Saga_Fact_Command (worlds k)"
  obtain stop delays db' where run: "fact_dispatch pol ?p clock dlq topic env orders_saga_consumer db = ((stop, delays), db')"
    by (metis prod.collapse)
  then have route: "route_saga_fact pol worlds clock dlq topic v db = (Fact_Dispatched stop delays, db')"
    using assms(2,3) by (simp add: route_saga_fact_def)
  obtain n where n: "db' = state_before ?p (Suc n) db" "1 \<le> n" "n \<le> allowed_attempts pol"
      "stop = Fact_Handled \<longrightarrow> \<not> attempt_fails ?p db n"
    and ends: "stop \<noteq> Fact_Handled \<longrightarrow> (\<forall>k\<in>{1..allowed_attempts pol}. attempt_fails ?p db k)"
      "\<forall>l. dispatch_letter stop = Some l \<longrightarrow> fl_envelope l = env \<and> fl_topic l = topic" "dlq = None \<longrightarrow> offset_committed stop"
    using dispatch_stops [OF assms(1) run] by blast
  have "db' = db \<or> (\<exists>k\<in>{1..allowed_attempts pol}. fact_effect_of topic env (worlds k) db db')"
    using attempts_leave [OF assms(3), of topic worlds n db] n(3) unfolding n(1) Let_def by fastforce
  moreover have "fact_done env db'" if "stop = Fact_Handled"
  proof -
    have "is_ok (fst (?p n (state_before ?p n db)))" using n(4) that by (simp add: attempt_fails_def)
    then have "fact_effect_of topic env (worlds n) (state_before ?p n db) (snd (?p n (state_before ?p n db)))"
      using attempt_effect [OF surjective_pairing, of topic env "worlds n"] by blast
    then show ?thesis using n(1,2) effect_is_done [OF _ assms(3)] by simp
  qed
  moreover have "snd (route_saga_fact pol worlds' clock dlq' topic' v' (route_all pol clock xs db')) = route_all pol clock xs db'"
    if "fact_done env db'" "parse_fact_envelope v' = Inr env'" "ev_id env' = ev_id env" for xs worlds' dlq' topic' v' env'
    using route_done_fact [OF that(2)] route_all_keeps_done [OF that(1)] that(3) by (simp add: fact_done_def)
  ultimately show ?thesis using route ends by blast
qed

section \<open>Messages that are no command\<close>

text \<open>
  A type that is the name of a member every object inherits passes the lookup although nothing
  consumes it: instead of being acknowledged it is attempted and dead-lettered.
\<close>

lemma inherited_name_is_dead_lettered:
  assumes "1 \<le> rp_max_attempts pol" "parse_fact_envelope v = Inr env" "ev_type env = Other_Event ''constructor''"
  shows "\<exists>stop delays. route_saga_fact pol worlds clock dlq topic v db = (Fact_Dispatched stop delays, db) \<and> dispatch_letter stop \<noteq> None"
proof -
  let ?p = "\<lambda>k. saga_attempt topic env Inherited_Member (worlds k)"
  have fails: "attempt_fails ?p db k" for k by (simp add: attempt_fails_def saga_attempt_def)
  obtain stop delays db' where run: "fact_dispatch pol ?p clock dlq topic env orders_saga_consumer db = ((stop, delays), db')"
    by (metis prod.collapse)
  have "db' = db" using dispatch_invariant [where P = "\<lambda>x. x = db" and process = ?p, of db] run
    by (metis (no_types, lifting) saga_attempt_def fact_command.case(2) prod.case snd_conv)
  moreover have "stop \<noteq> Fact_Handled" using dispatch_stops [OF assms(1) run] fails by blast
  then have "dispatch_letter stop \<noteq> None" by (cases stop) simp_all
  ultimately show ?thesis using run assms(2,3) by (auto simp: route_saga_fact_def object_members_def)
qed

section \<open>An example\<close>

text \<open>The first attempt commits and loses its acknowledgement.\<close>

definition example_ambiguous :: "nat \<Rightarrow> attempt_world" where
  "example_ambiguous k = \<lparr> aw_now = 0, aw_event = example_id 4, aw_row = example_id 5,
     aw_fault = (if k = 1 then Some (Fault_After_Commit ''lost'') else None) \<rparr>"

definition example_inbound :: wire_value where
  "example_inbound = (let e = example_fact Stock_Reserved_Fact (Raw_P ''x'') 3 in
     Wire_Object \<lparr> wf_id = Some (ev_id e), wf_type = Some (ev_type e), wf_aggregate = Some (ev_aggregate e),
       wf_correlation = Some (ev_correlation e), wf_causation = Some (ev_causation e), wf_at = Some (ev_at e),
       wf_payload = Some (ev_payload e) \<rparr>)"

theorem consumed_fact_settles_once_witness:
  "\<exists>stop delays db'. route_saga_fact default_retry_policy example_ambiguous int None ''t'' example_inbound (example_db ''placed'') =
      (Fact_Dispatched stop delays, db') \<and> offset_committed stop \<and>
      (stop = Fact_Handled \<longrightarrow> fact_done (example_fact Stock_Reserved_Fact (Raw_P ''x'') 3) db')"
proof -
  let ?e = "example_fact Stock_Reserved_Fact (Raw_P ''x'') 3"
  have "parse_fact_envelope example_inbound = Inr ?e"
    unfolding example_inbound_def Let_def parse_fact_envelope_Inr by simp
  moreover have "ev_type ?e = Stock_Reserved_Fact" by (simp add: example_fact_def)
  ultimately show ?thesis
    using consumed_fact_settles_once [of default_retry_policy example_inbound ?e example_ambiguous int None "''t''" "example_db ''placed''"]
    by (auto simp: default_retry_policy_def)
qed

end
