(* ===== verification/Stock_Progress.thy ===== *)
theory Stock_Progress
  imports Stock_Properties
begin

text \<open>
  A reservation that can be supplied does not fail.  The properties of the handlers speak of a
  command that returns; here the columns are shown to hold what the command writes, so that it
  returns, and accepts.
\<close>

definition item_fits :: "stock_item \<Rightarrow> bool" where
  "item_fits it \<longleftrightarrow> fits_int (si_units it) \<and> fits_int (si_reserved it) \<and> fits_int (si_threshold it) \<and>
     list_all (\<lambda>r. fits_int (q_value (rv_units r))) (si_reservations it)"

lemma save_items_ok:
  "list_all item_fits items \<Longrightarrow> \<exists>db'. foldR (\<lambda>d it. save_item it d) db items = Inr db' \<and> fd_outbox db' = fd_outbox db"
proof (induction items arbitrary: db)
  case (Cons it items)
  then have "\<exists>db1. save_item it db = Inr db1 \<and> fd_outbox db1 = fd_outbox db"
    by (auto simp: save_item_def item_fits_def to_stock_table_row_def to_reservation_table_rows_def list_all_iff Let_def)
  then obtain db1 where db1: "save_item it db = Inr db1" "fd_outbox db1 = fd_outbox db" by blast
  moreover obtain db' where "foldR (\<lambda>d it. save_item it d) db1 items = Inr db'" "fd_outbox db' = fd_outbox db1"
    using Cons.IH [of db1] Cons.prems by auto
  ultimately show ?case by simp
qed simp

lemma save_all_ok:
  assumes "list_all item_fits items" "\<not> event_id_taken (concat (map si_events items)) (fd_outbox db)"
  shows "\<exists>db'. save_all now items db = Inr db'"
  using save_items_ok [OF assms(1), of db] assms(2) by (auto simp: save_all_def record_stock_outbox_def)

lemma reserve_lines_of_ok:
  "list_all (\<lambda>l. 0 < ul_units l) ls \<Longrightarrow> \<exists>rs. reserve_lines_of ls = Inr rs"
proof (induction ls)
  case (Cons l ls)
  then show ?case by (auto simp: reserve_lines_of_def quantity_of_def)
qed (simp add: reserve_lines_of_def)

lemma line_within_total:
  assumes "lines_ok ls" "l \<in> set ls"
  shows "0 < q_value (rl_units l) \<and> q_value (rl_units l) \<le> line_total (rl_product l) ls"
  using assms
proof (induction ls)
  case (Cons k ls)
  have "0 \<le> line_total p ls" for p using Cons.prems(1) by (intro line_total_nonneg) (simp add: lines_ok_def)
  then show ?case using Cons by (auto simp: lines_ok_def quantity_ok_def add_increasing add_increasing2)
qed simp

lemma booked_item_fits:
  assumes "lines_ok ls" "fits_int (si_units it)" "fits_int (si_threshold it)" "0 \<le> si_reserved it"
    and "si_reserved it + line_total (si_product it) ls \<le> si_units it" "si_reservations it = []"
  shows "item_fits (with_event e c (book fresh ref retailer 0 ls it))"
proof -
  have between: "fits_int n" if "0 \<le> n" "n \<le> si_units it" for n
    using that assms(2) by (simp add: fits_int_def)
  have "0 \<le> line_total (si_product it) ls" using assms(1) by (rule line_total_nonneg)
  then have "fits_int (si_reserved it + line_total (si_product it) ls)" using assms(4,5) by (intro between) simp_all
  moreover have "fits_int (q_value (rl_units l))" if "l \<in> set ls" "rl_product l = si_product it" for l
    using line_within_total [OF assms(1) that(1)] that(2) assms(4,5) by (intro between) simp_all
  ultimately show ?thesis using assms(2,3,6)
    by (auto simp: item_fits_def with_event_def book_def list_all_iff line_reservation_def create_reservation_def in_set_enumerate_eq)
qed

lemma reserve_succeeds:
  assumes ok: "stock_db_ok db" and threshold: "list_all (\<lambda>s. fits_int (sk_threshold s)) (fd_stock db)"
    and shape: "is_ok (parse_order (rq_reference req))" and lines: "rq_lines req \<noteq> []" "list_all (\<lambda>l. 0 < ul_units l) (rq_lines req)"
    and vacant: "holds_nothing req db" and supplied: "can_supply req db"
    and fresh_event: "\<forall>r\<in>set (fd_outbox db). ev_id (ob_envelope r) \<noteq> fresh (length (rq_lines req))"
  shows "\<exists>db'. execute_reserve now fresh req request_id corr db =
    (Inr (Reserve_Accepted (rq_reference req) (request_refs fresh req)), db')"
proof -
  obtain ref where ref: "parse_order (rq_reference req) = Inr ref" using shape by (auto simp: is_ok_iff)
  note val = parse_order_value [OF ref]
  note rows = request_rows_facts [OF ok, of req]
  let ?rows = "request_rows req db"
  let ?items = "map (loaded_item ref db) ?rows"
  obtain ls where ls: "reserve_lines_of (rq_lines req) = Inr ls" using reserve_lines_of_ok [OF lines(2)] by blast
  note l = reserve_lines_of_Inr [OF ls]
  have lseq: "ls = map (\<lambda>l. \<lparr> rl_product = ul_product l, rl_units = Quantity (ul_units l) \<rparr>) (rq_lines req)"
    using l by (intro lines_of_request) simp
  have ids: "map si_id ?items = map sk_id ?rows" by (simp add: loaded_item_def)
  have items: "items_ok ?items" "distinct (map si_id ?items)"
    using loaded_items_ok [OF ok rows(1,2)] rows(3) unfolding ids by auto
  have fit: "\<And>x. x \<in> set ls \<Longrightarrow> \<not> is_short ?items ls x"
    using can_supply_iff [OF ok conjunct2 [OF l]] supplied by blast
  let ?inp = "\<lparr> ri_order = ref, ri_company = rq_company req, ri_retailer = rq_retailer req, ri_lines = ls, ri_correlation = corr \<rparr>"
  have inp: "ri_lines ?inp = ls" "ri_order ?inp = ref" "ri_retailer ?inp = rq_retailer req" "ri_correlation ?inp = corr" by simp_all
  have "ls \<noteq> []" using lines(1) lseq by simp
  then obtain c e where r: "reserve_order_stock fresh ?inp \<lparr> sx_at = now, sx_causation = request_id \<rparr> ?items =
      Inr (Stock_Was_Reserved (map (line_ref fresh) (enumerate 0 ls)) c,
        map (with_event e c) (map (book fresh ref (rq_retailer req) 0 ls) ?items))"
    and ce: "c \<in> si_id ` set ?items" "ev_id e = fresh (length ls)"
    using reserve_order_stock_fits [OF items, of ?inp, unfolded inp, OF conjunct1 [OF l] _ fit] by blast
  let ?saved = "map (\<lambda>s. with_event e c (book fresh ref (rq_retailer req) 0 ls (loaded_item ref db s))) ?rows"
  have "item_fits (with_event e c (book fresh ref (rq_retailer req) 0 ls (loaded_item ref db s)))" if s: "s \<in> set ?rows" for s
  proof (rule booked_item_fits [OF conjunct1 [OF l]])
    have mem: "s \<in> set (fd_stock db)" using s rows(1) by blast
    show "si_reserved (loaded_item ref db s) + line_total (si_product (loaded_item ref db s)) ls \<le> si_units (loaded_item ref db s)"
      using not_short_fits [OF items(1) fit] s by simp
    show "si_reservations (loaded_item ref db s) = []"
      using own_rows_none [OF conjunct2 [OF val] vacant s] by (simp add: loaded_item_def)
    have "\<forall>r\<in>set (fd_reservations db). 0 < rw_units r" using ok by (auto simp: stock_db_ok_def list_all_iff)
    then show "0 \<le> si_reserved (loaded_item ref db s)"
      using ok mem held_rows_nonneg [of "fd_reservations db" "sk_id s"] by (auto simp: loaded_item_def stock_db_ok_def list_all_iff)
  qed (use ok threshold s rows(1) in \<open>auto simp: loaded_item_def stock_db_ok_def list_all_iff\<close>)
  then have fits: "list_all item_fits ?saved" by (simp add: list_all_iff)
  have "concat (map si_events ?saved) = [e]"
    using event_of_items [OF rows(3), where g = "\<lambda>s. book fresh ref (rq_retailer req) 0 ls (loaded_item ref db s)" and c = c and e = e]
      ce(1) by (simp add: loaded_item_def book_def comp_def image_image)
  moreover have "length ls = length (rq_lines req)" by (simp add: lseq)
  ultimately have "\<not> event_id_taken (concat (map si_events ?saved)) (fd_outbox db)"
    using fresh_event ce(2) by (auto simp: event_id_taken_def list_ex_iff)
  then obtain db' where save: "save_all now ?saved db = Inr db'" using save_all_ok [OF fits] by blast
  have lock: "lock_for_order (rq_company req) (remdups (map ul_product (rq_lines req))) ref db =
      Inr (map (\<lambda>s. (sk_product s, loaded_item ref db s)) ?rows)"
    unfolding request_rows_def by (rule lock_for_order_eval [OF ok])
  have none: "reservations_for ref ?items = []"
    unfolding reservations_for_loaded using holds_nothing_iff [OF conjunct2 [OF val]] vacant by simp
  have refs: "map (line_ref fresh) (enumerate 0 ls) = request_refs fresh req"
    unfolding lseq line_refs_request ..
  have "reserve_in_transaction now fresh req request_id corr ref db =
      Inr (Reserve_Accepted (rq_reference req) (request_refs fresh req), db')"
    using none save r ls refs by (simp add: reserve_in_transaction_def lock Let_def comp_def)
  then show ?thesis using ref by (simp add: execute_reserve_def unit_of_work_def)
qed

end
