(* ===== verification/Order_To_Stock.thy ===== *)
theory Order_To_Stock
  imports Place_Examples Rpc_Wire Stock_Queries Stock_Progress Saga_Examples
begin

text \<open>
  From the placement of an order to the reservation of its stock, over three steps that run in
  different processes: the placement of the Orders service asks the Fulfillment service
  (apps/fulfillment/src/presentation/stock.controller.ts, stock.check) whether its lines are
  available; the fact of the placed order makes the saga owe a stock.reserve; the Fulfillment
  service reserves.  The property says that the three agree on the order.
\<close>

section \<open>The responder of stock.check\<close>

text \<open>The rules of the request: at least one line, each for a positive whole quantity.\<close>

fun whole_line :: "string \<times> js_number \<Rightarrow> units_line option" where
  "whole_line (p, Js_Int i) = (if 0 < i then Some \<lparr> ul_product = p, ul_units = i \<rparr> else None)"
| "whole_line (p, _) = None"

definition whole_lines :: "(string \<times> js_number) list \<Rightarrow> units_line list option" where
  "whole_lines ls = (if ls = [] then None else those (map whole_line ls))"

definition answer_of_check :: "check_reply \<Rightarrow> stock_answer" where
  "answer_of_check r = \<lparr> sa_available = ck_available r, sa_lines = map (\<lambda>l. \<lparr> slr_product = la_product l,
     slr_requested = Js_Int (la_requested l), slr_available = la_available l, slr_sufficient = la_sufficient l \<rparr>) (ck_lines r) \<rparr>"

text \<open>\<open>texts\<close> are the messages of the validation library for a request that breaks the rules.\<close>

definition check_service ::
    "(string \<Rightarrow> (string \<times> js_number) list \<Rightarrow> violation list) \<Rightarrow> instant \<Rightarrow> string \<Rightarrow> (string \<times> js_number) list \<Rightarrow>
      fulfillment_db \<Rightarrow> rpc_error + stock_answer" where
  "check_service texts now company ls db = (case whole_lines ls of
     None \<Rightarrow> Inl (validation_rpc_error now (texts company ls))
   | Some us \<Rightarrow> Inr (answer_of_check (check_availability company us db)))"

definition checked_by ::
    "(string \<Rightarrow> (string \<times> js_number) list \<Rightarrow> violation list) \<Rightarrow> instant \<Rightarrow> fulfillment_db \<Rightarrow>
      string \<Rightarrow> (string \<times> js_number) list \<Rightarrow> stock_check_failure + stock_answer" where
  "checked_by texts now db company ls = stock_check_call (Wire_Body (check_service texts now company ls db))"

section \<open>What is asked, owed and reserved\<close>

lemma those_whole_lines:
  "those (map whole_line ls) = Some us \<Longrightarrow>
    map ul_product us = map fst ls \<and> map (\<lambda>u. Js_Int (ul_units u)) us = map snd ls \<and> (\<forall>u\<in>set us. 0 < ul_units u)"
proof (induction ls arbitrary: us)
  case (Cons l ls)
  then show ?case by (cases l rule: whole_line.cases) (auto split: if_splits option.splits)
qed simp

lemma units_lines_eq:
  fixes us vs :: "units_line list"
  shows "\<lbrakk> map ul_product us = map ul_product vs; map ul_units us = map ul_units vs \<rbrakk> \<Longrightarrow> us = vs"
proof (induction us arbitrary: vs)
  case (Cons u us)
  then obtain v ws where vs: "vs = v # ws" by (cases vs) auto
  have "u = v" using Cons.prems vs by (intro units_line.equality) simp_all
  then show ?case using Cons vs by simp
qed simp

definition order_units :: "order \<Rightarrow> units_line list" where
  "order_units ord = map (\<lambda>l. \<lparr> ul_product = ol_product l, ul_units = q_value (ol_quantity l) \<rparr>) (o_lines ord)"

text \<open>A placement that goes through was told that all its lines are available.\<close>

lemma placed_was_available:
  assumes "unused_request (pc_request_id cmd) db"
    and "execute_place (checked_by texts t fdb) now fresh cmd db db = (Inr res, db')"
    and "map ol_product (o_lines ord) = map plc_product (pc_lines cmd)"
    and "map (\<lambda>l. Js_Int (q_value (ol_quantity l))) (o_lines ord) = map plc_quantity (pc_lines cmd)"
  shows "ck_available (check_availability (pc_company cmd) (order_units ord) fdb) \<and> (\<forall>u\<in>set (order_units ord). 0 < ul_units u)"
proof -
  let ?ls = "map (\<lambda>l. (plc_product l, plc_quantity l)) (pc_lines cmd)"
  have none: "truthy (pc_request_id cmd) \<Longrightarrow> find_by_request_id (the (pc_request_id cmd)) db = Inr None"
    using unused_request_find [OF _ assms(1)] .
  obtain ans where ans: "checked_by texts t fdb (pc_company cmd) ?ls = Inr ans" "sa_available ans"
    using assms(2) none unfolding execute_place_def by (auto split: if_splits sum.splits option.splits)
  then obtain us where us: "those (map whole_line ?ls) = Some us" "ck_available (check_availability (pc_company cmd) us fdb)"
    by (auto simp: checked_by_def stock_check_call_def check_service_def whole_lines_def answer_of_check_def
        split: option.splits if_splits)
  note w = those_whole_lines [OF us(1)]
  have "map (\<lambda>u. Js_Int (ul_units u)) us = map (\<lambda>l. Js_Int (q_value (ol_quantity l))) (o_lines ord)"
    using w assms(4) by (simp add: comp_def)
  then have "map (Js_Int \<circ> ul_units) us = map (Js_Int \<circ> ul_units) (order_units ord)"
    by (simp add: order_units_def comp_def)
  then have "map ul_units us = map ul_units (order_units ord)"
    by (metis (no_types, lifting) js_number.inject(1) list.inj_map_strong map_map)
  moreover have "map ul_product us = map ul_product (order_units ord)"
    using w assms(3) by (simp add: order_units_def comp_def)
  ultimately have "us = order_units ord" by (intro units_lines_eq)
  then show ?thesis using us(2) w by simp
qed

lemma stored_reference_parses:
  assumes "find_by_id i db = Inr (Some ord)"
  shows "is_ok (parse_order (order_reference_value ord))"
proof -
  obtain row where "load_order db row = Inr (Some ord)" using find_order_row [OF assms] by blast
  then obtain bg sg sn where "to_order_snapshot row bg sg (visible_items db (or_id row)) = Inr sn" "reconstitute_order sn = Inr ord"
    using load_order_Inr_Some by blast
  then have "order_number_of (or_reference row) = Inr (o_reference ord)"
    by (auto simp: to_order_snapshot_def bindR_Inr reconstitute_order_Inr)
  then show ?thesis
    by (cases "o_reference ord")
      (auto simp: parse_order_def order_number_of_def bindR_Inr parse_reference_def order_reference_value_def is_ok_def split: if_splits)
qed

text \<open>What the saga owes for a placed order is the reservation of its lines.\<close>

lemma placed_fact_owes_reserve:
  assumes "ev_type env = Order_Placed" "canonical_id (ev_correlation env)"
    and "find_by_id (ev_correlation env) db = Inr (Some ord)" "o_status ord = Placed" "o_id ord = ev_correlation env"
    and "find_by_order_and_command (o_id ord) Stock_Reserve db = None" "\<not> list_ex (\<lambda>r. cm_id r = new_row) (db_commands db)"
    and "handle_fact now new_event new_row topic env db = (Inr (Fact_Processed c), db')"
  shows "\<exists>row. find_by_order_and_command (o_id ord) Stock_Reserve db' = Some row \<and> cm_status row = Pending \<and>
    cm_payload row = Reserve_Request \<lparr> rq_reference = order_reference_value ord, rq_retailer = o_retailer ord,
      rq_company = o_company ord, rq_lines = order_units ord \<rparr>"
proof -
  have skip: "\<not> list_all is_skip (step_variants_for (ev_type env))" by (simp add: assms(1) step_variants)
  have notdone: "(ev_id env, orders_saga_consumer) \<notin> set (db_processed db)"
    using assms(8) skip by (auto simp: handle_fact_def duplicate_delivery)
  define db1 where "db1 = db \<lparr> db_processed := db_processed db @ [(ev_id env, orders_saga_consumer)] \<rparr>"
  have find: "find_by_id (ev_correlation env) db1 = Inr (Some ord)"
    using assms(3) find_by_id_frame [of db1 db] by (simp add: db1_def)
  obtain eff where work: "saga_fact_work now new_event new_row topic env db1 = Inr (eff, db')"
    using assms(8) handle_fact_work [OF notdone skip db1_def] by (auto split: sum.splits prod.splits)
  then have step: "apply_step now new_event new_row topic env (Advance Placed no_change (Some Stock_Reserve)) ord db1 = Inr (eff, db')"
    using assms(1,2,4) find by (simp add: saga_fact_work_def step_for_status_simps)
  then obtain d p i where d: "save_order now ord None db1 = Inr d"
    and p: "build_saga_command_payload Stock_Reserve (ord \<lparr> o_events := [] \<rparr>) (Some env) = Inr p"
    and out: "db' = enqueue_command now \<lparr> en_id = new_row, en_order = o_id ord, en_reference = o_reference ord,
       en_command = Stock_Reserve, en_payload = p, en_trigger_id = i, en_trigger = env, en_topic = topic \<rparr> d"
    by (auto simp: apply_step_def bindR_Inr no_change_def owe_command_def Let_def)
  have cmds: "db_commands d = db_commands db" using save_order_frame [OF d] by (simp add: db1_def)
  have pay: "p = Reserve_Request \<lparr> rq_reference = order_reference_value ord, rq_retailer = o_retailer ord,
      rq_company = o_company ord, rq_lines = order_units ord \<rparr>"
    using p by (auto simp: build_saga_command_payload_def non_empty_reserve_lines_def order_units_def bindR_Inr Let_def
        order_reference_value_def split: if_splits)
  have none: "find (\<lambda>r. cm_order r = o_id ord \<and> cm_command r = Stock_Reserve) (db_commands d) = None"
    using assms(6) cmds by (simp add: find_by_order_and_command_def)
  then have "\<not> list_ex (\<lambda>r. cm_id r = new_row \<or> (cm_order r = o_id ord \<and> cm_command r = Stock_Reserve)) (db_commands d)"
    using assms(7) cmds by (auto simp: find_None_iff list_ex_iff)
  with none have "find_by_order_and_command (o_id ord) Stock_Reserve db' = Some (new_command_row now \<lparr> en_id = new_row,
      en_order = o_id ord, en_reference = o_reference ord, en_command = Stock_Reserve, en_payload = p, en_trigger_id = i,
      en_trigger = env, en_topic = topic \<rparr>)"
    unfolding out by (simp add: enqueue_command_def find_by_order_and_command_def find_append new_command_row_def)
  then show ?thesis by (simp add: new_command_row_def pay)
qed

text \<open>
  C5: an order that is accepted gets its stock.  Let an order of distinct products be placed, the
  answer of the availability check coming from the Fulfillment service on some stock table; let the
  fact of its placement be processed, and let the stock.reserve that is owed reach the Fulfillment
  service before anything else changes that table.  Then the order that is owed is the one that was
  asked about, and a reservation that returns is accepted, never rejected.
\<close>

theorem accepted_order_gets_its_stock:
  assumes "orders_db_ok db" "fresh_ids fresh (length (pc_lines cmd) + 2) db" "unused_request (pc_request_id cmd) db"
    and "execute_place (checked_by texts t fdb) now fresh cmd db db = (Inr res, db1)"
    and "distinct (map plc_product (pc_lines cmd))"
    and "ev_type env = Order_Placed" "ev_correlation env = pr_order_id res" "canonical_id (pr_order_id res)"
    and "find_by_order_and_command (pr_order_id res) Stock_Reserve db1 = None"
    and "\<not> list_ex (\<lambda>r. cm_id r = new_row) (db_commands db1)"
    and "handle_fact now' new_event new_row topic env db1 = (Inr (Fact_Processed c), db2)"
    and "stock_db_ok fdb" "list_all (\<lambda>s. fits_int (sk_threshold s)) (fd_stock fdb)"
    and "\<forall>r\<in>set (fd_reservations fdb). rw_order r \<noteq> pr_reference res"
    and "\<forall>r\<in>set (fd_outbox fdb). ev_id (ob_envelope r) \<noteq> sfresh (length (pc_lines cmd))"
  shows "\<exists>row req. find_by_order_and_command (pr_order_id res) Stock_Reserve db2 = Some row \<and> cm_payload row = Reserve_Request req \<and>
    rq_reference req = pr_reference res \<and> map ul_product (rq_lines req) = map plc_product (pc_lines cmd) \<and>
    map (\<lambda>l. Js_Int (ul_units l)) (rq_lines req) = map plc_quantity (pc_lines cmd) \<and>
    (\<exists>fdb'. execute_reserve later sfresh req request corr fdb =
      (Inr (Reserve_Accepted (pr_reference res) (request_refs sfresh req)), fdb'))"
proof -
  obtain ord where ord: "find_by_id (pr_order_id res) db1 = Inr (Some ord)" "o_status ord = Placed"
      "o_company ord = pc_company cmd" "map ol_product (o_lines ord) = map plc_product (pc_lines cmd)"
      "map (\<lambda>l. Js_Int (q_value (ol_quantity l))) (o_lines ord) = map plc_quantity (pc_lines cmd)"
      "pr_reference res = order_reference_value ord" "o_id ord = pr_order_id res" and orders_ok: "orders_db_ok db1"
    using placed_order_is_found_aux [OF assms(1-4)] by (auto simp: to_place_result_def)
  let ?req = "\<lparr> rq_reference = order_reference_value ord, rq_retailer = o_retailer ord, rq_company = o_company ord,
      rq_lines = order_units ord \<rparr>"
  obtain row where row: "find_by_order_and_command (pr_order_id res) Stock_Reserve db2 = Some row" "cm_payload row = Reserve_Request ?req"
    using placed_fact_owes_reserve [OF assms(6), of db1 ord new_row now' new_event topic c db2] assms(7-11) ord by auto
  note avail = placed_was_available [OF assms(3,4) ord(4,5)]
  have units: "map ul_product (order_units ord) = map plc_product (pc_lines cmd)"
      "map (\<lambda>l. Js_Int (ul_units l)) (order_units ord) = map plc_quantity (pc_lines cmd)" "length (order_units ord) = length (pc_lines cmd)"
    using ord(4,5) map_eq_imp_length_eq [OF ord(4)] by (simp_all add: order_units_def comp_def)
  have "holds_nothing ?req fdb" using assms(14) ord(6) by (auto simp: holds_nothing_def list_all_iff)
  moreover have "can_supply ?req fdb"
    using check_agrees_with_supply [OF assms(12), of ?req] assms(5) avail units ord(3) by simp
  moreover have "rq_lines ?req \<noteq> []"
    using loaded_order [OF orders_ok ord(1)] by (simp add: order_units_def)
  ultimately obtain fdb' where "execute_reserve later sfresh ?req request corr fdb =
      (Inr (Reserve_Accepted (pr_reference res) (request_refs sfresh ?req)), fdb')"
    using reserve_succeeds [OF assms(12,13), of ?req sfresh later request corr] stored_reference_parses [OF ord(1)]
      avail assms(15) units(3) ord(6) by (auto simp: list_all_iff)
  then show ?thesis using row units ord(6) by auto
qed

section \<open>An example\<close>

definition example_checked :: "(place_error + place_result) \<times> orders_db" where
  "example_checked = execute_place (checked_by (\<lambda>_ _. []) 0 example_stock) 1234 example_id example_place (example_shop None) (example_shop None)"

definition example_accepted_fact :: envelope where
  "example_accepted_fact = \<lparr> ev_id = example_id 6, ev_type = Order_Placed, ev_aggregate = example_id 0,
     ev_correlation = example_id 0, ev_causation = example_id 1, ev_at = 1234, ev_payload = Raw_P ''x'' \<rparr>"

definition example_owing :: "(handler_error + fact_outcome) \<times> orders_db" where
  "example_owing = handle_fact 2000 (example_id 7) (example_id 8) ''t'' example_accepted_fact (snd example_checked)"

lemma example_checked_runs:
  "case fst example_checked of Inr r \<Rightarrow> pr_order_id r = example_id 0 \<and> pr_reference r = ''ORD-000001'' | Inl e \<Rightarrow> False"
  "case fst example_owing of Inr (Fact_Processed c) \<Rightarrow> True | _ \<Rightarrow> False"
  "find_by_order_and_command (example_id 0) Stock_Reserve (snd example_checked) = None"
  "\<not> list_ex (\<lambda>r. cm_id r = example_id 8) (db_commands (snd example_checked))"
  "list_all (\<lambda>r. rw_order r \<noteq> ''ORD-000001'') (fd_reservations example_stock)"
  by code_simp+

theorem accepted_order_gets_its_stock_witness:
  "\<exists>row req. find_by_order_and_command (example_id 0) Stock_Reserve (snd example_owing) = Some row \<and>
    cm_payload row = Reserve_Request req \<and> rq_reference req = ''ORD-000001'' \<and> map ul_product (rq_lines req) = [''P1''] \<and>
    fst (execute_reserve 3000 example_id req (example_id 5) (example_id 1) example_stock) =
      Inr (Reserve_Accepted ''ORD-000001'' (request_refs example_id req))"
proof -
  obtain res where res: "fst example_checked = Inr res" "pr_order_id res = example_id 0" "pr_reference res = ''ORD-000001''"
    using example_checked_runs(1) by (auto split: sum.splits)
  obtain c where c: "fst example_owing = Inr (Fact_Processed c)"
    using example_checked_runs(2) by (auto split: sum.splits fact_outcome.splits)
  have place: "execute_place (checked_by (\<lambda>_ _. []) 0 example_stock) 1234 example_id example_place (example_shop None) (example_shop None) =
      (Inr res, snd example_checked)"
    using res(1) unfolding example_checked_def by (metis prod.collapse)
  have owe: "handle_fact 2000 (example_id 7) (example_id 8) ''t'' example_accepted_fact (snd example_checked) =
      (Inr (Fact_Processed c), snd example_owing)"
    using c unfolding example_owing_def by (metis prod.collapse)
  have fact: "ev_type example_accepted_fact = Order_Placed" "ev_correlation example_accepted_fact = pr_order_id res"
    by (simp_all add: example_accepted_fact_def res(2))
  have lines: "distinct (map plc_product (pc_lines example_place))" "map plc_product (pc_lines example_place) = [''P1'']"
    by (simp_all add: example_place_def)
  have stock: "list_all (\<lambda>s. fits_int (sk_threshold s)) (fd_stock example_stock)" by code_simp
  have event: "\<forall>r\<in>set (fd_outbox example_stock). ev_id (ob_envelope r) \<noteq> example_id (length (pc_lines example_place))"
    by (simp add: example_stock_def)
  have none: "\<forall>r\<in>set (fd_reservations example_stock). rw_order r \<noteq> pr_reference res"
    using example_checked_runs(5) res(3) by (simp add: list_all_iff)
  have owed: "find_by_order_and_command (pr_order_id res) Stock_Reserve (snd example_checked) = None" "canonical_id (pr_order_id res)"
    using example_checked_runs(3) example_id_canonical by (simp_all add: res(2))
  note run = accepted_order_gets_its_stock [where later = 3000 and sfresh = example_id and request = "example_id 5" and corr = "example_id 1", OF example_shop_ok(1) example_shop_fresh example_shop_ok(2) place lines(1) fact owed(2,1)
        example_checked_runs(4) owe example_stock_ok(1) stock none event]
  show ?thesis using run [unfolded res(2,3) lines(2)] by (metis fst_conv)
qed

end
