(* ===== verification/Order_To_Cash.thy ===== *)
theory Order_To_Cash
  imports Billing_Examples
begin

text \<open>
  One amount from the order to the payment.  The Orders service computes the total of an order in its
  aggregate and sends it in the credit.hold command, but the invoice.issue command carries the lines
  and the discount, from which the Billing service computes a total of its own, and a payment is
  compared with that.  The property says that the amounts are one.
\<close>

lemma issued_lines_sum:
  "line_sum (map (\<lambda>l. \<lparr> il_product = ol_product l, il_units = q_value (ol_quantity l), il_unit_price = amount (ol_unit_price l) \<rparr>) ls) =
    exact_initial ls"
  by (induction ls) (simp_all add: line_sum_def exact_initial_def line_amount_def mult.commute)

lemma hold_payload:
  assumes "build_saga_command_payload Credit_Hold ord f = Inr (Hold_Request h)"
  shows "hq_reference h = order_reference_value ord \<and> hq_retailer h = o_retailer ord \<and> hq_company h = o_company ord \<and>
    hq_amount h = amount (o_total ord) \<and> hq_currency h = currency (o_total ord)"
  using assms by (auto simp: build_saga_command_payload_def)

lemma issue_payload:
  assumes "build_saga_command_payload Invoice_Issue ord f = Inr (Issue_Request q)"
  shows "iq_reference q = order_reference_value ord \<and> iq_retailer q = o_retailer ord \<and> iq_company q = o_company ord \<and>
    iq_currency q = o_currency ord \<and> line_sum (iq_lines q) = exact_initial (o_lines ord) \<and>
    iq_discount q = Some (amount (o_initial_discount ord))"
  using assms issued_lines_sum [of "o_lines ord"]
  by (auto simp: build_saga_command_payload_def non_empty_invoice_lines_def bindR_Inr Let_def split: if_splits)

section \<open>The invoices, command after command\<close>

text \<open>
  No command of the Billing service removes an invoice or changes what it is for: the identifiers and
  totals of the table are only appended to, and the identifiers stay distinct.
\<close>

definition invoice_totals :: "billing_db \<Rightarrow> (uid \<times> int) list" where
  "invoice_totals db = map (\<lambda>x. (vr_id x, vr_total x)) (bd_invoices db)"

definition invoices_next :: "billing_db \<Rightarrow> billing_db \<Rightarrow> bool" where
  "invoices_next db db' \<longleftrightarrow> invoices_ok db' \<and> (\<exists>more. invoice_totals db' = invoice_totals db @ more)"

lemma invoices_ok_totals: "invoices_ok db \<longleftrightarrow> distinct (map fst (invoice_totals db)) \<and>
    (\<forall>i\<in>set (map fst (invoice_totals db)). unique_id_from i = Inr i)"
  by (simp add: invoices_ok_def invoice_totals_def comp_def list_all_iff)

lemma invoices_next_refl: "invoices_ok db \<Longrightarrow> invoices_next db db"
  by (simp add: invoices_next_def)

lemma invoices_next_trans: "\<lbrakk> invoices_next db db'; invoices_next db' db'' \<rbrakk> \<Longrightarrow> invoices_next db db''"
  by (auto simp: invoices_next_def)

lemma invoices_next_same: "\<lbrakk> invoices_ok db; bd_invoices db' = bd_invoices db \<rbrakk> \<Longrightarrow> invoices_next db db'"
  by (simp add: invoices_next_def invoices_ok_def invoice_totals_def)

lemma issued_id: "issue_invoice fresh inp ctx = Inr v \<Longrightarrow> v_id v = vi_id inp"
  by (auto simp: issue_invoice_def append_invoice_fact_def result_simps Let_def split: if_splits)

lemma hold_keeps_invoices:
  assumes "hold_in_transaction decide now fresh req request_id corr ref m db = Inr (r, db')"
  shows "bd_invoices db' = bd_invoices db"
proof -
  let ?hr = "\<lparr> hr_order = ref, hr_amount = m, hr_correlation = corr \<rparr>"
  obtain bc where bc: "lock_credit (hq_retailer req) (hq_company req) ref db = Inr (Some bc)"
    using assms by (auto simp: hold_in_transaction_def result_simps split: option.splits)
  then obtain v where v: "evaluate_hold ?hr bc = Inr v"
    using assms by (auto simp: hold_in_transaction_def result_simps Let_def)
  show ?thesis
  proof (cases v)
    case Hold_Fits
    then obtain left where "available_of bc = Inr left"
      using assms bc v by (auto simp: hold_in_transaction_def result_simps Let_def)
    then show ?thesis
      using assms bc v Hold_Fits
      by (auto simp: hold_in_transaction_def hold_refused_def bindR_Inr Let_def split: credit_decision.splits dest: save_credit_frame(3))
  qed (use assms bc v in \<open>auto simp: hold_in_transaction_def hold_refused_def result_simps Let_def dest: save_credit_frame(3)\<close>)
qed

lemma release_keeps_invoices:
  assumes "credit_release_in_transaction now fresh req request_id corr ref db = Inr (r, db')"
  shows "bd_invoices db' = bd_invoices db"
  using assms
  by (auto simp: credit_release_in_transaction_def result_simps split: option.splits dest: save_credit_frame(3))

lemma issue_keeps_invoices:
  assumes ok: "invoices_ok db" and fresh: "uuid_stream fresh"
    and run: "issue_in_transaction now fresh req request_id corr ref db = Inr (r, db')"
  shows "invoices_next db db'"
proof (cases "db' = db")
  case False
  obtain vref db1 inp ctx v bc' db2
    where num: "next_invoice_reference db = Inr (vref, db1)"
      and v: "issue_invoice (\<lambda>k. fresh (k + 1)) inp ctx = Inr v" "vi_id inp = fresh 0"
      and inv: "save_invoice now v db1 = Inr db2" and save: "save_credit now bc' db2 = Inr db'"
    using run False by (auto simp: issue_in_transaction_def result_simps split: option.splits if_splits)
  have id: "v_id v = fresh 0" using issued_id [OF v(1)] v(2) by simp
  have "bd_invoices db' = bd_invoices db @ [to_invoice_table_row v]"
    using next_invoice_reference_frame(4) [OF num] save_invoice_tables(1) [OF inv] save_credit_frame(3) [OF save] by simp
  moreover have "fresh 0 \<notin> vr_id ` set (bd_invoices db)"
    using inv next_invoice_reference_frame(4) [OF num] id
    by (auto simp: save_invoice_def Let_def list_ex_iff to_invoice_table_row_def split: if_splits)
  ultimately show ?thesis
    using ok id fresh by (simp add: invoices_next_def invoices_ok_def invoice_totals_def to_invoice_table_row_def uuid_stream_def)
qed (simp add: ok invoices_next_refl)

lemma payment_keeps_invoices:
  assumes ok: "invoices_ok db" and run: "payment_in_transaction now fresh req request_id corr s db = Inr (r, db')"
  shows "invoices_next db db'"
proof (cases "db' = db")
  case False
  obtain v' p bc' db1 where pay: "save_payment now v' p db = Inr db1" and save: "save_credit now bc' db1 = Inr db'"
    using run False by (auto simp: payment_in_transaction_def result_simps split: option.splits)
  have "invoice_totals db' = invoice_totals db"
    using save_payment_tables(1) [OF pay] save_credit_frame(3) [OF save]
    by (simp add: invoice_totals_def settle_invoice_row_def)
  then show ?thesis using ok by (simp add: invoices_next_def invoices_ok_totals)
qed (simp add: ok invoices_next_refl)

lemma billing_step_keeps_invoices:
  assumes "billing_step db db'" "invoices_ok db"
  shows "invoices_next db db'"
  using assms(1)
proof (cases rule: billing_step.cases)
  case (Hold fresh decide now req request_id corr)
  show ?thesis
    unfolding Hold(1) execute_hold_def
    using invoices_next_refl [OF assms(2)] invoices_next_same [OF assms(2) hold_keeps_invoices]
    by (auto simp: unit_of_work_def split: sum.splits)
next
  case (Release fresh now req request_id corr)
  show ?thesis
    unfolding Release(1) execute_credit_release_def
    using invoices_next_refl [OF assms(2)] invoices_next_same [OF assms(2) release_keeps_invoices]
    by (auto simp: unit_of_work_def split: sum.splits)
next
  case (Issue fresh now req request_id corr db_read)
  show ?thesis
    unfolding Issue(1) execute_issue_def
    using invoices_next_refl [OF assms(2)] issue_keeps_invoices [OF assms(2) Issue(2)]
    by (auto simp: unit_of_work_def split: sum.splits option.splits)
next
  case (Pay fresh now req request_id corr db_read)
  show ?thesis
    unfolding Pay(1) execute_payment_def
    using invoices_next_refl [OF assms(2)] payment_keeps_invoices [OF assms(2)]
    by (auto simp: unit_of_work_def split: sum.splits option.splits)
qed

lemma billing_steps_keep_invoices: "\<lbrakk> billing_step\<^sup>*\<^sup>* db db'; invoices_ok db \<rbrakk> \<Longrightarrow> invoices_next db db'"
proof (induction rule: rtranclp_induct)
  case (step db1 db2)
  then have "invoices_next db db1" by simp
  then show ?case
    using billing_step_keeps_invoices [OF step(2)] invoices_next_trans by (auto simp: invoices_next_def)
qed (simp add: invoices_next_refl)

text \<open>An accepted payment is for the total that the row of the invoice carries.\<close>

lemma accepted_payment_amount:
  assumes ok: "ledger_ok db" and inv: "invoices_ok db"
    and s: "resolve_invoice req db = Inr (Some s)"
    and run: "execute_payment now fresh req request_id corr db db = (Inr r, db')" "pa_outcome r = Payment_Accepted"
  shows "(vs_id s, yq_amount req) \<in> set (invoice_totals db)"
proof -
  obtain row where row: "credit_row_of (vs_retailer s) (vs_company s) db = Some row"
    using run s
    by (auto simp: execute_payment_def unit_of_work_Inr reply_from_duplicate_def payment_in_transaction_def lock_credit_eval [OF ok]
        split: sum.splits option.splits if_splits)
  obtain v m eid v' where v: "reconstitute_invoice s = Inr v" "billing_money (yq_amount req) (yq_currency req) = Inr m"
    and mark: "mark_invoice_paid (fresh 0) \<lparr> mp_reference = yq_payment_reference req, mp_amount = m,
         mp_value_date = yq_value_date req, mp_source = yq_source req, mp_correlation = corr \<rparr>
         \<lparr> vx_at = now, vx_causation = request_id \<rparr> v = Inr (eid, v')"
    using payment_accepted_cases [OF ok inv s row run] by metis
  obtain x where x: "x \<in> set (bd_invoices db)" "vr_id x = vs_id s"
      "to_invoice_snapshot x (filter (\<lambda>it. vt_invoice it = vr_id x) (bd_invoice_items db)) = Inr s"
    using resolve_invoice_row [OF inv s] by metis
  have "amount (vs_total s) = vr_total x"
    using x(3) by (auto simp: to_invoice_snapshot_def result_simps money_of_Js_Int_Inr)
  moreover have "m = v_total v" "v_total v = vs_total s"
    using mark_invoice_paid_form [OF mark] reconstitute_invoice_fields(2) [OF v(1)] by simp_all
  moreover have "amount m = yq_amount req" using v(2) by (auto simp: billing_money_def money_of_Js_Int_Inr)
  ultimately show ?thesis using x(1,2) by (auto simp: invoice_totals_def intro: rev_image_eqI)
qed

text \<open>
  C22: one amount, from the order to the cash.  Take an order whose totals are those of its lines, and
  Billing tables whose rows are consistent.  The credit that the saga of the order asks to hold, the
  total of the invoice that the Billing service issues on the saga's command, and the amount of any
  payment that is accepted for that invoice later, whatever commands the Billing service has run
  in between, are all exactly the total of the order; the commands carry the order's reference.  The
  issue and the payment each read the tables their transaction then finds.
\<close>

theorem one_amount_from_order_to_cash:
  assumes "order_ok ord"
    and "build_saga_command_payload Credit_Hold ord f1 = Inr (Hold_Request h)"
    and "build_saga_command_payload Invoice_Issue ord f2 = Inr (Issue_Request q)"
    and "ledger_ok db" "invoices_ok db" "uuid_stream fresh"
    and "execute_issue now fresh q request_id corr db db = (Inr r, db1)" "ia_created r"
    and "billing_step\<^sup>*\<^sup>* db1 db2"
    and "resolve_invoice pay db2 = Inr (Some s)" "vs_id s = ia_id r"
    and "execute_payment later fresh2 pay request_id2 corr2 db2 db2 = (Inr r2, db3)" "pa_outcome r2 = Payment_Accepted"
  shows "hq_reference h = order_reference_value ord \<and> iq_reference q = order_reference_value ord \<and>
    hq_amount h = amount (o_total ord) \<and> ia_total r = amount (o_total ord) \<and> yq_amount pay = amount (o_total ord)"
proof -
  have totals: "amount (o_total ord) = exact_initial (o_lines ord) - exact_discount (o_lines ord)"
      "amount (o_initial_discount ord) = exact_discount (o_lines ord)"
    using assms(1) by (simp_all add: order_ok_def totals_derived_def euros_def)
  note h = hold_payload [OF assms(2)] and q = issue_payload [OF assms(3)]
  obtain v0 where v0: "r = reply_from_invoice v0 True" "amount (v_total v0) = line_sum (iq_lines q) - or_else (iq_discount q) 0"
      "bd_invoices db1 = bd_invoices db @ [to_invoice_table_row v0]"
    using created_invoice_form [OF assms(4,6-8)] unfolding Let_def by blast
  then have issued: "ia_total r = amount (o_total ord)"
    using q totals by (simp add: reply_from_invoice_def or_else_def)
  have first: "billing_step db db1" using billing_step.Issue [OF assms(6), of db now q request_id corr db] assms(7) by simp
  then have steps: "billing_step\<^sup>*\<^sup>* db db2" using assms(9) by (rule converse_rtranclp_into_rtranclp)
  have ok2: "ledger_ok db2" using billing_steps_ledger [OF steps assms(4)] by (simp add: ledger_next_def)
  have "invoices_ok db1" using billing_step_keeps_invoices [OF first assms(5)] by (simp add: invoices_next_def)
  then have next2: "invoices_next db1 db2" using billing_steps_keep_invoices [OF assms(9)] by simp
  then have inv2: "invoices_ok db2" by (simp add: invoices_next_def)
  have "(ia_id r, ia_total r) \<in> set (invoice_totals db1)"
    using v0(1,3) by (simp add: invoice_totals_def reply_from_invoice_def to_invoice_table_row_def)
  then have "(ia_id r, ia_total r) \<in> set (invoice_totals db2)" using next2 by (auto simp: invoices_next_def)
  moreover have "(ia_id r, yq_amount pay) \<in> set (invoice_totals db2)"
    using accepted_payment_amount [OF ok2 inv2 assms(10,12,13)] assms(11) by simp
  ultimately have "yq_amount pay = ia_total r"
    using inv2 eq_key_imp_eq_value by (fastforce simp: invoices_ok_totals)
  then show ?thesis using h q issued by simp
qed

section \<open>An example\<close>

definition example_ordered :: order where
  "example_ordered = \<lparr> o_id = example_id 1, o_reference = Order_Number ''ORD-000002'', o_date = 0,
     o_buyer_gln = ''4006381333931'', o_retailer = ''RET'', o_supplier_gln = ''4006381333931'', o_company = ''CO'', o_currency = ''EUR'',
     o_lines = [\<lparr> ol_id = example_id 2, ol_product = ''P1'', ol_description = ''one'', ol_quantity = Quantity 2,
       ol_unit_price = euros 1600 ''EUR'', ol_discount = euros 200 ''EUR'' \<rparr>],
     o_initial_amount = euros 3200 ''EUR'', o_initial_discount = euros 200 ''EUR'', o_total = euros 3000 ''EUR'',
     o_status = Despatched, o_reason = None, o_notes = None, o_events = [] \<rparr>"

lemma example_ordered_ok: "order_ok example_ordered"
  by code_simp

lemma example_ordered_issue:
  "case build_saga_command_payload Invoice_Issue example_ordered f of Inr (Issue_Request q) \<Rightarrow> q = example_issue | _ \<Rightarrow> False"
  by code_simp

lemma example_ordered_hold:
  "case build_saga_command_payload Credit_Hold example_ordered f of Inr (Hold_Request h) \<Rightarrow> hq_amount h = 3000 | _ \<Rightarrow> False"
  by code_simp

definition example_cash :: "(billing_error + payment_reply) \<times> billing_db" where
  "example_cash = execute_payment 9000 (example_uuid 5) (example_payment ''0000000a-0000-4000-8000-000000000000'') (example_id 8) (example_id 9)
     (snd example_issued) (snd example_issued)"

lemma example_cash_accepted: "case fst example_cash of Inr r \<Rightarrow> pa_outcome r = Payment_Accepted | Inl _ \<Rightarrow> False"
  by code_simp

lemma example_cash_resolved:
  "case resolve_invoice (example_payment ''0000000a-0000-4000-8000-000000000000'') (snd example_issued) of
     Inr (Some s) \<Rightarrow> (case fst example_issued of Inr r \<Rightarrow> vs_id s = ia_id r | _ \<Rightarrow> False) | _ \<Rightarrow> False"
  by code_simp

theorem one_amount_from_order_to_cash_witness:
  "\<exists>r h. fst example_issued = Inr r \<and> ia_total r = amount (o_total example_ordered) \<and>
    build_saga_command_payload Credit_Hold example_ordered None = Inr (Hold_Request h) \<and>
    hq_amount h = amount (o_total example_ordered) \<and>
    yq_amount (example_payment ''0000000a-0000-4000-8000-000000000000'') = amount (o_total example_ordered)"
proof -
  obtain r where r: "example_issued = (Inr r, snd example_issued)" "ia_created r"
    using example_issue_runs by (cases "fst example_issued") (auto simp: prod_eq_iff)
  obtain r2 where r2: "example_cash = (Inr r2, snd example_cash)" "pa_outcome r2 = Payment_Accepted"
    using example_cash_accepted by (cases "fst example_cash") (auto simp: prod_eq_iff)
  obtain s where s: "resolve_invoice (example_payment ''0000000a-0000-4000-8000-000000000000'') (snd example_issued) = Inr (Some s)"
      "vs_id s = ia_id r"
    using example_cash_resolved arg_cong [OF r(1), of fst] by (auto split: sum.splits option.splits)
  have payloads: "build_saga_command_payload Invoice_Issue example_ordered None = Inr (Issue_Request example_issue)"
    using example_ordered_issue [of None] by (auto split: sum.splits command_payload.splits)
  obtain h where h: "build_saga_command_payload Credit_Hold example_ordered None = Inr (Hold_Request h)"
    using example_ordered_hold [of None] by (auto split: sum.splits command_payload.splits)
  have ok: "ledger_ok example_billing" "invoices_ok example_billing"
    using example_billing_ready by (simp_all add: line_ready_def invoices_ok_def example_billing_def)
  show ?thesis
    using one_amount_from_order_to_cash [OF example_ordered_ok h payloads ok example_letter_stream
      r(1) [unfolded example_issued_def] r(2) _ s(1) [unfolded example_issued_def] s(2) r2(1) [unfolded example_cash_def example_issued_def] r2(2)] r(1) h
    by (metis fst_conv rtranclp.rtrancl_refl)
qed

end
