(* ===== verification/Gateway_Reads.thy ===== *)
theory Gateway_Reads
  imports Gateway_Commands Rpc_Services Stock_Queries Credit_Queries
begin

text \<open>
  What an operator reads and replenishes through the gateway: the page parameters
  (apps/gateway/src/presentation/pagination.ts), the endpoints of the stock, the credit lines and the
  invoices with the queries they forward (stock.controller.ts, credits.controller.ts,
  invoices.controller.ts and application/queries), and the responders behind them (stock.list and
  stock.replenish, credit.list, invoice.list, and orders.cancel, which is the one responder that does
  not catch the failures of its command).  \<open>texts\<close> gives the messages of the validation
  library, \<open>number_of\<close> the number a text reads as.
\<close>

section \<open>Responders\<close>

definition page_admitted :: "nat option \<Rightarrow> nat option \<Rightarrow> bool" where
  "page_admitted page per_page \<longleftrightarrow> unless_absent page (\<lambda>p. 1 \<le> p) \<and> unless_absent per_page (\<lambda>n. 1 \<le> n \<and> n \<le> 200)"

definition answer_query :: "('q \<Rightarrow> violation list) \<Rightarrow> instant \<Rightarrow> ('q \<Rightarrow> bool) \<Rightarrow> ('q \<Rightarrow> rpc_error + 'r) \<Rightarrow> 'q \<Rightarrow> rpc_error + 'r" where
  "answer_query texts now admitted_query run q =
     (if \<not> admitted_query q then Inl (validation_rpc_error now (texts q)) else run q)"

definition stock_list_service ::
    "(stock_query \<Rightarrow> violation list) \<Rightarrow> instant \<Rightarrow> fulfillment_db \<Rightarrow> stock_query \<Rightarrow> rpc_error + stock_view list \<times> page_info" where
  "stock_list_service texts now db =
     answer_query texts now (\<lambda>q. page_admitted (tq_page q) (tq_size q)) (\<lambda>q. Inr (list_stock q db))"

definition credit_list_service ::
    "(credit_query \<Rightarrow> violation list) \<Rightarrow> (billing_error \<Rightarrow> string) \<Rightarrow> instant \<Rightarrow> billing_db \<Rightarrow> credit_query \<Rightarrow>
      rpc_error + credit_view list \<times> page_info" where
  "credit_list_service texts sentence now db = answer_query texts now (\<lambda>q. page_admitted (cq_page q) (cq_size q))
     (\<lambda>q. mapErr (\<lambda>e. to_rpc_error billing_verdict sentence now (Billing_Kernel e)) (list_credit q db))"

text \<open>
  A number travels as JSON, where NaN and the infinities are written as null.  The rule of an optional
  field accepts null, which then counts as zero minutes.
\<close>

datatype json_number = Json_Absent | Json_Null | Json_Number js_number

definition json_of_number :: "js_number \<Rightarrow> json_number" where
  "json_of_number n = (case n of Js_Int i \<Rightarrow> Json_Number n | Js_Fraction q \<Rightarrow> Json_Number n | _ \<Rightarrow> Json_Null)"

definition minutes_admitted :: "json_number \<Rightarrow> bool" where
  "minutes_admitted m = (case m of Json_Number (Js_Int i) \<Rightarrow> 0 \<le> i | Json_Number _ \<Rightarrow> False | _ \<Rightarrow> True)"

definition minutes_read :: "json_number \<Rightarrow> int option" where
  "minutes_read m = (case m of Json_Number (Js_Int i) \<Rightarrow> Some i | Json_Null \<Rightarrow> Some 0 | _ \<Rightarrow> None)"

definition invoice_query_admitted :: "invoice_query \<times> json_number \<Rightarrow> bool" where
  "invoice_query_admitted x \<longleftrightarrow> (case x of (q, m) \<Rightarrow>
     unless_absent (iq_status q) (\<lambda>s. s = ''issued'' \<or> s = ''paid'') \<and>
     unless_absent (iq_order q) (\<lambda>r. reference_shape ''ORD'' r) \<and> minutes_admitted m \<and> page_admitted (iq_page q) (iq_size q))"

definition invoice_list_service ::
    "(invoice_query \<times> json_number \<Rightarrow> violation list) \<Rightarrow> instant \<Rightarrow> billing_db \<Rightarrow> invoice_query \<times> json_number \<Rightarrow>
      rpc_error + invoice_view list \<times> page_info" where
  "invoice_list_service texts now db = answer_query texts now invoice_query_admitted
     (\<lambda>(q, m). Inr (list_invoices (q \<lparr> iq_issued_before := minutes_read m \<rparr>) now db))"

text \<open>stock.replenish: at least one line, each for a positive number of units.\<close>

definition replenish_service ::
    "(string \<times> units_line list \<Rightarrow> violation list) \<Rightarrow> (fulfillment_error \<Rightarrow> string) \<Rightarrow> instant \<Rightarrow>
      string \<times> units_line list \<Rightarrow> fulfillment_db \<Rightarrow> (rpc_error + stock_view list) \<times> fulfillment_db" where
  "replenish_service texts sentence now q db =
     (if snd q = [] \<or> list_ex (\<lambda>l. ul_units l \<le> 0) (snd q) then (Inl (validation_rpc_error now (texts q)), db)
      else case execute_replenish now (fst q) (snd q) db of
        (res, db') \<Rightarrow> (mapErr (to_rpc_error fulfillment_verdict sentence now) res, db'))"

text \<open>A failure of the cancellation leaves the responder; the framework answers its text \<open>thrown\<close>.\<close>

definition cancel_service ::
    "violation list \<Rightarrow> (handler_error \<Rightarrow> string) \<Rightarrow> instant \<Rightarrow> string \<Rightarrow>
      (string \<Rightarrow> (handler_error + cancel_result) \<times> orders_db) \<Rightarrow> orders_db \<Rightarrow> (rpc_error + cancel_reply) \<times> orders_db" where
  "cancel_service vs thrown now raw run db =
     (if vs \<noteq> [] then (Inl (validation_rpc_error now vs), db)
      else case run raw of
        (Inl e, db') \<Rightarrow> (Inl \<lparr> re_code = Code_Internal_Error, re_message = thrown e, re_details = [], re_at = now \<rparr>, db')
      | (Inr r, db') \<Rightarrow> (to_cancel_reply now raw r, db'))"

section \<open>The gateway\<close>

definition parse_positive_int :: "(string \<Rightarrow> js_number) \<Rightarrow> string option \<Rightarrow> int \<Rightarrow> int \<Rightarrow> int \<Rightarrow> gateway_error + nat" where
  "parse_positive_int number_of raw fallback low high = (case raw of
     None \<Rightarrow> Inr (nat fallback)
   | Some s \<Rightarrow> (case number_of s of
       Js_Int i \<Rightarrow> if low \<le> i \<and> i \<le> high then Inr (nat i) else Inl Bad_Request
     | _ \<Rightarrow> Inl Bad_Request))"

definition parse_page_params :: "(string \<Rightarrow> js_number) \<Rightarrow> string option \<Rightarrow> string option \<Rightarrow> gateway_error + nat \<times> nat" where
  "parse_page_params number_of page per_page =
     bindR (parse_positive_int number_of page 1 1 max_safe) (\<lambda>p.
     bindR (parse_positive_int number_of per_page 25 1 200) (\<lambda>n. Inr (p, n)))"

definition answer_read :: "(gateway_error + 'q) \<Rightarrow> ('q \<Rightarrow> 'r wire_result) \<Rightarrow> 'r http_answer" where
  "answer_read parsed fetch = (case parsed of
     Inl e \<Rightarrow> Http_Problem (classify_problem e)
   | Inr q \<Rightarrow> (case gateway_call (fetch q) of
       Inl e \<Rightarrow> Http_Problem (classify_problem (Rpc_Failed e))
     | Inr r \<Rightarrow> Http_Answer 200 r))"

definition answer_stock_list ::
    "(string \<Rightarrow> js_number) \<Rightarrow> string option \<Rightarrow> string option \<Rightarrow> string option \<Rightarrow> string option \<Rightarrow> string option \<Rightarrow>
      (stock_query \<Rightarrow> (stock_view list \<times> page_info) wire_result) \<Rightarrow> (stock_view list \<times> page_info) http_answer" where
  "answer_stock_list number_of company product below page per_page = answer_read
     (bindR (parse_page_params number_of page per_page) (\<lambda>(p, n). Inr \<lparr> tq_company = company, tq_product = product,
        tq_below = Some (below = Some ''true''), tq_page = Some p, tq_size = Some n \<rparr>))"

definition answer_credit_list ::
    "(string \<Rightarrow> js_number) \<Rightarrow> string option \<Rightarrow> string option \<Rightarrow> string option \<Rightarrow> string option \<Rightarrow>
      (credit_query \<Rightarrow> (credit_view list \<times> page_info) wire_result) \<Rightarrow> (credit_view list \<times> page_info) http_answer" where
  "answer_credit_list number_of retailer company page per_page = answer_read
     (bindR (parse_page_params number_of page per_page) (\<lambda>(p, n). Inr \<lparr> cq_retailer = retailer, cq_company = company,
        cq_page = Some p, cq_size = Some n \<rparr>))"

definition answer_invoice_list ::
    "(string \<Rightarrow> js_number) \<Rightarrow> string option \<Rightarrow> string option \<Rightarrow> string option \<Rightarrow> string option \<Rightarrow> string option \<Rightarrow>
      string option \<Rightarrow> string option \<Rightarrow>
      (invoice_query \<times> json_number \<Rightarrow> (invoice_view list \<times> page_info) wire_result) \<Rightarrow> (invoice_view list \<times> page_info) http_answer" where
  "answer_invoice_list number_of status retailer company order minutes page per_page = answer_read
     (bindR (parse_page_params number_of page per_page) (\<lambda>(p, n). Inr
       (\<lparr> iq_status = (if truthy status then status else None), iq_retailer = retailer, iq_company = company, iq_order = order,
          iq_issued_before = None, iq_page = Some p, iq_size = Some n \<rparr>,
        case minutes of None \<Rightarrow> Json_Absent | Some m \<Rightarrow> json_of_number (number_of m))))"

text \<open>A body that passed the validation of the gateway is forwarded as it is.\<close>

definition answer_replenish ::
    "string \<times> units_line list \<Rightarrow> (string \<times> units_line list \<Rightarrow> stock_view list wire_result) \<Rightarrow> stock_view list http_answer" where
  "answer_replenish q = answer_read (Inr q)"

section \<open>What is read\<close>

lemma parse_positive_int_range:
  assumes "parse_positive_int number_of raw fallback low high = Inr n" "1 \<le> low" "low \<le> fallback" "fallback \<le> high"
  shows "1 \<le> n \<and> int n \<le> high"
  using assms by (auto simp: parse_positive_int_def split: option.splits js_number.splits if_splits)

lemma parsed_page_admitted:
  assumes "parse_page_params number_of page per_page = Inr (p, n)"
  shows "page_admitted (Some p) (Some n)"
proof -
  have "parse_positive_int number_of page 1 1 max_safe = Inr p" "parse_positive_int number_of per_page 25 1 200 = Inr n"
    using assms by (auto simp: parse_page_params_def bindR_Inr)
  then have "1 \<le> p \<and> int p \<le> max_safe" "1 \<le> n \<and> int n \<le> 200"
    by (auto dest!: parse_positive_int_range simp: max_safe_def)
  then show ?thesis by (simp add: page_admitted_def)
qed

text \<open>A page that the gateway lets through is the page of the table.\<close>

lemma stock_page_read_through:
  assumes "parse_page_params number_of page per_page = Inr (p, n)"
  shows "answer_stock_list number_of company product below page per_page (\<lambda>q. Wire_Body (stock_list_service texts now db q)) =
    Http_Answer 200 (list_stock \<lparr> tq_company = company, tq_product = product, tq_below = Some (below = Some ''true''),
      tq_page = Some p, tq_size = Some n \<rparr> db)"
  using assms parsed_page_admitted [OF assms]
  by (simp add: answer_stock_list_def answer_read_def stock_list_service_def answer_query_def gateway_call_def)

lemma credit_page_read_through:
  assumes "parse_page_params number_of page per_page = Inr (p, n)"
    and "list_credit \<lparr> cq_retailer = retailer, cq_company = company, cq_page = Some p, cq_size = Some n \<rparr> db = Inr r"
  shows "answer_credit_list number_of retailer company page per_page
      (\<lambda>q. Wire_Body (credit_list_service texts sentence now db q)) = Http_Answer 200 r"
  using assms parsed_page_admitted [OF assms(1)]
  by (simp add: answer_credit_list_def answer_read_def credit_list_service_def answer_query_def gateway_call_def)

lemma bad_page_refused:
  assumes "parse_page_params number_of page per_page = Inl e"
  shows "answer_stock_list number_of company product below page per_page fetch = Http_Problem (classify_problem e)"
  using assms by (simp add: answer_stock_list_def answer_read_def)

text \<open>
  An age that is no number is not refused: it becomes null on its way, and the list shows the invoices
  issued up to now as if zero minutes had been asked for.
\<close>

lemma malformed_age_is_zero_minutes:
  assumes "parse_page_params number_of page per_page = Inr (p, n)" and "number_of text = Js_NaN"
  shows "answer_invoice_list number_of None retailer company None (Some text) page per_page
      (\<lambda>q. Wire_Body (invoice_list_service texts now db q)) =
    Http_Answer 200 (list_invoices \<lparr> iq_status = None, iq_retailer = retailer, iq_company = company, iq_order = None,
      iq_issued_before = Some 0, iq_page = Some p, iq_size = Some n \<rparr> now db)"
  using assms parsed_page_admitted [OF assms(1)]
  by (simp add: answer_invoice_list_def answer_read_def invoice_list_service_def answer_query_def gateway_call_def
      invoice_query_admitted_def json_of_number_def minutes_admitted_def minutes_read_def truthy_def)

text \<open>What the gateway tells a client whose cancellation failed.\<close>

lemma failed_cancel_is_internal:
  assumes "run raw = (Inl e, db')"
  shows "\<exists>i. cancel_service [] thrown now raw run db = (Inl i, db') \<and>
    gateway_cancel (Wire_Body (Inl i)) = Inl (Rpc_Failed (Rpc_Refused ''INTERNAL_ERROR'' None))"
  using assms by (simp add: cancel_service_def gateway_cancel_def gateway_call_def text_detail_def)

end
