(* ===== verification/Spec2Isabelle.thy ===== *)
theory Spec2Isabelle
  imports Order_Aggregate Saga_Examples Cancel_Examples Dispatch_Examples Fact_Retry
    Place_Examples Kernel_Properties
    Stock_Examples Billing_Examples Projector_Examples Notify_Examples Gateway_Examples
    Stock_Queries Credit_Queries Rpc_Composition Gateway_Commands
    Saga_Intake Order_To_Stock Order_To_Cash Gateway_Reads
begin

text \<open>
  A verification library for order-to-cash, an event-driven system of services that take an
  order from placement to payment. The orders service owns the order and runs the saga: it
  publishes facts through a transactional outbox, reacts to the facts of the fulfillment and
  billing services, and owes them commands that a dispatcher and a sweeper deliver.

  Parts of the program and the theories that model them:

  \<^item> Prelude: the result type of fallible operations (an error on the left, a value on the
    right), maps and lists of rows, and the lemma collections of the development.
  \<^item> Js_Number, Js_Text: JavaScript numbers as integers with the safe-integer bound and the
    rounding of binary64 written out, and the text operations the kernel uses.
  \<^item> Kernel_Values, Kernel_Money (packages/shared-kernel/src/domain): identifiers, business
    references, GLN, quantity, money, currency exponents and the text of amounts.
    Kernel_Properties: the GLN check digit, the six-digit references, exact money arithmetic
    and the lossless text of an amount.
  \<^item> Contracts (packages/contracts/src/generated/asyncapi.types.ts): facts and commands as
    records and datatypes with the constructors of the contract.
  \<^item> Order_Domain, Order_Aggregate (apps/orders/src/domain): the statuses, the transition table
    T-1, totals, errors and events, and every operation of the Order class.
  \<^item> Saga_Steps, Saga_Facts, Saga_Examples (apps/orders/src/application): the step table, the
    payloads of the commands, and the handler of a consumed fact in its transaction.
  \<^item> Orders_Store, Command_Store, Idempotent_Consumer (apps/orders/src/infrastructure): the tables
    of the orders database, the order repository, the outbox recorder, the command store and the
    once-only consumer. The interfaces their clients use are the locales saga_command_store and
    processed_ledger, interpreted on these definitions.
  \<^item> Saga_Dispatch, Dispatch_Examples (apps/orders/src/infrastructure/saga): the dispatcher, the
    handler of a first park, and the sweeper.
  \<^item> Cancel_Order, Cancel_Examples: the operator's cancellation, with the state at the read and
    the state at the transaction as two arguments.
  \<^item> Fact_Retry: the bounded in-line retry of a fact and its dead-lettering, whose publication may fail.
  \<^item> Place_Order, Place_Properties, Place_Examples: placement, idempotent by request id, with the
    number allocator: a placed order is read back as placed, a repeated request answers the first
    order, the loser of a race answers the winner's, and numbers never collide.
  \<^item> Stock_Domain, Stock_Store, Stock_Handlers, Despatch (apps/fulfillment/src): the stock item
    and its reservations, the order-scoped services over several items, the tables and
    repositories, and the handlers of stock.reserve, stock.release, stock.replenish and
    despatch.create. Table_Rows holds the upsert of a table and the rows of an outbox.
  \<^item> Stock_Ledger, Stock_Safety, Stock_Properties, Stock_Examples: the closed form of every
    operation on an item, the same on the tables, and the properties of the handlers: a request is
    reserved in full or not at all, a release gives back what is still reserved, a despatch ships
    exactly what was reserved, and no sequence of handlers ever oversells a stock row.

  \<^item> Credit_Domain, Invoice_Domain, Billing_Store, Billing_Handlers (apps/billing/src): the credit line
    with its ledger of holds, consumptions and releases, the invoice, the tables and repositories,
    and the commands credit.hold, credit.release, invoice.issue and payment.register. The
    credit-decision port is an argument of the hold; both adapters of it are definitions.
  \<^item> Billing_Ledger, Credit_Properties, Invoice_Properties, Billing_Examples: no sequence of billing
    commands commits a line beyond its limit, the outcome of a hold on every branch, a release that
    gives back exactly what an order ties up, an invoice issued once for its exact total, and a
    payment that settles it, gives the credit back and is a duplicate when it comes again, except
    when its invoice identifier is written in upper case.

  \<^item> Stock_Queries, Stock_Progress, Billing_Queries, Credit_Queries: the read side of the two
    services. The availability check agrees with the reservation for orders of distinct products, a
    reservation that can be supplied fits the columns and succeeds, the invoices are listed newest
    first and page by page, and the figures of a listed credit line, computed from one grouped read,
    are those of its ledger.
  \<^item> Fact_Projection, Timeline_Order, Read_Model, Projector_Intake (apps/projector/src): the delta of
    a fact, the causal order of the timeline by relaxation, the document with its update pipeline and
    its dedup filter, the Kafka controller and the two rewrites of stored documents at boot.
    Replication states the contract of a consumer of facts in any order as the locale
    convergent_replica; Read_Model_Properties interprets it on the projector, so that a document
    depends on the set of the delivered facts alone, reflects exactly these, and its timeline
    settles. Projector_Examples holds the inputs.
  \<^item> Outbox_Relay (apps/orders/src/infrastructure/outbox, drizzle-unit-of-work.ts): the claim of a
    batch that skips the rows another relay holds, its publication and acknowledgements, the polling
    service, and the unit of work with its deadlock retries. Every fact that is recorded is published
    within a stated number of cycles.
  \<^item> Notify_Format, Notify_Dispatch, Notify_Examples (apps/notifications/src): the seven mails with
    their HTML, the degrading sender with its classifier, the compensating delete, and the routing of
    a delivery: a fact is notified at most once. The locale processed_ledger is interpreted here too.
  \<^item> Gateway_Stream, Gateway_Orders, Gateway_Payments, Gateway_Commands, Gateway_Reads,
    Gateway_Examples (apps/gateway/src): the event stream with its replay, the order queries and the
    window of the identifiers just handed out, the bounded scan for an invoice, the placement and
    cancellation of an order with their responders, the live reads, and the translation of every
    error into a problem. A client that reconnects misses nothing within the buffer, and the answer
    to a placement says what happened to the order.
  \<^item> Rpc_Errors, Rpc_Wire, Rpc_Services, Rpc_Composition: the error replies of the three services,
    what a request can end with and what its caller makes of it, the responders of the commands, and
    the saga dispatcher against them. The locale repeatable_command is the contract of a command that
    may be sent again; it is interpreted on the reservation, the despatch and the hold, so that lost
    replies never make it happen twice. A release that was answered with a conflict is not retried.
  \<^item> Fact_Envelope, Saga_Intake: the parser of an envelope that the Kafka controllers share, and the
    controller of the saga around the handler of a fact: however the attempts of a delivery end, the
    fact takes effect at most once, and a delivery whose offset is committed has done the fact or
    published a dead letter.
  \<^item> Order_To_Stock: from the placement over the availability check of the other service to the
    reservation that is owed: an order that is accepted gets its stock, when nothing else takes it in
    between.
  \<^item> Order_To_Cash: from the order over its held credit and its invoice to the payment: the total of
    the order is the amount of each, whatever billing commands run in between.

  How the parts interact. The gateway forwards commands and queries over request and reply; a command
  changes the tables of one service and its outbox in one transaction; the relay publishes the outbox;
  the saga, the projector and the notifications consume what is published, each once; the saga owes
  commands that the dispatcher sends until they are answered. Each arrow of this loop is a definition:
  Gateway_Commands, the handlers, Outbox_Relay, the intakes, and Saga_Dispatch.

  Conventions. A service's database is one record of tables; a transaction is a function on it
  that is all or nothing. Calls that leave the process (responders, broker, mail) are arguments:
  the sequence of their replies. Fresh identifiers and the clock are arguments. Where another
  session can commit between two statements, the change it makes is an explicit step. What a library
  decides or words is an argument: the verdict of the request validation where its rules are not
  written out, the number a text reads as, the ISO text of an instant, the message of an exception.
  Texts of the databases are compared character by character, whereas MariaDB compares them under a
  collation. Numbers are JavaScript numbers where rounding can show; the theorems about sums ask for
  amounts whose total stays below 2^49 or 2^53 minor units.

  Bounds. Loops are structural or bounded by the code's own limit, so no fuel is chosen by the model:
  an invoice is looked for in at most 5 pages of 200, the depths of a timeline settle within as many
  rounds as it has entries, an attempt of a command or a fact is repeated as often as its
  configuration allows, and a batch of the relay or of the sweeper has the configured size.

  Not modelled: the NestJS wiring, the Kafka, NATS and MongoDB clients with their serializers, tracing,
  metrics and health checks; the rules of the request validation beyond those of the listings, of
  stock.check and of stock.replenish; envelope fields of
  another JSON type than the contract's; login, tokens and the login throttle, which are calls of
  libraries; the catalog of reference data; the reading of settings from the environment beyond the
  retry policy and the choice of the mail sender; the copies of the relay, the retry and the once-only
  consumer in the other services, which hold the same code; the web front end, the seed data and the
  generated HTTP types, which have no logic of the order process.
\<close>

end
